(* ===== verification/Prelude.thy ===== *)
theory Prelude
  imports Main "HOL-Library.Word" "HOL-Library.Monad_Syntax"
begin

text \<open>
  Shared vocabulary of the development: the C integer types at their widths, octet strings and
  their big- and little-endian readings, counting loops, exhaustive reasoning over an octet, and
  the status codes of \<^verbatim>\<open>srtp/crypto/include/err.h\<close>.

  The modelled target is the one the repository builds for (Win32, \<^verbatim>\<open>config.h\<close>):
  little-endian, \<open>int\<close>, \<open>long\<close> and \<open>size_t\<close> of 32 bits, 64-bit arithmetic available.

  A C function that can touch memory outside its objects returns an \<open>option\<close>: \<open>None\<close> is the
  undefined behaviour, so a theorem that a call yields \<open>Some\<close> is a memory-safety theorem.
\<close>

unbundle bit_operations_syntax

type_synonym u8 = "8 word"
type_synonym u16 = "16 word"
type_synonym u32 = "32 word"
type_synonym u64 = "64 word"

type_synonym octets = "u8 list"

named_theorems loop_simps \<open>closed forms of the counting loops\<close>
named_theorems octet_simps \<open>octet strings read as machine words and back\<close>

section \<open>Status codes\<close>

text \<open>The enumeration \<^verbatim>\<open>err_status_t\<close> of \<^verbatim>\<open>err.h\<close>, in its order.\<close>

datatype err_status_t =
    err_status_ok | err_status_fail | err_status_bad_param | err_status_alloc_fail
  | err_status_dealloc_fail | err_status_init_fail | err_status_terminus | err_status_auth_fail
  | err_status_cipher_fail | err_status_replay_fail | err_status_replay_old | err_status_algo_fail
  | err_status_no_such_op | err_status_no_ctx | err_status_cant_check | err_status_key_expired
  | err_status_socket_err | err_status_signal_err | err_status_nonce_bad | err_status_read_fail
  | err_status_write_fail | err_status_parse_err | err_status_encode_err
  | err_status_semaphore_err | err_status_pfkey_err

section \<open>Counting loops\<close>

text \<open>
  \<^verbatim>\<open>for (i = a; i < b; i++) body\<close> is \<open>fold body [a..<b]\<close>. The loops of the
  library store into the array they read; each store at index \<open>i\<close> depends only on entries the
  loop has not overwritten yet, and then the loop computes a simultaneous assignment.
\<close>

lemma length_fold_update [simp]: "length (fold (\<lambda>i x. x[i := g i x]) is x) = length x"
  by (induction "is" arbitrary: x) simp_all

lemma fold_update_ahead:
  assumes "\<And>i y. i < m \<Longrightarrow> length y = length x \<Longrightarrow>
      (\<And>j. i \<le> j \<Longrightarrow> j < length x \<Longrightarrow> y ! j = x ! j) \<Longrightarrow> g i y = g i x"
    and "m \<le> length x" and "j < length x"
  shows "fold (\<lambda>i x. x[i := g i x]) [0..<m] x ! j = (if j < m then g j x else x ! j)"
  using assms
proof (induction m arbitrary: j)
  case 0
  then show ?case by simp
next
  case (Suc m)
  let ?y = "fold (\<lambda>i x. x[i := g i x]) [0..<m] x"
  have IH: "?y ! k = (if k < m then g k x else x ! k)" if "k < length x" for k
  proof (rule Suc.IH)
    show "g i y = g i x" if "i < m" and "length y = length x"
      and "\<And>j. i \<le> j \<Longrightarrow> j < length x \<Longrightarrow> y ! j = x ! j" for i y
      by (rule Suc.prems(1)) (use that in simp_all)
  qed (use that Suc.prems(2) in simp_all)
  have "g m ?y = g m x"
    by (rule Suc.prems(1)) (simp_all add: IH)
  then show ?case
    using IH [OF \<open>j < length x\<close>] Suc.prems(2,3) by (auto simp: nth_list_update less_Suc_eq)
qed

lemma fold_update_const:
  assumes "j < length x" and "b \<le> length x"
  shows "fold (\<lambda>i x. x[i := c]) [a..<b] x ! j = (if a \<le> j \<and> j < b then c else x ! j)"
  using assms
proof (induction b arbitrary: j)
  case (Suc b)
  then show ?case by (cases "a \<le> b") (auto simp: nth_list_update less_Suc_eq)
qed simp

section \<open>Exhaustive reasoning over an octet\<close>

lemma unat_u8_less [simp]: "unat (x :: u8) < 256"
  using unsigned_less [of x] by simp

lemma all_u8_iff: "(\<forall>x :: u8. P x) \<longleftrightarrow> list_all (\<lambda>n. P (word_of_nat n)) [0..<256]"
proof
  assume all: "list_all (\<lambda>n. P (word_of_nat n)) [0..<256]"
  show "\<forall>x. P x"
  proof
    fix x :: u8
    have "unat x \<in> set [0..<256]" by simp
    with all have "P (word_of_nat (unat x))" unfolding list_all_iff by blast
    then show "P x" by simp
  qed
qed (simp add: list_all_iff)

lemma all_u8I: "list_all (\<lambda>n. P (word_of_nat n)) [0..<256] \<Longrightarrow> P (x :: u8)"
  using all_u8_iff [of P] by blast

text \<open>A literal table that was evaluated to the values of a function can be read as that function.\<close>

lemma table_lookup: "t = map f [0..<n] \<Longrightarrow> i < n \<Longrightarrow> t ! i = f i"
  by simp

section \<open>Octet strings and machine words\<close>

text \<open>
  Memory is a list of octets. \<open>le32\<close> is what a little-endian load of a \<^verbatim>\<open>uint32_t\<close> yields,
  \<open>le32_bytes\<close> what a store leaves; \<open>bswap32\<close> is \<^verbatim>\<open>ntohl\<close>/\<^verbatim>\<open>htonl\<close> on this target.
\<close>

definition le32 :: "u8 \<Rightarrow> u8 \<Rightarrow> u8 \<Rightarrow> u8 \<Rightarrow> u32" where
  "le32 a b c d = ucast a OR push_bit 8 (ucast b) OR push_bit 16 (ucast c) OR push_bit 24 (ucast d)"

definition le32_bytes :: "u32 \<Rightarrow> octets" where
  "le32_bytes w = [ucast w, ucast (drop_bit 8 w), ucast (drop_bit 16 w), ucast (drop_bit 24 w)]"

definition be32 :: "u8 \<Rightarrow> u8 \<Rightarrow> u8 \<Rightarrow> u8 \<Rightarrow> u32" where
  "be32 a b c d = le32 d c b a"

definition be32_bytes :: "u32 \<Rightarrow> octets" where
  "be32_bytes w = rev (le32_bytes w)"

definition bswap32 :: "u32 \<Rightarrow> u32" where
  "bswap32 w = be32 (ucast w) (ucast (drop_bit 8 w)) (ucast (drop_bit 16 w)) (ucast (drop_bit 24 w))"

fun words_le :: "octets \<Rightarrow> u32 list" where
  "words_le (a # b # c # d # r) = le32 a b c d # words_le r"
| "words_le _ = []"

definition bytes_le :: "u32 list \<Rightarrow> octets" where
  "bytes_le ws = concat (map le32_bytes ws)"

lemma bit_le32 [octet_simps]:
  "bit (le32 a b c d) n \<longleftrightarrow>
     (if n < 8 then bit a n else if n < 16 then bit b (n - 8)
      else if n < 24 then bit c (n - 16) else if n < 32 then bit d (n - 24) else False)"
  by (auto simp: le32_def bit_simps dest: bit_imp_le_length)

lemma u8_eqI: "(\<And>n. n < 8 \<Longrightarrow> bit a n = bit b n) \<Longrightarrow> a = (b :: u8)"
  by (rule bit_word_eqI) simp

lemma u32_eqI: "(\<And>n. n < 32 \<Longrightarrow> bit a n = bit b n) \<Longrightarrow> a = (b :: u32)"
  by (rule bit_word_eqI) simp

lemma le32_bytes_le32 [simp]: "le32_bytes (le32 a b c d) = [a, b, c, d]"
  unfolding le32_bytes_def
  by (intro list.inject [THEN iffD2] conjI u8_eqI refl) (auto simp: bit_simps bit_le32)

lemma le32_le32_bytes [simp]:
  "le32 (ucast w) (ucast (drop_bit 8 w)) (ucast (drop_bit 16 w)) (ucast (drop_bit 24 w)) = w"
  by (rule u32_eqI) (auto simp: bit_simps bit_le32)

lemma ucast_le32 [octet_simps]:
  "ucast (le32 a b c d) = a" "ucast (drop_bit 8 (le32 a b c d)) = b"
  "ucast (drop_bit 16 (le32 a b c d)) = c" "ucast (drop_bit 24 (le32 a b c d)) = d"
  using le32_bytes_le32 [of a b c d] by (simp_all only: le32_bytes_def list.inject)

lemma le32_inject [simp]: "le32 a b c d = le32 a' b' c' d' \<longleftrightarrow> a = a' \<and> b = b' \<and> c = c' \<and> d = d'"
proof
  assume "le32 a b c d = le32 a' b' c' d'"
  then have "le32_bytes (le32 a b c d) = le32_bytes (le32 a' b' c' d')" by (rule arg_cong)
  then show "a = a' \<and> b = b' \<and> c = c' \<and> d = d'" by (simp only: le32_bytes_le32 list.inject)
qed simp

lemma le32_cases: obtains a b c d where "w = le32 a b c d"
  by (rule that) (rule le32_le32_bytes [symmetric])

lemma le32_xor [octet_simps]:
  "le32 a b c d XOR le32 a' b' c' d' = le32 (a XOR a') (b XOR b') (c XOR c') (d XOR d')"
  by (rule u32_eqI) (simp add: bit_xor_iff bit_le32)

lemma bswap32_le32 [octet_simps]: "bswap32 (le32 a b c d) = le32 d c b a"
  unfolding bswap32_def be32_def ucast_le32 ..

lemma bswap32_bswap32 [simp]: "bswap32 (bswap32 w) = w"
  by (rule le32_cases [of w]) (simp add: octet_simps)

lemma length_le32_bytes [simp]: "length (le32_bytes w) = 4"
  by (simp add: le32_bytes_def)

lemma bytes_le_Nil [simp]: "bytes_le [] = []"
  by (simp add: bytes_le_def)

lemma bytes_le_Cons [simp]: "bytes_le (w # ws) = le32_bytes w @ bytes_le ws"
  by (simp add: bytes_le_def)

lemma length_bytes_le [simp]: "length (bytes_le ws) = 4 * length ws"
  by (induction ws) simp_all

lemma words_le_bytes_le [simp]: "words_le (bytes_le ws) = ws"
  by (induction ws) (simp_all add: le32_bytes_def)

lemma bytes_le_words_le [simp]: "4 dvd length bs \<Longrightarrow> bytes_le (words_le bs) = bs"
proof (induction bs rule: words_le.induct)
  case (1 a b c d r)
  then have "4 dvd length r" by (simp add: dvd_eq_mod_eq_0)
  with 1 show ?case by simp
qed (simp_all add: dvd_eq_mod_eq_0)

lemma length_words_le [simp]: "length (words_le bs) = length bs div 4"
  by (induction bs rule: words_le.induct) simp_all

section \<open>Signed readings\<close>

lemma sint_small: "unat (w :: u32) < 2 ^ 31 \<Longrightarrow> sint w = int (unat w)"
proof -
  assume small: "unat w < 2 ^ 31"
  have "uint w = int (unat w)" by simp
  moreover have "int (unat w) < 2 ^ 31" using small by (metis of_nat_less_numeral_power_cancel_iff)
  moreover have "sint w = signed_take_bit 31 (uint w)" by (simp add: sint_uint)
  ultimately show ?thesis by (simp only: signed_take_bit_int_eq_self)
qed

end
