(* ===== verification/Datatypes.thy ===== *)
theory Datatypes
  imports Prelude
begin

text \<open>
  \<^verbatim>\<open>srtp/crypto/math/datatypes.c\<close> with the macros of \<^verbatim>\<open>srtp/crypto/include/datatypes.h\<close>:
  octet weights, hexadecimal and base-64 conversion, 128-bit blocks, bit vectors of any length,
  and octet strings. A \<^verbatim>\<open>v128_t\<close> is its four 32-bit words (the member \<^verbatim>\<open>v32\<close> of the union);
  the member \<^verbatim>\<open>v8\<close> is \<open>bytes_le\<close> of them. Bit \<open>n\<close> of either kind of vector is bit \<open>n mod 32\<close> of
  word \<open>n div 32\<close>, and both left shifts are proved to move every bit down by the shift.
\<close>

section \<open>Octets, hexadecimal and base 64\<close>

definition octet_weight :: "int list" where
  "octet_weight =
    [0, 1, 1, 2, 1, 2, 2, 3, 1, 2, 2, 3, 2, 3, 3, 4, 1, 2, 2, 3, 2, 3, 3, 4, 2, 3, 3, 4, 3, 4, 4, 5,
     1, 2, 2, 3, 2, 3, 3, 4, 2, 3, 3, 4, 3, 4, 4, 5, 2, 3, 3, 4, 3, 4, 4, 5, 3, 4, 4, 5, 4, 5, 5, 6,
     1, 2, 2, 3, 2, 3, 3, 4, 2, 3, 3, 4, 3, 4, 4, 5, 2, 3, 3, 4, 3, 4, 4, 5, 3, 4, 4, 5, 4, 5, 5, 6,
     2, 3, 3, 4, 3, 4, 4, 5, 3, 4, 4, 5, 4, 5, 5, 6, 3, 4, 4, 5, 4, 5, 5, 6, 4, 5, 5, 6, 5, 6, 6, 7,
     1, 2, 2, 3, 2, 3, 3, 4, 2, 3, 3, 4, 3, 4, 4, 5, 2, 3, 3, 4, 3, 4, 4, 5, 3, 4, 4, 5, 4, 5, 5, 6,
     2, 3, 3, 4, 3, 4, 4, 5, 3, 4, 4, 5, 4, 5, 5, 6, 3, 4, 4, 5, 4, 5, 5, 6, 4, 5, 5, 6, 5, 6, 6, 7,
     2, 3, 3, 4, 3, 4, 4, 5, 3, 4, 4, 5, 4, 5, 5, 6, 3, 4, 4, 5, 4, 5, 5, 6, 4, 5, 5, 6, 5, 6, 6, 7,
     3, 4, 4, 5, 4, 5, 5, 6, 4, 5, 5, 6, 5, 6, 6, 7, 4, 5, 5, 6, 5, 6, 6, 7, 5, 6, 6, 7, 6, 7, 7, 8]"

definition octet_get_weight :: "u8 \<Rightarrow> int" where
  "octet_get_weight octet = octet_weight ! unat octet"

definition hex_digits :: string where
  "hex_digits = ''0123456789abcdef''"

definition nibble_to_hex_char :: "u8 \<Rightarrow> u8" where
  "nibble_to_hex_char nibble = of_char (hex_digits ! unat (nibble AND 0xF))"

text \<open>
  \<^verbatim>\<open>octet_string_hex_string\<close> prints into the static array \<^verbatim>\<open>bit_string\<close> of
  \<^verbatim>\<open>MAX_PRINT_STRING_LEN\<close> octets; the loop leaves its index at the next even number, where the
  terminating zero goes. The result is the printed string; \<open>None\<close> is a store past the end of the
  array or a load past the end of the source.
\<close>

definition MAX_PRINT_STRING_LEN :: int where
  "MAX_PRINT_STRING_LEN = 1024"

fun octets_to_hex :: "octets \<Rightarrow> octets" where
  "octets_to_hex [] = []"
| "octets_to_hex (b # bs) =
     nibble_to_hex_char (drop_bit 4 b) # nibble_to_hex_char (b AND 0xF) # octets_to_hex bs"

definition octet_string_hex_string :: "octets \<Rightarrow> int \<Rightarrow> octets option" where
  "octet_string_hex_string s len =
     (let len2 = len * 2;
          len3 = (if len2 > MAX_PRINT_STRING_LEN then MAX_PRINT_STRING_LEN - 1 else len2);
          n = nat ((len3 + 1) div 2)
      in if 2 * int n < MAX_PRINT_STRING_LEN \<and> n \<le> length s
         then Some (octets_to_hex (take n s)) else None)"

definition hex_char_table :: "(char \<times> int) list" where
  "hex_char_table =
    [(CHR ''0'', 0), (CHR ''1'', 1), (CHR ''2'', 2), (CHR ''3'', 3), (CHR ''4'', 4),
     (CHR ''5'', 5), (CHR ''6'', 6), (CHR ''7'', 7), (CHR ''8'', 8), (CHR ''9'', 9),
     (CHR ''a'', 10), (CHR ''A'', 10), (CHR ''b'', 11), (CHR ''B'', 11), (CHR ''c'', 12),
     (CHR ''C'', 12), (CHR ''d'', 13), (CHR ''D'', 13), (CHR ''e'', 14), (CHR ''E'', 14),
     (CHR ''f'', 15), (CHR ''F'', 15)]"

definition hex_char_to_nibble :: "u8 \<Rightarrow> int" where
  "hex_char_to_nibble c =
     (case map_of hex_char_table (char_of (unat c)) of Some n \<Rightarrow> n | None \<Rightarrow> -1)"

text \<open>A C string is the octets up to its terminating zero; \<open>None\<close> if there is none.\<close>

fun is_hex_string :: "octets \<Rightarrow> bool option" where
  "is_hex_string [] = None"
| "is_hex_string (c # s) =
     (if c = 0 then Some True
      else if hex_char_to_nibble c = -1 then Some False else is_hex_string s)"

fun hex_string_to_octet_string_loop :: "octets \<Rightarrow> int \<Rightarrow> int \<Rightarrow> octets \<Rightarrow> (int \<times> octets) option" where
  "hex_string_to_octet_string_loop hex hex_len len raw =
     (if hex_len < len
      then (case hex of
          [] \<Rightarrow> None
        | h0 # hex1 \<Rightarrow>
            if hex_char_to_nibble h0 = -1 then Some (hex_len, raw)
            else (case hex1 of
                [] \<Rightarrow> None
              | h1 # hex2 \<Rightarrow>
                  if hex_char_to_nibble h1 = -1 then Some (hex_len + 1, raw)
                  else hex_string_to_octet_string_loop hex2 (hex_len + 2) len
                    (raw @ [push_bit 4 (word_of_int (hex_char_to_nibble h0)) OR
                            word_of_int (hex_char_to_nibble h1)])))
      else Some (hex_len, raw))"

declare hex_string_to_octet_string_loop.simps [simp del]

text \<open>The result is the number of digits consumed and the octets written to \<^verbatim>\<open>raw\<close>.\<close>

definition hex_string_to_octet_string :: "octets \<Rightarrow> int \<Rightarrow> (int \<times> octets) option" where
  "hex_string_to_octet_string hex len = hex_string_to_octet_string_loop hex 0 len []"

definition base64_alphabet :: string where
  "base64_alphabet = ''ABCDEFGHIJKLMNOPQRSTUVWXYZabcdefghijklmnopqrstuvwxyz0123456789+/=''"

definition base64_char_to_sextet :: "u8 \<Rightarrow> int" where
  "base64_char_to_sextet c =
     (case map_of (zip base64_alphabet [0..64]) (char_of (unat c)) of Some n \<Rightarrow> n | None \<Rightarrow> -1)"

fun base64_string_to_octet_string_loop ::
  "octets \<Rightarrow> int \<Rightarrow> int \<Rightarrow> octets \<Rightarrow> (int \<times> octets) option" where
  "base64_string_to_octet_string_loop base64 base64_len len raw =
     (if base64_len < len
      then (case base64 of
          [] \<Rightarrow> None
        | h0 # b1 \<Rightarrow>
            if base64_char_to_sextet h0 = -1 then Some (base64_len, raw)
            else (case b1 of
                [] \<Rightarrow> None
              | h1 # b2 \<Rightarrow>
                  if base64_char_to_sextet h1 = -1 then Some (base64_len + 1, raw)
                  else base64_string_to_octet_string_loop b2 (base64_len + 2) len
                    (raw @ [push_bit 6 (word_of_int (base64_char_to_sextet h0)) OR
                            word_of_int (base64_char_to_sextet h1)])))
      else Some (base64_len, raw))"

declare base64_string_to_octet_string_loop.simps [simp del]

definition base64_string_to_octet_string :: "octets \<Rightarrow> int \<Rightarrow> (int \<times> octets) option" where
  "base64_string_to_octet_string base64 len = base64_string_to_octet_string_loop base64 0 len []"

text \<open>
  \<^verbatim>\<open>octet_string_is_eq\<close> answers 1 when the strings differ. \<^verbatim>\<open>octet_string_set_to_zero\<close> is a
  do-while loop: it stores at least one octet whatever the length.
\<close>

fun octet_string_is_eq :: "octets \<Rightarrow> octets \<Rightarrow> nat \<Rightarrow> bool option" where
  "octet_string_is_eq a b 0 = Some False"
| "octet_string_is_eq (x # a) (y # b) (Suc n) =
     (if x \<noteq> y then Some True else octet_string_is_eq a b n)"
| "octet_string_is_eq _ _ (Suc n) = None"

definition octet_string_set_to_zero :: "octets \<Rightarrow> nat \<Rightarrow> octets option" where
  "octet_string_set_to_zero s len =
     (let n = max 1 len in if n \<le> length s then Some (replicate n 0 @ drop n s) else None)"

section \<open>128-bit blocks\<close>

type_synonym v128_t = "u32 list"

definition v128_set_to_zero :: v128_t where
  "v128_set_to_zero = [0, 0, 0, 0]"

definition v128_copy :: "v128_t \<Rightarrow> v128_t" where
  "v128_copy y = [y ! 0, y ! 1, y ! 2, y ! 3]"

definition v128_xor :: "v128_t \<Rightarrow> v128_t \<Rightarrow> v128_t" where
  "v128_xor x y = [x ! 0 XOR y ! 0, x ! 1 XOR y ! 1, x ! 2 XOR y ! 2, x ! 3 XOR y ! 3]"

definition v128_and :: "v128_t \<Rightarrow> v128_t \<Rightarrow> v128_t" where
  "v128_and x y = [x ! 0 AND y ! 0, x ! 1 AND y ! 1, x ! 2 AND y ! 2, x ! 3 AND y ! 3]"

definition v128_or :: "v128_t \<Rightarrow> v128_t \<Rightarrow> v128_t" where
  "v128_or x y = [x ! 0 OR y ! 0, x ! 1 OR y ! 1, x ! 2 OR y ! 2, x ! 3 OR y ! 3]"

definition v128_complement :: "v128_t \<Rightarrow> v128_t" where
  "v128_complement x = [NOT (x ! 0), NOT (x ! 1), NOT (x ! 2), NOT (x ! 3)]"

definition v128_is_eq :: "v128_t \<Rightarrow> v128_t \<Rightarrow> bool" where
  "v128_is_eq x y \<longleftrightarrow> (x ! 0 = y ! 0 \<and> x ! 1 = y ! 1) \<and> (x ! 2 = y ! 2 \<and> x ! 3 = y ! 3)"

definition v128_xor_eq :: "v128_t \<Rightarrow> v128_t \<Rightarrow> v128_t" where
  "v128_xor_eq z x = [z ! 0 XOR x ! 0, z ! 1 XOR x ! 1, z ! 2 XOR x ! 2, z ! 3 XOR x ! 3]"

text \<open>\<^verbatim>\<open>x->v32[bit >> 5]\<close> with a bit number outside the words is out of bounds.\<close>

definition in_words :: "u32 list \<Rightarrow> int \<Rightarrow> bool" where
  "in_words ws i \<longleftrightarrow> 0 \<le> i \<and> nat i div 32 < length ws"

definition v128_get_bit :: "v128_t \<Rightarrow> int \<Rightarrow> u32 option" where
  "v128_get_bit x i =
     (if in_words x i then Some (drop_bit (nat i mod 32) (x ! (nat i div 32)) AND 1) else None)"

definition v128_set_bit :: "v128_t \<Rightarrow> int \<Rightarrow> v128_t option" where
  "v128_set_bit x i =
     (if in_words x i
      then Some (x[nat i div 32 := x ! (nat i div 32) OR push_bit (nat i mod 32) 1]) else None)"

definition v128_clear_bit :: "v128_t \<Rightarrow> int \<Rightarrow> v128_t option" where
  "v128_clear_bit x i =
     (if in_words x i
      then Some (x[nat i div 32 := x ! (nat i div 32) AND NOT (push_bit (nat i mod 32) 1)])
      else None)"

definition v128_set_bit_to :: "v128_t \<Rightarrow> int \<Rightarrow> int \<Rightarrow> v128_t option" where
  "v128_set_bit_to x i y = (if y \<noteq> 0 then v128_set_bit x i else v128_clear_bit x i)"

definition v128_copy_octet_string :: "octets \<Rightarrow> v128_t option" where
  "v128_copy_octet_string s = (if 16 \<le> length s then Some (words_le (take 16 s)) else None)"

definition v128_hex_string :: "v128_t \<Rightarrow> octets" where
  "v128_hex_string x = octets_to_hex (bytes_le x)"

definition word_bit_string :: "u32 \<Rightarrow> string" where
  "word_bit_string w = map (\<lambda>n. if bit w n then CHR ''1'' else CHR ''0'') (rev [0..<32])"

definition v128_bit_string :: "v128_t \<Rightarrow> string" where
  "v128_bit_string x = concat (map word_bit_string (take 4 x))"

text \<open>
  The stores of \<^verbatim>\<open>v128_right_shift\<close> run downwards: \<^verbatim>\<open>for (i = 4; i > base_index; i--)\<close> is a fold
  over \<open>rev [base_index + 1..<5]\<close>. A negative shift indexes outside the block.
\<close>

definition v128_right_shift :: "v128_t \<Rightarrow> int \<Rightarrow> v128_t option" where
  "v128_right_shift x shift =
     (if shift < 0 then None
      else if shift > 127 then Some v128_set_to_zero
      else let base = nat shift div 32; bit_index = nat shift mod 32;
               x1 = (if bit_index = 0
                 then fold (\<lambda>i x. x[i - 1 := x ! (i - 1 - base)]) (rev [base + 1..<4])
                        (x[3 := x ! (3 - base)])
                 else fold (\<lambda>i x. x[i - 1 :=
                          (let from = i - 1 - base; b = push_bit bit_index (x ! from)
                           in if from > 0 then b OR drop_bit (32 - bit_index) (x ! (from - 1)) else b)])
                        (rev [base + 1..<5]) x)
           in Some (fold (\<lambda>i x. x[i := 0]) [0..<base] x1))"

text \<open>
  \<^verbatim>\<open>v128_left_shift\<close> and \<^verbatim>\<open>bitvector_left_shift\<close> have the same loops, over four words and over
  \<^verbatim>\<open>word_length\<close> words; \<open>left_shift_loops\<close> is their common body.
\<close>

definition left_shift_loops :: "nat \<Rightarrow> nat \<Rightarrow> nat \<Rightarrow> u32 list \<Rightarrow> u32 list" where
  "left_shift_loops n base bit_index x =
     (let x1 = (if bit_index = 0
        then fold (\<lambda>i x. x[i := x ! (i + base)]) [0..<n - base] x
        else (let y = fold (\<lambda>i x. x[i := drop_bit bit_index (x ! (i + base)) XOR
                              push_bit (32 - bit_index) (x ! (i + base + 1))]) [0..<n - base - 1] x
              in y[n - base - 1 := drop_bit bit_index (y ! (n - 1))]))
      in fold (\<lambda>i x. x[i := 0]) [n - base..<n] x1)"

definition v128_left_shift :: "v128_t \<Rightarrow> int \<Rightarrow> v128_t option" where
  "v128_left_shift x shift =
     (if shift > 127 then Some v128_set_to_zero
      else if shift < 0 then None
      else Some (left_shift_loops 4 (nat shift div 32) (nat shift mod 32) x))"

section \<open>Bit vectors\<close>

record bitvector_t =
  bv_length :: u32
  bv_word :: "u32 list"

definition bits_per_word :: u32 where
  "bits_per_word = 32"

definition bytes_per_word :: u32 where
  "bytes_per_word = 4"

definition bitvector_get_bit :: "bitvector_t \<Rightarrow> int \<Rightarrow> u32 option" where
  "bitvector_get_bit v i =
     (if in_words (bv_word v) i
      then Some (drop_bit (nat i mod 32) (bv_word v ! (nat i div 32)) AND 1) else None)"

definition bitvector_set_bit :: "bitvector_t \<Rightarrow> int \<Rightarrow> bitvector_t option" where
  "bitvector_set_bit v i =
     (if in_words (bv_word v) i
      then Some (v\<lparr>bv_word := (bv_word v)
        [nat i div 32 := bv_word v ! (nat i div 32) OR push_bit (nat i mod 32) 1]\<rparr>) else None)"

definition bitvector_clear_bit :: "bitvector_t \<Rightarrow> int \<Rightarrow> bitvector_t option" where
  "bitvector_clear_bit v i =
     (if in_words (bv_word v) i
      then Some (v\<lparr>bv_word := (bv_word v)
        [nat i div 32 := bv_word v ! (nat i div 32) AND NOT (push_bit (nat i mod 32) 1)]\<rparr>) else None)"

definition bitvector_get_length :: "bitvector_t \<Rightarrow> u32" where
  "bitvector_get_length v = bv_length v"

text \<open>\<^verbatim>\<open>memset(x->word, 0, x->length >> 3)\<close>, on a buffer of whole words.\<close>

definition bitvector_set_to_zero :: "bitvector_t \<Rightarrow> bitvector_t" where
  "bitvector_set_to_zero x = x\<lparr>bv_word := replicate (unat (drop_bit 5 (bv_length x))) 0
     @ drop (unat (drop_bit 5 (bv_length x))) (bv_word x)\<rparr>"

text \<open>
  \<^verbatim>\<open>bitvector_alloc\<close>: the argument \<open>mem\<close> is the memory \<^verbatim>\<open>crypto_alloc\<close> returns for a request of
  so many octets, or \<open>None\<close> when it fails. The result is the C return value and the vector.
\<close>

definition bitvector_alloc :: "(u32 \<Rightarrow> u32 list option) \<Rightarrow> u32 \<Rightarrow> int \<times> bitvector_t" where
  "bitvector_alloc mem len =
     (let len1 = (len + bits_per_word - 1) AND NOT (bits_per_word - 1);
          l = len1 div bits_per_word * bytes_per_word
      in if l = 0 then (0, bitvector_set_to_zero \<lparr>bv_length = len1, bv_word = []\<rparr>)
         else (case mem l of
             None \<Rightarrow> (-1, \<lparr>bv_length = 0, bv_word = []\<rparr>)
           | Some ws \<Rightarrow> (0, bitvector_set_to_zero \<lparr>bv_length = len1, bv_word = ws\<rparr>)))"

definition bitvector_dealloc :: bitvector_t where
  "bitvector_dealloc = \<lparr>bv_length = 0, bv_word = []\<rparr>"

definition bitvector_bit_string :: "bitvector_t \<Rightarrow> int \<Rightarrow> string" where
  "bitvector_bit_string x len =
     take (nat (len - 1)) (concat (map word_bit_string
       (take (unat (drop_bit 5 (bv_length x))) (bv_word x))))"

definition bitvector_left_shift :: "bitvector_t \<Rightarrow> int \<Rightarrow> bitvector_t option" where
  "bitvector_left_shift x shift =
     (let word_length = unat (drop_bit 5 (bv_length x))
      in if shift \<ge> sint (bv_length x) then Some (bitvector_set_to_zero x)
         else if shift < 0 then None
         else Some (x\<lparr>bv_word :=
           left_shift_loops word_length (nat shift div 32) (nat shift mod 32) (bv_word x)\<rparr>))"

section \<open>Bits of a vector\<close>

definition wbit :: "u32 list \<Rightarrow> nat \<Rightarrow> bool" where
  "wbit ws n \<longleftrightarrow> n div 32 < length ws \<and> bit (ws ! (n div 32)) (n mod 32)"

lemma wbit_out: "32 * length ws \<le> n \<Longrightarrow> \<not> wbit ws n"
  by (auto simp: wbit_def)

lemma wbit_bound: "wbit ws n \<Longrightarrow> n < 32 * length ws"
  by (auto simp: wbit_def)

lemma wbit_replicate_0 [simp]: "\<not> wbit (replicate m 0) n"
  by (simp add: wbit_def)

lemma v128_set_to_zero_replicate: "v128_set_to_zero = replicate 4 0"
  by (simp add: v128_set_to_zero_def numeral_eq_Suc)

lemma wbit_zero [simp]: "\<not> wbit v128_set_to_zero n" "length v128_set_to_zero = 4"
  by (simp_all add: v128_set_to_zero_replicate)

lemma bit_and_1_iff: "drop_bit m w AND 1 = (1 :: u32) \<longleftrightarrow> bit w m"
  by (simp add: and_one_eq bit_iff_odd_drop_bit odd_iff_mod_2_eq_one)

lemma in_words_iff: "in_words ws i \<longleftrightarrow> 0 \<le> i \<and> nat i < 32 * length ws"
  by (auto simp: in_words_def)

lemma wbit_update:
  assumes "k < 32 * length ws"
  shows "wbit (ws[k div 32 := ws ! (k div 32) OR 2 ^ (k mod 32)]) n \<longleftrightarrow> n = k \<or> wbit ws n"
proof (cases "n div 32 = k div 32")
  case True
  have "k mod 32 = n mod 32 \<longleftrightarrow> n = k" using True by (metis div_mult_mod_eq)
  moreover have "k div 32 < length ws" using assms by auto
  ultimately show ?thesis using True
    by (auto simp: wbit_def bit_simps nth_list_update)
next
  case False
  then show ?thesis by (auto simp: wbit_def)
qed

lemma wbit_left_shift_loops:
  assumes len: "length x = n" and base: "base < n" and b: "bit_index < 32"
  shows "length (left_shift_loops n base bit_index x) = n"
    and "wbit (left_shift_loops n base bit_index x) j \<longleftrightarrow> wbit x (j + (32 * base + bit_index))"
proof -
  let ?L = "left_shift_loops n base bit_index x"
  show L: "length ?L = n" using len by (simp add: left_shift_loops_def Let_def)
  have nth: "?L ! k = (if k + base < n then
      (if k + base + 1 < n then (if bit_index = 0 then x ! (k + base)
         else drop_bit bit_index (x ! (k + base)) XOR push_bit (32 - bit_index) (x ! (k + base + 1)))
       else drop_bit bit_index (x ! (k + base))) else 0)" if "k < n" for k
  proof (cases "bit_index = 0")
    case True
    have "fold (\<lambda>i x. x[i := x ! (i + base)]) [0..<n - base] x ! k =
       (if k < n - base then x ! (k + base) else x ! k)"
      by (rule fold_update_ahead) (use that len in simp_all)
    then show ?thesis using True that len base
      by (auto simp: left_shift_loops_def Let_def fold_update_const)
  next
    case False
    let ?g = "\<lambda>i x. drop_bit bit_index (x ! (i + base)) XOR
                push_bit (32 - bit_index) (x ! (i + base + 1)) :: u32"
    have y: "fold (\<lambda>i x. x[i := ?g i x]) [0..<n - base - 1] x ! m =
       (if m < n - base - 1 then ?g m x else x ! m)" if "m < n" for m
      by (rule fold_update_ahead) (use that len in simp_all)
    show ?thesis using False that len base y [OF that] y [of "n - 1"]
      by (auto simp: left_shift_loops_def Let_def fold_update_const nth_list_update)
  qed
  let ?s = "32 * base + bit_index"
  show "wbit ?L j \<longleftrightarrow> wbit x (j + ?s)"
  proof (cases "j < 32 * n")
    case False
    then show ?thesis using L len by (auto simp: wbit_def)
  next
    case True
    define k m where "k = j div 32" and "m = j mod 32"
    have jkm: "j = 32 * k + m" and m: "m < 32" by (simp_all add: k_def m_def)
    have k: "k < n" using True by (auto simp: k_def)
    have js: "j + ?s = (m + bit_index) + 32 * (k + base)" by (simp add: jkm)
    have "m + bit_index < 64" using b m by simp
    then have "(m + bit_index) div 32 = (if m + bit_index < 32 then 0 else 1)"
      and "(m + bit_index) mod 32 = (if m + bit_index < 32 then m + bit_index else m + bit_index - 32)"
      by (auto simp: div_if [of "_ + _"] mod_if [of "_ + _"])
    then have d: "(j + ?s) div 32 = k + base + (if m + bit_index < 32 then 0 else 1)"
      and r: "(j + ?s) mod 32 = (if m + bit_index < 32 then m + bit_index else m + bit_index - 32)"
      unfolding js by (simp_all del: distrib_left_numeral)
    have "wbit ?L j \<longleftrightarrow> bit (?L ! k) m" using L k by (simp add: wbit_def k_def m_def)
    also have "\<dots> \<longleftrightarrow> wbit x (j + ?s)"
      unfolding nth [OF k] wbit_def d r using len b m
      by (auto simp: bit_simps add.commute dest: bit_imp_le_length)
    finally show ?thesis .
  qed
qed

text \<open>
  The well-formed vectors: the length counts the bits of the allocated words, and fits in a
  non-negative \<open>int\<close>.
\<close>

definition bv_wf :: "bitvector_t \<Rightarrow> bool" where
  "bv_wf v \<longleftrightarrow> unat (bv_length v) = 32 * length (bv_word v) \<and> 32 * length (bv_word v) < 2 ^ 31"

definition bv_bit :: "bitvector_t \<Rightarrow> nat \<Rightarrow> bool" where
  "bv_bit v n = wbit (bv_word v) n"

lemma bv_wf_sint: "bv_wf v \<Longrightarrow> sint (bv_length v) = int (32 * length (bv_word v))"
  unfolding bv_wf_def by (metis sint_small)

lemma bv_wf_words: "bv_wf v \<Longrightarrow> unat (drop_bit 5 (bv_length v)) = length (bv_word v)"
  unfolding bv_wf_def unat_drop_bit_eq by (simp add: drop_bit_eq_div)

lemma bitvector_get_bit_eq:
  "0 \<le> i \<Longrightarrow> nat i < 32 * length (bv_word v) \<Longrightarrow>
     \<exists>b. bitvector_get_bit v i = Some b \<and> (b = 1 \<longleftrightarrow> bv_bit v (nat i))"
  by (simp add: bitvector_get_bit_def in_words_iff bv_bit_def wbit_def bit_and_1_iff
      less_mult_imp_div_less mult.commute)

lemma bitvector_set_bit_eq:
  assumes "bv_wf v" and "0 \<le> i" and "nat i < 32 * length (bv_word v)"
  shows "\<exists>v'. bitvector_set_bit v i = Some v' \<and> bv_wf v' \<and> bv_length v' = bv_length v
    \<and> length (bv_word v') = length (bv_word v) \<and> (\<forall>n. bv_bit v' n \<longleftrightarrow> n = nat i \<or> bv_bit v n)"
  using assms by (simp add: bitvector_set_bit_def in_words_iff bv_wf_def bv_bit_def wbit_update)

lemma bitvector_set_to_zero_eq:
  assumes "bv_wf v"
  shows "bitvector_set_to_zero v = v\<lparr>bv_word := replicate (length (bv_word v)) 0\<rparr>"
  using bv_wf_words [OF assms] by (simp add: bitvector_set_to_zero_def)

lemma bitvector_left_shift_eq:
  assumes wf: "bv_wf v" and "0 \<le> d"
  shows "\<exists>v'. bitvector_left_shift v d = Some v' \<and> bv_wf v' \<and> bv_length v' = bv_length v
    \<and> length (bv_word v') = length (bv_word v) \<and> (\<forall>n. bv_bit v' n \<longleftrightarrow> bv_bit v (n + nat d))"
proof (cases "d \<ge> sint (bv_length v)")
  case True
  then have "32 * length (bv_word v) \<le> nat d" using bv_wf_sint [OF wf] by simp
  then have "\<not> bv_bit v (n + nat d)" for n by (simp add: bv_bit_def wbit_out)
  with True wf show ?thesis
    by (auto simp: bitvector_left_shift_def bitvector_set_to_zero_eq [OF wf] bv_wf_def bv_bit_def)
next
  case False
  then have lt: "nat d < 32 * length (bv_word v)" using bv_wf_sint [OF wf] \<open>0 \<le> d\<close> by auto
  have base: "nat d div 32 < length (bv_word v)" using lt by auto
  note L = wbit_left_shift_loops [OF refl base, of "nat d mod 32"]
  from False \<open>0 \<le> d\<close> wf show ?thesis
    by (auto simp: bitvector_left_shift_def bv_wf_words bv_wf_def bv_bit_def L)
qed

lemma bitvector_alloc_ok:
  assumes small: "unat len < 2 ^ 30" and pos: "len \<noteq> 0"
    and mem: "\<And>l. l \<noteq> 0 \<Longrightarrow> \<exists>ws. mem l = Some ws \<and> length ws = unat l div 4"
  shows "\<exists>v. bitvector_alloc mem len = (0, v) \<and> bv_wf v \<and> (\<forall>n. \<not> bv_bit v n)
    \<and> unat len \<le> 32 * length (bv_word v) \<and> 32 * length (bv_word v) < unat len + 32"
proof -
  define w where "w = len + 31"
  define len1 where "len1 = push_bit 5 (drop_bit 5 w)"
  define k where "k = (unat len + 31) div 32"
  have w: "unat w = unat len + 31"
    using small by (simp add: w_def unat_word_ariths(1))
  have len1: "(len + bits_per_word - 1) AND NOT (bits_per_word - 1) = len1"
  proof -
    have "bits_per_word - 1 = mask 5" and "len + bits_per_word - 1 = w"
      by (simp_all add: bits_per_word_def mask_eq_exp_minus_1 w_def add.commute)
    then show ?thesis unfolding len1_def by (intro bit_word_eqI) (auto simp: bit_simps)
  qed
  have u1: "unat len1 = 32 * k"
    unfolding len1_def unsigned_push_bit_eq unsigned_drop_bit_eq using w small
    by (simp add: k_def push_bit_eq_mult drop_bit_eq_div take_bit_nat_eq_self)
  have "0 < unat len" using pos by (simp add: unat_gt_0)
  then have k: "0 < k" "32 * k < unat len + 32" "unat len \<le> 32 * k"
    by (simp_all add: k_def div_greater_zero_iff)
  define l where "l = len1 div bits_per_word * bytes_per_word"
  have l: "unat l = 4 * k"
    using u1 k small by (simp add: l_def bits_per_word_def bytes_per_word_def unat_div unat_word_ariths(2))
  with k have "l \<noteq> 0" by auto
  then obtain ws where ws: "mem l = Some ws" "length ws = k" using mem [of l] l by auto
  have "bitvector_alloc mem len = (0, bitvector_set_to_zero \<lparr>bv_length = len1, bv_word = ws\<rparr>)"
    using ws \<open>l \<noteq> 0\<close> by (simp add: bitvector_alloc_def Let_def len1 flip: l_def)
  moreover have wf: "bv_wf \<lparr>bv_length = len1, bv_word = ws\<rparr>"
    using u1 ws k small by (simp add: bv_wf_def)
  ultimately show ?thesis
    using ws k u1 small by (auto simp: bitvector_set_to_zero_eq [OF wf] bv_wf_def bv_bit_def)
qed

lemma v128_get_bit_eq:
  "length x = 4 \<Longrightarrow> 0 \<le> i \<Longrightarrow> i < 128 \<Longrightarrow>
     \<exists>b. v128_get_bit x i = Some b \<and> (b = 1 \<longleftrightarrow> wbit x (nat i))"
  by (simp add: v128_get_bit_def in_words_iff wbit_def bit_and_1_iff less_mult_imp_div_less)

lemma v128_set_bit_eq:
  assumes "length x = 4" and "0 \<le> i" and "i < 128"
  shows "\<exists>x'. v128_set_bit x i = Some x' \<and> length x' = 4 \<and> (\<forall>n. wbit x' n \<longleftrightarrow> n = nat i \<or> wbit x n)"
  using assms by (simp add: v128_set_bit_def in_words_iff wbit_update)

lemma v128_left_shift_eq:
  assumes len: "length x = 4" and "0 \<le> d"
  shows "\<exists>x'. v128_left_shift x d = Some x' \<and> length x' = 4 \<and> (\<forall>n. wbit x' n \<longleftrightarrow> wbit x (n + nat d))"
proof (cases "d > 127")
  case True
  have "\<not> wbit x (n + nat d)" for n using True len by (auto simp: wbit_def)
  then show ?thesis using True by (simp add: v128_left_shift_def)
next
  case False
  then have base: "nat d div 32 < 4" using \<open>0 \<le> d\<close> by auto
  note L = wbit_left_shift_loops [OF len base, of "nat d mod 32"]
  then show ?thesis using False \<open>0 \<le> d\<close> by (auto simp: v128_left_shift_def L)
qed

section \<open>Octet strings\<close>

lemma octet_string_is_eq_iff:
  assumes "len \<le> length a" and "len \<le> length b"
  shows "octet_string_is_eq a b len = Some (take len a \<noteq> take len b)"
  using assms
proof (induction a b len rule: octet_string_is_eq.induct)
  case (2 x a y b n)
  then show ?case by auto
qed auto

text \<open>
  The 256-entry table gives the Hamming weight: for every octet the answer is the number of
  its one bits.
\<close>

lemma octet_get_weight_popcount:
  "octet_get_weight octet = int (length (filter (bit octet) [0..<8]))"
proof -
  have "octet_weight =
      map (\<lambda>n. int (length (filter (bit (word_of_nat n :: u8)) [0..<8]))) [0..<256]"
    by code_simp
  then have "octet_weight ! unat octet =
      int (length (filter (bit (word_of_nat (unat octet) :: u8)) [0..<8]))"
    by (rule table_lookup) (rule unat_u8_less)
  then show ?thesis by (simp add: octet_get_weight_def)
qed

lemma hex_char_to_nibble_to_hex_char:
  "hex_char_to_nibble (nibble_to_hex_char x) = int (unat (x AND 0xF))"
proof -
  have "list_all (\<lambda>n. hex_char_to_nibble (of_char (hex_digits ! n)) = int n) [0..<16]"
    by code_simp
  moreover have "unat (x AND 0xF) < 16"
    by (rule all_u8I) code_simp
  ultimately show ?thesis by (simp add: list_all_iff nibble_to_hex_char_def)
qed

lemma octet_nibbles: "push_bit 4 (drop_bit 4 (b :: u8)) AND 240 OR b AND 15 = b"
  by (rule all_u8I [of _ b]) code_simp

lemma length_octets_to_hex [simp]: "length (octets_to_hex bs) = 2 * length bs"
  by (induction bs) simp_all

lemma hex_loop_octets_to_hex:
  "hex_string_to_octet_string_loop (octets_to_hex bs @ rest) k (k + 2 * int (length bs)) raw =
     Some (k + 2 * int (length bs), raw @ bs)"
proof (induction bs arbitrary: k raw)
  case Nil
  then show ?case by (simp add: hex_string_to_octet_string_loop.simps)
next
  case (Cons b bs)
  have "uint (y :: u8) \<noteq> -1" for y using uint_ge_0 [of y] by linarith
  then show ?case using Cons.IH [of "k + 2" "raw @ [b]"]
    by (subst hex_string_to_octet_string_loop.simps)
      (simp add: hex_char_to_nibble_to_hex_char octet_nibbles algebra_simps)
qed

text \<open>
  Printing an octet string in hexadecimal and reading the digits back gives the string again,
  for every string the print buffer can hold (at most 511 octets).
\<close>

lemma hex_string_roundtrip:
  assumes "length s \<le> 511"
  shows "\<exists>h. octet_string_hex_string s (int (length s)) = Some h \<and>
     hex_string_to_octet_string h (2 * int (length s)) = Some (2 * int (length s), s)"
proof -
  have n: "nat ((int (length s) * 2 + 1) div 2) = length s" by simp
  show ?thesis
    using assms hex_loop_octets_to_hex [of s "[]" 0 "[]"]
    by (simp add: octet_string_hex_string_def MAX_PRINT_STRING_LEN_def Let_def n
        hex_string_to_octet_string_def)
qed

lemma hex_string_roundtrip_witness:
  "\<exists>h. octet_string_hex_string [0xDE, 0xAD, 0x01] 3 = Some h \<and>
     hex_string_to_octet_string h 6 = Some (6, [0xDE, 0xAD, 0x01])"
  using hex_string_roundtrip [of "[0xDE, 0xAD, 0x01]"] by simp

text \<open>
  The print buffer overflows by one octet: for every string of 512 octets or more the
  terminating zero is stored at index 1024 of the 1024-octet array.
\<close>

lemma octet_string_hex_string_overflow:
  assumes "512 \<le> len"
  shows "octet_string_hex_string s len = None"
  using assms by (simp add: octet_string_hex_string_def MAX_PRINT_STRING_LEN_def Let_def)

lemma octet_string_hex_string_overflow_witness:
  "octet_string_hex_string (replicate 512 0) 512 = None"
  using octet_string_hex_string_overflow [of 512] by simp

end
