(* ===== verification/Replay_Guard.thy ===== *)
theory Replay_Guard
  imports Prelude
begin

text \<open>
  The contract of a replay protector, shared by the SRTCP database (\<^verbatim>\<open>rdb.c\<close>) and the SRTP
  database (\<^verbatim>\<open>rdbx.c\<close>). A receiver feeds packets to \<open>recv\<close>, which either rejects one or accepts
  it under some packet index and returns the new database; \<open>rel n s S\<close> relates a database to the set
  of indices accepted so far, with room for \<open>n\<close> more packets.
\<close>

fun accepted :: "('s \<Rightarrow> 'p \<Rightarrow> ('s \<times> 'i) option) \<Rightarrow> 's \<Rightarrow> 'p list \<Rightarrow> 'i list" where
  "accepted recv s [] = []"
| "accepted recv s (p # ps) =
     (case recv s p of None \<Rightarrow> accepted recv s ps | Some (s', i) \<Rightarrow> i # accepted recv s' ps)"

text \<open>
  What a replay window of \<open>W\<close> indices promises to answer, given the highest index \<open>h\<close> and the set \<open>S\<close> of the indices
  accepted so far: everything ahead is new, everything at a distance of \<open>W\<close> or more behind is too old, and in between
  exactly the indices of \<open>S\<close> are replays. The index of a packet that is not refused joins the set.
\<close>

fun replay_spec :: "int \<Rightarrow> int \<Rightarrow> int set \<Rightarrow> int list \<Rightarrow> err_status_t list" where
  "replay_spec W h S [] = []"
| "replay_spec W h S (i # is) =
     (if i > h then err_status_ok # replay_spec W i (insert i S) is
      else if i \<le> h - W then err_status_replay_old # replay_spec W h S is
      else if i \<in> S then err_status_replay_fail # replay_spec W h S is
      else err_status_ok # replay_spec W h (insert i S) is)"

locale replay_guard =
  fixes recv :: "'s \<Rightarrow> 'p \<Rightarrow> ('s \<times> 'i) option"
    and rel :: "nat \<Rightarrow> 's \<Rightarrow> 'i set \<Rightarrow> bool"
    and packet_ok :: "'p \<Rightarrow> bool"
  assumes recv_fresh: "rel (Suc n) s S \<Longrightarrow> packet_ok p \<Longrightarrow> recv s p = Some (s', i) \<Longrightarrow> i \<notin> S"
    and recv_insert: "rel (Suc n) s S \<Longrightarrow> packet_ok p \<Longrightarrow> recv s p = Some (s', i) \<Longrightarrow> rel n s' (insert i S)"
    and rel_antimono: "rel (Suc n) s S \<Longrightarrow> rel n s S"
begin

lemma accepted_fresh:
  "rel (length ps) s S \<Longrightarrow> list_all packet_ok ps \<Longrightarrow>
     distinct (accepted recv s ps) \<and> set (accepted recv s ps) \<inter> S = {}"
proof (induction ps arbitrary: s S)
  case Nil
  then show ?case by simp
next
  case (Cons p ps)
  then have rel: "rel (Suc (length ps)) s S" and p: "packet_ok p" and ps: "list_all packet_ok ps"
    by simp_all
  show ?case
  proof (cases "recv s p")
    case None
    then show ?thesis using Cons.IH [OF rel_antimono [OF rel] ps] by simp
  next
    case (Some a)
    then obtain s' i where a: "recv s p = Some (s', i)" by (cases a) auto
    from Cons.IH [OF recv_insert [OF rel p a] ps] recv_fresh [OF rel p a] show ?thesis
      by (auto simp: a)
  qed
qed

end

end
