(* ===== verification/Replay_Db.thy ===== *)
theory Replay_Db
  imports Datatypes Replay_Guard
begin

text \<open>
  \<^verbatim>\<open>srtp/crypto/replay/rdb.c\<close>: the replay database of SRTCP, a window of 128 indices that
  starts at \<^verbatim>\<open>window_start\<close> with one bit per index. The abstract database is the set of indices
  that were added; the concrete window is shown to decide exactly the membership of the indices it
  covers and to reject every index below it.
\<close>

record rdb_t =
  window_start :: u32
  rdb_bitmask :: v128_t

definition rdb_bits_in_bitmask :: u32 where
  "rdb_bits_in_bitmask = 8 * 16"

definition rdb_init :: "err_status_t \<times> rdb_t" where
  "rdb_init = (err_status_ok, \<lparr>window_start = 0, rdb_bitmask = v128_set_to_zero\<rparr>)"

definition rdb_check :: "rdb_t \<Rightarrow> u32 \<Rightarrow> err_status_t option" where
  "rdb_check rdb p_index =
     (if p_index \<ge> window_start rdb + rdb_bits_in_bitmask then Some err_status_ok
      else if p_index < window_start rdb then Some err_status_replay_old
      else do {
        b \<leftarrow> v128_get_bit (rdb_bitmask rdb) (sint (p_index - window_start rdb));
        if b = 1 then Some err_status_replay_fail else Some err_status_ok
      })"

text \<open>
  \<^verbatim>\<open>rdb_bits_in_bitmask\<close> has the type \<^verbatim>\<open>size_t\<close>, so \<^verbatim>\<open>delta < rdb_bits_in_bitmask\<close> compares
  unsigned values and \<^verbatim>\<open>delta -= rdb_bits_in_bitmask - 1\<close> is unsigned arithmetic; the shift and
  bit counts are read back as \<^verbatim>\<open>int\<close>.
\<close>

definition rdb_add_index :: "rdb_t \<Rightarrow> u32 \<Rightarrow> (err_status_t \<times> rdb_t) option" where
  "rdb_add_index rdb p_index =
     (let delta = p_index - window_start rdb
      in if delta < rdb_bits_in_bitmask
         then do {
           m \<leftarrow> v128_set_bit (rdb_bitmask rdb) (sint delta);
           Some (err_status_ok, rdb\<lparr>rdb_bitmask := m\<rparr>)
         }
         else do {
           let delta = delta - (rdb_bits_in_bitmask - 1);
           m \<leftarrow> v128_left_shift (rdb_bitmask rdb) (sint delta);
           m' \<leftarrow> v128_set_bit m (sint (rdb_bits_in_bitmask - 1));
           Some (err_status_ok, rdb\<lparr>rdb_bitmask := m', window_start := window_start rdb + delta\<rparr>)
         })"

definition rdb_increment :: "rdb_t \<Rightarrow> err_status_t \<times> rdb_t" where
  "rdb_increment rdb =
     (if window_start rdb > 0x7fffffff then err_status_key_expired else err_status_ok,
      rdb\<lparr>window_start := window_start rdb + 1\<rparr>)"

definition rdb_get_value :: "rdb_t \<Rightarrow> u32" where
  "rdb_get_value rdb = window_start rdb"

section \<open>The abstract database\<close>

text \<open>
  \<open>rdb_rel rdb S\<close>: the database stands for the set \<open>S\<close> of the SRTCP indices (31 bits) added so
  far. The window ends with the largest index, or at 128; below the window nothing is known.
\<close>

definition rdb_rel :: "rdb_t \<Rightarrow> nat set \<Rightarrow> bool" where
  "rdb_rel rdb S \<longleftrightarrow>
     length (rdb_bitmask rdb) = 4 \<and> unat (window_start rdb) < 2 ^ 31 \<and>
     (\<forall>n. wbit (rdb_bitmask rdb) n \<longleftrightarrow> n < 128 \<and> unat (window_start rdb) + n \<in> S) \<and>
     (\<forall>i \<in> S. i < unat (window_start rdb) + 128)"

lemma rdb_rel_init: "rdb_rel (snd rdb_init) {}"
  by (simp add: rdb_rel_def rdb_init_def)

lemma rdb_check_spec:
  assumes rel: "rdb_rel rdb S" and p: "unat p < 2 ^ 31"
  shows "rdb_check rdb p = Some
     (if unat p < unat (window_start rdb) then err_status_replay_old
      else if unat p \<in> S then err_status_replay_fail else err_status_ok)"
proof -
  let ?w = "window_start rdb"
  have w: "unat ?w < 2 ^ 31" and len: "length (rdb_bitmask rdb) = 4"
    and bits: "\<And>n. wbit (rdb_bitmask rdb) n \<longleftrightarrow> n < 128 \<and> unat ?w + n \<in> S"
    and top: "\<And>i. i \<in> S \<Longrightarrow> i < unat ?w + 128"
    using rel by (auto simp: rdb_rel_def)
  have end_: "unat (?w + rdb_bits_in_bitmask) = unat ?w + 128"
    using w by (simp add: rdb_bits_in_bitmask_def unat_word_ariths(1))
  show ?thesis
  proof (cases "unat ?w \<le> unat p \<and> unat p < unat ?w + 128")
    case True
    then obtain k where k: "unat p = unat ?w + k" "k < 128" by (auto simp: le_iff_add)
    then have "unat (p - ?w) = k" by (subst unat_sub) (simp_all add: word_le_nat_alt)
    then have s: "sint (p - ?w) = int k" using k by (subst sint_small) simp_all
    obtain b where "v128_get_bit (rdb_bitmask rdb) (sint (p - ?w)) = Some b"
      and "b = 1 \<longleftrightarrow> unat p \<in> S"
      using v128_get_bit_eq [OF len, of "int k"] k bits [of k] unfolding s by auto
    then show ?thesis
      using True end_ by (auto simp: rdb_check_def word_le_nat_alt word_less_nat_alt)
  next
    case False
    then show ?thesis
      using end_ top [of "unat p"] by (auto simp: rdb_check_def word_le_nat_alt word_less_nat_alt)
  qed
qed

lemma rdb_add_index_spec:
  assumes rel: "rdb_rel rdb S" and p: "unat p < 2 ^ 31" and lo: "unat (window_start rdb) \<le> unat p"
  shows "\<exists>rdb'. rdb_add_index rdb p = Some (err_status_ok, rdb') \<and> rdb_rel rdb' (insert (unat p) S)"
proof -
  let ?w = "window_start rdb" and ?m = "rdb_bitmask rdb"
  have w: "unat ?w < 2 ^ 31" and len: "length ?m = 4"
    and bits: "\<And>n. wbit ?m n \<longleftrightarrow> n < 128 \<and> unat ?w + n \<in> S"
    and top: "\<And>i. i \<in> S \<Longrightarrow> i < unat ?w + 128"
    using rel by (auto simp: rdb_rel_def)
  define k where "k = unat p - unat ?w"
  have d: "unat (p - ?w) = k" using lo by (simp add: k_def unat_sub word_le_nat_alt)
  then have s: "sint (p - ?w) = int k" using p by (simp add: sint_small k_def)
  have pk: "unat p = unat ?w + k" using lo by (simp add: k_def)
  show ?thesis
  proof (cases "k < 128")
    case True
    obtain m where m: "v128_set_bit ?m (sint (p - ?w)) = Some m" "length m = 4"
      "\<And>n. wbit m n \<longleftrightarrow> n = k \<or> wbit ?m n"
      using v128_set_bit_eq [OF len, of "int k"] True s by auto
    then have "rdb_rel (rdb\<lparr>rdb_bitmask := m\<rparr>) (insert (unat p) S)"
      using w bits top True by (auto simp: rdb_rel_def pk)
    then show ?thesis
      using True d m(1) by (auto simp: rdb_add_index_def rdb_bits_in_bitmask_def word_less_nat_alt)
  next
    case False
    define e where "e = p - ?w - (rdb_bits_in_bitmask - 1)"
    have d': "unat e = k - 127"
      using False d unfolding e_def
      by (subst unat_sub) (simp_all add: rdb_bits_in_bitmask_def word_le_nat_alt)
    then have s': "sint e = int (k - 127)" using p pk by (subst sint_small) simp_all
    obtain m where m: "v128_left_shift ?m (sint e) = Some m" "length m = 4"
      "\<And>n. wbit m n \<longleftrightarrow> wbit ?m (n + (k - 127))"
      using v128_left_shift_eq [OF len, of "int (k - 127)"] s' by auto
    obtain m' where m': "v128_set_bit m 127 = Some m'" "length m' = 4"
      "\<And>n. wbit m' n \<longleftrightarrow> n = 127 \<or> wbit m n"
      using v128_set_bit_eq [OF m(2), of 127] by auto
    have w': "unat (?w + e) = unat ?w + (k - 127)"
      using d' pk p by (simp add: unat_word_ariths(1))
    have "rdb_rel (rdb\<lparr>rdb_bitmask := m', window_start := ?w + e\<rparr>) (insert (unat p) S)"
      unfolding rdb_rel_def
    proof (intro conjI allI ballI)
      show "unat (window_start (rdb\<lparr>rdb_bitmask := m', window_start := ?w + e\<rparr>)) < 2 ^ 31"
        using w' pk p by simp
    next
      fix n
      show "wbit (rdb_bitmask (rdb\<lparr>rdb_bitmask := m', window_start := ?w + e\<rparr>)) n \<longleftrightarrow>
        n < 128 \<and> unat (window_start (rdb\<lparr>rdb_bitmask := m', window_start := ?w + e\<rparr>)) + n
          \<in> insert (unat p) S"
        using w' m' m bits False top [of "unat ?w + (k - 127) + n"]
        by (auto simp: pk add.assoc add.commute [of n])
    next
      fix i assume "i \<in> insert (unat p) S"
      then show "i < unat (window_start (rdb\<lparr>rdb_bitmask := m', window_start := ?w + e\<rparr>)) + 128"
        using w' top [of i] pk False by auto
    qed (simp add: m')
    moreover have "rdb_add_index rdb p =
        Some (err_status_ok, rdb\<lparr>rdb_bitmask := m', window_start := ?w + e\<rparr>)"
      using False d m(1) m'(1)
      by (simp add: rdb_add_index_def Let_def e_def rdb_bits_in_bitmask_def word_less_nat_alt)
    ultimately show ?thesis by blast
  qed
qed

section \<open>The receiving side\<close>

text \<open>
  The use the comments prescribe and \<^verbatim>\<open>srtp_unprotect_rtcp\<close> makes of the database: check an index,
  and add it when the check passes.
\<close>

definition rdb_receive :: "rdb_t \<Rightarrow> u32 \<Rightarrow> (rdb_t \<times> nat) option" where
  "rdb_receive rdb p =
     (if rdb_check rdb p = Some err_status_ok
      then map_option (\<lambda>(_, rdb'). (rdb', unat p)) (rdb_add_index rdb p) else None)"

lemma rdb_receive_SomeD:
  assumes rel: "rdb_rel rdb S" and p: "unat p < 2 ^ 31" and ok: "rdb_receive rdb p = Some (rdb', i)"
  shows "i = unat p" "i \<notin> S" "rdb_rel rdb' (insert i S)"
proof -
  from ok have "rdb_check rdb p = Some err_status_ok" by (simp add: rdb_receive_def split: if_splits)
  then have lo: "unat (window_start rdb) \<le> unat p" and new: "unat p \<notin> S"
    unfolding rdb_check_spec [OF rel p] by (auto split: if_splits)
  show "i = unat p" using ok by (auto simp: rdb_receive_def split: if_splits)
  with new show "i \<notin> S" by simp
  show "rdb_rel rdb' (insert i S)"
    using rdb_add_index_spec [OF rel p lo] ok by (auto simp: rdb_receive_def split: if_splits)
qed

interpretation rdb: replay_guard rdb_receive "\<lambda>_. rdb_rel" "\<lambda>p. unat p < 2 ^ 31"
  by unfold_locales (auto dest: rdb_receive_SomeD)

text \<open>The history of a database: the answers of the check to the indices that arrive.\<close>

primrec rdb_run :: "rdb_t \<Rightarrow> u32 list \<Rightarrow> err_status_t list option" where
  "rdb_run rdb [] = Some []"
| "rdb_run rdb (p # ps) = do {
     st \<leftarrow> rdb_check rdb p;
     rdb \<leftarrow> (if st = err_status_ok then map_option snd (rdb_add_index rdb p) else Some rdb);
     rest \<leftarrow> rdb_run rdb ps;
     Some (st # rest)
   }"

text \<open>The window starts 127 indices below the highest one, but not below zero.\<close>

lemma rdb_add_index_window:
  assumes add: "rdb_add_index rdb p = Some (st, rdb')" and lo: "unat (window_start rdb) \<le> unat p"
    and w: "int (unat (window_start rdb)) = max 0 (h - 127)"
  shows "int (unat (window_start rdb')) = max 0 (max h (int (unat p)) - 127)"
proof -
  have d: "unat (p - window_start rdb) = unat p - unat (window_start rdb)" using lo by (simp add: unat_sub word_le_nat_alt)
  show ?thesis
  proof (cases "p - window_start rdb < rdb_bits_in_bitmask")
    case True
    then have "window_start rdb' = window_start rdb" "unat p < unat (window_start rdb) + 128"
      using add d by (auto simp: rdb_add_index_def Let_def bind_eq_Some_conv rdb_bits_in_bitmask_def word_less_nat_alt)
    then show ?thesis using w by (auto simp: max_def simp del: of_nat_unat split: if_splits)
  next
    case False
    then have p: "window_start rdb' = p - 127" "128 \<le> unat p - unat (window_start rdb)"
      using add d by (auto simp: rdb_add_index_def Let_def bind_eq_Some_conv rdb_bits_in_bitmask_def word_less_nat_alt not_less)
    then have "unat (p - 127) = unat p - 127" by (intro unat_sub [THEN trans]) (simp_all add: word_le_nat_alt)
    then show ?thesis using p w by (auto simp: max_def simp del: of_nat_unat split: if_splits)
  qed
qed

lemma rdb_run_spec:
  assumes "rdb_rel rdb S" and "list_all (\<lambda>p. unat p < 2 ^ 31) ps"
    and "int (unat (window_start rdb)) = max 0 (h - 127)" and "0 \<le> h" and "\<forall>i\<in>S. int i \<le> h"
  shows "rdb_run rdb ps = Some (replay_spec 128 h (int ` S) (map (\<lambda>p. int (unat p)) ps))"
  using assms
proof (induction ps arbitrary: rdb S h)
  case (Cons p ps)
  let ?w = "window_start rdb" and ?i = "int (unat p)"
  have p: "unat p < 2 ^ 31" and ps: "list_all (\<lambda>p. unat p < 2 ^ 31) ps" using Cons.prems(2) by simp_all
  note chk = rdb_check_spec [OF Cons.prems(1) p]
  have mem: "?i \<in> int ` S \<longleftrightarrow> unat p \<in> S" by (auto simp del: of_nat_unat)
  have win: "unat p < unat ?w \<longleftrightarrow> ?i \<le> h - 128" using Cons.prems(3) by (auto simp: max_def simp del: of_nat_unat split: if_splits)
  show ?case
  proof (cases "unat ?w \<le> unat p \<and> unat p \<notin> S")
    case True
    then obtain rdb' where r: "rdb_add_index rdb p = Some (err_status_ok, rdb')" "rdb_rel rdb' (insert (unat p) S)"
      using rdb_add_index_spec [OF Cons.prems(1) p] by blast
    have w': "int (unat (window_start rdb')) = max 0 (max h ?i - 127)"
      by (rule rdb_add_index_window [OF r(1)]) (use True Cons.prems(3) in \<open>simp_all del: of_nat_unat\<close>)
    have "rdb_run rdb' ps = Some (replay_spec 128 (max h ?i) (int ` insert (unat p) S) (map (\<lambda>p. int (unat p)) ps))"
      by (rule Cons.IH [OF r(2) ps w']) (use Cons.prems(4,5) in \<open>auto simp del: of_nat_unat\<close>)
    moreover have "replay_spec 128 h (int ` S) (?i # is) = err_status_ok # replay_spec 128 (max h ?i) (int ` insert (unat p) S) is" for "is"
      using True win mem by (auto simp: max_def simp del: of_nat_unat split: if_splits)
    ultimately show ?thesis using True chk r(1) by (simp del: of_nat_unat replay_spec.simps)
  next
    case False
    have "?i \<le> h" using False win Cons.prems(4,5) by (auto simp del: of_nat_unat)
    then have "replay_spec 128 h (int ` S) (?i # is) =
        (if unat p < unat ?w then err_status_replay_old else err_status_replay_fail) # replay_spec 128 h (int ` S) is" for "is"
      using False win mem by (auto simp del: of_nat_unat)
    then show ?thesis using False chk Cons.IH [OF Cons.prems(1) ps Cons.prems(3-5)] by (simp del: of_nat_unat replay_spec.simps)
  qed
qed simp

text \<open>
  C25. The SRTCP replay window: whatever indices of 31 bits arrive at a database from \<^verbatim>\<open>rdb_init\<close>, each time the check
  answers as a window of 128 indices would that holds all indices accepted before, where \<^verbatim>\<open>rdb_add_index\<close> adds
  what passed. No access leaves the bit mask.
\<close>

lemma rdb_window_refines:
  assumes "list_all (\<lambda>p. unat p < 2 ^ 31) ps"
  shows "rdb_run (snd rdb_init) ps = Some (replay_spec 128 0 {} (map (\<lambda>p. int (unat p)) ps))"
  using rdb_run_spec [OF rdb_rel_init assms, of 0] by (simp add: rdb_init_def)

lemma rdb_window_refines_witness:
  "rdb_run (snd rdb_init) [5, 3, 5, 200, 72, 73, 73] = Some [err_status_ok, err_status_ok, err_status_replay_fail, err_status_ok,
     err_status_replay_old, err_status_ok, err_status_replay_fail]"
proof -
  have "replay_spec 128 0 {} (map (\<lambda>p. int (unat p)) [5, 3, 5, 200, 72, 73, 73 :: u32]) =
      [err_status_ok, err_status_ok, err_status_replay_fail, err_status_ok, err_status_replay_old, err_status_ok, err_status_replay_fail]"
    by code_simp
  then show ?thesis using rdb_window_refines [of "[5, 3, 5, 200, 72, 73, 73]"] by (simp del: replay_spec.simps rdb_run.simps)
qed

text \<open>
  No SRTCP index is accepted twice: whatever 31-bit indices arrive, in whatever order, the
  indices a receiver that starts from \<^verbatim>\<open>rdb_init\<close> accepts are pairwise different.
\<close>

lemma rdb_no_replay:
  assumes "list_all (\<lambda>p. unat p < 2 ^ 31) ps"
  shows "distinct (accepted rdb_receive (snd rdb_init) ps)"
  using rdb.accepted_fresh [OF rdb_rel_init assms] by blast

lemma rdb_no_replay_witness:
  "distinct (accepted rdb_receive (snd rdb_init) [7, 3, 7, 200, 3])"
  using rdb_no_replay [of "[7, 3, 7, 200, 3]"] by simp

lemma rdb_increment_counts:
  "((snd \<circ> rdb_increment) ^^ n) rdb = rdb\<lparr>window_start := window_start rdb + word_of_nat n\<rparr>"
  by (induction n) (simp_all add: rdb_increment_def algebra_simps)



end
