(* ===== verification/Replay_Dbx.thy ===== *)
theory Replay_Dbx
  imports Datatypes Replay_Guard
begin

text \<open>
  \<^verbatim>\<open>srtp/crypto/replay/rdbx.c\<close>: packet indices of 48 bits reconstructed from 16-bit sequence
  numbers, and the replay database of SRTP, a bit vector whose last bit stands for the highest index
  received. The reconstruction is shown to be the closest index with the given sequence number, and
  the database to accept every packet index at most once.
\<close>

type_synonym sequence_number_t = u16
type_synonym xtd_seq_num_t = u64

definition seq_num_median :: int where
  "seq_num_median = 2 ^ 15"

definition seq_num_max :: int where
  "seq_num_max = 2 ^ 16"

definition index_init :: xtd_seq_num_t where
  "index_init = 0"

definition index_advance :: "xtd_seq_num_t \<Rightarrow> sequence_number_t \<Rightarrow> xtd_seq_num_t" where
  "index_advance pi s = pi + ucast s"

text \<open>The result is the difference returned and the contents of \<^verbatim>\<open>*guess\<close>.\<close>

definition index_guess :: "xtd_seq_num_t \<Rightarrow> sequence_number_t \<Rightarrow> int \<times> xtd_seq_num_t" where
  "index_guess local s =
     (let local_roc = ucast (drop_bit 16 local) :: u32;
          local_seq = ucast local :: u16;
          (guess_roc, difference) =
            (if uint local_seq < seq_num_median then
               if uint s - uint local_seq > seq_num_median
               then (local_roc - 1, uint s - uint local_seq - seq_num_max)
               else (local_roc, uint s - uint local_seq)
             else
               if uint local_seq - seq_num_median > uint s
               then (local_roc + 1, uint s - uint local_seq + seq_num_max)
               else (local_roc, uint s - uint local_seq))
      in (difference, push_bit 16 (ucast guess_roc) OR ucast s))"

record rdbx_t =
  rdbx_index :: xtd_seq_num_t
  rdbx_bitmask :: bitvector_t

text \<open>\<open>mem\<close> stands for \<^verbatim>\<open>crypto_alloc\<close>, as in \<open>bitvector_alloc\<close>.\<close>

definition rdbx_init :: "(u32 \<Rightarrow> u32 list option) \<Rightarrow> rdbx_t \<Rightarrow> u32 \<Rightarrow> err_status_t \<times> rdbx_t" where
  "rdbx_init mem rdbx ws =
     (if ws = 0 then (err_status_bad_param, rdbx)
      else case bitvector_alloc mem ws of (r, v) \<Rightarrow>
        if r \<noteq> 0 then (err_status_alloc_fail, rdbx\<lparr>rdbx_bitmask := v\<rparr>)
        else (err_status_ok, \<lparr>rdbx_index = index_init, rdbx_bitmask = v\<rparr>))"

definition rdbx_dealloc :: "rdbx_t \<Rightarrow> err_status_t \<times> rdbx_t" where
  "rdbx_dealloc rdbx = (err_status_ok, rdbx\<lparr>rdbx_bitmask := bitvector_dealloc\<rparr>)"

definition rdbx_set_roc :: "rdbx_t \<Rightarrow> u32 \<Rightarrow> err_status_t \<times> rdbx_t" where
  "rdbx_set_roc rdbx roc =
     (let rdbx1 = rdbx\<lparr>rdbx_bitmask := bitvector_set_to_zero (rdbx_bitmask rdbx)\<rparr>
      in if ucast roc < drop_bit 16 (rdbx_index rdbx1) then (err_status_replay_old, rdbx1)
         else (err_status_ok, rdbx1\<lparr>rdbx_index :=
           (rdbx_index rdbx1 AND 0xffff) OR push_bit 16 (ucast roc)\<rparr>))"

definition rdbx_get_packet_index :: "rdbx_t \<Rightarrow> xtd_seq_num_t" where
  "rdbx_get_packet_index rdbx = rdbx_index rdbx"

definition rdbx_get_window_size :: "rdbx_t \<Rightarrow> u32" where
  "rdbx_get_window_size rdbx = bitvector_get_length (rdbx_bitmask rdbx)"

definition rdbx_check :: "rdbx_t \<Rightarrow> int \<Rightarrow> err_status_t option" where
  "rdbx_check rdbx delta =
     (let last = sint (bitvector_get_length (rdbx_bitmask rdbx) - 1)
      in if delta > 0 then Some err_status_ok
         else if last + delta < 0 then Some err_status_replay_old
         else do {
           b \<leftarrow> bitvector_get_bit (rdbx_bitmask rdbx) (last + delta);
           if b = 1 then Some err_status_replay_fail else Some err_status_ok
         })"

text \<open>
  The call \<^verbatim>\<open>index_advance(&rdbx->index, delta)\<close> converts the \<^verbatim>\<open>int\<close> to a 16-bit number. In the
  other branch \<^verbatim>\<open>bitvector_get_length(v) - 1 + delta\<close> is unsigned arithmetic.
\<close>

definition rdbx_add_index :: "rdbx_t \<Rightarrow> int \<Rightarrow> (err_status_t \<times> rdbx_t) option" where
  "rdbx_add_index rdbx delta =
     (if delta > 0 then do {
        v \<leftarrow> bitvector_left_shift (rdbx_bitmask rdbx) delta;
        v' \<leftarrow> bitvector_set_bit v (uint (bitvector_get_length v - 1));
        Some (err_status_ok, \<lparr>rdbx_index = index_advance (rdbx_index rdbx) (word_of_int delta),
                              rdbx_bitmask = v'\<rparr>)
      } else do {
        v' \<leftarrow> bitvector_set_bit (rdbx_bitmask rdbx)
          (uint (bitvector_get_length (rdbx_bitmask rdbx) - 1 + word_of_int delta));
        Some (err_status_ok, rdbx\<lparr>rdbx_bitmask := v'\<rparr>)
      })"

definition rdbx_estimate_index :: "rdbx_t \<Rightarrow> sequence_number_t \<Rightarrow> int \<times> xtd_seq_num_t" where
  "rdbx_estimate_index rdbx s =
     (if uint (rdbx_index rdbx) > seq_num_median then index_guess (rdbx_index rdbx) s
      else (uint s - uint (ucast (rdbx_index rdbx) :: u16), ucast s))"

section \<open>Reconstruction of the packet index\<close>

lemma uint_index_parts: "uint (push_bit 16 (ucast (r :: u32)) OR ucast (s :: u16) :: u64) = 65536 * uint r + uint s"
proof -
  have "push_bit 16 (ucast r) OR ucast s = (push_bit 16 (ucast r) + ucast s :: u64)"
    by (rule disjunctive_add [symmetric]) (auto simp: bit_simps dest: bit_imp_le_length)
  moreover have "uint (push_bit 16 (ucast r :: u64)) = 65536 * uint r"
    using uint_bounded [of r] by (simp add: uint_word_ariths unsigned_push_bit_eq unsigned_ucast_eq
        push_bit_eq_mult take_bit_int_eq_self mult.commute)
  moreover have "uint (ucast s :: u64) = uint s"
    using uint_bounded [of s] by (simp add: unsigned_ucast_eq take_bit_int_eq_self)
  ultimately show ?thesis
    using uint_bounded [of r] uint_bounded [of s]
    by (simp add: uint_word_ariths)
qed

lemma uint_roc_step:
  "uint (x - 1 :: u32) = (uint x - 1) mod 2 ^ 32" "uint (x + 1 :: u32) = (uint x + 1) mod 2 ^ 32"
  by (simp_all add: uint_word_ariths)

lemma uint_ucast_seq: "uint (ucast (l :: u64) :: u16) = uint l mod 65536"
  by (simp add: unsigned_ucast_eq take_bit_eq_mod)

lemma uint_ucast_roc: "uint l < 2 ^ 48 \<Longrightarrow> uint (ucast (drop_bit 16 (l :: u64)) :: u32) = uint l div 65536"
  unfolding unsigned_ucast_eq unsigned_drop_bit_eq
  by (simp add: take_bit_eq_mod drop_bit_eq_div mod_pos_pos_trivial pos_imp_zdiv_nonneg_iff)

text \<open>
  The guess of \<^verbatim>\<open>index_guess\<close> carries the sequence number of the packet and lies at the returned
  difference from the local index, modulo the 48 bits of an index; the difference is at most half a
  period.
\<close>

lemma index_guess_spec:
  assumes l: "uint l < 2 ^ 48" and g: "index_guess l s = (d, g)"
  shows "uint g mod 65536 = uint s" and "uint g = (uint l + d) mod 2 ^ 48"
    and "- (2 ^ 15) \<le> d" and "d \<le> 2 ^ 15"
proof -
  define R q t where "R = uint l div 65536" and "q = uint l mod 65536" and "t = uint s"
  have lRq: "uint l = 65536 * R + q" by (simp add: R_def q_def)
  have R: "0 \<le> R" "R < 2 ^ 32" using l by (simp_all add: R_def pos_imp_zdiv_nonneg_iff)
  have q: "0 \<le> q" "q < 65536" by (simp_all add: q_def)
  have t: "0 \<le> t" "t < 65536" using uint_bounded [of s] by (simp_all add: t_def)
  note parts = uint_ucast_seq uint_ucast_roc [OF l] uint_index_parts uint_roc_step
  show "uint g mod 65536 = uint s"
    using g t by (auto simp: index_guess_def Let_def uint_index_parts t_def split: if_splits)
  show "- (2 ^ 15) \<le> d" "d \<le> 2 ^ 15"
    using g q t by (auto simp: index_guess_def Let_def parts seq_num_median_def seq_num_max_def
        q_def [symmetric] t_def [symmetric] split: if_splits)
  have m: "(65536 * x + t) mod 2 ^ 48 = 65536 * (x mod 2 ^ 32) + t" for x :: int
  proof -
    have "(65536 * x + t) mod (65536 * 2 ^ 32) = 65536 * ((65536 * x + t) div 65536 mod 2 ^ 32) + (65536 * x + t) mod 65536"
      by (rule zmod_zmult2_eq) simp
    also have "(65536 * x + t) div 65536 = x" using t by simp
    also have "(65536 * x + t) mod 65536 = t" using t by simp
    finally show ?thesis by simp
  qed
  have f: "uint l + (t - q) = 65536 * R + t" "uint l + (t - q - 65536) = 65536 * (R - 1) + t"
      "uint l + (t - q + 65536) = 65536 * (R + 1) + t" "R mod 2 ^ 32 = R"
    using R by (simp_all add: lRq mod_pos_pos_trivial)
  have "d = t - q \<and> uint g = 65536 * R + t \<or>
      d = t - q - 65536 \<and> uint g = 65536 * ((R - 1) mod 2 ^ 32) + t \<or>
      d = t - q + 65536 \<and> uint g = 65536 * ((R + 1) mod 2 ^ 32) + t"
    using g by (auto simp: index_guess_def Let_def parts seq_num_median_def seq_num_max_def
        q_def t_def R_def split: if_splits)
  then show "uint g = (uint l + d) mod 2 ^ 48"
    by (elim disjE conjE) (simp_all only: f m)
qed

lemma rdbx_estimate_index_spec:
  assumes idx: "uint (rdbx_index r) < 2 ^ 48 - 2 ^ 16" and e: "rdbx_estimate_index r s = (d, g)"
  shows "uint g mod 65536 = uint s" and "uint g = uint (rdbx_index r) + d"
    and "- (2 ^ 15) \<le> d" and "d < 2 ^ 16"
    and "2 ^ 15 < uint (rdbx_index r) \<Longrightarrow> d \<le> 2 ^ 15"
proof -
  let ?l = "rdbx_index r"
  have s: "0 \<le> uint s" "uint s < 65536" using uint_bounded [of s] by simp_all
  have us: "uint (ucast s :: u64) = uint s"
    using s by (simp add: unsigned_ucast_eq take_bit_int_eq_self)
  have "uint g mod 65536 = uint s \<and> uint g = uint ?l + d \<and> - (2 ^ 15) \<le> d \<and> d < 2 ^ 16
    \<and> (2 ^ 15 < uint ?l \<longrightarrow> d \<le> 2 ^ 15)"
  proof (cases "uint ?l > 2 ^ 15")
    case True
    then have g: "index_guess ?l s = (d, g)"
      using e by (simp add: rdbx_estimate_index_def seq_num_median_def)
    have l: "uint ?l < 2 ^ 48" using idx by simp
    note G = index_guess_spec [OF l g]
    have "(uint ?l + d) mod 2 ^ 48 = uint ?l + d"
      using True idx G(3,4) by (intro mod_pos_pos_trivial) simp_all
    then show ?thesis using G True by simp
  next
    case False
    then have "uint ?l mod 65536 = uint ?l" using uint_ge_0 [of ?l] by simp
    then have "d = uint s - uint ?l" "g = ucast s"
      using e False by (auto simp: rdbx_estimate_index_def seq_num_median_def uint_ucast_seq)
    moreover have "- (2 ^ 15) \<le> uint s - uint ?l" "uint s - uint ?l < 65536"
      using False s uint_ge_0 [of ?l] by linarith+
    ultimately show ?thesis using False s us by simp
  qed
  then show "uint g mod 65536 = uint s" and "uint g = uint (rdbx_index r) + d"
    and "- (2 ^ 15) \<le> d" and "d < 2 ^ 16" and "2 ^ 15 < uint (rdbx_index r) \<Longrightarrow> d \<le> 2 ^ 15"
    by blast+
qed

section \<open>The abstract database\<close>

text \<open>
  \<open>rdbx_rel n r S\<close>: the database \<open>r\<close> stands for the set \<open>S\<close> of the packet indices added, and the
  index can still move forward by \<open>n\<close> packets without leaving its 48 bits.
\<close>

definition rdbx_wf :: "rdbx_t \<Rightarrow> bool" where
  "rdbx_wf r \<longleftrightarrow> bv_wf (rdbx_bitmask r) \<and> bv_word (rdbx_bitmask r) \<noteq> []"

definition rdbx_len :: "rdbx_t \<Rightarrow> int" where
  "rdbx_len r = 32 * int (length (bv_word (rdbx_bitmask r)))"

definition rdbx_rel :: "nat \<Rightarrow> rdbx_t \<Rightarrow> int set \<Rightarrow> bool" where
  "rdbx_rel n r S \<longleftrightarrow> rdbx_wf r \<and> uint (rdbx_index r) + 2 ^ 16 * int n < 2 ^ 48 \<and>
     (\<forall>k. bv_bit (rdbx_bitmask r) k \<longleftrightarrow>
        int k < rdbx_len r \<and> uint (rdbx_index r) - (rdbx_len r - 1) + int k \<in> S) \<and>
     (\<forall>i \<in> S. i \<le> uint (rdbx_index r))"

lemma rdbx_wf_last:
  assumes "rdbx_wf r"
  shows "sint (bitvector_get_length (rdbx_bitmask r) - 1) = rdbx_len r - 1"
    and "uint (bitvector_get_length (rdbx_bitmask r) - 1) = rdbx_len r - 1"
    and "0 < rdbx_len r" and "rdbx_len r < 2 ^ 31"
proof -
  define m where "m = 32 * length (bv_word (rdbx_bitmask r))"
  let ?l = "bv_length (rdbx_bitmask r)"
  have m: "unat ?l = m" "m < 2 ^ 31" "0 < m"
    using assms by (auto simp: rdbx_wf_def bv_wf_def m_def)
  have len: "rdbx_len r = int m" by (simp add: rdbx_len_def m_def)
  have "1 \<le> ?l" using m by (simp add: word_le_nat_alt Suc_le_eq)
  then have u: "unat (?l - 1) = m - 1" using m by (simp add: unat_sub)
  have i: "int (m - 1) = rdbx_len r - 1" using m len by simp
  show "sint (bitvector_get_length (rdbx_bitmask r) - 1) = rdbx_len r - 1"
    unfolding bitvector_get_length_def i [symmetric] u [symmetric] using m u by (intro sint_small) simp
  show "uint (bitvector_get_length (rdbx_bitmask r) - 1) = rdbx_len r - 1"
    unfolding bitvector_get_length_def i [symmetric] u [symmetric] by simp
  show "0 < rdbx_len r" "rdbx_len r < 2 ^ 31" using m len by simp_all
qed

lemma rdbx_check_spec:
  assumes rel: "rdbx_rel n r S"
  shows "rdbx_check r d = Some
     (if d > 0 then err_status_ok
      else if d \<le> - rdbx_len r then err_status_replay_old
      else if uint (rdbx_index r) + d \<in> S then err_status_replay_fail else err_status_ok)"
proof -
  have wf: "rdbx_wf r" and bits: "\<And>k. bv_bit (rdbx_bitmask r) k \<longleftrightarrow>
        int k < rdbx_len r \<and> uint (rdbx_index r) - (rdbx_len r - 1) + int k \<in> S"
    using rel by (auto simp: rdbx_rel_def)
  note last = rdbx_wf_last [OF wf]
  show ?thesis
  proof (cases "d \<le> 0 \<and> - rdbx_len r < d")
    case True
    define k where "k = nat (rdbx_len r - 1 + d)"
    have k: "rdbx_len r - 1 + d = int k" and kl: "int k < rdbx_len r"
      using True by (simp_all add: k_def)
    have "nat (int k) < 32 * length (bv_word (rdbx_bitmask r))" using kl by (simp add: rdbx_len_def)
    then obtain b where b: "bitvector_get_bit (rdbx_bitmask r) (int k) = Some b"
        "b = 1 \<longleftrightarrow> bv_bit (rdbx_bitmask r) k"
      using bitvector_get_bit_eq [of "int k" "rdbx_bitmask r"] by auto
    have eq: "uint (rdbx_index r) - (rdbx_len r - 1) + int k = uint (rdbx_index r) + d"
      using k by simp
    have "b = 1 \<longleftrightarrow> uint (rdbx_index r) + d \<in> S"
      using b(2) bits [of k, unfolded eq] kl by blast
    then show ?thesis
      using True b(1) by (simp add: rdbx_check_def Let_def last k)
  qed (auto simp: rdbx_check_def Let_def last)
qed

lemma rdbx_add_index_spec:
  assumes rel: "rdbx_rel (Suc n) r S" and hi: "d < 2 ^ 16" and lo: "- rdbx_len r < d"
  shows "\<exists>r'. rdbx_add_index r d = Some (err_status_ok, r') \<and> rdbx_len r' = rdbx_len r
    \<and> uint (rdbx_index r') = uint (rdbx_index r) + max 0 d
    \<and> rdbx_rel n r' (insert (uint (rdbx_index r) + d) S)"
proof -
  let ?v = "rdbx_bitmask r" and ?i = "uint (rdbx_index r)"
  have wf: "bv_wf ?v" and wfx: "rdbx_wf r" and idx: "?i + 2 ^ 16 * int (Suc n) < 2 ^ 48"
    and bits: "\<And>k. bv_bit ?v k \<longleftrightarrow> int k < rdbx_len r \<and> ?i - (rdbx_len r - 1) + int k \<in> S"
    and top: "\<And>j. j \<in> S \<Longrightarrow> j \<le> ?i"
    using rel by (auto simp: rdbx_rel_def rdbx_wf_def)
  note last = rdbx_wf_last [OF wfx]
  show ?thesis
  proof (cases "d > 0")
    case True
    obtain v where v: "bitvector_left_shift ?v d = Some v" "bv_wf v" "bv_length v = bv_length ?v"
        "length (bv_word v) = length (bv_word ?v)" "\<And>k. bv_bit v k \<longleftrightarrow> bv_bit ?v (k + nat d)"
      using bitvector_left_shift_eq [OF wf, of d] True by auto
    have lv: "uint (bitvector_get_length v - 1) = rdbx_len r - 1"
      using last(2) v(3) by (simp add: bitvector_get_length_def)
    obtain v' where v': "bitvector_set_bit v (rdbx_len r - 1) = Some v'" "bv_wf v'"
        "length (bv_word v') = length (bv_word ?v)"
        "\<And>k. bv_bit v' k \<longleftrightarrow> int k = rdbx_len r - 1 \<or> bv_bit v k"
    proof -
      have "nat (rdbx_len r - 1) < 32 * length (bv_word v)" and "0 \<le> rdbx_len r - 1"
        using v(4) last(3) unfolding rdbx_len_def by linarith+
      from bitvector_set_bit_eq [OF v(2) this(2,1)] obtain v' where
        *: "bitvector_set_bit v (rdbx_len r - 1) = Some v'" "bv_wf v'"
           "length (bv_word v') = length (bv_word v)"
           "\<forall>k. bv_bit v' k \<longleftrightarrow> k = nat (rdbx_len r - 1) \<or> bv_bit v k" by blast
      have "k = nat (rdbx_len r - 1) \<longleftrightarrow> int k = rdbx_len r - 1" for k using last(3) by auto
      then show ?thesis using that [of v'] * v(4) by simp
    qed
    let ?r' = "\<lparr>rdbx_index = index_advance (rdbx_index r) (word_of_int d), rdbx_bitmask = v'\<rparr>"
    have adv: "uint (rdbx_index ?r') = ?i + d"
      using True hi idx uint_ge_0 [of "rdbx_index r"]
      by (simp add: index_advance_def uint_word_ariths unsigned_ucast_eq uint_word_of_int
          take_bit_eq_mod mod_pos_pos_trivial)
    have len: "rdbx_len ?r' = rdbx_len r" using v'(3) by (simp add: rdbx_len_def)
    have "rdbx_rel n ?r' (insert (?i + d) S)"
      unfolding rdbx_rel_def
    proof (intro conjI allI ballI)
      show "rdbx_wf ?r'" using v' wfx by (auto simp: rdbx_wf_def)
      show "uint (rdbx_index ?r') + 2 ^ 16 * int n < 2 ^ 48" using adv idx hi by simp
      show "j \<le> uint (rdbx_index ?r')" if "j \<in> insert (?i + d) S" for j
        using that adv top [of j] True by auto
      fix k
      have "bv_bit v' k \<longleftrightarrow> int k = rdbx_len r - 1 \<or>
          (int k + d < rdbx_len r \<and> ?i + d - (rdbx_len r - 1) + int k \<in> S)"
        using v'(4) v(5) bits [of "k + nat d"] True by (auto simp: algebra_simps)
      also have "\<dots> \<longleftrightarrow> int k < rdbx_len r \<and> ?i + d - (rdbx_len r - 1) + int k \<in> insert (?i + d) S"
        using top [of "?i + d - (rdbx_len r - 1) + int k"] True by auto
      finally show "bv_bit (rdbx_bitmask ?r') k \<longleftrightarrow> int k < rdbx_len ?r' \<and>
          uint (rdbx_index ?r') - (rdbx_len ?r' - 1) + int k \<in> insert (?i + d) S"
        by (simp only: adv len) simp
    qed
    moreover have "rdbx_add_index r d = Some (err_status_ok, ?r')"
      using True v(1) v'(1) lv by (simp add: rdbx_add_index_def)
    ultimately show ?thesis using adv len True by auto
  next
    case False
    define k0 where "k0 = nat (rdbx_len r - 1 + d)"
    have k0: "int k0 = rdbx_len r - 1 + d" "int k0 < rdbx_len r" using False lo by (simp_all add: k0_def)
    have "uint (bitvector_get_length ?v - 1 + word_of_int d) = int k0"
    proof -
      have "bitvector_get_length ?v - 1 = word_of_int (rdbx_len r - 1)"
        using last(2) by (metis word_of_int_uint)
      then have w: "bitvector_get_length ?v - 1 + word_of_int d = word_of_int (int k0)"
        unfolding k0(1) by (simp only: of_int_add)
      have "int k0 < 2 ^ 32" using k0(2) last(4) by simp
      then show ?thesis unfolding w uint_word_of_int by (simp add: mod_pos_pos_trivial)
    qed
    moreover obtain v' where v': "bitvector_set_bit ?v (int k0) = Some v'" "bv_wf v'"
        "length (bv_word v') = length (bv_word ?v)" "\<And>k. bv_bit v' k \<longleftrightarrow> k = k0 \<or> bv_bit ?v k"
      using bitvector_set_bit_eq [OF wf, of "int k0"] k0(2) by (auto simp: rdbx_len_def)
    ultimately have add: "rdbx_add_index r d = Some (err_status_ok, r\<lparr>rdbx_bitmask := v'\<rparr>)"
      using False by (simp add: rdbx_add_index_def)
    have len: "rdbx_len (r\<lparr>rdbx_bitmask := v'\<rparr>) = rdbx_len r" using v'(3) by (simp add: rdbx_len_def)
    have "rdbx_rel n (r\<lparr>rdbx_bitmask := v'\<rparr>) (insert (?i + d) S)"
      unfolding rdbx_rel_def len using v' wfx idx top False bits k0
      by (auto simp: rdbx_wf_def)
    with add len False show ?thesis by auto
  qed
qed

section \<open>The receiving side\<close>

text \<open>
  What \<^verbatim>\<open>srtp_unprotect\<close> does with an authentic packet: estimate the index, check it, add it. The
  packet index it is accepted under is the estimate.
\<close>

definition rdbx_receive :: "rdbx_t \<Rightarrow> sequence_number_t \<Rightarrow> (rdbx_t \<times> int) option" where
  "rdbx_receive r s =
     (case rdbx_estimate_index r s of (delta, est) \<Rightarrow>
        if rdbx_check r delta = Some err_status_ok
        then map_option (\<lambda>(_, r'). (r', uint est)) (rdbx_add_index r delta) else None)"

lemma rdbx_rel_mono: "rdbx_rel (Suc n) r S \<Longrightarrow> rdbx_rel n r S"
  by (auto simp: rdbx_rel_def)

lemma rdbx_receive_SomeD:
  assumes rel: "rdbx_rel (Suc n) r S" and ok: "rdbx_receive r s = Some (r', i)"
  shows "i \<notin> S" "rdbx_rel n r' (insert i S)"
proof -
  obtain d g where e: "rdbx_estimate_index r s = (d, g)" by fastforce
  have "uint (rdbx_index r) < 2 ^ 48 - 2 ^ 16" using rel by (simp add: rdbx_rel_def)
  note E = rdbx_estimate_index_spec [OF this e]
  from ok e have c: "rdbx_check r d = Some err_status_ok" and i: "i = uint (rdbx_index r) + d"
    using E(2) by (auto simp: rdbx_receive_def split: if_splits)
  have top: "\<forall>j \<in> S. j \<le> uint (rdbx_index r)" using rel by (simp add: rdbx_rel_def)
  from c have "d > 0 \<or> - rdbx_len r < d \<and> i \<notin> S"
    unfolding rdbx_check_spec [OF rel] i by (auto split: if_splits)
  then show "i \<notin> S" using top i by auto
  have lo: "- rdbx_len r < d" using \<open>d > 0 \<or> _\<close> rdbx_wf_last(3) [of r] rel by (auto simp: rdbx_rel_def)
  from rdbx_add_index_spec [OF rel E(4) lo] ok e c show "rdbx_rel n r' (insert i S)"
    by (auto simp: rdbx_receive_def i)
qed

interpretation rdbx: replay_guard rdbx_receive rdbx_rel "\<lambda>_. True"
  by unfold_locales (auto dest: rdbx_receive_SomeD rdbx_rel_mono)

text \<open>
  C26. Index reconstruction: when the true index of an arriving packet, of 48 bits, lies within less than half a
  period of the highest index received, the estimate made from its 16-bit sequence number is that
  index, and the returned difference is the distance to it.
\<close>

lemma rdbx_estimate_index_correct:
  assumes idx: "uint (rdbx_index r) < 2 ^ 48" and i: "0 \<le> i" "i < 2 ^ 48"
    and near: "\<bar>i - uint (rdbx_index r)\<bar> < 2 ^ 15" and s: "uint s = i mod 2 ^ 16"
  shows "rdbx_estimate_index r s = (i - uint (rdbx_index r), word_of_int i)"
proof (cases "uint (rdbx_index r) > 2 ^ 15")
  case False
  let ?l = "rdbx_index r"
  have "uint ?l mod 65536 = uint ?l" using False uint_ge_0 [of ?l] by simp
  moreover have "uint s = i" using s near False i(1) by (simp add: mod_pos_pos_trivial)
  moreover have "ucast s = (word_of_int i :: u64)" using \<open>uint s = i\<close> by (metis ucast_eq)
  ultimately show ?thesis using False by (simp add: rdbx_estimate_index_def seq_num_median_def uint_ucast_seq)
next
  case True
  obtain d g where e: "rdbx_estimate_index r s = (d, g)" by fastforce
  let ?l = "uint (rdbx_index r)"
  have g: "index_guess (rdbx_index r) s = (d, g)" using e True by (simp add: rdbx_estimate_index_def seq_num_median_def)
  note E = index_guess_spec [OF idx g]
  have "((?l + d) mod 2 ^ 48) mod 65536 = i mod 65536" using E(1,2) s by simp
  then have "(?l + d) mod 65536 = i mod 65536" by (simp add: mod_mod_cancel)
  then have "65536 dvd (?l + d - i)" by (rule mod_eq_dvd_iff [THEN iffD1])
  then obtain k where k: "?l + d - i = 65536 * k" by (auto simp: dvd_def)
  have "\<bar>65536 * k\<bar> < 65536" using near E(3,4) unfolding k [symmetric] by auto
  then have "k = 0" by auto
  with k have d: "d = i - ?l" by simp
  then have "uint g = i" using E(2) i by (simp add: mod_pos_pos_trivial)
  then have "g = word_of_int i" by (metis word_of_int_uint)
  with d show ?thesis using e by simp
qed

lemma rdbx_estimate_index_correct_witness:
  "rdbx_estimate_index \<lparr>rdbx_index = 0x1FFF0, rdbx_bitmask = \<lparr>bv_length = 64, bv_word = [0, 0]\<rparr>\<rparr> 5 =
     (0x20005 - 0x1FFF0, word_of_int 0x20005)"
  using rdbx_estimate_index_correct [of "\<lparr>rdbx_index = 0x1FFF0, rdbx_bitmask = \<lparr>bv_length = 64, bv_word = [0, 0]\<rparr>\<rparr>"
      "0x20005" 5] by simp

lemma rdbx_rel_fresh:
  assumes "bv_wf v" "bv_word v \<noteq> []" "\<And>k. \<not> bv_bit v k" and "n < 2 ^ 32"
  shows "rdbx_rel n \<lparr>rdbx_index = 0, rdbx_bitmask = v\<rparr> {}"
  using assms by (simp add: rdbx_rel_def rdbx_wf_def)

text \<open>The history of a database: for each sequence number the answer of the check, and the index it was about.\<close>

primrec rdbx_run :: "rdbx_t \<Rightarrow> sequence_number_t list \<Rightarrow> (err_status_t \<times> int) list option" where
  "rdbx_run r [] = Some []"
| "rdbx_run r (s # ss) =
     (case rdbx_estimate_index r s of (delta, est) \<Rightarrow> do {
        st \<leftarrow> rdbx_check r delta;
        r \<leftarrow> (if st = err_status_ok then map_option snd (rdbx_add_index r delta) else Some r);
        rest \<leftarrow> rdbx_run r ss;
        Some ((st, uint est) # rest)
      })"

lemma rdbx_run_spec:
  assumes "rdbx_rel (length ss) r S"
  shows "\<exists>rs. rdbx_run r ss = Some rs \<and> map (\<lambda>x. snd x mod 2 ^ 16) rs = map uint ss \<and>
    map fst rs = replay_spec (rdbx_len r) (uint (rdbx_index r)) S (map snd rs)"
  using assms
proof (induction ss arbitrary: r S)
  case (Cons s ss)
  obtain d g where e: "rdbx_estimate_index r s = (d, g)" by fastforce
  have rel: "rdbx_rel (Suc (length ss)) r S" using Cons.prems by simp
  then have "uint (rdbx_index r) < 2 ^ 48 - 2 ^ 16" by (simp add: rdbx_rel_def)
  note E = rdbx_estimate_index_spec [OF this e]
  let ?h = "uint (rdbx_index r)" and ?W = "rdbx_len r"
  let ?st = "if d > 0 then err_status_ok else if d \<le> - ?W then err_status_replay_old
    else if ?h + d \<in> S then err_status_replay_fail else err_status_ok"
  have chk: "rdbx_check r d = Some ?st" by (rule rdbx_check_spec [OF rel])
  have W: "0 < ?W" using rel rdbx_wf_last(3) by (auto simp: rdbx_rel_def)
  show ?case
  proof (cases "?st = err_status_ok")
    case True
    then have "- ?W < d" using W by (auto split: if_splits)
    then obtain r' where r': "rdbx_add_index r d = Some (err_status_ok, r')" "rdbx_len r' = ?W"
        "uint (rdbx_index r') = ?h + max 0 d" "rdbx_rel (length ss) r' (insert (?h + d) S)"
      using rdbx_add_index_spec [OF rel E(4)] by blast
    obtain rs where "rdbx_run r' ss = Some rs" "map (\<lambda>x. snd x mod 2 ^ 16) rs = map uint ss"
        "map fst rs = replay_spec ?W (?h + max 0 d) (insert (?h + d) S) (map snd rs)"
      using Cons.IH [OF r'(4)] r'(2,3) by auto
    then show ?thesis using e chk True r'(1) E(1,2) by (auto simp: max_def split: if_splits)
  next
    case False
    obtain rs where "rdbx_run r ss = Some rs" "map (\<lambda>x. snd x mod 2 ^ 16) rs = map uint ss"
        "map fst rs = replay_spec ?W ?h S (map snd rs)"
      using Cons.IH [OF rdbx_rel_mono [OF rel]] by auto
    then show ?thesis using e chk False E(1,2) by (auto split: if_splits)
  qed
qed simp

lemma rdbx_init_rel:
  assumes init: "rdbx_init mem r0 ws = (err_status_ok, r)"
    and mem: "\<And>l. l \<noteq> 0 \<Longrightarrow> \<exists>m. mem l = Some m \<and> length m = unat l div 4"
    and ws: "unat ws < 2 ^ 30" and n: "n < 2 ^ 32"
  shows "rdbx_rel n r {}" and "rdbx_index r = 0" and "rdbx_len r = 32 * ((uint ws + 31) div 32)"
proof -
  have ws0: "ws \<noteq> 0" using init by (auto simp: rdbx_init_def)
  obtain v where v: "bitvector_alloc mem ws = (0, v)" "bv_wf v" "\<And>k. \<not> bv_bit v k"
      "unat ws \<le> 32 * length (bv_word v)" "32 * length (bv_word v) < unat ws + 32"
    using bitvector_alloc_ok [OF ws ws0 mem] by auto
  have "bv_word v \<noteq> []" using v(4) ws0 by (auto simp: unat_eq_zero)
  moreover have r: "r = \<lparr>rdbx_index = 0, rdbx_bitmask = v\<rparr>"
    using init v(1) ws0 by (auto simp: rdbx_init_def index_init_def)
  ultimately show "rdbx_rel n r {}" "rdbx_index r = 0" using rdbx_rel_fresh [OF v(2) _ v(3) n] by simp_all
  have "length (bv_word v) = (unat ws + 31) div 32" using v(4,5) by linarith
  then have "int (length (bv_word v)) = (int (unat ws) + 31) div 32" by (simp only: zdiv_int of_nat_add of_nat_numeral)
  then show "rdbx_len r = 32 * ((uint ws + 31) div 32)" by (simp add: r rdbx_len_def)
qed

text \<open>
  C23. The SRTP replay window: whatever sequence numbers arrive at a freshly initialised database, up to \<open>2 ^ 32 - 1\<close> of
  them, each time the check answers as a window of the size of the bit vector would that holds all indices accepted
  before, where \<^verbatim>\<open>rdbx_add_index\<close> adds what passed. Each answer is about an index with the sequence number
  that arrived. No access leaves the bit vector.
\<close>

lemma rdbx_window_refines:
  assumes "rdbx_init mem r0 ws = (err_status_ok, r)"
    and "\<And>l. l \<noteq> 0 \<Longrightarrow> \<exists>m. mem l = Some m \<and> length m = unat l div 4"
    and "unat ws < 2 ^ 30" and "length seqs < 2 ^ 32"
  shows "\<exists>rs. rdbx_run r seqs = Some rs \<and> map (\<lambda>x. snd x mod 2 ^ 16) rs = map uint seqs \<and>
    map fst rs = replay_spec (32 * ((uint ws + 31) div 32)) 0 {} (map snd rs)"
  using rdbx_run_spec [OF rdbx_init_rel(1) [OF assms]] rdbx_init_rel(2,3) [OF assms] by simp

abbreviation zero_rdbx :: "u32 \<Rightarrow> rdbx_t" where
  "zero_rdbx ws \<equiv> snd (rdbx_init (\<lambda>l. Some (replicate (unat l div 4) 0))
     \<lparr>rdbx_index = 0, rdbx_bitmask = \<lparr>bv_length = 0, bv_word = []\<rparr>\<rparr> ws)"

lemma rdbx_window_refines_witness:
  "rdbx_run (zero_rdbx 100) [1, 3, 1, 2, 300, 3, 200, 200] = Some
     [(err_status_ok, 1), (err_status_ok, 3), (err_status_replay_fail, 1), (err_status_ok, 2), (err_status_ok, 300),
      (err_status_replay_old, 3), (err_status_ok, 200), (err_status_replay_fail, 200)] \<and>
   replay_spec 128 0 {} [1, 3, 1, 2, 300, 3, 200, 200] =
     [err_status_ok, err_status_ok, err_status_replay_fail, err_status_ok, err_status_ok, err_status_replay_old,
      err_status_ok, err_status_replay_fail]"
proof -
  have run: "rdbx_run (zero_rdbx 100) [1, 3, 1, 2, 300, 3, 200, 200] = Some
     [(err_status_ok, 1), (err_status_ok, 3), (err_status_replay_fail, 1), (err_status_ok, 2), (err_status_ok, 300),
      (err_status_replay_old, 3), (err_status_ok, 200), (err_status_replay_fail, 200)]" by code_simp
  have init: "rdbx_init (\<lambda>l. Some (replicate (unat l div 4) 0))
      \<lparr>rdbx_index = 0, rdbx_bitmask = \<lparr>bv_length = 0, bv_word = []\<rparr>\<rparr> 100 = (err_status_ok, zero_rdbx 100)"
    by (simp add: rdbx_init_def bitvector_alloc_def Let_def bits_per_word_def bytes_per_word_def)
  show ?thesis using rdbx_window_refines [OF init, of "[1, 3, 1, 2, 300, 3, 200, 200]"]
    by (simp add: run del: rdbx_run.simps replay_spec.simps)
qed

text \<open>
  C24. No SRTP packet index is accepted twice: whatever sequence numbers arrive at a freshly
  initialised database, up to \<open>2 ^ 32 - 1\<close> of them, the packet indices they are accepted under are
  pairwise different.
\<close>

lemma rdbx_no_replay:
  assumes init: "rdbx_init mem r0 ws = (err_status_ok, r)"
    and mem: "\<And>l. l \<noteq> 0 \<Longrightarrow> \<exists>m. mem l = Some m \<and> length m = unat l div 4"
    and ws: "unat ws < 2 ^ 30" and n: "length seqs < 2 ^ 32"
  shows "distinct (accepted rdbx_receive r seqs)"
  using rdbx.accepted_fresh [OF rdbx_init_rel(1) [OF init mem ws n]] by (simp add: list_all_iff)

lemma rdbx_no_replay_witness:
  "distinct (accepted rdbx_receive
     (snd (rdbx_init (\<lambda>l. Some (replicate (unat l div 4) 0))
        \<lparr>rdbx_index = 0, rdbx_bitmask = \<lparr>bv_length = 0, bv_word = []\<rparr>\<rparr> 128)) [1, 2, 65535, 2])"
proof (rule rdbx_no_replay [where ws = 128])
  show "rdbx_init (\<lambda>l. Some (replicate (unat l div 4) 0))
        \<lparr>rdbx_index = 0, rdbx_bitmask = \<lparr>bv_length = 0, bv_word = []\<rparr>\<rparr> 128 = (err_status_ok,
      snd (rdbx_init (\<lambda>l. Some (replicate (unat l div 4) 0))
        \<lparr>rdbx_index = 0, rdbx_bitmask = \<lparr>bv_length = 0, bv_word = []\<rparr>\<rparr> 128))"
    by (simp add: rdbx_init_def bitvector_alloc_def Let_def bits_per_word_def bytes_per_word_def)
qed simp_all

text \<open>
  A refused change of the rollover counter still forgets the window: \<^verbatim>\<open>rdbx_set_roc\<close> clears the
  bit vector before it looks at the counter, so after it has answered \<^verbatim>\<open>replay_old\<close> every index of
  the window, received or not, passes the check again.
\<close>

lemma rdbx_set_roc_forgets:
  assumes wf: "rdbx_wf r" and old: "uint roc < uint (rdbx_index r) div 2 ^ 16"
    and win: "d \<le> 0" "- rdbx_len r < d"
  shows "fst (rdbx_set_roc r roc) = err_status_replay_old \<and>
     rdbx_check (snd (rdbx_set_roc r roc)) d = Some err_status_ok"
proof -
  let ?r = "r\<lparr>rdbx_bitmask := bitvector_set_to_zero (rdbx_bitmask r)\<rparr>"
  have "ucast roc < drop_bit 16 (rdbx_index r)"
  proof -
    have "uint (ucast roc :: u64) = uint roc"
      using uint_bounded [of roc] by (simp add: unsigned_ucast_eq take_bit_int_eq_self)
    moreover have "uint (drop_bit 16 (rdbx_index r)) = uint (rdbx_index r) div 2 ^ 16"
      unfolding unsigned_drop_bit_eq using uint_bounded [of "rdbx_index r"]
      by (simp add: drop_bit_eq_div take_bit_int_eq_self)
    ultimately show ?thesis using old by (simp add: word_less_def)
  qed
  then have set: "rdbx_set_roc r roc = (err_status_replay_old, ?r)" by (simp add: rdbx_set_roc_def Let_def)
  have bw: "bv_wf (rdbx_bitmask r)" using wf by (simp add: rdbx_wf_def)
  have wf': "rdbx_wf ?r" and len: "rdbx_len ?r = rdbx_len r"
    using wf bitvector_set_to_zero_eq [OF bw] by (auto simp: rdbx_wf_def bv_wf_def rdbx_len_def)
  define k where "k = nat (rdbx_len r - 1 + d)"
  have k: "rdbx_len r - 1 + d = int k" "nat (int k) < 32 * length (bv_word (rdbx_bitmask ?r))"
    using win bitvector_set_to_zero_eq [OF bw] by (auto simp: k_def rdbx_len_def)
  obtain b where b: "bitvector_get_bit (rdbx_bitmask ?r) (int k) = Some b"
      "b = 1 \<longleftrightarrow> bv_bit (rdbx_bitmask ?r) k"
    using bitvector_get_bit_eq [OF _ k(2)] by auto
  have "\<not> bv_bit (rdbx_bitmask ?r) k"
    using bitvector_set_to_zero_eq [OF bw] by (simp add: bv_bit_def)
  then show ?thesis
    using set b win rdbx_wf_last(1) [OF wf'] len k(1) by (simp add: rdbx_check_def Let_def)
qed

lemma rdbx_set_roc_forgets_witness:
  "rdbx_check (snd (rdbx_set_roc
     \<lparr>rdbx_index = 0x20000, rdbx_bitmask = \<lparr>bv_length = 32, bv_word = [0xFFFFFFFF]\<rparr>\<rparr> 1)) 0 = Some err_status_ok"
proof -
  have "rdbx_wf \<lparr>rdbx_index = 0x20000, rdbx_bitmask = \<lparr>bv_length = 32, bv_word = [0xFFFFFFFF]\<rparr>\<rparr>"
    by (simp add: rdbx_wf_def bv_wf_def)
  from rdbx_set_roc_forgets [OF this, of 1 0] show ?thesis by (simp add: rdbx_len_def)
qed

end
