(* ===== verification/Key_Limit.thy ===== *)
theory Key_Limit
  imports Replay_Dbx
begin

text \<open>
  \<^verbatim>\<open>srtp/crypto/kernel/key.c\<close>: the budget of packets a key may protect. The number of packets left
  counts down; below the soft limit every use reports \<^verbatim>\<open>key_event_soft_limit\<close>, and the use that
  exhausts the budget reports \<^verbatim>\<open>key_event_hard_limit\<close> and marks the key expired.
\<close>

datatype key_event_t = key_event_normal | key_event_soft_limit | key_event_hard_limit

datatype key_state_t = key_state_normal | key_state_past_soft_limit | key_state_expired

record key_limit_ctx_t =
  num_left :: xtd_seq_num_t
  kl_state :: key_state_t

definition soft_limit :: u64 where
  "soft_limit = 0x10000"

definition key_limit_set :: "key_limit_ctx_t \<Rightarrow> xtd_seq_num_t \<Rightarrow> err_status_t \<times> key_limit_ctx_t" where
  "key_limit_set key s =
     (if s < soft_limit then (err_status_bad_param, key)
      else (err_status_ok, key\<lparr>num_left := s, kl_state := key_state_normal\<rparr>))"

text \<open>A clone is the same pointer: both streams then draw on one budget.\<close>

definition key_limit_clone :: "'ref option \<Rightarrow> 'ref option \<Rightarrow> err_status_t \<times> 'ref option" where
  "key_limit_clone original new_key =
     (if original = None then (err_status_bad_param, new_key) else (err_status_ok, original))"

definition key_limit_check :: "key_limit_ctx_t \<Rightarrow> err_status_t" where
  "key_limit_check key =
     (if kl_state key = key_state_expired then err_status_key_expired else err_status_ok)"

definition key_limit_update :: "key_limit_ctx_t \<Rightarrow> key_event_t \<times> key_limit_ctx_t" where
  "key_limit_update key =
     (let key1 = key\<lparr>num_left := num_left key - 1\<rparr>
      in if num_left key1 \<ge> soft_limit then (key_event_normal, key1)
         else let key2 = (if kl_state key1 = key_state_normal
                          then key1\<lparr>kl_state := key_state_past_soft_limit\<rparr> else key1)
              in if num_left key2 < 1 then (key_event_hard_limit, key2\<lparr>kl_state := key_state_expired\<rparr>)
                 else (key_event_soft_limit, key2))"

section \<open>The life of a key\<close>

definition key_after :: "xtd_seq_num_t \<Rightarrow> nat \<Rightarrow> key_limit_ctx_t \<Rightarrow> key_limit_ctx_t" where
  "key_after s n key = ((snd \<circ> key_limit_update) ^^ n) (snd (key_limit_set key s))"

lemma num_left_update [simp]: "num_left (snd (key_limit_update key)) = num_left key - 1"
  by (simp add: key_limit_update_def Let_def)

lemma num_left_key_after: "soft_limit \<le> s \<Longrightarrow> num_left (key_after s n key) = s - word_of_nat n"
  by (induction n) (auto simp: key_after_def key_limit_set_def)

lemma unat_num_left_key_after:
  assumes "soft_limit \<le> s" and "n \<le> unat s"
  shows "unat (num_left (key_after s n key)) = unat s - n"
proof -
  have "unat (word_of_nat n :: u64) = n" 
    using assms(2) unsigned_less [of s, where 'a = nat] by (simp add: unat_of_nat)
  then show ?thesis unfolding num_left_key_after [OF assms(1)]
    using assms(2) by (subst unat_sub) (simp_all add: word_le_nat_alt)
qed

lemma kl_state_key_after:
  assumes s: "soft_limit \<le> s" and n: "n \<le> unat s"
  shows "kl_state (key_after s n key) =
     (if 0x10000 \<le> unat s - n then key_state_normal
      else if unat s - n = 0 then key_state_expired else key_state_past_soft_limit)"
  using n
proof (induction n)
  case 0
  then show ?case using s by (auto simp: key_after_def key_limit_set_def soft_limit_def word_le_nat_alt word_less_nat_alt)
next
  case (Suc n)
  let ?k = "key_after s n key"
  have st: "key_after s (Suc n) key = snd (key_limit_update ?k)" by (simp add: key_after_def)
  have u: "unat (num_left ?k - 1) = unat s - Suc n"
    using unat_num_left_key_after [OF s, of "Suc n" key] Suc.prems by (simp add: st)
  show ?case unfolding st
    using Suc u by (auto simp: key_limit_update_def Let_def soft_limit_def word_le_nat_alt word_less_nat_alt)
qed

text \<open>
  C27. Key usage: \<^verbatim>\<open>key_limit_set\<close> accepts a limit of \<open>s\<close> packets when it is not below the soft limit. After \<open>n\<close> packets
  the count is \<open>s - n\<close> and the state is normal while at least \<^verbatim>\<open>soft_limit\<close> packets are left, past the soft limit below that,
  and expired when none is left, which only then \<^verbatim>\<open>key_limit_check\<close> reports. The use that leads to a state reports
  the event of that state.
\<close>

lemma key_limit_life:
  assumes s: "soft_limit \<le> s" and n: "n \<le> unat s"
  shows "fst (key_limit_set key s) = err_status_ok \<and> unat (num_left (key_after s n key)) = unat s - n \<and>
     kl_state (key_after s n key) = (if 0x10000 \<le> unat s - n then key_state_normal
       else if n < unat s then key_state_past_soft_limit else key_state_expired) \<and>
     key_limit_check (key_after s n key) = (if n < unat s then err_status_ok else err_status_key_expired) \<and>
     (0 < n \<longrightarrow> fst (key_limit_update (key_after s (n - 1) key)) = (if 0x10000 \<le> unat s - n then key_event_normal
       else if n < unat s then key_event_soft_limit else key_event_hard_limit))"
proof (intro conjI impI)
  show "fst (key_limit_set key s) = err_status_ok" using s by (simp add: key_limit_set_def)
  show "unat (num_left (key_after s n key)) = unat s - n" by (rule unat_num_left_key_after [OF assms])
  show st: "kl_state (key_after s n key) = (if 0x10000 \<le> unat s - n then key_state_normal
      else if n < unat s then key_state_past_soft_limit else key_state_expired)"
    using kl_state_key_after [OF assms, of key] n by auto
  then show "key_limit_check (key_after s n key) = (if n < unat s then err_status_ok else err_status_key_expired)"
    by (auto simp: key_limit_check_def)
  assume "0 < n"
  then have "key_after s n key = snd (key_limit_update (key_after s (n - 1) key))" by (cases n) (simp_all add: key_after_def)
  then have "unat (num_left (key_after s (n - 1) key) - 1) = unat s - n" using unat_num_left_key_after [OF assms, of key] by simp
  then show "fst (key_limit_update (key_after s (n - 1) key)) = (if 0x10000 \<le> unat s - n then key_event_normal
      else if n < unat s then key_event_soft_limit else key_event_hard_limit)"
    using n by (auto simp: key_limit_update_def Let_def soft_limit_def word_le_nat_alt word_less_nat_alt)
qed

lemma key_limit_life_witness:
  "let key = \<lparr>num_left = 0, kl_state = key_state_normal\<rparr> in
   kl_state (key_after 0x10000 1 key) = key_state_past_soft_limit \<and> fst (key_limit_update (key\<lparr>num_left := 0x10000\<rparr>)) = key_event_soft_limit \<and>
   key_limit_check (key_after 0x10000 65536 key) = err_status_key_expired"
  using key_limit_life [of "0x10000" 1 "\<lparr>num_left = 0, kl_state = key_state_normal\<rparr>"]
    key_limit_life [of "0x10000" 65536 "\<lparr>num_left = 0, kl_state = key_state_normal\<rparr>"]
  by (simp add: soft_limit_def key_after_def [of _ 0] key_limit_set_def)

text \<open>
  The counter wraps: one use after the hard limit the number of packets left is \<open>2 ^ 64 - 1\<close> and
  \<^verbatim>\<open>key_limit_update\<close> reports a normal event again, although the state still says expired.
\<close>

lemma key_limit_update_after_expiry:
  assumes "num_left key = 0"
  shows "fst (key_limit_update key) = key_event_normal \<and>
     num_left (snd (key_limit_update key)) = 0xFFFFFFFFFFFFFFFF \<and>
     kl_state (snd (key_limit_update key)) = kl_state key"
  using assms by (simp add: key_limit_update_def Let_def soft_limit_def)

lemma key_limit_update_after_expiry_witness:
  "fst (key_limit_update \<lparr>num_left = 0, kl_state = key_state_expired\<rparr>) = key_event_normal"
  using key_limit_update_after_expiry [of "\<lparr>num_left = 0, kl_state = key_state_expired\<rparr>"] by simp

end
