(* ===== verification/Stream_Hash.thy ===== *)
theory Stream_Hash
  imports Prelude
begin

text \<open>
  The interface of a streaming hash function, as the message authentication code relies on it: a
  context is initialised, absorbs octets piecewise and yields the digest of all it has absorbed.
  \<open>absorbed c m\<close> says that \<open>c\<close> has absorbed \<open>m\<close>, \<open>storage c\<close> that \<open>c\<close> is memory large enough to hold a
  context. The provider is \<open>Sha1\<close>, the client \<open>Hmac\<close>.
\<close>

locale stream_hash =
  fixes storage :: "'c \<Rightarrow> bool"
    and absorbed :: "'c \<Rightarrow> octets \<Rightarrow> bool"
    and init :: "'c \<Rightarrow> 'c"
    and update :: "'c \<Rightarrow> octets \<Rightarrow> 'c"
    and final :: "'c \<Rightarrow> 'c \<times> 'd"
    and digest :: "octets \<Rightarrow> octets"
    and octets_of :: "'d \<Rightarrow> octets"
    and limit :: nat
  assumes absorbed_storage: "absorbed c m \<Longrightarrow> storage c"
    and absorbed_init: "storage c \<Longrightarrow> absorbed (init c) []"
    and absorbed_update: "absorbed c m \<Longrightarrow> absorbed (update c x) (m @ x)"
    and storage_final: "absorbed c m \<Longrightarrow> storage (fst (final c))"
    and final_digest: "absorbed c m \<Longrightarrow> length m < limit \<Longrightarrow> octets_of (snd (final c)) = digest m"
begin

lemma one_shot:
  assumes "storage c" and "length m < limit"
  shows "octets_of (snd (final (update (init c) m))) = digest m"
  using absorbed_update [OF absorbed_init [OF assms(1)], of m] assms(2) by (simp add: final_digest)

text \<open>The digest does not depend on how the message is cut into pieces.\<close>

lemma absorbed_pieces: "absorbed c m \<Longrightarrow> absorbed (fold (\<lambda>x c. update c x) xs c) (m @ concat xs)"
proof (induction xs arbitrary: c m)
  case (Cons x xs)
  from Cons.IH [OF absorbed_update [OF Cons.prems, of x]] show ?case by simp
qed simp

lemma two_pieces:
  assumes "storage c" and "length a + length b < limit"
  shows "octets_of (snd (final (update (update (init c) a) b))) = digest (a @ b)"
proof (rule final_digest)
  show "absorbed (update (update (init c) a) b) (a @ b)"
    using absorbed_pieces [OF absorbed_init [OF assms(1)], of "[a, b]"] by simp
qed (use assms(2) in simp)

end

end
