(* ===== verification/Sha1.thy ===== *)
theory Sha1
  imports Stream_Hash
begin

text \<open>
  \<^verbatim>\<open>srtp/crypto/hash/sha1.c\<close>: the streaming SHA-1 of the library, and its equivalence with the hash
  function of FIPS 180, stated below as a reference definition over whole messages. The context
  keeps the message buffer as its 64 octets; the source overlays them with sixteen words, which
  \<open>words_le\<close> reads.
\<close>

section \<open>The implementation\<close>

definition S1 :: "u32 \<Rightarrow> u32" where
  "S1 X = push_bit 1 X OR drop_bit 31 X"

definition S5 :: "u32 \<Rightarrow> u32" where
  "S5 X = push_bit 5 X OR drop_bit 27 X"

definition S30 :: "u32 \<Rightarrow> u32" where
  "S30 X = push_bit 30 X OR drop_bit 2 X"

definition f0 :: "u32 \<Rightarrow> u32 \<Rightarrow> u32 \<Rightarrow> u32" where
  "f0 B C D = (B AND C) OR (NOT B AND D)"

definition f1 :: "u32 \<Rightarrow> u32 \<Rightarrow> u32 \<Rightarrow> u32" where
  "f1 B C D = B XOR C XOR D"

definition f2 :: "u32 \<Rightarrow> u32 \<Rightarrow> u32 \<Rightarrow> u32" where
  "f2 B C D = (B AND C) OR (B AND D) OR (C AND D)"

definition f3 :: "u32 \<Rightarrow> u32 \<Rightarrow> u32 \<Rightarrow> u32" where
  "f3 B C D = B XOR C XOR D"

definition SHA_K0 :: u32 where "SHA_K0 = 0x5A827999"

definition SHA_K1 :: u32 where "SHA_K1 = 0x6ED9EBA1"

definition SHA_K2 :: u32 where "SHA_K2 = 0x8F1BBCDC"

definition SHA_K3 :: u32 where "SHA_K3 = 0xCA62C1D6"

text \<open>
  \<open>sha1_expand W\<close> fills entries 16 to 79 of the array; the source unrolls the first sixteen steps of
  the same recurrence in \<^verbatim>\<open>sha1_core\<close>. \<open>sha1_rounds\<close> is the four loops of twenty rounds with the
  final additions, which \<^verbatim>\<open>sha1_core\<close> and \<^verbatim>\<open>sha1_final\<close> both contain.
\<close>

definition sha1_expand :: "u32 list \<Rightarrow> u32 list" where
  "sha1_expand W =
     fold (\<lambda>t W. W[t := S1 (W ! (t - 3) XOR W ! (t - 8) XOR W ! (t - 14) XOR W ! (t - 16))]) [16..<80] W"

definition sha1_step :: "(u32 \<Rightarrow> u32 \<Rightarrow> u32 \<Rightarrow> u32) \<Rightarrow> u32 \<Rightarrow> u32 list \<Rightarrow> nat \<Rightarrow>
    u32 \<times> u32 \<times> u32 \<times> u32 \<times> u32 \<Rightarrow> u32 \<times> u32 \<times> u32 \<times> u32 \<times> u32" where
  "sha1_step f K W t = (\<lambda>(A, B, C, D, E).
     let TEMP = S5 A + f B C D + E + W ! t + K in (TEMP, A, S30 B, C, D))"

definition sha1_rounds :: "u32 list \<Rightarrow> u32 list \<Rightarrow> u32 list" where
  "sha1_rounds W H =
     (let s = (H ! 0, H ! 1, H ! 2, H ! 3, H ! 4);
          s = fold (sha1_step f0 SHA_K0 W) [0..<20] s;
          s = fold (sha1_step f1 SHA_K1 W) [20..<40] s;
          s = fold (sha1_step f2 SHA_K2 W) [40..<60] s;
          (A, B, C, D, E) = fold (sha1_step f3 SHA_K3 W) [60..<80] s
      in [H ! 0 + A, H ! 1 + B, H ! 2 + C, H ! 3 + D, H ! 4 + E])"

text \<open>The array \<^verbatim>\<open>W\<close> is not initialised in C; it is taken as zero here, and every entry is stored
  before it is loaded.\<close>

definition sha1_core :: "u32 list \<Rightarrow> u32 list \<Rightarrow> u32 list" where
  "sha1_core M hash_value =
     sha1_rounds (sha1_expand (map (\<lambda>i. bswap32 (M ! i)) [0..<16] @ replicate 64 0)) hash_value"

record sha1_ctx_t =
  sha_H :: "u32 list"
  sha_M :: octets
  octets_in_buffer :: nat
  num_bits_in_msg :: u32

definition sha1_init :: "sha1_ctx_t \<Rightarrow> sha1_ctx_t" where
  "sha1_init ctx = ctx\<lparr>sha_H := [0x67452301, 0xefcdab89, 0x98badcfe, 0x10325476, 0xc3d2e1f0],
     octets_in_buffer := 0, num_bits_in_msg := 0\<rparr>"

function sha1_update_loop :: "sha1_ctx_t \<Rightarrow> octets \<Rightarrow> sha1_ctx_t" where
  "sha1_update_loop ctx msg =
     (if msg = [] then ctx
      else if length msg + octets_in_buffer ctx \<ge> 64 then
        let k = 64 - octets_in_buffer ctx;
            buf = take (octets_in_buffer ctx) (sha_M ctx) @ take k msg
        in sha1_update_loop (ctx\<lparr>sha_M := buf, octets_in_buffer := 0,
             sha_H := sha1_core (words_le buf) (sha_H ctx)\<rparr>) (drop k msg)
      else ctx\<lparr>sha_M := take (octets_in_buffer ctx) (sha_M ctx) @ msg
                 @ drop (octets_in_buffer ctx + length msg) (sha_M ctx),
               octets_in_buffer := octets_in_buffer ctx + length msg\<rparr>)"
  by pat_completeness auto
termination
  by (relation "measure (\<lambda>(ctx, msg). length msg + octets_in_buffer ctx)") auto

declare sha1_update_loop.simps [simp del]

text \<open>
  \<^verbatim>\<open>octets_in_msg * 8\<close> is a product of signed integers, so one call with \<open>2 ^ 28\<close> octets or more is undefined. The
  function below is meant for shorter messages, and the theorems about the library stay below that bound.
\<close>

definition sha1_update :: "sha1_ctx_t \<Rightarrow> octets \<Rightarrow> sha1_ctx_t" where
  "sha1_update ctx msg =
     sha1_update_loop (ctx\<lparr>num_bits_in_msg := num_bits_in_msg ctx + word_of_nat (length msg * 8)\<rparr>) msg"

text \<open>The word array after the padding code of \<^verbatim>\<open>sha1_final\<close>, before it is expanded.\<close>

definition sha1_final_pad :: "sha1_ctx_t \<Rightarrow> u32 list" where
  "sha1_final_pad ctx =
     (let n = octets_in_buffer ctx; tail = n mod 4; i = (n + 3) div 4;
          M = words_le (sha_M ctx);
          W = fold (\<lambda>i W. W[i := bswap32 (M ! i)]) [0..<i] (replicate 80 0);
          W = (if tail = 3 then
                 W[i - 1 := (bswap32 (M ! (i - 1)) AND 0xffffff00) OR 0x80, i := 0]
               else if tail = 2 then
                 W[i - 1 := (bswap32 (M ! (i - 1)) AND 0xffff0000) OR 0x8000, i := 0]
               else if tail = 1 then
                 W[i - 1 := (bswap32 (M ! (i - 1)) AND 0xff000000) OR 0x800000, i := 0]
               else W[i := 0x80000000]);
          W = fold (\<lambda>i W. W[i := 0]) [i + 1..<15] W
      in if n < 56 then W[15 := num_bits_in_msg ctx]
         else if n < 60 then W[15 := 0] else W)"

definition sha1_final :: "sha1_ctx_t \<Rightarrow> sha1_ctx_t \<times> u32 list" where
  "sha1_final ctx =
     (let W = sha1_expand (sha1_final_pad ctx);
          H = sha1_rounds W (sha_H ctx);
          H = (if octets_in_buffer ctx \<ge> 56
               then let W = fold (\<lambda>i W. W[i := 0]) [0..<15] W;
                        W = sha1_expand (W[15 := num_bits_in_msg ctx])
                    in sha1_rounds W H
               else H)
      in (ctx\<lparr>sha_H := H, octets_in_buffer := 0\<rparr>,
          [bswap32 (H ! 0), bswap32 (H ! 1), bswap32 (H ! 2), bswap32 (H ! 3), bswap32 (H ! 4)]))"

text \<open>\<open>ctx\<close> is the uninitialised automatic variable of \<^verbatim>\<open>sha1\<close>.\<close>

definition sha1 :: "sha1_ctx_t \<Rightarrow> octets \<Rightarrow> u32 list" where
  "sha1 ctx msg = snd (sha1_final (sha1_update (sha1_init ctx) msg))"

section \<open>FIPS 180\<close>

definition fips_f :: "nat \<Rightarrow> u32 \<Rightarrow> u32 \<Rightarrow> u32 \<Rightarrow> u32" where
  "fips_f t x y z =
     (if t < 20 then (x AND y) XOR (NOT x AND z)
      else if t < 40 then x XOR y XOR z
      else if t < 60 then (x AND y) XOR (x AND z) XOR (y AND z)
      else x XOR y XOR z)"

definition fips_K :: "nat \<Rightarrow> u32" where
  "fips_K t = (if t < 20 then 0x5a827999 else if t < 40 then 0x6ed9eba1
               else if t < 60 then 0x8f1bbcdc else 0xca62c1d6)"

fun fips_W :: "(nat \<Rightarrow> u32) \<Rightarrow> nat \<Rightarrow> u32" where
  "fips_W m t = (if t < 16 then m t
     else word_rotl 1 (fips_W m (t - 3) XOR fips_W m (t - 8) XOR fips_W m (t - 14) XOR fips_W m (t - 16)))"

declare fips_W.simps [simp del]

definition fips_round :: "(nat \<Rightarrow> u32) \<Rightarrow> nat \<Rightarrow> u32 \<times> u32 \<times> u32 \<times> u32 \<times> u32 \<Rightarrow>
    u32 \<times> u32 \<times> u32 \<times> u32 \<times> u32" where
  "fips_round m t = (\<lambda>(a, b, c, d, e).
     (word_rotl 5 a + fips_f t b c d + e + fips_K t + fips_W m t, a, word_rotl 30 b, c, d))"

definition fips_compress :: "(nat \<Rightarrow> u32) \<Rightarrow> u32 list \<Rightarrow> u32 list" where
  "fips_compress m H =
     (case fold (fips_round m) [0..<80] (H ! 0, H ! 1, H ! 2, H ! 3, H ! 4) of
        (a, b, c, d, e) \<Rightarrow> [a + H ! 0, b + H ! 1, c + H ! 2, d + H ! 3, e + H ! 4])"

text \<open>The sixteen big-endian words of a 64-octet block.\<close>

definition block_word :: "octets \<Rightarrow> nat \<Rightarrow> u32" where
  "block_word b t = be32 (b ! (4 * t)) (b ! (4 * t + 1)) (b ! (4 * t + 2)) (b ! (4 * t + 3))"

fun fips_blocks :: "octets \<Rightarrow> u32 list \<Rightarrow> u32 list" where
  "fips_blocks bs H =
     (if length bs < 64 then H else fips_blocks (drop 64 bs) (fips_compress (block_word bs) H))"

declare fips_blocks.simps [simp del]

definition fips_H0 :: "u32 list" where
  "fips_H0 = [0x67452301, 0xefcdab89, 0x98badcfe, 0x10325476, 0xc3d2e1f0]"

definition be64_bytes :: "nat \<Rightarrow> octets" where
  "be64_bytes n = be32_bytes (word_of_nat (n div 2 ^ 32)) @ be32_bytes (word_of_nat n)"

definition fips_pad :: "octets \<Rightarrow> octets" where
  "fips_pad msg = msg @ [0x80] @ replicate ((119 - length msg mod 64) mod 64) 0 @ be64_bytes (8 * length msg)"

definition fips_sha1 :: "octets \<Rightarrow> octets" where
  "fips_sha1 msg = concat (map be32_bytes (fips_blocks (fips_pad msg) fips_H0))"

section \<open>Rounds and message expansion\<close>

lemma rotl_parts:
  assumes "0 < k" and "k < 32"
  shows "push_bit k X OR drop_bit (32 - k) X = word_rotl k (X :: u32)"
proof (rule u32_eqI)
  fix n :: nat assume n: "n < 32"
  have "(n + (32 - k)) mod 32 = (if k \<le> n then n - k else n + 32 - k)"
  proof (cases "k \<le> n")
    case True
    then have e: "n + (32 - k) = (n - k) + 32" using assms by simp
    show ?thesis unfolding e mod_add_self2 using True n by simp
  qed (use assms n in simp)
  moreover have "bit (word_rotl k X) n = bit X ((n + (32 - k)) mod 32)"
    using n assms unfolding bit_word_rotl_iff by simp
  ultimately have "bit (word_rotl k X) n = bit X (if k \<le> n then n - k else n + 32 - k)" by metis
  then show "bit (push_bit k X OR drop_bit (32 - k) X) n = bit (word_rotl k X) n"
    using n assms by (auto simp: bit_or_iff bit_push_bit_iff bit_drop_bit_eq add.commute
      dest: bit_imp_le_length)
qed

lemma S_rotl: "S1 X = word_rotl 1 X" "S5 X = word_rotl 5 X" "S30 X = word_rotl 30 X"
  using rotl_parts [of 1 X] rotl_parts [of 5 X] rotl_parts [of 30 X]
  by (simp_all add: S1_def S5_def S30_def)

lemma f_fips:
  "t < 20 \<Longrightarrow> f0 B C D = fips_f t B C D"
  "20 \<le> t \<Longrightarrow> t < 40 \<Longrightarrow> f1 B C D = fips_f t B C D"
  "40 \<le> t \<Longrightarrow> t < 60 \<Longrightarrow> f2 B C D = fips_f t B C D"
  "60 \<le> t \<Longrightarrow> f3 B C D = fips_f t B C D"
  by (auto simp: f0_def f1_def f2_def f3_def fips_f_def bit_simps intro: u32_eqI)

lemma length_sha1_expand [simp]: "length (sha1_expand W) = length W"
  unfolding sha1_expand_def by (rule length_fold_update)

lemma sha1_expand_nth:
  assumes "length W = 80" and "t < 80"
  shows "sha1_expand W ! t = fips_W (\<lambda>i. W ! i) t"
proof -
  let ?g = "\<lambda>t (W :: u32 list). S1 (W ! (t - 3) XOR W ! (t - 8) XOR W ! (t - 14) XOR W ! (t - 16))"
  have "length (fold (\<lambda>t W. W[t := ?g t W]) [16..<16 + n] W) = 80 \<and>
      (\<forall>t < 16 + n. fold (\<lambda>t W. W[t := ?g t W]) [16..<16 + n] W ! t = fips_W (\<lambda>i. W ! i) t)"
    if "n \<le> 64" for n
    using that
  proof (induction n)
    case 0
    then show ?case using assms(1) by (simp add: fips_W.simps)
  next
    case (Suc n)
    define V where "V = fold (\<lambda>t W. W[t := ?g t W]) [16..<16 + n] W"
    have IH: "length V = 80" "\<And>t. t < 16 + n \<Longrightarrow> V ! t = fips_W (\<lambda>i. W ! i) t"
      using Suc by (auto simp: V_def)
    have g: "?g (16 + n) V = fips_W (\<lambda>i. W ! i) (16 + n)"
      by (subst fips_W.simps) (simp add: IH S_rotl)
    have "[16..<16 + Suc n] = [16..<16 + n] @ [16 + n]"
      using upt_Suc_append [of 16 "16 + n"] by simp
    then have fold: "fold (\<lambda>t W. W[t := ?g t W]) [16..<16 + Suc n] W = V[16 + n := fips_W (\<lambda>i. W ! i) (16 + n)]"
      unfolding g [symmetric] V_def by (simp only: fold_append fold_simps comp_apply id_apply)
    show ?case
      unfolding fold using IH Suc.prems by (simp add: nth_list_update)
  qed
  note inv = this [of 64, OF order_refl]
  have sum: "(16 :: nat) + 64 = 80" by simp
  show ?thesis unfolding sha1_expand_def
    by (rule inv [THEN conjunct2, unfolded sum, rule_format, OF assms(2)])
qed

lemma sha1_rounds_fips:
  assumes "length W = 80"
  shows "sha1_rounds (sha1_expand W) H = fips_compress (\<lambda>i. W ! i) H"
proof -
  let ?W = "sha1_expand W" and ?m = "\<lambda>i. W ! i"
  have step: "sha1_step f K ?W t = fips_round ?m t"
    if "t < 80" "K = fips_K t" "\<And>b c d. f b c d = fips_f t b c d" for f K t
    using that sha1_expand_nth [OF assms that(1)]
    by (auto simp: sha1_step_def fips_round_def S_rotl Let_def fun_eq_iff)
  have 1: "fold (sha1_step f0 SHA_K0 ?W) [0..<20] s = fold (fips_round ?m) [0..<20] s" for s
    by (intro fold_cong refl step) (auto simp: f_fips SHA_K0_def fips_K_def)
  have 2: "fold (sha1_step f1 SHA_K1 ?W) [20..<40] s = fold (fips_round ?m) [20..<40] s" for s
    by (intro fold_cong refl step) (auto simp: f_fips SHA_K1_def fips_K_def)
  have 3: "fold (sha1_step f2 SHA_K2 ?W) [40..<60] s = fold (fips_round ?m) [40..<60] s" for s
    by (intro fold_cong refl step) (auto simp: f_fips SHA_K2_def fips_K_def)
  have 4: "fold (sha1_step f3 SHA_K3 ?W) [60..<80] s = fold (fips_round ?m) [60..<80] s" for s
    by (intro fold_cong refl step) (auto simp: f_fips SHA_K3_def fips_K_def)
  have "[0..<80] = [0..<20] @ [20..<40] @ [40..<60] @ [60..<80]"
    using upt_add_eq_append [of 0 20 60] upt_add_eq_append [of 20 40 40] upt_add_eq_append [of 40 60 20]
    by simp
  then show ?thesis
    unfolding sha1_rounds_def fips_compress_def Let_def 1 2 3 4
    by (simp only: fold_append comp_apply) (simp add: case_prod_beta add.commute)
qed

lemma fips_W_cong: "(\<And>i. i < 16 \<Longrightarrow> m i = m' i) \<Longrightarrow> fips_W m t = fips_W m' t"
proof (induction t rule: less_induct)
  case (less t)
  show ?case
    using less.IH [of "t - 3"] less.IH [of "t - 8"] less.IH [of "t - 14"] less.IH [of "t - 16"] less.prems
    by (subst (1 2) fips_W.simps) simp
qed

lemma fips_compress_cong:
  assumes "\<And>i. i < 16 \<Longrightarrow> m i = m' i"
  shows "fips_compress m H = fips_compress m' H"
proof -
  have "fips_W m = fips_W m'" by (rule ext) (rule fips_W_cong [OF assms])
  then have "fips_round m = fips_round m'" by (simp add: fips_round_def fun_eq_iff)
  then show ?thesis by (simp add: fips_compress_def)
qed

lemma length_fips_compress [simp]: "length (fips_compress m H) = 5"
  by (simp add: fips_compress_def split: prod.split)

section \<open>Blocks\<close>

lemma words_le_nth:
  "4 * i + 3 < length bs \<Longrightarrow>
     words_le bs ! i = le32 (bs ! (4 * i)) (bs ! (4 * i + 1)) (bs ! (4 * i + 2)) (bs ! (4 * i + 3))"
proof (induction bs arbitrary: i rule: words_le.induct)
  case (1 a b c d r)
  show ?case
  proof (cases i)
    case (Suc j)
    have "words_le r ! j = le32 (r ! (4 * j)) (r ! (4 * j + 1)) (r ! (4 * j + 2)) (r ! (4 * j + 3))"
      by (rule "1.IH") (use 1 Suc in simp)
    moreover have "4 * i = Suc (Suc (Suc (Suc (4 * j))))" by (simp add: Suc)
    ultimately show ?thesis by (simp add: Suc add.commute)
  qed simp
qed simp_all

lemma bswap32_words_le:
  "4 * i + 3 < length bs \<Longrightarrow> bswap32 (words_le bs ! i) = block_word bs i"
  by (simp add: words_le_nth bswap32_le32 block_word_def be32_def)

lemma sha1_core_fips:
  assumes "length buf = 64"
  shows "sha1_core (words_le buf) H = fips_compress (block_word buf) H"
proof -
  let ?W = "map (\<lambda>i. bswap32 (words_le buf ! i)) [0..<16] @ replicate 64 0"
  have "sha1_core (words_le buf) H = fips_compress (\<lambda>i. ?W ! i) H"
    unfolding sha1_core_def by (rule sha1_rounds_fips) simp
  also have "\<dots> = fips_compress (block_word buf) H"
  proof (rule fips_compress_cong)
    fix i :: nat assume "i < 16"
    then have "?W ! i = bswap32 (words_le buf ! i)" by (simp add: nth_append)
    also have "\<dots> = block_word buf i" by (rule bswap32_words_le) (use \<open>i < 16\<close> assms in simp)
    finally show "?W ! i = block_word buf i" .
  qed
  finally show ?thesis .
qed

lemma block_word_take: "i < 16 \<Longrightarrow> block_word (take 64 bs) i = block_word bs i"
  by (simp add: block_word_def)

lemma fips_blocks_short [simp]: "length bs < 64 \<Longrightarrow> fips_blocks bs H = H"
  by (simp add: fips_blocks.simps)

lemma fips_blocks_one:
  assumes "length b = 64"
  shows "fips_blocks (b @ bs) H = fips_blocks bs (fips_compress (block_word b) H)"
proof -
  have "fips_compress (block_word (b @ bs)) H = fips_compress (block_word b) H"
    by (rule fips_compress_cong) (use assms block_word_take [of _ "b @ bs"] in simp)
  then show ?thesis using assms by (subst fips_blocks.simps) simp
qed

lemma fips_blocks_append:
  "64 dvd length a \<Longrightarrow> fips_blocks (a @ b) H = fips_blocks b (fips_blocks a H)"
proof (induction "length a" arbitrary: a H rule: less_induct)
  case less
  show ?case
  proof (cases "a = []")
    case False
    then have long: "64 \<le> length a" using less.prems by (simp add: dvd_imp_le)
    define c d where "c = take 64 a" and "d = drop 64 a"
    have a: "a = c @ d" "length c = 64" "length d < length a"
      using long by (auto simp: c_def d_def)
    have "64 dvd length d" using less.prems a by (simp add: dvd_add_right_iff)
    from less.hyps [OF a(3) this] show ?thesis using a by (simp add: fips_blocks_one)
  qed simp
qed

lemma length_fips_blocks: "length H = 5 \<Longrightarrow> length (fips_blocks bs H) = 5"
  by (induction bs H rule: fips_blocks.induct) (subst fips_blocks.simps, simp)

section \<open>Streaming\<close>

text \<open>
  \<open>sha1_rep ctx m\<close>: the context has absorbed exactly the octets \<open>m\<close>, the whole blocks \<open>a\<close> of it in
  the chaining value and the rest \<open>r\<close> in the buffer.
\<close>

definition sha1_rep :: "sha1_ctx_t \<Rightarrow> octets \<Rightarrow> bool" where
  "sha1_rep ctx m \<longleftrightarrow> length (sha_M ctx) = 64 \<and>
     (\<exists>a r. m = a @ r \<and> 64 dvd length a \<and> length r < 64 \<and> octets_in_buffer ctx = length r \<and>
        take (length r) (sha_M ctx) = r \<and> sha_H ctx = fips_blocks a fips_H0)"

lemma sha1_rep_init: "length (sha_M ctx) = 64 \<Longrightarrow> sha1_rep (sha1_init ctx) []"
  by (simp add: sha1_rep_def sha1_init_def fips_H0_def)

lemma sha1_rep_block:
  assumes "sha1_rep ctx m" and "64 \<le> length msg + octets_in_buffer ctx"
  defines "k \<equiv> 64 - octets_in_buffer ctx"
  defines "buf \<equiv> take (octets_in_buffer ctx) (sha_M ctx) @ take k msg"
  shows "sha1_rep (ctx\<lparr>sha_M := buf, octets_in_buffer := 0, sha_H := sha1_core (words_le buf) (sha_H ctx)\<rparr>)
           (m @ take k msg)"
proof -
  obtain a r where ar: "m = a @ r" "64 dvd length a" "length r < 64" "octets_in_buffer ctx = length r"
    "take (length r) (sha_M ctx) = r" "sha_H ctx = fips_blocks a fips_H0" and M: "length (sha_M ctx) = 64"
    using assms(1) by (auto simp: sha1_rep_def)
  have buf: "length buf = 64" "buf = r @ take k msg"
    using ar M assms(2) by (auto simp: buf_def k_def min_def)
  have "fips_blocks (a @ buf) fips_H0 = sha1_core (words_le buf) (sha_H ctx)"
    using fips_blocks_append [OF ar(2), of buf] fips_blocks_one [OF buf(1), of "[]"]
    by (simp add: sha1_core_fips [OF buf(1)] ar)
  then show ?thesis
    unfolding sha1_rep_def using ar(1,2) buf
    by (auto intro!: exI [of _ "a @ buf"] exI [of _ "[]"])
qed

lemma sha1_rep_tail:
  assumes "sha1_rep ctx m" and "length msg + octets_in_buffer ctx < 64"
  shows "sha1_rep (ctx\<lparr>sha_M := take (octets_in_buffer ctx) (sha_M ctx) @ msg
             @ drop (octets_in_buffer ctx + length msg) (sha_M ctx),
           octets_in_buffer := octets_in_buffer ctx + length msg\<rparr>) (m @ msg)"
proof -
  obtain a r where ar: "m = a @ r" "64 dvd length a" "length r < 64" "octets_in_buffer ctx = length r"
    "take (length r) (sha_M ctx) = r" "sha_H ctx = fips_blocks a fips_H0" and M: "length (sha_M ctx) = 64"
    using assms(1) by (auto simp: sha1_rep_def)
  then show ?thesis
    unfolding sha1_rep_def using assms(2)
    by (intro conjI exI [of _ a] exI [of _ "r @ msg"]) simp_all
qed

lemma sha1_update_loop_rep: "sha1_rep ctx m \<Longrightarrow> sha1_rep (sha1_update_loop ctx msg) (m @ msg)"
proof (induction ctx msg arbitrary: m rule: sha1_update_loop.induct)
  case (1 ctx msg)
  show ?case
  proof (cases "msg = []")
    case False
    note step = sha1_update_loop.simps [of ctx msg]
    show ?thesis
    proof (cases "64 \<le> length msg + octets_in_buffer ctx")
      case True
      from "1.IH" [OF False True refl refl sha1_rep_block [OF "1.prems" True]]
      show ?thesis using False True by (simp add: step Let_def)
    next
      case short: False
      with sha1_rep_tail [OF "1.prems", of msg] False show ?thesis by (simp add: step)
    qed
  qed (use "1.prems" in \<open>simp add: sha1_update_loop.simps\<close>)
qed

lemma sha1_rep_num_bits [simp]: "sha1_rep (ctx\<lparr>num_bits_in_msg := b\<rparr>) m = sha1_rep ctx m"
  by (simp add: sha1_rep_def)

lemma sha1_update_rep: "sha1_rep ctx m \<Longrightarrow> sha1_rep (sha1_update ctx msg) (m @ msg)"
  unfolding sha1_update_def by (rule sha1_update_loop_rep) simp

lemma num_bits_sha1_update_loop [simp]: "num_bits_in_msg (sha1_update_loop ctx msg) = num_bits_in_msg ctx"
proof (induction ctx msg rule: sha1_update_loop.induct)
  case (1 ctx msg)
  then show ?case by (subst sha1_update_loop.simps) (simp add: Let_def)
qed

lemma num_bits_sha1_update [simp]:
  "num_bits_in_msg (sha1_update ctx msg) = num_bits_in_msg ctx + word_of_nat (8 * length msg)"
  by (simp add: sha1_update_def mult.commute)

lemma num_bits_sha1_init [simp]: "num_bits_in_msg (sha1_init ctx) = 0"
  by (simp add: sha1_init_def)

section \<open>Padding\<close>

text \<open>The word of \<^verbatim>\<open>sha1_final\<close> that holds the first padding bit.\<close>

definition pad_mark :: "nat \<Rightarrow> u32 \<Rightarrow> u32" where
  "pad_mark tail w =
     (if tail = 3 then (w AND 0xffffff00) OR 0x80
      else if tail = 2 then (w AND 0xffff0000) OR 0x8000
      else if tail = 1 then (w AND 0xff000000) OR 0x800000
      else 0x80000000)"

lemma masks_le32:
  "(0xffffff00 :: u32) = le32 0 0xff 0xff 0xff" "(0xffff0000 :: u32) = le32 0 0 0xff 0xff"
  "(0xff000000 :: u32) = le32 0 0 0 0xff" "(0x80 :: u32) = le32 0x80 0 0 0"
  "(0x8000 :: u32) = le32 0 0x80 0 0" "(0x800000 :: u32) = le32 0 0 0x80 0"
  "(0x80000000 :: u32) = le32 0 0 0 0x80" "(0 :: u32) = le32 0 0 0 0"
  by (simp_all add: le32_def)

lemma le32_and: "le32 a b c d AND le32 a' b' c' d' = le32 (a AND a') (b AND b') (c AND c') (d AND d')"
  by (rule u32_eqI) (simp add: bit_and_iff bit_le32)

lemma le32_or: "le32 a b c d OR le32 a' b' c' d' = le32 (a OR a') (b OR b') (c OR c') (d OR d')"
  by (rule u32_eqI) (simp add: bit_or_iff bit_le32)

lemma u8_and_ff: "x AND 0xff = (x :: u8)"
proof -
  have "(0xff :: u8) = - 1" by simp
  then show ?thesis by (simp only: and.right_neutral)
qed

lemma pad_mark_le32:
  "pad_mark 3 (le32 d c b a) = be32 a b c 0x80" "pad_mark 2 (le32 d c b a) = be32 a b 0x80 0"
  "pad_mark (Suc 0) (le32 d c b a) = be32 a 0x80 0 0" "pad_mark 0 w = be32 0x80 0 0 0"
  unfolding pad_mark_def be32_def masks_le32 le32_and le32_or by (simp_all add: u8_and_ff)

lemma length_sha1_final_pad [simp]: "length (sha1_final_pad ctx) = 80"
  by (simp add: sha1_final_pad_def Let_def)

lemma sha1_final_pad_nth:
  fixes ctx
  defines "n \<equiv> octets_in_buffer ctx" and "w \<equiv> \<lambda>j. bswap32 (words_le (sha_M ctx) ! j)"
  assumes "n < 64" and "j < 16"
  shows "sha1_final_pad ctx ! j =
    (if j = 15 \<and> n < 56 then num_bits_in_msg ctx
     else if j < n div 4 then w j else if j = n div 4 then pad_mark (n mod 4) (w j) else 0)"
proof -
  define i where "i = (n + 3) div 4"
  define W1 where "W1 = fold (\<lambda>i W. W[i := w i]) [0..<i] (replicate 80 0)"
  define W2 where "W2 = (if n mod 4 = 3 then W1[i - 1 := pad_mark 3 (w (i - 1)), i := 0]
     else if n mod 4 = 2 then W1[i - 1 := pad_mark 2 (w (i - 1)), i := 0]
     else if n mod 4 = 1 then W1[i - 1 := pad_mark 1 (w (i - 1)), i := 0]
     else W1[i := 0x80000000])"
  define W3 where "W3 = fold (\<lambda>i W. W[i := 0]) [i + 1..<15] W2"
  have pad: "sha1_final_pad ctx = (if n < 56 then W3[15 := num_bits_in_msg ctx]
      else if n < 60 then W3[15 := 0] else W3)"
    by (simp add: sha1_final_pad_def Let_def W3_def W2_def W1_def i_def n_def w_def pad_mark_def)
  have i: "i = (if n mod 4 = 0 then n div 4 else n div 4 + 1)" "i \<le> 16"
    using assms(3) unfolding i_def by presburger+
  have W1: "W1 ! k = (if k < i then w k else 0)" "length W1 = 80" if "k < 80" for k
    using fold_update_ahead [of i "replicate 80 0" "\<lambda>i _. w i" k] i(2) that by (simp_all add: W1_def)
  have m4: "n mod 4 = 0 \<or> n mod 4 = 1 \<or> n mod 4 = 2 \<or> n mod 4 = 3" by presburger
  have W2: "W2 ! k = (if k < n div 4 then w k else if k = n div 4 then pad_mark (n mod 4) (w k) else 0)"
    "length W2 = 80" if "k < 80" for k
    using m4 W1 [OF that] that i unfolding W2_def
    by (auto simp: nth_list_update pad_mark_def split: if_splits)
  have W3: "W3 ! j = W2 ! j" "length W3 = 80"
    using fold_update_const [of j W2 15 0 "i + 1"] W2 [of j] i assms(4) by (auto simp: W3_def split: if_splits)
  show ?thesis
    unfolding pad using W3 W2 [of j] assms(3,4) by (auto simp: nth_list_update)
qed

lemma le32_zero: "le32 0 0 0 0 = 0"
  by (simp add: le32_def)

lemma block_word_pad:
  assumes "length M = 64" and "n < 64" and "4 * j + 3 \<le> n + z" and "j < 16"
  defines "w \<equiv> bswap32 (words_le M ! j)"
  shows "block_word (take n M @ 0x80 # replicate z 0 @ s) j =
    (if j < n div 4 then w else if j = n div 4 then pad_mark (n mod 4) w else 0)"
proof -
  define Z where "Z = take n M @ 0x80 # replicate z 0 @ s"
  have Z: "Z ! k = (if k < n then M ! k else if k = n then 0x80 else 0)" if "k \<le> n + z" for k
    using that assms(1,2) by (auto simp: Z_def nth_append nth_Cons')
  have w: "w = be32 (M ! (4 * j)) (M ! (4 * j + 1)) (M ! (4 * j + 2)) (M ! (4 * j + 3))"
    unfolding w_def using bswap32_words_le [of j M] assms(1,4) by (simp add: block_word_def)
  define q t where "q = n div 4" and "t = n mod 4"
  have n: "n = 4 * q + t" "t < 4" by (simp_all add: q_def t_def)
  consider "j < q" | "j = q" | "q < j" by linarith
  then have "block_word Z j = (if j < n div 4 then w else if j = n div 4 then pad_mark (n mod 4) w else 0)"
  proof cases
    case 1
    then have "4 * j + 3 < n" using n by linarith
    then show ?thesis using 1 assms(3) by (simp add: block_word_def Z w q_def [symmetric])
  next
    case 2
    have "t = 0 \<or> t = 1 \<or> t = 2 \<or> t = 3" using n(2) by linarith
    then show ?thesis
      using n assms(3) 2 unfolding q_def [symmetric] t_def [symmetric] block_word_def w
      by (auto simp: Z pad_mark_le32 be32_def)
  next
    case 3
    then have "n < 4 * j" using n by linarith
    then show ?thesis using 3 assms(3) by (simp add: block_word_def Z q_def [symmetric] be32_def le32_zero)
  qed
  then show ?thesis unfolding Z_def .
qed

lemma block_word_append:
  "length a = 4 * p \<Longrightarrow> p \<le> j \<Longrightarrow> block_word (a @ b) j = block_word b (j - p)"
  by (auto simp: block_word_def nth_append dest!: le_Suc_ex)

lemma block_word_be64:
  assumes "n < 2 ^ 32"
  shows "block_word (be64_bytes n) 0 = 0" "block_word (be64_bytes n) (Suc 0) = word_of_nat n"
  using assms
  by (simp_all add: be64_bytes_def block_word_def be32_bytes_def le32_bytes_def be32_def nth_append
     le32_zero)

lemma length_be64_bytes [simp]: "length (be64_bytes n) = 8"
  by (simp add: be64_bytes_def be32_bytes_def)

lemma sha1_pad_one_block:
  assumes "length (sha_M ctx) = 64" and "octets_in_buffer ctx = n" and "n < 56" and "L < 2 ^ 32"
    and "num_bits_in_msg ctx = word_of_nat L"
  shows "sha1_rounds (sha1_expand (sha1_final_pad ctx)) H =
    fips_compress (block_word (take n (sha_M ctx) @ 0x80 # replicate (55 - n) 0 @ be64_bytes L)) H"
    (is "_ = fips_compress (block_word ?Z) H")
proof -
  have "sha1_final_pad ctx ! j = block_word ?Z j" if j: "j < 16" for j
  proof (cases "j < 14")
    case True
    then have "4 * j + 3 \<le> n + (55 - n)" using assms(3) by simp
    from block_word_pad [OF assms(1) _ this j, of "be64_bytes L"] True show ?thesis
      using assms(2,3) by (simp add: sha1_final_pad_nth)
  next
    case False
    have "length (take n (sha_M ctx) @ 0x80 # replicate (55 - n) 0) = 4 * 14" using assms(1,3) by simp
    from block_word_append [OF this, of j "be64_bytes L"] False
    have "block_word ?Z j = block_word (be64_bytes L) (j - 14)" by simp
    moreover have "j = 14 \<or> j = 15" using j False by linarith
    ultimately show ?thesis
      using assms(2-5) by (auto simp: sha1_final_pad_nth block_word_be64 less_mult_imp_div_less)
  qed
  then show ?thesis
    using sha1_rounds_fips [of "sha1_final_pad ctx"] by (auto intro: fips_compress_cong)
qed

lemma sha1_pad_first_block:
  assumes "length (sha_M ctx) = 64" and "octets_in_buffer ctx = n" and "56 \<le> n" and "n < 64"
  shows "sha1_rounds (sha1_expand (sha1_final_pad ctx)) H =
    fips_compress (block_word (take n (sha_M ctx) @ 0x80 # replicate (63 - n) 0)) H"
proof -
  have "sha1_final_pad ctx ! j =
      block_word (take n (sha_M ctx) @ 0x80 # replicate (63 - n) 0) j" if j: "j < 16" for j
    using block_word_pad [OF assms(1,4) _ j, of "63 - n" "[]"] j assms
    by (simp add: sha1_final_pad_nth)
  then show ?thesis
    using sha1_rounds_fips [of "sha1_final_pad ctx"] by (auto intro: fips_compress_cong)
qed

lemma sha1_pad_second_block:
  assumes "length W = 80" and "L < 2 ^ 32"
  shows "sha1_rounds (sha1_expand ((fold (\<lambda>i W. W[i := 0]) [0..<15] W)[15 := word_of_nat L])) H =
    fips_compress (block_word (replicate 56 0 @ be64_bytes L)) H"
    (is "sha1_rounds (sha1_expand ?V) H = fips_compress (block_word ?Z) H")
proof -
  have "?V ! j = block_word ?Z j" if j: "j < 16" for j
  proof (cases "j < 14")
    case True
    then have "block_word ?Z j = 0" by (simp add: block_word_def nth_append be32_def le32_zero)
    with True assms(1) show ?thesis using fold_update_const [of j W 15 0 0] by simp
  next
    case False
    have "length (replicate 56 (0 :: u8)) = 4 * 14" by simp
    from block_word_append [OF this, of j "be64_bytes L"] False
    have "block_word ?Z j = block_word (be64_bytes L) (j - 14)" by simp
    moreover have "j = 14 \<or> j = 15" using j False by linarith
    ultimately show ?thesis
      using assms fold_update_const [of j W 15 0 0] by (auto simp: block_word_be64)
  qed
  then show ?thesis
    using sha1_rounds_fips [of ?V] assms(1) by (auto intro: fips_compress_cong)
qed

section \<open>Equivalence with FIPS 180\<close>

lemma le32_bytes_bswap32 [simp]: "le32_bytes (bswap32 w) = be32_bytes w"
  by (rule le32_cases [of w]) (simp add: bswap32_le32 be32_bytes_def)

lemma bytes_le_bswap32:
  assumes "length H = 5"
  shows "bytes_le [bswap32 (H ! 0), bswap32 (H ! 1), bswap32 (H ! 2), bswap32 (H ! 3), bswap32 (H ! 4)]
    = concat (map be32_bytes H)"
proof -
  obtain a b c d e where "H = [a, b, c, d, e]"
    using assms by (auto simp: length_Suc_conv eval_nat_numeral)
  then show ?thesis by simp
qed

lemma sha1_final_rep:
  assumes "sha1_rep ctx m" and "num_bits_in_msg ctx = word_of_nat (8 * length m)" and "length m < 2 ^ 29"
  shows "bytes_le (snd (sha1_final ctx)) = fips_sha1 m"
proof -
  obtain a r where ar: "m = a @ r" "64 dvd length a" "length r < 64" "octets_in_buffer ctx = length r"
    "take (length r) (sha_M ctx) = r" "sha_H ctx = fips_blocks a fips_H0" and M: "length (sha_M ctx) = 64"
    using assms(1) by (auto simp: sha1_rep_def)
  define n L where "n = length r" and "L = 8 * length m"
  have L: "L < 2 ^ 32" "num_bits_in_msg ctx = word_of_nat L" using assms(2,3) by (simp_all add: L_def)
  have n: "length m mod 64 = n" using ar by (auto simp: n_def elim!: dvdE)
  let ?H = "fips_blocks (fips_pad m) fips_H0"
  let ?tail = "r @ 0x80 # replicate ((119 - n) mod 64) 0 @ be64_bytes L"
  have H: "?H = fips_blocks ?tail (sha_H ctx)"
    unfolding fips_pad_def n L_def [symmetric] unfolding ar(1,6) append_assoc append_Cons append_Nil
    by (rule fips_blocks_append [OF ar(2)])
  have r: "take n (sha_M ctx) = r" using ar(5) by (simp add: n_def)
  have out: "snd (sha1_final ctx) = [bswap32 (?H ! 0), bswap32 (?H ! 1), bswap32 (?H ! 2), bswap32 (?H ! 3), bswap32 (?H ! 4)]"
  proof (cases "n < 56")
    case True
    have z: "(119 - n) mod 64 = 55 - n"
      using True mod_add_self1 [of 64 "55 - n"] by (simp add: add.commute)
    have "?H = fips_compress (block_word ?tail) (sha_H ctx)"
      using fips_blocks_one [of ?tail "[]" "sha_H ctx"] True by (simp add: H z n_def [symmetric])
    then show ?thesis
      using True sha1_pad_one_block [OF M _ True L] ar(4)
      by (simp add: sha1_final_def Let_def z n_def [symmetric] r)
  next
    case False
    have z: "(119 - n) mod 64 = (63 - n) + 56" using False ar(3) by (simp add: n_def)
    define b1 b2 where "b1 = r @ 0x80 # replicate (63 - n) 0" and "b2 = replicate 56 0 @ be64_bytes L"
    have b: "length b1 = 64" "length b2 = 64" using False ar(3) by (simp_all add: b1_def b2_def n_def)
    have "?tail = b1 @ b2 @ []"
      unfolding z b1_def b2_def by (simp only: replicate_add append_Cons append_assoc append_Nil2)
    then have H': "?H = fips_compress (block_word b2) (fips_compress (block_word b1) (sha_H ctx))"
      unfolding H by (simp only: fips_blocks_one [OF b(1)] fips_blocks_one [OF b(2)]) simp
    have "length (sha1_expand (sha1_final_pad ctx)) = 80" by simp
    note second = sha1_pad_second_block [OF this L(1), folded b2_def]
    have first: "sha1_rounds (sha1_expand (sha1_final_pad ctx)) (sha_H ctx) = fips_compress (block_word b1) (sha_H ctx)"
      using sha1_pad_first_block [OF M ar(4) [folded n_def], unfolded r] False ar(3) by (simp add: b1_def n_def)
    from False ar(4) have "56 \<le> octets_in_buffer ctx" by (simp add: n_def)
    then show ?thesis
      by (simp only: sha1_final_def Let_def if_True snd_conv first second L(2) H')
  qed
  have "length ?H = 5" by (rule length_fips_blocks) (simp add: fips_H0_def)
  then show ?thesis unfolding out fips_sha1_def by (rule bytes_le_bswap32)
qed

definition sha1_absorbed :: "sha1_ctx_t \<Rightarrow> octets \<Rightarrow> bool" where
  "sha1_absorbed ctx m \<longleftrightarrow> sha1_rep ctx m \<and> num_bits_in_msg ctx = word_of_nat (8 * length m)"

lemma length_sha_M_final: "length (sha_M (fst (sha1_final ctx))) = length (sha_M ctx)"
  by (simp add: sha1_final_def Let_def)

interpretation sha1: stream_hash "\<lambda>ctx. length (sha_M ctx) = 64" sha1_absorbed sha1_init sha1_update
  sha1_final fips_sha1 bytes_le "2 ^ 29"
proof unfold_locales
  fix ctx :: sha1_ctx_t and m x :: octets
  show "sha1_absorbed ctx m \<Longrightarrow> length (sha_M ctx) = 64"
    by (simp add: sha1_absorbed_def sha1_rep_def)
  show "length (sha_M ctx) = 64 \<Longrightarrow> sha1_absorbed (sha1_init ctx) []"
    by (simp add: sha1_absorbed_def sha1_rep_init)
  show "sha1_absorbed ctx m \<Longrightarrow> sha1_absorbed (sha1_update ctx x) (m @ x)"
    by (simp add: sha1_absorbed_def sha1_update_rep)
  show "sha1_absorbed ctx m \<Longrightarrow> length (sha_M (fst (sha1_final ctx))) = 64"
    by (simp add: sha1_absorbed_def sha1_rep_def length_sha_M_final)
  show "sha1_absorbed ctx m \<Longrightarrow> length m < 2 ^ 29 \<Longrightarrow> bytes_le (snd (sha1_final ctx)) = fips_sha1 m"
    by (simp add: sha1_absorbed_def sha1_final_rep)
qed

text \<open>
  C10. The one-shot \<^verbatim>\<open>sha1\<close> of the library computes the digest of FIPS 180 on every message of fewer
  than \<open>2 ^ 28\<close> octets, whatever the uninitialised context on the stack holds. From \<open>2 ^ 28\<close> octets on the bit count
  overflows a signed integer.
\<close>

theorem sha1_correct:
  assumes "length msg < 2 ^ 28" and "length (sha_M ctx) = 64"
  shows "bytes_le (sha1 ctx msg) = fips_sha1 msg"
  unfolding sha1_def by (rule sha1.one_shot) (use assms in simp_all)

theorem sha1_correct_witness:
  "bytes_le (sha1 \<lparr>sha_H = [], sha_M = replicate 64 0xAB, octets_in_buffer = 9, num_bits_in_msg = 7\<rparr>
     [0x61, 0x62, 0x63]) = fips_sha1 [0x61, 0x62, 0x63]"
  by (rule sha1_correct) simp_all

end
