(* ===== verification/Hmac.thy ===== *)
theory Hmac
  imports Sha1
begin

text \<open>
  \<^verbatim>\<open>srtp/crypto/hash/hmac.c\<close>: HMAC-SHA1 with the inner pad hashed once per key, and its equivalence
  with RFC 2104 over the FIPS 180 hash, for every way of cutting the message into the pieces passed
  to \<^verbatim>\<open>hmac_update\<close> and \<^verbatim>\<open>hmac_compute\<close>. The laws of the hash come from the interpretation
  \<open>sha1\<close> of the streaming interface.
\<close>

section \<open>The implementation\<close>

record hmac_ctx_t =
  opad :: octets
  hmac_ctx :: sha1_ctx_t
  hmac_init_ctx :: sha1_ctx_t

text \<open>
  \<open>None\<close> is a read past the end of the key or a write past the end of the result. The automatic
  array \<^verbatim>\<open>ipad\<close> is uninitialised in C; every entry is stored before it is loaded.
\<close>

definition hmac_init :: "hmac_ctx_t \<Rightarrow> octets \<Rightarrow> int \<Rightarrow> (err_status_t \<times> hmac_ctx_t) option" where
  "hmac_init state key key_len =
     (if key_len > 20 then Some (err_status_bad_param, state)
      else if nat key_len > length key then None
      else
        let n = nat key_len;
            ipad = fold (\<lambda>i p. p[i := key ! i XOR 0x36]) [0..<n] (replicate 64 0);
            op = fold (\<lambda>i p. p[i := key ! i XOR 0x5c]) [0..<n] (opad state);
            ipad = fold (\<lambda>i p. p[i := 0x36]) [n..<64] ipad;
            op = fold (\<lambda>i p. p[i := 0x5c]) [n..<64] op;
            c = sha1_update (sha1_init (hmac_init_ctx state)) ipad
        in Some (err_status_ok, state\<lparr>opad := op, hmac_init_ctx := c, hmac_ctx := c\<rparr>))"

definition hmac_start :: "hmac_ctx_t \<Rightarrow> err_status_t \<times> hmac_ctx_t" where
  "hmac_start state = (err_status_ok, state\<lparr>hmac_ctx := hmac_init_ctx state\<rparr>)"

definition hmac_update :: "hmac_ctx_t \<Rightarrow> octets \<Rightarrow> err_status_t \<times> hmac_ctx_t" where
  "hmac_update state message = (err_status_ok, state\<lparr>hmac_ctx := sha1_update (hmac_ctx state) message\<rparr>)"

definition hmac_compute :: "hmac_ctx_t \<Rightarrow> octets \<Rightarrow> int \<Rightarrow> octets \<Rightarrow>
    (err_status_t \<times> hmac_ctx_t \<times> octets) option" where
  "hmac_compute state message tag_len result =
     (if tag_len > 20 then Some (err_status_bad_param, state, result)
      else if nat tag_len > length result then None
      else
        let state = snd (hmac_update state message);
            (c, H) = sha1_final (hmac_ctx state);
            c = sha1_init c;
            c = sha1_update c (opad state);
            c = sha1_update c (bytes_le H);
            (c, hash_value) = sha1_final c;
            result = fold (\<lambda>i r. r[i := bytes_le hash_value ! i]) [0..<nat tag_len] result
        in Some (err_status_ok, state\<lparr>hmac_ctx := c\<rparr>, result))"

section \<open>RFC 2104\<close>

definition hmac_pad :: "octets \<Rightarrow> u8 \<Rightarrow> octets" where
  "hmac_pad key c = map (\<lambda>k. k XOR c) (key @ replicate (64 - length key) 0)"

definition rfc_hmac_sha1 :: "octets \<Rightarrow> octets \<Rightarrow> octets" where
  "rfc_hmac_sha1 key text = fips_sha1 (hmac_pad key 0x5c @ fips_sha1 (hmac_pad key 0x36 @ text))"

section \<open>Keyed contexts\<close>

lemma length_concat_be32: "length (concat (map be32_bytes H)) = 4 * length H"
  by (induction H) (simp_all add: be32_bytes_def)

lemma length_fips_sha1 [simp]: "length (fips_sha1 m) = 20"
  by (simp add: fips_sha1_def length_concat_be32 length_fips_blocks fips_H0_def)

lemma length_hmac_pad [simp]: "length key \<le> 64 \<Longrightarrow> length (hmac_pad key c) = 64"
  by (simp add: hmac_pad_def)

text \<open>The two loops that fill a pad compute the padded key of RFC 2104.\<close>

lemma pad_loops:
  assumes "length p = 64" and "n \<le> 20" and "n \<le> length key"
  shows "fold (\<lambda>i p. p[i := c]) [n..<64] (fold (\<lambda>i p. p[i := key ! i XOR c]) [0..<n] p) =
    hmac_pad (take n key) c" (is "?l = ?r")
proof (rule nth_equalityI)
  show len: "length ?l = length ?r" using assms by simp
  fix j assume "j < length ?l"
  then have j: "j < 64" using assms by simp
  let ?q = "fold (\<lambda>i p. p[i := key ! i XOR c]) [0..<n] p"
  have "?l ! j = (if n \<le> j then c else ?q ! j)"
    using fold_update_const [of j ?q 64 c n] j assms(1) by simp
  moreover have "?q ! j = (if j < n then key ! j XOR c else p ! j)"
    using fold_update_ahead [of n p "\<lambda>i _. key ! i XOR c" j] j assms by simp
  ultimately show "?l ! j = ?r ! j"
    using j assms by (simp add: hmac_pad_def nth_append)
qed

text \<open>
  \<open>hmac_keyed s k\<close>: the context was initialised with key \<open>k\<close>; \<open>hmac_absorbed s k m\<close>: moreover it
  has absorbed \<open>m\<close> since the last start.
\<close>

definition hmac_storage :: "hmac_ctx_t \<Rightarrow> bool" where
  "hmac_storage s \<longleftrightarrow> length (opad s) = 64 \<and> length (sha_M (hmac_ctx s)) = 64 \<and> length (sha_M (hmac_init_ctx s)) = 64"

definition hmac_keyed :: "hmac_ctx_t \<Rightarrow> octets \<Rightarrow> bool" where
  "hmac_keyed s k \<longleftrightarrow> length k \<le> 20 \<and> opad s = hmac_pad k 0x5c \<and>
     sha1_absorbed (hmac_init_ctx s) (hmac_pad k 0x36) \<and> length (sha_M (hmac_ctx s)) = 64"

definition hmac_absorbed :: "hmac_ctx_t \<Rightarrow> octets \<Rightarrow> octets \<Rightarrow> bool" where
  "hmac_absorbed s k m \<longleftrightarrow> hmac_keyed s k \<and> sha1_absorbed (hmac_ctx s) (hmac_pad k 0x36 @ m)"

lemma hmac_init_keyed:
  assumes "hmac_storage s" and "key_len \<le> 20" and "nat key_len \<le> length key"
  obtains s' where "hmac_init s key key_len = Some (err_status_ok, s')" "hmac_keyed s' (take (nat key_len) key)"
proof -
  let ?n = "nat key_len" and ?k = "take (nat key_len) key"
  have n: "?n \<le> 20" using assms(2) by simp
  let ?c = "sha1_update (sha1_init (hmac_init_ctx s)) (hmac_pad ?k 0x36)"
  have "sha1_absorbed ?c ([] @ hmac_pad ?k 0x36)"
    using assms(1) by (intro sha1.absorbed_update sha1.absorbed_init) (simp add: hmac_storage_def)
  then have c: "sha1_absorbed ?c (hmac_pad ?k 0x36)" by simp
  have ipad: "fold (\<lambda>i p. p[i := 0x36]) [?n..<64] (fold (\<lambda>i p. p[i := key ! i XOR 0x36]) [0..<?n] (replicate 64 0))
      = hmac_pad ?k 0x36"
    by (rule pad_loops) (use n assms(3) in simp_all)
  have op: "fold (\<lambda>i p. p[i := 0x5c]) [?n..<64] (fold (\<lambda>i p. p[i := key ! i XOR 0x5c]) [0..<?n] (opad s))
      = hmac_pad ?k 0x5c"
    by (rule pad_loops) (use n assms(1,3) in \<open>simp_all add: hmac_storage_def\<close>)
  show ?thesis
  proof (rule that)
    show "hmac_init s key key_len =
        Some (err_status_ok, s\<lparr>opad := hmac_pad ?k 0x5c, hmac_init_ctx := ?c, hmac_ctx := ?c\<rparr>)"
      using assms(2,3) by (simp only: hmac_init_def Let_def ipad op) simp
    show "hmac_keyed (s\<lparr>opad := hmac_pad ?k 0x5c, hmac_init_ctx := ?c, hmac_ctx := ?c\<rparr>) ?k"
      using c n sha1.absorbed_storage [OF c] by (simp add: hmac_keyed_def)
  qed
qed

lemma hmac_start_absorbed:
  "hmac_keyed s k \<Longrightarrow> fst (hmac_start s) = err_status_ok \<and> hmac_absorbed (snd (hmac_start s)) k []"
  by (auto simp: hmac_start_def hmac_absorbed_def hmac_keyed_def dest: sha1.absorbed_storage)

lemma hmac_update_absorbed:
  assumes "hmac_absorbed s k m"
  shows "fst (hmac_update s x) = err_status_ok \<and> hmac_absorbed (snd (hmac_update s x)) k (m @ x)"
  using sha1.absorbed_update [of "hmac_ctx s" "hmac_pad k 0x36 @ m" x] assms
  by (auto simp: hmac_update_def hmac_absorbed_def hmac_keyed_def dest: sha1.absorbed_storage)

lemma hmac_compute_tag:
  assumes "hmac_absorbed s k m" and "length m + length x < 2 ^ 28"
    and "tag_len \<le> 20" and "nat tag_len \<le> length result"
  obtains s' where "hmac_compute s x tag_len result =
      Some (err_status_ok, s', take (nat tag_len) (rfc_hmac_sha1 k (m @ x)) @ drop (nat tag_len) result)"
    "hmac_keyed s' k"
proof -
  let ?s = "snd (hmac_update s x)" and ?n = "nat tag_len"
  have s: "hmac_absorbed ?s k (m @ x)" using hmac_update_absorbed [OF assms(1)] by simp
  then have abs: "sha1_absorbed (hmac_ctx ?s) (hmac_pad k 0x36 @ m @ x)" and k: "length k \<le> 20" "opad ?s = hmac_pad k 0x5c"
    by (simp_all add: hmac_absorbed_def hmac_keyed_def)
  obtain c H where H: "sha1_final (hmac_ctx ?s) = (c, H)" by fastforce
  have c: "length (sha_M c) = 64" using sha1.storage_final [OF abs] H by simp
  have inner: "bytes_le H = fips_sha1 (hmac_pad k 0x36 @ m @ x)"
    using sha1.final_digest [OF abs] H k(1) assms(2) by simp
  let ?d = "sha1_update (sha1_update (sha1_init c) (opad ?s)) (bytes_le H)"
  obtain e V where V: "sha1_final ?d = (e, V)" by fastforce
  have outer: "bytes_le V = rfc_hmac_sha1 k (m @ x)"
    using sha1.two_pieces [OF c, of "opad ?s" "bytes_le H"] V k by (simp add: inner rfc_hmac_sha1_def)
  have "sha1_absorbed ?d (([] @ opad ?s) @ bytes_le H)"
    by (intro sha1.absorbed_update sha1.absorbed_init) (rule c)
  from sha1.storage_final [OF this] V have e: "length (sha_M e) = 64" by simp
  have len: "length (rfc_hmac_sha1 k (m @ x)) = 20" by (simp add: rfc_hmac_sha1_def)
  have "fold (\<lambda>i r. r[i := rfc_hmac_sha1 k (m @ x) ! i]) [0..<?n] result =
      take ?n (rfc_hmac_sha1 k (m @ x)) @ drop ?n result" (is "?l = ?r")
  proof (rule nth_equalityI)
    show "length ?l = length ?r" using assms(3,4) len by simp
    fix j assume "j < length ?l"
    then show "?l ! j = ?r ! j"
      using fold_update_ahead [of ?n result "\<lambda>i _. rfc_hmac_sha1 k (m @ x) ! i" j] assms(3,4) len
      by (simp add: nth_append)
  qed
  then have "hmac_compute s x tag_len result =
      Some (err_status_ok, ?s\<lparr>hmac_ctx := e\<rparr>, take ?n (rfc_hmac_sha1 k (m @ x)) @ drop ?n result)"
    using assms(3,4) by (simp add: hmac_compute_def Let_def H V outer)
  moreover have "hmac_keyed (?s\<lparr>hmac_ctx := e\<rparr>) k" using s e by (simp add: hmac_absorbed_def hmac_keyed_def)
  ultimately show ?thesis by (rule that)
qed

lemma hmac_absorbed_pieces:
  "hmac_absorbed s k m \<Longrightarrow> hmac_absorbed (fold (\<lambda>x s. snd (hmac_update s x)) xs s) k (m @ concat xs)"
proof (induction xs arbitrary: s m)
  case (Cons x xs)
  with hmac_update_absorbed [OF Cons.prems, of x] Cons.IH show ?case by fastforce
qed simp

text \<open>
  C11. The message authentication code: after \<^verbatim>\<open>hmac_init\<close> with a key of at most 20 octets and
  \<^verbatim>\<open>hmac_start\<close>, any sequence of \<^verbatim>\<open>hmac_update\<close> calls followed by \<^verbatim>\<open>hmac_compute\<close> succeeds and stores
  the truncated RFC 2104 tag of the concatenated pieces, and nothing behind it; the context is still
  keyed, so the next packet can start again.
\<close>

theorem hmac_correct:
  assumes "hmac_storage s" and "length key \<le> 20" and "length (concat pieces) + length rest < 2 ^ 28"
    and "tag_len \<le> 20" and "nat tag_len \<le> length result"
  shows "\<exists>s1 s2. hmac_init s key (int (length key)) = Some (err_status_ok, s1) \<and>
    hmac_compute (fold (\<lambda>x s. snd (hmac_update s x)) pieces (snd (hmac_start s1))) rest tag_len result =
      Some (err_status_ok, s2,
        take (nat tag_len) (rfc_hmac_sha1 key (concat pieces @ rest)) @ drop (nat tag_len) result) \<and>
    hmac_keyed s2 key"
proof -
  obtain s1 where s1: "hmac_init s key (int (length key)) = Some (err_status_ok, s1)" "hmac_keyed s1 key"
    using hmac_init_keyed [OF assms(1), of "int (length key)" key] assms(2) by auto
  let ?s = "fold (\<lambda>x s. snd (hmac_update s x)) pieces (snd (hmac_start s1))"
  have "hmac_absorbed ?s key ([] @ concat pieces)"
    using hmac_start_absorbed [OF s1(2)] by (intro hmac_absorbed_pieces) simp
  then have "hmac_absorbed ?s key (concat pieces)" by simp
  from hmac_compute_tag [OF this assms(3-5)] s1(1) show ?thesis by metis
qed

theorem hmac_correct_witness:
  "\<exists>s1 s2. hmac_init \<lparr>opad = replicate 64 0xCD,
        hmac_ctx = \<lparr>sha_H = [], sha_M = replicate 64 1, octets_in_buffer = 3, num_bits_in_msg = 9\<rparr>,
        hmac_init_ctx = \<lparr>sha_H = [], sha_M = replicate 64 2, octets_in_buffer = 5, num_bits_in_msg = 1\<rparr>\<rparr>
      [0x0b, 0x0b, 0x0b] 3 = Some (err_status_ok, s1) \<and>
    hmac_compute (fold (\<lambda>x s. snd (hmac_update s x)) [[0x48, 0x69], [0x20]] (snd (hmac_start s1))) [0x54] 4 [7, 7, 7, 7, 9] =
      Some (err_status_ok, s2, take 4 (rfc_hmac_sha1 [0x0b, 0x0b, 0x0b] [0x48, 0x69, 0x20, 0x54]) @ [9]) \<and>
    hmac_keyed s2 [0x0b, 0x0b, 0x0b]"
  using hmac_correct [of "\<lparr>opad = replicate 64 0xCD,
        hmac_ctx = \<lparr>sha_H = [], sha_M = replicate 64 1, octets_in_buffer = 3, num_bits_in_msg = 9\<rparr>,
        hmac_init_ctx = \<lparr>sha_H = [], sha_M = replicate 64 2, octets_in_buffer = 5, num_bits_in_msg = 1\<rparr>\<rparr>"
      "[0x0b, 0x0b, 0x0b]" "[[0x48, 0x69], [0x20]]" "[0x54]" 4 "[7, 7, 7, 7, 9]"]
  by (simp add: hmac_storage_def)

end
