(* ===== verification/Auth_Contract.thy ===== *)
theory Auth_Contract
  imports Prelude
begin

text \<open>
  The interface of an authentication function object as the packet processing relies on it:
  a keyed object is started, absorbs parts of a packet, and yields a tag. \<open>rep a i k m\<close> says that \<open>a\<close>
  is of the kind \<open>i\<close> (algorithm and tag length), keyed with \<open>k\<close>, and, when \<open>m\<close> is \<open>Some m'\<close>, has
  absorbed \<open>m'\<close> since the last start. The provider is \<open>Auth\<close>, the client \<open>Srtp\<close>.
\<close>

locale auth_contract =
  fixes rep :: "'a \<Rightarrow> 'i \<Rightarrow> octets \<Rightarrow> octets option \<Rightarrow> bool"
    and mac :: "'i \<Rightarrow> octets \<Rightarrow> octets \<Rightarrow> octets"
    and tag_len :: "'i \<Rightarrow> nat"
    and start :: "'a \<Rightarrow> err_status_t \<times> 'a"
    and update :: "'a \<Rightarrow> octets \<Rightarrow> err_status_t \<times> 'a"
    and compute :: "'a \<Rightarrow> octets \<Rightarrow> octets \<Rightarrow> (err_status_t \<times> 'a \<times> octets) option"
    and limit :: nat
  assumes length_mac: "length (mac i k m) = tag_len i"
    and start_rep: "rep a i k p \<Longrightarrow> fst (start a) = err_status_ok \<and> rep (snd (start a)) i k (Some [])"
    and update_rep: "rep a i k (Some m) \<Longrightarrow>
      fst (update a x) = err_status_ok \<and> rep (snd (update a x)) i k (Some (m @ x))"
    and compute_rep: "rep a i k (Some m) \<Longrightarrow> length m + length x < limit \<Longrightarrow> tag_len i \<le> length r \<Longrightarrow>
      \<exists>a'. compute a x r = Some (err_status_ok, a', mac i k (m @ x) @ drop (tag_len i) r) \<and> rep a' i k None"
begin

text \<open>Start, absorb one part, compute over the last: the call sequence of the packet processing.\<close>

lemma start_update_compute:
  assumes "rep a i k p" and "length x + length y < limit" and "tag_len i \<le> length r"
  obtains a' where "compute (snd (update (snd (start a)) x)) y r =
      Some (err_status_ok, a', mac i k (x @ y) @ drop (tag_len i) r)" "rep a' i k None"
proof -
  have "rep (snd (update (snd (start a)) x)) i k (Some ([] @ x))"
    using start_rep [OF assms(1)] update_rep by blast
  then have "rep (snd (update (snd (start a)) x)) i k (Some x)" by simp
  from compute_rep [OF this assms(2,3)] show ?thesis using that by auto
qed

end

end
