(* ===== verification/Auth.thy ===== *)
theory Auth
  imports Hmac Auth_Contract
begin

text \<open>
  \<^verbatim>\<open>srtp/crypto/hash/auth.c\<close>, \<^verbatim>\<open>null_auth.c\<close> and the allocation part of \<^verbatim>\<open>hmac.c\<close>: authentication
  function objects. In C an \<^verbatim>\<open>auth_t\<close> points to its metaobject (a table of functions) and to an
  untyped state; the library has the two metaobjects \<^verbatim>\<open>null_auth\<close> and \<^verbatim>\<open>hmac\<close>, always set together
  with a state of their own type, so the constructor of the state selects the function that a call
  through the table reaches.
\<close>

section \<open>Objects and dispatch\<close>

datatype auth_type_t = null_auth | hmac

definition auth_type_id :: "auth_type_t \<Rightarrow> u32" where
  "auth_type_id at = (case at of null_auth \<Rightarrow> 0 | hmac \<Rightarrow> 3)"

datatype auth_state_t = null_auth_state | hmac_state hmac_ctx_t

record auth_t =
  auth_state :: auth_state_t
  auth_out_len :: int
  auth_key_len :: int
  prefix_len :: int

definition auth_type_of :: "auth_t \<Rightarrow> auth_type_t" where
  "auth_type_of a = (case auth_state a of null_auth_state \<Rightarrow> null_auth | hmac_state _ \<Rightarrow> hmac)"

definition auth_get_key_length :: "auth_t \<Rightarrow> int" where
  "auth_get_key_length a = auth_key_len a"

definition auth_get_tag_length :: "auth_t \<Rightarrow> int" where
  "auth_get_tag_length a = auth_out_len a"

definition auth_get_prefix_length :: "auth_t \<Rightarrow> int" where
  "auth_get_prefix_length a = prefix_len a"

text \<open>
  Allocation: \<open>mem\<close> is what \<^verbatim>\<open>crypto_alloc\<close> returns, \<open>None\<close> for a null pointer and otherwise the
  uninitialised memory read as a context. \<open>refs\<close> is the reference count of each metaobject.
\<close>

definition hmac_alloc :: "hmac_ctx_t option \<Rightarrow> (auth_type_t \<Rightarrow> int) \<Rightarrow> int \<Rightarrow> int \<Rightarrow>
    err_status_t \<times> auth_t option \<times> (auth_type_t \<Rightarrow> int)" where
  "hmac_alloc mem refs key_len out_len =
     (if key_len > 20 then (err_status_bad_param, None, refs)
      else if out_len > 20 then (err_status_bad_param, None, refs)
      else case mem of None \<Rightarrow> (err_status_alloc_fail, None, refs)
      | Some s \<Rightarrow> (err_status_ok,
          Some \<lparr>auth_state = hmac_state s, auth_out_len = out_len, auth_key_len = key_len, prefix_len = 0\<rparr>,
          refs(hmac := refs hmac + 1)))"

definition hmac_dealloc :: "(auth_type_t \<Rightarrow> int) \<Rightarrow> auth_t \<Rightarrow> err_status_t \<times> (auth_type_t \<Rightarrow> int)" where
  "hmac_dealloc refs a = (err_status_ok, refs(hmac := refs hmac - 1))"

definition null_auth_alloc :: "hmac_ctx_t option \<Rightarrow> (auth_type_t \<Rightarrow> int) \<Rightarrow> int \<Rightarrow> int \<Rightarrow>
    err_status_t \<times> auth_t option \<times> (auth_type_t \<Rightarrow> int)" where
  "null_auth_alloc mem refs key_len out_len =
     (case mem of None \<Rightarrow> (err_status_alloc_fail, None, refs)
      | Some _ \<Rightarrow> (err_status_ok,
          Some \<lparr>auth_state = null_auth_state, auth_out_len = out_len, auth_key_len = key_len, prefix_len = out_len\<rparr>,
          refs(null_auth := refs null_auth + 1)))"

definition null_auth_dealloc :: "(auth_type_t \<Rightarrow> int) \<Rightarrow> auth_t \<Rightarrow> err_status_t \<times> (auth_type_t \<Rightarrow> int)" where
  "null_auth_dealloc refs a = (err_status_ok, refs(null_auth := refs null_auth - 1))"

definition null_auth_init :: "octets \<Rightarrow> int \<Rightarrow> err_status_t" where
  "null_auth_init key key_len = err_status_ok"

definition null_auth_compute :: "octets \<Rightarrow> int \<Rightarrow> octets \<Rightarrow> err_status_t \<times> octets" where
  "null_auth_compute message tag_len result = (err_status_ok, result)"

definition null_auth_update :: "octets \<Rightarrow> err_status_t" where
  "null_auth_update message = err_status_ok"

definition null_auth_start :: err_status_t where
  "null_auth_start = err_status_ok"

definition auth_type_alloc :: "auth_type_t \<Rightarrow> hmac_ctx_t option \<Rightarrow> (auth_type_t \<Rightarrow> int) \<Rightarrow> int \<Rightarrow> int \<Rightarrow>
    err_status_t \<times> auth_t option \<times> (auth_type_t \<Rightarrow> int)" where
  "auth_type_alloc at = (case at of null_auth \<Rightarrow> null_auth_alloc | hmac \<Rightarrow> hmac_alloc)"

definition auth_dealloc :: "(auth_type_t \<Rightarrow> int) \<Rightarrow> auth_t \<Rightarrow> err_status_t \<times> (auth_type_t \<Rightarrow> int)" where
  "auth_dealloc refs a =
     (case auth_state a of null_auth_state \<Rightarrow> null_auth_dealloc refs a | hmac_state _ \<Rightarrow> hmac_dealloc refs a)"

definition auth_init :: "auth_t \<Rightarrow> octets \<Rightarrow> (err_status_t \<times> auth_t) option" where
  "auth_init a key =
     (case auth_state a of
        null_auth_state \<Rightarrow> Some (null_auth_init key (auth_key_len a), a)
      | hmac_state s \<Rightarrow> map_option (map_prod id (\<lambda>s. a\<lparr>auth_state := hmac_state s\<rparr>))
          (hmac_init s key (auth_key_len a)))"

definition auth_start :: "auth_t \<Rightarrow> err_status_t \<times> auth_t" where
  "auth_start a =
     (case auth_state a of
        null_auth_state \<Rightarrow> (null_auth_start, a)
      | hmac_state s \<Rightarrow> map_prod id (\<lambda>s. a\<lparr>auth_state := hmac_state s\<rparr>) (hmac_start s))"

definition auth_update :: "auth_t \<Rightarrow> octets \<Rightarrow> err_status_t \<times> auth_t" where
  "auth_update a buf =
     (case auth_state a of
        null_auth_state \<Rightarrow> (null_auth_update buf, a)
      | hmac_state s \<Rightarrow> map_prod id (\<lambda>s. a\<lparr>auth_state := hmac_state s\<rparr>) (hmac_update s buf))"

definition auth_compute :: "auth_t \<Rightarrow> octets \<Rightarrow> octets \<Rightarrow> (err_status_t \<times> auth_t \<times> octets) option" where
  "auth_compute a buf res =
     (case auth_state a of
        null_auth_state \<Rightarrow> (case null_auth_compute buf (auth_out_len a) res of (st, res) \<Rightarrow> Some (st, a, res))
      | hmac_state s \<Rightarrow> map_option (\<lambda>(st, s, res). (st, a\<lparr>auth_state := hmac_state s\<rparr>, res))
          (hmac_compute s buf (auth_out_len a) res))"

section \<open>Self-test\<close>

record auth_test_case_t =
  at_key_length_octets :: int
  at_key :: octets
  at_data :: octets
  at_tag_length_octets :: int
  at_tag :: octets

definition hmac_test_case_0 :: auth_test_case_t where
  "hmac_test_case_0 =
     \<lparr>at_key_length_octets = 20,
      at_key = [0x0b, 0x0b, 0x0b, 0x0b, 0x0b, 0x0b, 0x0b, 0x0b,
                0x0b, 0x0b, 0x0b, 0x0b, 0x0b, 0x0b, 0x0b, 0x0b,
                0x0b, 0x0b, 0x0b, 0x0b],
      at_data = [0x48, 0x69, 0x20, 0x54, 0x68, 0x65, 0x72, 0x65],
      at_tag_length_octets = 20,
      at_tag = [0xb6, 0x17, 0x31, 0x86, 0x55, 0x05, 0x72, 0x64,
                0xe2, 0x8b, 0xc0, 0xb6, 0xfb, 0x37, 0x8c, 0x8e,
                0xf1, 0x46, 0xbe, 0x00]\<rparr>"

definition null_auth_test_case_0 :: auth_test_case_t where
  "null_auth_test_case_0 =
     \<lparr>at_key_length_octets = 0, at_key = [], at_data = [], at_tag_length_octets = 0, at_tag = []\<rparr>"

definition auth_test_data :: "auth_type_t \<Rightarrow> auth_test_case_t list" where
  "auth_test_data at = (case at of null_auth \<Rightarrow> [null_auth_test_case_0] | hmac \<Rightarrow> [hmac_test_case_0])"

definition SELF_TEST_TAG_BUF_OCTETS :: int where
  "SELF_TEST_TAG_BUF_OCTETS = 32"

text \<open>
  \<open>mem n\<close> is the memory of allocation \<open>n\<close> of the run, \<open>tag\<close> the uninitialised tag buffer on the
  stack. Each error path behind the allocation releases the object.
\<close>

definition auth_test_case_run :: "auth_type_t \<Rightarrow> hmac_ctx_t option \<Rightarrow> octets \<Rightarrow> (auth_type_t \<Rightarrow> int) \<Rightarrow>
    auth_test_case_t \<Rightarrow> (err_status_t \<times> (auth_type_t \<Rightarrow> int)) option" where
  "auth_test_case_run at mem tag refs tc =
     (if at_tag_length_octets tc > SELF_TEST_TAG_BUF_OCTETS then Some (err_status_bad_param, refs)
      else case auth_type_alloc at mem refs (at_key_length_octets tc) (at_tag_length_octets tc) of
        (st, None, refs) \<Rightarrow> Some (st, refs)
      | (_, Some a, refs) \<Rightarrow> do {
          (st, a) \<leftarrow> auth_init a (at_key tc);
          if st \<noteq> err_status_ok then Some (st, snd (auth_dealloc refs a))
          else do {
            let tag = replicate (nat (at_tag_length_octets tc)) 0 @ drop (nat (at_tag_length_octets tc)) tag;
            (st, a, tag) \<leftarrow> auth_compute a (at_data tc) tag;
            if st \<noteq> err_status_ok then Some (st, snd (auth_dealloc refs a))
            else if \<exists>i \<in> set [0..<nat (at_tag_length_octets tc)]. tag ! i \<noteq> at_tag tc ! i
            then Some (err_status_algo_fail, snd (auth_dealloc refs a))
            else Some (auth_dealloc refs a)
          }
        })"

fun auth_type_test_loop :: "auth_type_t \<Rightarrow> (nat \<Rightarrow> hmac_ctx_t option) \<Rightarrow> octets \<Rightarrow> nat \<Rightarrow>
    (auth_type_t \<Rightarrow> int) \<Rightarrow> auth_test_case_t list \<Rightarrow> (err_status_t \<times> (auth_type_t \<Rightarrow> int)) option" where
  "auth_type_test_loop at mem tag n refs [] = Some (err_status_ok, refs)"
| "auth_type_test_loop at mem tag n refs (tc # tcs) = do {
     (st, refs) \<leftarrow> auth_test_case_run at (mem n) tag refs tc;
     if st \<noteq> err_status_ok then Some (st, refs)
     else auth_type_test_loop at mem tag (n + 1) refs tcs
   }"

definition auth_type_test :: "auth_type_t \<Rightarrow> (nat \<Rightarrow> hmac_ctx_t option) \<Rightarrow> octets \<Rightarrow>
    (auth_type_t \<Rightarrow> int) \<Rightarrow> auth_test_case_t list \<Rightarrow> (err_status_t \<times> (auth_type_t \<Rightarrow> int)) option" where
  "auth_type_test at mem tag refs test_data =
     (if test_data = [] then Some (err_status_cant_check, refs)
      else auth_type_test_loop at mem tag 0 refs test_data)"

definition auth_type_self_test :: "auth_type_t \<Rightarrow> (nat \<Rightarrow> hmac_ctx_t option) \<Rightarrow> octets \<Rightarrow>
    (auth_type_t \<Rightarrow> int) \<Rightarrow> (err_status_t \<times> (auth_type_t \<Rightarrow> int)) option" where
  "auth_type_self_test at mem tag refs = auth_type_test at mem tag refs (auth_test_data at)"

section \<open>The contract\<close>

text \<open>
  The kinds of objects the contract covers: HMAC with a tag of at most 20 octets, and the null
  function with an empty tag (with a longer one it leaves the tag buffer as it is); neither uses a
  keystream prefix.
\<close>

datatype auth_kind = kind_null | kind_hmac nat

fun auth_kind_tag_len :: "auth_kind \<Rightarrow> nat" where
  "auth_kind_tag_len kind_null = 0"
| "auth_kind_tag_len (kind_hmac n) = min n 20"

fun auth_kind_mac :: "auth_kind \<Rightarrow> octets \<Rightarrow> octets \<Rightarrow> octets" where
  "auth_kind_mac kind_null k m = []"
| "auth_kind_mac (kind_hmac n) k m = take n (rfc_hmac_sha1 k m)"

fun auth_rep :: "auth_t \<Rightarrow> auth_kind \<Rightarrow> octets \<Rightarrow> octets option \<Rightarrow> bool" where
  "auth_rep a kind_null k m \<longleftrightarrow> auth_state a = null_auth_state \<and> auth_out_len a = 0 \<and> prefix_len a = 0"
| "auth_rep a (kind_hmac n) k m \<longleftrightarrow> n \<le> 20 \<and> auth_out_len a = int n \<and> prefix_len a = 0 \<and>
     (\<exists>s. auth_state a = hmac_state s \<and>
        (case m of None \<Rightarrow> hmac_keyed s k | Some m \<Rightarrow> hmac_absorbed s k m))"

interpretation auth: auth_contract auth_rep auth_kind_mac auth_kind_tag_len auth_start auth_update
  auth_compute "2 ^ 28"
proof unfold_locales
  fix a :: auth_t and i k x r and m :: octets and m' :: "octets option"
  show "length (auth_kind_mac i k m) = auth_kind_tag_len i"
    by (cases i) (simp_all add: rfc_hmac_sha1_def min.commute)
  show "fst (auth_start a) = err_status_ok \<and> auth_rep (snd (auth_start a)) i k (Some [])"
    if "auth_rep a i k m'"
  proof (cases i)
    case kind_null
    with that show ?thesis by (simp add: auth_start_def null_auth_start_def)
  next
    case (kind_hmac n)
    with that obtain s where s: "auth_state a = hmac_state s" "hmac_keyed s k"
      by (auto simp: hmac_absorbed_def split: option.splits)
    from hmac_start_absorbed [OF s(2)] s that kind_hmac show ?thesis
      by (simp add: auth_start_def)
  qed
  show "fst (auth_update a x) = err_status_ok \<and> auth_rep (snd (auth_update a x)) i k (Some (m @ x))"
    if "auth_rep a i k (Some m)"
    using that
    by (cases i) (auto simp: auth_update_def null_auth_update_def dest: hmac_update_absorbed)
  show "\<exists>a'. auth_compute a x r = Some (err_status_ok, a', auth_kind_mac i k (m @ x) @ drop (auth_kind_tag_len i) r)
      \<and> auth_rep a' i k None"
    if rep: "auth_rep a i k (Some m)" and len: "length m + length x < 2 ^ 28" and r: "auth_kind_tag_len i \<le> length r"
  proof (cases i)
    case kind_null
    with rep show ?thesis by (simp add: auth_compute_def null_auth_compute_def)
  next
    case (kind_hmac n)
    with rep obtain s where s: "auth_state a = hmac_state s" "hmac_absorbed s k m" "auth_out_len a = int n" "n \<le> 20"
      "prefix_len a = 0" by auto
    then obtain s' where "hmac_compute s x (int n) r =
        Some (err_status_ok, s', take n (rfc_hmac_sha1 k (m @ x)) @ drop n r)" "hmac_keyed s' k"
      using hmac_compute_tag [OF s(2) len, of "int n" r] r kind_hmac by auto
    with s kind_hmac show ?thesis by (simp add: auth_compute_def min_def)
  qed
qed

text \<open>Initialisation establishes the contract.\<close>

lemma auth_init_rep:
  assumes "auth_type_alloc at mem refs key_len (int n) = (err_status_ok, Some a, refs')"
    and "\<And>s. mem = Some s \<Longrightarrow> hmac_storage s" and "0 \<le> key_len" and "nat key_len \<le> length key"
    and "at = null_auth \<Longrightarrow> n = 0"
  obtains a' where "auth_init a key = Some (err_status_ok, a')"
    "auth_rep a' (case at of null_auth \<Rightarrow> kind_null | hmac \<Rightarrow> kind_hmac n) (take (nat key_len) key) None"
proof (cases at)
  case null_auth
  with assms(1,5) show ?thesis
    by (intro that [of a])
      (auto simp: auth_type_alloc_def null_auth_alloc_def auth_init_def null_auth_init_def split: option.splits)
next
  case hmac
  with assms(1,2) obtain s where s: "hmac_storage s" "key_len \<le> 20" "n \<le> 20"
    "a = \<lparr>auth_state = hmac_state s, auth_out_len = int n, auth_key_len = key_len, prefix_len = 0\<rparr>"
    by (auto simp: auth_type_alloc_def hmac_alloc_def split: option.splits if_splits)
  from hmac_init_keyed [OF s(1,2) assms(4)] obtain s' where
    "hmac_init s key key_len = Some (err_status_ok, s')" "hmac_keyed s' (take (nat key_len) key)" .
  with s(3,4) hmac show ?thesis
    by (intro that [of "a\<lparr>auth_state := hmac_state s'\<rparr>"]) (simp_all add: auth_init_def)
qed

section \<open>Self-tests do not leak\<close>

lemma auth_alloc_dealloc:
  assumes "auth_type_alloc at mem refs key_len out = (st, Some a, refs')"
  shows "st = err_status_ok \<and> auth_type_of a = at \<and> refs' = refs(at := refs at + 1)"
  using assms
  by (cases at) (auto simp: auth_type_alloc_def null_auth_alloc_def hmac_alloc_def auth_type_of_def
     split: option.splits if_splits)

lemma auth_alloc_none:
  "auth_type_alloc at mem refs key_len out = (st, None, refs') \<Longrightarrow> st \<noteq> err_status_ok \<and> refs' = refs"
  by (cases at) (auto simp: auth_type_alloc_def null_auth_alloc_def hmac_alloc_def
     split: option.splits if_splits)

lemma auth_dealloc_refs:
  "auth_dealloc (refs(auth_type_of a := refs (auth_type_of a) + 1)) a = (err_status_ok, refs)"
  by (cases "auth_state a")
    (simp_all add: auth_dealloc_def null_auth_dealloc_def hmac_dealloc_def auth_type_of_def)

lemma auth_init_type: "auth_init a key = Some (st, a') \<Longrightarrow> auth_type_of a' = auth_type_of a"
  by (cases "auth_state a") (auto simp: auth_init_def auth_type_of_def)

lemma auth_compute_type: "auth_compute a buf res = Some (st, a', res') \<Longrightarrow> auth_type_of a' = auth_type_of a"
  by (cases "auth_state a") (auto simp: auth_compute_def null_auth_compute_def auth_type_of_def)

lemma auth_test_case_run_refs:
  assumes "auth_test_case_run at mem tag refs tc = Some (st, refs')"
  shows "refs' = refs"
proof (cases "at_tag_length_octets tc > SELF_TEST_TAG_BUF_OCTETS")
  case False
  obtain st1 oa refs1 where al: "auth_type_alloc at mem refs (at_key_length_octets tc)
      (at_tag_length_octets tc) = (st1, oa, refs1)" by (metis prod_cases3)
  show ?thesis
  proof (cases oa)
    case None
    with al assms False auth_alloc_none show ?thesis by (fastforce simp: auth_test_case_run_def)
  next
    case (Some a)
    note a = auth_alloc_dealloc [OF al [unfolded Some]]
    have rel: "auth_dealloc refs1 b = (err_status_ok, refs)" if "auth_type_of b = at" for b
      using a that auth_dealloc_refs [of refs b] by simp
    have ta: "auth_type_of a = at" using a by simp
    have rel1: "auth_dealloc refs1 b = (err_status_ok, refs)" if "auth_init a key = Some (x, b)" for key x b
      by (rule rel) (use auth_init_type [OF that] ta in simp)
    have rel2: "auth_dealloc refs1 c = (err_status_ok, refs)"
      if "auth_init a key = Some (x, b)" "auth_compute b d t = Some (y, c, z)" for key x b d t y c z
      by (rule rel) (use auth_init_type [OF that(1)] auth_compute_type [OF that(2)] ta in simp)
    from assms al Some False show ?thesis
      by (auto simp: auth_test_case_run_def Let_def bind_eq_Some_conv split: if_splits
          dest: rel1 rel2)
  qed
qed (use assms in \<open>simp add: auth_test_case_run_def\<close>)

text \<open>
  \<^verbatim>\<open>auth_type_test\<close> releases what it allocates on every path: whatever test cases it is given,
  whether they pass, fail or cannot be run, the reference counts are those before the test.
\<close>

theorem auth_type_test_releases:
  assumes "auth_type_test at mem tag refs test_data = Some (st, refs')"
  shows "refs' = refs"
proof -
  have "auth_type_test_loop at mem tag n refs tcs = Some (st, refs') \<Longrightarrow> refs' = refs" for n tcs
    by (induction at mem tag n refs tcs arbitrary: st rule: auth_type_test_loop.induct)
      (auto simp: bind_eq_Some_conv split: if_splits dest: auth_test_case_run_refs)
  with assms show ?thesis by (auto simp: auth_type_test_def split: if_splits)
qed

theorem auth_type_test_releases_witness:
  "auth_type_test hmac (\<lambda>_. None) [] (\<lambda>_. 4) [hmac_test_case_0] = Some (err_status_alloc_fail, \<lambda>_. 4) \<and>
   (\<lambda>_. 4) = (\<lambda>_ :: auth_type_t. 4 :: int)"
proof -
  have run: "auth_type_test hmac (\<lambda>_. None) [] (\<lambda>_. 4) [hmac_test_case_0] = Some (err_status_alloc_fail, \<lambda>_. 4)"
    by (simp add: auth_type_test_def auth_test_case_run_def auth_type_alloc_def hmac_alloc_def
        hmac_test_case_0_def SELF_TEST_TAG_BUF_OCTETS_def)
  from run auth_type_test_releases [OF run] show ?thesis by blast
qed

end
