(* ===== verification/Aes.thy ===== *)
theory Aes
  imports Aes_Tables
begin

text \<open>
  \<^verbatim>\<open>srtp/crypto/cipher/aes.c\<close>: key expansion and the table-driven rounds of the processor class the
  build selects (\<^verbatim>\<open>CPU_CISC\<close>, little-endian), their equivalence with the cipher of FIPS 197, and
  decryption as the inverse of encryption. A 128-bit value is its four words; the octet view
  \<^verbatim>\<open>v8\<close> of the union is \<open>bytes_le\<close>.
\<close>

section \<open>The implementation\<close>

record aes_expanded_key_t =
  round_key :: "v128_t list"
  num_rounds :: int

definition aes_128_next_round_key :: "v128_t \<Rightarrow> u8 \<Rightarrow> v128_t" where
  "aes_128_next_round_key prev rc =
     (let p = bytes_le prev;
          w0 = le32 (sbox (p ! 13) XOR rc) (sbox (p ! 14)) (sbox (p ! 15)) (sbox (p ! 12)) XOR prev ! 0;
          w1 = w0 XOR prev ! 1;
          w2 = w1 XOR prev ! 2;
          w3 = w2 XOR prev ! 3
      in [w0, w1, w2, w3])"

definition aes_128_expand_encryption_key :: "octets \<Rightarrow> aes_expanded_key_t \<Rightarrow> aes_expanded_key_t option" where
  "aes_128_expand_encryption_key key expanded_key = do {
     k0 \<leftarrow> v128_copy_octet_string key;
     let rk = (round_key expanded_key)[0 := k0];
     let (rk, rc) = fold (\<lambda>i (rk, rc). (rk[i := aes_128_next_round_key (rk ! (i - 1)) rc], gf2_8_shift rc))
       [1..<11] (rk, 1);
     Some (expanded_key\<lparr>round_key := rk, num_rounds := 10\<rparr>)
   }"

definition aes_256_next_round_key :: "nat \<Rightarrow> v128_t \<Rightarrow> v128_t \<Rightarrow> u8 \<Rightarrow> v128_t" where
  "aes_256_next_round_key i prev2 prev rc =
     (let p = bytes_le prev;
          t = (if i mod 2 = 0
               then le32 (sbox (p ! 13) XOR rc) (sbox (p ! 14)) (sbox (p ! 15)) (sbox (p ! 12))
               else le32 (sbox (p ! 12)) (sbox (p ! 13)) (sbox (p ! 14)) (sbox (p ! 15)));
          w0 = t XOR prev2 ! 0;
          w1 = w0 XOR prev2 ! 1;
          w2 = w1 XOR prev2 ! 2;
          w3 = w2 XOR prev2 ! 3
      in [w0, w1, w2, w3])"

definition aes_256_expand_encryption_key :: "octets \<Rightarrow> aes_expanded_key_t \<Rightarrow> aes_expanded_key_t option" where
  "aes_256_expand_encryption_key key expanded_key = do {
     k0 \<leftarrow> v128_copy_octet_string key;
     k1 \<leftarrow> v128_copy_octet_string (drop 16 key);
     let rk = (round_key expanded_key)[0 := k0, 1 := k1];
     let (rk, rc) = fold (\<lambda>i (rk, rc).
         (rk[i := aes_256_next_round_key i (rk ! (i - 2)) (rk ! (i - 1)) rc],
          if i mod 2 = 0 then gf2_8_shift rc else rc)) [2..<15] (rk, 1);
     Some (expanded_key\<lparr>round_key := rk, num_rounds := 14\<rparr>)
   }"

definition aes_expand_encryption_key :: "octets \<Rightarrow> int \<Rightarrow> aes_expanded_key_t \<Rightarrow>
    (err_status_t \<times> aes_expanded_key_t) option" where
  "aes_expand_encryption_key key key_len expanded_key =
     (if key_len = 16 then map_option (Pair err_status_ok) (aes_128_expand_encryption_key key expanded_key)
      else if key_len = 24 then Some (err_status_bad_param, expanded_key)
      else if key_len = 32 then map_option (Pair err_status_ok) (aes_256_expand_encryption_key key expanded_key)
      else Some (err_status_bad_param, expanded_key))"

text \<open>The inverse \<^verbatim>\<open>MixColumns\<close> of a round key, by the tables \<^verbatim>\<open>U0\<close> to \<^verbatim>\<open>U3\<close> behind the S-box.\<close>

definition aes_inv_mix_round_key :: "v128_t \<Rightarrow> v128_t" where
  "aes_inv_mix_round_key k =
     (let p = bytes_le k;
          c = (\<lambda>i. U0 ! unat (sbox (p ! i)) XOR U1 ! unat (sbox (p ! (i + 1)))
                   XOR U2 ! unat (sbox (p ! (i + 2))) XOR U3 ! unat (sbox (p ! (i + 3))))
      in [c 0, c 4, c 8, c 12])"

text \<open>
  \<^verbatim>\<open>num_rounds\<close> is read before the expansion that sets it. A count outside the array of 15 round
  keys makes the loops run out of bounds.
\<close>

definition aes_expand_decryption_key :: "octets \<Rightarrow> int \<Rightarrow> aes_expanded_key_t \<Rightarrow>
    (err_status_t \<times> aes_expanded_key_t) option" where
  "aes_expand_decryption_key key key_len expanded_key = do {
     let n = num_rounds expanded_key;
     (status, ek) \<leftarrow> aes_expand_encryption_key key key_len expanded_key;
     if status \<noteq> err_status_ok then Some (status, ek)
     else if n > 14 then None
     else
       let rk = fold (\<lambda>i rk. rk[nat n - i := rk ! i, i := rk ! (nat n - i)]) [0..<nat n div 2] (round_key ek);
           rk = fold (\<lambda>i rk. rk[i := aes_inv_mix_round_key (rk ! i)]) [1..<nat n] rk
       in Some (err_status_ok, ek\<lparr>round_key := rk\<rparr>)
   }"

definition aes_round :: "v128_t \<Rightarrow> v128_t \<Rightarrow> v128_t" where
  "aes_round state rk =
     (let s = bytes_le state;
          T = (\<lambda>a b c d. T0 ! unat (s ! a) XOR T1 ! unat (s ! b) XOR T2 ! unat (s ! c) XOR T3 ! unat (s ! d))
      in [T 0 5 10 15 XOR rk ! 0, T 4 9 14 3 XOR rk ! 1, T 8 13 2 7 XOR rk ! 2, T 12 1 6 11 XOR rk ! 3])"

definition aes_inv_round :: "v128_t \<Rightarrow> v128_t \<Rightarrow> v128_t" where
  "aes_inv_round state rk =
     (let s = bytes_le state;
          U = (\<lambda>a b c d. U0 ! unat (s ! a) XOR U1 ! unat (s ! b) XOR U2 ! unat (s ! c) XOR U3 ! unat (s ! d))
      in [U 0 13 10 7 XOR rk ! 0, U 4 1 14 11 XOR rk ! 1, U 8 5 2 15 XOR rk ! 2, U 12 9 6 3 XOR rk ! 3])"

text \<open>The stores of the final rounds, in the order of the source.\<close>

definition aes_final_round :: "v128_t \<Rightarrow> v128_t \<Rightarrow> v128_t" where
  "aes_final_round state rk =
     (let s = bytes_le state;
          s = s[0 := sbox (s ! 0)]; s = s[4 := sbox (s ! 4)];
          s = s[8 := sbox (s ! 8)]; s = s[12 := sbox (s ! 12)];
          tmp = sbox (s ! 1);
          s = s[1 := sbox (s ! 5)]; s = s[5 := sbox (s ! 9)]; s = s[9 := sbox (s ! 13)]; s = s[13 := tmp];
          tmp = sbox (s ! 10);
          s = s[10 := sbox (s ! 2)]; s = s[2 := tmp];
          tmp = sbox (s ! 14);
          s = s[14 := sbox (s ! 6)]; s = s[6 := tmp];
          tmp = sbox (s ! 15);
          s = s[15 := sbox (s ! 11)]; s = s[11 := sbox (s ! 7)]; s = s[7 := sbox (s ! 3)]; s = s[3 := tmp]
      in v128_xor_eq (words_le s) rk)"

definition aes_inv_final_round :: "v128_t \<Rightarrow> v128_t \<Rightarrow> v128_t" where
  "aes_inv_final_round state rk =
     (let s = bytes_le state;
          s = s[0 := inv_sbox (s ! 0)]; s = s[4 := inv_sbox (s ! 4)];
          s = s[8 := inv_sbox (s ! 8)]; s = s[12 := inv_sbox (s ! 12)];
          tmp = inv_sbox (s ! 13);
          s = s[13 := inv_sbox (s ! 9)]; s = s[9 := inv_sbox (s ! 5)]; s = s[5 := inv_sbox (s ! 1)];
          s = s[1 := tmp];
          tmp = inv_sbox (s ! 2);
          s = s[2 := inv_sbox (s ! 10)]; s = s[10 := tmp];
          tmp = inv_sbox (s ! 6);
          s = s[6 := inv_sbox (s ! 14)]; s = s[14 := tmp];
          tmp = inv_sbox (s ! 3);
          s = s[3 := inv_sbox (s ! 7)]; s = s[7 := inv_sbox (s ! 11)]; s = s[11 := inv_sbox (s ! 15)];
          s = s[15 := tmp]
      in v128_xor_eq (words_le s) rk)"

text \<open>The nine unconditional rounds, then the rounds the key length selects.\<close>

definition aes_encrypt :: "v128_t \<Rightarrow> aes_expanded_key_t \<Rightarrow> v128_t" where
  "aes_encrypt plaintext exp_key =
     (let rk = round_key exp_key;
          s = v128_xor_eq plaintext (rk ! 0);
          s = fold (\<lambda>i s. aes_round s (rk ! i)) [1..<10] s
      in if num_rounds exp_key = 10 then aes_final_round s (rk ! 10)
         else if num_rounds exp_key = 12
         then aes_final_round (fold (\<lambda>i s. aes_round s (rk ! i)) [10..<12] s) (rk ! 12)
         else if num_rounds exp_key = 14
         then aes_final_round (fold (\<lambda>i s. aes_round s (rk ! i)) [10..<14] s) (rk ! 14)
         else s)"

definition aes_decrypt :: "v128_t \<Rightarrow> aes_expanded_key_t \<Rightarrow> v128_t" where
  "aes_decrypt plaintext exp_key =
     (let rk = round_key exp_key;
          s = v128_xor_eq plaintext (rk ! 0);
          s = fold (\<lambda>i s. aes_inv_round s (rk ! i)) [1..<10] s
      in if num_rounds exp_key = 10 then aes_inv_final_round s (rk ! 10)
         else if num_rounds exp_key = 12
         then aes_inv_final_round (fold (\<lambda>i s. aes_inv_round s (rk ! i)) [10..<12] s) (rk ! 12)
         else if num_rounds exp_key = 14
         then aes_inv_final_round (fold (\<lambda>i s. aes_inv_round s (rk ! i)) [10..<14] s) (rk ! 14)
         else s)"

section \<open>FIPS 197\<close>

text \<open>The state is the column-major sequence of its sixteen octets.\<close>

definition SubBytes :: "octets \<Rightarrow> octets" where
  "SubBytes s = map sbox s"

definition ShiftRows :: "octets \<Rightarrow> octets" where
  "ShiftRows s = map (\<lambda>i. s ! ((i + 4 * (i mod 4)) mod 16)) [0..<16]"

definition mix_column :: "u8 \<Rightarrow> u8 \<Rightarrow> u8 \<Rightarrow> u8 \<Rightarrow> octets" where
  "mix_column a b c d =
     [gf2_8_multiply a 2 XOR gf2_8_multiply b 3 XOR c XOR d,
      a XOR gf2_8_multiply b 2 XOR gf2_8_multiply c 3 XOR d,
      a XOR b XOR gf2_8_multiply c 2 XOR gf2_8_multiply d 3,
      gf2_8_multiply a 3 XOR b XOR c XOR gf2_8_multiply d 2]"

fun MixColumns :: "octets \<Rightarrow> octets" where
  "MixColumns (a # b # c # d # s) = mix_column a b c d @ MixColumns s"
| "MixColumns _ = []"

definition AddRoundKey :: "octets \<Rightarrow> octets \<Rightarrow> octets" where
  "AddRoundKey s k = map2 (XOR) s k"

definition Rcon :: "nat \<Rightarrow> octets" where
  "Rcon j = [(gf2_8_shift ^^ (j - 1)) 1, 0, 0, 0]"

definition RotWord :: "octets \<Rightarrow> octets" where
  "RotWord w = rotate1 w"

fun key_word :: "nat \<Rightarrow> octets \<Rightarrow> nat \<Rightarrow> octets" where
  "key_word Nk key i =
     (if i < Nk \<or> Nk = 0 then take 4 (drop (4 * i) key)
      else let temp = key_word Nk key (i - 1);
               temp = (if i mod Nk = 0 then AddRoundKey (SubBytes (RotWord temp)) (Rcon (i div Nk))
                       else if 6 < Nk \<and> i mod Nk = 4 then SubBytes temp else temp)
           in AddRoundKey (key_word Nk key (i - Nk)) temp)"

declare key_word.simps [simp del]

definition fips_round_key :: "nat \<Rightarrow> octets \<Rightarrow> nat \<Rightarrow> octets" where
  "fips_round_key Nk key r = concat (map (key_word Nk key) [4 * r..<4 * r + 4])"

definition fips_cipher :: "nat \<Rightarrow> (nat \<Rightarrow> octets) \<Rightarrow> octets \<Rightarrow> octets" where
  "fips_cipher Nr w s =
     (let s = AddRoundKey s (w 0);
          s = fold (\<lambda>r s. AddRoundKey (MixColumns (ShiftRows (SubBytes s))) (w r)) [1..<Nr] s
      in AddRoundKey (ShiftRows (SubBytes s)) (w Nr))"

text \<open>AES with a key of 16 or 32 octets.\<close>

definition fips_aes :: "octets \<Rightarrow> octets \<Rightarrow> octets" where
  "fips_aes key = fips_cipher (length key div 4 + 6) (fips_round_key (length key div 4) key)"

section \<open>Rounds\<close>

lemma v128_cases:
  assumes "length v = 4"
  obtains a b c d e f g h i j k l m n p q where
    "v = [le32 a b c d, le32 e f g h, le32 i j k l, le32 m n p q]"
proof -
  obtain w x y z where v: "v = [w, x, y, z]" using assms by (auto simp: length_Suc_conv eval_nat_numeral)
  show ?thesis
    by (rule le32_cases [of w], rule le32_cases [of x], rule le32_cases [of y], rule le32_cases [of z])
      (rule that, simp add: v)
qed

lemma gf2_8_multiply_2_3 [simp]:
  "gf2_8_multiply x 2 = gf2_8_shift x" "gf2_8_multiply x 3 = gf2_8_shift x XOR x"
  by (simp_all add: gf2_8_multiply_def Let_def xor.commute)

lemma map2_xor_bytes_le:
  "length v = length w \<Longrightarrow> bytes_le (map2 (XOR) v w) = map2 (XOR) (bytes_le v) (bytes_le w)"
proof (induction v w rule: list_induct2)
  case (Cons x xs y ys)
  have "le32_bytes (x XOR y) = map2 (XOR) (le32_bytes x) (le32_bytes y)"
    by (rule le32_cases [of x], rule le32_cases [of y]) (simp add: le32_xor)
  with Cons.IH show ?case by (simp add: zip_append)
qed simp

lemma aes_round_fips:
  assumes "length s = 4" and "length k = 4"
  shows "bytes_le (aes_round s k) = AddRoundKey (MixColumns (ShiftRows (SubBytes (bytes_le s)))) (bytes_le k)"
  by (rule v128_cases [OF assms(1)], rule v128_cases [OF assms(2)])
    (simp add: aes_round_def Let_def T_entry le32_xor AddRoundKey_def SubBytes_def ShiftRows_def
      mix_column_def upt_rec xor.assoc xor.left_commute xor.commute)

lemma aes_final_round_fips:
  assumes "length s = 4" and "length k = 4"
  shows "bytes_le (aes_final_round s k) = AddRoundKey (ShiftRows (SubBytes (bytes_le s))) (bytes_le k)"
  by (rule v128_cases [OF assms(1)], rule v128_cases [OF assms(2)])
    (simp add: aes_final_round_def Let_def v128_xor_eq_def le32_xor AddRoundKey_def SubBytes_def ShiftRows_def upt_rec)

lemma length_aes_round [simp]: "length (aes_round s k) = 4"
  by (simp add: aes_round_def Let_def)

lemma length_v128_xor_eq [simp]: "length (v128_xor_eq s k) = 4"
  by (simp add: v128_xor_eq_def)

lemma v128_xor_eq_bytes:
  assumes "length s = 4" and "length k = 4"
  shows "bytes_le (v128_xor_eq s k) = AddRoundKey (bytes_le s) (bytes_le k)"
  by (rule v128_cases [OF assms(1)], rule v128_cases [OF assms(2)])
    (simp add: v128_xor_eq_def le32_xor AddRoundKey_def)

lemma aes_rounds_fips:
  assumes "length s = 4" and "\<And>i. i \<in> set is \<Longrightarrow> length (rk ! i) = 4"
  shows "bytes_le (fold (\<lambda>i s. aes_round s (rk ! i)) is s) =
    fold (\<lambda>r s. AddRoundKey (MixColumns (ShiftRows (SubBytes s))) (bytes_le (rk ! r))) is (bytes_le s) \<and>
    length (fold (\<lambda>i s. aes_round s (rk ! i)) is s) = 4"
  using assms by (induction "is" arbitrary: s) (simp_all add: aes_round_fips)

text \<open>\<open>schedule ek w n\<close>: the first \<open>n + 1\<close> round keys are those of the schedule \<open>w\<close>.\<close>

definition schedule :: "v128_t list \<Rightarrow> (nat \<Rightarrow> octets) \<Rightarrow> nat \<Rightarrow> bool" where
  "schedule rk w n \<longleftrightarrow> (\<forall>i \<le> n. length (rk ! i) = 4 \<and> bytes_le (rk ! i) = w i)"

lemma aes_encrypt_schedule:
  assumes "schedule (round_key ek) w n" and "num_rounds ek = int n" and "n = 10 \<or> n = 14" and "length p = 4"
  shows "bytes_le (aes_encrypt p ek) = fips_cipher n w (bytes_le p)"
proof -
  let ?rk = "round_key ek" and ?R = "\<lambda>r s. AddRoundKey (MixColumns (ShiftRows (SubBytes s))) (w r)"
  have k: "length (?rk ! i) = 4" "bytes_le (?rk ! i) = w i" if "i \<le> n" for i
    using assms(1) that by (auto simp: schedule_def)
  define s where "s = fold (\<lambda>i s. aes_round s (?rk ! i)) [1..<n] (v128_xor_eq p (?rk ! 0))"
  have "bytes_le s = fold (\<lambda>r s. AddRoundKey (MixColumns (ShiftRows (SubBytes s))) (bytes_le (?rk ! r)))
      [1..<n] (bytes_le (v128_xor_eq p (?rk ! 0))) \<and> length s = 4"
    unfolding s_def by (rule aes_rounds_fips) (simp_all add: k)
  moreover have "fold (\<lambda>r s. AddRoundKey (MixColumns (ShiftRows (SubBytes s))) (bytes_le (?rk ! r))) [1..<n] u
      = fold ?R [1..<n] u" for u
    by (rule fold_cong) (simp_all add: k)
  ultimately have s: "bytes_le s = fold ?R [1..<n] (AddRoundKey (bytes_le p) (w 0))" "length s = 4"
    using v128_xor_eq_bytes [OF assms(4) k(1) [of 0]] k(2) [of 0] by simp_all
  have split: "[1..<14] = [1..<10] @ [10..<14]" using upt_add_eq_append [of 1 10 4] by simp
  have "aes_encrypt p ek = aes_final_round s (?rk ! n)"
    using assms(2,3) unfolding aes_encrypt_def Let_def s_def by (elim disjE) (simp_all only: split fold_append comp_apply, simp_all)
  then show ?thesis
    using aes_final_round_fips [OF s(2) k(1) [of n]] k(2) [of n] by (simp add: fips_cipher_def Let_def s(1))
qed

section \<open>Key expansion\<close>

lemma length_AddRoundKey [simp]: "length (AddRoundKey s k) = min (length s) (length k)"
  by (simp add: AddRoundKey_def)

lemma length_key_word:
  assumes "length key = 4 * Nk" and "0 < Nk"
  shows "length (key_word Nk key i) = 4"
proof (induction i rule: less_induct)
  case (less i)
  show ?case
  proof (cases "i < Nk \<or> Nk = 0")
    case True
    then show ?thesis using assms by (auto simp: key_word.simps)
  next
    case False
    then show ?thesis
      using less [of "i - 1"] less [of "i - Nk"]
      by (subst key_word.simps) (simp add: Let_def SubBytes_def RotWord_def Rcon_def)
  qed
qed

lemma bytes_le_round_key:
  "bytes_le [w0, w1, w2, w3] = fips_round_key Nk key r \<longleftrightarrow>
     le32_bytes w0 @ le32_bytes w1 @ le32_bytes w2 @ le32_bytes w3 =
     key_word Nk key (4 * r) @ key_word Nk key (4 * r + 1) @ key_word Nk key (4 * r + 2) @ key_word Nk key (4 * r + 3)"
  by (simp add: fips_round_key_def upt_rec numeral_3_eq_3)

lemma round_key_words:
  assumes "length key = 4 * Nk" "0 < Nk" and "bytes_le [w0, w1, w2, w3] = fips_round_key Nk key r"
  shows "le32_bytes w0 = key_word Nk key (4 * r)" "le32_bytes w1 = key_word Nk key (4 * r + 1)"
    "le32_bytes w2 = key_word Nk key (4 * r + 2)" "le32_bytes w3 = key_word Nk key (4 * r + 3)"
  using assms(3) unfolding bytes_le_round_key by (simp_all add: length_key_word [OF assms(1,2)])

lemma le32_bytes_xor: "le32_bytes (x XOR y) = AddRoundKey (le32_bytes x) (le32_bytes y)"
  by (rule le32_cases [of x], rule le32_cases [of y]) (simp add: le32_xor AddRoundKey_def)

lemma AddRoundKey_commute: "AddRoundKey a b = AddRoundKey b a"
  unfolding AddRoundKey_def by (subst zip_commute) (simp add: xor.commute case_prod_beta comp_def)

text \<open>Three of four words of a round key are the exor of their neighbours.\<close>

lemma key_word_plain:
  assumes "Nk = 4 \<or> Nk = 8" and "Nk \<le> 4 * r" and "j \<in> {1, 2, 3}"
  shows "key_word Nk key (4 * r + j) = AddRoundKey (key_word Nk key (4 * r + j - 1)) (key_word Nk key (4 * r + j - Nk))"
proof -
  have "(4 * r + j) mod Nk \<noteq> 0" "(4 * r + j) mod Nk \<noteq> 4 \<or> Nk = 4"
    using assms(1,3) by (elim disjE; auto; presburger)+
  then show ?thesis
    using assms by (subst key_word.simps) (auto simp: Let_def AddRoundKey_commute)
qed

lemma key_word_first:
  assumes "Nk \<le> i" and "i mod Nk = 0" and "0 < Nk"
  shows "key_word Nk key i =
    AddRoundKey (AddRoundKey (SubBytes (RotWord (key_word Nk key (i - 1)))) (Rcon (i div Nk))) (key_word Nk key (i - Nk))"
  using assms by (subst key_word.simps) (simp add: Let_def AddRoundKey_commute)

lemma key_word_middle:
  assumes "8 \<le> i" and "i mod 8 = 4"
  shows "key_word 8 key i = AddRoundKey (SubBytes (key_word 8 key (i - 1))) (key_word 8 key (i - 8))"
  using assms by (subst key_word.simps) (simp add: Let_def AddRoundKey_commute)

text \<open>The first word of the munged round keys of the source, in octets.\<close>

lemma munge_rot:
  assumes "length prev = 4" and "le32_bytes (prev ! 3) = w"
  shows "le32_bytes (le32 (sbox (bytes_le prev ! 13) XOR rc) (sbox (bytes_le prev ! 14)) (sbox (bytes_le prev ! 15))
    (sbox (bytes_le prev ! 12))) = AddRoundKey (SubBytes (RotWord w)) [rc, 0, 0, 0]"
  by (rule v128_cases [OF assms(1)]) (simp add: assms(2) [symmetric] AddRoundKey_def SubBytes_def RotWord_def)

lemma munge_plain:
  assumes "length prev = 4" and "le32_bytes (prev ! 3) = w"
  shows "le32_bytes (le32 (sbox (bytes_le prev ! 12)) (sbox (bytes_le prev ! 13)) (sbox (bytes_le prev ! 14))
    (sbox (bytes_le prev ! 15))) = SubBytes w"
  by (rule v128_cases [OF assms(1)]) (simp add: assms(2) [symmetric] SubBytes_def)

text \<open>
  A new round key \<open>[w0, w1, w2, w3]\<close> built from its first word and the words \<open>v\<close> of the round key
  \<open>Nk div 4\<close> rounds before.
\<close>

lemma next_round_key:
  assumes Nk: "Nk = 4 \<or> Nk = 8" "length key = 4 * Nk" "Nk \<le> 4 * r"
    and v: "length v = 4" "bytes_le v = fips_round_key Nk key (r - Nk div 4)"
    and t: "AddRoundKey (le32_bytes t) (key_word Nk key (4 * r - Nk)) = key_word Nk key (4 * r)"
  defines "w0 \<equiv> t XOR v ! 0"
  defines "w1 \<equiv> w0 XOR v ! 1"
  defines "w2 \<equiv> w1 XOR v ! 2"
  shows "bytes_le [w0, w1, w2, w2 XOR v ! 3] = fips_round_key Nk key r"
proof -
  have pos: "0 < Nk" using Nk(1) by auto
  obtain v0 v1 v2 v3 where v': "v = [v0, v1, v2, v3]"
    using v(1) by (auto simp: length_Suc_conv eval_nat_numeral)
  have idx: "4 * (r - Nk div 4) + j = 4 * r + j - Nk" for j using Nk(1,3) by auto
  note words = round_key_words [OF Nk(2) pos v(2) [unfolded v']]
  have "le32_bytes w0 = key_word Nk key (4 * r)"
    using t words(1) idx [of 0] by (simp add: w0_def v' le32_bytes_xor)
  moreover from this have "le32_bytes w1 = key_word Nk key (4 * r + 1)"
    using words(2) idx [of 1] key_word_plain [OF Nk(1,3), of 1] by (simp add: w1_def v' le32_bytes_xor)
  moreover from this have "le32_bytes w2 = key_word Nk key (4 * r + 2)"
    using words(3) idx [of 2] key_word_plain [OF Nk(1,3), of 2] by (simp add: w2_def v' le32_bytes_xor)
  moreover from this have "le32_bytes (w2 XOR v ! 3) = key_word Nk key (4 * r + 3)"
    using words(4) idx [of 3] key_word_plain [OF Nk(1,3), of 3] by (simp add: v' le32_bytes_xor numeral_3_eq_3)
  ultimately show ?thesis unfolding bytes_le_round_key by simp
qed

lemma aes_128_next:
  assumes "length key = 16" and "length prev = 4" and "bytes_le prev = fips_round_key 4 key r"
  shows "bytes_le (aes_128_next_round_key prev ((gf2_8_shift ^^ r) 1)) = fips_round_key 4 key (Suc r)"
proof -
  obtain v0 v1 v2 v3 where v: "prev = [v0, v1, v2, v3]"
    using assms(2) by (auto simp: length_Suc_conv eval_nat_numeral)
  have "le32_bytes (prev ! 3) = key_word 4 key (4 * r + 3)"
    using round_key_words(4) [of key 4 v0 v1 v2 v3 r] assms(1,3) v by simp
  note munge = munge_rot [OF assms(2) this]
  have "key_word 4 key (4 * Suc r) =
      AddRoundKey (AddRoundKey (SubBytes (RotWord (key_word 4 key (4 * r + 3)))) (Rcon (Suc r))) (key_word 4 key (4 * r))"
    using key_word_first [of 4 "4 * Suc r" key] by (simp add: numeral_3_eq_3)
  then have t: "AddRoundKey (le32_bytes (le32 (sbox (bytes_le prev ! 13) XOR (gf2_8_shift ^^ r) 1) (sbox (bytes_le prev ! 14))
      (sbox (bytes_le prev ! 15)) (sbox (bytes_le prev ! 12)))) (key_word 4 key (4 * Suc r - 4)) = key_word 4 key (4 * Suc r)"
    unfolding munge by (simp add: Rcon_def)
  show ?thesis
    unfolding aes_128_next_round_key_def Let_def by (rule next_round_key [OF _ _ _ _ _ t]) (use assms in simp_all)
qed

lemma aes_256_next:
  assumes "length key = 32" and "length prev = 4" and "bytes_le prev = fips_round_key 8 key (Suc r)"
    and "length prev2 = 4" and "bytes_le prev2 = fips_round_key 8 key r"
  shows "bytes_le (aes_256_next_round_key (Suc (Suc r)) prev2 prev ((gf2_8_shift ^^ (Suc r div 2)) 1)) =
    fips_round_key 8 key (Suc (Suc r))"
proof -
  let ?rc = "(gf2_8_shift ^^ (Suc r div 2)) 1" and ?p = "\<lambda>i. sbox (bytes_le prev ! i)"
  let ?t = "if Suc (Suc r) mod 2 = 0 then le32 (?p 13 XOR ?rc) (?p 14) (?p 15) (?p 12)
            else le32 (?p 12) (?p 13) (?p 14) (?p 15)"
  obtain v0 v1 v2 v3 where v: "prev = [v0, v1, v2, v3]"
    using assms(2) by (auto simp: length_Suc_conv eval_nat_numeral)
  have p3: "le32_bytes (prev ! 3) = key_word 8 key (4 * r + 7)"
    using round_key_words(4) [of key 8 v0 v1 v2 v3 "Suc r"] assms(1,3) v by (simp add: add.commute)
  have i: "4 * r + 8 - 1 = 4 * r + 7" "4 * r + 8 - 8 = 4 * r" "4 * Suc (Suc r) = 4 * r + 8" by simp_all
  have t: "AddRoundKey (le32_bytes ?t) (key_word 8 key (4 * Suc (Suc r) - 8)) = key_word 8 key (4 * Suc (Suc r))"
  proof (cases "r mod 2 = 0")
    case True
    then have r: "Suc r div 2 = r div 2" "(4 * r + 8) mod 8 = 0" "(4 * r + 8) div 8 = Suc (r div 2)"
      "Suc (Suc r) mod 2 = 0" by presburger+
    have "key_word 8 key (4 * r + 8) =
        AddRoundKey (AddRoundKey (SubBytes (RotWord (key_word 8 key (4 * r + 7)))) (Rcon (Suc (r div 2)))) (key_word 8 key (4 * r))"
      using key_word_first [of 8 "4 * r + 8" key] unfolding r i by simp
    then show ?thesis
      unfolding if_P [OF r(4)] munge_rot [OF assms(2) p3] i r(1) by (simp add: Rcon_def)
  next
    case False
    then have r: "(4 * r + 8) mod 8 = 4" "Suc (Suc r) mod 2 \<noteq> 0" by presburger+
    have "key_word 8 key (4 * r + 8) = AddRoundKey (SubBytes (key_word 8 key (4 * r + 7))) (key_word 8 key (4 * r))"
      using key_word_middle [of "4 * r + 8" key] r unfolding i by simp
    then show ?thesis
      unfolding if_not_P [OF r(2)] munge_plain [OF assms(2) p3] i by simp
  qed
  show ?thesis
    unfolding aes_256_next_round_key_def Let_def by (rule next_round_key [OF _ _ _ _ _ t]) (use assms in simp_all)
qed

lemma first_round_keys:
  assumes "length key = 4 * Nk" and "4 * r + 4 \<le> Nk"
  shows "fips_round_key Nk key r = take 16 (drop (16 * r) key)"
proof -
  have "take 16 (drop (16 * r) key) = take 4 (drop (4 * (4 * r)) key) @ take 4 (drop (4 * (4 * r + 1)) key) @
      take 4 (drop (4 * (4 * r + 2)) key) @ take 4 (drop (4 * (4 * r + 3)) key)"
    using take_add [of 4 12 "drop (16 * r) key"] take_add [of 4 8 "drop (16 * r + 4) key"]
      take_add [of 4 4 "drop (16 * r + 8) key"] by (simp add: add.commute)
  then show ?thesis
    using assms by (simp add: fips_round_key_def upt_rec key_word.simps numeral_3_eq_3)
qed

lemma schedule_update:
  assumes "schedule rk w n" and "Suc n < length rk" and "length k = 4" and "bytes_le k = w (Suc n)"
  shows "schedule (rk[Suc n := k]) w (Suc n)"
  using assms by (auto simp: schedule_def nth_list_update le_Suc_eq)

lemma length_next_round_key [simp]:
  "length (aes_128_next_round_key prev rc) = 4" "length (aes_256_next_round_key i prev2 prev rc) = 4"
  by (simp_all add: aes_128_next_round_key_def aes_256_next_round_key_def Let_def)

lemma words_le_16: "length k = 16 \<Longrightarrow> length (words_le k) = 4 \<and> bytes_le (words_le k) = k"
  by simp

lemma aes_128_loop:
  assumes "length key = 16" and "length rk = 15" and "schedule rk (fips_round_key 4 key) 0" and "n \<le> 10"
  shows "\<exists>rk'. fold (\<lambda>i (rk, rc). (rk[i := aes_128_next_round_key (rk ! (i - 1)) rc], gf2_8_shift rc))
      [1..<Suc n] (rk, 1) = (rk', (gf2_8_shift ^^ n) 1) \<and>
    length rk' = 15 \<and> schedule rk' (fips_round_key 4 key) n"
  using assms(4)
proof (induction n)
  case 0
  then show ?case using assms by simp
next
  case (Suc n)
  then obtain rk' where rk': "fold (\<lambda>i (rk, rc). (rk[i := aes_128_next_round_key (rk ! (i - 1)) rc], gf2_8_shift rc))
      [1..<Suc n] (rk, 1) = (rk', (gf2_8_shift ^^ n) 1)" "length rk' = 15" "schedule rk' (fips_round_key 4 key) n"
    by auto
  have "length (rk' ! n) = 4" "bytes_le (rk' ! n) = fips_round_key 4 key n"
    using rk'(3) by (auto simp: schedule_def)
  from aes_128_next [OF assms(1) this]
  have "schedule (rk'[Suc n := aes_128_next_round_key (rk' ! n) ((gf2_8_shift ^^ n) 1)]) (fips_round_key 4 key) (Suc n)"
    using rk' Suc.prems by (intro schedule_update) simp_all
  then show ?case using rk' by simp
qed

lemma aes_256_loop:
  assumes "length key = 32" and "length rk = 15" and "schedule rk (fips_round_key 8 key) 1" and "n \<le> 13"
  shows "\<exists>rk'. fold (\<lambda>i (rk, rc).
       (rk[i := aes_256_next_round_key i (rk ! (i - 2)) (rk ! (i - 1)) rc],
        if i mod 2 = 0 then gf2_8_shift rc else rc)) [2..<Suc (Suc n)] (rk, 1) =
      (rk', (gf2_8_shift ^^ (Suc n div 2)) 1) \<and>
    length rk' = 15 \<and> schedule rk' (fips_round_key 8 key) (Suc n)"
  using assms(4)
proof (induction n)
  case 0
  then show ?case using assms by (simp add: upt_rec)
next
  case (Suc n)
  let ?rc = "(gf2_8_shift ^^ (Suc n div 2)) 1"
  obtain rk' where rk': "fold (\<lambda>i (rk, rc).
       (rk[i := aes_256_next_round_key i (rk ! (i - 2)) (rk ! (i - 1)) rc],
        if i mod 2 = 0 then gf2_8_shift rc else rc)) [2..<Suc (Suc n)] (rk, 1) = (rk', ?rc)"
    "length rk' = 15" "schedule rk' (fips_round_key 8 key) (Suc n)"
    using Suc by auto
  have "length (rk' ! Suc n) = 4" "bytes_le (rk' ! Suc n) = fips_round_key 8 key (Suc n)"
    "length (rk' ! n) = 4" "bytes_le (rk' ! n) = fips_round_key 8 key n"
    using rk'(3) by (auto simp: schedule_def)
  from aes_256_next [OF assms(1) this]
  have "schedule (rk'[Suc (Suc n) := aes_256_next_round_key (Suc (Suc n)) (rk' ! n) (rk' ! Suc n) ?rc])
      (fips_round_key 8 key) (Suc (Suc n))"
    using rk' Suc.prems by (intro schedule_update) simp_all
  moreover have "(if Suc (Suc n) mod 2 = 0 then gf2_8_shift ?rc else ?rc) = (gf2_8_shift ^^ (Suc (Suc n) div 2)) 1"
  proof (cases "n mod 2 = 0")
    case True
    then have "Suc (Suc n) mod 2 = 0" "Suc (Suc n) div 2 = Suc (Suc n div 2)" by presburger+
    then show ?thesis by simp
  next
    case False
    then have "Suc (Suc n) mod 2 \<noteq> 0" "Suc (Suc n) div 2 = Suc n div 2" by presburger+
    then show ?thesis by (simp only: if_False)
  qed
  moreover have "[2..<Suc (Suc (Suc n))] = [2..<Suc (Suc n)] @ [Suc (Suc n)]" by simp
  ultimately show ?case using rk' by (simp del: upt_Suc)
qed

text \<open>Expansion for encryption succeeds on a key of 16 or 32 octets and yields the schedule of FIPS 197.\<close>

lemma aes_expand_encryption_key_schedule:
  assumes "length key = 16 \<or> length key = 32" and "length (round_key ek) = 15"
  obtains ek' where "aes_expand_encryption_key key (int (length key)) ek = Some (err_status_ok, ek')"
    "length (round_key ek') = 15" "num_rounds ek' = int (length key div 4 + 6)"
    "schedule (round_key ek') (fips_round_key (length key div 4) key) (length key div 4 + 6)"
  using assms(1)
proof
  assume key: "length key = 16"
  let ?rk = "(round_key ek)[0 := words_le (take 16 key)]"
  have "schedule ?rk (fips_round_key 4 key) 0"
    using words_le_16 [of key] assms(2) key first_round_keys [of key 4 0] by (simp add: schedule_def)
  from aes_128_loop [OF key _ this order_refl] assms(2)
  obtain rk' where rk': "fold (\<lambda>i (rk, rc). (rk[i := aes_128_next_round_key (rk ! (i - 1)) rc], gf2_8_shift rc))
      [1..<Suc 10] (?rk, 1) = (rk', (gf2_8_shift ^^ 10) 1)" "length rk' = 15" "schedule rk' (fips_round_key 4 key) 10"
    by auto
  have s11: "Suc 10 = 11" by simp
  show ?thesis
    by (rule that [of "ek\<lparr>round_key := rk', num_rounds := 10\<rparr>"])
      (use key rk' in \<open>simp_all add: aes_expand_encryption_key_def aes_128_expand_encryption_key_def
        v128_copy_octet_string_def s11 del: upt_Suc upt_conv_Cons_Cons upt_rec_numeral\<close>)
next
  assume key: "length key = 32"
  let ?rk = "(round_key ek)[0 := words_le (take 16 key), 1 := words_le (take 16 (drop 16 key))]"
  have "schedule ?rk (fips_round_key 8 key) 1"
    using words_le_16 [of "take 16 key"] words_le_16 [of "take 16 (drop 16 key)"] assms(2) key
      first_round_keys [of key 8 0] first_round_keys [of key 8 1]
    by (auto simp: schedule_def nth_list_update le_Suc_eq)
  from aes_256_loop [OF key _ this order_refl] assms(2) length_list_update
  obtain rk' where rk': "fold (\<lambda>i (rk, rc).
       (rk[i := aes_256_next_round_key i (rk ! (i - 2)) (rk ! (i - 1)) rc],
        if i mod 2 = 0 then gf2_8_shift rc else rc)) [2..<Suc (Suc 13)] (?rk, 1) =
      (rk', (gf2_8_shift ^^ (Suc 13 div 2)) 1)" "length rk' = 15" "schedule rk' (fips_round_key 8 key) (Suc 13)"
    by metis
  have s15: "Suc (Suc 13) = 15" by simp
  show ?thesis
    by (rule that [of "ek\<lparr>round_key := rk', num_rounds := 14\<rparr>"])
      (use key rk' in \<open>simp_all add: aes_expand_encryption_key_def aes_256_expand_encryption_key_def
        v128_copy_octet_string_def s15 del: upt_Suc upt_conv_Cons_Cons upt_rec_numeral\<close>)
qed

text \<open>
  C9. AES encryption: expanding a key of 16 or 32 octets succeeds, and \<^verbatim>\<open>aes_encrypt\<close> with the expanded
  key, by its T-tables, computes the cipher of FIPS 197 on every block.
\<close>

theorem aes_encrypt_correct:
  assumes "length key = 16 \<or> length key = 32" and "length (round_key ek) = 15" and "length p = 4"
  shows "\<exists>ek'. aes_expand_encryption_key key (int (length key)) ek = Some (err_status_ok, ek') \<and>
    bytes_le (aes_encrypt p ek') = fips_aes key (bytes_le p)"
proof -
  obtain ek' where ek': "aes_expand_encryption_key key (int (length key)) ek = Some (err_status_ok, ek')"
    "num_rounds ek' = int (length key div 4 + 6)"
    "schedule (round_key ek') (fips_round_key (length key div 4) key) (length key div 4 + 6)"
    using aes_expand_encryption_key_schedule [OF assms(1,2)] by metis
  have "bytes_le (aes_encrypt p ek') = fips_aes key (bytes_le p)"
    unfolding fips_aes_def by (rule aes_encrypt_schedule [OF ek'(3,2) _ assms(3)]) (use assms(1) in auto)
  with ek'(1) show ?thesis by blast
qed

theorem aes_encrypt_correct_witness:
  "\<exists>ek'. aes_expand_encryption_key (replicate 16 7) 16 \<lparr>round_key = replicate 15 [], num_rounds = 3\<rparr> = Some (err_status_ok, ek') \<and>
    bytes_le (aes_encrypt [1, 2, 3, 4] ek') = fips_aes (replicate 16 7) (bytes_le [1, 2, 3, 4])"
  using aes_encrypt_correct [of "replicate 16 7" "\<lparr>round_key = replicate 15 [], num_rounds = 3\<rparr>" "[1, 2, 3, 4]"]
  by simp

section \<open>Decryption\<close>

definition InvShiftRows :: "octets \<Rightarrow> octets" where
  "InvShiftRows s = map (\<lambda>i. s ! ((i + 12 * (i mod 4)) mod 16)) [0..<16]"

definition inv_mix_column :: "u8 \<Rightarrow> u8 \<Rightarrow> u8 \<Rightarrow> u8 \<Rightarrow> octets" where
  "inv_mix_column a b c d =
     [mul14 a XOR mul11 b XOR mul13 c XOR mul9 d, mul9 a XOR mul14 b XOR mul11 c XOR mul13 d,
      mul13 a XOR mul9 b XOR mul14 c XOR mul11 d, mul11 a XOR mul13 b XOR mul9 c XOR mul14 d]"

fun InvMixColumns :: "octets \<Rightarrow> octets" where
  "InvMixColumns (a # b # c # d # s) = inv_mix_column a b c d @ InvMixColumns s"
| "InvMixColumns _ = []"

lemma gf2_8_shift_bit: "gf2_8_shift z = push_bit 1 z XOR (if bit z 7 then 0x1B else 0)"
  using bit_iff_and_push_bit_not_eq_0 [of z 7] by (simp add: gf2_8_shift_def gf2_8_field_polynomial_def)

lemma gf2_8_shift_xor [simp]: "gf2_8_shift (x XOR y) = gf2_8_shift x XOR gf2_8_shift y"
  by (simp add: gf2_8_shift_bit bit_xor_iff push_bit_xor xor.assoc xor.left_commute xor.commute)

lemmas mul_defs = mul9_def mul11_def mul13_def mul14_def
lemmas xor_ac = xor.assoc xor.left_commute xor.commute

lemma inv_mix_column_mix_column:
  "mix_column a b c d = [a', b', c', d'] \<Longrightarrow> inv_mix_column a' b' c' d' = [a, b, c, d]"
  by (auto simp: mix_column_def inv_mix_column_def mul_defs xor_ac)

lemma octets16_cases:
  assumes "length s = 16"
  obtains a b c d e f g h i j k l m n p q where "s = [a, b, c, d, e, f, g, h, i, j, k, l, m, n, p, q]"
  using assms by (auto simp: length_Suc_conv eval_nat_numeral)

lemma InvMixColumns_MixColumns:
  assumes "length s = 16"
  shows "InvMixColumns (MixColumns s) = s"
  by (rule octets16_cases [OF assms])
    (simp add: mix_column_def inv_mix_column_mix_column [OF mix_column_def, simplified])

lemma InvMixColumns_AddRoundKey:
  assumes "length s = 16" and "length k = 16"
  shows "InvMixColumns (AddRoundKey s k) = AddRoundKey (InvMixColumns s) (InvMixColumns k)"
  by (rule octets16_cases [OF assms(1)], rule octets16_cases [OF assms(2)])
    (simp add: AddRoundKey_def inv_mix_column_def mul_defs xor_ac)

lemma InvShiftRows_round:
  assumes "length s = 16"
  shows "InvShiftRows (map inv_sbox (ShiftRows (SubBytes s))) = s"
  by (rule octets16_cases [OF assms]) (simp add: InvShiftRows_def ShiftRows_def SubBytes_def upt_rec)

lemma AddRoundKey_twice: "length s = length k \<Longrightarrow> AddRoundKey (AddRoundKey s k) k = s"
  by (induction s k rule: list_induct2) (simp_all add: AddRoundKey_def xor_ac)

lemma aes_inv_round_fips:
  assumes "length s = 4" and "length k = 4"
  shows "bytes_le (aes_inv_round s k) =
    AddRoundKey (InvMixColumns (InvShiftRows (map inv_sbox (bytes_le s)))) (bytes_le k)"
  by (rule v128_cases [OF assms(1)], rule v128_cases [OF assms(2)])
    (simp add: aes_inv_round_def Let_def U_entry le32_xor AddRoundKey_def InvShiftRows_def
      inv_mix_column_def upt_rec xor_ac)

lemma aes_inv_final_round_fips:
  assumes "length s = 4" and "length k = 4"
  shows "bytes_le (aes_inv_final_round s k) = AddRoundKey (InvShiftRows (map inv_sbox (bytes_le s))) (bytes_le k)"
  by (rule v128_cases [OF assms(1)], rule v128_cases [OF assms(2)])
    (simp add: aes_inv_final_round_def Let_def v128_xor_eq_def le32_xor AddRoundKey_def InvShiftRows_def upt_rec)

lemma aes_inv_mix_round_key_fips:
  assumes "length k = 4"
  shows "bytes_le (aes_inv_mix_round_key k) = InvMixColumns (bytes_le k)"
  by (rule v128_cases [OF assms])
    (simp add: aes_inv_mix_round_key_def Let_def U_entry le32_xor inv_mix_column_def)

text \<open>
  The equivalent inverse cipher: with the round keys of \<open>w\<close> in reverse order, the inner ones behind
  the inverse \<^verbatim>\<open>MixColumns\<close>, the inverse rounds undo the rounds one by one.
\<close>

definition fips_inv_cipher :: "nat \<Rightarrow> (nat \<Rightarrow> octets) \<Rightarrow> octets \<Rightarrow> octets" where
  "fips_inv_cipher Nr v s =
     (let s = AddRoundKey s (v 0);
          s = fold (\<lambda>r s. AddRoundKey (InvMixColumns (InvShiftRows (map inv_sbox s))) (v r)) [1..<Nr] s
      in AddRoundKey (InvShiftRows (map inv_sbox s)) (v Nr))"

lemma length_rows_columns [simp]:
  "length (ShiftRows s) = 16" "length (SubBytes s) = length s"
  by (simp_all add: ShiftRows_def SubBytes_def)

lemma length_MixColumns [simp]: "length s = 16 \<Longrightarrow> length (MixColumns s) = 16"
  by (erule octets16_cases) (simp add: mix_column_def)

lemma length_rounds:
  assumes "length s = 16" and "\<And>i. i \<le> n \<Longrightarrow> length (w i) = 16" and "r \<le> Suc n"
  shows "length (fold (\<lambda>r s. AddRoundKey (MixColumns (ShiftRows (SubBytes s))) (w r)) [1..<r] s) = 16"
  using assms(3)
proof (induction r)
  case (Suc r)
  then show ?case using assms by (cases "r = 0") auto
qed (use assms(1) in simp)

lemma fips_inv_cipher_cipher:
  assumes w: "\<And>i. i \<le> n \<Longrightarrow> length (w i) = 16" and p: "length p = 16" and "0 < n"
    and v: "v 0 = w n" "v n = w 0" "\<And>i. 0 < i \<Longrightarrow> i < n \<Longrightarrow> v i = InvMixColumns (w (n - i))"
  shows "fips_inv_cipher n v (fips_cipher n w p) = p"
proof -
  let ?R = "\<lambda>r s. AddRoundKey (MixColumns (ShiftRows (SubBytes s))) (w r)"
  let ?I = "\<lambda>r s. AddRoundKey (InvMixColumns (InvShiftRows (map inv_sbox s))) (v r)"
  define e where "e r = fold ?R [1..<Suc r] (AddRoundKey p (w 0))" for r
  have len: "length (e r) = 16" if "r < n" for r
    unfolding e_def using length_rounds [of "AddRoundKey p (w 0)" n w "Suc r"] w p that by simp
  have e_Suc: "e (Suc r) = ?R (Suc r) (e r)" for r by (simp add: e_def)
  have "fold ?I [1..<Suc i] (ShiftRows (SubBytes (e (n - 1)))) = ShiftRows (SubBytes (e (n - 1 - i)))"
    if "i < n" for i
    using that
  proof (induction i)
    case (Suc i)
    define r where "r = n - 1 - Suc i"
    have r: "n - 1 - i = Suc r" "n - Suc i = Suc r" "Suc r < n" using Suc.prems by (auto simp: r_def)
    have "fold ?I [1..<Suc (Suc i)] (ShiftRows (SubBytes (e (n - 1)))) = ?I (Suc i) (ShiftRows (SubBytes (e (Suc r))))"
      using Suc.IH Suc.prems r by simp
    also have "\<dots> = AddRoundKey (InvMixColumns (e (Suc r))) (InvMixColumns (w (Suc r)))"
      using v(3) [of "Suc i"] Suc.prems r len [of "Suc r"] by (simp add: InvShiftRows_round)
    also have "\<dots> = InvMixColumns (AddRoundKey (e (Suc r)) (w (Suc r)))"
      using len [of "Suc r"] w [of "Suc r"] r by (simp add: InvMixColumns_AddRoundKey)
    also have "\<dots> = ShiftRows (SubBytes (e r))"
      using w [of "Suc r"] r len [of r] by (simp add: e_Suc AddRoundKey_twice InvMixColumns_MixColumns)
    finally show ?case by (simp add: r_def)
  qed simp
  from this [of "n - 1"] \<open>0 < n\<close> have inner: "fold ?I [1..<n] (ShiftRows (SubBytes (e (n - 1)))) = ShiftRows (SubBytes (e 0))"
    by simp
  have "fips_cipher n w p = AddRoundKey (ShiftRows (SubBytes (e (n - 1)))) (w n)"
    using \<open>0 < n\<close> by (simp add: fips_cipher_def Let_def e_def)
  then have "fips_inv_cipher n v (fips_cipher n w p) = AddRoundKey (InvShiftRows (map inv_sbox (ShiftRows (SubBytes (e 0))))) (w 0)"
    using w [of n] inner by (simp add: fips_inv_cipher_def Let_def v AddRoundKey_twice)
  also have "\<dots> = p"
    using len [of 0] \<open>0 < n\<close> w [of 0] p by (simp add: InvShiftRows_round) (simp add: e_def AddRoundKey_twice)
  finally show ?thesis .
qed

lemma swap_loop:
  assumes "m \<le> n div 2" and "n < length rk"
  shows "length (fold (\<lambda>i rk. rk[n - i := rk ! i, i := rk ! (n - i)]) [0..<m] rk) = length rk \<and>
    (\<forall>j \<le> n. fold (\<lambda>i rk. rk[n - i := rk ! i, i := rk ! (n - i)]) [0..<m] rk ! j =
       (if j < m \<or> n < j + m then rk ! (n - j) else rk ! j))"
  using assms(1)
proof (induction m)
  case (Suc m)
  then show ?case using assms(2) by (auto simp: nth_list_update)
qed simp

lemma length_aes_inv_mix_round_key [simp]: "length (aes_inv_mix_round_key k) = 4"
  by (simp add: aes_inv_mix_round_key_def Let_def)

lemma mix_loop:
  assumes "n \<le> length rk" and "j < length rk"
  shows "fold (\<lambda>i rk. rk[i := g (rk ! i)]) [1..<n] rk ! j = (if 0 < j \<and> j < n then g (rk ! j) else rk ! j)"
  using assms(1)
proof (induction n)
  case (Suc n)
  then show ?case using assms(2) by (cases "n = 0") (auto simp: nth_list_update less_Suc_eq)
qed simp

lemma length_fips_round_key: "length key = 4 * Nk \<Longrightarrow> 0 < Nk \<Longrightarrow> length (fips_round_key Nk key r) = 16"
  by (simp add: fips_round_key_def upt_rec length_key_word)

lemma aes_expand_decryption_key_schedule:
  assumes key: "length key = 16 \<or> length key = 32" and ek: "length (round_key ek) = 15"
    and n: "n = length key div 4 + 6" "num_rounds ek = int n"
  defines "w \<equiv> fips_round_key (length key div 4) key"
  obtains d where "aes_expand_decryption_key key (int (length key)) ek = Some (err_status_ok, d)"
    "num_rounds d = int n"
    "schedule (round_key d) (\<lambda>i. if 0 < i \<and> i < n then InvMixColumns (w (n - i)) else w (n - i)) n"
proof -
  obtain e where e: "aes_expand_encryption_key key (int (length key)) ek = Some (err_status_ok, e)"
    "length (round_key e) = 15" "num_rounds e = int n" "schedule (round_key e) w n"
    using aes_expand_encryption_key_schedule [OF key ek] unfolding w_def n(1) by metis
  define rk1 where "rk1 = fold (\<lambda>i rk. rk[n - i := rk ! i, i := rk ! (n - i)]) [0..<n div 2] (round_key e)"
  define rk2 where "rk2 = fold (\<lambda>i rk. rk[i := aes_inv_mix_round_key (rk ! i)]) [1..<n] rk1"
  have n14: "n \<le> 14" "even n" using key n(1) by auto
  have mid: "n - j = j" if "\<not> j < n div 2" "\<not> n < j + n div 2" for j
    using n14(2) that by (auto elim!: evenE)
  have rk1: "length rk1 = 15" "\<And>j. j \<le> n \<Longrightarrow> rk1 ! j = round_key e ! (n - j)"
    using swap_loop [of "n div 2" n "round_key e"] e(2) n14(1) mid unfolding rk1_def by auto
  have rk2: "rk2 ! j = (if 0 < j \<and> j < n then aes_inv_mix_round_key (rk1 ! j) else rk1 ! j)" if "j \<le> n" for j
    unfolding rk2_def by (rule mix_loop) (use rk1(1) n14 that in simp_all)
  have "schedule rk2 (\<lambda>i. if 0 < i \<and> i < n then InvMixColumns (w (n - i)) else w (n - i)) n"
    using e(4) by (auto simp: schedule_def rk2 rk1(2) aes_inv_mix_round_key_fips)
  moreover have "aes_expand_decryption_key key (int (length key)) ek = Some (err_status_ok, e\<lparr>round_key := rk2\<rparr>)"
    using e(1) n(2) n14 by (simp add: aes_expand_decryption_key_def Let_def rk1_def rk2_def)
  ultimately show ?thesis using that [of "e\<lparr>round_key := rk2\<rparr>"] e(3) by simp
qed

lemma aes_inv_rounds_fips:
  assumes "length s = 4" and "\<And>i. i \<in> set is \<Longrightarrow> length (rk ! i) = 4"
  shows "bytes_le (fold (\<lambda>i s. aes_inv_round s (rk ! i)) is s) =
    fold (\<lambda>r s. AddRoundKey (InvMixColumns (InvShiftRows (map inv_sbox s))) (bytes_le (rk ! r))) is (bytes_le s) \<and>
    length (fold (\<lambda>i s. aes_inv_round s (rk ! i)) is s) = 4"
proof -
  have [simp]: "length (aes_inv_round s k) = 4" for s k by (simp add: aes_inv_round_def Let_def)
  show ?thesis using assms by (induction "is" arbitrary: s) (simp_all add: aes_inv_round_fips)
qed

lemma aes_decrypt_schedule:
  assumes "schedule (round_key ek) w n" and "num_rounds ek = int n" and "n = 10 \<or> n = 14" and "length p = 4"
  shows "bytes_le (aes_decrypt p ek) = fips_inv_cipher n w (bytes_le p)"
proof -
  let ?rk = "round_key ek" and ?R = "\<lambda>r s. AddRoundKey (InvMixColumns (InvShiftRows (map inv_sbox s))) (w r)"
  have k: "length (?rk ! i) = 4" "bytes_le (?rk ! i) = w i" if "i \<le> n" for i
    using assms(1) that by (auto simp: schedule_def)
  define s where "s = fold (\<lambda>i s. aes_inv_round s (?rk ! i)) [1..<n] (v128_xor_eq p (?rk ! 0))"
  have "bytes_le s = fold (\<lambda>r s. AddRoundKey (InvMixColumns (InvShiftRows (map inv_sbox s))) (bytes_le (?rk ! r)))
      [1..<n] (bytes_le (v128_xor_eq p (?rk ! 0))) \<and> length s = 4"
    unfolding s_def by (rule aes_inv_rounds_fips) (simp_all add: k)
  moreover have "fold (\<lambda>r s. AddRoundKey (InvMixColumns (InvShiftRows (map inv_sbox s))) (bytes_le (?rk ! r))) [1..<n] u
      = fold ?R [1..<n] u" for u
    by (rule fold_cong) (simp_all add: k)
  ultimately have s: "bytes_le s = fold ?R [1..<n] (AddRoundKey (bytes_le p) (w 0))" "length s = 4"
    using v128_xor_eq_bytes [OF assms(4) k(1) [of 0]] k(2) [of 0] by simp_all
  have split: "[1..<14] = [1..<10] @ [10..<14]" using upt_add_eq_append [of 1 10 4] by simp
  have "aes_decrypt p ek = aes_inv_final_round s (?rk ! n)"
    using assms(2,3) unfolding aes_decrypt_def Let_def s_def by (elim disjE) (simp_all only: split fold_append comp_apply, simp_all)
  then show ?thesis
    using aes_inv_final_round_fips [OF s(2) k(1) [of n]] k(2) [of n] by (simp add: fips_inv_cipher_def Let_def s(1))
qed

lemma bytes_le_inject: "bytes_le a = bytes_le b \<Longrightarrow> a = b"
  by (metis words_le_bytes_le)

lemma length_aes_encrypt:
  assumes "num_rounds ek = 10 \<or> num_rounds ek = 14"
  shows "length (aes_encrypt p ek) = 4"
  using assms by (auto simp: aes_encrypt_def aes_final_round_def Let_def simp del: upt_rec_numeral)

lemma length_aes_decrypt:
  assumes "num_rounds ek = 10 \<or> num_rounds ek = 14"
  shows "length (aes_decrypt p ek) = 4"
  using assms by (auto simp: aes_decrypt_def aes_inv_final_round_def Let_def simp del: upt_rec_numeral)

text \<open>\<open>aes_dec_schedule rk w n\<close>: \<open>rk\<close> holds the round keys of the equivalent inverse cipher.\<close>

definition aes_dec_schedule :: "v128_t list \<Rightarrow> (nat \<Rightarrow> octets) \<Rightarrow> nat \<Rightarrow> bool" where
  "aes_dec_schedule rk w n \<longleftrightarrow>
     schedule rk (\<lambda>i. if 0 < i \<and> i < n then InvMixColumns (w (n - i)) else w (n - i)) n"

lemma aes_decrypt_schedules:
  assumes "schedule (round_key e) w n" and "num_rounds e = int n" and "aes_dec_schedule (round_key d) w n"
    and "num_rounds d = int n" and n: "n = 10 \<or> n = 14" and w: "\<And>i. length (w i) = 16" and p: "length p = 4"
  shows "aes_decrypt (aes_encrypt p e) d = p"
proof -
  let ?v = "\<lambda>i. if 0 < i \<and> i < n then InvMixColumns (w (n - i)) else w (n - i)"
  have len: "length (aes_encrypt p e) = 4" using n assms(2) by (intro length_aes_encrypt) auto
  have "bytes_le (aes_decrypt (aes_encrypt p e) d) = fips_inv_cipher n ?v (fips_cipher n w (bytes_le p))"
    using aes_decrypt_schedule [OF assms(3) [unfolded aes_dec_schedule_def] assms(4) n len]
      aes_encrypt_schedule [OF assms(1,2) n p] by simp
  also have "\<dots> = bytes_le p"
    by (rule fips_inv_cipher_cipher) (use w n p in auto)
  finally show ?thesis by (rule bytes_le_inject)
qed

text \<open>
  C29. Decryption inverts encryption: with a key of 16 or 32 octets, provided the structure handed to
  \<^verbatim>\<open>aes_expand_decryption_key\<close> already holds the number of rounds of that key length (the function
  reads it before the expansion stores it).
\<close>

theorem aes_decrypt_encrypt:
  assumes "length key = 16 \<or> length key = 32" and "length (round_key ek) = 15" and "length (round_key dk) = 15"
    and "num_rounds dk = int (length key div 4 + 6)" and "length p = 4"
  shows "\<exists>e d. aes_expand_encryption_key key (int (length key)) ek = Some (err_status_ok, e) \<and>
    aes_expand_decryption_key key (int (length key)) dk = Some (err_status_ok, d) \<and>
    aes_decrypt (aes_encrypt p e) d = p"
proof -
  define n w where "n = length key div 4 + 6" and "w = fips_round_key (length key div 4) key"
  have n: "n = 10 \<or> n = 14" using assms(1) by (auto simp: n_def)
  obtain e where e: "aes_expand_encryption_key key (int (length key)) ek = Some (err_status_ok, e)"
    "num_rounds e = int n" "schedule (round_key e) w n"
    using aes_expand_encryption_key_schedule [OF assms(1,2)] unfolding n_def w_def by metis
  obtain d where d: "aes_expand_decryption_key key (int (length key)) dk = Some (err_status_ok, d)"
    "num_rounds d = int n" "aes_dec_schedule (round_key d) w n"
    unfolding w_def aes_dec_schedule_def
    by (rule aes_expand_decryption_key_schedule [OF assms(1,3) n_def]) (use assms(4) in \<open>simp_all add: n_def\<close>)
  have "length (w i) = 16" for i
    unfolding w_def by (rule length_fips_round_key) (use assms(1) in auto)
  with aes_decrypt_schedules [OF e(3,2) d(3,2) n _ assms(5)] e(1) d(1) show ?thesis by blast
qed

theorem aes_decrypt_encrypt_witness:
  "\<exists>e d. aes_expand_encryption_key (replicate 32 9) 32 \<lparr>round_key = replicate 15 [], num_rounds = 3\<rparr> = Some (err_status_ok, e) \<and>
    aes_expand_decryption_key (replicate 32 9) 32 \<lparr>round_key = replicate 15 [], num_rounds = 14\<rparr> = Some (err_status_ok, d) \<and>
    aes_decrypt (aes_encrypt [1, 2, 3, 4] e) d = [1, 2, 3, 4]"
  using aes_decrypt_encrypt [of "replicate 32 9" "\<lparr>round_key = replicate 15 [], num_rounds = 3\<rparr>"
      "\<lparr>round_key = replicate 15 [], num_rounds = 14\<rparr>" "[1, 2, 3, 4]"]
  by simp

text \<open>
  With a structure whose round count is still zero, \<^verbatim>\<open>aes_expand_decryption_key\<close> reports success but
  leaves the round keys in encryption order: the result is the encryption schedule.
\<close>

theorem aes_expand_decryption_key_unset:
  assumes "num_rounds ek = 0"
  shows "aes_expand_decryption_key key key_len ek = aes_expand_encryption_key key key_len ek"
proof (cases "aes_expand_encryption_key key key_len ek")
  case (Some r)
  then show ?thesis
    using assms by (cases r) (auto simp: aes_expand_decryption_key_def)
qed (simp add: aes_expand_decryption_key_def)

theorem aes_expand_decryption_key_unset_witness:
  "aes_expand_decryption_key (replicate 16 7) 16 \<lparr>round_key = replicate 15 [], num_rounds = 0\<rparr> =
   aes_expand_encryption_key (replicate 16 7) 16 \<lparr>round_key = replicate 15 [], num_rounds = 0\<rparr>"
  by (rule aes_expand_decryption_key_unset) simp

end
