(* ===== verification/Aes_Icm.thy ===== *)
theory Aes_Icm
  imports Aes
begin

text \<open>
  \<^verbatim>\<open>srtp/crypto/cipher/aes_icm.c\<close>: AES in integer counter mode. The theorems show that a context is
  a position in the keystream that FIPS 197 defines for its key and start value: every call of
  \<^verbatim>\<open>aes_icm_encrypt\<close> exors the next octets of that keystream into the buffer, whatever pieces the data
  comes in, and the 16-bit block counter never wraps within a segment.
\<close>

section \<open>The implementation\<close>

record aes_icm_ctx_t =
  icm_counter :: v128_t
  icm_offset :: v128_t
  keystream_buffer :: v128_t
  icm_expanded_key :: aes_expanded_key_t
  bytes_in_buffer :: nat

text \<open>A store to the octet view of a 128-bit value.\<close>

definition set_v8 :: "v128_t \<Rightarrow> nat \<Rightarrow> u8 \<Rightarrow> v128_t" where
  "set_v8 v i x = words_le ((bytes_le v)[i := x])"

text \<open>The 16-octet copies behind the base key read two octets past a key of \<open>key_len\<close> octets.\<close>

definition aes_icm_context_init :: "aes_icm_ctx_t \<Rightarrow> octets \<Rightarrow> int \<Rightarrow> (err_status_t \<times> aes_icm_ctx_t) option" where
  "aes_icm_context_init c key key_len =
     (let base_key_len = (if key_len > 16 \<and> key_len < 30 then Some 16
                          else if key_len = 30 \<or> key_len = 38 \<or> key_len = 46 then Some (key_len - 14) else None)
      in case base_key_len of None \<Rightarrow> Some (err_status_bad_param, c)
      | Some base \<Rightarrow> do {
          salt \<leftarrow> v128_copy_octet_string (drop (nat base) key);
          let salt = set_v8 (set_v8 salt 15 0) 14 0;
          let c = c\<lparr>icm_counter := salt, icm_offset := salt\<rparr>;
          (status, ek) \<leftarrow> aes_expand_encryption_key key base (icm_expanded_key c);
          if status \<noteq> err_status_ok
          then Some (status, c\<lparr>icm_expanded_key := ek, icm_counter := v128_set_to_zero, icm_offset := v128_set_to_zero\<rparr>)
          else Some (err_status_ok, c\<lparr>icm_expanded_key := ek, bytes_in_buffer := 0\<rparr>)
        })"

text \<open>Only the first 64 bits of the counter are set; the block is not counted.\<close>

definition aes_icm_set_octet :: "aes_icm_ctx_t \<Rightarrow> u64 \<Rightarrow> err_status_t \<times> aes_icm_ctx_t" where
  "aes_icm_set_octet c octet_num =
     (let tail_num = unat (octet_num mod 16);
          block_num = octet_num div 16;
          c = c\<lparr>icm_counter := [icm_offset c ! 0 XOR ucast block_num, icm_offset c ! 1 XOR ucast (drop_bit 32 block_num),
                                icm_counter c ! 2, icm_counter c ! 3]\<rparr>
      in if tail_num \<noteq> 0
         then (err_status_ok, c\<lparr>keystream_buffer := aes_encrypt (icm_counter c) (icm_expanded_key c),
                                bytes_in_buffer := 16 - tail_num\<rparr>)
         else (err_status_ok, c\<lparr>bytes_in_buffer := 0\<rparr>))"

definition aes_icm_set_iv :: "aes_icm_ctx_t \<Rightarrow> v128_t \<Rightarrow> err_status_t \<times> aes_icm_ctx_t" where
  "aes_icm_set_iv c nonce =
     (err_status_ok, c\<lparr>icm_counter := v128_xor (icm_offset c) nonce, bytes_in_buffer := 0\<rparr>)"

definition aes_icm_advance_ismacryp :: "aes_icm_ctx_t \<Rightarrow> bool \<Rightarrow> aes_icm_ctx_t" where
  "aes_icm_advance_ismacryp c forIsmacryp =
     (let ctr = icm_counter c;
          c = c\<lparr>keystream_buffer := aes_encrypt ctr (icm_expanded_key c), bytes_in_buffer := 16\<rparr>
      in if forIsmacryp then c\<lparr>icm_counter := ctr[3 := bswap32 (bswap32 (ctr ! 3) + 1)]\<rparr>
         else
           let ctr = set_v8 ctr 15 (bytes_le ctr ! 15 + 1);
               ctr = (if bytes_le ctr ! 15 = 0 then set_v8 ctr 14 (bytes_le ctr ! 14 + 1) else ctr)
           in c\<lparr>icm_counter := ctr\<rparr>)"

text \<open>The block index: the last 16 bits of the counter in network order.\<close>

definition icm_block_index :: "v128_t \<Rightarrow> u16" where
  "icm_block_index ctr = push_bit 8 (ucast (bytes_le ctr ! 14)) OR ucast (bytes_le ctr ! 15)"

text \<open>
  Whole blocks. The source exors a block octet by octet or, when the buffer is aligned, as four
  words; \<open>xor_block_words\<close> below shows that both store the same octets.
\<close>

fun aes_icm_blocks :: "nat \<Rightarrow> aes_icm_ctx_t \<Rightarrow> octets \<Rightarrow> bool \<Rightarrow> aes_icm_ctx_t \<times> octets" where
  "aes_icm_blocks 0 c buf forIsmacryp = (c, [])"
| "aes_icm_blocks (Suc n) c buf forIsmacryp =
     (let c = aes_icm_advance_ismacryp c forIsmacryp;
          (c', out) = aes_icm_blocks n c (drop 16 buf) forIsmacryp
      in (c', map2 (XOR) (take 16 buf) (bytes_le (keystream_buffer c)) @ out))"

text \<open>\<open>buf\<close> is the data of \<^verbatim>\<open>*enc_len\<close> octets; the segment check adds in 32 bits.\<close>

definition aes_icm_encrypt_ismacryp :: "aes_icm_ctx_t \<Rightarrow> octets \<Rightarrow> bool \<Rightarrow> err_status_t \<times> aes_icm_ctx_t \<times> octets" where
  "aes_icm_encrypt_ismacryp c buf forIsmacryp =
     (if \<not> forIsmacryp \<and> (word_of_nat (length buf) :: u32) + ucast (icm_block_index (icm_counter c)) > 0xffff
      then (err_status_terminus, c, buf)
      else
        let n = length buf; k = bytes_in_buffer c; ks = drop (16 - k) (bytes_le (keystream_buffer c))
        in if n \<le> k
           then (err_status_ok, c\<lparr>bytes_in_buffer := k - n\<rparr>, map2 (XOR) buf (take n ks))
           else
             let head = map2 (XOR) (take k buf) ks;
                 rest = drop k buf;
                 m = n - k;
                 (c, body) = aes_icm_blocks (m div 16) (c\<lparr>bytes_in_buffer := 0\<rparr>) rest forIsmacryp;
                 tail = drop (16 * (m div 16)) rest
             in if m mod 16 \<noteq> 0
                then let c = aes_icm_advance_ismacryp c forIsmacryp
                     in (err_status_ok, c\<lparr>bytes_in_buffer := 16 - m mod 16\<rparr>,
                         head @ body @ map2 (XOR) tail (take (m mod 16) (bytes_le (keystream_buffer c))))
                else (err_status_ok, c\<lparr>bytes_in_buffer := 0\<rparr>, head @ body))"

definition aes_icm_encrypt :: "aes_icm_ctx_t \<Rightarrow> octets \<Rightarrow> err_status_t \<times> aes_icm_ctx_t \<times> octets" where
  "aes_icm_encrypt c buf = aes_icm_encrypt_ismacryp c buf False"

definition aes_icm_output :: "aes_icm_ctx_t \<Rightarrow> nat \<Rightarrow> err_status_t \<times> aes_icm_ctx_t \<times> octets" where
  "aes_icm_output c num_octets_to_output = aes_icm_encrypt c (replicate num_octets_to_output 0)"

section \<open>The keystream\<close>

text \<open>
  The block of keystream for a 16-octet start value and block number \<open>j\<close>: the last two octets are
  a big-endian counter.
\<close>

definition ctr_block :: "octets \<Rightarrow> nat \<Rightarrow> octets" where
  "ctr_block ctr j = (let v = unat (ctr ! 14) * 256 + unat (ctr ! 15) + j
     in take 14 ctr @ [word_of_nat (v div 256), word_of_nat v])"

definition icm_octet :: "octets \<Rightarrow> octets \<Rightarrow> nat \<Rightarrow> u8" where
  "icm_octet key ctr i = fips_aes key (ctr_block ctr (i div 16)) ! (i mod 16)"

definition icm_stream :: "octets \<Rightarrow> octets \<Rightarrow> nat \<Rightarrow> nat \<Rightarrow> octets" where
  "icm_stream key ctr pos n = map (icm_octet key ctr) [pos..<pos + n]"

lemma xor_block_words:
  assumes "length buf = 16" and "length ks = 4"
  shows "bytes_le (map2 (XOR) (words_le buf) ks) = map2 (XOR) buf (bytes_le ks)"
  using map2_xor_bytes_le [of "words_le buf" ks] assms by simp

text \<open>An expanded key that holds the schedule of \<open>key\<close>.\<close>

definition aes_keyed :: "aes_expanded_key_t \<Rightarrow> octets \<Rightarrow> bool" where
  "aes_keyed ek key \<longleftrightarrow> (length key = 16 \<or> length key = 32) \<and> num_rounds ek = int (length key div 4 + 6) \<and>
     schedule (round_key ek) (fips_round_key (length key div 4) key) (length key div 4 + 6)"

lemma aes_keyed_encrypt:
  assumes "aes_keyed ek key" and "length p = 4"
  shows "bytes_le (aes_encrypt p ek) = fips_aes key (bytes_le p)" "length (aes_encrypt p ek) = 4"
proof -
  have n: "length key div 4 + 6 = 10 \<or> length key div 4 + 6 = 14" using assms(1) by (auto simp: aes_keyed_def)
  show "bytes_le (aes_encrypt p ek) = fips_aes key (bytes_le p)"
    unfolding fips_aes_def using assms n by (intro aes_encrypt_schedule) (simp_all add: aes_keyed_def)
  show "length (aes_encrypt p ek) = 4"
    by (rule length_aes_encrypt) (use assms(1) n in \<open>auto simp: aes_keyed_def\<close>)
qed

lemma length_fips_aes:
  assumes "aes_keyed ek key" and "length b = 16"
  shows "length (fips_aes key b) = 16"
  using aes_keyed_encrypt [OF assms(1), of "words_le b"] assms(2) length_bytes_le [of "aes_encrypt (words_le b) ek"]
  by simp

lemma bytes_le_set_v8:
  "length v = 4 \<Longrightarrow> bytes_le (set_v8 v i x) = (bytes_le v)[i := x]" "length v = 4 \<Longrightarrow> length (set_v8 v i x) = 4"
  by (simp_all add: set_v8_def)

lemma length_ctr_block [simp]: "length ctr = 16 \<Longrightarrow> length (ctr_block ctr j) = 16"
  by (simp add: ctr_block_def Let_def)

lemma ctr_block_last:
  assumes "length ctr = 16"
  shows "ctr_block ctr j ! 14 = word_of_nat ((unat (ctr ! 14) * 256 + unat (ctr ! 15) + j) div 256)"
    "ctr_block ctr j ! 15 = word_of_nat (unat (ctr ! 14) * 256 + unat (ctr ! 15) + j)"
  using assms by (simp_all add: ctr_block_def Let_def nth_append)

lemma ctr_block_Suc:
  fixes j :: nat
  assumes "length ctr = 16"
  defines "b \<equiv> ctr_block ctr j"
  shows "ctr_block ctr (Suc j) =
    (let b' = b[15 := b ! 15 + 1] in if b' ! 15 = 0 then b'[14 := b' ! 14 + 1] else b')"
proof -
  define v where "v = unat (ctr ! 14) * 256 + unat (ctr ! 15) + j"
  have b: "b = take 14 ctr @ [word_of_nat (v div 256), word_of_nat v]" by (simp add: b_def ctr_block_def v_def Let_def)
  have Suc: "ctr_block ctr (Suc j) = take 14 ctr @ [word_of_nat (Suc v div 256), word_of_nat (Suc v)]"
    by (simp add: ctr_block_def v_def Let_def)
  have "(word_of_nat v + 1 :: u8) = 0 \<longleftrightarrow> Suc v mod 256 = 0"
    using word_of_nat_eq_0_iff [of "Suc v", where 'a = 8] by (simp add: dvd_eq_mod_eq_0 add.commute)
  moreover have "Suc v mod 256 = 0 \<Longrightarrow> Suc v div 256 = Suc (v div 256)" "Suc v mod 256 \<noteq> 0 \<Longrightarrow> Suc v div 256 = v div 256"
    by (simp_all add: div_Suc mod_Suc split: if_splits)
  moreover have "length (take 14 ctr) = 14" using assms(1) by simp
  ultimately show ?thesis unfolding Suc b by (auto simp: Let_def list_update_append nth_append add.commute)
qed

lemma aes_icm_advance_block:
  assumes "aes_keyed (icm_expanded_key c) key" and "length (icm_counter c) = 4" and "length ctr = 16"
    and "bytes_le (icm_counter c) = ctr_block ctr j"
  defines "c' \<equiv> aes_icm_advance_ismacryp c False"
  shows "bytes_le (keystream_buffer c') = fips_aes key (ctr_block ctr j)"
    "bytes_le (icm_counter c') = ctr_block ctr (Suc j)" "length (icm_counter c') = 4"
    "icm_expanded_key c' = icm_expanded_key c" "icm_offset c' = icm_offset c" "length (keystream_buffer c') = 4"
  using aes_keyed_encrypt [OF assms(1,2)] assms(2-4) ctr_block_Suc [OF assms(3), of j]
  by (simp_all add: c'_def aes_icm_advance_ismacryp_def Let_def bytes_le_set_v8)

section \<open>Positions in the keystream\<close>

lemma icm_stream_append: "icm_stream key ctr pos (a + b) = icm_stream key ctr pos a @ icm_stream key ctr (pos + a) b"
  using upt_add_eq_append [of pos "pos + a" b] by (simp add: icm_stream_def add.assoc)

lemma length_icm_stream [simp]: "length (icm_stream key ctr pos n) = n"
  by (simp add: icm_stream_def)

lemma icm_stream_in_block:
  assumes "length (fips_aes key (ctr_block ctr j)) = 16" and "a + n \<le> 16"
  shows "icm_stream key ctr (16 * j + a) n = take n (drop a (fips_aes key (ctr_block ctr j)))"
proof (rule nth_equalityI)
  show "length (icm_stream key ctr (16 * j + a) n) = length (take n (drop a (fips_aes key (ctr_block ctr j))))"
    using assms by simp
  fix i assume "i < length (icm_stream key ctr (16 * j + a) n)"
  then have i: "i < n" by simp
  then have "a + i < 16" using assms(2) by simp
  then have "(16 * j + a + i) div 16 = j" "(16 * j + a + i) mod 16 = a + i"
    unfolding add.assoc [of _ a i] mod_mult_self4 by simp_all
  then show "icm_stream key ctr (16 * j + a) n ! i = take n (drop a (fips_aes key (ctr_block ctr j))) ! i"
    using i assms by (simp add: icm_stream_def icm_octet_def)
qed

lemma map2_xor_append:
  assumes "length a \<le> length buf"
  shows "map2 (XOR) buf (a @ b) = map2 (XOR) (take (length a) buf) a @ map2 (XOR) (drop (length a) buf) b"
  using assms by (simp add: zip_append2)

lemma next_block_boundary: "pos + (16 - pos mod 16) mod 16 = 16 * ((pos + 15) div 16)" for pos :: nat
proof -
  define q r where "q = pos div 16" and "r = pos mod 16"
  have pos: "pos = 16 * q + r" "r < 16" by (simp_all add: q_def r_def)
  show ?thesis
  proof (cases "r = 0")
    case False
    then have "(pos + 15) div 16 = Suc q" using pos by auto
    then show ?thesis using pos False by (simp add: r_def [symmetric])
  qed (use pos in auto)
qed

lemma aes_icm_blocks_stream:
  assumes "aes_keyed (icm_expanded_key c) key" and "length (icm_counter c) = 4" and "length ctr = 16"
    and "bytes_le (icm_counter c) = ctr_block ctr j" and "16 * n \<le> length buf"
  shows "\<exists>c'. aes_icm_blocks n c buf False = (c', map2 (XOR) (take (16 * n) buf) (icm_stream key ctr (16 * j) (16 * n))) \<and>
    icm_expanded_key c' = icm_expanded_key c \<and> icm_offset c' = icm_offset c \<and> length (icm_counter c') = 4 \<and>
    bytes_le (icm_counter c') = ctr_block ctr (j + n)"
  using assms
proof (induction n arbitrary: c j buf)
  case 0
  then show ?case by (simp add: icm_stream_def)
next
  case (Suc n)
  let ?c = "aes_icm_advance_ismacryp c False"
  note adv = aes_icm_advance_block [OF Suc.prems(1-4)]
  have keyed: "aes_keyed (icm_expanded_key ?c) key" using adv Suc.prems(1) by simp
  have "16 * n \<le> length (drop 16 buf)" using Suc.prems(5) by simp
  from Suc.IH [OF keyed adv(3) Suc.prems(3) adv(2) this]
  obtain c' where c': "aes_icm_blocks n ?c (drop 16 buf) False =
      (c', map2 (XOR) (take (16 * n) (drop 16 buf)) (icm_stream key ctr (16 * Suc j) (16 * n)))"
    "icm_expanded_key c' = icm_expanded_key ?c" "icm_offset c' = icm_offset ?c" "length (icm_counter c') = 4"
    "bytes_le (icm_counter c') = ctr_block ctr (Suc j + n)"
    by blast
  have len: "length (fips_aes key (ctr_block ctr j)) = 16"
    using length_fips_aes [OF Suc.prems(1)] Suc.prems(3) by simp
  have "icm_stream key ctr (16 * j) (16 * Suc n) =
      fips_aes key (ctr_block ctr j) @ icm_stream key ctr (16 * Suc j) (16 * n)"
    using icm_stream_append [of key ctr "16 * j" 16 "16 * n"] icm_stream_in_block [OF len, of 0 16] len
    by (simp add: add.commute)
  moreover have "take (16 * Suc n) buf = take 16 buf @ take (16 * n) (drop 16 buf)"
    by (simp add: take_add)
  ultimately have "map2 (XOR) (take (16 * Suc n) buf) (icm_stream key ctr (16 * j) (16 * Suc n)) =
      map2 (XOR) (take 16 buf) (fips_aes key (ctr_block ctr j)) @
      map2 (XOR) (take (16 * n) (drop 16 buf)) (icm_stream key ctr (16 * Suc j) (16 * n))"
    using Suc.prems(5) len by simp
  then show ?case using c' adv by (intro exI [of _ c']) simp
qed

text \<open>
  \<open>icm_at c key ctr pos\<close>: the next octet of keystream that \<open>c\<close> uses is number \<open>pos\<close> of the stream for
  \<open>key\<close> and start value \<open>ctr\<close>.
\<close>

definition icm_at :: "aes_icm_ctx_t \<Rightarrow> octets \<Rightarrow> octets \<Rightarrow> nat \<Rightarrow> bool" where
  "icm_at c key ctr pos \<longleftrightarrow> aes_keyed (icm_expanded_key c) key \<and> length (icm_counter c) = 4 \<and> length ctr = 16 \<and>
     bytes_le (icm_counter c) = ctr_block ctr ((pos + 15) div 16) \<and>
     bytes_in_buffer c = (16 - pos mod 16) mod 16 \<and>
     (pos mod 16 \<noteq> 0 \<longrightarrow> bytes_le (keystream_buffer c) = fips_aes key (ctr_block ctr (pos div 16)))"

text \<open>The value of the 16-bit block counter at block \<open>j\<close>.\<close>

definition ctr_index :: "octets \<Rightarrow> nat \<Rightarrow> nat" where
  "ctr_index ctr j = unat (ctr ! 14) * 256 + unat (ctr ! 15) + j"

lemma icm_buffered:
  assumes "icm_at c key ctr pos" and "n \<le> bytes_in_buffer c"
  shows "take n (drop (16 - bytes_in_buffer c) (bytes_le (keystream_buffer c))) = icm_stream key ctr pos n"
proof (cases "pos mod 16 = 0")
  case True
  then show ?thesis using assms by (simp add: icm_at_def icm_stream_def)
next
  case False
  then have k: "bytes_in_buffer c = 16 - pos mod 16" using assms(1) by (simp add: icm_at_def)
  have "length (fips_aes key (ctr_block ctr (pos div 16))) = 16"
    using length_fips_aes assms(1) by (auto simp: icm_at_def)
  from icm_stream_in_block [OF this, of "pos mod 16" n] False assms k show ?thesis
    by (simp add: icm_at_def)
qed

lemma icm_block_index_at:
  assumes "bytes_le v = ctr_block ctr j" and "length ctr = 16" and "ctr_index ctr j < 2 ^ 16"
  shows "unat (icm_block_index v) = ctr_index ctr j"
proof -
  define n where "n = ctr_index ctr j"
  have n: "n < 65536" using assms(3) by (simp add: n_def)
  have "icm_block_index v = push_bit 8 (ucast (word_of_nat (n div 256) :: u8)) OR ucast (word_of_nat n :: u8)"
    using ctr_block_last [OF assms(2), of j] by (simp add: icm_block_index_def assms(1) n_def ctr_index_def)
  also have "\<dots> = word_of_nat n"
  proof (rule bit_word_eqI)
    fix i assume i: "i < LENGTH(16)"
    have d: "bit (n div 256) k = bit n (8 + k)" for k
      using bit_drop_bit_eq [of 8 n] by (simp add: drop_bit_eq_div fun_eq_iff)
    show "bit (push_bit 8 (ucast (word_of_nat (n div 256) :: u8)) OR ucast (word_of_nat n :: u8) :: u16) i = bit (word_of_nat n :: u16) i"
      using i by (cases "i < 8") (auto simp: bit_simps d)
  qed
  finally show ?thesis using n by (simp add: unat_of_nat n_def)
qed

lemma segment_check:
  assumes "icm_at c key ctr pos" and "ctr_index ctr ((pos + 15) div 16) \<le> 0xffff" and "length buf < 2 ^ 31"
  shows "(word_of_nat (length buf) :: u32) + ucast (icm_block_index (icm_counter c)) > 0xffff \<longleftrightarrow>
    length buf + ctr_index ctr ((pos + 15) div 16) > 0xffff"
proof -
  let ?n = "ctr_index ctr ((pos + 15) div 16)"
  have "unat (icm_block_index (icm_counter c)) = ?n"
    by (rule icm_block_index_at) (use assms in \<open>auto simp: icm_at_def\<close>)
  then have u: "unat (ucast (icm_block_index (icm_counter c)) :: u32) = ?n"
    using assms(2) by (simp add: unsigned_ucast_eq take_bit_nat_eq_self)
  have l: "unat (word_of_nat (length buf) :: u32) = length buf" using assms(3) by (simp add: unat_of_nat)
  have "unat ((word_of_nat (length buf) :: u32) + ucast (icm_block_index (icm_counter c))) = length buf + ?n"
    using u l assms(2,3) by (subst unat_add_lem [THEN iffD1]) simp_all
  then show ?thesis by (simp add: word_less_nat_alt)
qed

lemma aes_icm_encrypt_buffered:
  assumes "icm_at c key ctr pos" and "length buf \<le> bytes_in_buffer c"
  shows "icm_at (c\<lparr>bytes_in_buffer := bytes_in_buffer c - length buf\<rparr>) key ctr (pos + length buf)"
proof (cases "length buf = 0")
  case False
  define q r n where "q = pos div 16" and "r = pos mod 16" and "n = length buf"
  have pos: "pos = 16 * q + r" "r < 16" by (simp_all add: q_def r_def)
  have b: "bytes_in_buffer c = (16 - r) mod 16" using assms(1) by (simp add: icm_at_def r_def)
  then have "r \<noteq> 0" using assms(2) False by (cases "r = 0") simp_all
  then have n: "0 < n" "r + n \<le> 16" "bytes_in_buffer c = 16 - r"
    using b assms(2) False pos by (auto simp: n_def)
  have ctr: "(pos + 15) div 16 = Suc q" "(pos + n + 15) div 16 = Suc q" using pos n \<open>r \<noteq> 0\<close> by auto
  show ?thesis
  proof (cases "r + n = 16")
    case True
    then have "pos + n = 16 * Suc q" using pos by simp
    then have "(pos + n) mod 16 = 0" by (simp only: mod_mult_self1_is_0)
    moreover have "bytes_in_buffer c - n = 0" using n(3) True by simp
    ultimately show ?thesis using assms(1) ctr(2) unfolding icm_at_def n_def [symmetric] ctr(1) by simp
  next
    case False
    then have lt: "r + n < 16" using n by simp
    have "pos + n = 16 * q + (r + n)" using pos by simp
    then have "(pos + n) mod 16 = r + n" "(pos + n) div 16 = q"
      using lt by (simp_all only: mod_mult_self4 mod_less)
    then show ?thesis using assms(1) ctr n \<open>r \<noteq> 0\<close> by (simp add: icm_at_def n_def q_def r_def)
  qed
qed (use assms in simp)

text \<open>Whole blocks and a tail from a block boundary.\<close>

lemma aes_icm_encrypt_aligned:
  fixes buf :: octets
  assumes "aes_keyed (icm_expanded_key c) key" and "length (icm_counter c) = 4" and "length ctr = 16"
    and "bytes_le (icm_counter c) = ctr_block ctr j"
  defines "m \<equiv> length buf"
  shows "\<exists>c'. (let (c, body) = aes_icm_blocks (m div 16) c buf False;
           tail = drop (16 * (m div 16)) buf
       in if m mod 16 \<noteq> 0
          then let c = aes_icm_advance_ismacryp c False
               in (c\<lparr>bytes_in_buffer := 16 - m mod 16\<rparr>,
                   body @ map2 (XOR) tail (take (m mod 16) (bytes_le (keystream_buffer c))))
          else (c\<lparr>bytes_in_buffer := 0\<rparr>, body)) =
      (c', map2 (XOR) buf (icm_stream key ctr (16 * j) m)) \<and>
    icm_at c' key ctr (16 * j + m) \<and> icm_offset c' = icm_offset c"
proof -
  define q r where "q = m div 16" and "r = m mod 16"
  have m: "m = 16 * q + r" "r < 16" by (simp_all add: q_def r_def)
  have "16 * q \<le> length buf" using m by (simp add: m_def)
  from aes_icm_blocks_stream [OF assms(1-4) this]
  obtain c1 where c1: "aes_icm_blocks q c buf False = (c1, map2 (XOR) (take (16 * q) buf) (icm_stream key ctr (16 * j) (16 * q)))"
    "icm_expanded_key c1 = icm_expanded_key c" "icm_offset c1 = icm_offset c" "length (icm_counter c1) = 4"
    "bytes_le (icm_counter c1) = ctr_block ctr (j + q)" by blast
  show ?thesis
  proof (cases "r = 0")
    case True
    then have pos: "16 * j + m = 16 * (j + q)" "(16 * (j + q) + 15) div 16 = j + q" "(16 * (j + q)) mod 16 = 0"
      using m by (simp, presburger, simp only: mod_mult_self1_is_0)
    have "icm_at (c1\<lparr>bytes_in_buffer := 0\<rparr>) key ctr (16 * j + m)"
      using assms(1,3) c1 unfolding icm_at_def pos by simp
    then show ?thesis using c1 True m by (simp add: q_def [symmetric] r_def [symmetric] m_def)
  next
    case False
    let ?c = "aes_icm_advance_ismacryp c1 False"
    have keyed: "aes_keyed (icm_expanded_key c1) key" using c1 assms(1) by simp
    note adv = aes_icm_advance_block [OF keyed c1(4) assms(3) c1(5)]
    have len: "length (fips_aes key (ctr_block ctr (j + q))) = 16"
      using length_fips_aes [OF assms(1)] assms(3) by simp
    have "icm_stream key ctr (16 * j) m = icm_stream key ctr (16 * j) (16 * q) @ take r (bytes_le (keystream_buffer ?c))"
      using icm_stream_append [of key ctr "16 * j" "16 * q" r] icm_stream_in_block [OF len, of 0 r] m adv(1)
      by (simp add: add_mult_distrib2)
    then have out: "map2 (XOR) buf (icm_stream key ctr (16 * j) m) =
        map2 (XOR) (take (16 * q) buf) (icm_stream key ctr (16 * j) (16 * q)) @
        map2 (XOR) (drop (16 * q) buf) (take r (bytes_le (keystream_buffer ?c)))"
      using map2_xor_append [of "icm_stream key ctr (16 * j) (16 * q)" buf] m by (simp add: m_def)
    have pos: "16 * j + m = 16 * (j + q) + r" "(16 * (j + q) + r + 15) div 16 = Suc (j + q)"
      "(16 * (j + q) + r) div 16 = j + q"
      using m False by auto
    have pos_mod: "(16 * (j + q) + r) mod 16 = r" unfolding mod_mult_self4 using m(2) by simp
    have "icm_at (?c\<lparr>bytes_in_buffer := 16 - r\<rparr>) key ctr (16 * j + m)"
      using keyed adv assms(3) False m(2) unfolding icm_at_def pos pos_mod by simp
    then show ?thesis using c1 False adv out by (simp add: q_def [symmetric] r_def [symmetric])
  qed
qed

lemma aes_icm_encrypt_stream:
  assumes at: "icm_at c key ctr pos" and room: "length buf + ctr_index ctr ((pos + 15) div 16) \<le> 0xffff"
  shows "\<exists>c'. aes_icm_encrypt c buf = (err_status_ok, c', map2 (XOR) buf (icm_stream key ctr pos (length buf))) \<and>
    icm_at c' key ctr (pos + length buf) \<and> icm_offset c' = icm_offset c"
proof -
  define k where "k = bytes_in_buffer c"
  have "\<not> (word_of_nat (length buf) :: u32) + ucast (icm_block_index (icm_counter c)) > 0xffff"
    using segment_check [OF at, of buf] room by simp
  then have check: "\<not> (\<not> False \<and> (word_of_nat (length buf) :: u32) + ucast (icm_block_index (icm_counter c)) > 0xffff)"
    by blast
  note enc = aes_icm_encrypt_def aes_icm_encrypt_ismacryp_def if_not_P [OF check] k_def [symmetric]
  note buffered = icm_buffered [OF at, folded k_def]
  show ?thesis
  proof (cases "length buf \<le> k")
    case True
    have "icm_at (c\<lparr>bytes_in_buffer := k - length buf\<rparr>) key ctr (pos + length buf)"
      using aes_icm_encrypt_buffered [OF at] True by (simp add: k_def)
    then show ?thesis unfolding enc using True buffered [OF True] by (simp add: Let_def)
  next
    case False
    define j where "j = (pos + 15) div 16"
    have k: "k = (16 - pos mod 16) mod 16" using at by (simp add: k_def icm_at_def)
    have pos: "pos + k = 16 * j" unfolding k j_def by (rule next_block_boundary)
    let ?c = "c\<lparr>bytes_in_buffer := 0\<rparr>"
    have "aes_keyed (icm_expanded_key ?c) key" "length (icm_counter ?c) = 4" "length ctr = 16"
      "bytes_le (icm_counter ?c) = ctr_block ctr j"
      using at by (simp_all add: icm_at_def j_def)
    from aes_icm_encrypt_aligned [OF this, of "drop k buf", unfolded length_drop]
    obtain c' where c': "(let (c, body) = aes_icm_blocks ((length buf - k) div 16) ?c (drop k buf) False;
           tail = drop (16 * ((length buf - k) div 16)) (drop k buf)
       in if (length buf - k) mod 16 \<noteq> 0
          then let c = aes_icm_advance_ismacryp c False
               in (c\<lparr>bytes_in_buffer := 16 - (length buf - k) mod 16\<rparr>,
                   body @ map2 (XOR) tail (take ((length buf - k) mod 16) (bytes_le (keystream_buffer c))))
          else (c\<lparr>bytes_in_buffer := 0\<rparr>, body)) =
      (c', map2 (XOR) (drop k buf) (icm_stream key ctr (16 * j) (length buf - k)))"
      "icm_at c' key ctr (16 * j + (length buf - k))" "icm_offset c' = icm_offset ?c"
      by blast
    have at': "icm_at c' key ctr (pos + length buf)" using c'(2) False unfolding pos [symmetric] by simp
    have "icm_stream key ctr pos (length buf) = icm_stream key ctr pos k @ icm_stream key ctr (16 * j) (length buf - k)"
      using icm_stream_append [of key ctr pos k "length buf - k"] False pos by simp
    moreover have "drop (16 - k) (bytes_le (keystream_buffer c)) = icm_stream key ctr pos k" if "k \<noteq> 0"
    proof -
      have "length (bytes_le (keystream_buffer c)) = 16"
        using at that k length_fips_aes [of "icm_expanded_key c" key "ctr_block ctr (pos div 16)"]
        by (auto simp: icm_at_def simp del: length_bytes_le)
      moreover have "k \<le> 16" using k by simp
      ultimately have "length (drop (16 - k) (bytes_le (keystream_buffer c))) = k" by simp
      then show ?thesis using buffered [OF order_refl] take_all [of "drop (16 - k) (bytes_le (keystream_buffer c))" k] by simp
    qed
    ultimately have out: "map2 (XOR) buf (icm_stream key ctr pos (length buf)) =
        map2 (XOR) (take k buf) (drop (16 - k) (bytes_le (keystream_buffer c))) @
        map2 (XOR) (drop k buf) (icm_stream key ctr (16 * j) (length buf - k))"
      using map2_xor_append [of "icm_stream key ctr pos k" buf] False
      by (cases "k = 0") (simp_all add: icm_stream_def)
    show ?thesis
      unfolding enc out using False c' at'
      by (auto simp: Let_def split: prod.splits if_splits)
  qed
qed

section \<open>Keys, initialisation vectors and whole packets\<close>

text \<open>\<open>icm_keyed c key salt\<close>: the context holds the AES key and the 16-octet offset \<open>salt\<close>.\<close>

definition icm_keyed :: "aes_icm_ctx_t \<Rightarrow> octets \<Rightarrow> octets \<Rightarrow> bool" where
  "icm_keyed c key salt \<longleftrightarrow> aes_keyed (icm_expanded_key c) key \<and> length (icm_offset c) = 4 \<and>
     bytes_le (icm_offset c) = salt"

definition icm_start :: "octets \<Rightarrow> v128_t \<Rightarrow> octets" where
  "icm_start salt iv = map2 (XOR) salt (bytes_le iv)"

lemma v128_copy_take: "16 \<le> n \<Longrightarrow> v128_copy_octet_string (take n s) = v128_copy_octet_string s"
  by (simp add: v128_copy_octet_string_def min_def)

text \<open>The key expansions read 16 and 32 octets of the key.\<close>

lemma expand_take:
  "aes_128_expand_encryption_key (take 16 key) ek = aes_128_expand_encryption_key key ek"
  "aes_256_expand_encryption_key (take 32 key) ek = aes_256_expand_encryption_key key ek"
  using v128_copy_take [of 16 key] v128_copy_take [of 32 key] v128_copy_take [of 16 "drop 16 key"]
  unfolding aes_128_expand_encryption_key_def aes_256_expand_encryption_key_def
  by (simp_all only: drop_take) (simp_all del: upt_rec_numeral)

lemma aes_icm_context_init_keyed:
  assumes "key_len = 30 \<or> key_len = 46" and "nat key_len + 2 \<le> length key" and "length (round_key (icm_expanded_key c)) = 15"
  defines "base \<equiv> nat key_len - 14"
  obtains c' where "aes_icm_context_init c key key_len = Some (err_status_ok, c')"
    "icm_keyed c' (take base key) (take 14 (drop base key) @ [0, 0])"
proof -
  define salt where "salt = set_v8 (set_v8 (words_le (take 16 (drop base key))) 15 0) 14 0"
  have len: "length (words_le (take 16 (drop base key))) = 4" "length (take 16 (drop base key)) = 16"
    using assms(1,2) by (auto simp: base_def)
  have salt: "bytes_le salt = take 14 (drop base key) @ [0, 0]" "length salt = 4"
  proof -
    have "bytes_le salt = (take 16 (drop base key))[15 := 0, 14 := 0]"
      using len by (simp add: salt_def bytes_le_set_v8)
    also have "take 16 (drop base key) = take 14 (drop base key) @ take 2 (drop (base + 14) key)"
      using take_add [of 14 2 "drop base key"] by (simp add: add.commute)
    finally have "bytes_le salt = (take 14 (drop base key) @ take 2 (drop (base + 14) key))[15 := 0, 14 := 0]" .
    moreover have "length (take 2 (drop (base + 14) key)) = Suc (Suc 0)" using assms(1,2) by (auto simp: base_def)
    then obtain a b where "take 2 (drop (base + 14) key) = [a, b]" unfolding length_Suc_conv by auto
    moreover have "length (take 14 (drop base key)) = 14" using assms(1,2) by (auto simp: base_def)
    ultimately show "bytes_le salt = take 14 (drop base key) @ [0, 0]" by (simp add: list_update_append)
    show "length salt = 4" using len by (simp add: salt_def bytes_le_set_v8)
  qed
  have base: "key_len - 14 = int (length (take base key))" "length (take base key) = 16 \<or> length (take base key) = 32"
    "nat (key_len - 14) = base" using assms(1,2) by (auto simp: base_def)
  let ?ek = "icm_expanded_key c"
  have "aes_expand_encryption_key key (key_len - 14) ?ek = aes_expand_encryption_key (take base key) (key_len - 14) ?ek"
    using assms(1) by (elim disjE) (simp_all add: base_def aes_expand_encryption_key_def expand_take)
  moreover obtain ek' where ek': "aes_expand_encryption_key (take base key) (key_len - 14) ?ek = Some (err_status_ok, ek')" "aes_keyed ek' (take base key)"
    using aes_expand_encryption_key_schedule [OF base(2) assms(3)] base(1,2) unfolding aes_keyed_def by metis
  ultimately have "aes_icm_context_init c key key_len = Some (err_status_ok,
      c\<lparr>icm_counter := salt, icm_offset := salt, icm_expanded_key := ek', bytes_in_buffer := 0\<rparr>)"
    using assms(1) base len by (auto simp: aes_icm_context_init_def Let_def v128_copy_octet_string_def salt_def)
  then show ?thesis
    by (rule that) (use ek' salt in \<open>simp add: icm_keyed_def\<close>)
qed

lemma aes_icm_set_iv_at:
  assumes "icm_keyed c key salt" and "length iv = 4"
  shows "fst (aes_icm_set_iv c iv) = err_status_ok"
    "icm_at (snd (aes_icm_set_iv c iv)) key (icm_start salt iv) 0" "icm_keyed (snd (aes_icm_set_iv c iv)) key salt"
proof -
  have eq: "v128_xor x y = map2 (XOR) x y" if "length x = 4" "length y = 4" for x y
    using that by (auto simp: v128_xor_def length_Suc_conv eval_nat_numeral)
  have len: "length salt = 16" using assms(1) by (auto simp: icm_keyed_def)
  have "ctr_block b 0 = b" if b: "length b = 16" for b
  proof (rule nth_equalityI)
    fix i assume "i < length (ctr_block b 0)"
    then have "i < 14 \<or> i = 14 \<or> i = 15" using b by auto
    moreover have "x * 256 = 0" for x :: u8
    proof -
      have "(256 :: u8) = 0" by simp
      then show ?thesis by (simp only: mult_zero_right)
    qed
    ultimately show "ctr_block b 0 ! i = b ! i" using b by (auto simp: ctr_block_def Let_def nth_append)
  qed (use b in simp)
  moreover have "bytes_le (v128_xor (icm_offset c) iv) = icm_start salt iv"
    using assms by (simp add: eq map2_xor_bytes_le icm_keyed_def icm_start_def)
  ultimately show "icm_at (snd (aes_icm_set_iv c iv)) key (icm_start salt iv) 0"
    using assms len by (simp add: icm_at_def icm_keyed_def aes_icm_set_iv_def icm_start_def eq)
qed (use assms in \<open>simp_all add: aes_icm_set_iv_def icm_keyed_def\<close>)

lemma icm_pieces_stream:
  assumes "icm_at c key ctr pos" and "length (concat pieces) + pos + ctr_index ctr 0 \<le> 0xffff"
  shows "\<exists>c'. fold (\<lambda>buf (c, out). case aes_icm_encrypt c buf of (_, c, o') \<Rightarrow> (c, out @ o')) pieces (c, out) =
      (c', out @ map2 (XOR) (concat pieces) (icm_stream key ctr pos (length (concat pieces)))) \<and>
    icm_at c' key ctr (pos + length (concat pieces))"
  using assms
proof (induction pieces arbitrary: c pos out)
  case (Cons buf pieces)
  have "(pos + 15) div 16 \<le> pos" by (cases "pos = 0") auto
  then have "length buf + ctr_index ctr ((pos + 15) div 16) \<le> 0xffff" using Cons.prems(2) by (simp add: ctr_index_def)
  from aes_icm_encrypt_stream [OF Cons.prems(1) this]
  obtain c1 where c1: "aes_icm_encrypt c buf = (err_status_ok, c1, map2 (XOR) buf (icm_stream key ctr pos (length buf)))"
    "icm_at c1 key ctr (pos + length buf)" by blast
  have split: "map2 (XOR) (buf @ concat pieces) (icm_stream key ctr pos (length buf + length (concat pieces))) =
      map2 (XOR) buf (icm_stream key ctr pos (length buf)) @
      map2 (XOR) (concat pieces) (icm_stream key ctr (pos + length buf) (length (concat pieces)))"
    using map2_xor_append [of "icm_stream key ctr pos (length buf)" "buf @ concat pieces"]
    by (simp add: icm_stream_append)
  from Cons.IH [OF c1(2), of "out @ map2 (XOR) buf (icm_stream key ctr pos (length buf))"] Cons.prems(2)
  show ?case by (simp add: c1 split add.assoc)
qed (simp add: icm_stream_def)

text \<open>
  C22. Counter mode: a context initialised with a key of 30 or 46 octets (AES key and 14 octets of salt)
  and an initialisation vector whose last 16 bits are zero encrypts any sequence of buffers of
  together at most 65535 octets by exoring them with the AES keystream of FIPS 197 for the start value
  salt exor IV; how the data is cut into buffers does not matter.
\<close>

theorem aes_icm_encrypt_correct:
  assumes "key_len = 30 \<or> key_len = 46" and "nat key_len + 2 \<le> length key"
    and "length (round_key (icm_expanded_key c)) = 15" and "length iv = 4" and "drop 14 (bytes_le iv) = [0, 0]"
    and "length (concat pieces) \<le> 65535"
  defines "base \<equiv> nat key_len - 14"
  shows "\<exists>c1. aes_icm_context_init c key key_len = Some (err_status_ok, c1) \<and>
    snd (fold (\<lambda>buf (c, out). case aes_icm_encrypt c buf of (_, c, o') \<Rightarrow> (c, out @ o')) pieces
      (snd (aes_icm_set_iv c1 iv), [])) =
    map2 (XOR) (concat pieces)
      (icm_stream (take base key) (icm_start (take 14 (drop base key) @ [0, 0]) iv) 0 (length (concat pieces)))"
proof -
  let ?salt = "take 14 (drop base key) @ [0, 0]"
  obtain c1 where c1: "aes_icm_context_init c key key_len = Some (err_status_ok, c1)"
    "icm_keyed c1 (take base key) ?salt"
    using aes_icm_context_init_keyed [OF assms(1-3)] unfolding base_def by metis
  have s14: "length (take 14 (drop base key)) = 14" using assms(1,2) by (auto simp: base_def)
  have "bytes_le iv ! 14 = drop 14 (bytes_le iv) ! 0" "bytes_le iv ! 15 = drop 14 (bytes_le iv) ! 1"
    using assms(4) by simp_all
  then have "ctr_index (icm_start ?salt iv) 0 = 0"
    using s14 assms(4,5) by (simp add: ctr_index_def icm_start_def nth_append)
  then have "length (concat pieces) + 0 + ctr_index (icm_start ?salt iv) 0 \<le> 0xffff" using assms(6) by simp
  from icm_pieces_stream [OF aes_icm_set_iv_at(2) [OF c1(2) assms(4)] this, of "[]"] c1(1) show ?thesis by auto
qed

theorem aes_icm_encrypt_correct_witness:
  "\<exists>c1. aes_icm_context_init \<lparr>icm_counter = [], icm_offset = [], keystream_buffer = [],
        icm_expanded_key = \<lparr>round_key = replicate 15 [], num_rounds = 0\<rparr>, bytes_in_buffer = 9\<rparr> (replicate 32 5) 30
      = Some (err_status_ok, c1) \<and>
    snd (fold (\<lambda>buf (c, out). case aes_icm_encrypt c buf of (_, c, o') \<Rightarrow> (c, out @ o')) [[1, 2], [3]]
      (snd (aes_icm_set_iv c1 [7, 8, 9, 10]), [])) =
    map2 (XOR) [1, 2, 3] (icm_stream (replicate 16 5) (icm_start (replicate 14 5 @ [0, 0]) [7, 8, 9, 10]) 0 3)"
proof -
  have "drop 14 (bytes_le [7, 8, 9, 10 :: u32]) = [0, 0]" by code_simp
  from aes_icm_encrypt_correct [of 30 "replicate 32 5" "\<lparr>icm_counter = [], icm_offset = [], keystream_buffer = [],
        icm_expanded_key = \<lparr>round_key = replicate 15 [], num_rounds = 0\<rparr>, bytes_in_buffer = 9\<rparr>", OF _ _ _ _ this, of "[[1, 2], [3]]"]
  show ?thesis by (simp add: numeral_3_eq_3 del: fold_simps bytes_le_Cons)
qed

text \<open>
  Past the end of a segment nothing is encrypted: when the octets to encrypt and the block counter
  together exceed 65535, \<^verbatim>\<open>aes_icm_encrypt\<close> reports \<^verbatim>\<open>terminus\<close> and leaves context and buffer as they
  were; the sum counts octets against blocks, so a segment ends long before the 65536 blocks are used.
\<close>

theorem aes_icm_encrypt_terminus:
  assumes "icm_at c key ctr pos" and "ctr_index ctr ((pos + 15) div 16) \<le> 0xffff" and "length buf < 2 ^ 31"
    and "length buf + ctr_index ctr ((pos + 15) div 16) > 0xffff"
  shows "aes_icm_encrypt c buf = (err_status_terminus, c, buf)"
  using segment_check [OF assms(1-3)] assms(4) by (simp add: aes_icm_encrypt_def aes_icm_encrypt_ismacryp_def)

theorem aes_icm_encrypt_terminus_witness:
  "\<exists>c1. aes_icm_context_init \<lparr>icm_counter = [], icm_offset = [], keystream_buffer = [],
        icm_expanded_key = \<lparr>round_key = replicate 15 [], num_rounds = 0\<rparr>, bytes_in_buffer = 9\<rparr> (replicate 32 5) 30
      = Some (err_status_ok, c1) \<and>
    aes_icm_encrypt (snd (aes_icm_set_iv c1 [0, 0, 0, 0])) (replicate 65536 1) =
      (err_status_terminus, snd (aes_icm_set_iv c1 [0, 0, 0, 0]), replicate 65536 1)"
proof -
  let ?c = "\<lparr>icm_counter = [], icm_offset = [], keystream_buffer = [],
        icm_expanded_key = \<lparr>round_key = replicate 15 [], num_rounds = 0\<rparr>, bytes_in_buffer = 9\<rparr>"
  obtain c1 where c1: "aes_icm_context_init ?c (replicate 32 5) 30 = Some (err_status_ok, c1)"
    "icm_keyed c1 (replicate 16 5) (replicate 14 5 @ [0, 0])"
    using aes_icm_context_init_keyed [of 30 "replicate 32 5" ?c] by (auto simp: take_replicate)
  let ?ctr = "icm_start (replicate 14 5 @ [0, 0]) [0, 0, 0, 0]"
  have at: "icm_at (snd (aes_icm_set_iv c1 [0, 0, 0, 0])) (replicate 16 5) ?ctr 0"
    by (rule aes_icm_set_iv_at(2) [OF c1(2)]) simp
  have "ctr_index ?ctr ((0 + 15) div 16) = 0" by code_simp
  then show ?thesis using c1(1) aes_icm_encrypt_terminus [OF at, of "replicate 65536 1"] by simp
qed

end
