(* ===== verification/Rng.thy ===== *)
theory Rng
  imports Aes_Icm
begin

text \<open>
  \<^verbatim>\<open>srtp/crypto/rng\<close>: the random source on \<^verbatim>\<open>rand_s\<close> and the two pseudorandom generators on AES. The
  theorems show that the counter mode generator outputs the AES keystream of its seed, and what it
  does once the counter mode segment of the seed is used up.
\<close>

section \<open>The random source\<close>

text \<open>
  \<^verbatim>\<open>rand_s\<close> is the C library's: \<open>rand_s_tape k\<close> is the result of its call number \<open>k\<close>, \<open>None\<close> for an
  error.
\<close>

record rand_source_t =
  dev_random_fdes :: int
  rand_s_tape :: "nat \<Rightarrow> u32 option"
  rand_s_pos :: nat

definition RAND_SOURCE_NOT_READY :: int where
  "RAND_SOURCE_NOT_READY = -1"

definition RAND_SOURCE_READY :: int where
  "RAND_SOURCE_READY = 17"

definition rand_source_init :: "rand_source_t \<Rightarrow> err_status_t \<times> rand_source_t" where
  "rand_source_init r =
     (if dev_random_fdes r \<ge> 0 then (err_status_ok, r)
      else (err_status_ok, r\<lparr>dev_random_fdes := RAND_SOURCE_READY\<rparr>))"

text \<open>The octets written before a failure are lost with the third component.\<close>

fun rand_source_loop :: "rand_source_t \<Rightarrow> nat \<Rightarrow> err_status_t \<times> rand_source_t \<times> octets" where
  "rand_source_loop r 0 = (err_status_ok, r, [])"
| "rand_source_loop r (Suc len) =
     (let v = rand_s_tape r (rand_s_pos r); r = r\<lparr>rand_s_pos := rand_s_pos r + 1\<rparr>
      in case v of None \<Rightarrow> (err_status_fail, r, [])
         | Some val \<Rightarrow> (case rand_source_loop r len of (status, r, dst) \<Rightarrow> (status, r, ucast (val AND 0xff) # dst)))"

definition rand_source_get_octet_string :: "rand_source_t \<Rightarrow> nat \<Rightarrow> (err_status_t \<times> rand_source_t \<times> octets) option" where
  "rand_source_get_octet_string r len = Some (rand_source_loop r len)"

definition rand_source_deinit :: "rand_source_t \<Rightarrow> err_status_t \<times> rand_source_t" where
  "rand_source_deinit r =
     (if dev_random_fdes r < 0 then (err_status_dealloc_fail, r)
      else (err_status_ok, r\<lparr>dev_random_fdes := RAND_SOURCE_NOT_READY\<rparr>))"

lemma rand_source_loop_length:
  "rand_source_loop r n = (err_status_ok, r', dst) \<Longrightarrow> length dst = n"
  by (induction r n arbitrary: r' dst rule: rand_source_loop.induct)
    (auto simp: Let_def split: option.splits prod.splits)

section \<open>The generators\<close>

text \<open>
  A random source function acts on the state \<open>'w\<close> behind it. The function pointer \<^verbatim>\<open>rand\<close> of a
  generator is the argument \<open>random_source\<close> here: the library always passes the same one.
\<close>

type_synonym 'w rand_source_func_t = "'w \<Rightarrow> nat \<Rightarrow> (err_status_t \<times> 'w \<times> octets) option"

definition MAX_PRNG_OUT_LEN :: u32 where
  "MAX_PRNG_OUT_LEN = 0xffffffff"

record ctr_prng_t =
  ctr_octet_count :: u32
  ctr_state :: aes_icm_ctx_t

definition ctr_prng_init :: "'w rand_source_func_t \<Rightarrow> 'w \<Rightarrow> ctr_prng_t \<Rightarrow> (err_status_t \<times> 'w \<times> ctr_prng_t) option" where
  "ctr_prng_init random_source w ctr_prng = do {
     let ctr_prng = ctr_prng\<lparr>ctr_octet_count := 0\<rparr>;
     (status, w, tmp_key) \<leftarrow> random_source w 32;
     if status \<noteq> err_status_ok then Some (status, w, ctr_prng)
     else do {
       (status, c) \<leftarrow> aes_icm_context_init (ctr_state ctr_prng) tmp_key 30;
       Some (status, w, ctr_prng\<lparr>ctr_state := c\<rparr>)
     }
   }"

definition ctr_prng_get_octet_string :: "'w rand_source_func_t \<Rightarrow> 'w \<Rightarrow> ctr_prng_t \<Rightarrow> u32 \<Rightarrow>
    (err_status_t \<times> 'w \<times> ctr_prng_t \<times> octets) option" where
  "ctr_prng_get_octet_string random_source w ctr_prng len = do {
     (status, w, ctr_prng) \<leftarrow>
       (if ctr_octet_count ctr_prng > MAX_PRNG_OUT_LEN - len then ctr_prng_init random_source w ctr_prng
        else Some (err_status_ok, w, ctr_prng));
     if status \<noteq> err_status_ok then Some (status, w, ctr_prng, [])
     else do {
       let ctr_prng = ctr_prng\<lparr>ctr_octet_count := ctr_octet_count ctr_prng + len\<rparr>;
       let (status, c, dest) = aes_icm_output (ctr_state ctr_prng) (unat len);
       Some (status, w, ctr_prng\<lparr>ctr_state := c\<rparr>, dest)
     }
   }"

definition ctr_prng_deinit :: err_status_t where
  "ctr_prng_deinit = err_status_ok"

record x917_prng_t =
  x917_state :: v128_t
  x917_key :: aes_expanded_key_t
  x917_octet_count :: u32

definition x917_prng_init :: "'w rand_source_func_t \<Rightarrow> 'w \<Rightarrow> x917_prng_t \<Rightarrow> (err_status_t \<times> 'w \<times> x917_prng_t) option" where
  "x917_prng_init random_source w x917_prng = do {
     let x917_prng = x917_prng\<lparr>x917_octet_count := 0\<rparr>;
     (status, w, tmp_key) \<leftarrow> random_source w 16;
     if status \<noteq> err_status_ok then Some (status, w, x917_prng)
     else do {
       (_, ek) \<leftarrow> aes_expand_encryption_key tmp_key 16 (x917_key x917_prng);
       let x917_prng = x917_prng\<lparr>x917_key := ek\<rparr>;
       (status, w, s) \<leftarrow> random_source w 16;
       if status \<noteq> err_status_ok then Some (status, w, x917_prng)
       else Some (err_status_ok, w, x917_prng\<lparr>x917_state := words_le s\<rparr>)
     }
   }"

text \<open>One round of the generator at time \<open>t\<close>: the next state and the block of output.\<close>

definition x917_prng_step :: "u32 \<Rightarrow> aes_expanded_key_t \<Rightarrow> v128_t \<Rightarrow> v128_t \<times> octets" where
  "x917_prng_step t key state =
     (let state = state[0 := state ! 0 XOR t];
          buffer = aes_encrypt state key;
          out = bytes_le buffer;
          buffer = buffer[0 := buffer ! 0 XOR t]
      in (aes_encrypt buffer key, out))"

fun x917_prng_loop :: "u32 \<Rightarrow> aes_expanded_key_t \<Rightarrow> nat \<Rightarrow> v128_t \<Rightarrow> v128_t \<times> octets" where
  "x917_prng_loop t key 0 state = (state, [])"
| "x917_prng_loop t key (Suc n) state =
     (let (state, out) = x917_prng_step t key state; (state, dest) = x917_prng_loop t key n state
      in (state, out @ dest))"

text \<open>\<open>t\<close> is the value of \<^verbatim>\<open>time(NULL)\<close>.\<close>

definition x917_prng_get_octet_string :: "'w rand_source_func_t \<Rightarrow> 'w \<Rightarrow> u32 \<Rightarrow> x917_prng_t \<Rightarrow> u32 \<Rightarrow>
    (err_status_t \<times> 'w \<times> x917_prng_t \<times> octets) option" where
  "x917_prng_get_octet_string random_source w t x917_prng len = do {
     (status, w, x917_prng) \<leftarrow>
       (if x917_octet_count x917_prng > MAX_PRNG_OUT_LEN - len then x917_prng_init random_source w x917_prng
        else Some (err_status_ok, w, x917_prng));
     if status \<noteq> err_status_ok then Some (status, w, x917_prng, [])
     else do {
       let x917_prng = x917_prng\<lparr>x917_octet_count := x917_octet_count x917_prng + len\<rparr>;
       let (state, dest) = x917_prng_loop t (x917_key x917_prng) (unat len div 16) (x917_state x917_prng);
       let tail_len = unat len mod 16;
       let (state, tail) =
         (if tail_len \<noteq> 0 then map_prod id (take tail_len) (x917_prng_step t (x917_key x917_prng) state)
          else (state, []));
       Some (err_status_ok, w, x917_prng\<lparr>x917_state := state\<rparr>, dest @ tail)
     }
   }"

definition x917_prng_deinit :: err_status_t where
  "x917_prng_deinit = err_status_ok"

section \<open>The counter mode generator outputs a keystream\<close>

lemma aes_icm_context_init_at:
  assumes "length key = 32" and "length (round_key (icm_expanded_key c)) = 15"
  obtains c' where "aes_icm_context_init c key 30 = Some (err_status_ok, c')"
    "icm_at c' (take 16 key) (take 14 (drop 16 key) @ [0, 0]) 0"
proof -
  obtain c' where c': "aes_icm_context_init c key 30 = Some (err_status_ok, c')"
    "icm_keyed c' (take 16 key) (take 14 (drop 16 key) @ [0, 0])"
    using aes_icm_context_init_keyed [of 30 key c] assms by auto
  have "icm_counter c' = icm_offset c' \<and> bytes_in_buffer c' = 0"
    using c'(1) by (auto simp: aes_icm_context_init_def Let_def bind_eq_Some_conv split: if_splits prod.splits
      dest: arg_cong [where f = bytes_in_buffer])
  moreover have "length (icm_offset c') = 4" using c'(2) by (simp add: icm_keyed_def)
  ultimately have "aes_icm_set_iv c' [0, 0, 0, 0] = (err_status_ok, c')"
    by (auto simp: aes_icm_set_iv_def v128_xor_def length_Suc_conv eval_nat_numeral)
  moreover have "icm_start (take 14 (drop 16 key) @ [0, 0]) [0, 0, 0, 0] = take 14 (drop 16 key) @ [0, 0]"
  proof -
    have "bytes_le [0, 0, 0, 0] = replicate 16 0" by code_simp
    moreover have "map2 (XOR) xs (replicate (length xs) 0) = (xs :: octets)" for xs
      by (induction xs) simp_all
    from this [of "take 14 (drop 16 key) @ [0, 0]"] have
      "map2 (XOR) (take 14 (drop 16 key) @ [0, 0]) (replicate 16 0) = take 14 (drop 16 key) @ [0, 0]"
      using assms(1) by simp
    ultimately show ?thesis by (simp only: icm_start_def)
  qed
  ultimately have "icm_at c' (take 16 key) (take 14 (drop 16 key) @ [0, 0]) 0"
    using aes_icm_set_iv_at(2) [OF c'(2), of "[0, 0, 0, 0]"] by simp
  with c'(1) show ?thesis by (rule that)
qed

text \<open>The octets that successive requests yield.\<close>

fun ctr_prng_run :: "'w rand_source_func_t \<Rightarrow> 'w \<Rightarrow> ctr_prng_t \<Rightarrow> u32 list \<Rightarrow> octets option" where
  "ctr_prng_run random_source w ctr_prng [] = Some []"
| "ctr_prng_run random_source w ctr_prng (len # lens) = do {
     (status, w, ctr_prng, out) \<leftarrow> ctr_prng_get_octet_string random_source w ctr_prng len;
     if status \<noteq> err_status_ok then None
     else do {
       rest \<leftarrow> ctr_prng_run random_source w ctr_prng lens;
       Some (out @ rest)
     }
   }"

definition ctr_prng_at :: "ctr_prng_t \<Rightarrow> octets \<Rightarrow> octets \<Rightarrow> nat \<Rightarrow> bool" where
  "ctr_prng_at p key ctr pos \<longleftrightarrow> icm_at (ctr_state p) key ctr pos \<and> unat (ctr_octet_count p) = pos"

lemma no_reinit:
  assumes "unat c + unat len < 2 ^ 32"
  shows "\<not> c > MAX_PRNG_OUT_LEN - len"
proof -
  have "unat len \<le> unat (MAX_PRNG_OUT_LEN :: u32)" using assms by (simp add: MAX_PRNG_OUT_LEN_def)
  then have "unat (MAX_PRNG_OUT_LEN - len) = 2 ^ 32 - 1 - unat len"
    by (subst unat_sub) (simp_all add: word_le_nat_alt MAX_PRNG_OUT_LEN_def)
  then show ?thesis using assms by (simp add: word_less_nat_alt)
qed

lemma xor_zeros: "map2 (XOR) (replicate (length s) 0) s = (s :: octets)"
  by (induction s) simp_all

lemma ctr_prng_get_at:
  assumes at: "ctr_prng_at p key ctr pos" and room: "unat len + pos + ctr_index ctr 0 \<le> 0xffff"
  obtains p' where "ctr_prng_get_octet_string random_source w p len =
      Some (err_status_ok, w, p', icm_stream key ctr pos (unat len))" "ctr_prng_at p' key ctr (pos + unat len)"
proof -
  have "(pos + 15) div 16 \<le> pos" by (cases "pos = 0") auto
  then have "length (replicate (unat len) (0 :: u8)) + ctr_index ctr ((pos + 15) div 16) \<le> 0xffff"
    using room by (simp add: ctr_index_def)
  moreover have "icm_at (ctr_state p) key ctr pos" using at by (simp add: ctr_prng_at_def)
  ultimately obtain c' where c': "aes_icm_output (ctr_state p) (unat len) =
      (err_status_ok, c', icm_stream key ctr pos (unat len))" "icm_at c' key ctr (pos + unat len)"
    using aes_icm_encrypt_stream [of "ctr_state p" key ctr pos "replicate (unat len) 0"]
      xor_zeros [of "icm_stream key ctr pos (unat len)"] by (auto simp: aes_icm_output_def)
  have small: "unat (ctr_octet_count p) + unat len < 2 ^ 32" using at room by (simp add: ctr_prng_at_def)
  then have "unat (ctr_octet_count p + len) = pos + unat len"
    using at by (simp add: unat_word_ariths ctr_prng_at_def)
  with no_reinit [OF small] c' show ?thesis
    by (intro that [of "p\<lparr>ctr_octet_count := ctr_octet_count p + len, ctr_state := c'\<rparr>"])
      (simp_all add: ctr_prng_get_octet_string_def ctr_prng_at_def)
qed

lemma ctr_prng_run_at:
  assumes "ctr_prng_at p key ctr pos" and "sum_list (map unat lens) + pos + ctr_index ctr 0 \<le> 0xffff"
  shows "ctr_prng_run random_source w p lens = Some (icm_stream key ctr pos (sum_list (map unat lens)))"
  using assms
proof (induction lens arbitrary: p pos)
  case (Cons len lens)
  obtain p' where p': "ctr_prng_get_octet_string random_source w p len =
      Some (err_status_ok, w, p', icm_stream key ctr pos (unat len))" "ctr_prng_at p' key ctr (pos + unat len)"
    by (rule ctr_prng_get_at [OF Cons.prems(1), of len]) (use Cons.prems(2) in auto)
  show ?case using p'(1) Cons.IH [OF p'(2)] Cons.prems(2) by (simp add: icm_stream_append)
qed (simp add: icm_stream_def)

text \<open>
  Seeded with 32 random octets, \<^verbatim>\<open>ctr_prng\<close> answers requests of together at most 65535 octets with
  the AES-128 counter mode keystream of FIPS 197 under the first 16 octets, started at the next 14;
  how the requests are cut does not matter.
\<close>

theorem ctr_prng_correct:
  assumes "random_source w 32 = Some (err_status_ok, w', k)" and "length k = 32"
    and "length (round_key (icm_expanded_key (ctr_state p))) = 15" and "sum_list (map unat lens) \<le> 65535"
  shows "\<exists>p'. ctr_prng_init random_source w p = Some (err_status_ok, w', p') \<and>
    ctr_prng_run random_source w' p' lens =
      Some (icm_stream (take 16 k) (take 14 (drop 16 k) @ [0, 0]) 0 (sum_list (map unat lens)))"
proof -
  obtain c where c: "aes_icm_context_init (ctr_state p) k 30 = Some (err_status_ok, c)"
    "icm_at c (take 16 k) (take 14 (drop 16 k) @ [0, 0]) 0"
    using aes_icm_context_init_at [OF assms(2,3)] by blast
  let ?p = "p\<lparr>ctr_octet_count := 0, ctr_state := c\<rparr>"
  have "ctr_prng_init random_source w p = Some (err_status_ok, w', ?p)"
    using assms(1) c(1) by (simp add: ctr_prng_init_def)
  moreover have "ctr_prng_at ?p (take 16 k) (take 14 (drop 16 k) @ [0, 0]) 0"
    using c(2) by (simp add: ctr_prng_at_def)
  moreover have "ctr_index (take 14 (drop 16 k) @ [0, 0]) 0 = 0"
    using assms(2) by (simp add: ctr_index_def nth_append)
  ultimately show ?thesis using ctr_prng_run_at assms(4) by fastforce
qed

theorem ctr_prng_correct_witness:
  "\<exists>p'. ctr_prng_init (\<lambda>w n. Some (err_status_ok, Suc w, replicate n 9)) 0
      \<lparr>ctr_octet_count = 7, ctr_state = \<lparr>icm_counter = [], icm_offset = [], keystream_buffer = [],
        icm_expanded_key = \<lparr>round_key = replicate 15 [], num_rounds = 0\<rparr>, bytes_in_buffer = 9\<rparr>\<rparr> = Some (err_status_ok, 1, p') \<and>
    ctr_prng_run (\<lambda>w n. Some (err_status_ok, Suc w, replicate n 9)) 1 p' [5, 20] =
      Some (icm_stream (replicate 16 9) (replicate 14 9 @ [0, 0]) 0 25)"
  using ctr_prng_correct [of "\<lambda>w n. Some (err_status_ok, Suc w, replicate n 9)" 0 1 "replicate 32 9"
      "\<lparr>ctr_octet_count = 7, ctr_state = \<lparr>icm_counter = [], icm_offset = [], keystream_buffer = [],
        icm_expanded_key = \<lparr>round_key = replicate 15 [], num_rounds = 0\<rparr>, bytes_in_buffer = 9\<rparr>\<rparr>" "[5, 20]"]
  by (simp add: take_replicate)

section \<open>A used-up segment\<close>

lemma ctr_prng_get_exhausted:
  assumes "icm_at (ctr_state p) key ctr pos" and "ctr_index ctr ((pos + 15) div 16) \<le> 0xffff"
    and "unat len + ctr_index ctr ((pos + 15) div 16) > 0xffff" and "unat len < 2 ^ 31"
    and "unat (ctr_octet_count p) + unat len < 2 ^ 32"
  shows "ctr_prng_get_octet_string random_source w p len =
    Some (err_status_terminus, w, p\<lparr>ctr_octet_count := ctr_octet_count p + len\<rparr>, replicate (unat len) 0)"
proof -
  have "\<not> ctr_octet_count p > MAX_PRNG_OUT_LEN - len" by (rule no_reinit [OF assms(5)])
  moreover have "aes_icm_output (ctr_state p) (unat len) = (err_status_terminus, ctr_state p, replicate (unat len) 0)"
    using segment_check [OF assms(1,2), of "replicate (unat len) 0"] assms(3,4)
    by (simp add: aes_icm_output_def aes_icm_encrypt_def aes_icm_encrypt_ismacryp_def)
  ultimately show ?thesis by (simp add: ctr_prng_get_octet_string_def)
qed

text \<open>
  The generator does not recover from the end of its segment: it re-seeds itself after \<open>2\<^sup>3\<^sup>2\<close>
  octets only, while the counter mode refuses a request once the octets asked for and the block
  counter exceed 65535. From there on each of the next \<open>n\<close> requests fails with \<^verbatim>\<open>terminus\<close>, for every
  \<open>n\<close> that the octet counter can still count.
\<close>

theorem ctr_prng_starves:
  assumes "icm_at (ctr_state p) key ctr pos" and "ctr_index ctr ((pos + 15) div 16) \<le> 0xffff"
    and "unat len + ctr_index ctr ((pos + 15) div 16) > 0xffff" and "unat len < 2 ^ 31"
    and "unat (ctr_octet_count p) + Suc n * unat len < 2 ^ 32"
  shows "ctr_prng_get_octet_string random_source w
      (((\<lambda>p. case ctr_prng_get_octet_string random_source w p len of Some (_, _, p', _) \<Rightarrow> p') ^^ n) p) len =
    Some (err_status_terminus, w, p\<lparr>ctr_octet_count := ctr_octet_count p + word_of_nat (Suc n) * len\<rparr>, replicate (unat len) 0)"
proof -
  let ?step = "\<lambda>p. case ctr_prng_get_octet_string random_source w p len of Some (_, _, p', _) \<Rightarrow> p'"
  have count: "unat (ctr_octet_count p + word_of_nat k * len) = unat (ctr_octet_count p) + k * unat len" if "k \<le> n" for k
  proof -
    have "k * unat len \<le> n * unat len" by (rule mult_le_mono1 [OF that])
    then have "unat (ctr_octet_count p) + k * unat len < 2 ^ 32" using assms(5) unfolding mult_Suc by linarith
    then have "unat (word_of_nat (unat (ctr_octet_count p) + k * unat len) :: u32) = unat (ctr_octet_count p) + k * unat len"
      unfolding unsigned_of_nat of_nat_id by (intro take_bit_nat_eq_self) simp
    then show ?thesis by simp
  qed
  have get: "ctr_prng_get_octet_string random_source w (p\<lparr>ctr_octet_count := ctr_octet_count p + word_of_nat k * len\<rparr>) len =
      Some (err_status_terminus, w, p\<lparr>ctr_octet_count := ctr_octet_count p + word_of_nat (Suc k) * len\<rparr>, replicate (unat len) 0)"
    if "k \<le> n" for k
  proof -
    have "k * unat len \<le> n * unat len" by (rule mult_le_mono1 [OF that])
    then have "unat (ctr_octet_count p + word_of_nat k * len) + unat len < 2 ^ 32"
      unfolding count [OF that] using assms(5) unfolding mult_Suc by linarith
    with assms(1-4) show ?thesis
      by (subst ctr_prng_get_exhausted) (simp_all add: algebra_simps)
  qed
  have "(?step ^^ k) p = p\<lparr>ctr_octet_count := ctr_octet_count p + word_of_nat k * len\<rparr>" if "k \<le> n" for k
    using that
  proof (induction k)
    case (Suc k)
    then show ?case using get [of k] by simp
  qed simp
  with get [of n] show ?thesis by simp
qed

theorem ctr_prng_starves_witness:
  "\<exists>c1. aes_icm_context_init \<lparr>icm_counter = [], icm_offset = [], keystream_buffer = [],
        icm_expanded_key = \<lparr>round_key = replicate 15 [], num_rounds = 0\<rparr>, bytes_in_buffer = 9\<rparr> (replicate 32 5) 30
      = Some (err_status_ok, c1) \<and>
    (let p = \<lparr>ctr_octet_count = 100, ctr_state = snd (aes_icm_set_iv c1 [0, 0, 0, 0xffff0000])\<rparr>;
         rand = \<lambda>w n. Some (err_status_ok, Suc w, replicate n 9)
     in ctr_prng_get_octet_string rand 0
          (((\<lambda>p. case ctr_prng_get_octet_string rand 0 p 1 of Some (_, _, p', _) \<Rightarrow> p') ^^ 3) p) 1 =
        Some (err_status_terminus, 0, p\<lparr>ctr_octet_count := 104\<rparr>, [0]))"
proof -
  let ?c = "\<lparr>icm_counter = [], icm_offset = [], keystream_buffer = [],
        icm_expanded_key = \<lparr>round_key = replicate 15 [], num_rounds = 0\<rparr>, bytes_in_buffer = 9\<rparr>"
  let ?iv = "[0, 0, 0, 0xffff0000] :: v128_t"
  obtain c1 where c1: "aes_icm_context_init ?c (replicate 32 5) 30 = Some (err_status_ok, c1)"
    "icm_keyed c1 (replicate 16 5) (replicate 14 5 @ [0, 0])"
    using aes_icm_context_init_keyed [of 30 "replicate 32 5" ?c] by (auto simp: take_replicate)
  let ?ctr = "icm_start (replicate 14 5 @ [0, 0]) ?iv"
  have at: "icm_at (ctr_state \<lparr>ctr_octet_count = 100, ctr_state = snd (aes_icm_set_iv c1 ?iv)\<rparr>) (replicate 16 5) ?ctr 0"
    using aes_icm_set_iv_at(2) [OF c1(2), of ?iv] by simp
  have "?ctr ! 14 = 255" "?ctr ! 15 = 255" by code_simp+
  then have idx: "ctr_index ?ctr ((0 + 15) div 16) = 0xffff" by (simp only: ctr_index_def) simp
  from ctr_prng_starves [OF at, unfolded idx, of 1 3 "\<lambda>w n. Some (err_status_ok, Suc w, replicate n 9)" 0] c1(1)
  show ?thesis by (simp add: Let_def del: funpow.simps)
qed

end
