(* ===== verification/Stat.thy ===== *)
theory Stat
  imports Datatypes Rng
begin

text \<open>
  \<^verbatim>\<open>srtp/crypto/math/stat.c\<close>: the statistical tests of FIPS 140-2 on 20000 bits. The runs test is shown
  to count the maximal runs of equal bits, and the test of a random source, which reads the bits in
  portions and counts everything in one pass, to agree with the three tests on the whole sample.
\<close>

section \<open>The tests\<close>

definition STAT_TEST_DATA_LEN :: nat where
  "STAT_TEST_DATA_LEN = 2500"

definition stat_test_monobit :: "octets \<Rightarrow> err_status_t option" where
  "stat_test_monobit data =
     (if length data < STAT_TEST_DATA_LEN then None
      else let ones_count = fold (\<lambda>d c. c + word_of_int (octet_get_weight d)) (take STAT_TEST_DATA_LEN data) (0 :: u16)
           in if ones_count < 9725 \<or> ones_count > 10275 then Some err_status_algo_fail else Some err_status_ok)"

text \<open>The frequency counts of the 16 nibble values.\<close>

definition poker_octet :: "u8 \<Rightarrow> u16 list \<Rightarrow> u16 list" where
  "poker_octet d f =
     (let lo = unat (d AND 0x0f); f = f[lo := f ! lo + 1]; hi = unat (drop_bit 4 d) in f[hi := f ! hi + 1])"

text \<open>
  The source computes \<open>S * (16.0 / 5000.0) - 5000.0\<close> in doubles, for the sum \<open>S\<close> of the squares, and
  compares with 2.16 and 46.17. The comparison here is the exact one, scaled by 5000. The two agree:
  \<open>S\<close> has the parity of the number of nibbles, so it is even and never equals 1563175, the only integer
  at which the scaled comparison is tight.
\<close>

definition poker_check :: "u16 list \<Rightarrow> bool" where
  "poker_check f =
     (let S = sum_list (map (\<lambda>i. uint (f ! i) * uint (f ! i)) [0..<16]);
          poker = 16 * S - 25000000
      in poker < 10800 \<or> poker > 230850)"

definition stat_test_poker :: "octets \<Rightarrow> err_status_t option" where
  "stat_test_poker data =
     (if length data < STAT_TEST_DATA_LEN then None
      else if poker_check (fold poker_octet (take STAT_TEST_DATA_LEN data) (replicate 16 0))
      then Some err_status_algo_fail else Some err_status_ok)"

definition lo_value :: "u16 list" where
  "lo_value = [2315, 1114, 527, 240, 103, 103]"

definition hi_value :: "u16 list" where
  "hi_value = [2685, 1386, 723, 384, 209, 209]"

text \<open>
  The state of the runs test: the length of the current run, negative for a gap, and the numbers of
  runs and gaps by length. \<open>None\<close> is the early return on a run or gap of more than 25 bits.
\<close>

type_synonym runs_t = "int \<times> u16 list \<times> u16 list"

definition runs_bit :: "bool \<Rightarrow> runs_t \<Rightarrow> runs_t option" where
  "runs_bit b st =
     (case st of (state, runs, gaps) \<Rightarrow>
        if b then
          if state > 0 then
            let state = state + 1 in if state > 25 then None else Some (state, runs, gaps)
          else if state < 0 then
            if state < -25 then None
            else let state = (if state < -6 then -6 else state); i = nat (-1 - state)
                 in Some (1, runs, gaps[i := gaps ! i + 1])
          else Some (1, runs, gaps)
        else
          if state > 0 then
            if state > 25 then None
            else let state = (if state > 6 then 6 else state); i = nat (state - 1)
                 in Some (-1, runs[i := runs ! i + 1], gaps)
          else if state < 0 then
            let state = state - 1 in if state < -25 then None else Some (state, runs, gaps)
          else Some (-1, runs, gaps))"

fun runs_bits :: "bool list \<Rightarrow> runs_t \<Rightarrow> runs_t option" where
  "runs_bits [] st = Some st"
| "runs_bits (b # bs) st = Option.bind (runs_bit b st) (runs_bits bs)"

definition octet_bits :: "u8 \<Rightarrow> bool list" where
  "octet_bits d = map (bit d) [0..<8]"

definition runs_check :: "u16 list \<Rightarrow> u16 list \<Rightarrow> bool" where
  "runs_check runs gaps \<longleftrightarrow> (\<exists>i \<in> set [0..<6]. runs ! i < lo_value ! i \<or> runs ! i > hi_value ! i
     \<or> gaps ! i < lo_value ! i \<or> gaps ! i > hi_value ! i)"

definition stat_test_runs :: "octets \<Rightarrow> err_status_t option" where
  "stat_test_runs data =
     (if length data < STAT_TEST_DATA_LEN then None
      else case runs_bits (concat (map octet_bits (take STAT_TEST_DATA_LEN data))) (0, replicate 6 0, replicate 6 0) of
        None \<Rightarrow> Some err_status_algo_fail
      | Some (_, runs, gaps) \<Rightarrow>
          if runs_check runs gaps then Some err_status_algo_fail else Some err_status_ok)"

definition RAND_SRC_BUF_OCTETS :: nat where
  "RAND_SRC_BUF_OCTETS = 50"

record stat_ctx_t =
  ones_count :: int
  stat_freq :: "u16 list"
  stat_runs :: runs_t

text \<open>The inner loop over the buffer; \<open>None\<close> is the early return with \<^verbatim>\<open>algo_fail\<close>.\<close>

fun stat_buffer :: "octets \<Rightarrow> stat_ctx_t \<Rightarrow> stat_ctx_t option" where
  "stat_buffer [] s = Some s"
| "stat_buffer (d # ds) s =
     (let s = s\<lparr>ones_count := ones_count s + octet_get_weight d, stat_freq := poker_octet d (stat_freq s)\<rparr>
      in case runs_bits (octet_bits d) (stat_runs s) of None \<Rightarrow> None
         | Some r \<Rightarrow> stat_buffer ds (s\<lparr>stat_runs := r\<rparr>))"

fun stat_source_loop :: "'w rand_source_func_t \<Rightarrow> nat \<Rightarrow> 'w \<Rightarrow> stat_ctx_t \<Rightarrow> (err_status_t \<times> 'w \<times> stat_ctx_t) option" where
  "stat_source_loop get_rand_bytes 0 w s = Some (err_status_ok, w, s)"
| "stat_source_loop get_rand_bytes (Suc n) w s = do {
     (status, w, buffer) \<leftarrow> get_rand_bytes w RAND_SRC_BUF_OCTETS;
     if status \<noteq> err_status_ok then Some (status, w, s)
     else case stat_buffer buffer s of
       None \<Rightarrow> Some (err_status_algo_fail, w, s)
     | Some s \<Rightarrow> stat_source_loop get_rand_bytes n w s
   }"

definition stat_test_rand_source :: "'w rand_source_func_t \<Rightarrow> 'w \<Rightarrow> (err_status_t \<times> 'w) option" where
  "stat_test_rand_source get_rand_bytes w = do {
     (status, w, s) \<leftarrow> stat_source_loop get_rand_bytes (2500 div RAND_SRC_BUF_OCTETS) w
       \<lparr>ones_count = 0, stat_freq = replicate 16 0, stat_runs = (0, replicate 6 0, replicate 6 0)\<rparr>;
     if status \<noteq> err_status_ok then Some (status, w)
     else if ones_count s < 9725 \<or> ones_count s > 10275 then Some (err_status_algo_fail, w)
     else if poker_check (stat_freq s) then Some (err_status_algo_fail, w)
     else if runs_check (fst (snd (stat_runs s))) (snd (snd (stat_runs s))) then Some (err_status_algo_fail, w)
     else Some (err_status_ok, w)
   }"

fun stat_repetition_loop :: "'w rand_source_func_t \<Rightarrow> nat \<Rightarrow> err_status_t \<Rightarrow> 'w \<Rightarrow> (err_status_t \<times> 'w) option" where
  "stat_repetition_loop source 0 err w = Some (err, w)"
| "stat_repetition_loop source (Suc n) err w = do {
     (err, w) \<leftarrow> stat_test_rand_source source w;
     if err = err_status_ok then Some (err_status_ok, w) else stat_repetition_loop source n err w
   }"

definition stat_test_rand_source_with_repetition :: "'w rand_source_func_t \<Rightarrow> nat \<Rightarrow> 'w \<Rightarrow> (err_status_t \<times> 'w) option" where
  "stat_test_rand_source_with_repetition source num_trials w =
     stat_repetition_loop source num_trials err_status_algo_fail w"

section \<open>The runs test counts maximal runs\<close>

text \<open>The maximal runs of a bit sequence, last one first; runs of zeros have a negative length.\<close>

fun extend_run :: "bool \<Rightarrow> int list \<Rightarrow> int list" where
  "extend_run b [] = [if b then 1 else -1]"
| "extend_run b (r # rs) =
     (if b \<longleftrightarrow> r > 0 then (if b then r + 1 else r - 1) # rs else (if b then 1 else -1) # r # rs)"

definition signed_runs :: "bool list \<Rightarrow> int list" where
  "signed_runs bs = fold extend_run bs []"

text \<open>The runs of \<open>i + 1\<close> ones, those of more than five together, and likewise the gaps.\<close>

definition run_count :: "int list \<Rightarrow> nat \<Rightarrow> nat" where
  "run_count rs i = length (filter (\<lambda>r. min 6 r = int i + 1) rs)"

definition gap_count :: "int list \<Rightarrow> nat \<Rightarrow> nat" where
  "gap_count rs i = run_count (map uminus rs) i"

definition runs_repr :: "runs_t \<Rightarrow> int list \<Rightarrow> bool" where
  "runs_repr st rs \<longleftrightarrow> (case st of (state, runs, gaps) \<Rightarrow>
     state = (case rs of [] \<Rightarrow> 0 | r # _ \<Rightarrow> r) \<and>
     runs = map (\<lambda>i. word_of_nat (run_count (tl rs) i)) [0..<6] \<and>
     gaps = map (\<lambda>i. word_of_nat (gap_count (tl rs) i)) [0..<6])"

lemma extend_run_nonzero: "0 \<notin> set rs \<Longrightarrow> 0 \<notin> set (extend_run b rs)"
  by (cases rs) auto

lemma extend_run_long: "(\<exists>r \<in> set rs. \<bar>r\<bar> > 25) \<Longrightarrow> \<exists>r \<in> set (extend_run b rs). \<bar>r\<bar> > 25"
  by (cases rs) (auto split: if_splits)

lemma run_count_Cons: "run_count (r # rs) i = (if min 6 r = int i + 1 then Suc (run_count rs i) else run_count rs i)"
  by (simp add: run_count_def)

lemma count_update:
  assumes "j < 6" and "f = map (\<lambda>i. word_of_nat (g i) :: u16) [0..<6]"
    and "\<And>i. g' i = (if i = j then Suc (g i) else g i)"
  shows "f[j := f ! j + 1] = map (\<lambda>i. word_of_nat (g' i)) [0..<6]"
  by (rule nth_equalityI) (use assms in \<open>auto simp: nth_list_update\<close>)

lemma runs_bit_repr:
  assumes rep: "runs_repr st rs" and short: "\<forall>r \<in> set rs. \<bar>r\<bar> \<le> 25" and nz: "0 \<notin> set rs"
  shows "case runs_bit b st of None \<Rightarrow> \<exists>r \<in> set (extend_run b rs). \<bar>r\<bar> > 25
    | Some st' \<Rightarrow> runs_repr st' (extend_run b rs) \<and> (\<forall>r \<in> set (extend_run b rs). \<bar>r\<bar> \<le> 25)"
proof -
  obtain state runs gaps where st: "st = (state, runs, gaps)" by (cases st)
  show ?thesis
  proof (cases rs)
    case Nil
    with rep st show ?thesis by (auto simp: runs_repr_def runs_bit_def run_count_def gap_count_def)
  next
    case (Cons r rs')
    have r: "r \<noteq> 0" "\<bar>r\<bar> \<le> 25" "state = r" using Cons rep short nz st by (auto simp: runs_repr_def)
    have runs: "runs = map (\<lambda>i. word_of_nat (run_count rs' i)) [0..<6]"
      and gaps: "gaps = map (\<lambda>i. word_of_nat (gap_count rs' i)) [0..<6]"
      using Cons rep st by (auto simp: runs_repr_def simp del: upt_rec_numeral)
    have same: "run_count (r # rs') i = run_count rs' i" if "r < 0" for i
      using that by (auto simp: run_count_Cons)
    have same': "gap_count (r # rs') i = gap_count rs' i" if "r > 0" for i
      using that by (auto simp: run_count_Cons gap_count_def)
    have up: "runs[nat (min 6 r - 1) := runs ! nat (min 6 r - 1) + 1] =
        map (\<lambda>i. word_of_nat (run_count (r # rs') i)) [0..<6]" if "r > 0"
      by (rule count_update [OF _ runs]) (use that in \<open>auto simp: run_count_Cons\<close>)
    have up': "gaps[nat (min 6 (- r) - 1) := gaps ! nat (min 6 (- r) - 1) + 1] =
        map (\<lambda>i. word_of_nat (gap_count (r # rs') i)) [0..<6]" if "r < 0"
      by (rule count_update [OF _ gaps]) (use that in \<open>auto simp: run_count_Cons gap_count_def\<close>)
    have mins: "(if r > 6 then 6 else r) - 1 = min 6 r - 1"
      "-1 - (if r < -6 then -6 else r) = min 6 (- r) - 1" by auto
    show ?thesis
      using r Cons short up up' runs gaps
      by (auto simp: st runs_bit_def runs_repr_def Let_def same same' mins simp del: upt_rec_numeral)
  qed
qed

lemma runs_bits_repr:
  assumes "runs_repr st rs" and "\<forall>r \<in> set rs. \<bar>r\<bar> \<le> 25" and "0 \<notin> set rs"
  shows "case runs_bits bs st of None \<Rightarrow> \<exists>r \<in> set (fold extend_run bs rs). \<bar>r\<bar> > 25
    | Some st' \<Rightarrow> runs_repr st' (fold extend_run bs rs) \<and> (\<forall>r \<in> set (fold extend_run bs rs). \<bar>r\<bar> \<le> 25)"
  using assms
proof (induction bs arbitrary: st rs)
  case (Cons b bs)
  have long: "(\<exists>r \<in> set rs. \<bar>r\<bar> > 25) \<Longrightarrow> \<exists>r \<in> set (fold extend_run bs rs). \<bar>r\<bar> > 25" for rs
    by (induction bs arbitrary: rs) (use extend_run_long in simp_all)
  show ?case
  proof (cases "runs_bit b st")
    case None
    then show ?thesis using runs_bit_repr [OF Cons.prems, of b] long by simp
  next
    case (Some st')
    then have "runs_repr st' (extend_run b rs)" "\<forall>r \<in> set (extend_run b rs). \<bar>r\<bar> \<le> 25"
      using runs_bit_repr [OF Cons.prems, of b] by simp_all
    from Cons.IH [OF this extend_run_nonzero [OF Cons.prems(3)]] Some show ?thesis
      by (auto split: option.splits)
  qed
qed simp

lemma length_extend_run: "sum_list (map abs (extend_run b rs)) = sum_list (map abs rs) + 1" if "0 \<notin> set rs"
  using that by (cases rs) auto

lemma sum_signed_runs: "sum_list (map abs (fold extend_run bs rs)) = sum_list (map abs rs) + int (length bs)" if "0 \<notin> set rs"
  using that
proof (induction bs arbitrary: rs)
  case (Cons b bs)
  then show ?case using length_extend_run [OF Cons.prems, of b] extend_run_nonzero by simp
qed simp

lemma signed_runs_nonzero: "0 \<notin> set (fold extend_run bs rs)" if "0 \<notin> set rs"
  using that by (induction bs arbitrary: rs) (simp_all add: extend_run_nonzero)

lemma length_le_sum_abs: "0 \<notin> set rs \<Longrightarrow> int (length rs) \<le> sum_list (map abs rs)" for rs :: "int list"
  by (induction rs) auto

lemma length_signed_runs: "length (signed_runs bs) \<le> length bs"
  using length_le_sum_abs [OF signed_runs_nonzero, of "[]" bs] sum_signed_runs [of "[]" bs]
  by (simp add: signed_runs_def)


lemma run_count_bound: "run_count rs i \<le> length rs" "gap_count rs i \<le> length rs"
  using length_filter_le by (auto simp: run_count_def gap_count_def intro: order_trans)

lemma length_octet_bits: "length (concat (map octet_bits ds)) = 8 * length ds"
  by (induction ds) (simp_all add: octet_bits_def)

text \<open>
  The runs test: on 2500 octets of data, read bit by bit from the least significant one, it fails
  exactly when some maximal run of equal bits is longer than 25 or the number of runs or gaps of some
  length, the last one of the data not counted, is outside its limits.
\<close>

theorem stat_test_runs_correct:
  assumes "length data = 2500"
  defines "rs \<equiv> signed_runs (concat (map octet_bits data))"
  shows "stat_test_runs data = Some
    (if (\<exists>r \<in> set rs. \<bar>r\<bar> > 25) \<or>
        (\<exists>i < 6. run_count (tl rs) i \<notin> {unat (lo_value ! i)..unat (hi_value ! i)} \<or>
                  gap_count (tl rs) i \<notin> {unat (lo_value ! i)..unat (hi_value ! i)})
     then err_status_algo_fail else err_status_ok)"
proof -
  let ?bits = "concat (map octet_bits data)"
  let ?init = "(0, replicate 6 0, replicate 6 0) :: runs_t"
  have init: "runs_repr ?init []"
    by (simp add: runs_repr_def run_count_def gap_count_def map_replicate_const)
  have data: "take STAT_TEST_DATA_LEN data = data" "\<not> length data < STAT_TEST_DATA_LEN"
    using assms(1) by (simp_all add: STAT_TEST_DATA_LEN_def)
  note bits = runs_bits_repr [OF init, of ?bits, folded signed_runs_def, folded rs_def, simplified]
  have small: "run_count (tl rs) i < 2 ^ 16" "gap_count (tl rs) i < 2 ^ 16" for i
    using run_count_bound [of "tl rs" i] length_signed_runs [of ?bits] length_octet_bits [of data] assms(1)
    by (simp_all add: rs_def)
  have val: "unat (word_of_nat n :: u16) = n" if "n < 2 ^ 16" for n
    using that unfolding unsigned_of_nat of_nat_id by (intro take_bit_nat_eq_self) simp
  show ?thesis
  proof (cases "runs_bits ?bits ?init")
    case None
    then show ?thesis using bits data by (simp add: stat_test_runs_def)
  next
    case (Some st)
    obtain state runs gaps where st: "st = (state, runs, gaps)" by (cases st)
    have rep: "runs = map (\<lambda>i. word_of_nat (run_count (tl rs) i)) [0..<6]"
      "gaps = map (\<lambda>i. word_of_nat (gap_count (tl rs) i)) [0..<6]" and short: "\<not> (\<exists>r \<in> set rs. \<bar>r\<bar> > 25)"
      using bits Some st by (auto simp: runs_repr_def not_less simp del: upt_rec_numeral)
    have "runs_check runs gaps \<longleftrightarrow>
        (\<exists>i < 6. run_count (tl rs) i \<notin> {unat (lo_value ! i)..unat (hi_value ! i)} \<or>
                  gap_count (tl rs) i \<notin> {unat (lo_value ! i)..unat (hi_value ! i)})"
      unfolding runs_check_def rep
      by (auto simp: Bex_def word_less_nat_alt val [OF small(1)] val [OF small(2)] not_le simp del: upt_rec_numeral)
    then show ?thesis using Some st data short by (simp add: stat_test_runs_def del: atLeastAtMost_iff)
  qed
qed

theorem stat_test_runs_correct_witness:
  "stat_test_runs (replicate 2500 0xff) = Some err_status_algo_fail"
proof -
  define rs where "rs = signed_runs (concat (map octet_bits (replicate 2500 0xff)))"
  have grow: "fold extend_run (replicate n True) [r] = [r + int n]" if "0 < r" for n r
    using that by (induction n arbitrary: r) auto
  have "concat (map octet_bits (replicate n 0xff)) = replicate (8 * n) True" for n
  proof (induction n)
    case (Suc n)
    have "octet_bits 0xff = replicate 8 True" by code_simp
    with Suc show ?case by (simp add: replicate_add [symmetric])
  qed simp
  then have "rs = fold extend_run (replicate (Suc 19999) True) []" by (simp add: rs_def signed_runs_def del: replicate_Suc)
  also have "\<dots> = [20000]" unfolding replicate_Suc fold_simps using grow [of 1 19999] by simp
  finally have "\<exists>r \<in> set rs. \<bar>r\<bar> > 25" by simp
  then show ?thesis using stat_test_runs_correct [of "replicate 2500 0xff"] by (simp add: rs_def)
qed

section \<open>The one-pass test of a source\<close>

text \<open>What a source that does not fail delivers in \<open>n\<close> requests.\<close>

fun fetched :: "'w rand_source_func_t \<Rightarrow> nat \<Rightarrow> 'w \<Rightarrow> octets option" where
  "fetched get 0 w = Some []"
| "fetched get (Suc n) w =
     (case get w RAND_SRC_BUF_OCTETS of
        Some (status, w, buffer) \<Rightarrow>
          if status = err_status_ok \<and> length buffer = RAND_SRC_BUF_OCTETS
          then map_option ((@) buffer) (fetched get n w) else None
      | None \<Rightarrow> None)"

definition weight_sum :: "octets \<Rightarrow> int" where
  "weight_sum ds = sum_list (map octet_get_weight ds)"

lemma runs_bits_append: "runs_bits (xs @ ys) st = Option.bind (runs_bits xs st) (runs_bits ys)"
  by (induction xs arbitrary: st) (auto split: bind_splits)

lemma stat_buffer_eq:
  "stat_buffer ds s = map_option (\<lambda>r. s\<lparr>ones_count := ones_count s + weight_sum ds,
     stat_freq := fold poker_octet ds (stat_freq s), stat_runs := r\<rparr>) (runs_bits (concat (map octet_bits ds)) (stat_runs s))"
  by (induction ds arbitrary: s)
    (auto simp: weight_sum_def runs_bits_append Let_def add.assoc split: option.splits bind_splits)

lemma stat_buffer_append: "stat_buffer (xs @ ys) s = Option.bind (stat_buffer xs s) (stat_buffer ys)"
  by (induction xs arbitrary: s) (auto simp: Let_def split: option.splits)

lemma stat_source_loop_fetched:
  assumes "fetched get n w = Some data"
  shows "\<exists>w' s'. stat_source_loop get n w s = Some
    (case stat_buffer data s of None \<Rightarrow> (err_status_algo_fail, w', s') | Some s \<Rightarrow> (err_status_ok, w', s))"
  using assms
proof (induction n arbitrary: w s data)
  case (Suc n)
  then obtain w1 buffer rest where b: "get w RAND_SRC_BUF_OCTETS = Some (err_status_ok, w1, buffer)"
    "fetched get n w1 = Some rest" "data = buffer @ rest"
    by (auto split: option.splits if_splits)
  show ?case
    using Suc.IH [OF b(2)] b by (cases "stat_buffer buffer s") (simp_all add: stat_buffer_append)
qed simp

lemma octet_get_weight_range: "0 \<le> octet_get_weight d \<and> octet_get_weight d \<le> 8"
  by (rule all_u8I [of _ d]) code_simp

lemma weight_sum_range: "0 \<le> weight_sum ds \<and> weight_sum ds \<le> 8 * int (length ds)"
proof (induction ds)
  case (Cons d ds)
  then show ?case using octet_get_weight_range [of d] by (simp add: weight_sum_def)
qed (simp add: weight_sum_def)

lemma fold_weights: "fold (\<lambda>d c. c + word_of_int (octet_get_weight d)) ds c = c + (word_of_int (weight_sum ds) :: u16)"
  by (induction ds arbitrary: c) (simp_all add: weight_sum_def)

lemma stat_test_monobit_iff:
  assumes "length data = 2500"
  shows "stat_test_monobit data = Some (if weight_sum data < 9725 \<or> weight_sum data > 10275 then err_status_algo_fail else err_status_ok)"
proof -
  have "uint (word_of_int (weight_sum data) :: u16) = weight_sum data"
    using weight_sum_range [of data] assms by (simp add: uint_word_of_int_eq take_bit_int_eq_self)
  then show ?thesis
    using assms by (auto simp: stat_test_monobit_def STAT_TEST_DATA_LEN_def fold_weights word_less_def)
qed

lemma fetched_length: "fetched get n w = Some data \<Longrightarrow> length data = n * RAND_SRC_BUF_OCTETS"
  by (induction n arbitrary: w data) (auto split: option.splits if_splits)

text \<open>
  One pass over a random source is the three tests on what it delivers: when 50 requests of 50
  octets succeed, \<^verbatim>\<open>stat_test_rand_source\<close> accepts the source exactly when the monobit, poker and runs
  tests all accept the 2500 octets.
\<close>

theorem stat_test_rand_source_correct:
  assumes "fetched get 50 w = Some data"
  shows "\<exists>w'. stat_test_rand_source get w = Some
    (if stat_test_monobit data = Some err_status_ok \<and> stat_test_poker data = Some err_status_ok \<and>
        stat_test_runs data = Some err_status_ok
     then err_status_ok else err_status_algo_fail, w')"
proof -
  have len: "length data = 2500" using fetched_length [OF assms] by (simp add: RAND_SRC_BUF_OCTETS_def)
  then have data: "take STAT_TEST_DATA_LEN data = data" "\<not> length data < STAT_TEST_DATA_LEN"
    by (simp_all add: STAT_TEST_DATA_LEN_def)
  let ?s = "\<lparr>ones_count = 0, stat_freq = replicate 16 0, stat_runs = (0, replicate 6 0, replicate 6 0)\<rparr>"
  obtain w' s' where loop: "stat_source_loop get 50 w ?s = Some
      (case stat_buffer data ?s of None \<Rightarrow> (err_status_algo_fail, w', s') | Some s \<Rightarrow> (err_status_ok, w', s))"
    using stat_source_loop_fetched [OF assms] by blast
  have trials: "2500 div RAND_SRC_BUF_OCTETS = 50" by (simp add: RAND_SRC_BUF_OCTETS_def)
  show ?thesis
  proof (cases "runs_bits (concat (map octet_bits data)) (0, replicate 6 0, replicate 6 0)")
    case None
    with loop data show ?thesis
      unfolding stat_test_rand_source_def trials by (simp add: stat_buffer_eq stat_test_runs_def)
  next
    case (Some r)
    obtain state runs gaps where r: "r = (state, runs, gaps)" by (cases r)
    with Some loop data stat_test_monobit_iff [OF len] show ?thesis
      unfolding stat_test_rand_source_def trials
      by (simp add: stat_buffer_eq stat_test_runs_def stat_test_poker_def)
  qed
qed

theorem stat_test_rand_source_correct_witness:
  "fetched (\<lambda>w n. Some (err_status_ok, Suc w, replicate n 0xff)) 50 (0 :: nat) = Some (concat (replicate 50 (replicate 50 0xff))) \<and>
   (\<exists>w'. stat_test_rand_source (\<lambda>w n. Some (err_status_ok, Suc w, replicate n 0xff)) (0 :: nat) = Some (err_status_algo_fail, w'))"
proof -
  let ?get = "\<lambda>w n. Some (err_status_ok, Suc w, replicate n (0xff :: u8))"
  let ?data = "concat (replicate 50 (replicate 50 0xff)) :: octets"
  have f: "fetched ?get n w = Some (concat (replicate n (replicate 50 0xff)))" for n w
    by (induction n arbitrary: w) (simp_all add: RAND_SRC_BUF_OCTETS_def)
  have "concat (replicate n (replicate 50 (0xff :: u8))) = replicate (n * 50) 0xff" for n
    by (induction n) (simp_all add: replicate_add [symmetric])
  from this [of 50] have data: "?data = replicate 2500 0xff" by simp
  have "weight_sum (replicate n 0xff) = 8 * int n" for n
  proof (induction n)
    case (Suc n)
    have "octet_get_weight 0xff = 8" by code_simp
    with Suc show ?case by (simp add: weight_sum_def)
  qed (simp add: weight_sum_def)
  then have "stat_test_monobit ?data \<noteq> Some err_status_ok"
    unfolding data using stat_test_monobit_iff [of "replicate 2500 0xff"] by simp
  with stat_test_rand_source_correct [OF f [of 50 0]] show ?thesis by (simp only: f) simp
qed

end
