(* ===== verification/Aes_Cbc.thy ===== *)
theory Aes_Cbc
  imports Aes_Icm
begin

text \<open>
  \<^verbatim>\<open>srtp/crypto/cipher/aes_cbc.c\<close>: cipher block chaining with the padding of the library's generic
  cipher interface. Decryption returns the plaintext that was padded and encrypted; the padding
  writes one octet more than it reports.
\<close>

section \<open>The implementation\<close>

datatype cipher_direction_t = direction_encrypt | direction_decrypt | direction_any

record aes_cbc_ctx_t =
  cbc_state :: v128_t
  cbc_previous :: v128_t
  cbc_expanded_key :: aes_expanded_key_t

definition aes_cbc_context_init :: "aes_cbc_ctx_t \<Rightarrow> octets \<Rightarrow> int \<Rightarrow> cipher_direction_t \<Rightarrow>
    (err_status_t \<times> aes_cbc_ctx_t) option" where
  "aes_cbc_context_init c key key_len dir =
     (case dir of
        direction_encrypt \<Rightarrow> map_option (map_prod id (\<lambda>ek. c\<lparr>cbc_expanded_key := ek\<rparr>))
          (aes_expand_encryption_key key key_len (cbc_expanded_key c))
      | direction_decrypt \<Rightarrow> map_option (map_prod id (\<lambda>ek. c\<lparr>cbc_expanded_key := ek\<rparr>))
          (aes_expand_decryption_key key key_len (cbc_expanded_key c))
      | direction_any \<Rightarrow> Some (err_status_bad_param, c))"

definition aes_cbc_set_iv :: "aes_cbc_ctx_t \<Rightarrow> v128_t \<Rightarrow> err_status_t \<times> aes_cbc_ctx_t" where
  "aes_cbc_set_iv c iv = (err_status_ok, c\<lparr>cbc_previous := iv, cbc_state := iv\<rparr>)"

fun aes_cbc_encrypt_loop :: "aes_cbc_ctx_t \<Rightarrow> octets \<Rightarrow> aes_cbc_ctx_t \<times> octets" where
  "aes_cbc_encrypt_loop c data =
     (if data = [] then (c, [])
      else let s = words_le (map2 (XOR) (bytes_le (cbc_state c)) (take 16 data));
               s = aes_encrypt s (cbc_expanded_key c);
               (c, out) = aes_cbc_encrypt_loop (c\<lparr>cbc_state := s\<rparr>) (drop 16 data)
           in (c, bytes_le s @ out))"

declare aes_cbc_encrypt_loop.simps [simp del]

text \<open>
  \<open>data\<close> is the whole buffer the pointer refers to and \<open>bytes_in_data\<close> the value of \<^verbatim>\<open>*bytes_in_data\<close>, an
  \<^verbatim>\<open>unsigned int\<close>. The loops copy it to the \<^verbatim>\<open>int bytes_to_encr\<close>, so from \<open>2^31\<close> on they do not run at all.
\<close>

definition aes_cbc_encrypt :: "aes_cbc_ctx_t \<Rightarrow> octets \<Rightarrow> u32 \<Rightarrow> (err_status_t \<times> aes_cbc_ctx_t \<times> octets) option" where
  "aes_cbc_encrypt c data bytes_in_data =
     (let bytes_to_encr = sint bytes_in_data
      in if bytes_in_data AND 0xf \<noteq> 0 then Some (err_status_bad_param, c, data)
         else if bytes_to_encr \<le> 0 then Some (err_status_ok, c, data)
         else if bytes_to_encr > int (length data) then None
         else case aes_cbc_encrypt_loop c (take (nat bytes_to_encr) data) of (c, out) \<Rightarrow>
           Some (err_status_ok, c, out @ drop (nat bytes_to_encr) data))"

fun aes_cbc_decrypt_loop :: "aes_expanded_key_t \<Rightarrow> v128_t \<Rightarrow> octets \<Rightarrow> octets" where
  "aes_cbc_decrypt_loop ek previous data =
     (if data = [] then []
      else let state = aes_decrypt (words_le (take 16 data)) ek
           in map2 (XOR) (bytes_le state) (bytes_le previous)
              @ aes_cbc_decrypt_loop ek (words_le (take 16 data)) (drop 16 data))"

declare aes_cbc_decrypt_loop.simps [simp del]

definition aes_cbc_decrypt :: "aes_cbc_ctx_t \<Rightarrow> octets \<Rightarrow> u32 \<Rightarrow> (err_status_t \<times> aes_cbc_ctx_t \<times> octets) option" where
  "aes_cbc_decrypt c data bytes_in_data =
     (let bytes_to_encr = sint bytes_in_data
      in if bytes_in_data AND 0xf \<noteq> 0 then Some (err_status_bad_param, c, data)
         else if bytes_to_encr \<le> 0 then Some (err_status_ok, c, data)
         else if bytes_to_encr > int (length data) then None
         else Some (err_status_ok, c,
           aes_cbc_decrypt_loop (cbc_expanded_key c) (cbc_previous c) (take (nat bytes_to_encr) data) @
           drop (nat bytes_to_encr) data))"

text \<open>
  One octet \<^verbatim>\<open>0xa0\<close> and \<open>num_pad_bytes\<close> zero octets are stored behind the data. The new length wraps at 32 bits.
\<close>

definition aes_cbc_nist_encrypt :: "aes_cbc_ctx_t \<Rightarrow> octets \<Rightarrow> u32 \<Rightarrow>
    (err_status_t \<times> aes_cbc_ctx_t \<times> octets \<times> u32) option" where
  "aes_cbc_nist_encrypt c data bytes_in_data =
     (let num_pad_bytes = 16 - unat (bytes_in_data AND 0xf);
          pad_start = unat bytes_in_data
      in if pad_start + 1 + num_pad_bytes > length data then None
         else do {
           let data = data[pad_start := 0xa0];
           let data = fold (\<lambda>i data. data[pad_start + 1 + i := 0]) [0..<num_pad_bytes] data;
           let bytes_in_data = bytes_in_data + word_of_nat num_pad_bytes;
           (status, c, data) \<leftarrow> aes_cbc_encrypt c data bytes_in_data;
           Some (status, c, data, bytes_in_data)
         })"

text \<open>
  The scan for the padding mark starts at the last octet and runs below the buffer when there is none;
  its counter \<open>num_pad_bytes\<close> is an \<^verbatim>\<open>int\<close>.
\<close>

fun aes_cbc_pad_scan :: "octets \<Rightarrow> nat \<Rightarrow> nat option" where
  "aes_cbc_pad_scan [] k = None"
| "aes_cbc_pad_scan (x # xs) k = (if x = 0xa0 then Some k else aes_cbc_pad_scan xs (k + 1))"

definition aes_cbc_nist_decrypt :: "aes_cbc_ctx_t \<Rightarrow> octets \<Rightarrow> u32 \<Rightarrow>
    (err_status_t \<times> aes_cbc_ctx_t \<times> octets \<times> u32) option" where
  "aes_cbc_nist_decrypt c data bytes_in_data = do {
     (status, c, data) \<leftarrow> aes_cbc_decrypt c data bytes_in_data;
     if status \<noteq> err_status_ok then Some (status, c, data, bytes_in_data)
     else if unat bytes_in_data > length data then None
     else do {
       num_pad_bytes \<leftarrow> aes_cbc_pad_scan (rev (take (unat bytes_in_data) data)) 1;
       if int num_pad_bytes > 0x7fffffff then None
       else Some (err_status_ok, c, data, bytes_in_data - word_of_nat num_pad_bytes)
     }
   }"

section \<open>Chaining\<close>

text \<open>\<open>aes_inverse e d\<close>: \<open>d\<close> decrypts what \<open>e\<close> encrypts.\<close>

definition aes_inverse :: "aes_expanded_key_t \<Rightarrow> aes_expanded_key_t \<Rightarrow> bool" where
  "aes_inverse e d \<longleftrightarrow> (\<forall>p. length p = 4 \<longrightarrow> length (aes_encrypt p e) = 4 \<and> aes_decrypt (aes_encrypt p e) d = p)"

lemma map2_xor_twice: "length a = length b \<Longrightarrow> map2 (XOR) (map2 (XOR) a b) a = (b :: octets)"
  by (induction a b rule: list_induct2) (simp_all add: xor_ac)

lemma aes_cbc_encrypt_loop_length:
  assumes "\<And>p. length p = 4 \<Longrightarrow> length (aes_encrypt p (cbc_expanded_key c)) = 4"
    and "16 dvd length data" and "length (cbc_state c) = 4"
  shows "length (snd (aes_cbc_encrypt_loop c data)) = length data"
  using assms
proof (induction c data rule: aes_cbc_encrypt_loop.induct)
  case (1 c data)
  show ?case
  proof (cases "data = []")
    case False
    then have "16 \<le> length data" using "1.prems"(2) by (simp add: dvd_imp_le)
    then show ?thesis using 1 False
      by (subst aes_cbc_encrypt_loop.simps) (auto simp: Let_def dvd_minus_self split: prod.splits)
  qed (simp add: aes_cbc_encrypt_loop.simps)
qed

lemma aes_cbc_loop_inverse:
  assumes "aes_inverse (cbc_expanded_key c) d" and "16 dvd length data" and "length (cbc_state c) = 4"
  shows "aes_cbc_decrypt_loop d (cbc_state c) (snd (aes_cbc_encrypt_loop c data)) = data"
  using assms
proof (induction c data rule: aes_cbc_encrypt_loop.induct)
  case (1 c data)
  show ?case
  proof (cases "data = []")
    case False
    define s where "s = words_le (map2 (XOR) (bytes_le (cbc_state c)) (take 16 data))"
    define e where "e = aes_encrypt s (cbc_expanded_key c)"
    have long: "16 \<le> length data" using False "1.prems"(2) by (simp add: dvd_imp_le)
    have s: "length s = 4" "bytes_le s = map2 (XOR) (bytes_le (cbc_state c)) (take 16 data)"
      using long "1.prems"(3) by (simp_all add: s_def)
    have e: "length e = 4" "aes_decrypt e d = s"
      using "1.prems"(1) s(1) by (auto simp: aes_inverse_def e_def)
    obtain c' out where out: "aes_cbc_encrypt_loop (c\<lparr>cbc_state := e\<rparr>) (drop 16 data) = (c', out)" by fastforce
    have "16 dvd length (drop 16 data)" using "1.prems"(2) long by (simp add: dvd_minus_self)
    then have "aes_cbc_decrypt_loop d e out = drop 16 data"
      using "1.IH" [OF False s_def e_def] "1.prems"(1) e(1) out by simp
    moreover have "snd (aes_cbc_encrypt_loop c data) = bytes_le e @ out"
      using False out by (subst aes_cbc_encrypt_loop.simps) (simp add: Let_def s_def [symmetric] e_def [symmetric])
    moreover have "map2 (XOR) (bytes_le s) (bytes_le (cbc_state c)) = take 16 data"
      using map2_xor_twice [of "bytes_le (cbc_state c)" "take 16 data"] s(2) long "1.prems"(3) by simp
    moreover have "bytes_le e \<noteq> []" using e(1) by (metis length_0_conv length_bytes_le mult_is_0 zero_neq_numeral)
    ultimately show ?thesis
      using e by (subst aes_cbc_decrypt_loop.simps) (simp add: Let_def)
  qed (simp add: aes_cbc_encrypt_loop.simps aes_cbc_decrypt_loop.simps)
qed

section \<open>Padding\<close>

lemma pad_scan_zeros: "aes_cbc_pad_scan (replicate z 0 @ 0xa0 # xs) k = Some (k + z)"
  by (induction z arbitrary: k) simp_all

text \<open>The buffer behind the padding stores, up to the reported length.\<close>

lemma nist_padded:
  fixes data :: octets
  assumes "n + 1 + p \<le> length data" and "0 < p"
  shows "take (n + p) (fold (\<lambda>i data. data[Suc (n + i) := 0]) [0..<p] (data[n := 0xa0])) =
    take n data @ 0xa0 # replicate (p - 1) 0" (is "?l = ?r")
proof -
  have len: "length (fold (\<lambda>i data. data[Suc (n + i) := 0]) [0..<q] x) = length x" for q and x :: octets
    by (induction q) simp_all
  have nth: "fold (\<lambda>i data. data[Suc (n + i) := 0]) [0..<q] x ! j = (if n < j \<and> j < n + 1 + q then 0 else x ! j)"
    if "j < length x" for q j and x :: octets
    using that by (induction q) (auto simp: len nth_list_update less_Suc_eq simp del: length_list_update)
  show ?thesis
  proof (rule nth_equalityI)
    show "length ?l = length ?r" using assms by (simp add: len)
    fix j assume "j < length ?l"
    then have "j < n + p" "j < length data" using assms by (simp_all add: len)
    then show "?l ! j = ?r ! j"
      using nth [of j "data[n := 0xa0]" p] assms by (auto simp: nth_append nth_Cons' nth_list_update)
  qed
qed

lemma unat_and_15: "unat (n AND 0xf) = unat (n :: u32) mod 16"
proof -
  have "n AND 0xf = take_bit 4 n" by (simp add: take_bit_eq_mask mask_eq_exp_minus_1)
  then show ?thesis by (simp add: take_bit_eq_mod unat_mod)
qed

lemma cbc_padded_length:
  fixes n :: u32
  assumes "n < 0x7ffffff0" and "p \<le> 16" and "16 dvd unat n + p"
  shows "unat (n + word_of_nat p) = unat n + p" and "(n + word_of_nat p) AND 0xf = 0"
    and "sint (n + word_of_nat p) = int (unat n + p)"
proof -
  have n: "unat n < 0x7ffffff0" using assms(1) by (simp add: word_less_nat_alt)
  show len: "unat (n + word_of_nat p) = unat n + p"
    using n assms(2) by (simp add: unat_word_ariths unat_of_nat)
  show "(n + word_of_nat p) AND 0xf = 0"
    using unat_and_15 [of "n + word_of_nat p"] assms(3) unfolding len by (simp add: unat_eq_zero [symmetric])
  show "sint (n + word_of_nat p) = int (unat n + p)"
    using len n assms(2) by (simp add: sint_uint signed_take_bit_int_eq_self uint_nat del: of_nat_unat)
qed

lemma aes_expand_inverse:
  assumes key: "length key = 16 \<or> length key = 32" and "length (round_key ek) = 15" and "length (round_key dk) = 15"
    and dk: "num_rounds dk = int (length key div 4 + 6)"
  obtains e d where "aes_expand_encryption_key key (int (length key)) ek = Some (err_status_ok, e)"
    "aes_expand_decryption_key key (int (length key)) dk = Some (err_status_ok, d)" "aes_inverse e d"
proof -
  define n w where "n = length key div 4 + 6" and "w = fips_round_key (length key div 4) key"
  have n: "n = 10 \<or> n = 14" using key by (auto simp: n_def)
  obtain e where e: "aes_expand_encryption_key key (int (length key)) ek = Some (err_status_ok, e)"
    "num_rounds e = int n" "schedule (round_key e) w n"
    using aes_expand_encryption_key_schedule [OF key assms(2)] unfolding n_def w_def by metis
  obtain d where d: "aes_expand_decryption_key key (int (length key)) dk = Some (err_status_ok, d)"
    "num_rounds d = int n" "aes_dec_schedule (round_key d) w n"
    unfolding w_def aes_dec_schedule_def
    by (rule aes_expand_decryption_key_schedule [OF key assms(3) n_def]) (use dk in \<open>simp_all add: n_def\<close>)
  have w: "length (w i) = 16" for i
    unfolding w_def by (rule length_fips_round_key) (use key in auto)
  have "aes_inverse e d"
    unfolding aes_inverse_def using aes_decrypt_schedules [OF e(3,2) d(3,2) n w] length_aes_encrypt n e(2) by auto
  with e(1) d(1) show ?thesis by (rule that)
qed

text \<open>
  C30. CBC with padding: what \<^verbatim>\<open>aes_cbc_nist_encrypt\<close> makes of a buffer that has room for the padding,
  \<^verbatim>\<open>aes_cbc_nist_decrypt\<close> turns back into the data and its length, for contexts initialised with the
  same key and initialisation vector, where the structure of the decrypting side already holds the
  round count (\<^verbatim>\<open>aes_expand_decryption_key\<close> reads it before it is set), and for lengths that stay below
  \<open>2^31\<close> when padded.
\<close>

theorem aes_cbc_nist_roundtrip:
  assumes "length key = 16 \<or> length key = 32" and "length (round_key (cbc_expanded_key ce)) = 15"
    and "length (round_key (cbc_expanded_key cd)) = 15" and "num_rounds (cbc_expanded_key cd) = int (length key div 4 + 6)"
    and "length iv = 4" and "unat n + 17 - unat n mod 16 \<le> length data" and "n < 0x7ffffff0"
  shows "\<exists>ce' cd' c1 c2 enc dec m.
    aes_cbc_context_init ce key (int (length key)) direction_encrypt = Some (err_status_ok, ce') \<and>
    aes_cbc_context_init cd key (int (length key)) direction_decrypt = Some (err_status_ok, cd') \<and>
    aes_cbc_nist_encrypt (snd (aes_cbc_set_iv ce' iv)) data n = Some (err_status_ok, c1, enc, m) \<and>
    aes_cbc_nist_decrypt (snd (aes_cbc_set_iv cd' iv)) enc m = Some (err_status_ok, c2, dec, n) \<and>
    take (unat n) dec = take (unat n) data"
proof -
  obtain e d where ed: "aes_expand_encryption_key key (int (length key)) (cbc_expanded_key ce) = Some (err_status_ok, e)"
    "aes_expand_decryption_key key (int (length key)) (cbc_expanded_key cd) = Some (err_status_ok, d)" "aes_inverse e d"
    using aes_expand_inverse [OF assms(1-4)] .
  define ce' where "ce' = ce\<lparr>cbc_expanded_key := e\<rparr>"
  define cd' where "cd' = cd\<lparr>cbc_expanded_key := d\<rparr>"
  have init: "aes_cbc_context_init ce key (int (length key)) direction_encrypt = Some (err_status_ok, ce')"
    "aes_cbc_context_init cd key (int (length key)) direction_decrypt = Some (err_status_ok, cd')"
    using ed by (simp_all add: aes_cbc_context_init_def ce'_def cd'_def)
  define k p where "k = unat n" and "p = 16 - k mod 16"
  have n: "unat (n AND 0xf) = k mod 16" unfolding k_def by (rule unat_and_15)
  have "k mod 16 < 16" by simp
  then have p: "0 < p" "k + 1 + p \<le> length data" "16 dvd k + p" "p \<le> 16"
    using assms(6) unfolding p_def k_def [symmetric] by (linarith, linarith, presburger, simp)
  define m where "m = n + word_of_nat p"
  have m: "unat m = k + p" "m AND 0xf = 0" "sint m = int (k + p)"
    using cbc_padded_length [of n p] assms(7) p(3,4) by (simp_all add: m_def k_def)
  define x where "x = take k data @ 0xa0 # replicate (p - 1) 0"
  have x: "length x = k + p" using p(1,2) by (simp add: x_def)
  let ?c = "snd (aes_cbc_set_iv ce' iv)"
  have c: "cbc_expanded_key ?c = e" "cbc_state ?c = iv" by (simp_all add: aes_cbc_set_iv_def ce'_def)
  obtain c1 out where out: "aes_cbc_encrypt_loop ?c x = (c1, out)" by fastforce
  have len: "length out = k + p"
    using aes_cbc_encrypt_loop_length [of ?c x] out ed(3) p(3) x c assms(5) by (simp add: aes_inverse_def)
  have dec: "aes_cbc_decrypt_loop d iv out = x"
    using aes_cbc_loop_inverse [of ?c d x] out ed(3) p(3) x c assms(5) by simp
  define buf where "buf = fold (\<lambda>i data. data[Suc (k + i) := 0]) [0..<p] (data[k := 0xa0])"
  define tl where "tl = drop (k + p) buf"
  have buf: "take (k + p) buf = x" using nist_padded [OF p(2,1)] by (simp add: buf_def x_def)
  have len_buf: "k + p \<le> length buf" using arg_cong [OF buf, of length] x by simp
  have "aes_cbc_encrypt ?c buf m = Some (err_status_ok, c1, out @ tl)"
    using m p(1) len_buf out by (simp add: aes_cbc_encrypt_def Let_def buf tl_def del: of_nat_add)
  then have enc: "aes_cbc_nist_encrypt ?c data n = Some (err_status_ok, c1, out @ tl, m)"
    using p(2) by (simp add: aes_cbc_nist_encrypt_def Let_def n p_def [symmetric] k_def [symmetric] buf_def [symmetric] m_def [symmetric])
  have "rev x = replicate (p - 1) 0 @ 0xa0 # rev (take k data)" by (simp add: x_def)
  then have scan: "aes_cbc_pad_scan (rev x) 1 = Some p" using pad_scan_zeros p(1) by simp
  have "aes_cbc_decrypt (snd (aes_cbc_set_iv cd' iv)) (out @ tl) m =
      Some (err_status_ok, snd (aes_cbc_set_iv cd' iv), x @ tl)"
    using len dec m p(1) by (simp add: aes_cbc_decrypt_def Let_def aes_cbc_set_iv_def cd'_def del: of_nat_add)
  then have "aes_cbc_nist_decrypt (snd (aes_cbc_set_iv cd' iv)) (out @ tl) m =
      Some (err_status_ok, snd (aes_cbc_set_iv cd' iv), x @ tl, n)"
    using scan m(1) x p(4) by (simp add: aes_cbc_nist_decrypt_def m_def)
  moreover have "take k (x @ tl) = take k data" using p(1,2) by (simp add: x_def)
  ultimately show ?thesis using init enc unfolding k_def by blast
qed

theorem aes_cbc_nist_roundtrip_witness:
  "let c = \<lparr>cbc_state = [], cbc_previous = [], cbc_expanded_key = \<lparr>round_key = replicate 15 [], num_rounds = 10\<rparr>\<rparr>
   in \<exists>ce' cd' c1 c2 enc dec m.
    aes_cbc_context_init c (replicate 16 3) 16 direction_encrypt = Some (err_status_ok, ce') \<and>
    aes_cbc_context_init c (replicate 16 3) 16 direction_decrypt = Some (err_status_ok, cd') \<and>
    aes_cbc_nist_encrypt (snd (aes_cbc_set_iv ce' [1, 2, 3, 4])) (replicate 20 8) 5 = Some (err_status_ok, c1, enc, m) \<and>
    aes_cbc_nist_decrypt (snd (aes_cbc_set_iv cd' [1, 2, 3, 4])) enc m = Some (err_status_ok, c2, dec, 5) \<and>
    take 5 dec = replicate 5 8"
  unfolding Let_def
  using aes_cbc_nist_roundtrip [of "replicate 16 3"
      "\<lparr>cbc_state = [], cbc_previous = [], cbc_expanded_key = \<lparr>round_key = replicate 15 [], num_rounds = 10\<rparr>\<rparr>"
      "\<lparr>cbc_state = [], cbc_previous = [], cbc_expanded_key = \<lparr>round_key = replicate 15 [], num_rounds = 10\<rparr>\<rparr>"
      "[1, 2, 3, 4]" 5 "replicate 20 8"]
  by simp

text \<open>
  The padding overruns a buffer of exactly the padded size: \<^verbatim>\<open>aes_cbc_nist_encrypt\<close> stores one octet
  past the length it returns, whatever the data.
\<close>

theorem aes_cbc_nist_encrypt_overrun:
  assumes "length data = unat n + (16 - unat n mod 16)"
  shows "aes_cbc_nist_encrypt c data n = None"
  using assms by (simp add: aes_cbc_nist_encrypt_def Let_def unat_and_15)

theorem aes_cbc_nist_encrypt_overrun_witness:
  "aes_cbc_nist_encrypt
     \<lparr>cbc_state = [1, 2, 3, 4], cbc_previous = [1, 2, 3, 4],
      cbc_expanded_key = \<lparr>round_key = replicate 15 [0, 0, 0, 0], num_rounds = 10\<rparr>\<rparr>
     (replicate 16 0) 3 = None"
  by (rule aes_cbc_nist_encrypt_overrun) simp

end
