(* ===== verification/Cipher_Contract.thy ===== *)
theory Cipher_Contract
  imports Prelude
begin

text \<open>
  The interface of a cipher object as key derivation and packet processing rely on it: under a key
  and an initialisation vector a cipher is a position in a keystream, and encryption and decryption
  exor the next octets of the stream into the buffer. \<open>rep c k p\<close> says that \<open>c\<close> is keyed with \<open>k\<close>
  and, when \<open>p\<close> is \<open>Some (iv, n)\<close>, has used \<open>n\<close> octets of the stream of \<open>iv\<close>. The provider is
  \<open>Cipher\<close>.
\<close>

locale cipher_contract =
  fixes rep :: "'c \<Rightarrow> 'k \<Rightarrow> ('v \<times> nat) option \<Rightarrow> bool"
    and stream :: "'k \<Rightarrow> 'v \<Rightarrow> nat \<Rightarrow> nat \<Rightarrow> octets"
    and iv_ok :: "'k \<Rightarrow> 'v \<Rightarrow> bool"
    and set_iv :: "'c \<Rightarrow> 'v \<Rightarrow> err_status_t \<times> 'c"
    and encrypt decrypt :: "'c \<Rightarrow> octets \<Rightarrow> nat \<Rightarrow> (err_status_t \<times> 'c \<times> octets \<times> nat) option"
    and limit :: nat
  assumes length_stream: "length (stream k v pos n) = n"
    and set_iv_rep: "rep c k p \<Longrightarrow> iv_ok k v \<Longrightarrow>
      fst (set_iv c v) = err_status_ok \<and> rep (snd (set_iv c v)) k (Some (v, 0))"
    and encrypt_rep: "rep c k (Some (v, pos)) \<Longrightarrow> iv_ok k v \<Longrightarrow> n \<le> length buf \<Longrightarrow> pos + n \<le> limit \<Longrightarrow>
      \<exists>c'. encrypt c buf n = Some (err_status_ok, c', map2 (XOR) (take n buf) (stream k v pos n) @ drop n buf, n)
        \<and> rep c' k (Some (v, pos + n))"
    and decrypt_encrypt: "rep c k (Some (v, pos)) \<Longrightarrow> decrypt c buf n = encrypt c buf n"
begin

lemma set_iv_ok:
  assumes "rep c k p" and "iv_ok k v"
  obtains c' where "set_iv c v = (err_status_ok, c')" and "rep c' k (Some (v, 0))"
  using set_iv_rep [OF assms] by (cases "set_iv c v") auto

lemma decrypt_rep:
  assumes "rep c k (Some (v, pos))" and "iv_ok k v" and "n \<le> length buf" and "pos + n \<le> limit"
  shows "\<exists>c'. decrypt c buf n = Some (err_status_ok, c', map2 (XOR) (take n buf) (stream k v pos n) @ drop n buf, n)
    \<and> rep c' k (Some (v, pos + n))"
  using encrypt_rep [OF assms] decrypt_encrypt [OF assms(1)] by simp

lemma xor_cancel: "length a = length s \<Longrightarrow> map2 (XOR) (map2 (XOR) a s) s = (a :: octets)"
  by (induction a s rule: list_induct2) (simp_all add: xor.assoc)

text \<open>Two objects with the same key and vector at the same position: the second undoes the first.\<close>

lemma decrypt_undoes_encrypt:
  assumes "rep a k (Some (v, pos))" and "rep b k (Some (v, pos))" and "iv_ok k v" and "n \<le> length buf" and "pos + n \<le> limit"
  obtains a' b' out where "encrypt a buf n = Some (err_status_ok, a', out, n)" "length out = length buf"
    "decrypt b out n = Some (err_status_ok, b', buf, n)" "rep a' k (Some (v, pos + n))" "rep b' k (Some (v, pos + n))"
proof -
  let ?s = "stream k v pos n"
  let ?out = "map2 (XOR) (take n buf) ?s @ drop n buf"
  have len: "length ?out = length buf" "n \<le> length ?out" using assms(4) length_stream by simp_all
  obtain a' where a': "encrypt a buf n = Some (err_status_ok, a', ?out, n)" "rep a' k (Some (v, pos + n))"
    using encrypt_rep [OF assms(1,3,4,5)] by blast
  obtain b' where b': "decrypt b ?out n = Some (err_status_ok, b', map2 (XOR) (take n ?out) ?s @ drop n ?out, n)"
    "rep b' k (Some (v, pos + n))"
    using decrypt_rep [OF assms(2,3) len(2) assms(5)] by blast
  have "map2 (XOR) (take n ?out) ?s @ drop n ?out = buf"
    using assms(4) length_stream xor_cancel [of "take n buf" ?s] by simp
  with a' b' len(1) show ?thesis by (intro that [of a' ?out b']) simp_all
qed

end

end
