(* ===== verification/Cipher.thy ===== *)
theory Cipher
  imports Aes_Cbc Rng Cipher_Contract
begin

text \<open>
  \<^verbatim>\<open>srtp/crypto/cipher/cipher.c\<close>, \<^verbatim>\<open>null_cipher.c\<close> and the allocation parts of \<^verbatim>\<open>aes_icm.c\<close> and
  \<^verbatim>\<open>aes_cbc.c\<close>: cipher objects. A \<^verbatim>\<open>cipher_t\<close> points to its metaobject (a table of functions) and to
  an untyped state, which are always set together; the constructor of the state selects the function
  that a call through the table reaches.
\<close>

section \<open>Objects and dispatch\<close>

datatype cipher_type_t = null_cipher | aes_icm | aes_cbc

definition cipher_type_id :: "cipher_type_t \<Rightarrow> u32" where
  "cipher_type_id ct = (case ct of null_cipher \<Rightarrow> 0 | aes_icm \<Rightarrow> 1 | aes_cbc \<Rightarrow> 3)"

datatype cipher_state_t = null_cipher_state | aes_icm_state aes_icm_ctx_t | aes_cbc_state aes_cbc_ctx_t

record cipher_t =
  cipher_state :: cipher_state_t
  cipher_key_len :: int

definition cipher_type_of :: "cipher_t \<Rightarrow> cipher_type_t" where
  "cipher_type_of c =
     (case cipher_state c of null_cipher_state \<Rightarrow> null_cipher | aes_icm_state _ \<Rightarrow> aes_icm | aes_cbc_state _ \<Rightarrow> aes_cbc)"

text \<open>
  Allocation: \<open>mem\<close> is what \<^verbatim>\<open>crypto_alloc\<close> returns, \<open>None\<close> for a null pointer and otherwise the
  uninitialised memory, read as a context of either mode. \<open>refs\<close> counts the objects of each type.
\<close>

type_synonym cipher_mem = "aes_icm_ctx_t \<times> aes_cbc_ctx_t"

definition null_cipher_alloc :: "cipher_mem option \<Rightarrow> (cipher_type_t \<Rightarrow> int) \<Rightarrow> int \<Rightarrow>
    err_status_t \<times> cipher_t option \<times> (cipher_type_t \<Rightarrow> int)" where
  "null_cipher_alloc mem refs key_len =
     (case mem of None \<Rightarrow> (err_status_alloc_fail, None, refs)
      | Some _ \<Rightarrow> (err_status_ok, Some \<lparr>cipher_state = null_cipher_state, cipher_key_len = key_len\<rparr>,
          refs(null_cipher := refs null_cipher + 1)))"

definition null_cipher_dealloc :: "(cipher_type_t \<Rightarrow> int) \<Rightarrow> cipher_t \<Rightarrow> err_status_t \<times> (cipher_type_t \<Rightarrow> int)" where
  "null_cipher_dealloc refs c = (err_status_ok, refs(null_cipher := refs null_cipher - 1))"

definition null_cipher_init :: "octets \<Rightarrow> int \<Rightarrow> err_status_t" where
  "null_cipher_init key key_len = err_status_ok"

definition null_cipher_set_iv :: "v128_t \<Rightarrow> err_status_t" where
  "null_cipher_set_iv iv = err_status_ok"

definition null_cipher_encrypt :: "octets \<Rightarrow> nat \<Rightarrow> err_status_t" where
  "null_cipher_encrypt buf bytes_to_encr = err_status_ok"

definition aes_icm_alloc_ismacryp :: "cipher_mem option \<Rightarrow> (cipher_type_t \<Rightarrow> int) \<Rightarrow> int \<Rightarrow> bool \<Rightarrow>
    err_status_t \<times> cipher_t option \<times> (cipher_type_t \<Rightarrow> int)" where
  "aes_icm_alloc_ismacryp mem refs key_len forIsmacryp =
     (if \<not> (forIsmacryp \<and> key_len > 16 \<and> key_len < 30) \<and> key_len \<noteq> 30 \<and> key_len \<noteq> 38 \<and> key_len \<noteq> 46
      then (err_status_bad_param, None, refs)
      else case mem of None \<Rightarrow> (err_status_alloc_fail, None, refs)
      | Some (s, _) \<Rightarrow> (err_status_ok, Some \<lparr>cipher_state = aes_icm_state s, cipher_key_len = key_len\<rparr>,
          refs(aes_icm := refs aes_icm + 1)))"

definition aes_icm_alloc :: "cipher_mem option \<Rightarrow> (cipher_type_t \<Rightarrow> int) \<Rightarrow> int \<Rightarrow>
    err_status_t \<times> cipher_t option \<times> (cipher_type_t \<Rightarrow> int)" where
  "aes_icm_alloc mem refs key_len = aes_icm_alloc_ismacryp mem refs key_len False"

definition aes_icm_dealloc :: "(cipher_type_t \<Rightarrow> int) \<Rightarrow> cipher_t \<Rightarrow> err_status_t \<times> (cipher_type_t \<Rightarrow> int)" where
  "aes_icm_dealloc refs c = (err_status_ok, refs(aes_icm := refs aes_icm - 1))"

definition aes_cbc_alloc :: "cipher_mem option \<Rightarrow> (cipher_type_t \<Rightarrow> int) \<Rightarrow> int \<Rightarrow>
    err_status_t \<times> cipher_t option \<times> (cipher_type_t \<Rightarrow> int)" where
  "aes_cbc_alloc mem refs key_len =
     (if key_len \<noteq> 16 \<and> key_len \<noteq> 24 \<and> key_len \<noteq> 32 then (err_status_bad_param, None, refs)
      else case mem of None \<Rightarrow> (err_status_alloc_fail, None, refs)
      | Some (_, s) \<Rightarrow> (err_status_ok, Some \<lparr>cipher_state = aes_cbc_state s, cipher_key_len = key_len\<rparr>,
          refs(aes_cbc := refs aes_cbc + 1)))"

definition aes_cbc_dealloc :: "(cipher_type_t \<Rightarrow> int) \<Rightarrow> cipher_t \<Rightarrow> err_status_t \<times> (cipher_type_t \<Rightarrow> int)" where
  "aes_cbc_dealloc refs c = (err_status_ok, refs(aes_cbc := refs aes_cbc - 1))"

definition cipher_type_alloc :: "cipher_type_t \<Rightarrow> cipher_mem option \<Rightarrow> (cipher_type_t \<Rightarrow> int) \<Rightarrow> int \<Rightarrow>
    err_status_t \<times> cipher_t option \<times> (cipher_type_t \<Rightarrow> int)" where
  "cipher_type_alloc ct =
     (case ct of null_cipher \<Rightarrow> null_cipher_alloc | aes_icm \<Rightarrow> aes_icm_alloc | aes_cbc \<Rightarrow> aes_cbc_alloc)"

definition cipher_dealloc :: "(cipher_type_t \<Rightarrow> int) \<Rightarrow> cipher_t \<Rightarrow> err_status_t \<times> (cipher_type_t \<Rightarrow> int)" where
  "cipher_dealloc refs c =
     (case cipher_state c of
        null_cipher_state \<Rightarrow> null_cipher_dealloc refs c
      | aes_icm_state _ \<Rightarrow> aes_icm_dealloc refs c
      | aes_cbc_state _ \<Rightarrow> aes_cbc_dealloc refs c)"

definition cipher_init :: "cipher_t \<Rightarrow> octets \<Rightarrow> cipher_direction_t \<Rightarrow> (err_status_t \<times> cipher_t) option" where
  "cipher_init c key dir =
     (case cipher_state c of
        null_cipher_state \<Rightarrow> Some (null_cipher_init key (cipher_key_len c), c)
      | aes_icm_state s \<Rightarrow> map_option (map_prod id (\<lambda>s. c\<lparr>cipher_state := aes_icm_state s\<rparr>))
          (aes_icm_context_init s key (cipher_key_len c))
      | aes_cbc_state s \<Rightarrow> map_option (map_prod id (\<lambda>s. c\<lparr>cipher_state := aes_cbc_state s\<rparr>))
          (aes_cbc_context_init s key (cipher_key_len c) dir))"

text \<open>
  \<open>buf\<close> is the memory from the buffer pointer on and \<open>n\<close> the value of the length argument. Counter mode
  refuses a length past its segment before it touches the buffer, so also one the buffer does not have.
\<close>

definition aes_icm_encrypt_buffer :: "aes_icm_ctx_t \<Rightarrow> octets \<Rightarrow> nat \<Rightarrow> (err_status_t \<times> aes_icm_ctx_t \<times> octets) option" where
  "aes_icm_encrypt_buffer s buf n =
     (if n \<le> length buf
      then case aes_icm_encrypt s (take n buf) of (status, s, out) \<Rightarrow> Some (status, s, out @ drop n buf)
      else if (word_of_nat n :: u32) + ucast (icm_block_index (icm_counter s)) > 0xffff
      then Some (err_status_terminus, s, buf) else None)"

definition cipher_encrypt :: "cipher_t \<Rightarrow> octets \<Rightarrow> nat \<Rightarrow> (err_status_t \<times> cipher_t \<times> octets \<times> nat) option" where
  "cipher_encrypt c buf n =
     (case cipher_state c of
        null_cipher_state \<Rightarrow> Some (null_cipher_encrypt buf n, c, buf, n)
      | aes_icm_state s \<Rightarrow> map_option (\<lambda>(status, s, buf). (status, c\<lparr>cipher_state := aes_icm_state s\<rparr>, buf, n))
          (aes_icm_encrypt_buffer s buf n)
      | aes_cbc_state s \<Rightarrow> map_option (\<lambda>(status, s, buf, n). (status, c\<lparr>cipher_state := aes_cbc_state s\<rparr>, buf, unat n))
          (aes_cbc_nist_encrypt s buf (word_of_nat n)))"

definition cipher_decrypt :: "cipher_t \<Rightarrow> octets \<Rightarrow> nat \<Rightarrow> (err_status_t \<times> cipher_t \<times> octets \<times> nat) option" where
  "cipher_decrypt c buf n =
     (case cipher_state c of
        null_cipher_state \<Rightarrow> Some (null_cipher_encrypt buf n, c, buf, n)
      | aes_icm_state s \<Rightarrow> map_option (\<lambda>(status, s, buf). (status, c\<lparr>cipher_state := aes_icm_state s\<rparr>, buf, n))
          (aes_icm_encrypt_buffer s buf n)
      | aes_cbc_state s \<Rightarrow> map_option (\<lambda>(status, s, buf, n). (status, c\<lparr>cipher_state := aes_cbc_state s\<rparr>, buf, unat n))
          (aes_cbc_nist_decrypt s buf (word_of_nat n)))"

definition cipher_set_iv :: "cipher_t \<Rightarrow> v128_t \<Rightarrow> err_status_t \<times> cipher_t" where
  "cipher_set_iv c iv =
     (case cipher_state c of
        null_cipher_state \<Rightarrow> (null_cipher_set_iv iv, c)
      | aes_icm_state s \<Rightarrow> map_prod id (\<lambda>s. c\<lparr>cipher_state := aes_icm_state s\<rparr>) (aes_icm_set_iv s iv)
      | aes_cbc_state s \<Rightarrow> map_prod id (\<lambda>s. c\<lparr>cipher_state := aes_cbc_state s\<rparr>) (aes_cbc_set_iv s iv))"

definition cipher_output :: "cipher_t \<Rightarrow> octets \<Rightarrow> nat \<Rightarrow> (err_status_t \<times> cipher_t \<times> octets) option" where
  "cipher_output c buffer num_octets_to_output = do {
     buffer \<leftarrow> octet_string_set_to_zero buffer num_octets_to_output;
     (status, c, buffer, _) \<leftarrow> cipher_encrypt c buffer num_octets_to_output;
     Some (status, c, buffer)
   }"

definition cipher_get_key_length :: "cipher_t \<Rightarrow> int" where
  "cipher_get_key_length c = cipher_key_len c"

section \<open>The contract\<close>

text \<open>What a cipher is keyed with: nothing, or an AES key and the salt extended to a block.\<close>

datatype cipher_key = ck_null | ck_icm octets octets

fun cipher_rep :: "cipher_t \<Rightarrow> cipher_key \<Rightarrow> (v128_t \<times> nat) option \<Rightarrow> bool" where
  "cipher_rep c ck_null p \<longleftrightarrow> cipher_state c = null_cipher_state"
| "cipher_rep c (ck_icm key salt) p \<longleftrightarrow> (\<exists>s. cipher_state c = aes_icm_state s \<and> icm_keyed s key salt \<and>
     drop 14 salt = [0, 0] \<and>
     (case p of None \<Rightarrow> True | Some (iv, pos) \<Rightarrow> icm_at s key (icm_start salt iv) pos))"

fun cipher_stream :: "cipher_key \<Rightarrow> v128_t \<Rightarrow> nat \<Rightarrow> nat \<Rightarrow> octets" where
  "cipher_stream ck_null iv pos n = replicate n 0"
| "cipher_stream (ck_icm key salt) iv pos n = icm_stream key (icm_start salt iv) pos n"

text \<open>The vectors the library sets for counter mode leave the last 16 bits to the block counter.\<close>

fun cipher_iv_ok :: "cipher_key \<Rightarrow> v128_t \<Rightarrow> bool" where
  "cipher_iv_ok ck_null iv \<longleftrightarrow> True"
| "cipher_iv_ok (ck_icm key salt) iv \<longleftrightarrow> length iv = 4 \<and> drop 14 (bytes_le iv) = [0, 0]"

lemma ctr_index_start:
  assumes "icm_keyed s key salt" and "drop 14 salt = [0, 0]" and "length iv = 4" "drop 14 (bytes_le iv) = [0, 0]"
  shows "ctr_index (icm_start salt iv) 0 = 0"
proof -
  have len: "length salt = 16" "length (bytes_le iv) = 16"
    using assms(1,3) by (auto simp: icm_keyed_def)
  have "salt ! 14 = drop 14 salt ! 0" "salt ! 15 = drop 14 salt ! 1"
    "bytes_le iv ! 14 = drop 14 (bytes_le iv) ! 0" "bytes_le iv ! 15 = drop 14 (bytes_le iv) ! 1"
    using len by simp_all
  then show ?thesis using len assms(2,4) by (simp add: ctr_index_def icm_start_def)
qed

lemma xor_zeros_right: "map2 (XOR) s (replicate (length s) 0) = (s :: octets)"
  by (induction s) simp_all

interpretation cipher: cipher_contract cipher_rep cipher_stream cipher_iv_ok cipher_set_iv cipher_encrypt cipher_decrypt 65535
proof unfold_locales
  fix c :: cipher_t and k p and v :: v128_t and pos n :: nat and buf :: octets
  show "length (cipher_stream k v pos n) = n" by (cases k) simp_all
  show "fst (cipher_set_iv c v) = err_status_ok \<and> cipher_rep (snd (cipher_set_iv c v)) k (Some (v, 0))"
    if "cipher_rep c k p" "cipher_iv_ok k v"
    using that aes_icm_set_iv_at
    by (cases k) (auto simp: cipher_set_iv_def null_cipher_set_iv_def map_prod_def split_beta)
  show "cipher_decrypt c buf n = cipher_encrypt c buf n" if "cipher_rep c k (Some (v, pos))"
    using that by (cases k) (auto simp: cipher_decrypt_def cipher_encrypt_def)
  show "\<exists>c'. cipher_encrypt c buf n =
      Some (err_status_ok, c', map2 (XOR) (take n buf) (cipher_stream k v pos n) @ drop n buf, n) \<and>
      cipher_rep c' k (Some (v, pos + n))"
    if rep: "cipher_rep c k (Some (v, pos))" "cipher_iv_ok k v" and n: "n \<le> length buf" "pos + n \<le> 65535"
  proof (cases k)
    case ck_null
    with rep n xor_zeros_right [of "take n buf"] show ?thesis
      by (simp add: cipher_encrypt_def null_cipher_encrypt_def)
  next
    case (ck_icm key salt)
    with rep obtain s where s: "cipher_state c = aes_icm_state s" "icm_keyed s key salt" "drop 14 salt = [0, 0]"
      "icm_at s key (icm_start salt v) pos" "length v = 4" "drop 14 (bytes_le v) = [0, 0]" by auto
    have "(pos + 15) div 16 \<le> pos" by (cases "pos = 0") auto
    then have "length (take n buf) + ctr_index (icm_start salt v) ((pos + 15) div 16) \<le> 0xffff"
      using ctr_index_start [OF s(2,3,5,6)] n by (simp add: ctr_index_def)
    from aes_icm_encrypt_stream [OF s(4) this] obtain s' where s':
      "aes_icm_encrypt s (take n buf) = (err_status_ok, s', map2 (XOR) (take n buf) (icm_stream key (icm_start salt v) pos n))"
      "icm_at s' key (icm_start salt v) (pos + n)" "icm_offset s' = icm_offset s" using n by auto
    have "icm_keyed s' key salt" using s(2) s'(2,3) by (simp add: icm_keyed_def icm_at_def)
    with s s' n ck_icm show ?thesis
      by (simp add: cipher_encrypt_def aes_icm_encrypt_buffer_def)
  qed
qed

text \<open>Initialisation establishes the contract.\<close>

definition cipher_storage :: "cipher_mem \<Rightarrow> bool" where
  "cipher_storage m \<longleftrightarrow> length (round_key (icm_expanded_key (fst m))) = 15 \<and>
     length (round_key (cbc_expanded_key (snd m))) = 15"

fun cipher_key_of :: "cipher_type_t \<Rightarrow> int \<Rightarrow> octets \<Rightarrow> cipher_key" where
  "cipher_key_of aes_icm key_len key =
     (let base = nat key_len - 14 in ck_icm (take base key) (take 14 (drop base key) @ [0, 0]))"
| "cipher_key_of _ key_len key = ck_null"

definition cipher_well :: "cipher_t \<Rightarrow> bool" where
  "cipher_well c \<longleftrightarrow> (case cipher_state c of aes_icm_state s \<Rightarrow> length (round_key (icm_expanded_key s)) = 15 | _ \<Rightarrow> True)"

lemma cipher_init_rep:
  assumes "cipher_type_of c = null_cipher \<or>
      cipher_type_of c = aes_icm \<and> (cipher_key_len c = 30 \<or> cipher_key_len c = 46) \<and> nat (cipher_key_len c) + 2 \<le> length key"
    and "cipher_well c"
  obtains c' where "cipher_init c key dir = Some (err_status_ok, c')"
    "cipher_rep c' (cipher_key_of (cipher_type_of c) (cipher_key_len c) key) None"
    "cipher_key_len c' = cipher_key_len c"
proof (cases "cipher_state c")
  case null_cipher_state
  then show ?thesis
    by (intro that [of c]) (simp_all add: cipher_init_def null_cipher_init_def cipher_type_of_def)
next
  case (aes_icm_state s)
  then have key: "cipher_key_len c = 30 \<or> cipher_key_len c = 46" "nat (cipher_key_len c) + 2 \<le> length key"
    "length (round_key (icm_expanded_key s)) = 15"
    using assms by (auto simp: cipher_type_of_def cipher_well_def)
  define base where "base = nat (cipher_key_len c) - 14"
  obtain s' where s': "aes_icm_context_init s key (cipher_key_len c) = Some (err_status_ok, s')"
    "icm_keyed s' (take base key) (take 14 (drop base key) @ [0, 0])"
    unfolding base_def using aes_icm_context_init_keyed [OF key] .
  have "length (take 14 (drop base key)) = 14" using key by (auto simp: base_def)
  with aes_icm_state s' show ?thesis
    by (intro that [of "c\<lparr>cipher_state := aes_icm_state s'\<rparr>"])
      (simp_all add: cipher_init_def cipher_type_of_def Let_def base_def [symmetric])
qed (use assms in \<open>simp add: cipher_type_of_def\<close>)

end
