(* ===== verification/Option_Rules.thy ===== *)
theory Option_Rules
  imports Prelude
begin

text \<open>
  Partial correctness of option-valued code: \<open>opt_all Q m\<close> says that whatever \<open>m\<close> returns satisfies
  \<open>Q\<close>. The rules follow the structure of a function body, so a proof about a long body is an
  application of \<open>opt_rules\<close> together with the bind rules instantiated with the specifications of the
  calls.
\<close>

definition opt_all :: "('a \<Rightarrow> bool) \<Rightarrow> 'a option \<Rightarrow> bool" where
  "opt_all Q m \<longleftrightarrow> (\<forall>x. m = Some x \<longrightarrow> Q x)"

lemma opt_all_Some [simp]: "opt_all Q (Some x) \<longleftrightarrow> Q x"
  by (simp add: opt_all_def)

lemma opt_all_None [simp]: "opt_all Q None"
  by (simp add: opt_all_def)

lemma opt_allD: "opt_all Q m \<Longrightarrow> m = Some x \<Longrightarrow> Q x"
  by (simp add: opt_all_def)

lemma opt_all_mono: "opt_all R m \<Longrightarrow> (\<And>x. R x \<Longrightarrow> Q x) \<Longrightarrow> opt_all Q m"
  by (simp add: opt_all_def)

lemma opt_all_SomeI: "Q x \<Longrightarrow> opt_all Q (Some x)"
  by simp

lemma opt_all_bind: "opt_all R m \<Longrightarrow> (\<And>x. R x \<Longrightarrow> opt_all Q (f x)) \<Longrightarrow> opt_all Q (Option.bind m f)"
  by (cases m) simp_all

lemma opt_all_bind2:
  "opt_all (\<lambda>(a, b). R a b) m \<Longrightarrow> (\<And>a b. R a b \<Longrightarrow> opt_all Q (f a b)) \<Longrightarrow>
     opt_all Q (Option.bind m (\<lambda>(a, b). f a b))"
  by (cases m) auto

lemma opt_all_bind3:
  "opt_all (\<lambda>(a, b, c). R a b c) m \<Longrightarrow> (\<And>a b c. R a b c \<Longrightarrow> opt_all Q (f a b c)) \<Longrightarrow>
     opt_all Q (Option.bind m (\<lambda>(a, b, c). f a b c))"
  by (cases m) auto

lemma opt_all_bind4:
  "opt_all (\<lambda>(a, b, c, d). R a b c d) m \<Longrightarrow> (\<And>a b c d. R a b c d \<Longrightarrow> opt_all Q (f a b c d)) \<Longrightarrow>
     opt_all Q (Option.bind m (\<lambda>(a, b, c, d). f a b c d))"
  by (cases m) auto

lemma opt_all_bind5:
  "opt_all (\<lambda>(a, b, c, d, e). R a b c d e) m \<Longrightarrow> (\<And>a b c d e. R a b c d e \<Longrightarrow> opt_all Q (f a b c d e)) \<Longrightarrow>
     opt_all Q (Option.bind m (\<lambda>(a, b, c, d, e). f a b c d e))"
  by (cases m) auto

lemma opt_all_if: "(b \<Longrightarrow> opt_all Q x) \<Longrightarrow> (\<not> b \<Longrightarrow> opt_all Q y) \<Longrightarrow> opt_all Q (if b then x else y)"
  by simp

lemma opt_all_Let: "(\<And>x. x = v \<Longrightarrow> opt_all Q (f x)) \<Longrightarrow> opt_all Q (Let v f)"
  by (simp add: Let_def)

lemma opt_all_case2: "(\<And>a b. p = (a, b) \<Longrightarrow> opt_all Q (f a b)) \<Longrightarrow> opt_all Q (case p of (a, b) \<Rightarrow> f a b)"
  by (cases p) simp

lemma opt_all_case_option:
  "(m = None \<Longrightarrow> opt_all Q x) \<Longrightarrow> (\<And>y. m = Some y \<Longrightarrow> opt_all Q (f y)) \<Longrightarrow>
     opt_all Q (case m of None \<Rightarrow> x | Some y \<Rightarrow> f y)"
  by (cases m) simp_all

lemmas opt_rules = opt_all_SomeI opt_all_None opt_all_if opt_all_Let opt_all_case2

end
