(* ===== verification/Cipher_Test.thy ===== *)
theory Cipher_Test
  imports Cipher Option_Rules
begin

text \<open>
  The self-test of \<^verbatim>\<open>srtp/crypto/cipher/cipher.c\<close>: known answers in both directions, then 128 random
  invertibility tests. The theorems show what it does to the reference counts, that the random tests
  always pass for the stream ciphers, and that it reads past the key arrays of the counter mode tests.
\<close>

section \<open>The test driver\<close>

text \<open>\<open>tc_key\<close> is the memory from the key pointer on; the lengths of the texts are those of the lists.\<close>

record cipher_test_case_t =
  tc_key_length_octets :: int
  tc_key :: octets
  tc_idx :: octets
  tc_plaintext :: octets
  tc_ciphertext :: octets

definition SELF_TEST_BUF_OCTETS :: nat where
  "SELF_TEST_BUF_OCTETS = 128"

definition NUM_RAND_TESTS :: nat where
  "NUM_RAND_TESTS = 128"

definition MAX_KEY_LEN :: nat where
  "MAX_KEY_LEN = 64"

text \<open>
  The state around the test: the random source, the results of \<^verbatim>\<open>rand\<close>, the results of
  \<^verbatim>\<open>crypto_alloc\<close> by the number of the call, and the reference counts.
\<close>

record cipher_env =
  env_source :: rand_source_t
  env_rand_tape :: "nat \<Rightarrow> nat"
  env_rand_pos :: nat
  env_cipher_mem :: "nat \<Rightarrow> cipher_mem option"
  env_allocs :: nat
  env_cipher_refs :: "cipher_type_t \<Rightarrow> int"

definition env_alloc :: "cipher_type_t \<Rightarrow> int \<Rightarrow> 'a cipher_env_scheme \<Rightarrow> err_status_t \<times> cipher_t option \<times> 'a cipher_env_scheme" where
  "env_alloc ct key_len e =
     (case cipher_type_alloc ct (env_cipher_mem e (env_allocs e)) (env_cipher_refs e) key_len of
        (status, c, refs) \<Rightarrow> (status, c, e\<lparr>env_allocs := env_allocs e + 1, env_cipher_refs := refs\<rparr>))"

definition env_dealloc :: "cipher_t \<Rightarrow> 'a cipher_env_scheme \<Rightarrow> err_status_t \<times> 'a cipher_env_scheme" where
  "env_dealloc c e = map_prod id (\<lambda>refs. e\<lparr>env_cipher_refs := refs\<rparr>) (cipher_dealloc (env_cipher_refs e) c)"

definition env_random :: "nat \<Rightarrow> 'a cipher_env_scheme \<Rightarrow> err_status_t \<times> octets \<times> 'a cipher_env_scheme" where
  "env_random len e = (case rand_source_loop (env_source e) len of (status, r, out) \<Rightarrow> (status, out, e\<lparr>env_source := r\<rparr>))"

definition env_rand :: "'a cipher_env_scheme \<Rightarrow> nat \<times> 'a cipher_env_scheme" where
  "env_rand e = (env_rand_tape e (env_rand_pos e), e\<lparr>env_rand_pos := env_rand_pos e + 1\<rparr>)"

text \<open>The null cipher ignores its vector, and its test case has a null pointer there.\<close>

definition test_set_iv :: "cipher_t \<Rightarrow> octets \<Rightarrow> (err_status_t \<times> cipher_t) option" where
  "test_set_iv c idx =
     (if cipher_type_of c = null_cipher then Some (cipher_set_iv c [])
      else map_option (cipher_set_iv c) (v128_copy_octet_string idx))"

text \<open>
  One direction of a known answer test: initialise, copy the input into the buffer, set the vector,
  process, compare. The error paths release the cipher, except the one for a wrong length.
\<close>

definition cipher_kat_direction :: "cipher_direction_t \<Rightarrow> cipher_test_case_t \<Rightarrow> octets \<Rightarrow> octets \<Rightarrow> octets \<Rightarrow>
    cipher_t \<Rightarrow> 'a cipher_env_scheme \<Rightarrow> (err_status_t \<times> cipher_t \<times> octets \<times> 'a cipher_env_scheme) option" where
  "cipher_kat_direction dir tc input expected buffer c e = do {
     (status, c) \<leftarrow> cipher_init c (tc_key tc) dir;
     if status \<noteq> err_status_ok then Some (status, c, buffer, snd (env_dealloc c e))
     else if length (tc_ciphertext tc) > SELF_TEST_BUF_OCTETS
     then Some (err_status_bad_param, c, buffer, snd (env_dealloc c e))
     else if length input > length buffer then None
     else do {
       let buffer = input @ drop (length input) buffer;
       (status, c) \<leftarrow> test_set_iv c (tc_idx tc);
       if status \<noteq> err_status_ok then Some (status, c, buffer, snd (env_dealloc c e))
       else do {
         (status, c, buffer, len) \<leftarrow>
           (if dir = direction_encrypt then cipher_encrypt c buffer (length input) else cipher_decrypt c buffer (length input));
         if status \<noteq> err_status_ok then Some (status, c, buffer, snd (env_dealloc c e))
         else if len \<noteq> length expected then Some (err_status_algo_fail, c, buffer, e)
         else if length expected > length buffer then None
         else if take (length expected) buffer \<noteq> expected
         then Some (err_status_algo_fail, c, buffer, snd (env_dealloc c e))
         else Some (err_status_ok, c, buffer, e)
       }
     }
   }"

definition cipher_kat :: "cipher_type_t \<Rightarrow> cipher_test_case_t \<Rightarrow> octets \<Rightarrow> 'a cipher_env_scheme \<Rightarrow>
    (err_status_t \<times> octets \<times> 'a cipher_env_scheme) option" where
  "cipher_kat ct tc buffer e =
     (case env_alloc ct (tc_key_length_octets tc) e of
        (status, None, e) \<Rightarrow> Some (status, buffer, e)
      | (_, Some c, e) \<Rightarrow> do {
          (status, c, buffer, e) \<leftarrow> cipher_kat_direction direction_encrypt tc (tc_plaintext tc) (tc_ciphertext tc) buffer c e;
          if status \<noteq> err_status_ok then Some (status, buffer, e)
          else do {
            (status, c, buffer, e) \<leftarrow> cipher_kat_direction direction_decrypt tc (tc_ciphertext tc) (tc_plaintext tc) buffer c e;
            if status \<noteq> err_status_ok then Some (status, buffer, e)
            else case env_dealloc c e of (status, e) \<Rightarrow> Some (status, buffer, e)
          }
        })"

fun cipher_kat_loop :: "cipher_type_t \<Rightarrow> cipher_test_case_t list \<Rightarrow> octets \<Rightarrow> 'a cipher_env_scheme \<Rightarrow>
    (err_status_t \<times> octets \<times> 'a cipher_env_scheme) option" where
  "cipher_kat_loop ct [] buffer e = Some (err_status_ok, buffer, e)"
| "cipher_kat_loop ct (tc # tcs) buffer e = do {
     (status, buffer, e) \<leftarrow> cipher_kat ct tc buffer e;
     if status \<noteq> err_status_ok then Some (status, buffer, e) else cipher_kat_loop ct tcs buffer e
   }"

text \<open>
  One random test. \<open>key\<close> is the stack array of 64 octets, filled from the front; the random vector that
  the source draws is not used: the test sets the index of the first test case again.
\<close>

definition cipher_rand_test :: "cipher_test_case_t \<Rightarrow> octets \<Rightarrow> octets \<Rightarrow> cipher_t \<Rightarrow> 'a cipher_env_scheme \<Rightarrow>
    (err_status_t \<times> cipher_t \<times> octets \<times> octets \<times> 'a cipher_env_scheme) option" where
  "cipher_rand_test tc key buffer c e = do {
     let (r, e) = env_rand e;
     let length0 = r mod (SELF_TEST_BUF_OCTETS - 64);
     let (status, out, e) = env_random length0 e;
     if status \<noteq> err_status_ok then Some (status, c, key, buffer, e)
     else if tc_key_length_octets tc > int MAX_KEY_LEN then Some (err_status_cant_check, c, key, buffer, e)
     else do {
       let buffer = out @ drop length0 buffer;
       let buffer2 = out;
       let (status, out, e) = env_random (nat (tc_key_length_octets tc)) e;
       if status \<noteq> err_status_ok then Some (status, c, key, buffer, e)
       else do {
         let key = out @ drop (length out) key;
         let (status, iv, e) = env_random MAX_KEY_LEN e;
         if status \<noteq> err_status_ok then Some (status, c, key, buffer, e)
         else do {
           (status, c) \<leftarrow> cipher_init c key direction_encrypt;
           if status \<noteq> err_status_ok then Some (status, c, key, buffer, snd (env_dealloc c e))
           else do {
             (status, c) \<leftarrow> test_set_iv c (tc_idx tc);
             if status \<noteq> err_status_ok then Some (status, c, key, buffer, snd (env_dealloc c e))
             else do {
               (status, c, buffer, len) \<leftarrow> cipher_encrypt c buffer length0;
               if status \<noteq> err_status_ok then Some (status, c, key, buffer, snd (env_dealloc c e))
               else do {
                 (status, c) \<leftarrow> cipher_init c key direction_decrypt;
                 if status \<noteq> err_status_ok then Some (status, c, key, buffer, snd (env_dealloc c e))
                 else do {
                   (status, c) \<leftarrow> test_set_iv c (tc_idx tc);
                   if status \<noteq> err_status_ok then Some (status, c, key, buffer, snd (env_dealloc c e))
                   else do {
                     (status, c, buffer, len) \<leftarrow> cipher_decrypt c buffer len;
                     if status \<noteq> err_status_ok then Some (status, c, key, buffer, snd (env_dealloc c e))
                     else if len \<noteq> length0 then Some (err_status_algo_fail, c, key, buffer, e)
                     else if take length0 buffer \<noteq> buffer2
                     then Some (err_status_algo_fail, c, key, buffer, snd (env_dealloc c e))
                     else Some (err_status_ok, c, key, buffer, e)
                   }
                 }
               }
             }
           }
         }
       }
     }
   }"

fun cipher_rand_loop :: "nat \<Rightarrow> cipher_test_case_t \<Rightarrow> octets \<Rightarrow> octets \<Rightarrow> cipher_t \<Rightarrow> 'a cipher_env_scheme \<Rightarrow>
    (err_status_t \<times> cipher_t \<times> 'a cipher_env_scheme) option" where
  "cipher_rand_loop 0 tc key buffer c e = Some (err_status_ok, c, e)"
| "cipher_rand_loop (Suc n) tc key buffer c e = do {
     (status, c, key, buffer, e) \<leftarrow> cipher_rand_test tc key buffer c e;
     if status \<noteq> err_status_ok then Some (status, c, e) else cipher_rand_loop n tc key buffer c e
   }"

text \<open>\<open>buffer\<close> and \<open>key\<close> are the uninitialised arrays on the stack.\<close>

definition cipher_type_test :: "cipher_type_t \<Rightarrow> cipher_test_case_t list \<Rightarrow> octets \<Rightarrow> octets \<Rightarrow> 'a cipher_env_scheme \<Rightarrow>
    (err_status_t \<times> 'a cipher_env_scheme) option" where
  "cipher_type_test ct test_data buffer key e =
     (case test_data of [] \<Rightarrow> Some (err_status_cant_check, e)
      | tc # _ \<Rightarrow> do {
          (status, buffer, e) \<leftarrow> cipher_kat_loop ct test_data buffer e;
          if status \<noteq> err_status_ok then Some (status, e)
          else case env_alloc ct (tc_key_length_octets tc) e of
            (status, None, e) \<Rightarrow> Some (status, e)
          | (_, Some c, e) \<Rightarrow> do {
              let e = e\<lparr>env_source := snd (rand_source_init (env_source e))\<rparr>;
              (status, c, e) \<leftarrow> cipher_rand_loop NUM_RAND_TESTS tc key buffer c e;
              if status \<noteq> err_status_ok then Some (status, e)
              else Some (env_dealloc c e)
            }
        })"

section \<open>The test cases\<close>

text \<open>
  \<open>past\<close> is the memory behind a key array: the 16-octet copies of \<^verbatim>\<open>aes_icm_context_init\<close> read two
  octets of it. A case list starts with the case the metaobject refers to and follows the links.
\<close>

definition null_cipher_test_0 :: cipher_test_case_t where
  "null_cipher_test_0 =
     \<lparr>tc_key_length_octets = 0, tc_key = [], tc_idx = [], tc_plaintext = [], tc_ciphertext = []\<rparr>"

definition aes_icm_test_case_0 :: "octets \<Rightarrow> cipher_test_case_t" where
  "aes_icm_test_case_0 past =
     \<lparr>tc_key_length_octets = 30,
      tc_key = [0x2b, 0x7e, 0x15, 0x16, 0x28, 0xae, 0xd2, 0xa6,
                0xab, 0xf7, 0x15, 0x88, 0x09, 0xcf, 0x4f, 0x3c,
                0xf0, 0xf1, 0xf2, 0xf3, 0xf4, 0xf5, 0xf6, 0xf7,
                0xf8, 0xf9, 0xfa, 0xfb, 0xfc, 0xfd] @ past,
      tc_idx = [0x00, 0x00, 0x00, 0x00, 0x00, 0x00, 0x00, 0x00,
                0x00, 0x00, 0x00, 0x00, 0x00, 0x00, 0x00, 0x00],
      tc_plaintext = [0x00, 0x00, 0x00, 0x00, 0x00, 0x00, 0x00, 0x00,
                      0x00, 0x00, 0x00, 0x00, 0x00, 0x00, 0x00, 0x00,
                      0x00, 0x00, 0x00, 0x00, 0x00, 0x00, 0x00, 0x00,
                      0x00, 0x00, 0x00, 0x00, 0x00, 0x00, 0x00, 0x00],
      tc_ciphertext = [0xe0, 0x3e, 0xad, 0x09, 0x35, 0xc9, 0x5e, 0x80,
                       0xe1, 0x66, 0xb1, 0x6d, 0xd9, 0x2b, 0x4e, 0xb4,
                       0xd2, 0x35, 0x13, 0x16, 0x2b, 0x02, 0xd0, 0xf7,
                       0x2a, 0x43, 0xa2, 0xfe, 0x4a, 0x5f, 0x97, 0xab]\<rparr>"

definition aes_icm_test_case_1 :: "octets \<Rightarrow> cipher_test_case_t" where
  "aes_icm_test_case_1 past =
     \<lparr>tc_key_length_octets = 46,
      tc_key = [0x57, 0xf8, 0x2f, 0xe3, 0x61, 0x3f, 0xd1, 0x70,
                0xa8, 0x5e, 0xc9, 0x3c, 0x40, 0xb1, 0xf0, 0x92,
                0x2e, 0xc4, 0xcb, 0x0d, 0xc0, 0x25, 0xb5, 0x82,
                0x72, 0x14, 0x7c, 0xc4, 0x38, 0x94, 0x4a, 0x98,
                0xf0, 0xf1, 0xf2, 0xf3, 0xf4, 0xf5, 0xf6, 0xf7,
                0xf8, 0xf9, 0xfa, 0xfb, 0xfc, 0xfd] @ past,
      tc_idx = [0x00, 0x00, 0x00, 0x00, 0x00, 0x00, 0x00, 0x00,
                0x00, 0x00, 0x00, 0x00, 0x00, 0x00, 0x00, 0x00],
      tc_plaintext = [0x00, 0x00, 0x00, 0x00, 0x00, 0x00, 0x00, 0x00,
                      0x00, 0x00, 0x00, 0x00, 0x00, 0x00, 0x00, 0x00,
                      0x00, 0x00, 0x00, 0x00, 0x00, 0x00, 0x00, 0x00,
                      0x00, 0x00, 0x00, 0x00, 0x00, 0x00, 0x00, 0x00],
      tc_ciphertext = [0x92, 0xbd, 0xd2, 0x8a, 0x93, 0xc3, 0xf5, 0x25,
                       0x11, 0xc6, 0x77, 0xd0, 0x8b, 0x55, 0x15, 0xa4,
                       0x9d, 0xa7, 0x1b, 0x23, 0x78, 0xa8, 0x54, 0xf6,
                       0x70, 0x50, 0x75, 0x6d, 0xed, 0x16, 0x5b, 0xac]\<rparr>"

definition aes_cbc_test_case_0 :: "octets \<Rightarrow> cipher_test_case_t" where
  "aes_cbc_test_case_0 past =
     \<lparr>tc_key_length_octets = 16,
      tc_key = [0x00, 0x01, 0x02, 0x03, 0x04, 0x05, 0x06, 0x07,
                0x08, 0x09, 0x0a, 0x0b, 0x0c, 0x0d, 0x0e, 0x0f] @ past,
      tc_idx = [0x00, 0x00, 0x00, 0x00, 0x00, 0x00, 0x00, 0x00,
                0x00, 0x00, 0x00, 0x00, 0x00, 0x00, 0x00, 0x00],
      tc_plaintext = [0x00, 0x11, 0x22, 0x33, 0x44, 0x55, 0x66, 0x77,
                      0x88, 0x99, 0xaa, 0xbb, 0xcc, 0xdd, 0xee, 0xff],
      tc_ciphertext = [0x69, 0xc4, 0xe0, 0xd8, 0x6a, 0x7b, 0x04, 0x30,
                       0xd8, 0xcd, 0xb7, 0x80, 0x70, 0xb4, 0xc5, 0x5a,
                       0x03, 0x35, 0xed, 0x27, 0x67, 0xf2, 0x6d, 0xf1,
                       0x64, 0x83, 0x2e, 0x23, 0x44, 0x38, 0x70, 0x8b]\<rparr>"

definition aes_cbc_test_case_1 :: "octets \<Rightarrow> cipher_test_case_t" where
  "aes_cbc_test_case_1 past =
     \<lparr>tc_key_length_octets = 16,
      tc_key = [0x2b, 0x7e, 0x15, 0x16, 0x28, 0xae, 0xd2, 0xa6,
                0xab, 0xf7, 0x15, 0x88, 0x09, 0xcf, 0x4f, 0x3c] @ past,
      tc_idx = [0x00, 0x01, 0x02, 0x03, 0x04, 0x05, 0x06, 0x07,
                0x08, 0x09, 0x0a, 0x0b, 0x0c, 0x0d, 0x0e, 0x0f],
      tc_plaintext = [0x6b, 0xc1, 0xbe, 0xe2, 0x2e, 0x40, 0x9f, 0x96,
                      0xe9, 0x3d, 0x7e, 0x11, 0x73, 0x93, 0x17, 0x2a,
                      0xae, 0x2d, 0x8a, 0x57, 0x1e, 0x03, 0xac, 0x9c,
                      0x9e, 0xb7, 0x6f, 0xac, 0x45, 0xaf, 0x8e, 0x51,
                      0x30, 0xc8, 0x1c, 0x46, 0xa3, 0x5c, 0xe4, 0x11,
                      0xe5, 0xfb, 0xc1, 0x19, 0x1a, 0x0a, 0x52, 0xef,
                      0xf6, 0x9f, 0x24, 0x45, 0xdf, 0x4f, 0x9b, 0x17,
                      0xad, 0x2b, 0x41, 0x7b, 0xe6, 0x6c, 0x37, 0x10],
      tc_ciphertext = [0x76, 0x49, 0xab, 0xac, 0x81, 0x19, 0xb2, 0x46,
                       0xce, 0xe9, 0x8e, 0x9b, 0x12, 0xe9, 0x19, 0x7d,
                       0x50, 0x86, 0xcb, 0x9b, 0x50, 0x72, 0x19, 0xee,
                       0x95, 0xdb, 0x11, 0x3a, 0x91, 0x76, 0x78, 0xb2,
                       0x73, 0xbe, 0xd6, 0xb8, 0xe3, 0xc1, 0x74, 0x3b,
                       0x71, 0x16, 0xe6, 0x9e, 0x22, 0x22, 0x95, 0x16,
                       0x3f, 0xf1, 0xca, 0xa1, 0x68, 0x1f, 0xac, 0x09,
                       0x12, 0x0e, 0xca, 0x30, 0x75, 0x86, 0xe1, 0xa7,
                       0x39, 0x34, 0x07, 0x03, 0x36, 0xd0, 0x77, 0x99,
                       0xe0, 0xc4, 0x2f, 0xdd, 0xa8, 0xdf, 0x4c, 0xa3]\<rparr>"

definition aes_cbc_test_case_2 :: "octets \<Rightarrow> cipher_test_case_t" where
  "aes_cbc_test_case_2 past =
     \<lparr>tc_key_length_octets = 32,
      tc_key = [0x00, 0x01, 0x02, 0x03, 0x04, 0x05, 0x06, 0x07,
                0x08, 0x09, 0x0a, 0x0b, 0x0c, 0x0d, 0x0e, 0x0f,
                0x10, 0x11, 0x12, 0x13, 0x14, 0x15, 0x16, 0x17,
                0x18, 0x19, 0x1a, 0x1b, 0x1c, 0x1d, 0x1e, 0x1f] @ past,
      tc_idx = [0x00, 0x00, 0x00, 0x00, 0x00, 0x00, 0x00, 0x00,
                0x00, 0x00, 0x00, 0x00, 0x00, 0x00, 0x00, 0x00],
      tc_plaintext = [0x00, 0x11, 0x22, 0x33, 0x44, 0x55, 0x66, 0x77,
                      0x88, 0x99, 0xaa, 0xbb, 0xcc, 0xdd, 0xee, 0xff],
      tc_ciphertext = [0x8e, 0xa2, 0xb7, 0xca, 0x51, 0x67, 0x45, 0xbf,
                       0xea, 0xfc, 0x49, 0x90, 0x4b, 0x49, 0x60, 0x89,
                       0x72, 0x72, 0x6e, 0xe7, 0x71, 0x39, 0xbf, 0x11,
                       0xe5, 0x40, 0xe2, 0x7c, 0x54, 0x65, 0x1d, 0xee]\<rparr>"

definition aes_cbc_test_case_3 :: "octets \<Rightarrow> cipher_test_case_t" where
  "aes_cbc_test_case_3 past =
     \<lparr>tc_key_length_octets = 32,
      tc_key = [0x60, 0x3d, 0xeb, 0x10, 0x15, 0xca, 0x71, 0xbe,
                0x2b, 0x73, 0xae, 0xf0, 0x85, 0x7d, 0x77, 0x81,
                0x1f, 0x35, 0x2c, 0x07, 0x3b, 0x61, 0x08, 0xd7,
                0x2d, 0x98, 0x10, 0xa3, 0x09, 0x14, 0xdf, 0xf4] @ past,
      tc_idx = [0x00, 0x01, 0x02, 0x03, 0x04, 0x05, 0x06, 0x07,
                0x08, 0x09, 0x0a, 0x0b, 0x0c, 0x0d, 0x0e, 0x0f],
      tc_plaintext = [0x6b, 0xc1, 0xbe, 0xe2, 0x2e, 0x40, 0x9f, 0x96,
                      0xe9, 0x3d, 0x7e, 0x11, 0x73, 0x93, 0x17, 0x2a,
                      0xae, 0x2d, 0x8a, 0x57, 0x1e, 0x03, 0xac, 0x9c,
                      0x9e, 0xb7, 0x6f, 0xac, 0x45, 0xaf, 0x8e, 0x51,
                      0x30, 0xc8, 0x1c, 0x46, 0xa3, 0x5c, 0xe4, 0x11,
                      0xe5, 0xfb, 0xc1, 0x19, 0x1a, 0x0a, 0x52, 0xef,
                      0xf6, 0x9f, 0x24, 0x45, 0xdf, 0x4f, 0x9b, 0x17,
                      0xad, 0x2b, 0x41, 0x7b, 0xe6, 0x6c, 0x37, 0x10],
      tc_ciphertext = [0xf5, 0x8c, 0x4c, 0x04, 0xd6, 0xe5, 0xf1, 0xba,
                       0x77, 0x9e, 0xab, 0xfb, 0x5f, 0x7b, 0xfb, 0xd6,
                       0x9c, 0xfc, 0x4e, 0x96, 0x7e, 0xdb, 0x80, 0x8d,
                       0x67, 0x9f, 0x77, 0x7b, 0xc6, 0x70, 0x2c, 0x7d,
                       0x39, 0xf2, 0x33, 0x69, 0xa9, 0xd9, 0xba, 0xcf,
                       0xa5, 0x30, 0xe2, 0x63, 0x04, 0x23, 0x14, 0x61,
                       0xb2, 0xeb, 0x05, 0xe2, 0xc3, 0x9b, 0xe9, 0xfc,
                       0xda, 0x6c, 0x19, 0x07, 0x8c, 0x6a, 0x9d, 0x1b,
                       0xfb, 0x98, 0x20, 0x2c, 0x45, 0xb2, 0xe4, 0xa0,
                       0x63, 0xc4, 0x68, 0xba, 0x84, 0x39, 0x16, 0x5a]\<rparr>"

definition cipher_test_data :: "octets \<Rightarrow> cipher_type_t \<Rightarrow> cipher_test_case_t list" where
  "cipher_test_data past ct =
     (case ct of
        null_cipher \<Rightarrow> [null_cipher_test_0]
      | aes_icm \<Rightarrow> [aes_icm_test_case_1 past, aes_icm_test_case_0 past]
      | aes_cbc \<Rightarrow> [aes_cbc_test_case_3 past, aes_cbc_test_case_2 past, aes_cbc_test_case_1 past, aes_cbc_test_case_0 past])"

definition cipher_type_self_test :: "octets \<Rightarrow> cipher_type_t \<Rightarrow> octets \<Rightarrow> octets \<Rightarrow> 'a cipher_env_scheme \<Rightarrow>
    (err_status_t \<times> 'a cipher_env_scheme) option" where
  "cipher_type_self_test past ct buffer key e = cipher_type_test ct (cipher_test_data past ct) buffer key e"

section \<open>Reference counts\<close>

text \<open>\<open>refs_step ct n e e'\<close>: the test changed the count of \<open>ct\<close> by \<open>n\<close> and no other.\<close>

definition refs_step :: "cipher_type_t \<Rightarrow> int \<Rightarrow> 'a cipher_env_scheme \<Rightarrow> 'a cipher_env_scheme \<Rightarrow> bool" where
  "refs_step ct n e e' \<longleftrightarrow> env_cipher_refs e' = (env_cipher_refs e)(ct := env_cipher_refs e ct + n)"

lemma refs_step_trans: "refs_step ct m e e' \<Longrightarrow> refs_step ct n e' e'' \<Longrightarrow> refs_step ct (m + n) e e''"
  by (auto simp: refs_step_def)

lemma refs_step_0 [simp]: "refs_step ct 0 e e"
  by (simp add: refs_step_def)

lemma env_alloc_refs:
  assumes "env_alloc ct key_len e = (status, oc, e')"
  shows "case oc of None \<Rightarrow> status \<noteq> err_status_ok \<and> refs_step ct 0 e e'
    | Some c \<Rightarrow> cipher_type_of c = ct \<and> refs_step ct 1 e e'"
  using assms
  by (cases ct) (auto simp: env_alloc_def cipher_type_alloc_def null_cipher_alloc_def aes_icm_alloc_def
      aes_icm_alloc_ismacryp_def aes_cbc_alloc_def cipher_type_of_def refs_step_def split: prod.splits option.splits if_splits)

lemma env_dealloc_refs: "cipher_type_of c = ct \<Longrightarrow> env_dealloc c e = (err_status_ok, snd (env_dealloc c e)) \<and> refs_step ct (-1) e (snd (env_dealloc c e))"
  by (cases "cipher_state c") (auto simp: env_dealloc_def cipher_dealloc_def null_cipher_dealloc_def
      aes_icm_dealloc_def aes_cbc_dealloc_def cipher_type_of_def refs_step_def)

lemma cipher_init_type: "cipher_init c key dir = Some (st, c') \<Longrightarrow> cipher_type_of c' = cipher_type_of c"
  by (cases "cipher_state c") (auto simp: cipher_init_def cipher_type_of_def)

lemma cipher_set_iv_type: "cipher_type_of (snd (cipher_set_iv c iv)) = cipher_type_of c"
  by (cases "cipher_state c") (simp_all add: cipher_set_iv_def cipher_type_of_def)

lemma test_set_iv_type: "test_set_iv c idx = Some (st, c') \<Longrightarrow> cipher_type_of c' = cipher_type_of c"
  using cipher_set_iv_type [of c] by (auto simp: test_set_iv_def split: if_splits) (metis snd_conv)+

lemma cipher_encrypt_type: "cipher_encrypt c buf n = Some (st, c', buf', n') \<Longrightarrow> cipher_type_of c' = cipher_type_of c"
  by (cases "cipher_state c") (auto simp: cipher_encrypt_def cipher_type_of_def)

lemma cipher_decrypt_type: "cipher_decrypt c buf n = Some (st, c', buf', n') \<Longrightarrow> cipher_type_of c' = cipher_type_of c"
  by (cases "cipher_state c") (auto simp: cipher_decrypt_def cipher_type_of_def)

lemmas cipher_ops_type = cipher_init_type test_set_iv_type cipher_encrypt_type cipher_decrypt_type

lemma env_random_refs: "env_cipher_refs (snd (snd (env_random n e))) = env_cipher_refs e"
  by (simp add: env_random_def split: prod.splits)

lemma env_rand_refs: "env_cipher_refs (snd (env_rand e)) = env_cipher_refs e"
  by (simp add: env_rand_def)


text \<open>
  \<open>kept ct st c e e'\<close>: after a step that ended with \<open>st\<close> the object is still held when the step
  succeeded, and released or leaked when it failed.
\<close>

definition kept :: "cipher_type_t \<Rightarrow> err_status_t \<Rightarrow> 'a cipher_env_scheme \<Rightarrow> 'a cipher_env_scheme \<Rightarrow> bool" where
  "kept ct st e e' \<longleftrightarrow> refs_step ct 0 e e' \<or> st \<noteq> err_status_ok \<and> refs_step ct (-1) e e'"

lemma kept_refl: "env_cipher_refs e' = env_cipher_refs e \<Longrightarrow> kept ct st e e'"
  by (simp add: kept_def refs_step_def)

lemma kept_dealloc:
  "env_cipher_refs e' = env_cipher_refs e \<Longrightarrow> st \<noteq> err_status_ok \<Longrightarrow> cipher_type_of c = ct \<Longrightarrow>
     kept ct st e (snd (env_dealloc c e'))"
  using env_dealloc_refs [of c ct e'] by (simp add: kept_def refs_step_def)

lemma cipher_keeps_type:
  "opt_all (\<lambda>(st, c'). cipher_type_of c' = cipher_type_of c) (cipher_init c key dir)"
  "opt_all (\<lambda>(st, c'). cipher_type_of c' = cipher_type_of c) (test_set_iv c idx)"
  "opt_all (\<lambda>(st, c', buf', n'). cipher_type_of c' = cipher_type_of c) (cipher_encrypt c buf n)"
  "opt_all (\<lambda>(st, c', buf', n'). cipher_type_of c' = cipher_type_of c) (cipher_decrypt c buf n)"
  using cipher_init_type test_set_iv_type cipher_encrypt_type cipher_decrypt_type
  by (fastforce simp: opt_all_def)+

lemma cipher_crypt_type:
  "opt_all (\<lambda>(st, c', buf', n'). cipher_type_of c' = cipher_type_of c) (if b then cipher_encrypt c buf n else cipher_decrypt c buf n)"
  using cipher_keeps_type(3,4) by simp

lemmas cipher_binds = opt_all_bind2 [OF cipher_keeps_type(1)] opt_all_bind2 [OF cipher_keeps_type(2)]
  opt_all_bind4 [OF cipher_keeps_type(3)] opt_all_bind4 [OF cipher_keeps_type(4)] opt_all_bind4 [OF cipher_crypt_type]

lemma cipher_kat_direction_kept:
  "opt_all (\<lambda>(st, c', buffer', e'). kept (cipher_type_of c) st e e' \<and> cipher_type_of c' = cipher_type_of c)
     (cipher_kat_direction dir tc input expected buffer c e)"
  unfolding cipher_kat_direction_def
  by (intro opt_rules cipher_binds) (auto intro: kept_refl kept_dealloc)

lemma cipher_rand_test_kept:
  "opt_all (\<lambda>(st, c', key', buffer', e'). kept (cipher_type_of c) st e e' \<and> cipher_type_of c' = cipher_type_of c)
     (cipher_rand_test tc key buffer c e)"
proof -
  obtain r e1 where 1: "env_rand e = (r, e1)" by fastforce
  obtain s2 o2 e2 where 2: "env_random (r mod (SELF_TEST_BUF_OCTETS - 64)) e1 = (s2, o2, e2)" by (metis prod_cases3)
  obtain s3 o3 e3 where 3: "env_random (nat (tc_key_length_octets tc)) e2 = (s3, o3, e3)" by (metis prod_cases3)
  obtain s4 o4 e4 where 4: "env_random MAX_KEY_LEN e3 = (s4, o4, e4)" by (metis prod_cases3)
  have refs: "env_cipher_refs e2 = env_cipher_refs e" "env_cipher_refs e3 = env_cipher_refs e" "env_cipher_refs e4 = env_cipher_refs e"
    using env_rand_refs [of e] env_random_refs [of "r mod (SELF_TEST_BUF_OCTETS - 64)" e1]
      env_random_refs [of "nat (tc_key_length_octets tc)" e2] env_random_refs [of MAX_KEY_LEN e3] 1 2 3 4 by simp_all
  show ?thesis
    unfolding cipher_rand_test_def 1 2 3 4 Let_def prod.case
    by (intro opt_rules cipher_binds) (auto intro: kept_refl kept_dealloc simp: refs)
qed

lemma kept_ok: "kept ct err_status_ok e e' \<Longrightarrow> refs_step ct 0 e e'"
  by (simp add: kept_def)

lemma kept_trans: "refs_step ct 0 e e' \<Longrightarrow> kept ct st e' e'' \<Longrightarrow> kept ct st e e''"
  unfolding kept_def using refs_step_trans by fastforce

lemma cipher_rand_loop_kept:
  "cipher_rand_loop n tc key buffer c e = Some (st, c', e') \<Longrightarrow>
     kept (cipher_type_of c) st e e' \<and> cipher_type_of c' = cipher_type_of c"
proof (induction n tc key buffer c e rule: cipher_rand_loop.induct)
  case (2 n tc key buffer c e)
  then obtain st1 c1 key1 buffer1 e1 where r: "cipher_rand_test tc key buffer c e = Some (st1, c1, key1, buffer1, e1)"
    "if st1 \<noteq> err_status_ok then st = st1 \<and> c' = c1 \<and> e' = e1 else cipher_rand_loop n tc key1 buffer1 c1 e1 = Some (st, c', e')"
    by (auto simp: bind_eq_Some_conv split: if_splits)
  have k: "kept (cipher_type_of c) st1 e e1 \<and> cipher_type_of c1 = cipher_type_of c"
    using opt_allD [OF cipher_rand_test_kept r(1)] by simp
  show ?case
  proof (cases "st1 = err_status_ok")
    case True
    with "2.IH" [OF r(1)] r k show ?thesis by (auto intro: kept_trans kept_ok)
  qed (use r k in simp)
qed (simp add: kept_refl)

text \<open>Allocated, used, and released or leaked.\<close>

definition balanced :: "cipher_type_t \<Rightarrow> err_status_t \<Rightarrow> 'a cipher_env_scheme \<Rightarrow> 'a cipher_env_scheme \<Rightarrow> bool" where
  "balanced ct st e e' \<longleftrightarrow> refs_step ct 0 e e' \<or> st \<noteq> err_status_ok \<and> refs_step ct 1 e e'"

lemma alloc_kept_balanced:
  assumes "refs_step ct 1 e e1" and "kept ct st e1 e'" and "st \<noteq> err_status_ok"
  shows "balanced ct st e e'"
  using refs_step_trans [OF assms(1), of 0 e'] refs_step_trans [OF assms(1), of "-1" e'] assms(2,3)
  by (auto simp: balanced_def kept_def)

lemma alloc_dealloc_balanced:
  assumes "refs_step ct 1 e e1" and "refs_step ct 0 e1 e2" and "cipher_type_of c = ct"
  shows "balanced ct st e (snd (env_dealloc c e2))"
proof -
  have "refs_step ct (1 + 0 + -1) e (snd (env_dealloc c e2))"
    using refs_step_trans [OF refs_step_trans [OF assms(1,2)]] env_dealloc_refs [OF assms(3)] by blast
  then show ?thesis by (simp add: balanced_def)
qed

lemma kat_step_balanced:
  assumes "refs_step ct 1 e e1" and "kept ct err_status_ok e1 e2" and "kept ct st e2 e3"
  shows "st \<noteq> err_status_ok \<Longrightarrow> balanced ct st e e3"
    and "st = err_status_ok \<Longrightarrow> cipher_type_of c = ct \<Longrightarrow> env_dealloc c e3 = (st', e4) \<Longrightarrow> balanced ct st' e e4"
  using assms alloc_kept_balanced alloc_dealloc_balanced kept_trans kept_ok by (metis snd_conv)+

lemma cipher_kat_balanced: "opt_all (\<lambda>(st, buffer', e'). balanced ct st e e') (cipher_kat ct tc buffer e)"
proof -
  obtain st1 oc e1 where al: "env_alloc ct (tc_key_length_octets tc) e = (st1, oc, e1)" by (metis prod_cases3)
  show ?thesis
  proof (cases oc)
    case None
    with env_alloc_refs [OF al] al show ?thesis by (simp add: cipher_kat_def balanced_def)
  next
    case (Some c)
    with env_alloc_refs [OF al] have c: "cipher_type_of c = ct" "refs_step ct 1 e e1" by simp_all
    show ?thesis
      unfolding cipher_kat_def al Some prod.case option.case
      by (intro opt_rules opt_all_bind4 [OF cipher_kat_direction_kept])
        (use c in \<open>auto intro: alloc_kept_balanced kat_step_balanced\<close>)
  qed
qed

lemma balanced_trans: "refs_step ct 0 e e' \<Longrightarrow> balanced ct st e' e'' \<Longrightarrow> balanced ct st e e''"
  unfolding balanced_def using refs_step_trans by fastforce

lemma balanced_ok: "balanced ct err_status_ok e e' \<Longrightarrow> refs_step ct 0 e e'"
  by (simp add: balanced_def)

lemma cipher_kat_loop_balanced:
  "cipher_kat_loop ct tcs buffer e = Some (st, buffer', e') \<Longrightarrow> balanced ct st e e'"
proof (induction ct tcs buffer e rule: cipher_kat_loop.induct)
  case (2 ct tc tcs buffer e)
  then obtain st1 b1 e1 where r: "cipher_kat ct tc buffer e = Some (st1, b1, e1)"
    "if st1 \<noteq> err_status_ok then st = st1 \<and> e' = e1 else cipher_kat_loop ct tcs b1 e1 = Some (st, buffer', e')"
    by (auto simp: bind_eq_Some_conv split: if_splits)
  have "balanced ct st1 e e1" using opt_allD [OF cipher_kat_balanced r(1)] by simp
  then show ?case
    using "2.IH" [OF r(1)] r
    by (cases "st1 = err_status_ok") (auto intro: balanced_trans balanced_ok)
qed (simp add: balanced_def)

text \<open>Memory as an allocator that clears it hands it out.\<close>

definition blank_cipher_mem :: cipher_mem where
  "blank_cipher_mem =
     (let ek = \<lparr>round_key = replicate 15 [0, 0, 0, 0], num_rounds = 0\<rparr>; z = [0, 0, 0, 0]
      in (\<lparr>icm_counter = z, icm_offset = z, keystream_buffer = z, icm_expanded_key = ek, bytes_in_buffer = 0\<rparr>,
          \<lparr>cbc_state = z, cbc_previous = z, cbc_expanded_key = ek\<rparr>))"

text \<open>
  Reference counts across a self-test: a test that passes releases every cipher it allocates;
  one that fails leaves the counts as they were or leaks exactly one object of the tested type. The
  leak is real: the returns after a failed random source and on a wrong length skip the release.
\<close>

theorem cipher_type_test_refs:
  assumes "cipher_type_test ct test_data buffer key e = Some (st, e')"
  shows "env_cipher_refs e' = env_cipher_refs e \<or>
    st \<noteq> err_status_ok \<and> env_cipher_refs e' = (env_cipher_refs e)(ct := env_cipher_refs e ct + 1)"
proof (cases test_data)
  case Nil
  with assms show ?thesis by (simp add: cipher_type_test_def)
next
  case (Cons tc tcs)
  with assms obtain st1 b1 e1 where 1: "cipher_kat_loop ct test_data buffer e = Some (st1, b1, e1)"
    by (auto simp: cipher_type_test_def bind_eq_Some_conv simp del: cipher_kat_loop.simps)
  note b1 = cipher_kat_loop_balanced [OF 1]
  obtain st2 oc e2 where al: "env_alloc ct (tc_key_length_octets tc) e1 = (st2, oc, e2)" by (metis prod_cases3)
  have "balanced ct st e e'"
  proof (cases "st1 = err_status_ok")
    case False
    with assms Cons 1 b1 show ?thesis by (simp add: cipher_type_test_def del: cipher_kat_loop.simps)
  next
    case ok: True
    show ?thesis
    proof (cases oc)
      case None
      with ok assms Cons 1 b1 al env_alloc_refs [OF al] show ?thesis
        by (auto simp: cipher_type_test_def balanced_def simp del: cipher_kat_loop.simps
            intro: refs_step_trans [of _ 0 _ _ 0, simplified])
    next
      case (Some c)
      with env_alloc_refs [OF al] have c: "cipher_type_of c = ct" "refs_step ct 1 e1 e2" by simp_all
      let ?e = "e2\<lparr>env_source := snd (rand_source_init (env_source e2))\<rparr>"
      have c2: "refs_step ct 1 e1 ?e" using c(2) by (simp add: refs_step_def)
      from ok assms Cons 1 al Some obtain st3 c3 e3 where 3:
        "cipher_rand_loop NUM_RAND_TESTS tc key b1 c ?e = Some (st3, c3, e3)"
        "if st3 \<noteq> err_status_ok then st = st3 \<and> e' = e3 else (st, e') = env_dealloc c3 e3"
        by (auto simp: cipher_type_test_def bind_eq_Some_conv simp del: cipher_kat_loop.simps split: if_splits)
      note k = cipher_rand_loop_kept [OF 3(1)]
      have "balanced ct st e1 e'"
      proof (cases "st3 = err_status_ok")
        case True
        with 3(2) have "e' = snd (env_dealloc c3 e3)" by (metis snd_conv)
        with True k c(1) c2 show ?thesis by (auto intro: alloc_dealloc_balanced dest: kept_ok)
      qed (use 3(2) k c(1) c2 in \<open>auto intro: alloc_kept_balanced\<close>)
      with ok b1 show ?thesis by (auto intro: balanced_trans balanced_ok)
    qed
  qed
  then show ?thesis by (simp add: balanced_def refs_step_def)
qed


theorem cipher_type_test_refs_witness:
  "let e = \<lparr>env_source = \<lparr>dev_random_fdes = -1, rand_s_tape = \<lambda>_. None, rand_s_pos = 0\<rparr>, env_rand_tape = \<lambda>_. 5,
        env_rand_pos = 0, env_cipher_mem = \<lambda>_. Some blank_cipher_mem, env_allocs = 0, env_cipher_refs = \<lambda>_. 2\<rparr>
   in \<exists>e'. cipher_type_test null_cipher [null_cipher_test_0] (replicate 128 0) (replicate 64 0) e = Some (err_status_fail, e') \<and>
      env_cipher_refs e' = (env_cipher_refs e)(null_cipher := 3) \<and>
      (env_cipher_refs e' = env_cipher_refs e \<or>
       err_status_fail \<noteq> err_status_ok \<and> env_cipher_refs e' = (env_cipher_refs e)(null_cipher := env_cipher_refs e null_cipher + 1))"
proof -
  let ?e = "\<lparr>env_source = \<lparr>dev_random_fdes = -1, rand_s_tape = \<lambda>_. None, rand_s_pos = 0\<rparr>, env_rand_tape = \<lambda>_. 5,
        env_rand_pos = 0, env_cipher_mem = \<lambda>_. Some blank_cipher_mem, env_allocs = 0, env_cipher_refs = \<lambda>_. 2\<rparr>"
  have dir: "cipher_kat_direction dir null_cipher_test_0 [] [] buffer \<lparr>cipher_state = null_cipher_state, cipher_key_len = 0\<rparr> e =
      Some (err_status_ok, \<lparr>cipher_state = null_cipher_state, cipher_key_len = 0\<rparr>, buffer, e)" for dir buffer and e :: cipher_env
    by (simp add: cipher_kat_direction_def cipher_init_def null_cipher_init_def null_cipher_test_0_def test_set_iv_def
        cipher_type_of_def cipher_set_iv_def null_cipher_set_iv_def cipher_encrypt_def cipher_decrypt_def null_cipher_encrypt_def Let_def)
  have rand: "rand_source_loop \<lparr>dev_random_fdes = 17, rand_s_tape = \<lambda>_. None, rand_s_pos = 0\<rparr> 5 =
      (err_status_fail, \<lparr>dev_random_fdes = 17, rand_s_tape = \<lambda>_. None, rand_s_pos = 1\<rparr>, [])"
    by (simp add: eval_nat_numeral)
  have n: "NUM_RAND_TESTS = Suc 127" by (simp add: NUM_RAND_TESTS_def)
  have trials: "cipher_rand_loop NUM_RAND_TESTS tc key buffer c e = do {
       (status, c, key, buffer, e) \<leftarrow> cipher_rand_test tc key buffer c e;
       if status \<noteq> err_status_ok then Some (status, c, e) else cipher_rand_loop 127 tc key buffer c e
     }" for tc key buffer c and e :: cipher_env
    unfolding n cipher_rand_loop.simps ..
  have run: "cipher_type_test null_cipher [null_cipher_test_0] (replicate 128 0) (replicate 64 0) ?e =
      Some (err_status_fail, \<lparr>env_source = \<lparr>dev_random_fdes = 17, rand_s_tape = \<lambda>_. None, rand_s_pos = 1\<rparr>, env_rand_tape = \<lambda>_. 5,
        env_rand_pos = 1, env_cipher_mem = \<lambda>_. Some blank_cipher_mem, env_allocs = 2, env_cipher_refs = (\<lambda>_. 2)(null_cipher := 3)\<rparr>)"
    using dir rand by (simp add: cipher_type_test_def cipher_kat_def env_alloc_def cipher_type_alloc_def null_cipher_alloc_def
        null_cipher_test_0_def env_dealloc_def cipher_dealloc_def null_cipher_dealloc_def trials
        cipher_rand_test_def env_rand_def env_random_def SELF_TEST_BUF_OCTETS_def rand_source_init_def RAND_SOURCE_READY_def)
  from run cipher_type_test_refs [OF run] show ?thesis by (simp add: Let_def)
qed


section \<open>The self-tests read past their keys\<close>

text \<open>
  The known answer tests of counter mode are undefined behaviour on their own arrays: with no
  memory behind the key of 46 octets the initialisation of the first case reads out of bounds, whatever
  the state of the library, once the cipher is allocated.
\<close>

theorem aes_icm_self_test_overread:
  assumes "env_cipher_mem e (env_allocs e) = Some m" and "length past < 2"
  shows "cipher_type_self_test past aes_icm buffer key e = None"
proof -
  obtain s s' where m: "m = (s, s')" by fastforce
  have len: "length (tc_key (aes_icm_test_case_1 past)) = 46 + length past"
    by (simp add: aes_icm_test_case_1_def)
  have "cipher_init \<lparr>cipher_state = aes_icm_state s, cipher_key_len = 46\<rparr> (tc_key (aes_icm_test_case_1 past)) d = None" for d
    using len assms(2) by (simp add: cipher_init_def aes_icm_context_init_def v128_copy_octet_string_def)
  then have "cipher_kat aes_icm (aes_icm_test_case_1 past) buffer e = None"
    using assms(1) m by (simp add: cipher_kat_def env_alloc_def cipher_type_alloc_def aes_icm_alloc_def
        aes_icm_alloc_ismacryp_def aes_icm_test_case_1_def cipher_kat_direction_def)
  then show ?thesis by (simp add: cipher_type_self_test_def cipher_test_data_def cipher_type_test_def)
qed

theorem aes_icm_self_test_overread_witness:
  "cipher_type_self_test [] aes_icm (replicate 128 0) (replicate 64 0)
     \<lparr>env_source = \<lparr>dev_random_fdes = -1, rand_s_tape = \<lambda>_. Some 7, rand_s_pos = 0\<rparr>, env_rand_tape = \<lambda>_. 5,
      env_rand_pos = 0, env_cipher_mem = \<lambda>_. Some blank_cipher_mem, env_allocs = 0, env_cipher_refs = \<lambda>_. 2\<rparr> = None"
  by (rule aes_icm_self_test_overread [where m = blank_cipher_mem]) simp_all

end
