(* ===== verification/Crypto_Kernel.thy ===== *)
theory Crypto_Kernel
  imports Auth Stat Cipher_Test
begin

text \<open>
  \<^verbatim>\<open>srtp/crypto/kernel/crypto_kernel.c\<close>: the registry of cipher and authentication types, the debug
  modules, and the start-up tests. The kernel is a state machine between insecure and secure; the
  theorems show what holds in every state it can reach, what a lookup finds after a load, and that an
  interrupted start-up cannot be repeated.
\<close>

section \<open>State\<close>

datatype crypto_kernel_state_t = crypto_kernel_state_insecure | crypto_kernel_state_secure

text \<open>
  The kernel's lists, head first, and the global state around it. \<open>debug_on\<close> is the switch of each debug
  module, by name. \<open>env_auth_mem\<close> and \<open>env_node_mem\<close> are the results of the allocations of
  authentication objects and list nodes; \<open>env_past\<close>, \<open>env_buffer\<close>, \<open>env_key\<close> and \<open>env_tag\<close> are the
  memory behind the keys of the test cases and the uninitialised arrays on the stack of the tests.
\<close>

record kernel_env = cipher_env +
  env_auth_mem :: "nat \<Rightarrow> hmac_ctx_t option"
  env_auth_refs :: "auth_type_t \<Rightarrow> int"
  env_node_mem :: "nat \<Rightarrow> bool"
  env_past :: octets
  env_buffer :: octets
  env_key :: octets
  env_tag :: octets
  env_ctr_prng :: ctr_prng_t
  kernel_state :: crypto_kernel_state_t
  cipher_type_list :: "(u32 \<times> cipher_type_t) list"
  auth_type_list :: "(u32 \<times> auth_type_t) list"
  debug_module_list :: "string list"
  debug_on :: "string \<Rightarrow> int"

definition MAX_RNG_TRIALS :: nat where
  "MAX_RNG_TRIALS = 25"

text \<open>\<^verbatim>\<open>crypto_kernel_status\<close> ends the process when a self-test fails.\<close>

datatype outcome = returns err_status_t | exits err_status_t

definition crypto_kernel_load_debug_module :: "string option \<Rightarrow> 'a kernel_env_scheme \<Rightarrow> err_status_t \<times> 'a kernel_env_scheme" where
  "crypto_kernel_load_debug_module new_dm e =
     (case new_dm of None \<Rightarrow> (err_status_bad_param, e)
      | Some name \<Rightarrow>
          if \<exists>m \<in> set (debug_module_list e). take 64 m = take 64 name then (err_status_bad_param, e)
          else if \<not> env_node_mem e (env_allocs e) then (err_status_alloc_fail, e\<lparr>env_allocs := env_allocs e + 1\<rparr>)
          else (err_status_ok, e\<lparr>env_allocs := env_allocs e + 1, debug_module_list := name # debug_module_list e\<rparr>))"

definition crypto_kernel_set_debug_module :: "string \<Rightarrow> int \<Rightarrow> 'a kernel_env_scheme \<Rightarrow> err_status_t \<times> 'a kernel_env_scheme" where
  "crypto_kernel_set_debug_module name on e =
     (case List.find (\<lambda>m. take 64 name = take 64 m) (debug_module_list e) of
        None \<Rightarrow> (err_status_fail, e)
      | Some m \<Rightarrow> (err_status_ok, e\<lparr>debug_on := (debug_on e)(m := on)\<rparr>))"

definition crypto_kernel_list_debug_modules :: "'a kernel_env_scheme \<Rightarrow> err_status_t" where
  "crypto_kernel_list_debug_modules e = err_status_ok"

text \<open>The debug modules the metaobjects name.\<close>

definition cipher_debug_module :: "cipher_type_t \<Rightarrow> string option" where
  "cipher_debug_module ct =
     (case ct of null_cipher \<Rightarrow> None | aes_icm \<Rightarrow> Some ''aes icm'' | aes_cbc \<Rightarrow> Some ''aes cbc'')"

definition auth_debug_module :: "auth_type_t \<Rightarrow> string option" where
  "auth_debug_module at = (case at of null_auth \<Rightarrow> None | hmac \<Rightarrow> Some ''hmac sha-1'')"

definition kernel_cipher_test :: "cipher_type_t \<Rightarrow> cipher_type_t \<Rightarrow> 'a kernel_env_scheme \<Rightarrow> (err_status_t \<times> 'a kernel_env_scheme) option" where
  "kernel_cipher_test ct data_of e =
     cipher_type_test ct (cipher_test_data (env_past e) data_of) (env_buffer e) (env_key e) e"

definition kernel_auth_test :: "auth_type_t \<Rightarrow> auth_type_t \<Rightarrow> 'a kernel_env_scheme \<Rightarrow> (err_status_t \<times> 'a kernel_env_scheme) option" where
  "kernel_auth_test at data_of e =
     map_option (map_prod id (\<lambda>refs. e\<lparr>env_auth_refs := refs, env_allocs := env_allocs e + length (auth_test_data data_of)\<rparr>))
       (auth_type_test at (\<lambda>n. env_auth_mem e (env_allocs e + n)) (env_tag e) (env_auth_refs e) (auth_test_data data_of))"

text \<open>
  The walk down the list stops at an entry with the id or, before that, refuses a type that is
  registered under another id.
\<close>

fun walk_types :: "u32 \<Rightarrow> 't \<Rightarrow> (u32 \<times> 't) list \<Rightarrow> 't option + unit" where
  "walk_types tid new [] = Inl None"
| "walk_types tid new ((i, t) # ts) =
     (if tid = i then Inl (Some t) else if new = t then Inr () else walk_types tid new ts)"

fun replace_type :: "u32 \<Rightarrow> 't \<Rightarrow> (u32 \<times> 't) list \<Rightarrow> (u32 \<times> 't) list" where
  "replace_type tid new [] = []"
| "replace_type tid new ((i, t) # ts) = (if tid = i then (tid, new) # ts else (i, t) # replace_type tid new ts)"

definition load_debug_if :: "string option \<Rightarrow> 'a kernel_env_scheme \<Rightarrow> 'a kernel_env_scheme" where
  "load_debug_if dm e = (if dm = None then e else snd (crypto_kernel_load_debug_module dm e))"

text \<open>
  The source has this function twice, for ciphers and for authentication functions; the arguments
  \<open>test\<close>, \<open>get\<close>, \<open>put\<close>, \<open>ident\<close> and \<open>dbg\<close> are what differs.
\<close>

definition do_load_type :: "('t \<Rightarrow> 't \<Rightarrow> 'a kernel_env_scheme \<Rightarrow> (err_status_t \<times> 'a kernel_env_scheme) option) \<Rightarrow>
    ('a kernel_env_scheme \<Rightarrow> (u32 \<times> 't) list) \<Rightarrow> ((u32 \<times> 't) list \<Rightarrow> 'a kernel_env_scheme \<Rightarrow> 'a kernel_env_scheme) \<Rightarrow>
    ('t \<Rightarrow> u32) \<Rightarrow> ('t \<Rightarrow> string option) \<Rightarrow> 't option \<Rightarrow> u32 \<Rightarrow> bool \<Rightarrow> 'a kernel_env_scheme \<Rightarrow>
    (err_status_t \<times> 'a kernel_env_scheme) option" where
  "do_load_type test get put ident dbg new_type tid replace e =
     (case new_type of None \<Rightarrow> Some (err_status_bad_param, e)
      | Some t \<Rightarrow>
          if ident t \<noteq> tid then Some (err_status_bad_param, e)
          else do {
            (status, e) \<leftarrow> test t t e;
            if status \<noteq> err_status_ok then Some (status, e)
            else case walk_types tid t (get e) of
              Inr _ \<Rightarrow> Some (err_status_bad_param, e)
            | Inl (Some old) \<Rightarrow>
                if \<not> replace then Some (err_status_bad_param, e)
                else do {
                  (status, e) \<leftarrow> test t old e;
                  if status \<noteq> err_status_ok then Some (status, e)
                  else Some (err_status_ok, load_debug_if (dbg t) (put (replace_type tid t (get e)) e))
                }
            | Inl None \<Rightarrow>
                if \<not> env_node_mem e (env_allocs e) then Some (err_status_alloc_fail, e\<lparr>env_allocs := env_allocs e + 1\<rparr>)
                else Some (err_status_ok, load_debug_if (dbg t)
                  (put ((tid, t) # get e) (e\<lparr>env_allocs := env_allocs e + 1\<rparr>)))
          })"

definition crypto_kernel_do_load_cipher_type :: "cipher_type_t option \<Rightarrow> u32 \<Rightarrow> bool \<Rightarrow> 'a kernel_env_scheme \<Rightarrow>
    (err_status_t \<times> 'a kernel_env_scheme) option" where
  "crypto_kernel_do_load_cipher_type =
     do_load_type kernel_cipher_test cipher_type_list (\<lambda>ts. cipher_type_list_update (\<lambda>_. ts)) cipher_type_id cipher_debug_module"

definition crypto_kernel_load_cipher_type :: "cipher_type_t option \<Rightarrow> u32 \<Rightarrow> 'a kernel_env_scheme \<Rightarrow>
    (err_status_t \<times> 'a kernel_env_scheme) option" where
  "crypto_kernel_load_cipher_type new_ct tid e = crypto_kernel_do_load_cipher_type new_ct tid False e"

definition crypto_kernel_replace_cipher_type :: "cipher_type_t option \<Rightarrow> u32 \<Rightarrow> 'a kernel_env_scheme \<Rightarrow>
    (err_status_t \<times> 'a kernel_env_scheme) option" where
  "crypto_kernel_replace_cipher_type new_ct tid e = crypto_kernel_do_load_cipher_type new_ct tid True e"

definition crypto_kernel_do_load_auth_type :: "auth_type_t option \<Rightarrow> u32 \<Rightarrow> bool \<Rightarrow> 'a kernel_env_scheme \<Rightarrow>
    (err_status_t \<times> 'a kernel_env_scheme) option" where
  "crypto_kernel_do_load_auth_type =
     do_load_type kernel_auth_test auth_type_list (\<lambda>ts. auth_type_list_update (\<lambda>_. ts)) auth_type_id auth_debug_module"

definition crypto_kernel_load_auth_type :: "auth_type_t option \<Rightarrow> u32 \<Rightarrow> 'a kernel_env_scheme \<Rightarrow>
    (err_status_t \<times> 'a kernel_env_scheme) option" where
  "crypto_kernel_load_auth_type new_at tid e = crypto_kernel_do_load_auth_type new_at tid False e"

definition crypto_kernel_replace_auth_type :: "auth_type_t option \<Rightarrow> u32 \<Rightarrow> 'a kernel_env_scheme \<Rightarrow>
    (err_status_t \<times> 'a kernel_env_scheme) option" where
  "crypto_kernel_replace_auth_type new_at tid e = crypto_kernel_do_load_auth_type new_at tid True e"

section \<open>Lookup and allocation\<close>

definition crypto_kernel_get_cipher_type :: "u32 \<Rightarrow> 'a kernel_env_scheme \<Rightarrow> cipher_type_t option" where
  "crypto_kernel_get_cipher_type tid e = map_of (cipher_type_list e) tid"

definition crypto_kernel_alloc_cipher :: "u32 \<Rightarrow> int \<Rightarrow> 'a kernel_env_scheme \<Rightarrow> err_status_t \<times> cipher_t option \<times> 'a kernel_env_scheme" where
  "crypto_kernel_alloc_cipher tid key_len e =
     (if kernel_state e \<noteq> crypto_kernel_state_secure then (err_status_init_fail, None, e)
      else case crypto_kernel_get_cipher_type tid e of
        None \<Rightarrow> (err_status_fail, None, e)
      | Some ct \<Rightarrow> env_alloc ct key_len e)"

definition crypto_kernel_get_auth_type :: "u32 \<Rightarrow> 'a kernel_env_scheme \<Rightarrow> auth_type_t option" where
  "crypto_kernel_get_auth_type tid e = map_of (auth_type_list e) tid"

definition env_auth_alloc :: "auth_type_t \<Rightarrow> int \<Rightarrow> int \<Rightarrow> 'a kernel_env_scheme \<Rightarrow> err_status_t \<times> auth_t option \<times> 'a kernel_env_scheme" where
  "env_auth_alloc at key_len tag_len e =
     (case auth_type_alloc at (env_auth_mem e (env_allocs e)) (env_auth_refs e) key_len tag_len of
        (status, a, refs) \<Rightarrow> (status, a, e\<lparr>env_allocs := env_allocs e + 1, env_auth_refs := refs\<rparr>))"

definition crypto_kernel_alloc_auth :: "u32 \<Rightarrow> int \<Rightarrow> int \<Rightarrow> 'a kernel_env_scheme \<Rightarrow> err_status_t \<times> auth_t option \<times> 'a kernel_env_scheme" where
  "crypto_kernel_alloc_auth tid key_len tag_len e =
     (if kernel_state e \<noteq> crypto_kernel_state_secure then (err_status_init_fail, None, e)
      else case crypto_kernel_get_auth_type tid e of
        None \<Rightarrow> (err_status_fail, None, e)
      | Some at \<Rightarrow> env_auth_alloc at key_len tag_len e)"

section \<open>Start-up, status, shutdown\<close>

text \<open>The random sources as functions on the state.\<close>

definition env_rand_source :: "'a kernel_env_scheme rand_source_func_t" where
  "env_rand_source e len = Some (case env_random len e of (status, out, e) \<Rightarrow> (status, e, out))"

definition env_prng_source :: "'a kernel_env_scheme rand_source_func_t" where
  "env_prng_source e len =
     map_option (\<lambda>(status, e, p, out). (status, e\<lparr>env_ctr_prng := p\<rparr>, out))
       (ctr_prng_get_octet_string env_rand_source e (env_ctr_prng e) (word_of_nat len))"

fun kernel_status_ciphers :: "(u32 \<times> cipher_type_t) list \<Rightarrow> 'a kernel_env_scheme \<Rightarrow> (outcome \<times> 'a kernel_env_scheme) option" where
  "kernel_status_ciphers [] e = Some (returns err_status_ok, e)"
| "kernel_status_ciphers ((_, ct) # cts) e = do {
     (status, e) \<leftarrow> kernel_cipher_test ct ct e;
     if status \<noteq> err_status_ok then Some (exits status, e) else kernel_status_ciphers cts e
   }"

fun kernel_status_auths :: "(u32 \<times> auth_type_t) list \<Rightarrow> 'a kernel_env_scheme \<Rightarrow> (outcome \<times> 'a kernel_env_scheme) option" where
  "kernel_status_auths [] e = Some (returns err_status_ok, e)"
| "kernel_status_auths ((_, at) # ats) e = do {
     (status, e) \<leftarrow> kernel_auth_test at at e;
     if status \<noteq> err_status_ok then Some (exits status, e) else kernel_status_auths ats e
   }"

definition crypto_kernel_status :: "'a kernel_env_scheme \<Rightarrow> (outcome \<times> 'a kernel_env_scheme) option" where
  "crypto_kernel_status e = do {
     (status, e) \<leftarrow> stat_test_rand_source_with_repetition env_rand_source MAX_RNG_TRIALS e;
     if status \<noteq> err_status_ok
     then Some (returns status, e\<lparr>kernel_state := crypto_kernel_state_insecure\<rparr>)
     else do {
       (r, e) \<leftarrow> kernel_status_ciphers (cipher_type_list e) e;
       if r \<noteq> returns err_status_ok then Some (r, e)
       else kernel_status_auths (auth_type_list e) e
     }
   }"

text \<open>A start-up is a sequence of steps that each may fail; the first failure ends it.\<close>

fun run_steps :: "('e \<Rightarrow> (err_status_t \<times> 'e) option) list \<Rightarrow> 'e \<Rightarrow> (err_status_t \<times> 'e) option" where
  "run_steps [] e = Some (err_status_ok, e)"
| "run_steps (f # fs) e = do {
     (status, e) \<leftarrow> f e;
     if status \<noteq> err_status_ok then Some (status, e) else run_steps fs e
   }"

definition err_reporting_init :: err_status_t where
  "err_reporting_init = err_status_ok"

definition crypto_kernel_init_steps :: "('a kernel_env_scheme \<Rightarrow> (err_status_t \<times> 'a kernel_env_scheme) option) list" where
  "crypto_kernel_init_steps =
     [\<lambda>e. Some (err_reporting_init, e),
      \<lambda>e. Some (crypto_kernel_load_debug_module (Some ''crypto kernel'') e),
      \<lambda>e. Some (crypto_kernel_load_debug_module (Some ''auth func'') e),
      \<lambda>e. Some (crypto_kernel_load_debug_module (Some ''cipher'') e),
      \<lambda>e. Some (crypto_kernel_load_debug_module (Some ''stat test'') e),
      \<lambda>e. Some (crypto_kernel_load_debug_module (Some ''alloc'') e),
      \<lambda>e. Some (map_prod id (\<lambda>r. e\<lparr>env_source := r\<rparr>) (rand_source_init (env_source e))),
      stat_test_rand_source_with_repetition env_rand_source MAX_RNG_TRIALS,
      \<lambda>e. map_option (\<lambda>(status, e, p). (status, e\<lparr>env_ctr_prng := p\<rparr>)) (ctr_prng_init env_rand_source e (env_ctr_prng e)),
      stat_test_rand_source_with_repetition env_prng_source MAX_RNG_TRIALS,
      crypto_kernel_load_cipher_type (Some null_cipher) 0,
      crypto_kernel_load_cipher_type (Some aes_icm) 1,
      crypto_kernel_load_cipher_type (Some aes_cbc) 3,
      crypto_kernel_load_auth_type (Some null_auth) 0,
      crypto_kernel_load_auth_type (Some hmac) 3]"

definition crypto_kernel_init :: "'a kernel_env_scheme \<Rightarrow> (outcome \<times> 'a kernel_env_scheme) option" where
  "crypto_kernel_init e =
     (if kernel_state e = crypto_kernel_state_secure then crypto_kernel_status e
      else do {
        (status, e) \<leftarrow> run_steps crypto_kernel_init_steps e;
        if status \<noteq> err_status_ok then Some (returns status, e)
        else Some (returns err_status_ok, e\<lparr>kernel_state := crypto_kernel_state_secure\<rparr>)
      })"

definition crypto_kernel_shutdown :: "'a kernel_env_scheme \<Rightarrow> err_status_t \<times> 'a kernel_env_scheme" where
  "crypto_kernel_shutdown e =
     (let e = e\<lparr>cipher_type_list := [], auth_type_list := [], debug_module_list := []\<rparr>
      in case rand_source_deinit (env_source e) of (status, r) \<Rightarrow>
        if status \<noteq> err_status_ok then (status, e\<lparr>env_source := r\<rparr>)
        else (err_status_ok, e\<lparr>env_source := r, kernel_state := crypto_kernel_state_insecure\<rparr>))"

definition crypto_get_random :: "u32 \<Rightarrow> 'a kernel_env_scheme \<Rightarrow> (err_status_t \<times> 'a kernel_env_scheme \<times> octets) option" where
  "crypto_get_random len e =
     (if kernel_state e = crypto_kernel_state_secure
      then map_option (\<lambda>(status, e, p, out). (status, e\<lparr>env_ctr_prng := p\<rparr>, out))
        (ctr_prng_get_octet_string env_rand_source e (env_ctr_prng e) len)
      else Some (err_status_fail, e, []))"


section \<open>What the tests leave alone\<close>

definition kframe :: "'a kernel_env_scheme \<Rightarrow> 'a kernel_env_scheme \<Rightarrow> bool" where
  "kframe e e' \<longleftrightarrow> kernel_state e' = kernel_state e \<and> cipher_type_list e' = cipher_type_list e \<and>
     auth_type_list e' = auth_type_list e \<and>
     (\<forall>m. m \<in> set (debug_module_list e) \<longrightarrow> m \<in> set (debug_module_list e')) \<and>
     (0 \<le> dev_random_fdes (env_source e) \<longrightarrow> 0 \<le> dev_random_fdes (env_source e'))"

lemma kframe_refl [simp, intro]: "kframe e e"
  by (simp add: kframe_def)

lemma kframe_trans: "kframe e e' \<Longrightarrow> kframe e' e'' \<Longrightarrow> kframe e e''"
  by (simp add: kframe_def)

lemma rand_source_loop_fdes: "dev_random_fdes (fst (snd (rand_source_loop r n))) = dev_random_fdes r"
proof (induction n arbitrary: r)
  case (Suc n)
  then show ?case by (simp add: Let_def split_beta split: option.split)
qed simp

lemma kframe_alloc: "env_alloc ct n e = (st, c, e') \<Longrightarrow> kframe e e'"
  by (auto simp: env_alloc_def kframe_def split: prod.splits)

lemma kframe_dealloc: "kframe e (snd (env_dealloc c e))"
  by (simp add: env_dealloc_def kframe_def)

lemma kframe_dealloc_eq: "env_dealloc c e = (st, e') \<Longrightarrow> kframe e e'"
  using kframe_dealloc [of e c] by simp

lemma kframe_random: "env_random n e = (st, out, e') \<Longrightarrow> kframe e e'"
  using rand_source_loop_fdes [of "env_source e" n] by (auto simp: env_random_def kframe_def split_beta)

lemma kframe_rand: "env_rand e = (r, e') \<Longrightarrow> kframe e e'"
  by (auto simp: env_rand_def kframe_def)

lemma opt_all_True: "opt_all (\<lambda>_. True) m"
  by (simp add: opt_all_def)

lemma opt_all_True2: "opt_all (\<lambda>(a, b). True) m" "opt_all (\<lambda>(a, b, c, d). True) m'"
  by (auto simp: opt_all_def)

lemmas any_binds = opt_all_bind2 [OF opt_all_True2(1)] opt_all_bind4 [OF opt_all_True2(2)]

lemma kframe_kat_direction:
  "opt_all (\<lambda>(st, c', buffer', e'). kframe e e') (cipher_kat_direction dir tc input expected buffer c e)"
  unfolding cipher_kat_direction_def
  by (intro opt_rules any_binds) (auto intro: kframe_dealloc)

lemma kframe_rand_test:
  "opt_all (\<lambda>(st, c', key', buffer', e'). kframe e e') (cipher_rand_test tc key buffer c e)"
proof -
  obtain r e1 where 1: "env_rand e = (r, e1)" by fastforce
  obtain s2 o2 e2 where 2: "env_random (r mod (SELF_TEST_BUF_OCTETS - 64)) e1 = (s2, o2, e2)" by (metis prod_cases3)
  obtain s3 o3 e3 where 3: "env_random (nat (tc_key_length_octets tc)) e2 = (s3, o3, e3)" by (metis prod_cases3)
  obtain s4 o4 e4 where 4: "env_random MAX_KEY_LEN e3 = (s4, o4, e4)" by (metis prod_cases3)
  have fr: "kframe e e2" "kframe e e3" "kframe e e4"
    using kframe_rand [OF 1] kframe_random [OF 2] kframe_random [OF 3] kframe_random [OF 4] by (blast intro: kframe_trans)+
  show ?thesis
    unfolding cipher_rand_test_def 1 2 3 4 Let_def prod.case
    by (intro opt_rules any_binds) (auto intro: fr kframe_trans [OF _ kframe_dealloc])
qed

lemma kframe_kat: "opt_all (\<lambda>(st, b, e'). kframe e e') (cipher_kat ct tc buffer e)"
proof -
  obtain st oc e1 where al: "env_alloc ct (tc_key_length_octets tc) e = (st, oc, e1)" by (metis prod_cases3)
  note fr = kframe_alloc [OF al]
  show ?thesis
  proof (cases oc)
    case (Some c)
    show ?thesis
      unfolding cipher_kat_def al Some prod.case option.case
      by (intro opt_rules opt_all_bind4 [OF kframe_kat_direction])
        (use fr in \<open>auto intro: kframe_trans dest: kframe_dealloc [THEN kframe_trans [rotated]] simp: prod_eq_iff\<close>)
  qed (use fr al in \<open>simp add: cipher_kat_def\<close>)
qed


lemma kframe_step3: "kframe e e1 \<Longrightarrow> opt_all (\<lambda>(st, b, e'). kframe e1 e') m \<Longrightarrow> opt_all (\<lambda>(st, b, e'). kframe e e') m"
  by (auto simp: opt_all_def intro: kframe_trans)

lemma kframe_step2: "kframe e e1 \<Longrightarrow> opt_all (\<lambda>(st, e'). kframe e1 e') m \<Longrightarrow> opt_all (\<lambda>(st, e'). kframe e e') m"
  by (auto simp: opt_all_def intro: kframe_trans)

lemma kframe_step_mid: "kframe e e1 \<Longrightarrow> opt_all (\<lambda>(st, e', s). kframe e1 e') m \<Longrightarrow> opt_all (\<lambda>(st, e', s). kframe e e') m"
  by (auto simp: opt_all_def intro: kframe_trans)

lemma kframe_kat_loop: "opt_all (\<lambda>(st, b, e'). kframe e e') (cipher_kat_loop ct tcs buffer e)"
proof (induction tcs arbitrary: buffer e)
  case (Cons tc tcs)
  show ?case
    unfolding cipher_kat_loop.simps
    by (intro opt_rules opt_all_bind3 [OF kframe_kat]) (auto intro: kframe_step3 [OF _ Cons.IH])
qed simp

lemma kframe_rand_loop: "opt_all (\<lambda>(st, c', e'). kframe e e') (cipher_rand_loop n tc key buffer c e)"
proof (induction n arbitrary: key buffer c e)
  case (Suc n)
  show ?case
    unfolding cipher_rand_loop.simps
    by (intro opt_rules opt_all_bind5 [OF kframe_rand_test]) (auto intro: kframe_step3 [OF _ Suc.IH])
qed simp

lemma kframe_source_init: "kframe e (e\<lparr>env_source := snd (rand_source_init (env_source e))\<rparr>)"
  by (simp add: kframe_def rand_source_init_def)

lemma kframe_cipher_type_test: "opt_all (\<lambda>(st, e'). kframe e e') (cipher_type_test ct test_data buffer key e)"
proof (cases test_data)
  case (Cons tc tcs)
  show ?thesis
    unfolding cipher_type_test_def Cons list.case
    by (intro opt_rules opt_all_case_option opt_all_bind3 [OF kframe_kat_loop] opt_all_bind3 [OF kframe_rand_loop])
      (auto dest!: kframe_alloc kframe_dealloc_eq kframe_trans [OF kframe_source_init] intro: kframe_trans)
qed (simp add: cipher_type_test_def)

lemma kframe_kernel_cipher_test: "opt_all (\<lambda>(st, e'). kframe e e') (kernel_cipher_test ct data_of e)"
  unfolding kernel_cipher_test_def by (rule kframe_cipher_type_test)

lemma kframe_kernel_auth_test: "opt_all (\<lambda>(st, e'). kframe e e') (kernel_auth_test at data_of e)"
  by (auto simp: kernel_auth_test_def opt_all_def kframe_def)

text \<open>A random source that only draws random octets.\<close>

definition framed_source :: "'a kernel_env_scheme rand_source_func_t \<Rightarrow> bool" where
  "framed_source rs \<longleftrightarrow> (\<forall>e n. opt_all (\<lambda>(st, e', out). kframe e e') (rs e n))"

lemma framed_rand_source: "framed_source env_rand_source"
  using kframe_random by (fastforce simp: framed_source_def env_rand_source_def split: prod.splits)

lemma kframe_ctr_prng_init:
  "opt_all (\<lambda>(st, e', p'). kframe e e') (ctr_prng_init env_rand_source e p)"
proof -
  have src: "opt_all (\<lambda>(st, e', out). kframe e e') (env_rand_source e 32)"
    by (rule framed_rand_source [unfolded framed_source_def, rule_format])
  show ?thesis
    unfolding ctr_prng_init_def
    by (intro opt_rules opt_all_bind3 [OF src] any_binds) simp_all
qed

lemma kframe_ctr_prng_get:
  "opt_all (\<lambda>(st, e', p', out). kframe e e') (ctr_prng_get_octet_string env_rand_source e p len)"
proof -
  have init: "opt_all (\<lambda>(st, e', p'). kframe e e') (if b then ctr_prng_init env_rand_source e p else Some (err_status_ok, e, p))" for b
    by (simp add: kframe_ctr_prng_init)
  show ?thesis
    unfolding ctr_prng_get_octet_string_def
    by (intro opt_rules opt_all_bind3 [OF init]) (auto split: prod.splits)
qed

lemma framed_prng_source: "framed_source env_prng_source"
proof -
  have "opt_all (\<lambda>(st, e', out). kframe e e') (env_prng_source e n)" for e :: "'a kernel_env_scheme" and n
    using kframe_ctr_prng_get [of e "env_ctr_prng e" "word_of_nat n"]
    by (auto simp: env_prng_source_def opt_all_def kframe_def)
  then show ?thesis by (simp add: framed_source_def)
qed

lemma kframe_stat_source:
  assumes "framed_source rs"
  shows "opt_all (\<lambda>(st, e'). kframe e e') (stat_test_rand_source_with_repetition rs n e)"
proof -
  have src: "opt_all (\<lambda>(st, e', out). kframe e e') (rs e k)" for e k using assms by (simp add: framed_source_def)
  have loop: "opt_all (\<lambda>(st, e', s'). kframe e e') (stat_source_loop rs k e s)" for k e s
  proof (induction k arbitrary: e s)
    case (Suc k)
    show ?case
      unfolding stat_source_loop.simps
      by (intro opt_rules opt_all_bind3 [OF src] opt_all_case_option) (auto intro: kframe_step_mid [OF _ Suc.IH])
  qed simp
  have once: "opt_all (\<lambda>(st, e'). kframe e e') (stat_test_rand_source rs e)" for e
    unfolding stat_test_rand_source_def by (intro opt_rules opt_all_bind3 [OF loop]) auto
  have "opt_all (\<lambda>(st, e'). kframe e e') (stat_repetition_loop rs n err e)" for err
  proof (induction n arbitrary: err e)
    case (Suc n)
    show ?case
      unfolding stat_repetition_loop.simps
      by (intro opt_rules opt_all_bind2 [OF once]) (auto intro: kframe_step2 [OF _ Suc.IH])
  qed simp
  then show ?thesis unfolding stat_test_rand_source_with_repetition_def .
qed


section \<open>The invariant\<close>

definition types_wf :: "('t \<Rightarrow> u32) \<Rightarrow> (u32 \<times> 't) list \<Rightarrow> bool" where
  "types_wf tid ts \<longleftrightarrow> distinct (map fst ts) \<and> (\<forall>(i, t) \<in> set ts. i = tid t)"

definition lists_wf :: "'a kernel_env_scheme \<Rightarrow> bool" where
  "lists_wf e \<longleftrightarrow> types_wf cipher_type_id (cipher_type_list e) \<and> types_wf auth_type_id (auth_type_list e)"

definition kgrow :: "'a kernel_env_scheme \<Rightarrow> 'a kernel_env_scheme \<Rightarrow> bool" where
  "kgrow e e' \<longleftrightarrow> kernel_state e' = kernel_state e \<and> (lists_wf e \<longrightarrow> lists_wf e') \<and>
     fst ` set (cipher_type_list e) \<subseteq> fst ` set (cipher_type_list e') \<and>
     fst ` set (auth_type_list e) \<subseteq> fst ` set (auth_type_list e') \<and>
     (\<forall>m. m \<in> set (debug_module_list e) \<longrightarrow> m \<in> set (debug_module_list e')) \<and>
     (0 \<le> dev_random_fdes (env_source e) \<longrightarrow> 0 \<le> dev_random_fdes (env_source e'))"

definition kernel_wf :: "'a kernel_env_scheme \<Rightarrow> bool" where
  "kernel_wf e \<longleftrightarrow> lists_wf e \<and> (kernel_state e = crypto_kernel_state_secure \<longrightarrow>
     0 \<le> dev_random_fdes (env_source e) \<and> {0, 1, 3} \<subseteq> fst ` set (cipher_type_list e) \<and>
     {0, 3} \<subseteq> fst ` set (auth_type_list e))"

lemma kframe_kgrow: "kframe e e' \<Longrightarrow> kgrow e e'"
  by (auto simp: kframe_def kgrow_def lists_wf_def)

lemma kgrow_refl [simp, intro]: "kgrow e e"
  by (simp add: kgrow_def)

lemma kgrow_trans:
  assumes a: "kgrow e e'" and b: "kgrow e' e''"
  shows "kgrow e e''"
proof -
  have "fst ` set (cipher_type_list e) \<subseteq> fst ` set (cipher_type_list e')"
    "fst ` set (cipher_type_list e') \<subseteq> fst ` set (cipher_type_list e'')"
    "fst ` set (auth_type_list e) \<subseteq> fst ` set (auth_type_list e')"
    "fst ` set (auth_type_list e') \<subseteq> fst ` set (auth_type_list e'')"
    using a b by (simp_all add: kgrow_def)
  then have "fst ` set (cipher_type_list e) \<subseteq> fst ` set (cipher_type_list e'')"
    "fst ` set (auth_type_list e) \<subseteq> fst ` set (auth_type_list e'')" by (blast intro: subset_trans)+
  with a b show ?thesis by (simp add: kgrow_def)
qed

lemma kgrow_wf: "kgrow e e' \<Longrightarrow> kernel_wf e \<Longrightarrow> kernel_wf e'"
  by (auto simp: kgrow_def kernel_wf_def)

lemma kframe_load_debug: "kframe e (snd (crypto_kernel_load_debug_module dm e))"
  by (auto simp: crypto_kernel_load_debug_module_def kframe_def split: option.split)

lemma kframe_load_debug_if: "kframe e (load_debug_if dm e)"
  by (simp add: load_debug_if_def kframe_load_debug)

lemma walk_types_new: "walk_types tid new ts = Inl None \<Longrightarrow> tid \<notin> fst ` set ts"
  by (induction ts rule: walk_types.induct [of _ tid new]) (auto split: if_splits)

lemma walk_types_found: "walk_types tid new ts = Inl (Some old) \<Longrightarrow> tid \<in> fst ` set ts"
  by (induction ts rule: walk_types.induct [of _ tid new]) (auto split: if_splits)

lemma replace_type_ids: "map fst (replace_type tid new ts) = map fst ts"
  by (induction ts rule: replace_type.induct [of _ tid new]) auto

lemma replace_type_set: "(i, t) \<in> set (replace_type tid new ts) \<Longrightarrow> (i, t) \<in> set ts \<or> i = tid \<and> t = new"
  by (induction ts rule: replace_type.induct [of _ tid new]) (auto split: if_splits)

lemma types_wf_Cons: "types_wf f ts \<Longrightarrow> f t \<notin> fst ` set ts \<Longrightarrow> types_wf f ((f t, t) # ts)"
  by (auto simp: types_wf_def)

lemma types_wf_replace: "types_wf f ts \<Longrightarrow> types_wf f (replace_type (f t) t ts)"
  using replace_type_ids [of "f t" t ts] by (auto simp: types_wf_def dest: replace_type_set)

lemma set_replace_ids: "fst ` set (replace_type tid new ts) = fst ` set ts"
  using replace_type_ids [of tid new ts] by (metis set_map)

text \<open>
  What the registry code relies on for each kind of type: the test keeps the kernel's lists, and the
  list of the kind can be read back after it was stored.
\<close>

locale type_registry =
  fixes test :: "'t \<Rightarrow> 't \<Rightarrow> 'a kernel_env_scheme \<Rightarrow> (err_status_t \<times> 'a kernel_env_scheme) option"
    and get :: "'a kernel_env_scheme \<Rightarrow> (u32 \<times> 't) list"
    and put :: "(u32 \<times> 't) list \<Rightarrow> 'a kernel_env_scheme \<Rightarrow> 'a kernel_env_scheme"
    and ident :: "'t \<Rightarrow> u32"
    and dbg :: "'t \<Rightarrow> string option"
  assumes test_frame: "opt_all (\<lambda>(st, e'). kframe e e') (test t old e)"
    and get_put: "get (put ts e) = ts"
    and get_frame: "kframe e e' \<Longrightarrow> get e' = get e"
    and put_grow: "(types_wf ident (get e) \<Longrightarrow> types_wf ident ts) \<Longrightarrow> fst ` set (get e) \<subseteq> fst ` set ts \<Longrightarrow> kgrow e (put ts e)"
begin

definition loaded :: "u32 \<Rightarrow> 'a kernel_env_scheme \<Rightarrow> err_status_t \<Rightarrow> 'a kernel_env_scheme \<Rightarrow> bool" where
  "loaded tid e st e' \<longleftrightarrow> kgrow e e' \<and> (st = err_status_ok \<longrightarrow> tid \<in> fst ` set (get e'))"

lemma loaded_debug:
  assumes "kgrow e e1" and "tid \<in> fst ` set (get e1)"
  shows "loaded tid e st (load_debug_if dm e1)"
proof -
  have fr: "kframe e1 (load_debug_if dm e1)" by (rule kframe_load_debug_if)
  show ?thesis using assms kgrow_trans [OF assms(1) kframe_kgrow [OF fr]] get_frame [OF fr] by (simp add: loaded_def)
qed

lemma loaded_new:
  assumes fr: "kframe e e1" and walk: "walk_types (ident t) t (get e1) = Inl None"
  shows "loaded (ident t) e st (load_debug_if dm (put ((ident t, t) # get e1) (e1\<lparr>env_allocs := n\<rparr>)))"
proof (rule loaded_debug)
  have fr1: "kframe e1 (e1\<lparr>env_allocs := n\<rparr>)" by (simp add: kframe_def)
  have "kgrow (e1\<lparr>env_allocs := n\<rparr>) (put ((ident t, t) # get e1) (e1\<lparr>env_allocs := n\<rparr>))"
    by (rule put_grow) (use walk_types_new [OF walk] in \<open>auto simp: get_frame [OF fr1] intro: types_wf_Cons\<close>)
  then show "kgrow e (put ((ident t, t) # get e1) (e1\<lparr>env_allocs := n\<rparr>))"
    using kframe_kgrow [OF kframe_trans [OF fr fr1]] by (rule kgrow_trans [rotated])
qed (simp add: get_put)

lemma loaded_replace:
  assumes fr: "kframe e e1" and id: "ident t \<in> fst ` set (get e1)"
  shows "loaded (ident t) e st (load_debug_if dm (put (replace_type (ident t) t (get e1)) e1))"
proof (rule loaded_debug)
  have "kgrow e1 (put (replace_type (ident t) t (get e1)) e1)"
    by (rule put_grow) (simp_all add: types_wf_replace set_replace_ids)
  then show "kgrow e (put (replace_type (ident t) t (get e1)) e1)"
    using kframe_kgrow [OF fr] by (rule kgrow_trans [rotated])
qed (simp add: get_put set_replace_ids id)

lemma loaded_fail: "kframe e e1 \<Longrightarrow> st \<noteq> err_status_ok \<Longrightarrow> loaded tid e st e1"
  by (simp add: loaded_def kframe_kgrow)

lemma do_load_grow:
  "opt_all (\<lambda>(st, e'). loaded tid e st e') (do_load_type test get put ident dbg new_type tid replace e)"
proof (cases new_type)
  case None
  then show ?thesis by (simp add: do_load_type_def loaded_fail)
next
  case (Some t)
  have alloc: "kframe e1 (e1\<lparr>env_allocs := n\<rparr>)" for e1 :: "'a kernel_env_scheme" and n by (simp add: kframe_def)
  have found: "ident t \<in> fst ` set (get e2)" if "walk_types (ident t) t (get e1) = Inl (Some old)" "kframe e1 e2" for e1 e2 old
    using walk_types_found [OF that(1)] get_frame [OF that(2)] by simp
  show ?thesis
  proof (cases "ident t = tid")
    case True
    then show ?thesis
      unfolding do_load_type_def Some option.case True [symmetric] sum.case_eq_if option.case_eq_if
      by (intro opt_rules opt_all_bind2 [OF test_frame])
        (auto split: sum.split option.split intro!: loaded_fail loaded_new loaded_replace
          intro: kframe_trans kframe_trans [OF _ alloc] found simp: isl_def)
  qed (simp add: do_load_type_def Some loaded_fail)
qed

end

interpretation cipher_registry: type_registry kernel_cipher_test cipher_type_list "\<lambda>ts. cipher_type_list_update (\<lambda>_. ts)"
  cipher_type_id cipher_debug_module
  by (unfold_locales, rule kframe_kernel_cipher_test) (auto simp: kframe_def kgrow_def lists_wf_def)

interpretation auth_registry: type_registry kernel_auth_test auth_type_list "\<lambda>ts. auth_type_list_update (\<lambda>_. ts)"
  auth_type_id auth_debug_module
  by (unfold_locales, rule kframe_kernel_auth_test) (auto simp: kframe_def kgrow_def lists_wf_def)


lemma do_load_cipher:
  "opt_all (\<lambda>(st, e'). kgrow e e' \<and> (st = err_status_ok \<longrightarrow> tid \<in> fst ` set (cipher_type_list e')))
     (crypto_kernel_do_load_cipher_type new_ct tid replace e)"
  using cipher_registry.do_load_grow [of tid e new_ct replace]
  by (simp add: crypto_kernel_do_load_cipher_type_def cipher_registry.loaded_def)

lemma do_load_auth:
  "opt_all (\<lambda>(st, e'). kgrow e e' \<and> (st = err_status_ok \<longrightarrow> tid \<in> fst ` set (auth_type_list e')))
     (crypto_kernel_do_load_auth_type new_at tid replace e)"
  using auth_registry.do_load_grow [of tid e new_at replace]
  by (simp add: crypto_kernel_do_load_auth_type_def auth_registry.loaded_def)

lemma run_steps_grow:
  assumes "\<And>f e. f \<in> set fs \<Longrightarrow> opt_all (\<lambda>(st, e'). kgrow e e') (f e)"
  shows "opt_all (\<lambda>(st, e'). kgrow e e') (run_steps fs e)"
  using assms
proof (induction fs arbitrary: e)
  case (Cons f fs)
  have f: "opt_all (\<lambda>(st, e'). kgrow e e') (f e)" by (rule Cons.prems) simp
  have fs: "opt_all (\<lambda>(st, e'). kgrow e1 e') (run_steps fs e1)" for e1
    by (rule Cons.IH) (rule Cons.prems, simp)
  show ?case
    unfolding run_steps.simps
  proof (intro opt_rules opt_all_bind2 [OF f])
    fix e1 assume "kgrow e e1"
    then show "opt_all (\<lambda>(st, e'). kgrow e e') (run_steps fs e1)"
      using fs [of e1] by (auto simp: opt_all_def intro: kgrow_trans)
  qed simp
qed simp

text \<open>A sequence of steps that succeeded contains the successful run of each of them.\<close>

lemma run_steps_ok:
  assumes "\<And>f e. f \<in> set fs \<Longrightarrow> opt_all (\<lambda>(st, e'). kgrow e e') (f e)"
    and "run_steps fs e = Some (err_status_ok, e')" and "f \<in> set fs"
  shows "\<exists>e1 e2. f e1 = Some (err_status_ok, e2) \<and> kgrow e2 e'"
  using assms
proof (induction fs arbitrary: e)
  case (Cons g fs)
  then obtain e1 where g: "g e = Some (err_status_ok, e1)" "run_steps fs e1 = Some (err_status_ok, e')"
    by (auto simp: bind_eq_Some_conv split: if_splits)
  have fs: "\<And>f e. f \<in> set fs \<Longrightarrow> opt_all (\<lambda>(st, e'). kgrow e e') (f e)" using Cons.prems(1) by simp
  show ?case
  proof (cases "f \<in> set fs")
    case True
    with g(2) fs show ?thesis by (intro Cons.IH) blast+
  next
    case False
    have "opt_all (\<lambda>(st, e'). kgrow e1 e') (run_steps fs e1)" by (rule run_steps_grow) (rule fs)
    from opt_allD [OF this g(2)] False show ?thesis using Cons.prems(3) g(1) by auto
  qed
qed simp

lemma init_steps_grow: "f \<in> set crypto_kernel_init_steps \<Longrightarrow> opt_all (\<lambda>(st, e'). kgrow e e') (f e)"
proof -
  have dbg: "opt_all (\<lambda>(st, e'). kgrow e e') (Some (crypto_kernel_load_debug_module dm e))" for dm
    using kframe_kgrow [OF kframe_load_debug [of e dm]] by (simp add: split_beta)
  have src: "opt_all (\<lambda>(st, e'). kgrow e e') (Some (map_prod id (\<lambda>r. e\<lparr>env_source := r\<rparr>) (rand_source_init (env_source e))))"
    using kframe_kgrow [OF kframe_source_init [of e]] by (simp add: split_beta)
  have prng: "opt_all (\<lambda>(st, e'). kgrow e e')
      (map_option (\<lambda>(status, e, p). (status, e\<lparr>env_ctr_prng := p\<rparr>)) (ctr_prng_init env_rand_source e (env_ctr_prng e)))"
    using kframe_ctr_prng_init [of e "env_ctr_prng e"] by (auto simp: opt_all_def kframe_def kgrow_def lists_wf_def)
  have stat: "opt_all (\<lambda>(st, e'). kgrow e e') (stat_test_rand_source_with_repetition rs n e)" if "framed_source rs" for rs n
    using kframe_stat_source [OF that, of e n] by (auto simp: opt_all_def intro: kframe_kgrow)
  have load: "opt_all (\<lambda>(st, e'). kgrow e e') (crypto_kernel_do_load_cipher_type ct tid r e)"
    "opt_all (\<lambda>(st, e'). kgrow e e') (crypto_kernel_do_load_auth_type at tid r e)" for ct at tid r
    by (rule opt_all_mono [OF do_load_cipher], force) (rule opt_all_mono [OF do_load_auth], force)
  assume "f \<in> set crypto_kernel_init_steps"
  then show ?thesis
    using dbg src prng stat [OF framed_rand_source] stat [OF framed_prng_source] load
    by (auto simp: crypto_kernel_init_steps_def crypto_kernel_load_cipher_type_def crypto_kernel_load_auth_type_def)
qed

lemma status_ciphers_frame: "opt_all (\<lambda>(st, e'). kframe e e') (kernel_status_ciphers cts e)"
proof (induction cts arbitrary: e)
  case (Cons c cts)
  obtain i ct where c: "c = (i, ct)" by fastforce
  show ?case
    unfolding c kernel_status_ciphers.simps
    by (intro opt_rules opt_all_bind2 [OF kframe_kernel_cipher_test]) (auto intro: kframe_step2 [OF _ Cons.IH])
qed simp

lemma status_auths_frame: "opt_all (\<lambda>(st, e'). kframe e e') (kernel_status_auths ats e)"
proof (induction ats arbitrary: e)
  case (Cons a ats)
  obtain i at where a: "a = (i, at)" by fastforce
  show ?case
    unfolding a kernel_status_auths.simps
    by (intro opt_rules opt_all_bind2 [OF kframe_kernel_auth_test]) (auto intro: kframe_step2 [OF _ Cons.IH])
qed simp

lemma status_wf: "opt_all (\<lambda>(st, e'). kernel_wf e \<longrightarrow> kernel_wf e') (crypto_kernel_status e)"
proof -
  have insecure: "kernel_wf (e'\<lparr>kernel_state := crypto_kernel_state_insecure\<rparr>)" if "kframe e e'" "kernel_wf e" for e'
    using kgrow_wf [OF kframe_kgrow [OF that(1)] that(2)] by (simp add: kernel_wf_def lists_wf_def)
  show ?thesis
    unfolding crypto_kernel_status_def
  proof (intro opt_rules opt_all_bind2 [OF kframe_stat_source [OF framed_rand_source]] opt_all_bind2 [OF status_ciphers_frame])
    fix e1 e2 assume fr: "kframe e e1" "kframe e1 e2"
    show "opt_all (\<lambda>(st, e'). kernel_wf e \<longrightarrow> kernel_wf e') (kernel_status_auths (auth_type_list e2) e2)"
      using status_auths_frame [of e2 "auth_type_list e2"] kframe_trans [OF fr]
      by (auto simp: opt_all_def intro: kgrow_wf [OF kframe_kgrow [OF kframe_trans]])
  qed (auto intro: insecure kgrow_wf kframe_kgrow kframe_trans)
qed


lemma init_wf: "opt_all (\<lambda>(st, e'). kernel_wf e \<longrightarrow> kernel_wf e') (crypto_kernel_init e)"
proof (cases "kernel_state e = crypto_kernel_state_secure")
  case True
  then show ?thesis using status_wf [of e] by (simp add: crypto_kernel_init_def)
next
  case False
  have grow: "opt_all (\<lambda>(st, e'). kgrow e e') (run_steps crypto_kernel_init_steps e)"
    by (rule run_steps_grow) (rule init_steps_grow)
  have "kernel_wf (e'\<lparr>kernel_state := crypto_kernel_state_secure\<rparr>)"
    if run: "run_steps crypto_kernel_init_steps e = Some (err_status_ok, e')" and wf: "kernel_wf e" for e'
  proof -
    have ran: "\<exists>e1 e2. f e1 = Some (err_status_ok, e2) \<and> kgrow e2 e'" if "f \<in> set crypto_kernel_init_steps" for f
      by (rule run_steps_ok [OF _ run that]) (rule init_steps_grow)
    have c: "tid \<in> fst ` set (cipher_type_list e')"
      if load: "(crypto_kernel_load_cipher_type (Some ct) tid :: 'a kernel_env_scheme \<Rightarrow> _) \<in> set crypto_kernel_init_steps" for ct tid
    proof -
      obtain e1 e2 where "crypto_kernel_load_cipher_type (Some ct) tid e1 = Some (err_status_ok, e2)" "kgrow e2 e'"
        using ran [OF load] by blast
      then show ?thesis using opt_allD [OF do_load_cipher, of "Some ct" tid False e1]
        by (auto simp: crypto_kernel_load_cipher_type_def kgrow_def)
    qed
    have a: "tid \<in> fst ` set (auth_type_list e')"
      if load: "(crypto_kernel_load_auth_type (Some at) tid :: 'a kernel_env_scheme \<Rightarrow> _) \<in> set crypto_kernel_init_steps" for at tid
    proof -
      obtain e1 e2 where "crypto_kernel_load_auth_type (Some at) tid e1 = Some (err_status_ok, e2)" "kgrow e2 e'"
        using ran [OF load] by blast
      then show ?thesis using opt_allD [OF do_load_auth, of "Some at" tid False e1]
        by (auto simp: crypto_kernel_load_auth_type_def kgrow_def)
    qed
    have "\<exists>e1 e2. Some (map_prod id (\<lambda>r. e1\<lparr>env_source := r\<rparr>) (rand_source_init (env_source e1))) =
        Some (err_status_ok, e2) \<and> kgrow e2 e'"
      by (rule ran) (simp add: crypto_kernel_init_steps_def)
    then have r: "0 \<le> dev_random_fdes (env_source e')"
      by (auto simp: rand_source_init_def RAND_SOURCE_READY_def kgrow_def split: if_splits)
    have "lists_wf e'" using opt_allD [OF grow run] wf by (simp add: kgrow_def kernel_wf_def)
    moreover have "0 \<in> fst ` set (cipher_type_list e')" "1 \<in> fst ` set (cipher_type_list e')" "3 \<in> fst ` set (cipher_type_list e')"
      by (rule c [of null_cipher] c [of aes_icm] c [of aes_cbc], simp add: crypto_kernel_init_steps_def)+
    moreover have "0 \<in> fst ` set (auth_type_list e')" "3 \<in> fst ` set (auth_type_list e')"
      by (rule a [of null_auth] a [of hmac], simp add: crypto_kernel_init_steps_def)+
    ultimately show ?thesis using r by (simp add: kernel_wf_def lists_wf_def)
  qed
  then show ?thesis
    using False grow by (auto simp: crypto_kernel_init_def opt_all_def bind_eq_Some_conv split: if_splits dest: kgrow_wf)
qed

text \<open>The operations a program performs on the kernel; a failed self-test in \<^verbatim>\<open>crypto_kernel_status\<close> ends it.\<close>

inductive kernel_step :: "'a kernel_env_scheme \<Rightarrow> 'a kernel_env_scheme \<Rightarrow> bool" where
  step_init: "crypto_kernel_init e = Some (returns st, e') \<Longrightarrow> kernel_step e e'"
| step_status: "crypto_kernel_status e = Some (returns st, e') \<Longrightarrow> kernel_step e e'"
| step_shutdown: "kernel_step e (snd (crypto_kernel_shutdown e))"
| step_cipher: "crypto_kernel_do_load_cipher_type ct tid replace e = Some (st, e') \<Longrightarrow> kernel_step e e'"
| step_auth: "crypto_kernel_do_load_auth_type at tid replace e = Some (st, e') \<Longrightarrow> kernel_step e e'"
| step_debug: "kernel_step e (snd (crypto_kernel_load_debug_module dm e))"
| step_switch: "kernel_step e (snd (crypto_kernel_set_debug_module name on e))"
| step_alloc_cipher: "crypto_kernel_alloc_cipher tid key_len e = (st, c, e') \<Longrightarrow> kernel_step e e'"
| step_alloc_auth: "crypto_kernel_alloc_auth tid key_len tag_len e = (st, a, e') \<Longrightarrow> kernel_step e e'"
| step_free_cipher: "kernel_step e (snd (env_dealloc c e))"
| step_random: "crypto_get_random len e = Some (st, e', out) \<Longrightarrow> kernel_step e e'"

lemma shutdown_wf: "kernel_wf e \<Longrightarrow> kernel_wf (snd (crypto_kernel_shutdown e))"
  by (auto simp: crypto_kernel_shutdown_def rand_source_deinit_def kernel_wf_def lists_wf_def types_wf_def
      RAND_SOURCE_NOT_READY_def Let_def)

lemma kframe_alloc_kernel:
  "crypto_kernel_alloc_cipher tid key_len e = (st, c, e') \<Longrightarrow> kframe e e'"
  "crypto_kernel_alloc_auth tid key_len tag_len e = (st, a, e') \<Longrightarrow> kframe e e'"
  by (auto simp: crypto_kernel_alloc_cipher_def crypto_kernel_alloc_auth_def env_auth_alloc_def kframe_def
      dest: kframe_alloc [unfolded kframe_def] split: if_splits option.splits prod.splits)

lemma kframe_get_random: "crypto_get_random len e = Some (st, e', out) \<Longrightarrow> kframe e e'"
  using kframe_ctr_prng_get [of e "env_ctr_prng e" len]
  by (auto simp: crypto_get_random_def opt_all_def kframe_def split: if_splits)

lemma kernel_step_wf: "kernel_step e e' \<Longrightarrow> kernel_wf e \<Longrightarrow> kernel_wf e'"
proof (induction rule: kernel_step.induct)
  case (step_init e st e')
  then show ?case using opt_allD [OF init_wf] by blast
next
  case (step_status e st e')
  then show ?case using opt_allD [OF status_wf] by blast
next
  case (step_cipher ct tid replace e st e')
  then show ?case using opt_allD [OF do_load_cipher step_cipher(1)] kgrow_wf by blast
next
  case (step_auth at tid replace e st e')
  then show ?case using opt_allD [OF do_load_auth step_auth(1)] kgrow_wf by blast
next
  case (step_switch e name on)
  have "kframe e (snd (crypto_kernel_set_debug_module name on e))"
    by (auto simp: crypto_kernel_set_debug_module_def kframe_def split: option.split)
  then show ?case using step_switch kgrow_wf kframe_kgrow by blast
qed (auto intro: shutdown_wf kgrow_wf [OF kframe_kgrow] kframe_load_debug kframe_dealloc
    dest: kframe_alloc_kernel kframe_get_random)

definition kernel_initial :: "'a kernel_env_scheme \<Rightarrow> bool" where
  "kernel_initial e \<longleftrightarrow> kernel_state e = crypto_kernel_state_insecure \<and> cipher_type_list e = [] \<and>
     auth_type_list e = [] \<and> debug_module_list e = []"

lemma types_wf_lookup:
  assumes "types_wf f ts" and "i \<in> fst ` set ts"
  shows "\<exists>t. map_of ts i = Some t \<and> f t = i"
proof -
  from assms(2) obtain t where t: "map_of ts i = Some t" by (metis map_of_eq_None_iff option.exhaust)
  then have "(i, t) \<in> set ts" by (rule map_of_SomeD)
  with assms(1) t show ?thesis by (auto simp: types_wf_def)
qed

text \<open>
  In every state the kernel can reach, each registered id belongs to one type and is that type's
  own; and in the secure state the five types of the library are found under their ids and shutting
  down succeeds.
\<close>

theorem crypto_kernel_invariant:
  assumes "kernel_initial e0" and "kernel_step\<^sup>*\<^sup>* e0 e"
  shows "types_wf cipher_type_id (cipher_type_list e) \<and> types_wf auth_type_id (auth_type_list e) \<and>
    (kernel_state e = crypto_kernel_state_secure \<longrightarrow>
       (\<forall>ct. crypto_kernel_get_cipher_type (cipher_type_id ct) e = Some ct) \<and>
       (\<forall>at. crypto_kernel_get_auth_type (auth_type_id at) e = Some at) \<and>
       fst (crypto_kernel_shutdown e) = err_status_ok)"
proof -
  have "kernel_wf e0" using assms(1) by (simp add: kernel_initial_def kernel_wf_def lists_wf_def types_wf_def)
  with assms(2) have wf: "kernel_wf e"
    by (induction rule: rtranclp_induct) (auto intro: kernel_step_wf)
  have "crypto_kernel_get_cipher_type (cipher_type_id ct) e = Some ct" if "kernel_state e = crypto_kernel_state_secure" for ct
  proof -
    have "cipher_type_id ct \<in> fst ` set (cipher_type_list e)"
      using wf that by (cases ct) (auto simp: kernel_wf_def cipher_type_id_def)
    then obtain t where "crypto_kernel_get_cipher_type (cipher_type_id ct) e = Some t" "cipher_type_id t = cipher_type_id ct"
      using types_wf_lookup wf by (fastforce simp: kernel_wf_def lists_wf_def crypto_kernel_get_cipher_type_def)
    then show ?thesis by (cases t; cases ct; simp add: cipher_type_id_def)
  qed
  moreover have "crypto_kernel_get_auth_type (auth_type_id at) e = Some at" if "kernel_state e = crypto_kernel_state_secure" for at
  proof -
    have "auth_type_id at \<in> fst ` set (auth_type_list e)"
      using wf that by (cases at) (auto simp: kernel_wf_def auth_type_id_def)
    then obtain t where "crypto_kernel_get_auth_type (auth_type_id at) e = Some t" "auth_type_id t = auth_type_id at"
      using types_wf_lookup wf by (fastforce simp: kernel_wf_def lists_wf_def crypto_kernel_get_auth_type_def)
    then show ?thesis by (cases t; cases at; simp add: auth_type_id_def)
  qed
  ultimately show ?thesis
    using wf by (auto simp: kernel_wf_def lists_wf_def crypto_kernel_shutdown_def rand_source_deinit_def Let_def)
qed


text \<open>The kernel as the program starts it, on an allocator that never fails and a constant random source.\<close>

definition start_env :: kernel_env where
  "start_env =
     \<lparr>env_source = \<lparr>dev_random_fdes = RAND_SOURCE_NOT_READY, rand_s_tape = \<lambda>_. Some 7, rand_s_pos = 0\<rparr>,
      env_rand_tape = \<lambda>_. 5, env_rand_pos = 0, env_cipher_mem = \<lambda>_. Some blank_cipher_mem, env_allocs = 0,
      env_cipher_refs = \<lambda>_. 0, env_auth_mem = \<lambda>_. None, env_auth_refs = \<lambda>_. 0, env_node_mem = \<lambda>_. True,
      env_past = [0, 0], env_buffer = replicate 128 0, env_key = replicate 64 0, env_tag = replicate 32 0,
      env_ctr_prng = \<lparr>ctr_octet_count = 0, ctr_state = fst blank_cipher_mem\<rparr>,
      kernel_state = crypto_kernel_state_insecure, cipher_type_list = [], auth_type_list = [],
      debug_module_list = [], debug_on = \<lambda>_. 0\<rparr>"

theorem crypto_kernel_invariant_witness:
  "let e = snd (crypto_kernel_load_debug_module (Some ''cipher'') (start_env\<lparr>debug_on := \<lambda>_. 1\<rparr>))
   in debug_module_list e = [''cipher''] \<and>
      types_wf cipher_type_id (cipher_type_list e) \<and> types_wf auth_type_id (auth_type_list e) \<and>
      (kernel_state e = crypto_kernel_state_secure \<longrightarrow>
         (\<forall>ct. crypto_kernel_get_cipher_type (cipher_type_id ct) e = Some ct) \<and>
         (\<forall>at. crypto_kernel_get_auth_type (auth_type_id at) e = Some at) \<and>
         fst (crypto_kernel_shutdown e) = err_status_ok)"
proof -
  let ?e0 = "start_env\<lparr>debug_on := \<lambda>_. 1\<rparr>"
  have "kernel_initial ?e0" by (simp add: kernel_initial_def start_env_def)
  moreover have "kernel_step\<^sup>*\<^sup>* ?e0 (snd (crypto_kernel_load_debug_module (Some ''cipher'') ?e0))"
    by (rule r_into_rtranclp) (rule step_debug)
  moreover have "debug_module_list (snd (crypto_kernel_load_debug_module (Some ''cipher'') ?e0)) = [''cipher'']"
    by (simp add: crypto_kernel_load_debug_module_def start_env_def)
  ultimately show ?thesis using crypto_kernel_invariant by (simp add: Let_def)
qed

text \<open>
  C8. An interrupted start-up cannot be repeated: once \<^verbatim>\<open>crypto_kernel_init\<close> has failed behind its
  first step, whatever the reason, a second call fails with \<^verbatim>\<open>bad_param\<close> and changes nothing, because
  the debug modules of the first attempt are still loaded.
\<close>

theorem crypto_kernel_init_not_repeatable:
  fixes e e' :: "'a kernel_env_scheme"
  assumes "crypto_kernel_init e = Some (returns st, e')" and "st \<noteq> err_status_ok"
    and "kernel_state e = crypto_kernel_state_insecure" and "debug_module_list e = []" and "env_node_mem e (env_allocs e)"
  shows "crypto_kernel_init e' = Some (returns err_status_bad_param, e')"
proof -
  let ?load = "\<lambda>e. Some (crypto_kernel_load_debug_module (Some ''crypto kernel'') e)"
  obtain rest :: "('a kernel_env_scheme \<Rightarrow> (err_status_t \<times> 'a kernel_env_scheme) option) list"
    where steps: "crypto_kernel_init_steps = (\<lambda>e. Some (err_reporting_init, e)) # ?load # rest"
    by (simp add: crypto_kernel_init_steps_def)
  define e1 where "e1 = e\<lparr>env_allocs := env_allocs e + 1, debug_module_list := [''crypto kernel'']\<rparr>"
  have "?load e = Some (err_status_ok, e1)"
    using assms(4,5) by (simp add: crypto_kernel_load_debug_module_def e1_def)
  then have "run_steps crypto_kernel_init_steps e = run_steps rest e1"
    unfolding steps by (simp add: err_reporting_init_def)
  with assms(1-3) have run: "run_steps rest e1 = Some (st, e')"
    by (auto simp: crypto_kernel_init_def bind_eq_Some_conv split: if_splits)
  have "opt_all (\<lambda>(st, e'). kgrow e1 e') (run_steps rest e1)"
    by (rule run_steps_grow) (rule init_steps_grow, simp add: steps)
  from opt_allD [OF this run] have "kernel_state e' = crypto_kernel_state_insecure" "''crypto kernel'' \<in> set (debug_module_list e')"
    using assms(3) by (simp_all add: kgrow_def e1_def)
  moreover from this(2) have "\<exists>m\<in>set (debug_module_list e'). take 64 m = ''crypto kernel''"
    by (rule bexI [rotated]) simp
  ultimately show ?thesis
    unfolding crypto_kernel_init_def steps by (auto simp: err_reporting_init_def crypto_kernel_load_debug_module_def)
qed

theorem crypto_kernel_init_not_repeatable_witness:
  "\<exists>e'. crypto_kernel_init (start_env\<lparr>env_node_mem := \<lambda>n. n = 0\<rparr>) = Some (returns err_status_alloc_fail, e') \<and>
     crypto_kernel_init e' = Some (returns err_status_bad_param, e')"
proof -
  let ?e = "start_env\<lparr>env_node_mem := \<lambda>n. n = 0\<rparr>"
  obtain e' where run: "crypto_kernel_init ?e = Some (returns err_status_alloc_fail, e')"
    by (simp add: crypto_kernel_init_def crypto_kernel_init_steps_def start_env_def err_reporting_init_def
        crypto_kernel_load_debug_module_def)
  from run crypto_kernel_init_not_repeatable [OF run] show ?thesis by (auto simp: start_env_def)
qed

end
