(* ===== verification/Packet_Memory.thy ===== *)
theory Packet_Memory
  imports Prelude
begin

text \<open>
  A packet in memory: the octets from the pointer that the caller passes to the end of the object it
  points into. Offsets are integers, because the code subtracts lengths that the peer chooses; an
  access outside the object is \<open>None\<close>.
\<close>

definition load8 :: "octets \<Rightarrow> int \<Rightarrow> u8 option" where
  "load8 m i = (if 0 \<le> i \<and> i < int (length m) then Some (m ! nat i) else None)"

definition load16 :: "octets \<Rightarrow> int \<Rightarrow> u16 option" where
  "load16 m i = do { a \<leftarrow> load8 m i; b \<leftarrow> load8 m (i + 1); Some (ucast a OR push_bit 8 (ucast b)) }"

definition load32 :: "octets \<Rightarrow> int \<Rightarrow> u32 option" where
  "load32 m i = do { a \<leftarrow> load8 m i; b \<leftarrow> load8 m (i + 1); c \<leftarrow> load8 m (i + 2); d \<leftarrow> load8 m (i + 3);
     Some (le32 a b c d) }"

definition le16_bytes :: "u16 \<Rightarrow> octets" where
  "le16_bytes w = [ucast w, ucast (drop_bit 8 w)]"

text \<open>\<^verbatim>\<open>ntohs\<close> and \<^verbatim>\<open>htons\<close> on this target.\<close>

definition bswap16 :: "u16 \<Rightarrow> u16" where
  "bswap16 w = push_bit 8 w OR drop_bit 8 w"

definition be16 :: "u8 \<Rightarrow> u8 \<Rightarrow> u16" where
  "be16 a b = push_bit 8 (ucast a) OR ucast b"

text \<open>The octets from offset \<open>i\<close> on, as a callee sees them, and the packet after the callee changed them.\<close>

definition mem_from :: "octets \<Rightarrow> int \<Rightarrow> octets option" where
  "mem_from m i = (if 0 \<le> i \<and> i \<le> int (length m) then Some (drop (nat i) m) else None)"

definition put_from :: "octets \<Rightarrow> int \<Rightarrow> octets \<Rightarrow> octets" where
  "put_from m i b = take (nat i) m @ b"

definition store :: "octets \<Rightarrow> int \<Rightarrow> octets \<Rightarrow> octets option" where
  "store m i b =
     (if 0 \<le> i \<and> i + int (length b) \<le> int (length m) then Some (take (nat i) m @ b @ drop (nat i + length b) m) else None)"

text \<open>The octets \<open>i ..< i + n\<close>, where a callee reads exactly \<open>n\<close> octets.\<close>

definition mem_slice :: "octets \<Rightarrow> int \<Rightarrow> nat \<Rightarrow> octets option" where
  "mem_slice m i n = (if 0 \<le> i \<and> i + int n \<le> int (length m) then Some (take n (drop (nat i) m)) else None)"

section \<open>Sixteen bits\<close>

lemma u16_eqI: "(\<And>n. n < 16 \<Longrightarrow> bit a n = bit b n) \<Longrightarrow> a = (b :: u16)"
  by (rule bit_word_eqI) simp

lemma bit_be16: "bit (be16 a b) n \<longleftrightarrow> (if n < 8 then bit b n else n < 16 \<and> bit a (n - 8))"
  by (auto simp: be16_def bit_simps dest: bit_imp_le_length)

lemma ucast_be16 [simp]: "ucast (be16 a b) = b" "ucast (drop_bit 8 (be16 a b)) = a"
  by (rule u8_eqI; simp add: bit_simps bit_be16)+

lemma be16_ucast [simp]: "be16 (ucast (drop_bit 8 w)) (ucast w) = w"
  by (rule u16_eqI) (auto simp: bit_simps bit_be16)

lemma be16_inject [simp]: "be16 a b = be16 c d \<longleftrightarrow> a = c \<and> b = d"
  using ucast_be16 [of a b] ucast_be16 [of c d] by metis

lemma bit_bswap16: "bit (bswap16 w) n \<longleftrightarrow> (if n < 8 then bit w (n + 8) else n < 16 \<and> bit w (n - 8))"
  using bit_imp_le_length [of w "n + 8"] by (auto simp: bswap16_def bit_simps add.commute)

lemma bswap16_bswap16 [simp]: "bswap16 (bswap16 w) = w"
  by (rule u16_eqI) (auto simp: bit_bswap16)

section \<open>Reading back\<close>

lemma load8_append [simp]: "0 \<le> i \<Longrightarrow> i < int (length a) \<Longrightarrow> load8 (a @ b) i = load8 a i"
  by (auto simp: load8_def nth_append)

lemma load16_append [simp]: "0 \<le> i \<Longrightarrow> i + 1 < int (length a) \<Longrightarrow> load16 (a @ b) i = load16 a i"
  by (simp add: load16_def)

lemma load32_append [simp]: "0 \<le> i \<Longrightarrow> i + 3 < int (length a) \<Longrightarrow> load32 (a @ b) i = load32 a i"
  by (simp add: load32_def)

lemma load8_take: "i < int n \<Longrightarrow> load8 (take n m) i = load8 m i"
  by (auto simp: load8_def)

lemma load16_take: "i + 1 < int n \<Longrightarrow> load16 (take n m) i = load16 m i"
  by (simp add: load16_def load8_take)

lemma load32_take: "i + 3 < int n \<Longrightarrow> load32 (take n m) i = load32 m i"
  by (simp add: load32_def load8_take)

lemma load8_Some: "0 \<le> i \<Longrightarrow> i < int (length m) \<Longrightarrow> load8 m i = Some (m ! nat i)"
  by (simp add: load8_def)

lemma load32_bytes: "length a = nat i \<Longrightarrow> 0 \<le> i \<Longrightarrow> load32 (a @ le32_bytes w @ b) i = Some w"
  by (simp add: load32_def load8_def le32_bytes_def nth_append nat_add_distrib)

lemma length_le16_bytes [simp]: "length (le16_bytes w) = 2"
  by (simp add: le16_bytes_def)

lemma length_put_from: "nat i \<le> length m \<Longrightarrow> length (put_from m i b) = nat i + length b"
  by (simp add: put_from_def)

lemma store_length: "store m i b = Some m' \<Longrightarrow> length m' = length m"
  by (auto simp: store_def split: if_splits)

text \<open>Two stores that touch are one store; a load inside a store sees what was stored.\<close>

lemma store_nat:
  "store m (int n) b = (if n + length b \<le> length m then Some (take n m @ b @ drop (n + length b) m) else None)"
  unfolding store_def by (auto simp flip: of_nat_add)

lemma store_SomeD:
  assumes "store m i b = Some m'"
  obtains n where "i = int n" and "n + length b \<le> length m" and "m' = take n m @ b @ drop (n + length b) m"
proof -
  have "0 \<le> i" "i + int (length b) \<le> int (length m)" "m' = take (nat i) m @ b @ drop (nat i + length b) m"
    using assms by (auto simp: store_def split: if_splits)
  then show ?thesis by (intro that [of "nat i"]) auto
qed

lemma store_store:
  assumes "store m i a = Some m1" and "j = i + int (length a)"
  shows "store m1 j b = store m i (a @ b)"
proof -
  obtain n where n: "i = int n" "n + length a \<le> length m" "m1 = take n m @ a @ drop (n + length a) m"
    using assms(1) by (rule store_SomeD)
  have j: "j = int (n + length a)" using n(1) assms(2) by simp
  have len: "length m1 = length m" using n(2,3) by simp
  have "take (n + length a) m1 = take n m @ a" "drop (n + length a + length b) m1 = drop (n + length a + length b) m"
    using n(2,3) by (simp_all add: add.commute [of "length b"])
  then show ?thesis unfolding j n(1) store_nat len by (simp add: add.assoc)
qed

lemma store_load8:
  assumes "store m i b = Some m'" and "i \<le> j" and "j < i + int (length b)"
  shows "load8 m' j = Some (b ! nat (j - i))"
  using assms by (auto simp: store_def load8_def nth_append nat_diff_distrib nat_less_iff split: if_splits)

lemma store_slice:
  assumes "store m i b = Some m'" and "i \<le> j" and "j + int n \<le> i + int (length b)"
  shows "mem_slice m' j n = Some (take n (drop (nat (j - i)) b))"
proof -
  have "nat j - nat i = nat (j - i)" using assms by (auto simp: store_def nat_diff_distrib split: if_splits)
  then show ?thesis using assms by (auto simp: store_def mem_slice_def split: if_splits)
qed

end
