(* ===== verification/Srtp_Policy.thy ===== *)
theory Srtp_Policy
  imports Packet_Memory
begin

text \<open>
  \<^verbatim>\<open>srtp/include/srtp.h\<close> and the policy part of \<^verbatim>\<open>srtp/srtp/srtp.c\<close>: what a caller asks of a stream, the
  predefined policies, and the policies that a DTLS-SRTP profile selects.
\<close>

section \<open>Policies\<close>

datatype sec_serv_t = sec_serv_none | sec_serv_conf | sec_serv_auth | sec_serv_conf_and_auth

text \<open>The tests \<^verbatim>\<open>services & sec_serv_conf\<close> and \<^verbatim>\<open>services & sec_serv_auth\<close> on the bits of the enumeration.\<close>

definition serv_conf :: "sec_serv_t \<Rightarrow> bool" where
  "serv_conf s \<longleftrightarrow> s = sec_serv_conf \<or> s = sec_serv_conf_and_auth"

definition serv_auth :: "sec_serv_t \<Rightarrow> bool" where
  "serv_auth s \<longleftrightarrow> s = sec_serv_auth \<or> s = sec_serv_conf_and_auth"

record crypto_policy_t =
  cp_cipher_type :: u32
  cp_cipher_key_len :: int
  cp_auth_type :: u32
  cp_auth_key_len :: int
  cp_auth_tag_len :: int
  cp_sec_serv :: sec_serv_t

definition NULL_CIPHER :: u32 where "NULL_CIPHER = 0"
definition AES_ICM :: u32 where "AES_ICM = 1"
definition NULL_AUTH :: u32 where "NULL_AUTH = 0"
definition HMAC_SHA1 :: u32 where "HMAC_SHA1 = 3"

definition crypto_policy_set_rtp_default :: "crypto_policy_t \<Rightarrow> crypto_policy_t" where
  "crypto_policy_set_rtp_default p =
     p\<lparr>cp_cipher_type := AES_ICM, cp_cipher_key_len := 30, cp_auth_type := HMAC_SHA1,
       cp_auth_key_len := 20, cp_auth_tag_len := 10, cp_sec_serv := sec_serv_conf_and_auth\<rparr>"

definition crypto_policy_set_rtcp_default :: "crypto_policy_t \<Rightarrow> crypto_policy_t" where
  "crypto_policy_set_rtcp_default p =
     p\<lparr>cp_cipher_type := AES_ICM, cp_cipher_key_len := 30, cp_auth_type := HMAC_SHA1,
       cp_auth_key_len := 20, cp_auth_tag_len := 10, cp_sec_serv := sec_serv_conf_and_auth\<rparr>"

definition crypto_policy_set_aes_cm_128_hmac_sha1_80 :: "crypto_policy_t \<Rightarrow> crypto_policy_t" where
  "crypto_policy_set_aes_cm_128_hmac_sha1_80 p = crypto_policy_set_rtp_default p"

definition crypto_policy_set_aes_cm_128_hmac_sha1_32 :: "crypto_policy_t \<Rightarrow> crypto_policy_t" where
  "crypto_policy_set_aes_cm_128_hmac_sha1_32 p =
     p\<lparr>cp_cipher_type := AES_ICM, cp_cipher_key_len := 30, cp_auth_type := HMAC_SHA1,
       cp_auth_key_len := 20, cp_auth_tag_len := 4, cp_sec_serv := sec_serv_conf_and_auth\<rparr>"

definition crypto_policy_set_aes_cm_128_null_auth :: "crypto_policy_t \<Rightarrow> crypto_policy_t" where
  "crypto_policy_set_aes_cm_128_null_auth p =
     p\<lparr>cp_cipher_type := AES_ICM, cp_cipher_key_len := 30, cp_auth_type := NULL_AUTH,
       cp_auth_key_len := 0, cp_auth_tag_len := 0, cp_sec_serv := sec_serv_conf\<rparr>"

definition crypto_policy_set_null_cipher_hmac_sha1_80 :: "crypto_policy_t \<Rightarrow> crypto_policy_t" where
  "crypto_policy_set_null_cipher_hmac_sha1_80 p =
     p\<lparr>cp_cipher_type := NULL_CIPHER, cp_cipher_key_len := 0, cp_auth_type := HMAC_SHA1,
       cp_auth_key_len := 20, cp_auth_tag_len := 10, cp_sec_serv := sec_serv_auth\<rparr>"

definition crypto_policy_set_aes_cm_256_hmac_sha1_80 :: "crypto_policy_t \<Rightarrow> crypto_policy_t" where
  "crypto_policy_set_aes_cm_256_hmac_sha1_80 p =
     p\<lparr>cp_cipher_type := AES_ICM, cp_cipher_key_len := 46, cp_auth_type := HMAC_SHA1,
       cp_auth_key_len := 20, cp_auth_tag_len := 10, cp_sec_serv := sec_serv_conf_and_auth\<rparr>"

definition crypto_policy_set_aes_cm_256_hmac_sha1_32 :: "crypto_policy_t \<Rightarrow> crypto_policy_t" where
  "crypto_policy_set_aes_cm_256_hmac_sha1_32 p =
     p\<lparr>cp_cipher_type := AES_ICM, cp_cipher_key_len := 46, cp_auth_type := HMAC_SHA1,
       cp_auth_key_len := 20, cp_auth_tag_len := 4, cp_sec_serv := sec_serv_conf_and_auth\<rparr>"

section \<open>DTLS-SRTP profiles\<close>

datatype srtp_profile_t =
    srtp_profile_reserved | srtp_profile_aes128_cm_sha1_80 | srtp_profile_aes128_cm_sha1_32
  | srtp_profile_aes256_cm_sha1_80 | srtp_profile_aes256_cm_sha1_32
  | srtp_profile_null_sha1_80 | srtp_profile_null_sha1_32

definition crypto_policy_set_from_profile_for_rtp :: "crypto_policy_t \<Rightarrow> srtp_profile_t \<Rightarrow> err_status_t \<times> crypto_policy_t" where
  "crypto_policy_set_from_profile_for_rtp policy profile =
     (case profile of
        srtp_profile_aes128_cm_sha1_80 \<Rightarrow> (err_status_ok,
          crypto_policy_set_aes_cm_128_hmac_sha1_80 (crypto_policy_set_aes_cm_128_hmac_sha1_80 policy))
      | srtp_profile_aes128_cm_sha1_32 \<Rightarrow> (err_status_ok,
          crypto_policy_set_aes_cm_128_hmac_sha1_80 (crypto_policy_set_aes_cm_128_hmac_sha1_32 policy))
      | srtp_profile_null_sha1_80 \<Rightarrow> (err_status_ok,
          crypto_policy_set_null_cipher_hmac_sha1_80 (crypto_policy_set_null_cipher_hmac_sha1_80 policy))
      | srtp_profile_aes256_cm_sha1_80 \<Rightarrow> (err_status_ok,
          crypto_policy_set_aes_cm_256_hmac_sha1_80 (crypto_policy_set_aes_cm_256_hmac_sha1_80 policy))
      | srtp_profile_aes256_cm_sha1_32 \<Rightarrow> (err_status_ok,
          crypto_policy_set_aes_cm_256_hmac_sha1_80 (crypto_policy_set_aes_cm_256_hmac_sha1_32 policy))
      | _ \<Rightarrow> (err_status_bad_param, policy))"

definition crypto_policy_set_from_profile_for_rtcp :: "crypto_policy_t \<Rightarrow> srtp_profile_t \<Rightarrow> err_status_t \<times> crypto_policy_t" where
  "crypto_policy_set_from_profile_for_rtcp policy profile =
     (case profile of
        srtp_profile_aes128_cm_sha1_80 \<Rightarrow> (err_status_ok, crypto_policy_set_aes_cm_128_hmac_sha1_80 policy)
      | srtp_profile_aes128_cm_sha1_32 \<Rightarrow> (err_status_ok, crypto_policy_set_aes_cm_128_hmac_sha1_80 policy)
      | srtp_profile_null_sha1_80 \<Rightarrow> (err_status_ok, crypto_policy_set_null_cipher_hmac_sha1_80 policy)
      | srtp_profile_aes256_cm_sha1_80 \<Rightarrow> (err_status_ok, crypto_policy_set_aes_cm_256_hmac_sha1_80 policy)
      | srtp_profile_aes256_cm_sha1_32 \<Rightarrow> (err_status_ok, crypto_policy_set_aes_cm_256_hmac_sha1_80 policy)
      | _ \<Rightarrow> (err_status_bad_param, policy))"

definition append_salt_to_key :: "octets \<Rightarrow> nat \<Rightarrow> octets \<Rightarrow> nat \<Rightarrow> octets option" where
  "append_salt_to_key key bytes_in_key salt bytes_in_salt =
     (if bytes_in_salt \<le> length salt then store key (int bytes_in_key) (take bytes_in_salt salt) else None)"

definition srtp_profile_get_master_key_length :: "srtp_profile_t \<Rightarrow> nat" where
  "srtp_profile_get_master_key_length profile =
     (case profile of
        srtp_profile_aes128_cm_sha1_80 \<Rightarrow> 16 | srtp_profile_aes128_cm_sha1_32 \<Rightarrow> 16
      | srtp_profile_null_sha1_80 \<Rightarrow> 16 | srtp_profile_aes256_cm_sha1_80 \<Rightarrow> 32
      | srtp_profile_aes256_cm_sha1_32 \<Rightarrow> 32 | _ \<Rightarrow> 0)"

definition srtp_profile_get_master_salt_length :: "srtp_profile_t \<Rightarrow> nat" where
  "srtp_profile_get_master_salt_length profile =
     (case profile of
        srtp_profile_aes128_cm_sha1_80 \<Rightarrow> 14 | srtp_profile_aes128_cm_sha1_32 \<Rightarrow> 14
      | srtp_profile_null_sha1_80 \<Rightarrow> 14 | srtp_profile_aes256_cm_sha1_80 \<Rightarrow> 14
      | srtp_profile_aes256_cm_sha1_32 \<Rightarrow> 14 | _ \<Rightarrow> 0)"

end
