(* ===== verification/Ekt.thy ===== *)
theory Ekt
  imports Packet_Memory Replay_Dbx Aes
begin

text \<open>
  \<^verbatim>\<open>srtp/srtp/ekt.c\<close>: encrypted key transport in the trailer of SRTCP packets, an unfinished part of the
  library. \<^verbatim>\<open>ekt_alloc\<close> never creates the data of a stream, so the pointer of every stream is null; the
  other functions are modelled as they are written. \<^verbatim>\<open>srtp_stream_init_from_ekt\<close> initialises a stream
  and is in \<open>Srtp_Stream\<close>.
\<close>

definition EKT_CIPHER_AES_128_ECB :: u8 where "EKT_CIPHER_AES_128_ECB = 1"

definition EKT_OCTETS_AFTER_BASE_TAG :: int where "EKT_OCTETS_AFTER_BASE_TAG = 24"
definition EKT_OCTETS_AFTER_EMK :: int where "EKT_OCTETS_AFTER_EMK = 8"
definition EKT_OCTETS_AFTER_ROC :: int where "EKT_OCTETS_AFTER_ROC = 4"
definition EKT_SPI_LEN :: int where "EKT_SPI_LEN = 2"

record ekt_policy_ctx_t =
  ep_spi :: u16
  ep_ekt_cipher_type :: u8
  ep_ekt_key :: octets

record ekt_data_t =
  ed_spi :: u16
  ekt_cipher_type :: u8
  ekt_enc_key :: aes_expanded_key_t
  ekt_dec_key :: aes_expanded_key_t

record ekt_stream_ctx_t =
  ekt_data :: ekt_data_t
  ekt_isn :: u16
  encrypted_master_key :: octets

definition ekt_octets_after_base_tag :: "ekt_stream_ctx_t option \<Rightarrow> int" where
  "ekt_octets_after_base_tag ekt =
     (case ekt of None \<Rightarrow> 0
      | Some s \<Rightarrow> if ekt_cipher_type (ekt_data s) = EKT_CIPHER_AES_128_ECB then 16 + EKT_OCTETS_AFTER_EMK else 0)"

definition srtcp_packet_get_ekt_spi :: "octets \<Rightarrow> int \<Rightarrow> u16 option" where
  "srtcp_packet_get_ekt_spi packet_start pkt_octet_len = load16 packet_start (pkt_octet_len - EKT_SPI_LEN)"

definition srtcp_packet_get_ekt_roc :: "octets \<Rightarrow> int \<Rightarrow> u32 option" where
  "srtcp_packet_get_ekt_roc packet_start pkt_octet_len = load32 packet_start (pkt_octet_len - EKT_OCTETS_AFTER_ROC)"

definition srtcp_packet_get_emk_location :: "int \<Rightarrow> int" where
  "srtcp_packet_get_emk_location pkt_octet_len = pkt_octet_len - EKT_OCTETS_AFTER_BASE_TAG"

definition ekt_alloc :: "ekt_policy_ctx_t option \<Rightarrow> err_status_t \<times> ekt_stream_ctx_t option" where
  "ekt_alloc policy = (if policy = None then (err_status_ok, None) else (err_status_ok, None))"

definition ekt_stream_init_from_policy :: "ekt_stream_ctx_t option \<Rightarrow> ekt_policy_ctx_t option \<Rightarrow> err_status_t" where
  "ekt_stream_init_from_policy stream_data policy =
     (if stream_data = None then err_status_ok else err_status_ok)"

text \<open>
  \<open>expanded_key\<close> is the uninitialised structure on the stack. The status of the key expansion is ignored.
\<close>

definition aes_decrypt_with_raw_key :: "aes_expanded_key_t \<Rightarrow> v128_t \<Rightarrow> octets \<Rightarrow> int \<Rightarrow> v128_t option" where
  "aes_decrypt_with_raw_key expanded_key ciphertext key key_len =
     map_option (\<lambda>(_, ek). aes_decrypt ciphertext ek) (aes_expand_decryption_key key key_len expanded_key)"

text \<open>
  \<open>base_tag\<close> is the offset of the tag in the packet. The copy takes the encrypted master key and as many
  octets behind it as the other fields of the trailer need; these follow once more.
\<close>

definition ekt_write_data :: "ekt_stream_ctx_t option \<Rightarrow> octets \<Rightarrow> int \<Rightarrow> int \<Rightarrow> int \<Rightarrow> xtd_seq_num_t \<Rightarrow> (octets \<times> int) option" where
  "ekt_write_data ekt pkt base_tag base_tag_len packet_len pkt_index =
     (case ekt of None \<Rightarrow> Some (pkt, packet_len)
      | Some s \<Rightarrow> do {
          let zeros = replicate (max 1 (nat base_tag_len)) 0;
          pkt \<leftarrow> store pkt base_tag zeros;
          let packet = base_tag + base_tag_len;
          let emk_len = ekt_octets_after_base_tag ekt;
          emk \<leftarrow> mem_slice (encrypted_master_key s) 0 (nat emk_len);
          pkt \<leftarrow> store pkt packet emk;
          let packet = packet + emk_len;
          let roc = (ucast (drop_bit 16 pkt_index) :: u32);
          pkt \<leftarrow> store pkt packet (le32_bytes (bswap32 roc));
          let packet = packet + 4;
          let isn = (ucast pkt_index :: u16);
          pkt \<leftarrow> store pkt packet (le16_bytes (bswap16 isn));
          let packet = packet + 2;
          pkt \<leftarrow> store pkt packet (le16_bytes (bswap16 (ed_spi (ekt_data s))));
          Some (pkt, packet_len + (EKT_OCTETS_AFTER_EMK + emk_len))
        })"

text \<open>The function has no effect; its body ends in a comment.\<close>

definition srtcp_ekt_trailer :: "ekt_stream_ctx_t option \<Rightarrow> nat \<Rightarrow> octets \<Rightarrow> nat \<times> octets" where
  "srtcp_ekt_trailer ekt auth_len auth_tag = (if ekt = None then (auth_len, auth_tag) else (auth_len, auth_tag))"

section \<open>The trailer\<close>

lemma ekt_alloc_null [simp]: "ekt_alloc policy = (err_status_ok, None)"
  by (simp add: ekt_alloc_def)

lemma ekt_write_data_one_store:
  assumes "ekt_write_data (Some s) pkt base_tag base_tag_len packet_len pkt_index = Some (pkt', len')"
    and "0 < base_tag_len" and "ekt_cipher_type (ekt_data s) = EKT_CIPHER_AES_128_ECB"
  obtains emk where "mem_slice (encrypted_master_key s) 0 24 = Some emk" and "len' = packet_len + 32"
    and "store pkt base_tag (replicate (nat base_tag_len) 0 @ emk @ le32_bytes (bswap32 (ucast (drop_bit 16 pkt_index))) @
      le16_bytes (bswap16 (ucast pkt_index)) @ le16_bytes (bswap16 (ed_spi (ekt_data s)))) = Some pkt'"
proof -
  have tag: "max 1 (nat base_tag_len) = nat base_tag_len" "int (nat base_tag_len) = base_tag_len"
    and "ekt_octets_after_base_tag (Some s) = 24"
    using assms(2,3) by (auto simp: ekt_octets_after_base_tag_def EKT_OCTETS_AFTER_EMK_def)
  with assms(1) obtain p1 emk p2 p3 p4 where st: "store pkt base_tag (replicate (nat base_tag_len) 0) = Some p1"
    "mem_slice (encrypted_master_key s) 0 24 = Some emk" "store p1 (base_tag + base_tag_len) emk = Some p2"
    "store p2 (base_tag + base_tag_len + 24) (le32_bytes (bswap32 (ucast (drop_bit 16 pkt_index)))) = Some p3"
    "store p3 (28 + (base_tag + base_tag_len)) (le16_bytes (bswap16 (ucast pkt_index))) = Some p4"
    "store p4 (30 + (base_tag + base_tag_len)) (le16_bytes (bswap16 (ed_spi (ekt_data s)))) = Some pkt'"
    "len' = packet_len + 32"
    by (auto simp: ekt_write_data_def Let_def bind_eq_Some_conv EKT_OCTETS_AFTER_EMK_def)
  have emk: "length emk = 24" using st(2) by (auto simp: mem_slice_def split: if_splits)
  let ?Z = "replicate (nat base_tag_len) 0 :: octets"
  have "store pkt base_tag (?Z @ emk) = Some p2"
    using store_store [OF st(1), of _ emk] st(3) tag by simp
  note s2 = this
  have "store pkt base_tag ((?Z @ emk) @ le32_bytes (bswap32 (ucast (drop_bit 16 pkt_index)))) = Some p3"
    using store_store [OF s2 refl] st(4) tag emk by (simp add: add.assoc)
  note s3 = this
  have "store pkt base_tag (((?Z @ emk) @ le32_bytes (bswap32 (ucast (drop_bit 16 pkt_index)))) @
      le16_bytes (bswap16 (ucast pkt_index))) = Some p4"
    using store_store [OF s3 refl] st(5) tag emk by (simp add: ac_simps)
  from store_store [OF this refl] st(6) tag emk that [OF st(2,7)] show thesis by (simp add: ac_simps)
qed

text \<open>
  The writer and the readers of the EKT trailer disagree. \<^verbatim>\<open>ekt_write_data\<close> leaves 32 octets behind the
  base tag where \<^verbatim>\<open>ekt_octets_after_base_tag\<close>, by which the receiver finds the base tag, counts 24. At the
  end of the packet it has written, \<^verbatim>\<open>srtcp_packet_get_ekt_spi\<close> finds the parameter index in the other
  byte order, \<^verbatim>\<open>srtcp_packet_get_ekt_roc\<close> takes the initial sequence number and the parameter index for
  the rollover counter, and the encrypted master key is looked for 8 octets behind its start.
\<close>

theorem ekt_write_data_readers:
  assumes "ekt_cipher_type (ekt_data s) = EKT_CIPHER_AES_128_ECB" and "0 < base_tag_len"
    and "packet_len = base_tag + base_tag_len"
    and "ekt_write_data (Some s) pkt base_tag base_tag_len packet_len pkt_index = Some (pkt', len')"
  shows "len' = packet_len + 32 \<and> ekt_octets_after_base_tag (Some s) = 24 \<and>
    map_option le16_bytes (srtcp_packet_get_ekt_spi pkt' len') = Some (le16_bytes (bswap16 (ed_spi (ekt_data s)))) \<and>
    map_option le32_bytes (srtcp_packet_get_ekt_roc pkt' len') =
      Some (le16_bytes (bswap16 (ucast pkt_index)) @ le16_bytes (bswap16 (ed_spi (ekt_data s)))) \<and>
    mem_slice pkt' (srtcp_packet_get_emk_location len') 16 = Some (take 16 (drop 8 (encrypted_master_key s)))"
proof -
  from ekt_write_data_one_store [OF assms(4,2,1)] obtain emk where
    e: "mem_slice (encrypted_master_key s) 0 24 = Some emk" "len' = packet_len + 32"
    and st: "store pkt base_tag (replicate (nat base_tag_len) 0 @ emk @ le32_bytes (bswap32 (ucast (drop_bit 16 pkt_index))) @
      le16_bytes (bswap16 (ucast pkt_index)) @ le16_bytes (bswap16 (ed_spi (ekt_data s)))) = Some pkt'" (is "store _ _ ?d = _")
    by metis
  have emk: "length emk = 24" "take 16 (drop 8 emk) = take 16 (drop 8 (encrypted_master_key s))"
    using e(1) by (auto simp: mem_slice_def take_drop split: if_splits)
  have at: "load8 pkt' (len' - k) = Some (?d ! nat (base_tag_len + 32 - k))" if "1 \<le> k" "k \<le> 8" for k
    using store_load8 [OF st, of "len' - k"] assms(2,3) e(2) emk that by (simp add: algebra_simps)
  obtain t where t: "base_tag_len = int t" using assms(2) zero_less_imp_eq_int by blast
  have nth: "nat (28 + int t) = t + 28" "nat (29 + int t) = t + 29" "nat (30 + int t) = t + 30" "nat (31 + int t) = t + 31"
    by simp_all
  have d: "load8 pkt' (len' - 4) = Some (ucast (bswap16 (ucast pkt_index)))"
    "load8 pkt' (len' - 3) = Some (ucast (drop_bit 8 (bswap16 (ucast pkt_index))))"
    "load8 pkt' (len' - 2) = Some (ucast (bswap16 (ed_spi (ekt_data s))))"
    "load8 pkt' (len' - 1) = Some (ucast (drop_bit 8 (bswap16 (ed_spi (ekt_data s)))))"
    using at [of 4] at [of 3] at [of 2] at [of 1] emk
    by (simp_all add: t nth nth_append le16_bytes_def)
  have "mem_slice pkt' (len' - 24) 16 = Some (take 16 (drop 8 emk))"
    using store_slice [OF st, of "len' - 24" 16] assms(2,3) e(2) emk(1)
    by (simp add: nat_add_distrib)
  moreover have "le16_bytes (ucast (a :: u8) OR push_bit 8 (ucast (b :: u8))) = [a, b]" for a b
    unfolding le16_bytes_def
    by (intro list.inject [THEN iffD2] conjI u8_eqI refl) (auto simp: bit_simps dest: bit_imp_le_length)
  ultimately show ?thesis
    using d e(2) emk(2) assms(1)
    by (simp add: srtcp_packet_get_ekt_spi_def srtcp_packet_get_ekt_roc_def srtcp_packet_get_emk_location_def
        load16_def load32_def EKT_SPI_LEN_def EKT_OCTETS_AFTER_ROC_def EKT_OCTETS_AFTER_BASE_TAG_def
        ekt_octets_after_base_tag_def EKT_OCTETS_AFTER_EMK_def le16_bytes_def)
qed

theorem ekt_write_data_readers_witness:
  "let k = \<lparr>round_key = [], num_rounds = 0\<rparr>;
       s = \<lparr>ekt_data = \<lparr>ed_spi = 0x0102, ekt_cipher_type = 1, ekt_enc_key = k, ekt_dec_key = k\<rparr>, ekt_isn = 0,
            encrypted_master_key = replicate 16 7 @ replicate 48 0\<rparr>
   in \<exists>pkt'. ekt_write_data (Some s) (replicate 50 0) 8 10 18 0x30405 = Some (pkt', 50) \<and>
        ekt_octets_after_base_tag (Some s) = 24 \<and>
        map_option le32_bytes (srtcp_packet_get_ekt_roc pkt' 50) = Some [4, 5, 1, 2]"
proof -
  let ?k = "\<lparr>round_key = [], num_rounds = 0\<rparr>"
  let ?s = "\<lparr>ekt_data = \<lparr>ed_spi = 0x0102, ekt_cipher_type = 1, ekt_enc_key = ?k, ekt_dec_key = ?k\<rparr>, ekt_isn = 0,
            encrypted_master_key = replicate 16 7 @ replicate 48 0\<rparr>"
  obtain pkt' where w: "ekt_write_data (Some ?s) (replicate 50 0) 8 10 18 0x30405 = Some (pkt', 50)"
    by (simp add: ekt_write_data_def ekt_octets_after_base_tag_def EKT_CIPHER_AES_128_ECB_def EKT_OCTETS_AFTER_EMK_def
        mem_slice_def store_def Let_def)
  have c: "ekt_cipher_type (ekt_data ?s) = EKT_CIPHER_AES_128_ECB" "(0 :: int) < 10" "(18 :: int) = 8 + 10"
    by (simp_all add: EKT_CIPHER_AES_128_ECB_def)
  have o: "le16_bytes (bswap16 (ucast (0x30405 :: u64))) @ le16_bytes (bswap16 (ed_spi (ekt_data ?s))) = [4, 5, 1, 2]"
    unfolding ekt_stream_ctx_t.select_convs ekt_data_t.select_convs by code_simp
  note r = ekt_write_data_readers [OF c w]
  show ?thesis unfolding Let_def
    by (intro exI [of _ pkt'] conjI w r [THEN conjunct2, THEN conjunct1]
        r [THEN conjunct2, THEN conjunct2, THEN conjunct2, THEN conjunct1, unfolded o])
qed

end
