(* ===== verification/Srtp_Stream.thy ===== *)
theory Srtp_Stream
  imports Srtp_Policy Ekt Key_Limit Replay_Db Crypto_Kernel
begin

text \<open>
  The stream part of \<^verbatim>\<open>srtp/srtp/srtp.c\<close> with \<^verbatim>\<open>srtp_priv.h\<close>: allocation, release and cloning of streams,
  key derivation, initialisation. Ciphers, authentication functions and key limits are objects that a
  stream shares with the template it was cloned from, so they live in a store and a stream holds their
  addresses. A stream itself is referred to by the list or the template pointer of its session only and is
  kept there by value.
\<close>

section \<open>Data\<close>

datatype direction_t = dir_unknown | dir_srtp_sender | dir_srtp_receiver

datatype ssrc_type_t = ssrc_undefined | ssrc_specific | ssrc_any_inbound | ssrc_any_outbound

datatype srtp_event_t = event_ssrc_collision | event_key_soft_limit | event_key_hard_limit | event_packet_index_limit

text \<open>
  The list of policies that the caller links by \<^verbatim>\<open>next\<close> is a list of the model; \<open>p_key\<close> is the memory from
  the key pointer on.
\<close>

record srtp_policy_t =
  p_ssrc_type :: ssrc_type_t
  p_ssrc_value :: u32
  p_rtp :: crypto_policy_t
  p_rtcp :: crypto_policy_t
  p_key :: "octets option"
  p_ekt :: "ekt_policy_ctx_t option"
  p_window_size :: u32
  p_allow_repeat_tx :: int

text \<open>\<open>ssrc\<close> is in network byte order, as it is loaded from a packet.\<close>

record srtp_stream_ctx_t =
  ssrc :: u32
  rtp_cipher :: nat
  rtp_auth :: nat
  rtp_rdbx :: rdbx_t
  rtp_services :: sec_serv_t
  rtcp_cipher :: nat
  rtcp_auth :: nat
  rtcp_rdb :: rdb_t
  rtcp_services :: sec_serv_t
  limit :: "nat option"
  direction :: direction_t
  allow_repeat_tx :: int
  ekt :: "ekt_stream_ctx_t option"

text \<open>
  The state around the library: the kernel, the store of shared objects, the results of the allocations
  by the number of the call (which is also the address of the object), the uninitialised arrays on the
  stacks of the functions, and the events that reached an installed handler.
\<close>

record srtp_env = kernel_env +
  cipher_heap :: "nat \<rightharpoonup> cipher_t"
  auth_heap :: "nat \<rightharpoonup> auth_t"
  limit_heap :: "nat \<rightharpoonup> key_limit_ctx_t"
  stream_mem :: "nat \<Rightarrow> srtp_stream_ctx_t option"
  limit_mem :: "nat \<Rightarrow> key_limit_ctx_t option"
  vector_mem :: "nat \<Rightarrow> u32 \<Rightarrow> u32 list option"
  session_mem :: "nat \<Rightarrow> bool"
  stack_key :: octets
  stack_tag :: octets
  stack_policy :: srtp_policy_t
  stack_exp_key :: aes_expanded_key_t
  event_handler :: bool
  event_log :: "(u32 \<times> srtp_event_t) list"

definition bump :: "srtp_env \<Rightarrow> srtp_env" where
  "bump e = e\<lparr>env_allocs := env_allocs e + 1\<rparr>"

section \<open>Objects in the store\<close>

definition alloc_cipher :: "crypto_policy_t \<Rightarrow> srtp_env \<Rightarrow> err_status_t \<times> nat option \<times> srtp_env" where
  "alloc_cipher p e =
     (case crypto_kernel_alloc_cipher (cp_cipher_type p) (cp_cipher_key_len p) e of
        (st, None, e') \<Rightarrow> (st, None, e')
      | (st, Some c, e') \<Rightarrow> (st, Some (env_allocs e), e'\<lparr>cipher_heap := (cipher_heap e')(env_allocs e \<mapsto> c)\<rparr>))"

definition alloc_auth :: "crypto_policy_t \<Rightarrow> srtp_env \<Rightarrow> err_status_t \<times> nat option \<times> srtp_env" where
  "alloc_auth p e =
     (case crypto_kernel_alloc_auth (cp_auth_type p) (cp_auth_key_len p) (cp_auth_tag_len p) e of
        (st, None, e') \<Rightarrow> (st, None, e')
      | (st, Some a, e') \<Rightarrow> (st, Some (env_allocs e), e'\<lparr>auth_heap := (auth_heap e')(env_allocs e \<mapsto> a)\<rparr>))"

definition alloc_limit :: "srtp_env \<Rightarrow> nat option \<times> srtp_env" where
  "alloc_limit e =
     (case limit_mem e (env_allocs e) of None \<Rightarrow> (None, bump e)
      | Some l \<Rightarrow> (Some (env_allocs e), bump (e\<lparr>limit_heap := (limit_heap e)(env_allocs e \<mapsto> l)\<rparr>)))"

definition dealloc_cipher :: "nat \<Rightarrow> srtp_env \<Rightarrow> (err_status_t \<times> srtp_env) option" where
  "dealloc_cipher p e = do {
     c \<leftarrow> cipher_heap e p;
     Some (map_prod id (\<lambda>e. e\<lparr>cipher_heap := (cipher_heap e)(p := None)\<rparr>) (env_dealloc c e))
   }"

definition dealloc_auth :: "nat \<Rightarrow> srtp_env \<Rightarrow> (err_status_t \<times> srtp_env) option" where
  "dealloc_auth p e = do {
     a \<leftarrow> auth_heap e p;
     Some (map_prod id (\<lambda>refs. e\<lparr>env_auth_refs := refs, auth_heap := (auth_heap e)(p := None)\<rparr>)
       (auth_dealloc (env_auth_refs e) a))
   }"

definition free_limit :: "nat option \<Rightarrow> srtp_env \<Rightarrow> srtp_env" where
  "free_limit p e = (case p of None \<Rightarrow> e | Some a \<Rightarrow> e\<lparr>limit_heap := (limit_heap e)(a := None)\<rparr>)"

section \<open>Allocation, release, cloning\<close>

definition srtp_stream_alloc :: "srtp_policy_t \<Rightarrow> srtp_env \<Rightarrow> (err_status_t \<times> srtp_stream_ctx_t option \<times> srtp_env) option" where
  "srtp_stream_alloc p e =
     (case stream_mem e (env_allocs e) of None \<Rightarrow> Some (err_status_alloc_fail, None, bump e)
      | Some str \<Rightarrow>
     (case alloc_cipher (p_rtp p) (bump e) of (stat, None, e) \<Rightarrow> Some (stat, None, e)
      | (_, Some rc, e) \<Rightarrow>
     (case alloc_auth (p_rtp p) e of
        (stat, None, e) \<Rightarrow> do { (_, e) \<leftarrow> dealloc_cipher rc e; Some (stat, None, e) }
      | (_, Some ra, e) \<Rightarrow>
     (case alloc_limit e of
        (None, e) \<Rightarrow> do { (_, e) \<leftarrow> dealloc_auth ra e; (_, e) \<leftarrow> dealloc_cipher rc e; Some (err_status_alloc_fail, None, e) }
      | (Some l, e) \<Rightarrow>
     (case alloc_cipher (p_rtcp p) e of
        (stat, None, e) \<Rightarrow> do { (_, e) \<leftarrow> dealloc_auth ra e; (_, e) \<leftarrow> dealloc_cipher rc e; Some (stat, None, free_limit (Some l) e) }
      | (_, Some rcc, e) \<Rightarrow>
     (case alloc_auth (p_rtcp p) e of
        (stat, None, e) \<Rightarrow> do { (_, e) \<leftarrow> dealloc_cipher rcc e; (_, e) \<leftarrow> dealloc_auth ra e; (_, e) \<leftarrow> dealloc_cipher rc e;
          Some (stat, None, free_limit (Some l) e) }
      | (_, Some rca, e) \<Rightarrow>
     (case ekt_alloc (p_ekt p) of (stat, k) \<Rightarrow>
        if stat \<noteq> err_status_ok then do { (_, e) \<leftarrow> dealloc_auth rca e; (_, e) \<leftarrow> dealloc_cipher rcc e;
          (_, e) \<leftarrow> dealloc_auth ra e; (_, e) \<leftarrow> dealloc_cipher rc e; Some (stat, None, free_limit (Some l) e) }
        else Some (err_status_ok,
          Some (str\<lparr>rtp_cipher := rc, rtp_auth := ra, limit := Some l, rtcp_cipher := rcc, rtcp_auth := rca, ekt := k\<rparr>),
          e))))))))"

text \<open>\<open>tmpl\<close> is the template of the session; an object the stream has from it is not released.\<close>

definition unless_shared :: "srtp_stream_ctx_t option \<Rightarrow> (srtp_stream_ctx_t \<Rightarrow> 'p) \<Rightarrow> srtp_stream_ctx_t \<Rightarrow>
    (srtp_env \<Rightarrow> (err_status_t \<times> srtp_env) option) \<Rightarrow> srtp_env \<Rightarrow> (err_status_t \<times> srtp_env) option" where
  "unless_shared tmpl ptr stream release e =
     (if (case tmpl of None \<Rightarrow> False | Some t \<Rightarrow> ptr stream = ptr t) then Some (err_status_ok, e) else release e)"

definition srtp_stream_dealloc :: "srtp_stream_ctx_t option \<Rightarrow> srtp_stream_ctx_t \<Rightarrow> srtp_env \<Rightarrow> (err_status_t \<times> srtp_env) option" where
  "srtp_stream_dealloc tmpl stream =
     run_steps
       [unless_shared tmpl rtp_cipher stream (dealloc_cipher (rtp_cipher stream)),
        unless_shared tmpl rtp_auth stream (dealloc_auth (rtp_auth stream)),
        unless_shared tmpl limit stream (\<lambda>e. Some (err_status_ok, free_limit (limit stream) e)),
        unless_shared tmpl rtcp_cipher stream (dealloc_cipher (rtcp_cipher stream)),
        unless_shared tmpl rtcp_auth stream (dealloc_auth (rtcp_auth stream)),
        \<lambda>e. Some (fst (rdbx_dealloc (rtp_rdbx stream)), e)]"

definition srtp_stream_clone :: "srtp_stream_ctx_t \<Rightarrow> u32 \<Rightarrow> srtp_env \<Rightarrow> err_status_t \<times> srtp_stream_ctx_t option \<times> srtp_env" where
  "srtp_stream_clone stream_template s e =
     (case stream_mem e (env_allocs e) of None \<Rightarrow> (err_status_alloc_fail, None, bump e)
      | Some str \<Rightarrow>
        (case key_limit_clone (limit stream_template) (limit str) of (status, l) \<Rightarrow>
           if status \<noteq> err_status_ok then (status, None, bump e)
           else (case rdbx_init (vector_mem e (env_allocs e + 1)) (rtp_rdbx str) (rdbx_get_window_size (rtp_rdbx stream_template)) of
             (status, rdbx) \<Rightarrow>
               if status \<noteq> err_status_ok then (status, None, bump (bump e))
               else (err_status_ok,
                 Some \<lparr>ssrc = s, rtp_cipher = rtp_cipher stream_template, rtp_auth = rtp_auth stream_template,
                   rtp_rdbx = rdbx, rtp_services = rtp_services stream_template,
                   rtcp_cipher = rtcp_cipher stream_template, rtcp_auth = rtcp_auth stream_template,
                   rtcp_rdb = snd rdb_init, rtcp_services = rtcp_services stream_template, limit = l,
                   direction = direction stream_template, allow_repeat_tx = allow_repeat_tx stream_template,
                   ekt = ekt stream_template\<rparr>,
                 bump (bump e)))))"

section \<open>Key derivation\<close>

definition label_rtp_encryption :: u8 where "label_rtp_encryption = 0x00"
definition label_rtp_msg_auth :: u8 where "label_rtp_msg_auth = 0x01"
definition label_rtp_salt :: u8 where "label_rtp_salt = 0x02"
definition label_rtcp_encryption :: u8 where "label_rtcp_encryption = 0x03"
definition label_rtcp_msg_auth :: u8 where "label_rtcp_msg_auth = 0x04"
definition label_rtcp_salt :: u8 where "label_rtcp_salt = 0x05"

text \<open>The context is the cipher; it is local to the caller and not shared.\<close>

definition srtp_kdf_init :: "u32 \<Rightarrow> octets \<Rightarrow> int \<Rightarrow> srtp_env \<Rightarrow> (err_status_t \<times> cipher_t option \<times> srtp_env) option" where
  "srtp_kdf_init cipher_id key len e =
     (case crypto_kernel_alloc_cipher cipher_id len e of
        (stat, None, e) \<Rightarrow> Some (stat, None, e)
      | (_, Some c, e) \<Rightarrow> do {
          (stat, c) \<leftarrow> cipher_init c key direction_encrypt;
          if stat \<noteq> err_status_ok then Some (stat, None, snd (env_dealloc c e)) else Some (err_status_ok, Some c, e)
        })"

definition kdf_nonce :: "u8 \<Rightarrow> v128_t" where
  "kdf_nonce label = [0, le32 0 0 0 label, 0, 0]"

definition srtp_kdf_generate :: "cipher_t \<Rightarrow> u8 \<Rightarrow> octets \<Rightarrow> nat \<Rightarrow> (err_status_t \<times> cipher_t \<times> octets) option" where
  "srtp_kdf_generate c label key len =
     (case cipher_set_iv c (kdf_nonce label) of (status, c) \<Rightarrow>
        if status \<noteq> err_status_ok then Some (status, c, key)
        else do {
          key \<leftarrow> octet_string_set_to_zero key len;
          (status, c, key, _) \<leftarrow> cipher_encrypt c key len;
          Some (status, c, key)
        })"

definition srtp_kdf_clear :: "cipher_t \<Rightarrow> srtp_env \<Rightarrow> err_status_t \<times> srtp_env" where
  "srtp_kdf_clear c e = env_dealloc c e"

definition base_key_length :: "cipher_type_t \<Rightarrow> int \<Rightarrow> int" where
  "base_key_length ct key_length =
     (if cipher_type_id ct \<noteq> AES_ICM then key_length
      else if key_length > 16 \<and> key_length < 30 then 16 else key_length - 14)"

text \<open>
  The steps of \<^verbatim>\<open>srtp_stream_init_keys\<close> on its locals (the derivation context and \<^verbatim>\<open>tmp_key\<close>) and the
  store. A length is an \<^verbatim>\<open>int\<close> that \<^verbatim>\<open>srtp_kdf_generate\<close> takes as unsigned.
\<close>

type_synonym key_state = "cipher_t \<times> octets \<times> srtp_env"

definition generate_step :: "u8 \<Rightarrow> int \<Rightarrow> int \<Rightarrow> key_state \<Rightarrow> (err_status_t \<times> key_state) option" where
  "generate_step label off len = (\<lambda>(kdf, tmp_key, e). do {
     buf \<leftarrow> mem_from tmp_key off;
     (stat, kdf, buf) \<leftarrow> srtp_kdf_generate kdf label buf (unat (word_of_int len :: u32));
     Some (stat, kdf, put_from tmp_key off buf, e)
   })"

definition cipher_init_step :: "nat \<Rightarrow> key_state \<Rightarrow> (err_status_t \<times> key_state) option" where
  "cipher_init_step p = (\<lambda>(kdf, tmp_key, e). do {
     c \<leftarrow> cipher_heap e p;
     (stat, c) \<leftarrow> cipher_init c tmp_key direction_any;
     Some (stat, kdf, tmp_key, e\<lparr>cipher_heap := (cipher_heap e)(p \<mapsto> c)\<rparr>)
   })"

definition auth_generate_step :: "u8 \<Rightarrow> nat \<Rightarrow> key_state \<Rightarrow> (err_status_t \<times> key_state) option" where
  "auth_generate_step label p = (\<lambda>(kdf, tmp_key, e). do {
     a \<leftarrow> auth_heap e p;
     generate_step label 0 (auth_get_key_length a) (kdf, tmp_key, e)
   })"

definition auth_init_step :: "nat \<Rightarrow> key_state \<Rightarrow> (err_status_t \<times> key_state) option" where
  "auth_init_step p = (\<lambda>(kdf, tmp_key, e). do {
     a \<leftarrow> auth_heap e p;
     (stat, a) \<leftarrow> auth_init a tmp_key;
     Some (stat, kdf, tmp_key, e\<lparr>auth_heap := (auth_heap e)(p \<mapsto> a)\<rparr>)
   })"

definition init_keys_steps :: "u8 \<Rightarrow> u8 \<Rightarrow> u8 \<Rightarrow> nat \<Rightarrow> nat \<Rightarrow> int \<Rightarrow> int \<Rightarrow> (key_state \<Rightarrow> (err_status_t \<times> key_state) option) list" where
  "init_keys_steps label_encryption label_salt label_msg_auth c a base_key_len salt_len =
     [generate_step label_encryption 0 base_key_len,
      \<lambda>s. if salt_len > 0 then generate_step label_salt base_key_len salt_len s else Some (err_status_ok, s),
      cipher_init_step c,
      auth_generate_step label_msg_auth a,
      auth_init_step a]"

text \<open>
  Every failure is reported as \<^verbatim>\<open>init_fail\<close>; behind \<^verbatim>\<open>srtp_kdf_init\<close> it leaves the derivation cipher
  allocated. The clearing of \<^verbatim>\<open>tmp_key\<close> on each path has no effect on what the caller sees.
\<close>

definition srtp_stream_init_keys :: "srtp_stream_ctx_t \<Rightarrow> octets \<Rightarrow> srtp_env \<Rightarrow> (err_status_t \<times> srtp_env) option" where
  "srtp_stream_init_keys srtp key e = do {
     rc \<leftarrow> cipher_heap e (rtp_cipher srtp);
     let rtp_keylen = cipher_get_key_length rc;
     let kdf_keylen = (if rtp_keylen > 30 then rtp_keylen else 30);
     cc \<leftarrow> cipher_heap e (rtcp_cipher srtp);
     let rtcp_keylen = cipher_get_key_length cc;
     let kdf_keylen = (if rtcp_keylen > kdf_keylen then rtcp_keylen else kdf_keylen);
     (stat, kdf, e) \<leftarrow> srtp_kdf_init AES_ICM key kdf_keylen e;
     case kdf of None \<Rightarrow> Some (err_status_init_fail, e)
     | Some kdf \<Rightarrow> do {
         let rtp_base_key_len = base_key_length (cipher_type_of rc) rtp_keylen;
         let rtcp_base_key_len = base_key_length (cipher_type_of cc) rtcp_keylen;
         (stat, kdf, _, e) \<leftarrow> run_steps
           (init_keys_steps label_rtp_encryption label_rtp_salt label_rtp_msg_auth (rtp_cipher srtp) (rtp_auth srtp)
              rtp_base_key_len (rtp_keylen - rtp_base_key_len) @
            init_keys_steps label_rtcp_encryption label_rtcp_salt label_rtcp_msg_auth (rtcp_cipher srtp) (rtcp_auth srtp)
              rtcp_base_key_len (rtcp_keylen - rtcp_base_key_len))
           (kdf, stack_key e, e);
         if stat \<noteq> err_status_ok then Some (err_status_init_fail, e)
         else case srtp_kdf_clear kdf e of (stat, e) \<Rightarrow>
           Some (if stat \<noteq> err_status_ok then err_status_init_fail else err_status_ok, e)
       }
   }"

section \<open>Initialisation\<close>

definition srtp_stream_init :: "srtp_stream_ctx_t \<Rightarrow> srtp_policy_t \<Rightarrow> srtp_env \<Rightarrow> (err_status_t \<times> srtp_stream_ctx_t \<times> srtp_env) option" where
  "srtp_stream_init srtp p e =
     (if p_window_size p \<noteq> 0 \<and> (p_window_size p < 64 \<or> p_window_size p \<ge> 0x8000)
      then Some (err_status_bad_param, srtp, e)
      else (case rdbx_init (vector_mem e (env_allocs e)) (rtp_rdbx srtp) (if p_window_size p \<noteq> 0 then p_window_size p else 128) of
        (err, rdbx) \<Rightarrow>
          if err \<noteq> err_status_ok then Some (err, srtp\<lparr>rtp_rdbx := rdbx\<rparr>, bump e)
          else do {
            la \<leftarrow> limit srtp;
            l \<leftarrow> limit_heap e la;
            let e = bump (e\<lparr>limit_heap := (limit_heap e)(la \<mapsto> snd (key_limit_set l 0xffffffffffff))\<rparr>);
            let srtp = srtp\<lparr>rtp_rdbx := rdbx, ssrc := bswap32 (p_ssrc_value p), rtp_services := cp_sec_serv (p_rtp p),
              rtcp_services := cp_sec_serv (p_rtcp p), direction := dir_unknown, rtcp_rdb := snd rdb_init\<rparr>;
            if p_allow_repeat_tx p \<noteq> 0 \<and> p_allow_repeat_tx p \<noteq> 1
            then Some (err_status_bad_param, srtp\<lparr>rtp_rdbx := snd (rdbx_dealloc rdbx)\<rparr>, e)
            else do {
              let srtp = srtp\<lparr>allow_repeat_tx := p_allow_repeat_tx p\<rparr>;
              key \<leftarrow> p_key p;
              (err, e) \<leftarrow> srtp_stream_init_keys srtp key e;
              if err \<noteq> err_status_ok then Some (err, srtp\<lparr>rtp_rdbx := snd (rdbx_dealloc rdbx)\<rparr>, e)
              else case ekt_stream_init_from_policy (ekt srtp) (p_ekt p) of err \<Rightarrow>
                if err \<noteq> err_status_ok then Some (err, srtp\<lparr>rtp_rdbx := snd (rdbx_dealloc rdbx)\<rparr>, e)
                else Some (err_status_ok, srtp, e)
            }
          }))"

text \<open>
  \<^verbatim>\<open>srtp_stream_init_from_ekt\<close> (\<^verbatim>\<open>ekt.c\<close>) decrypts the master key in the packet, with the expanded key
  read as a raw one, and never uses it; the policy it initialises the stream with is an uninitialised
  variable.
\<close>

definition srtp_stream_init_from_ekt :: "srtp_stream_ctx_t \<Rightarrow> octets \<Rightarrow> int \<Rightarrow> srtp_env \<Rightarrow>
    (err_status_t \<times> srtp_stream_ctx_t \<times> octets \<times> srtp_env) option" where
  "srtp_stream_init_from_ekt stream pkt pkt_octet_len e = do {
     k \<leftarrow> ekt stream;
     spi \<leftarrow> srtcp_packet_get_ekt_spi pkt pkt_octet_len;
     if ed_spi (ekt_data k) \<noteq> spi then Some (err_status_no_ctx, stream, pkt, e)
     else if ekt_cipher_type (ekt_data k) \<noteq> EKT_CIPHER_AES_128_ECB then Some (err_status_bad_param, stream, pkt, e)
     else do {
       let master_key = srtcp_packet_get_emk_location pkt_octet_len;
       ct \<leftarrow> Option.bind (mem_slice pkt master_key 16) v128_copy_octet_string;
       pt \<leftarrow> aes_decrypt_with_raw_key (stack_exp_key e) ct (bytes_le (concat (round_key (ekt_dec_key (ekt_data k))))) 16;
       pkt \<leftarrow> store pkt master_key (bytes_le pt);
       roc \<leftarrow> srtcp_packet_get_ekt_roc pkt pkt_octet_len;
       let (err, rdbx) = rdbx_set_roc (rtp_rdbx stream) roc;
       let stream = stream\<lparr>rtp_rdbx := rdbx\<rparr>;
       if err \<noteq> err_status_ok then Some (err, stream, pkt, e)
       else do {
         (err, stream, e) \<leftarrow> srtp_stream_init stream (stack_policy e) e;
         Some (err, stream, pkt, e)
       }
     }
   }"

end
