(* ===== verification/Srtp_Session.thy ===== *)
theory Srtp_Session
  imports Srtp_Stream
begin

text \<open>
  The session part of \<^verbatim>\<open>srtp/srtp/srtp.c\<close>: a session is a list of streams, searched by SSRC, and an
  optional template that streams with unknown SSRCs are cloned from. The template is never an element of
  the list.
\<close>

section \<open>Data and lookup\<close>

record srtp_ctx_t =
  stream_list :: "srtp_stream_ctx_t list"
  stream_template :: "srtp_stream_ctx_t option"

text \<open>The pointer that the search returns, as a position in the list.\<close>

fun find_stream :: "srtp_stream_ctx_t list \<Rightarrow> u32 \<Rightarrow> nat option" where
  "find_stream [] s = None"
| "find_stream (str # strs) s = (if ssrc str = s then Some 0 else map_option Suc (find_stream strs s))"

definition srtp_get_stream :: "srtp_ctx_t \<Rightarrow> u32 \<Rightarrow> nat option" where
  "srtp_get_stream srtp s = find_stream (stream_list srtp) s"

section \<open>Events\<close>

definition srtp_handle_event :: "srtp_stream_ctx_t \<Rightarrow> srtp_event_t \<Rightarrow> srtp_env \<Rightarrow> srtp_env" where
  "srtp_handle_event strm evnt e = (if event_handler e then e\<lparr>event_log := event_log e @ [(ssrc strm, evnt)]\<rparr> else e)"

text \<open>\<open>func\<close> says whether the new handler is not a null pointer.\<close>

definition srtp_install_event_handler :: "bool \<Rightarrow> srtp_env \<Rightarrow> err_status_t \<times> srtp_env" where
  "srtp_install_event_handler func e = (err_status_ok, e\<lparr>event_handler := func\<rparr>)"

text \<open>The message that the default handler reports for an event.\<close>

definition srtp_event_reporter :: "srtp_event_t \<Rightarrow> string" where
  "srtp_event_reporter evnt =
     (case evnt of event_ssrc_collision \<Rightarrow> ''SSRC collision''
      | event_key_soft_limit \<Rightarrow> ''key usage soft limit reached''
      | event_key_hard_limit \<Rightarrow> ''key usage hard limit reached''
      | event_packet_index_limit \<Rightarrow> ''packet index limit reached'')"

section \<open>Sessions\<close>

fun dealloc_streams :: "srtp_stream_ctx_t option \<Rightarrow> srtp_stream_ctx_t list \<Rightarrow> srtp_env \<Rightarrow> (err_status_t \<times> srtp_env) option" where
  "dealloc_streams tmpl [] e = Some (err_status_ok, e)"
| "dealloc_streams tmpl (stream # next) e = do {
     (status, e) \<leftarrow> srtp_stream_dealloc tmpl stream e;
     if status \<noteq> err_status_ok then Some (status, e) else dealloc_streams tmpl next e
   }"

definition dealloc_template :: "srtp_stream_ctx_t \<Rightarrow> srtp_env \<Rightarrow> (err_status_t \<times> srtp_env) option" where
  "dealloc_template t =
     run_steps
       [dealloc_auth (rtcp_auth t),
        dealloc_cipher (rtcp_cipher t),
        \<lambda>e. Some (err_status_ok, free_limit (limit t) e),
        dealloc_cipher (rtp_cipher t),
        dealloc_auth (rtp_auth t),
        \<lambda>e. Some (fst (rdbx_dealloc (rtp_rdbx t)), e)]"

definition srtp_dealloc :: "srtp_ctx_t \<Rightarrow> srtp_env \<Rightarrow> (err_status_t \<times> srtp_env) option" where
  "srtp_dealloc session e = do {
     (status, e) \<leftarrow> dealloc_streams (stream_template session) (stream_list session) e;
     if status \<noteq> err_status_ok then Some (status, e)
     else case stream_template session of None \<Rightarrow> Some (err_status_ok, e) | Some t \<Rightarrow> dealloc_template t e
   }"

text \<open>A null pointer is \<open>None\<close>. What was allocated for the stream stays allocated on the error paths.\<close>

definition srtp_add_stream :: "srtp_ctx_t option \<Rightarrow> srtp_policy_t option \<Rightarrow> srtp_env \<Rightarrow> (err_status_t \<times> srtp_ctx_t option \<times> srtp_env) option" where
  "srtp_add_stream session policy e =
     (case (session, policy) of
        (Some ctx, Some p) \<Rightarrow>
          if p_key p = None then Some (err_status_bad_param, session, e)
          else do {
            (status, tmp, e) \<leftarrow> srtp_stream_alloc p e;
            case tmp of None \<Rightarrow> Some (status, session, e)
            | Some tmp \<Rightarrow> do {
                (status, tmp, e) \<leftarrow> srtp_stream_init tmp p e;
                if status \<noteq> err_status_ok then Some (status, session, e)
                else case p_ssrc_type p of
                  ssrc_any_outbound \<Rightarrow>
                    if stream_template ctx \<noteq> None then Some (err_status_bad_param, session, e)
                    else Some (err_status_ok, Some (ctx\<lparr>stream_template := Some (tmp\<lparr>direction := dir_srtp_sender\<rparr>)\<rparr>), e)
                | ssrc_any_inbound \<Rightarrow>
                    if stream_template ctx \<noteq> None then Some (err_status_bad_param, session, e)
                    else Some (err_status_ok, Some (ctx\<lparr>stream_template := Some (tmp\<lparr>direction := dir_srtp_receiver\<rparr>)\<rparr>), e)
                | ssrc_specific \<Rightarrow> Some (err_status_ok, Some (ctx\<lparr>stream_list := tmp # stream_list ctx\<rparr>), e)
                | ssrc_undefined \<Rightarrow> Some (err_status_bad_param, session, e)
              }
          }
      | _ \<Rightarrow> Some (err_status_bad_param, session, e))"

fun add_streams :: "srtp_ctx_t \<Rightarrow> srtp_policy_t list \<Rightarrow> srtp_env \<Rightarrow> (err_status_t \<times> srtp_ctx_t \<times> srtp_env) option" where
  "add_streams ctx [] e = Some (err_status_ok, ctx, e)"
| "add_streams ctx (p # ps) e = do {
     (stat, ctx', e) \<leftarrow> srtp_add_stream (Some ctx) (Some p) e;
     if stat \<noteq> err_status_ok then Some (stat, ctx, e)
     else case ctx' of None \<Rightarrow> None | Some ctx \<Rightarrow> add_streams ctx ps e
   }"

text \<open>
  The result \<open>None\<close> for the session stands for a handle that was not set, or that dangles because the session
  was released again.
\<close>

definition srtp_create :: "srtp_policy_t list \<Rightarrow> srtp_env \<Rightarrow> (err_status_t \<times> srtp_ctx_t option \<times> srtp_env) option" where
  "srtp_create policy e =
     (if \<not> session_mem e (env_allocs e) then Some (err_status_alloc_fail, None, bump e)
      else do {
        (stat, ctx, e) \<leftarrow> add_streams \<lparr>stream_list = [], stream_template = None\<rparr> policy (bump e);
        if stat \<noteq> err_status_ok then do { (_, e) \<leftarrow> srtp_dealloc ctx e; Some (stat, None, e) }
        else Some (err_status_ok, Some ctx, e)
      })"

definition srtp_remove_stream :: "srtp_ctx_t option \<Rightarrow> u32 \<Rightarrow> srtp_env \<Rightarrow> (err_status_t \<times> srtp_ctx_t option \<times> srtp_env) option" where
  "srtp_remove_stream session s e =
     (case session of None \<Rightarrow> Some (err_status_bad_param, None, e)
      | Some ctx \<Rightarrow>
        (case find_stream (stream_list ctx) s of None \<Rightarrow> Some (err_status_no_ctx, session, e)
         | Some i \<Rightarrow> do {
             let stream = stream_list ctx ! i;
             let ctx = ctx\<lparr>stream_list := take i (stream_list ctx) @ drop (Suc i) (stream_list ctx)\<rparr>;
             (status, e) \<leftarrow> srtp_stream_dealloc (stream_template ctx) stream e;
             Some (status, Some ctx, e)
           }))"

section \<open>Start and end of the library\<close>

definition srtp_init :: "srtp_env \<Rightarrow> (outcome \<times> srtp_env) option" where
  "srtp_init e = do {
     (out, e) \<leftarrow> crypto_kernel_init e;
     if out \<noteq> returns err_status_ok then Some (out, e)
     else case crypto_kernel_load_debug_module (Some ''srtp'') e of (status, e) \<Rightarrow> Some (returns status, e)
   }"

definition srtp_shutdown :: "srtp_env \<Rightarrow> err_status_t \<times> srtp_env" where
  "srtp_shutdown e = crypto_kernel_shutdown e"

end
