(* ===== verification/Srtp_Packet.thy ===== *)
theory Srtp_Packet
  imports Srtp_Session
begin

text \<open>
  \<^verbatim>\<open>srtp_protect\<close> and \<^verbatim>\<open>srtp_unprotect\<close> of \<^verbatim>\<open>srtp/srtp/srtp.c\<close>: RTP packets. \<open>pkt\<close> is the memory from the
  header pointer on and \<open>len\<close> the contents of \<^verbatim>\<open>*pkt_octet_len\<close>.
\<close>

section \<open>Calls on objects of the store\<close>

definition heap_set_iv :: "nat \<Rightarrow> (cipher_type_t \<Rightarrow> v128_t) \<Rightarrow> srtp_env \<Rightarrow> (err_status_t \<times> srtp_env) option" where
  "heap_set_iv p iv e = do {
     c \<leftarrow> cipher_heap e p;
     let (status, c) = cipher_set_iv c (iv (cipher_type_of c));
     Some (status, e\<lparr>cipher_heap := (cipher_heap e)(p \<mapsto> c)\<rparr>)
   }"

definition heap_crypt :: "(cipher_t \<Rightarrow> octets \<Rightarrow> nat \<Rightarrow> (err_status_t \<times> cipher_t \<times> octets \<times> nat) option) \<Rightarrow>
    nat \<Rightarrow> octets \<Rightarrow> nat \<Rightarrow> srtp_env \<Rightarrow> (err_status_t \<times> octets \<times> srtp_env) option" where
  "heap_crypt crypt p buf n e = do {
     c \<leftarrow> cipher_heap e p;
     (status, c, buf, _) \<leftarrow> crypt c buf n;
     Some (status, buf, e\<lparr>cipher_heap := (cipher_heap e)(p \<mapsto> c)\<rparr>)
   }"

definition heap_output :: "nat \<Rightarrow> octets \<Rightarrow> nat \<Rightarrow> srtp_env \<Rightarrow> (err_status_t \<times> octets \<times> srtp_env) option" where
  "heap_output p buf n e = do {
     c \<leftarrow> cipher_heap e p;
     (status, c, buf) \<leftarrow> cipher_output c buf n;
     Some (status, buf, e\<lparr>cipher_heap := (cipher_heap e)(p \<mapsto> c)\<rparr>)
   }"

definition heap_auth_start :: "nat \<Rightarrow> srtp_env \<Rightarrow> (err_status_t \<times> srtp_env) option" where
  "heap_auth_start p e = do {
     a \<leftarrow> auth_heap e p;
     let (status, a) = auth_start a;
     Some (status, e\<lparr>auth_heap := (auth_heap e)(p \<mapsto> a)\<rparr>)
   }"

definition heap_auth_update :: "nat \<Rightarrow> octets \<Rightarrow> srtp_env \<Rightarrow> (err_status_t \<times> srtp_env) option" where
  "heap_auth_update p buf e = do {
     a \<leftarrow> auth_heap e p;
     let (status, a) = auth_update a buf;
     Some (status, e\<lparr>auth_heap := (auth_heap e)(p \<mapsto> a)\<rparr>)
   }"

definition heap_auth_compute :: "nat \<Rightarrow> octets \<Rightarrow> octets \<Rightarrow> srtp_env \<Rightarrow> (err_status_t \<times> octets \<times> srtp_env) option" where
  "heap_auth_compute p buf res e = do {
     a \<leftarrow> auth_heap e p;
     (status, a, res) \<leftarrow> auth_compute a buf res;
     Some (status, res, e\<lparr>auth_heap := (auth_heap e)(p \<mapsto> a)\<rparr>)
   }"

section \<open>Shared parts\<close>

definition octets_in_rtp_header :: int where "octets_in_rtp_header = 12"
definition uint32s_in_rtp_header :: int where "uint32s_in_rtp_header = 3"
definition SRTP_MAX_TAG_LEN :: nat where "SRTP_MAX_TAG_LEN = 12"

text \<open>The fields of \<^verbatim>\<open>srtp_hdr_t\<close>: \<^verbatim>\<open>cc\<close> and \<^verbatim>\<open>x\<close> are bit fields of the first octet.\<close>

definition hdr_cc :: "u8 \<Rightarrow> int" where "hdr_cc b = uint (b AND 0x0f)"
definition hdr_x :: "u8 \<Rightarrow> bool" where "hdr_x b = bit b 4"
definition hdr_seq :: "octets \<Rightarrow> u16 option" where "hdr_seq pkt = load16 pkt 2"
definition hdr_ssrc :: "octets \<Rightarrow> u32 option" where "hdr_ssrc pkt = load32 pkt 8"

text \<open>
  The offset of \<^verbatim>\<open>enc_start\<close> in octets: behind the header, the contributing sources and the extension. The
  length word of the extension is read without a look at the length of the packet.
\<close>

definition rtp_enc_start :: "octets \<Rightarrow> int option" where
  "rtp_enc_start pkt = do {
     b \<leftarrow> load8 pkt 0;
     let enc_start = uint32s_in_rtp_header + hdr_cc b;
     if hdr_x b then do {
       len \<leftarrow> load16 pkt (4 * enc_start + 2);
       Some (4 * (enc_start + (uint (bswap16 len) + 1)))
     } else Some (4 * enc_start)
   }"

definition be64_to_cpu :: "u64 \<Rightarrow> u64" where
  "be64_to_cpu v = ucast (bswap32 (ucast (drop_bit 32 v))) OR push_bit 32 (ucast (bswap32 (ucast v)))"

text \<open>A store into \<^verbatim>\<open>v64[1]\<close> of a 128-bit block, as its two 32-bit words.\<close>

definition v64_words :: "u64 \<Rightarrow> u32 list" where
  "v64_words v = [ucast v, ucast (drop_bit 32 v)]"

definition rtp_iv :: "u32 \<Rightarrow> xtd_seq_num_t \<Rightarrow> cipher_type_t \<Rightarrow> v128_t" where
  "rtp_iv s est ct =
     (if cipher_type_id ct = AES_ICM then [0, s] @ v64_words (be64_to_cpu (push_bit 16 est))
      else [0, 0] @ v64_words (be64_to_cpu est))"

text \<open>The four octets of \<^verbatim>\<open>est\<close>, shifted and in network order, that are authenticated: the rollover counter.\<close>

definition rtp_roc :: "xtd_seq_num_t \<Rightarrow> octets" where
  "rtp_roc est = le32_bytes (ucast (be64_to_cpu (push_bit 16 est)))"

definition mark_direction :: "direction_t \<Rightarrow> srtp_stream_ctx_t \<Rightarrow> srtp_env \<Rightarrow> srtp_stream_ctx_t \<times> srtp_env" where
  "mark_direction d stream e =
     (if direction stream \<noteq> d then
        if direction stream = dir_unknown then (stream\<lparr>direction := d\<rparr>, e)
        else (stream, srtp_handle_event stream event_ssrc_collision e)
      else (stream, e))"

definition use_key :: "srtp_stream_ctx_t \<Rightarrow> srtp_env \<Rightarrow> (err_status_t \<times> srtp_env) option" where
  "use_key stream e = do {
     la \<leftarrow> limit stream;
     l \<leftarrow> limit_heap e la;
     let (ev, l) = key_limit_update l;
     let e = e\<lparr>limit_heap := (limit_heap e)(la \<mapsto> l)\<rparr>;
     case ev of key_event_normal \<Rightarrow> Some (err_status_ok, e)
     | key_event_soft_limit \<Rightarrow> Some (err_status_ok, srtp_handle_event stream event_key_soft_limit e)
     | key_event_hard_limit \<Rightarrow> Some (err_status_key_expired, srtp_handle_event stream event_key_hard_limit e)
   }"

text \<open>The length of the encrypted part, an \<^verbatim>\<open>int\<close> difference converted to unsigned.\<close>

definition enc_octets :: "int \<Rightarrow> nat" where
  "enc_octets n = unat (word_of_int n :: u32)"

text \<open>
  Encryption or decryption in place from offset \<open>off\<close>; an offset behind the packet's memory leaves the callee
  none of it.
\<close>

definition crypt_from :: "(cipher_t \<Rightarrow> octets \<Rightarrow> nat \<Rightarrow> (err_status_t \<times> cipher_t \<times> octets \<times> nat) option) \<Rightarrow>
    nat \<Rightarrow> int option \<Rightarrow> int \<Rightarrow> octets \<Rightarrow> srtp_env \<Rightarrow> (err_status_t \<times> octets \<times> srtp_env) option" where
  "crypt_from crypt p enc_start stop pkt e =
     (case enc_start of None \<Rightarrow> Some (err_status_ok, pkt, e)
      | Some off \<Rightarrow> do {
          (status, buf, e) \<leftarrow> heap_crypt crypt p (drop (nat off) pkt) (enc_octets (stop - off)) e;
          Some (status, put_from pkt off buf, e)
        })"

section \<open>Sending\<close>

definition sender_stream :: "(srtp_stream_ctx_t \<Rightarrow> srtp_stream_ctx_t) \<Rightarrow> srtp_ctx_t \<Rightarrow> u32 \<Rightarrow> srtp_env \<Rightarrow>
    err_status_t \<times> nat option \<times> srtp_ctx_t \<times> srtp_env" where
  "sender_stream prepare ctx s e =
     (case srtp_get_stream ctx s of Some i \<Rightarrow> (err_status_ok, Some i, ctx, e)
      | None \<Rightarrow> (case stream_template ctx of None \<Rightarrow> (err_status_no_ctx, None, ctx, e)
        | Some t \<Rightarrow> (case srtp_stream_clone t s e of (status, None, e) \<Rightarrow> (status, None, ctx, e)
          | (_, Some new_stream, e) \<Rightarrow>
              (err_status_ok, Some 0, ctx\<lparr>stream_list := prepare new_stream # stream_list ctx\<rparr>, e))))"

text \<open>The tail of \<^verbatim>\<open>srtp_protect\<close>: the initialisation vector, the keystream prefix, encryption, the tag.\<close>

definition protect_tag :: "srtp_stream_ctx_t \<Rightarrow> octets \<Rightarrow> octets \<Rightarrow> int \<Rightarrow> int \<Rightarrow> srtp_env \<Rightarrow> (err_status_t \<times> octets \<times> int \<times> srtp_env) option" where
  "protect_tag stream roc pkt len tag_len e = do {
     (status, e) \<leftarrow> heap_auth_start (rtp_auth stream) e;
     if status \<noteq> err_status_ok then Some (status, pkt, len, e)
     else do {
       msg \<leftarrow> mem_slice pkt 0 (nat len);
       (status, e) \<leftarrow> heap_auth_update (rtp_auth stream) msg e;
       if status \<noteq> err_status_ok then Some (status, pkt, len, e)
       else do {
         buf \<leftarrow> mem_from pkt len;
         (status, buf, e) \<leftarrow> heap_auth_compute (rtp_auth stream) roc buf e;
         if status \<noteq> err_status_ok then Some (err_status_auth_fail, put_from pkt len buf, len, e)
         else Some (err_status_ok, put_from pkt len buf, len + tag_len, e)
       }
     }
   }"

definition protect_prefix :: "srtp_stream_ctx_t \<Rightarrow> octets \<Rightarrow> int \<Rightarrow> srtp_env \<Rightarrow> (err_status_t \<times> octets \<times> srtp_env) option" where
  "protect_prefix stream pkt len e = do {
     a \<leftarrow> auth_heap e (rtp_auth stream);
     if serv_auth (rtp_services stream) \<and> auth_get_prefix_length a \<noteq> 0 then do {
       buf \<leftarrow> mem_from pkt len;
       (status, buf, e) \<leftarrow> heap_output (rtp_cipher stream) buf (enc_octets (auth_get_prefix_length a)) e;
       Some (status, put_from pkt len buf, e)
     } else Some (err_status_ok, pkt, e)
   }"

definition protect_transform :: "srtp_stream_ctx_t \<Rightarrow> int option \<Rightarrow> xtd_seq_num_t \<Rightarrow> octets \<Rightarrow> int \<Rightarrow> int \<Rightarrow> srtp_env \<Rightarrow>
    (err_status_t \<times> octets \<times> int \<times> srtp_env) option" where
  "protect_transform stream enc_start est pkt len tag_len e = do {
     s \<leftarrow> hdr_ssrc pkt;
     (status, e) \<leftarrow> heap_set_iv (rtp_cipher stream) (rtp_iv s est) e;
     if status \<noteq> err_status_ok then Some (err_status_cipher_fail, pkt, len, e)
     else do {
       (status, pkt, e) \<leftarrow> protect_prefix stream pkt len e;
       if status \<noteq> err_status_ok then Some (err_status_cipher_fail, pkt, len, e)
       else do {
         (status, pkt, e) \<leftarrow> crypt_from cipher_encrypt (rtp_cipher stream) enc_start len pkt e;
         if status \<noteq> err_status_ok then Some (err_status_cipher_fail, pkt, len, e)
         else if serv_auth (rtp_services stream) then protect_tag stream (rtp_roc est) pkt len tag_len e
         else Some (err_status_ok, pkt, len, e)
       }
     }
   }"

definition protect_stream :: "srtp_stream_ctx_t \<Rightarrow> octets \<Rightarrow> int \<Rightarrow> srtp_env \<Rightarrow>
    (err_status_t \<times> srtp_stream_ctx_t \<times> octets \<times> int \<times> srtp_env) option" where
  "protect_stream stream pkt len e = do {
     let (stream, e) = mark_direction dir_srtp_sender stream e;
     (status, e) \<leftarrow> use_key stream e;
     if status \<noteq> err_status_ok then Some (status, stream, pkt, len, e)
     else do {
       a \<leftarrow> auth_heap e (rtp_auth stream);
       enc_start \<leftarrow> (if serv_conf (rtp_services stream) then map_option Some (rtp_enc_start pkt) else Some None);
       seq \<leftarrow> hdr_seq pkt;
       let (delta, est) = rdbx_estimate_index (rtp_rdbx stream) (bswap16 seq);
       status \<leftarrow> rdbx_check (rtp_rdbx stream) delta;
       if status \<noteq> err_status_ok \<and> (status \<noteq> err_status_replay_fail \<or> allow_repeat_tx stream = 0)
       then Some (status, stream, pkt, len, e)
       else do {
         rdbx \<leftarrow> (if status \<noteq> err_status_ok then Some (rtp_rdbx stream) else map_option snd (rdbx_add_index (rtp_rdbx stream) delta));
         let stream = stream\<lparr>rtp_rdbx := rdbx\<rparr>;
         (status, pkt, len, e) \<leftarrow> protect_transform stream enc_start est pkt len (auth_get_tag_length a) e;
         Some (status, stream, pkt, len, e)
       }
     }
   }"

definition srtp_protect :: "srtp_ctx_t \<Rightarrow> octets \<Rightarrow> int \<Rightarrow> srtp_env \<Rightarrow> (err_status_t \<times> srtp_ctx_t \<times> octets \<times> int \<times> srtp_env) option" where
  "srtp_protect ctx pkt len e =
     (if len < octets_in_rtp_header then Some (err_status_bad_param, ctx, pkt, len, e)
      else do {
        s \<leftarrow> hdr_ssrc pkt;
        case sender_stream (\<lambda>n. n\<lparr>direction := dir_srtp_sender\<rparr>) ctx s e of
          (status, None, ctx, e) \<Rightarrow> Some (status, ctx, pkt, len, e)
        | (_, Some i, ctx, e) \<Rightarrow> do {
            (status, stream, pkt, len, e) \<leftarrow> protect_stream (stream_list ctx ! i) pkt len e;
            Some (status, ctx\<lparr>stream_list := (stream_list ctx)[i := stream]\<rparr>, pkt, len, e)
          }
      })"

section \<open>Receiving\<close>

text \<open>
  The check of the tag: \<open>tmp_tag\<close> is an array of 12 octets on the stack, and the status of \<^verbatim>\<open>auth_update\<close> is
  overwritten.
\<close>

definition unprotect_tag :: "srtp_stream_ctx_t \<Rightarrow> octets \<Rightarrow> octets \<Rightarrow> int \<Rightarrow> int \<Rightarrow> srtp_env \<Rightarrow> (err_status_t \<times> srtp_env) option" where
  "unprotect_tag stream roc pkt len tag_len e = do {
     a \<leftarrow> auth_heap e (rtp_auth stream);
     (status, tmp_tag, e) \<leftarrow>
       (if prefix_len a \<noteq> 0
        then heap_output (rtp_cipher stream) (take SRTP_MAX_TAG_LEN (stack_tag e)) (enc_octets (auth_get_prefix_length a)) e
        else Some (err_status_ok, take SRTP_MAX_TAG_LEN (stack_tag e), e));
     if status \<noteq> err_status_ok then Some (err_status_cipher_fail, e)
     else do {
       (status, e) \<leftarrow> heap_auth_start (rtp_auth stream) e;
       if status \<noteq> err_status_ok then Some (status, e)
       else do {
         msg \<leftarrow> mem_slice pkt 0 (nat (len - tag_len));
         (_, e) \<leftarrow> heap_auth_update (rtp_auth stream) msg e;
         (status, tmp_tag, e) \<leftarrow> heap_auth_compute (rtp_auth stream) roc tmp_tag e;
         if status \<noteq> err_status_ok then Some (err_status_auth_fail, e)
         else do {
           auth_tag \<leftarrow> mem_from pkt (len - tag_len);
           differ \<leftarrow> octet_string_is_eq tmp_tag auth_tag (nat tag_len);
           Some (if differ then err_status_auth_fail else err_status_ok, e)
         }
       }
     }
   }"

text \<open>What follows the lookup and the replay check, up to the point where the packet is accepted.\<close>

definition unprotect_stream :: "srtp_stream_ctx_t \<Rightarrow> xtd_seq_num_t \<Rightarrow> octets \<Rightarrow> int \<Rightarrow> srtp_env \<Rightarrow>
    (err_status_t \<times> srtp_stream_ctx_t \<times> octets \<times> int \<times> srtp_env) option" where
  "unprotect_stream stream est pkt len e = do {
     a \<leftarrow> auth_heap e (rtp_auth stream);
     let tag_len = auth_get_tag_length a;
     s \<leftarrow> hdr_ssrc pkt;
     (status, e) \<leftarrow> heap_set_iv (rtp_cipher stream) (rtp_iv s est) e;
     if status \<noteq> err_status_ok then Some (err_status_cipher_fail, stream, pkt, tag_len, e)
     else do {
       enc_start \<leftarrow> (if serv_conf (rtp_services stream) then map_option Some (rtp_enc_start pkt) else Some None);
       (status, e) \<leftarrow> (if serv_auth (rtp_services stream) then unprotect_tag stream (rtp_roc est) pkt len tag_len e
                      else Some (err_status_ok, e));
       if status \<noteq> err_status_ok then Some (status, stream, pkt, tag_len, e)
       else do {
         (status, e) \<leftarrow> use_key stream e;
         if status \<noteq> err_status_ok then Some (status, stream, pkt, tag_len, e)
         else do {
           (status, pkt, e) \<leftarrow> crypt_from cipher_decrypt (rtp_cipher stream) enc_start (len - tag_len) pkt e;
           if status \<noteq> err_status_ok then Some (err_status_cipher_fail, stream, pkt, tag_len, e)
           else case mark_direction dir_srtp_receiver stream e of (stream, e) \<Rightarrow>
             Some (err_status_ok, stream, pkt, tag_len, e)
         }
       }
     }
   }"

text \<open>A packet with a known SSRC: replay check, processing, and the new index.\<close>

definition unprotect_known :: "srtp_ctx_t \<Rightarrow> nat \<Rightarrow> octets \<Rightarrow> int \<Rightarrow> srtp_env \<Rightarrow>
    (err_status_t \<times> srtp_ctx_t \<times> octets \<times> int \<times> srtp_env) option" where
  "unprotect_known ctx i pkt len e = do {
     let stream = stream_list ctx ! i;
     seq \<leftarrow> hdr_seq pkt;
     let (delta, est) = rdbx_estimate_index (rtp_rdbx stream) (bswap16 seq);
     status \<leftarrow> rdbx_check (rtp_rdbx stream) delta;
     if status \<noteq> err_status_ok \<and> allow_repeat_tx stream = 0 then Some (status, ctx, pkt, len, e)
     else do {
       (status, stream, pkt, tag_len, e) \<leftarrow> unprotect_stream stream est pkt len e;
       if status \<noteq> err_status_ok then Some (status, ctx\<lparr>stream_list := (stream_list ctx)[i := stream]\<rparr>, pkt, len, e)
       else do {
         (_, rdbx) \<leftarrow> rdbx_add_index (rtp_rdbx stream) delta;
         Some (err_status_ok, ctx\<lparr>stream_list := (stream_list ctx)[i := stream\<lparr>rtp_rdbx := rdbx\<rparr>]\<rparr>, pkt, len - tag_len, e)
       }
     }
   }"

text \<open>A packet with an unknown SSRC is processed with the template, which is cloned once the packet is accepted.\<close>

definition unprotect_new :: "srtp_ctx_t \<Rightarrow> srtp_stream_ctx_t \<Rightarrow> octets \<Rightarrow> int \<Rightarrow> srtp_env \<Rightarrow>
    (err_status_t \<times> srtp_ctx_t \<times> octets \<times> int \<times> srtp_env) option" where
  "unprotect_new ctx t pkt len e = do {
     seq \<leftarrow> hdr_seq pkt;
     let est = (ucast (bswap16 seq) :: u64);
     let delta = uint (bswap16 seq);
     (status, t, pkt, tag_len, e) \<leftarrow> unprotect_stream t est pkt len e;
     let ctx = ctx\<lparr>stream_template := Some t\<rparr>;
     if status \<noteq> err_status_ok then Some (status, ctx, pkt, len, e)
     else do {
       s \<leftarrow> hdr_ssrc pkt;
       case srtp_stream_clone t s e of (status, None, e) \<Rightarrow> Some (status, ctx, pkt, len, e)
       | (_, Some new_stream, e) \<Rightarrow> do {
           (_, rdbx) \<leftarrow> rdbx_add_index (rtp_rdbx new_stream) delta;
           Some (err_status_ok, ctx\<lparr>stream_list := new_stream\<lparr>rtp_rdbx := rdbx\<rparr> # stream_list ctx\<rparr>, pkt, len - tag_len, e)
         }
     }
   }"

definition srtp_unprotect :: "srtp_ctx_t \<Rightarrow> octets \<Rightarrow> int \<Rightarrow> srtp_env \<Rightarrow> (err_status_t \<times> srtp_ctx_t \<times> octets \<times> int \<times> srtp_env) option" where
  "srtp_unprotect ctx pkt len e =
     (if len < octets_in_rtp_header then Some (err_status_bad_param, ctx, pkt, len, e)
      else do {
        s \<leftarrow> hdr_ssrc pkt;
        case srtp_get_stream ctx s of Some i \<Rightarrow> unprotect_known ctx i pkt len e
        | None \<Rightarrow> (case stream_template ctx of None \<Rightarrow> Some (err_status_no_ctx, ctx, pkt, len, e)
          | Some t \<Rightarrow> unprotect_new ctx t pkt len e)
      })"

end
