(* ===== verification/Srtp_Rtcp.thy ===== *)
theory Srtp_Rtcp
  imports Srtp_Packet
begin

text \<open>
  \<^verbatim>\<open>srtp_protect_rtcp\<close> and \<^verbatim>\<open>srtp_unprotect_rtcp\<close> of \<^verbatim>\<open>srtp/srtp/srtp.c\<close>: RTCP packets, which carry their index
  and an encryption flag in a trailer behind the packet and are always authenticated.
\<close>

definition octets_in_rtcp_header :: int where "octets_in_rtcp_header = 8"
definition SRTCP_E_BIT :: u32 where "SRTCP_E_BIT = 0x80000000"
definition SRTCP_E_BYTE_BIT :: u8 where "SRTCP_E_BYTE_BIT = 0x80"
definition SRTCP_INDEX_MASK :: u32 where "SRTCP_INDEX_MASK = 0x7fffffff"

text \<open>\<^verbatim>\<open>sizeof(srtcp_trailer_t)\<close>.\<close>

definition trailer_octets :: int where "trailer_octets = 4"

definition rtcp_ssrc :: "octets \<Rightarrow> u32 option" where "rtcp_ssrc pkt = load32 pkt 4"

definition rtcp_iv :: "u32 \<Rightarrow> u32 \<Rightarrow> cipher_type_t \<Rightarrow> v128_t" where
  "rtcp_iv s seq_num ct =
     (if cipher_type_id ct = AES_ICM then [0, s, bswap32 (drop_bit 16 seq_num), bswap32 (push_bit 16 seq_num)]
      else [0, 0, 0, bswap32 seq_num])"

section \<open>Sending\<close>

text \<open>
  The part behind the sequence number: initialisation vector, keystream prefix, encryption, tag. The prefix
  is written even when it is empty, and then clears one octet at the place of the tag. \<open>enc\<close> is the length
  of the packet before the trailer of EKT.
\<close>

definition protect_rtcp_transform :: "srtp_stream_ctx_t \<Rightarrow> u32 \<Rightarrow> int \<Rightarrow> int \<Rightarrow> octets \<Rightarrow> int \<Rightarrow> int \<Rightarrow> srtp_env \<Rightarrow>
    (err_status_t \<times> octets \<times> int \<times> srtp_env) option" where
  "protect_rtcp_transform stream seq_num enc auth_tag pkt len tag_len e = do {
     s \<leftarrow> rtcp_ssrc pkt;
     (status, e) \<leftarrow> heap_set_iv (rtcp_cipher stream) (rtcp_iv s seq_num) e;
     if status \<noteq> err_status_ok then Some (err_status_cipher_fail, pkt, len, e)
     else do {
       a \<leftarrow> auth_heap e (rtcp_auth stream);
       buf \<leftarrow> mem_from pkt auth_tag;
       (status, buf, e) \<leftarrow> heap_output (rtcp_cipher stream) buf (enc_octets (auth_get_prefix_length a)) e;
       let pkt = put_from pkt auth_tag buf;
       if status \<noteq> err_status_ok then Some (err_status_cipher_fail, pkt, len, e)
       else do {
         (status, pkt, e) \<leftarrow> crypt_from cipher_encrypt (rtcp_cipher stream)
           (if serv_conf (rtcp_services stream) then Some octets_in_rtcp_header else None) enc pkt e;
         if status \<noteq> err_status_ok then Some (err_status_cipher_fail, pkt, len, e)
         else do {
           (_, e) \<leftarrow> heap_auth_start (rtcp_auth stream) e;
           msg \<leftarrow> mem_slice pkt 0 (nat (len + trailer_octets));
           buf \<leftarrow> mem_from pkt auth_tag;
           (status, buf, e) \<leftarrow> heap_auth_compute (rtcp_auth stream) msg buf e;
           let pkt = put_from pkt auth_tag buf;
           if status \<noteq> err_status_ok then Some (err_status_auth_fail, pkt, len, e)
           else Some (err_status_ok, pkt, len + (tag_len + trailer_octets), e)
         }
       }
     }
   }"

definition protect_rtcp_stream :: "srtp_stream_ctx_t \<Rightarrow> octets \<Rightarrow> int \<Rightarrow> srtp_env \<Rightarrow>
    (err_status_t \<times> srtp_stream_ctx_t \<times> octets \<times> int \<times> srtp_env) option" where
  "protect_rtcp_stream stream pkt len e = do {
     let (stream, e) = mark_direction dir_srtp_sender stream e;
     a \<leftarrow> auth_heap e (rtcp_auth stream);
     let tag_len = auth_get_tag_length a;
     let trailer = len;
     pkt \<leftarrow> store pkt trailer (le32_bytes (if serv_conf (rtcp_services stream) then bswap32 SRTCP_E_BIT else 0));
     let auth_tag = len + trailer_octets;
     (pkt, len') \<leftarrow> ekt_write_data (ekt stream) pkt auth_tag tag_len len (rdbx_get_packet_index (rtp_rdbx stream));
     case rdb_increment (rtcp_rdb stream) of (status, rdb) \<Rightarrow> do {
       let stream = stream\<lparr>rtcp_rdb := rdb\<rparr>;
       if status \<noteq> err_status_ok then Some (status, stream, pkt, len', e)
       else do {
         let seq_num = rdb_get_value rdb;
         t \<leftarrow> load32 pkt trailer;
         pkt \<leftarrow> store pkt trailer (le32_bytes (t OR bswap32 seq_num));
         (status, pkt, len', e) \<leftarrow> protect_rtcp_transform stream seq_num len auth_tag pkt len' tag_len e;
         Some (status, stream, pkt, len', e)
       }
     }
   }"

definition srtp_protect_rtcp :: "srtp_ctx_t \<Rightarrow> octets \<Rightarrow> int \<Rightarrow> srtp_env \<Rightarrow> (err_status_t \<times> srtp_ctx_t \<times> octets \<times> int \<times> srtp_env) option" where
  "srtp_protect_rtcp ctx pkt len e = do {
     s \<leftarrow> rtcp_ssrc pkt;
     case sender_stream (\<lambda>n. n) ctx s e of
       (status, None, ctx, e) \<Rightarrow> Some (status, ctx, pkt, len, e)
     | (_, Some i, ctx, e) \<Rightarrow> do {
         (status, stream, pkt, len, e) \<leftarrow> protect_rtcp_stream (stream_list ctx ! i) pkt len e;
         Some (status, ctx\<lparr>stream_list := (stream_list ctx)[i := stream]\<rparr>, pkt, len, e)
       }
   }"

section \<open>Receiving\<close>

text \<open>
  The check of the tag. With EKT the tag is copied from in front of the EKT trailer and cleared in the packet;
  \<open>tmp_tag\<close> and \<open>tag_copy\<close> are arrays of 12 octets. The result holds the tag as \<^verbatim>\<open>auth_tag\<close> points to it.
\<close>

definition rtcp_find_tag :: "srtp_stream_ctx_t \<Rightarrow> octets \<Rightarrow> int \<Rightarrow> int \<Rightarrow> (octets \<times> octets \<times> int) option" where
  "rtcp_find_tag stream pkt len tag_len =
     (let auth_len = len - tag_len in
      if ekt stream = None then map_option (\<lambda>tag. (tag, pkt, auth_len)) (mem_from pkt auth_len)
      else do {
        let auth_tag = auth_len - ekt_octets_after_base_tag (ekt stream);
        if nat tag_len > SRTP_MAX_TAG_LEN then None
        else do {
          tag_copy \<leftarrow> mem_slice pkt auth_tag (nat tag_len);
          rest \<leftarrow> mem_from pkt auth_tag;
          rest \<leftarrow> octet_string_set_to_zero rest (nat tag_len);
          Some (tag_copy, put_from pkt auth_tag rest, auth_len + tag_len)
        }
      })"

definition unprotect_rtcp_tag :: "srtp_stream_ctx_t \<Rightarrow> octets \<Rightarrow> octets \<Rightarrow> int \<Rightarrow> int \<Rightarrow> srtp_env \<Rightarrow> (err_status_t \<times> srtp_env) option" where
  "unprotect_rtcp_tag stream auth_tag pkt auth_len tag_len e = do {
     (_, e) \<leftarrow> heap_auth_start (rtcp_auth stream) e;
     msg \<leftarrow> mem_slice pkt 0 (nat auth_len);
     (status, tmp_tag, e) \<leftarrow> heap_auth_compute (rtcp_auth stream) msg (take SRTP_MAX_TAG_LEN (stack_tag e)) e;
     if status \<noteq> err_status_ok then Some (err_status_auth_fail, e)
     else do {
       differ \<leftarrow> octet_string_is_eq tmp_tag auth_tag (nat tag_len);
       Some (if differ then err_status_auth_fail else err_status_ok, e)
     }
   }"

text \<open>A prefix, which no authentication function in use has, would be written over the tag in the packet.\<close>

definition unprotect_rtcp_prefix :: "srtp_stream_ctx_t \<Rightarrow> octets \<Rightarrow> int \<Rightarrow> srtp_env \<Rightarrow> (err_status_t \<times> octets \<times> srtp_env) option" where
  "unprotect_rtcp_prefix stream pkt auth_tag e = do {
     a \<leftarrow> auth_heap e (rtcp_auth stream);
     if auth_get_prefix_length a = 0 then Some (err_status_ok, pkt, e)
     else if ekt stream \<noteq> None then do {
       (status, _, e) \<leftarrow> heap_output (rtcp_cipher stream) (replicate SRTP_MAX_TAG_LEN 0) (enc_octets (auth_get_prefix_length a)) e;
       Some (status, pkt, e)
     } else do {
       buf \<leftarrow> mem_from pkt auth_tag;
       (status, buf, e) \<leftarrow> heap_output (rtcp_cipher stream) buf (enc_octets (auth_get_prefix_length a)) e;
       Some (status, put_from pkt auth_tag buf, e)
     }
   }"

text \<open>From the trailer to the decrypted packet; the result has the index and the new length.\<close>

definition unprotect_rtcp_stream :: "srtp_stream_ctx_t \<Rightarrow> octets \<Rightarrow> int \<Rightarrow> srtp_env \<Rightarrow>
    (err_status_t \<times> u32 \<times> octets \<times> int \<times> srtp_env) option" where
  "unprotect_rtcp_stream stream pkt len e = do {
     a \<leftarrow> auth_heap e (rtcp_auth stream);
     let tag_len = auth_get_tag_length a;
     let trailer = len - (tag_len + trailer_octets);
     b \<leftarrow> load8 pkt trailer;
     let enc_start = (if b AND SRTCP_E_BYTE_BIT \<noteq> 0 then Some octets_in_rtcp_header else None);
     (auth_tag, pkt, auth_len) \<leftarrow> rtcp_find_tag stream pkt len tag_len;
     t \<leftarrow> load32 pkt trailer;
     let seq_num = bswap32 t AND SRTCP_INDEX_MASK;
     status \<leftarrow> rdb_check (rtcp_rdb stream) seq_num;
     if status \<noteq> err_status_ok \<and> allow_repeat_tx stream = 0 then Some (status, seq_num, pkt, len, e)
     else do {
       s \<leftarrow> rtcp_ssrc pkt;
       (status, e) \<leftarrow> heap_set_iv (rtcp_cipher stream) (rtcp_iv s seq_num) e;
       if status \<noteq> err_status_ok then Some (err_status_cipher_fail, seq_num, pkt, len, e)
       else do {
         (status, e) \<leftarrow> unprotect_rtcp_tag stream auth_tag pkt auth_len tag_len e;
         if status \<noteq> err_status_ok then Some (status, seq_num, pkt, len, e)
         else do {
           (status, pkt, e) \<leftarrow> unprotect_rtcp_prefix stream pkt (len - tag_len) e;
           if status \<noteq> err_status_ok then Some (err_status_cipher_fail, seq_num, pkt, len, e)
           else do {
             (status, pkt, e) \<leftarrow> crypt_from cipher_decrypt (rtcp_cipher stream) enc_start trailer pkt e;
             if status \<noteq> err_status_ok then Some (err_status_cipher_fail, seq_num, pkt, len, e)
             else Some (err_status_ok, seq_num, pkt,
               len - (tag_len + trailer_octets) - ekt_octets_after_base_tag (ekt stream), e)
           }
         }
       }
     }
   }"

definition unprotect_rtcp_known :: "srtp_ctx_t \<Rightarrow> nat \<Rightarrow> octets \<Rightarrow> int \<Rightarrow> srtp_env \<Rightarrow>
    (err_status_t \<times> srtp_ctx_t \<times> octets \<times> int \<times> srtp_env) option" where
  "unprotect_rtcp_known ctx i pkt len e = do {
     let stream = stream_list ctx ! i;
     (status, seq_num, pkt, len, e) \<leftarrow> unprotect_rtcp_stream stream pkt len e;
     if status \<noteq> err_status_ok then Some (status, ctx, pkt, len, e)
     else case mark_direction dir_srtp_receiver stream e of (stream, e) \<Rightarrow> do {
       (_, rdb) \<leftarrow> rdb_add_index (rtcp_rdb stream) seq_num;
       Some (err_status_ok, ctx\<lparr>stream_list := (stream_list ctx)[i := stream\<lparr>rtcp_rdb := rdb\<rparr>]\<rparr>, pkt, len, e)
     }
   }"

definition unprotect_rtcp_new :: "srtp_ctx_t \<Rightarrow> srtp_stream_ctx_t \<Rightarrow> octets \<Rightarrow> int \<Rightarrow> srtp_env \<Rightarrow>
    (err_status_t \<times> srtp_ctx_t \<times> octets \<times> int \<times> srtp_env) option" where
  "unprotect_rtcp_new ctx t pkt len e = do {
     (status, t, pkt, e) \<leftarrow> (if ekt t = None then Some (err_status_ok, t, pkt, e) else srtp_stream_init_from_ekt t pkt len e);
     let ctx = ctx\<lparr>stream_template := Some t\<rparr>;
     if status \<noteq> err_status_ok then Some (status, ctx, pkt, len, e)
     else do {
       (status, seq_num, pkt, len, e) \<leftarrow> unprotect_rtcp_stream t pkt len e;
       if status \<noteq> err_status_ok then Some (status, ctx, pkt, len, e)
       else case mark_direction dir_srtp_receiver t e of (t, e) \<Rightarrow> do {
         let ctx = ctx\<lparr>stream_template := Some t\<rparr>;
         s \<leftarrow> rtcp_ssrc pkt;
         case srtp_stream_clone t s e of (status, None, e) \<Rightarrow> Some (status, ctx, pkt, len, e)
         | (_, Some new_stream, e) \<Rightarrow> do {
             (_, rdb) \<leftarrow> rdb_add_index (rtcp_rdb new_stream) seq_num;
             Some (err_status_ok, ctx\<lparr>stream_list := new_stream\<lparr>rtcp_rdb := rdb\<rparr> # stream_list ctx\<rparr>, pkt, len, e)
           }
       }
     }
   }"

definition srtp_unprotect_rtcp :: "srtp_ctx_t \<Rightarrow> octets \<Rightarrow> int \<Rightarrow> srtp_env \<Rightarrow> (err_status_t \<times> srtp_ctx_t \<times> octets \<times> int \<times> srtp_env) option" where
  "srtp_unprotect_rtcp ctx pkt len e = do {
     s \<leftarrow> rtcp_ssrc pkt;
     case srtp_get_stream ctx s of Some i \<Rightarrow> unprotect_rtcp_known ctx i pkt len e
     | None \<Rightarrow> (case stream_template ctx of None \<Rightarrow> Some (err_status_no_ctx, ctx, pkt, len, e)
       | Some t \<Rightarrow> unprotect_rtcp_new ctx t pkt len e)
   }"

end
