(* ===== verification/Srtp_Keying.thy ===== *)
theory Srtp_Keying
  imports Srtp_Stream
begin

text \<open>
  Key derivation and the set-up of a stream. The reference is the derivation of RFC 3711, section 4.3: a
  session key is a prefix of the counter mode keystream under the master key whose start is the master salt
  exored with the label.
\<close>

section \<open>The derivation function\<close>

definition rfc3711_prf :: "octets \<Rightarrow> octets \<Rightarrow> u8 \<Rightarrow> nat \<Rightarrow> octets" where
  "rfc3711_prf key salt label n = icm_stream key (salt[7 := salt ! 7 XOR label] @ [0, 0]) 0 n"

lemma length_rfc3711_prf [simp]: "length (rfc3711_prf key salt label n) = n"
  by (simp add: rfc3711_prf_def)

lemma le32_bytes_0 [simp]: "le32_bytes 0 = [0, 0, 0, 0]"
  by (simp add: le32_bytes_def)

lemma bytes_le_kdf_nonce: "bytes_le (kdf_nonce label) = replicate 7 0 @ [label] @ replicate 8 0"
  by (simp add: kdf_nonce_def eval_nat_numeral)

lemma kdf_nonce_ok: "cipher_iv_ok k (kdf_nonce label)"
  by (cases k) (simp_all add: bytes_le_kdf_nonce kdf_nonce_def)

lemma octets14_cases:
  assumes "length (s :: octets) = 14"
  obtains a b c d e f g h i j k l m n where "s = [a, b, c, d, e, f, g, h, i, j, k, l, m, n]"
  using assms by (auto simp: numeral_eq_Suc length_Suc_conv)

lemma cipher_stream_kdf:
  assumes "length salt = 14"
  shows "cipher_stream (ck_icm key (salt @ [0, 0])) (kdf_nonce label) 0 n = rfc3711_prf key salt label n"
  using assms
  by (rule octets14_cases) (simp add: rfc3711_prf_def icm_start_def bytes_le_kdf_nonce eval_nat_numeral)

lemma length_cipher_stream [simp]: "length (cipher_stream k v pos n) = n"
  by (rule cipher.length_stream)

lemma kdf_generate_rep:
  assumes "cipher_rep c k p" and "max 1 n \<le> length buf" and "n \<le> 65535"
  obtains c' rest where "srtp_kdf_generate c label buf n = Some (err_status_ok, c', cipher_stream k (kdf_nonce label) 0 n @ rest)"
    and "cipher_rep c' k (Some (kdf_nonce label, n))" and "n + length rest = length buf"
proof -
  let ?iv = "kdf_nonce label"
  let ?buf = "replicate (max 1 n) 0 @ drop (max 1 n) buf"
  obtain c1 where set: "cipher_set_iv c ?iv = (err_status_ok, c1)" and rep: "cipher_rep c1 k (Some (?iv, 0))"
    using cipher.set_iv_ok [OF assms(1) kdf_nonce_ok] .
  have zero: "octet_string_set_to_zero buf n = Some ?buf"
    using assms(2) by (simp add: octet_string_set_to_zero_def Let_def)
  have "n \<le> length ?buf" "0 + n \<le> 65535" using assms(2,3) by auto
  from cipher.encrypt_rep [OF rep kdf_nonce_ok this] obtain c' where
    enc: "cipher_encrypt c1 ?buf n = Some (err_status_ok, c', map2 (XOR) (take n ?buf) (cipher_stream k ?iv 0 n) @ drop n ?buf, n)"
    and rep': "cipher_rep c' k (Some (?iv, n))" by auto
  have "take n ?buf = replicate n 0" by (simp add: take_replicate min_def max_def)
  then have "map2 (XOR) (take n ?buf) (cipher_stream k ?iv 0 n) = cipher_stream k ?iv 0 n"
    using xor_zeros [of "cipher_stream k ?iv 0 n"] by simp
  with set zero enc have "srtp_kdf_generate c label buf n = Some (err_status_ok, c', cipher_stream k ?iv 0 n @ drop n ?buf)"
    unfolding srtp_kdf_generate_def by simp
  moreover have "n + length (drop n ?buf) = length buf" using assms(2) by simp
  ultimately show ?thesis using rep' by (intro that)
qed

section \<open>The steps\<close>

lemma unat_of_int_nat: "n < 2 ^ 32 \<Longrightarrow> unat (word_of_int (int n) :: u32) = n"
  unfolding of_int_of_nat_eq unsigned_of_nat of_nat_id by (rule take_bit_nat_eq_self) simp

lemma generate_step_rep:
  assumes "cipher_rep kdf k p" and "off + max 1 n \<le> length tmp" and "n \<le> 65535"
  obtains kdf' rest where
    "generate_step label (int off) (int n) (kdf, tmp, e) =
       Some (err_status_ok, kdf', take off tmp @ cipher_stream k (kdf_nonce label) 0 n @ rest, e)"
    and "cipher_rep kdf' k (Some (kdf_nonce label, n))" and "off + n + length rest = length tmp"
proof -
  have buf: "mem_from tmp (int off) = Some (drop off tmp)" using assms(2) by (simp add: mem_from_def)
  have "max 1 n \<le> length (drop off tmp)" using assms(2) by (simp add: max_def split: if_splits)
  from kdf_generate_rep [OF assms(1) this assms(3)] obtain kdf' rest where g:
    "srtp_kdf_generate kdf label (drop off tmp) n = Some (err_status_ok, kdf', cipher_stream k (kdf_nonce label) 0 n @ rest)"
    "cipher_rep kdf' k (Some (kdf_nonce label, n))" "n + length rest = length (drop off tmp)" .
  moreover have "unat (word_of_int (int n) :: u32) = n" by (rule unat_of_int_nat) (use assms(3) in simp)
  ultimately show ?thesis using buf assms(2)
    by (intro that [of kdf' rest]) (simp_all add: generate_step_def put_from_def)
qed

text \<open>Objects as the policies of the library allocate them: counter mode or the null cipher, HMAC or the null function.\<close>

definition cipher_fits :: "cipher_t \<Rightarrow> bool" where
  "cipher_fits c \<longleftrightarrow> cipher_well c \<and>
     (cipher_type_of c = null_cipher \<and> 0 \<le> cipher_key_len c \<and> cipher_key_len c \<le> 46 \<or>
      cipher_type_of c = aes_icm \<and> (cipher_key_len c = 30 \<or> cipher_key_len c = 46))"

definition auth_fits :: "auth_t \<Rightarrow> auth_type_t \<Rightarrow> nat \<Rightarrow> bool" where
  "auth_fits a at n \<longleftrightarrow> 0 \<le> auth_key_len a \<and> auth_key_len a \<le> 20 \<and> (at = null_auth \<longrightarrow> n = 0) \<and>
     (\<exists>mem refs refs'. auth_type_alloc at mem refs (auth_key_len a) (int n) = (err_status_ok, Some a, refs') \<and>
        (\<forall>s. mem = Some s \<longrightarrow> hmac_storage s))"

abbreviation auth_kind_of :: "auth_type_t \<Rightarrow> nat \<Rightarrow> auth_kind" where
  "auth_kind_of at n \<equiv> (case at of null_auth \<Rightarrow> kind_null | hmac \<Rightarrow> kind_hmac n)"

text \<open>The keys that a derivation key \<open>k\<close> yields for a cipher and an authentication function.\<close>

definition derived_cipher_key :: "cipher_key \<Rightarrow> u8 \<Rightarrow> u8 \<Rightarrow> cipher_type_t \<Rightarrow> int \<Rightarrow> cipher_key" where
  "derived_cipher_key k label_encryption label_salt ct key_len =
     (let base = base_key_length ct key_len in
      cipher_key_of ct key_len (cipher_stream k (kdf_nonce label_encryption) 0 (nat base) @
        cipher_stream k (kdf_nonce label_salt) 0 (nat (key_len - base))))"

definition derived_auth_key :: "cipher_key \<Rightarrow> u8 \<Rightarrow> int \<Rightarrow> octets" where
  "derived_auth_key k label_msg_auth key_len = cipher_stream k (kdf_nonce label_msg_auth) 0 (nat key_len)"

lemma base_key_length_simps [simp]:
  "base_key_length null_cipher n = n" "base_key_length aes_icm 30 = 16" "base_key_length aes_icm 46 = 32"
  by (simp_all add: base_key_length_def cipher_type_id_def AES_ICM_def)

lemma cipher_keys_rep:
  assumes kdf: "cipher_rep kdf k p" and tmp: "length tmp = 256" and c: "cipher_heap e cp = Some c" "cipher_fits c"
    and base: "base = base_key_length (cipher_type_of c) (cipher_key_len c)"
  obtains kdf' p' tmp' c' where
    "run_steps
       [generate_step le 0 base,
        \<lambda>s. if cipher_key_len c - base > 0 then generate_step ls base (cipher_key_len c - base) s else Some (err_status_ok, s),
        cipher_init_step cp] (kdf, tmp, e) =
     Some (err_status_ok, kdf', tmp', e\<lparr>cipher_heap := (cipher_heap e)(cp \<mapsto> c')\<rparr>)"
    and "cipher_rep kdf' k p'" and "length tmp' = 256"
    and "cipher_rep c' (derived_cipher_key k le ls (cipher_type_of c) (cipher_key_len c)) None"
proof -
  have fits: "cipher_type_of c = null_cipher \<and> 0 \<le> cipher_key_len c \<and> cipher_key_len c \<le> 46 \<and> base = cipher_key_len c \<or>
      cipher_type_of c = aes_icm \<and> cipher_key_len c = 30 \<and> base = 16 \<or>
      cipher_type_of c = aes_icm \<and> cipher_key_len c = 46 \<and> base = 32"
    using c(2) base by (auto simp: cipher_fits_def)
  define b l where "b = nat base" and "l = nat (cipher_key_len c - base)"
  have len: "base = int b" "b \<le> 46" "cipher_key_len c - base = int l" "l \<le> 14"
    using fits unfolding b_def l_def by auto
  let ?A = "cipher_stream k (kdf_nonce le) 0 b" and ?B = "cipher_stream k (kdf_nonce ls) 0 l"
  have "0 + max 1 b \<le> length tmp" "b \<le> 65535" using len(2) tmp by simp_all
  from generate_step_rep [OF kdf this, where label = le and e = e] obtain kdf1 r1 where g1:
    "generate_step le 0 base (kdf, tmp, e) = Some (err_status_ok, kdf1, ?A @ r1, e)"
    "cipher_rep kdf1 k (Some (kdf_nonce le, b))" "b + length r1 = 256"
    using len(1) tmp by auto
  have "\<exists>kdf2 p2 r2. (if cipher_key_len c - base > 0 then generate_step ls base (cipher_key_len c - base) (kdf1, ?A @ r1, e)
      else Some (err_status_ok, kdf1, ?A @ r1, e)) = Some (err_status_ok, kdf2, ?A @ ?B @ r2, e) \<and>
      cipher_rep kdf2 k p2 \<and> b + l + length r2 = 256"
  proof (cases "l = 0")
    case True
    then have "?B = []" by (simp flip: length_0_conv)
    with True g1(2,3) len(3) show ?thesis by auto
  next
    case False
    have "b + max 1 l \<le> length (?A @ r1)" "l \<le> 65535" using False len(4) g1(3) len(2) by simp_all
    from generate_step_rep [OF g1(2) this] obtain kdf2 r2 where
      "generate_step ls (int b) (int l) (kdf1, ?A @ r1, e) = Some (err_status_ok, kdf2, take b (?A @ r1) @ ?B @ r2, e)"
      "cipher_rep kdf2 k (Some (kdf_nonce ls, l))" "b + l + length r2 = length (?A @ r1)" .
    then show ?thesis using False len(1,3) g1(3) by auto
  qed
  then obtain kdf2 p2 r2 where g2: "(if cipher_key_len c - base > 0 then generate_step ls base (cipher_key_len c - base) (kdf1, ?A @ r1, e)
      else Some (err_status_ok, kdf1, ?A @ r1, e)) = Some (err_status_ok, kdf2, ?A @ ?B @ r2, e)"
      "cipher_rep kdf2 k p2" "b + l + length r2 = 256" by blast
  have "cipher_type_of c = null_cipher \<or> cipher_type_of c = aes_icm \<and> (cipher_key_len c = 30 \<or> cipher_key_len c = 46) \<and>
      nat (cipher_key_len c) + 2 \<le> length (?A @ ?B @ r2)"
    using fits g2(3) by auto
  from cipher_init_rep [OF this] c(2) obtain c' where ini: "cipher_init c (?A @ ?B @ r2) direction_any = Some (err_status_ok, c')"
    "cipher_rep c' (cipher_key_of (cipher_type_of c) (cipher_key_len c) (?A @ ?B @ r2)) None"
    by (metis cipher_fits_def)
  have "cipher_key_of (cipher_type_of c) (cipher_key_len c) (?A @ ?B @ r2) =
      derived_cipher_key k le ls (cipher_type_of c) (cipher_key_len c)"
    using fits len base by (auto simp: derived_cipher_key_def Let_def)
  moreover have "length (?A @ ?B @ r2) = 256" using g2(3) by simp
  ultimately show ?thesis
    using g1(1) g2(1,2) ini c(1) by (intro that [of kdf2 "?A @ ?B @ r2" c' p2]) (simp_all add: cipher_init_step_def)
qed

lemma auth_keys_rep:
  assumes kdf: "cipher_rep kdf k p" and tmp: "length tmp = 256" and a: "auth_heap e ap = Some a" "auth_fits a at n"
  obtains kdf' p' tmp' a' where
    "run_steps [auth_generate_step la ap, auth_init_step ap] (kdf, tmp, e) =
       Some (err_status_ok, kdf', tmp', e\<lparr>auth_heap := (auth_heap e)(ap \<mapsto> a')\<rparr>)"
    and "cipher_rep kdf' k p'" and "length tmp' = 256"
    and "auth_rep a' (auth_kind_of at n) (derived_auth_key k la (auth_key_len a)) None"
proof -
  define l where "l = nat (auth_key_len a)"
  have l: "auth_key_len a = int l" "l \<le> 20" using a(2) by (auto simp: auth_fits_def l_def)
  let ?A = "cipher_stream k (kdf_nonce la) 0 l"
  have "0 + max 1 l \<le> length tmp" "l \<le> 65535" using l(2) tmp by simp_all
  from generate_step_rep [OF kdf this, where label = la and e = e] obtain kdf1 r1 where g:
    "generate_step la 0 (int l) (kdf, tmp, e) = Some (err_status_ok, kdf1, ?A @ r1, e)"
    "cipher_rep kdf1 k (Some (kdf_nonce la, l))" "l + length r1 = 256"
    using tmp by auto
  obtain mem refs refs' where al: "auth_type_alloc at mem refs (auth_key_len a) (int n) = (err_status_ok, Some a, refs')"
    "\<And>s. mem = Some s \<Longrightarrow> hmac_storage s" "at = null_auth \<Longrightarrow> n = 0"
    using a(2) by (auto simp: auth_fits_def)
  have "0 \<le> auth_key_len a" "nat (auth_key_len a) \<le> length (?A @ r1)" using l g(3) by simp_all
  from auth_init_rep [OF al(1,2) this al(3)] obtain a' where
    "auth_init a (?A @ r1) = Some (err_status_ok, a')"
    "auth_rep a' (auth_kind_of at n) (take (nat (auth_key_len a)) (?A @ r1)) None" .
  with a(1) g l show ?thesis
    by (intro that [of kdf1 "?A @ r1" a'])
      (simp_all add: auth_generate_step_def auth_init_step_def auth_get_key_length_def derived_auth_key_def)
qed

lemma run_steps_append_ok:
  "run_steps xs e = Some (err_status_ok, e') \<Longrightarrow> run_steps (xs @ ys) e = run_steps ys e'"
  by (induction xs arbitrary: e) (auto simp: bind_eq_Some_conv split: if_splits)

lemma init_keys_steps_rep:
  assumes kdf: "cipher_rep kdf k p" and tmp: "length tmp = 256" and c: "cipher_heap e cp = Some c" "cipher_fits c"
    and a: "auth_heap e ap = Some a" "auth_fits a at n"
    and base: "base = base_key_length (cipher_type_of c) (cipher_key_len c)" "salt = cipher_key_len c - base"
  obtains kdf' p' tmp' c' a' where
    "run_steps (init_keys_steps le ls la cp ap base salt) (kdf, tmp, e) =
       Some (err_status_ok, kdf', tmp', e\<lparr>cipher_heap := (cipher_heap e)(cp \<mapsto> c'), auth_heap := (auth_heap e)(ap \<mapsto> a')\<rparr>)"
    and "cipher_rep kdf' k p'" and "length tmp' = 256"
    and "cipher_rep c' (derived_cipher_key k le ls (cipher_type_of c) (cipher_key_len c)) None"
    and "auth_rep a' (auth_kind_of at n) (derived_auth_key k la (auth_key_len a)) None"
proof -
  let ?cs = "[generate_step le 0 base,
      \<lambda>s. if salt > 0 then generate_step ls base salt s else Some (err_status_ok, s), cipher_init_step cp]"
  obtain kdf1 p1 tmp1 c' where 1: "run_steps ?cs (kdf, tmp, e) =
      Some (err_status_ok, kdf1, tmp1, e\<lparr>cipher_heap := (cipher_heap e)(cp \<mapsto> c')\<rparr>)"
    "cipher_rep kdf1 k p1" "length tmp1 = 256"
    "cipher_rep c' (derived_cipher_key k le ls (cipher_type_of c) (cipher_key_len c)) None"
    by (rule cipher_keys_rep [OF kdf tmp c base(1), folded base(2)])
  have a1: "auth_heap (e\<lparr>cipher_heap := (cipher_heap e)(cp \<mapsto> c')\<rparr>) ap = Some a" using a(1) by simp
  obtain kdf2 p2 tmp2 a' where 2: "run_steps [auth_generate_step la ap, auth_init_step ap]
      (kdf1, tmp1, e\<lparr>cipher_heap := (cipher_heap e)(cp \<mapsto> c')\<rparr>) =
      Some (err_status_ok, kdf2, tmp2, e\<lparr>cipher_heap := (cipher_heap e)(cp \<mapsto> c'), auth_heap := (auth_heap e)(ap \<mapsto> a')\<rparr>)"
    "cipher_rep kdf2 k p2" "length tmp2 = 256" "auth_rep a' (auth_kind_of at n) (derived_auth_key k la (auth_key_len a)) None"
    by (rule auth_keys_rep [OF 1(2,3) a1 a(2)]) simp
  have "init_keys_steps le ls la cp ap base salt = ?cs @ [auth_generate_step la ap, auth_init_step ap]"
    by (simp add: init_keys_steps_def)
  with run_steps_append_ok [OF 1(1)] 2 1(4) show ?thesis by (intro that) simp_all
qed

section \<open>A state in which calls succeed\<close>

text \<open>
  The kernel is started and the allocator has memory. \<open>12\<close> and \<open>256\<close> are the sizes of the arrays on the
  stack.
\<close>

definition env_ready :: "srtp_env \<Rightarrow> bool" where
  "env_ready e \<longleftrightarrow> kernel_state e = crypto_kernel_state_secure \<and>
     (\<forall>ct. crypto_kernel_get_cipher_type (cipher_type_id ct) e = Some ct) \<and>
     (\<forall>at. crypto_kernel_get_auth_type (auth_type_id at) e = Some at) \<and>
     (\<forall>n. \<exists>m. env_cipher_mem e n = Some m \<and> cipher_storage m) \<and>
     (\<forall>n. \<exists>s. env_auth_mem e n = Some s \<and> hmac_storage s) \<and>
     (\<forall>n. stream_mem e n \<noteq> None) \<and> (\<forall>n. limit_mem e n \<noteq> None) \<and> (\<forall>n. session_mem e n) \<and>
     (\<forall>n l. l \<noteq> 0 \<longrightarrow> (\<exists>ws. vector_mem e n l = Some ws \<and> length ws = unat l div 4)) \<and>
     length (stack_key e) = 256 \<and> length (stack_tag e) = 12"

lemma env_readyD:
  assumes "env_ready e"
  shows "kernel_state e = crypto_kernel_state_secure" "crypto_kernel_get_cipher_type (cipher_type_id ct) e = Some ct"
    "crypto_kernel_get_auth_type (auth_type_id at) e = Some at"
    "\<exists>m. env_cipher_mem e n = Some m \<and> cipher_storage m" "\<exists>s. env_auth_mem e n = Some s \<and> hmac_storage s"
    "\<exists>str. stream_mem e n = Some str" "\<exists>lim. limit_mem e n = Some lim" "session_mem e n"
    "l \<noteq> 0 \<Longrightarrow> \<exists>ws. vector_mem e n l = Some ws \<and> length ws = unat l div 4"
    "length (stack_key e) = 256" "length (stack_tag e) = 12"
  using assms unfolding env_ready_def not_None_eq by blast+

lemma env_ready_updates [simp]:
  "env_ready (e\<lparr>env_allocs := n\<rparr>) = env_ready e" "env_ready (e\<lparr>env_cipher_refs := r\<rparr>) = env_ready e"
  "env_ready (e\<lparr>env_auth_refs := q\<rparr>) = env_ready e" "env_ready (e\<lparr>cipher_heap := h\<rparr>) = env_ready e"
  "env_ready (e\<lparr>auth_heap := g\<rparr>) = env_ready e" "env_ready (e\<lparr>limit_heap := l\<rparr>) = env_ready e"
  "env_ready (e\<lparr>event_log := x\<rparr>) = env_ready e" "env_ready (bump e) = env_ready e"
  by (simp_all add: env_ready_def crypto_kernel_get_cipher_type_def crypto_kernel_get_auth_type_def bump_def)

text \<open>The policies the library defines, and those between them.\<close>

definition policy_cipher :: "crypto_policy_t \<Rightarrow> cipher_type_t" where
  "policy_cipher p = (if cp_cipher_type p = AES_ICM then aes_icm else null_cipher)"

definition policy_auth :: "crypto_policy_t \<Rightarrow> auth_type_t" where
  "policy_auth p = (if cp_auth_type p = HMAC_SHA1 then hmac else null_auth)"

definition policy_ok :: "crypto_policy_t \<Rightarrow> bool" where
  "policy_ok p \<longleftrightarrow>
     (cp_cipher_type p = NULL_CIPHER \<and> 0 \<le> cp_cipher_key_len p \<and> cp_cipher_key_len p \<le> 30 \<or>
      cp_cipher_type p = AES_ICM \<and> (cp_cipher_key_len p = 30 \<or> cp_cipher_key_len p = 46)) \<and>
     (cp_auth_type p = NULL_AUTH \<and> cp_auth_tag_len p = 0 \<or>
      cp_auth_type p = HMAC_SHA1 \<and> 0 \<le> cp_auth_tag_len p \<and> cp_auth_tag_len p \<le> 12) \<and>
     0 \<le> cp_auth_key_len p \<and> cp_auth_key_len p \<le> 20"

lemma alloc_cipher_ok:
  assumes "env_ready e" and "policy_ok p"
  obtains c where "alloc_cipher p e = (err_status_ok, Some (env_allocs e), e\<lparr>env_allocs := env_allocs e + 1,
      env_cipher_refs := (env_cipher_refs e)(policy_cipher p := env_cipher_refs e (policy_cipher p) + 1),
      cipher_heap := (cipher_heap e)(env_allocs e \<mapsto> c)\<rparr>)"
    and "cipher_fits c" and "cipher_type_of c = policy_cipher p" and "cipher_key_len c = cp_cipher_key_len p"
proof -
  obtain m where m: "env_cipher_mem e (env_allocs e) = Some m" "cipher_storage m" using env_readyD(4) [OF assms(1)] by blast
  have k: "kernel_state e = crypto_kernel_state_secure"
    "crypto_kernel_get_cipher_type 0 e = Some null_cipher" "crypto_kernel_get_cipher_type 1 e = Some aes_icm"
    using env_readyD(1) [OF assms(1)] env_readyD(2) [OF assms(1), of null_cipher] env_readyD(2) [OF assms(1), of aes_icm]
    by (simp_all add: cipher_type_id_def)
  show ?thesis
  proof (cases "cp_cipher_type p = AES_ICM")
    case True
    then have "cp_cipher_key_len p = 30 \<or> cp_cipher_key_len p = 46" using assms(2) by (auto simp: policy_ok_def NULL_CIPHER_def AES_ICM_def)
    with True m k that [of "\<lparr>cipher_state = aes_icm_state (fst m), cipher_key_len = cp_cipher_key_len p\<rparr>"] show ?thesis
      by (cases m) (auto simp: alloc_cipher_def crypto_kernel_alloc_cipher_def env_alloc_def cipher_type_alloc_def aes_icm_alloc_def
          aes_icm_alloc_ismacryp_def AES_ICM_def policy_cipher_def cipher_fits_def cipher_well_def cipher_type_of_def cipher_storage_def)
  next
    case False
    then have "cp_cipher_type p = NULL_CIPHER" "0 \<le> cp_cipher_key_len p" "cp_cipher_key_len p \<le> 30"
      using assms(2) by (auto simp: policy_ok_def)
    with m k that [of "\<lparr>cipher_state = null_cipher_state, cipher_key_len = cp_cipher_key_len p\<rparr>"] show ?thesis
      by (cases m) (auto simp: alloc_cipher_def crypto_kernel_alloc_cipher_def env_alloc_def cipher_type_alloc_def null_cipher_alloc_def
          NULL_CIPHER_def AES_ICM_def policy_cipher_def cipher_fits_def cipher_well_def cipher_type_of_def)
  qed
qed

lemma alloc_auth_ok:
  assumes "env_ready e" and "policy_ok p"
  obtains a where "alloc_auth p e = (err_status_ok, Some (env_allocs e), e\<lparr>env_allocs := env_allocs e + 1,
      env_auth_refs := (env_auth_refs e)(policy_auth p := env_auth_refs e (policy_auth p) + 1),
      auth_heap := (auth_heap e)(env_allocs e \<mapsto> a)\<rparr>)"
    and "auth_fits a (policy_auth p) (nat (cp_auth_tag_len p))" and "auth_key_len a = cp_auth_key_len p"
proof -
  obtain s where s: "env_auth_mem e (env_allocs e) = Some s" "hmac_storage s" using env_readyD(5) [OF assms(1)] by blast
  have k: "kernel_state e = crypto_kernel_state_secure"
    "crypto_kernel_get_auth_type 0 e = Some null_auth" "crypto_kernel_get_auth_type 3 e = Some hmac"
    using env_readyD(1) [OF assms(1)] env_readyD(3) [OF assms(1), of null_auth] env_readyD(3) [OF assms(1), of hmac]
    by (simp_all add: auth_type_id_def)
  let ?al = "auth_type_alloc (policy_auth p) (Some s) (env_auth_refs e) (cp_auth_key_len p) (cp_auth_tag_len p)"
  obtain a where a: "?al = (err_status_ok, Some a, (env_auth_refs e)(policy_auth p := env_auth_refs e (policy_auth p) + 1))"
    "auth_key_len a = cp_auth_key_len p"
    using assms(2) by (auto simp: policy_ok_def policy_auth_def auth_type_alloc_def null_auth_alloc_def hmac_alloc_def
        NULL_AUTH_def HMAC_SHA1_def)
  have kt: "crypto_kernel_get_auth_type (cp_auth_type p) e = Some (policy_auth p)"
    using assms(2) k by (auto simp: policy_ok_def policy_auth_def NULL_AUTH_def HMAC_SHA1_def)
  have "int (nat (cp_auth_tag_len p)) = cp_auth_tag_len p" using assms(2) by (auto simp: policy_ok_def)
  then have "auth_type_alloc (policy_auth p) (Some s) (env_auth_refs e) (cp_auth_key_len p) (int (nat (cp_auth_tag_len p))) =
      (err_status_ok, Some a, (env_auth_refs e)(policy_auth p := env_auth_refs e (policy_auth p) + 1))"
    using a by simp
  moreover have "policy_auth p = null_auth \<longrightarrow> nat (cp_auth_tag_len p) = 0" "0 \<le> cp_auth_key_len p" "cp_auth_key_len p \<le> 20"
    using assms(2) by (auto simp: policy_ok_def policy_auth_def)
  ultimately have "auth_fits a (policy_auth p) (nat (cp_auth_tag_len p))"
    unfolding auth_fits_def a(2) using s(2) by blast
  with a kt s(1) k(1) that show ?thesis by (simp add: alloc_auth_def crypto_kernel_alloc_auth_def env_auth_alloc_def)
qed

lemma alloc_limit_ok:
  assumes "env_ready e"
  obtains l where "alloc_limit e = (Some (env_allocs e), e\<lparr>env_allocs := env_allocs e + 1, limit_heap := (limit_heap e)(env_allocs e \<mapsto> l)\<rparr>)"
proof -
  obtain lim where "limit_mem e (env_allocs e) = Some lim" using env_readyD(7) [OF assms] by blast
  then show ?thesis by (intro that [of lim]) (simp add: alloc_limit_def bump_def)
qed

definition count_up :: "'t \<Rightarrow> ('t \<Rightarrow> int) \<Rightarrow> 't \<Rightarrow> int" where
  "count_up t refs = refs(t := refs t + 1)"

text \<open>The stream lies at the next address, its five objects behind it.\<close>

lemma srtp_stream_alloc_ok:
  assumes "env_ready e" and "policy_ok (p_rtp p)" and "policy_ok (p_rtcp p)" and n: "n = env_allocs e"
  obtains str e' c1 a1 l c2 a2 where "srtp_stream_alloc p e = Some (err_status_ok, Some str, e')" "env_ready e'"
    "rtp_cipher str = n + 1" "rtp_auth str = n + 2" "limit str = Some (n + 3)" "rtcp_cipher str = n + 4" "rtcp_auth str = n + 5"
    "ekt str = None" "env_allocs e' = n + 6"
    "cipher_heap e' = (cipher_heap e)(n + 1 \<mapsto> c1, n + 4 \<mapsto> c2)" "auth_heap e' = (auth_heap e)(n + 2 \<mapsto> a1, n + 5 \<mapsto> a2)"
    "limit_heap e' = (limit_heap e)(n + 3 \<mapsto> l)"
    "env_cipher_refs e' = count_up (policy_cipher (p_rtcp p)) (count_up (policy_cipher (p_rtp p)) (env_cipher_refs e))"
    "env_auth_refs e' = count_up (policy_auth (p_rtcp p)) (count_up (policy_auth (p_rtp p)) (env_auth_refs e))"
    "cipher_fits c1" "cipher_type_of c1 = policy_cipher (p_rtp p)" "cipher_key_len c1 = cp_cipher_key_len (p_rtp p)"
    "cipher_fits c2" "cipher_type_of c2 = policy_cipher (p_rtcp p)" "cipher_key_len c2 = cp_cipher_key_len (p_rtcp p)"
    "auth_fits a1 (policy_auth (p_rtp p)) (nat (cp_auth_tag_len (p_rtp p)))" "auth_key_len a1 = cp_auth_key_len (p_rtp p)"
    "auth_fits a2 (policy_auth (p_rtcp p)) (nat (cp_auth_tag_len (p_rtcp p)))" "auth_key_len a2 = cp_auth_key_len (p_rtcp p)"
proof -
  obtain str where str: "stream_mem e (env_allocs e) = Some str" using env_readyD(6) [OF assms(1)] by blast
  have r0: "env_ready (bump e)" "env_allocs (bump e) = n + 1" using assms(1) n by (simp_all add: bump_def)
  define e1 where "e1 c = e\<lparr>env_allocs := n + 2, env_cipher_refs := count_up (policy_cipher (p_rtp p)) (env_cipher_refs e),
      cipher_heap := (cipher_heap e)(n + 1 \<mapsto> c)\<rparr>" for c
  obtain c1 where c1: "alloc_cipher (p_rtp p) (bump e) = (err_status_ok, Some (n + 1), e1 c1)" "cipher_fits c1"
    "cipher_type_of c1 = policy_cipher (p_rtp p)" "cipher_key_len c1 = cp_cipher_key_len (p_rtp p)"
    by (rule alloc_cipher_ok [OF r0(1) assms(2)]) (simp add: e1_def bump_def count_up_def n)
  have r1: "env_ready (e1 c1)" "env_allocs (e1 c1) = n + 2" using assms(1) by (simp_all add: e1_def)
  define e2 where "e2 a = (e1 c1)\<lparr>env_allocs := n + 3, env_auth_refs := count_up (policy_auth (p_rtp p)) (env_auth_refs e),
      auth_heap := (auth_heap e)(n + 2 \<mapsto> a)\<rparr>" for a
  obtain a1 where a1: "alloc_auth (p_rtp p) (e1 c1) = (err_status_ok, Some (n + 2), e2 a1)"
    "auth_fits a1 (policy_auth (p_rtp p)) (nat (cp_auth_tag_len (p_rtp p)))" "auth_key_len a1 = cp_auth_key_len (p_rtp p)"
    by (rule alloc_auth_ok [OF r1(1) assms(2)]) (simp add: e2_def e1_def count_up_def eval_nat_numeral)
  have r2: "env_ready (e2 a1)" "env_allocs (e2 a1) = n + 3" using r1(1) by (simp_all add: e2_def)
  define e3 where "e3 l = (e2 a1)\<lparr>env_allocs := n + 4, limit_heap := (limit_heap e)(n + 3 \<mapsto> l)\<rparr>" for l
  obtain l where l: "alloc_limit (e2 a1) = (Some (n + 3), e3 l)"
    by (rule alloc_limit_ok [OF r2(1)]) (simp add: e3_def e2_def e1_def eval_nat_numeral)
  have r3: "env_ready (e3 l)" "env_allocs (e3 l) = n + 4" using r2(1) by (simp_all add: e3_def)
  define e4 where "e4 c = (e3 l)\<lparr>env_allocs := n + 5,
      env_cipher_refs := count_up (policy_cipher (p_rtcp p)) (count_up (policy_cipher (p_rtp p)) (env_cipher_refs e)),
      cipher_heap := (cipher_heap e)(n + 1 \<mapsto> c1, n + 4 \<mapsto> c)\<rparr>" for c
  obtain c2 where c2: "alloc_cipher (p_rtcp p) (e3 l) = (err_status_ok, Some (n + 4), e4 c2)" "cipher_fits c2"
    "cipher_type_of c2 = policy_cipher (p_rtcp p)" "cipher_key_len c2 = cp_cipher_key_len (p_rtcp p)"
    by (rule alloc_cipher_ok [OF r3(1) assms(3)]) (simp add: e4_def e3_def e2_def e1_def count_up_def eval_nat_numeral)
  have r4: "env_ready (e4 c2)" "env_allocs (e4 c2) = n + 5" using r3(1) by (simp_all add: e4_def)
  define e5 where "e5 a = (e4 c2)\<lparr>env_allocs := n + 6,
      env_auth_refs := count_up (policy_auth (p_rtcp p)) (count_up (policy_auth (p_rtp p)) (env_auth_refs e)),
      auth_heap := (auth_heap e)(n + 2 \<mapsto> a1, n + 5 \<mapsto> a)\<rparr>" for a
  obtain a2 where a2: "alloc_auth (p_rtcp p) (e4 c2) = (err_status_ok, Some (n + 5), e5 a2)"
    "auth_fits a2 (policy_auth (p_rtcp p)) (nat (cp_auth_tag_len (p_rtcp p)))" "auth_key_len a2 = cp_auth_key_len (p_rtcp p)"
    by (rule alloc_auth_ok [OF r4(1) assms(3)]) (simp add: e5_def e4_def e3_def e2_def e1_def count_up_def eval_nat_numeral)
  have "env_ready (e5 a2)" using r4(1) by (simp add: e5_def)
  moreover have al: "srtp_stream_alloc p e = Some (err_status_ok,
      Some (str\<lparr>rtp_cipher := n + 1, rtp_auth := n + 2, limit := Some (n + 3), rtcp_cipher := n + 4, rtcp_auth := n + 5, ekt := None\<rparr>), e5 a2)"
    unfolding srtp_stream_alloc_def str option.case c1(1) prod.case a1(1) l c2(1) a2(1) ekt_alloc_null by simp
  ultimately show ?thesis using c1(2-4) a1(2,3) c2(2-4) a2(2,3)
    by (intro that [OF al]) (simp_all add: e5_def e4_def e3_def e2_def e1_def)
qed

section \<open>Initialisation of the keys\<close>

lemma kdf_init_ok:
  assumes "env_ready e" and "kl = 30 \<or> kl = 46" and "nat kl + 2 \<le> length key"
  obtains kdf where "srtp_kdf_init AES_ICM key kl e = Some (err_status_ok, Some kdf, e\<lparr>env_allocs := env_allocs e + 1,
      env_cipher_refs := count_up aes_icm (env_cipher_refs e)\<rparr>)"
    and "cipher_rep kdf (cipher_key_of aes_icm kl key) None"
proof -
  obtain m where m: "env_cipher_mem e (env_allocs e) = Some m" "cipher_storage m" using env_readyD(4) [OF assms(1)] by blast
  have k: "kernel_state e = crypto_kernel_state_secure" "crypto_kernel_get_cipher_type 1 e = Some aes_icm"
    using env_readyD(1) [OF assms(1)] env_readyD(2) [OF assms(1), of aes_icm] by (simp_all add: cipher_type_id_def)
  define c where "c = \<lparr>cipher_state = aes_icm_state (fst m), cipher_key_len = kl\<rparr>"
  have "crypto_kernel_alloc_cipher AES_ICM kl e = (err_status_ok, Some c, e\<lparr>env_allocs := env_allocs e + 1,
      env_cipher_refs := count_up aes_icm (env_cipher_refs e)\<rparr>)"
    using m(1) k assms(2) by (cases m) (auto simp: crypto_kernel_alloc_cipher_def env_alloc_def cipher_type_alloc_def
        aes_icm_alloc_def aes_icm_alloc_ismacryp_def AES_ICM_def c_def count_up_def)
  moreover have c: "cipher_type_of c = aes_icm" "cipher_key_len c = kl" "cipher_well c"
    using m(2) by (simp_all add: c_def cipher_type_of_def cipher_well_def cipher_storage_def)
  obtain kdf where "cipher_init c key direction_encrypt = Some (err_status_ok, kdf)"
    "cipher_rep kdf (cipher_key_of aes_icm kl key) None"
    using cipher_init_rep [of c key direction_encrypt] c assms(2,3) by metis
  ultimately show ?thesis by (intro that [of kdf]) (simp_all add: srtp_kdf_init_def)
qed

lemma kdf_clear_ok:
  assumes "cipher_rep kdf (cipher_key_of aes_icm kl key) p" and "env_cipher_refs e = count_up aes_icm refs"
  shows "srtp_kdf_clear kdf e = (err_status_ok, e\<lparr>env_cipher_refs := refs\<rparr>)"
proof -
  obtain s where "cipher_state kdf = aes_icm_state s" using assms(1) by (auto simp: Let_def)
  then show ?thesis using assms(2)
    by (simp add: srtp_kdf_clear_def env_dealloc_def cipher_dealloc_def aes_icm_dealloc_def count_up_def)
qed

text \<open>A cipher and an authentication function at \<open>cp\<close> and \<open>ap\<close> that hold the given keys.\<close>

definition unit_keyed :: "srtp_env \<Rightarrow> nat \<Rightarrow> nat \<Rightarrow> cipher_key \<Rightarrow> auth_kind \<Rightarrow> octets \<Rightarrow> bool" where
  "unit_keyed e cp ap ck i ak \<longleftrightarrow> (\<exists>c q. cipher_heap e cp = Some c \<and> cipher_rep c ck q) \<and>
     (\<exists>a q. auth_heap e ap = Some a \<and> auth_rep a i ak q)"

definition rtp_keyed :: "srtp_env \<Rightarrow> srtp_stream_ctx_t \<Rightarrow> crypto_policy_t \<Rightarrow> cipher_key \<Rightarrow> bool" where
  "rtp_keyed e str p k = unit_keyed e (rtp_cipher str) (rtp_auth str)
     (derived_cipher_key k label_rtp_encryption label_rtp_salt (policy_cipher p) (cp_cipher_key_len p))
     (auth_kind_of (policy_auth p) (nat (cp_auth_tag_len p))) (derived_auth_key k label_rtp_msg_auth (cp_auth_key_len p))"

definition rtcp_keyed :: "srtp_env \<Rightarrow> srtp_stream_ctx_t \<Rightarrow> crypto_policy_t \<Rightarrow> cipher_key \<Rightarrow> bool" where
  "rtcp_keyed e str p k = unit_keyed e (rtcp_cipher str) (rtcp_auth str)
     (derived_cipher_key k label_rtcp_encryption label_rtcp_salt (policy_cipher p) (cp_cipher_key_len p))
     (auth_kind_of (policy_auth p) (nat (cp_auth_tag_len p))) (derived_auth_key k label_rtcp_msg_auth (cp_auth_key_len p))"

definition master_key_len :: "crypto_policy_t \<Rightarrow> crypto_policy_t \<Rightarrow> int" where
  "master_key_len p q = max 30 (max (cp_cipher_key_len p) (cp_cipher_key_len q))"

lemma srtp_stream_init_keys_ok:
  assumes "env_ready e" and p: "policy_ok p" "policy_ok q" and key: "nat (master_key_len p q) + 2 \<le> length key"
    and c1: "cipher_heap e (rtp_cipher str) = Some c1" "cipher_fits c1" "cipher_type_of c1 = policy_cipher p"
      "cipher_key_len c1 = cp_cipher_key_len p"
    and c2: "cipher_heap e (rtcp_cipher str) = Some c2" "cipher_fits c2" "cipher_type_of c2 = policy_cipher q"
      "cipher_key_len c2 = cp_cipher_key_len q"
    and a1: "auth_heap e (rtp_auth str) = Some a1" "auth_fits a1 (policy_auth p) (nat (cp_auth_tag_len p))" "auth_key_len a1 = cp_auth_key_len p"
    and a2: "auth_heap e (rtcp_auth str) = Some a2" "auth_fits a2 (policy_auth q) (nat (cp_auth_tag_len q))" "auth_key_len a2 = cp_auth_key_len q"
    and dist: "rtp_cipher str \<noteq> rtcp_cipher str" "rtp_auth str \<noteq> rtcp_auth str"
  obtains e' c1' c2' a1' a2' where "srtp_stream_init_keys str key e = Some (err_status_ok, e')"
    and "e' = e\<lparr>env_allocs := env_allocs e + 1, cipher_heap := (cipher_heap e)(rtp_cipher str \<mapsto> c1', rtcp_cipher str \<mapsto> c2'),
      auth_heap := (auth_heap e)(rtp_auth str \<mapsto> a1', rtcp_auth str \<mapsto> a2')\<rparr>"
    and "rtp_keyed e' str p (cipher_key_of aes_icm (master_key_len p q) key)"
    and "rtcp_keyed e' str q (cipher_key_of aes_icm (master_key_len p q) key)"
proof -
  let ?kl = "master_key_len p q" and ?e0 = "e\<lparr>env_allocs := env_allocs e + 1, env_cipher_refs := count_up aes_icm (env_cipher_refs e)\<rparr>"
  let ?k = "cipher_key_of aes_icm ?kl key"
  have kl: "?kl = 30 \<or> ?kl = 46" using p by (auto simp: policy_ok_def master_key_len_def)
  obtain kdf where kdf: "srtp_kdf_init AES_ICM key ?kl e = Some (err_status_ok, Some kdf, ?e0)" "cipher_rep kdf ?k None"
    using kdf_init_ok [OF assms(1) kl key] .
  have tmp: "length (stack_key ?e0) = 256" using env_readyD(10) [OF assms(1)] by simp
  have h1: "cipher_heap ?e0 (rtp_cipher str) = Some c1" "auth_heap ?e0 (rtp_auth str) = Some a1"
    using c1(1) a1(1) by simp_all
  obtain kdf1 p1 tmp1 c1' a1' where s1: "run_steps (init_keys_steps label_rtp_encryption label_rtp_salt label_rtp_msg_auth (rtp_cipher str) (rtp_auth str)
        (base_key_length (cipher_type_of c1) (cipher_key_len c1)) (cipher_key_len c1 - base_key_length (cipher_type_of c1) (cipher_key_len c1)))
        (kdf, stack_key ?e0, ?e0) =
      Some (err_status_ok, kdf1, tmp1, ?e0\<lparr>cipher_heap := (cipher_heap ?e0)(rtp_cipher str \<mapsto> c1'), auth_heap := (auth_heap ?e0)(rtp_auth str \<mapsto> a1')\<rparr>)"
      (is "_ = Some (_, _, _, ?e1)")
    "cipher_rep kdf1 ?k p1" "length tmp1 = 256"
    "cipher_rep c1' (derived_cipher_key ?k label_rtp_encryption label_rtp_salt (cipher_type_of c1) (cipher_key_len c1)) None"
    "auth_rep a1' (auth_kind_of (policy_auth p) (nat (cp_auth_tag_len p))) (derived_auth_key ?k label_rtp_msg_auth (auth_key_len a1)) None"
    by (rule init_keys_steps_rep [OF kdf(2) tmp h1(1) c1(2) h1(2) a1(2) refl refl])
  have h2: "cipher_heap ?e1 (rtcp_cipher str) = Some c2" "auth_heap ?e1 (rtcp_auth str) = Some a2"
    using c2(1) a2(1) dist by simp_all
  obtain kdf2 p2 tmp2 c2' a2' where s2: "run_steps (init_keys_steps label_rtcp_encryption label_rtcp_salt label_rtcp_msg_auth (rtcp_cipher str) (rtcp_auth str)
        (base_key_length (cipher_type_of c2) (cipher_key_len c2)) (cipher_key_len c2 - base_key_length (cipher_type_of c2) (cipher_key_len c2)))
        (kdf1, tmp1, ?e1) =
      Some (err_status_ok, kdf2, tmp2, ?e1\<lparr>cipher_heap := (cipher_heap ?e1)(rtcp_cipher str \<mapsto> c2'), auth_heap := (auth_heap ?e1)(rtcp_auth str \<mapsto> a2')\<rparr>)"
      (is "_ = Some (_, _, _, ?e2)")
    "cipher_rep kdf2 ?k p2" "length tmp2 = 256"
    "cipher_rep c2' (derived_cipher_key ?k label_rtcp_encryption label_rtcp_salt (cipher_type_of c2) (cipher_key_len c2)) None"
    "auth_rep a2' (auth_kind_of (policy_auth q) (nat (cp_auth_tag_len q))) (derived_auth_key ?k label_rtcp_msg_auth (auth_key_len a2)) None"
    by (rule init_keys_steps_rep [OF s1(2,3) h2(1) c2(2) h2(2) a2(2) refl refl])
  define e' where "e' = e\<lparr>env_allocs := env_allocs e + 1, cipher_heap := (cipher_heap e)(rtp_cipher str \<mapsto> c1', rtcp_cipher str \<mapsto> c2'),
      auth_heap := (auth_heap e)(rtp_auth str \<mapsto> a1', rtcp_auth str \<mapsto> a2')\<rparr>"
  have fin: "srtp_kdf_clear kdf2 ?e2 = (err_status_ok, e')"
    using kdf_clear_ok [OF s2(2), of ?e2 "env_cipher_refs e"] by (simp add: e'_def)
  have maxs: "(if cp_cipher_key_len q > (if cp_cipher_key_len p > 30 then cp_cipher_key_len p else 30) then cp_cipher_key_len q
      else (if cp_cipher_key_len p > 30 then cp_cipher_key_len p else 30)) = ?kl"
    by (simp add: master_key_len_def)
  have run: "srtp_stream_init_keys str key e = Some (err_status_ok, e')"
    unfolding srtp_stream_init_keys_def c1(1) c2(1) Option.bind.bind_lunit Let_def cipher_get_key_length_def c1(4) c2(4) maxs kdf(1)
      prod.case option.case run_steps_append_ok [OF s1(1) [unfolded c1(4)]] s2(1) [unfolded c2(4)] fin
    by simp
  show ?thesis
  proof (rule that [OF run e'_def])
    show "rtp_keyed e' str p ?k" "rtcp_keyed e' str q ?k"
      using s1(4,5) s2(4,5) dist c1(3,4) c2(3,4) a1(3) a2(3)
      by (auto simp: rtp_keyed_def rtcp_keyed_def unit_keyed_def e'_def)
  qed
qed

section \<open>Initialisation of a stream\<close>

text \<open>The empty replay database with a window of \<open>k\<close> words.\<close>

definition fresh_rdbx :: "nat \<Rightarrow> rdbx_t" where
  "fresh_rdbx k = \<lparr>rdbx_index = 0, rdbx_bitmask = \<lparr>bv_length = word_of_nat (32 * k), bv_word = replicate k 0\<rparr>\<rparr>"

definition window_words :: "u32 \<Rightarrow> nat" where
  "window_words ws = (unat ws + 31) div 32"

lemma zero_vector:
  assumes "bv_wf v" and "\<And>n. \<not> bv_bit v n"
  shows "v = \<lparr>bv_length = word_of_nat (32 * length (bv_word v)), bv_word = replicate (length (bv_word v)) 0\<rparr>"
proof -
  have "bv_word v ! i = 0" if i: "i < length (bv_word v)" for i
  proof (rule u32_eqI)
    fix n :: nat assume "n < 32"
    with i assms(2) [of "32 * i + n"] show "bit (bv_word v ! i) n = bit (0 :: u32) n"
      by (simp add: bv_bit_def wbit_def)
  qed
  then have "bv_word v = replicate (length (bv_word v)) 0" by (intro nth_equalityI) simp_all
  moreover have "word_of_nat (unat (bv_length v)) = bv_length v" by simp
  then have "bv_length v = word_of_nat (32 * length (bv_word v))" using assms(1) unfolding bv_wf_def by metis
  ultimately show ?thesis by (cases v) simp
qed

lemma rdbx_init_fresh:
  assumes "env_ready e" and "ws \<noteq> 0" and "unat ws < 2 ^ 30"
  shows "rdbx_init (vector_mem e n) r ws = (err_status_ok, fresh_rdbx (window_words ws))"
proof -
  obtain v where v: "bitvector_alloc (vector_mem e n) ws = (0, v)" "bv_wf v" "\<And>n. \<not> bv_bit v n"
    "unat ws \<le> 32 * length (bv_word v)" "32 * length (bv_word v) < unat ws + 32"
    using bitvector_alloc_ok [OF assms(3,2), of "vector_mem e n"] env_readyD(9) [OF assms(1)] by blast
  have "length (bv_word v) = window_words ws" using v(4,5) by (simp add: window_words_def)
  with v(1) zero_vector [OF v(2,3)] assms(2) show ?thesis
    by (simp add: rdbx_init_def fresh_rdbx_def index_init_def)
qed

lemma window_words_fresh:
  assumes "0 < k" and "k < 2 ^ 20" and len: "bv_length (rdbx_bitmask (rtp_rdbx t)) = word_of_nat (32 * k)"
  shows "window_words (rdbx_get_window_size (rtp_rdbx t)) = k" "rdbx_get_window_size (rtp_rdbx t) \<noteq> 0"
    "unat (rdbx_get_window_size (rtp_rdbx t)) < 2 ^ 30"
proof -
  have "unat (word_of_nat (32 * k) :: u32) = 32 * k"
    unfolding unsigned_of_nat of_nat_id by (rule take_bit_nat_eq_self) (use assms(2) in simp)
  then show "window_words (rdbx_get_window_size (rtp_rdbx t)) = k" "rdbx_get_window_size (rtp_rdbx t) \<noteq> 0"
    "unat (rdbx_get_window_size (rtp_rdbx t)) < 2 ^ 30"
    using len assms(1,2) by (auto simp: rdbx_get_window_size_def bitvector_get_length_def window_words_def
        simp flip: unat_eq_0)
qed

definition window_ok :: "u32 \<Rightarrow> bool" where
  "window_ok ws \<longleftrightarrow> ws = 0 \<or> 64 \<le> unat ws \<and> unat ws < 0x8000"

definition policy_window :: "u32 \<Rightarrow> nat" where
  "policy_window ws = window_words (if ws \<noteq> 0 then ws else 128)"

lemma policy_window_bounds: "window_ok ws \<Longrightarrow> 0 < policy_window ws \<and> policy_window ws < 2 ^ 20"
  by (auto simp: window_ok_def policy_window_def window_words_def)

text \<open>
  The policies a stream can be set up from. The key must be readable for two octets more than its length:
  \<^verbatim>\<open>aes_icm_context_init\<close> copies 16 octets of salt of which 14 belong to the key, and without the two the set-up is
  undefined. Which values they have makes no difference.
\<close>

definition stream_policy_ok :: "srtp_policy_t \<Rightarrow> bool" where
  "stream_policy_ok p \<longleftrightarrow> policy_ok (p_rtp p) \<and> policy_ok (p_rtcp p) \<and> window_ok (p_window_size p) \<and>
     (p_allow_repeat_tx p = 0 \<or> p_allow_repeat_tx p = 1) \<and>
     (case p_key p of None \<Rightarrow> False | Some key \<Rightarrow> nat (master_key_len (p_rtp p) (p_rtcp p)) + 2 \<le> length key)"

definition policy_master :: "srtp_policy_t \<Rightarrow> cipher_key" where
  "policy_master p = cipher_key_of aes_icm (master_key_len (p_rtp p) (p_rtcp p)) (the (p_key p))"

text \<open>
  The stream that a policy sets up: keyed, with an empty window and a full budget. Its objects are at
  addresses that were not in use.
\<close>

definition stream_new :: "srtp_env \<Rightarrow> srtp_stream_ctx_t \<Rightarrow> srtp_policy_t \<Rightarrow> bool" where
  "stream_new e str p \<longleftrightarrow> ssrc str = bswap32 (p_ssrc_value p) \<and> rtp_keyed e str (p_rtp p) (policy_master p) \<and>
     rtcp_keyed e str (p_rtcp p) (policy_master p) \<and> rtp_rdbx str = fresh_rdbx (policy_window (p_window_size p)) \<and>
     rtcp_rdb str = snd rdb_init \<and> rtp_services str = cp_sec_serv (p_rtp p) \<and> rtcp_services str = cp_sec_serv (p_rtcp p) \<and>
     direction str = dir_unknown \<and> allow_repeat_tx str = p_allow_repeat_tx p \<and> ekt str = None \<and>
     rtp_cipher str \<noteq> rtcp_cipher str \<and> rtp_auth str \<noteq> rtcp_auth str \<and>
     (\<exists>la l. limit str = Some la \<and> limit_heap e la = Some l \<and> num_left l = 0xffffffffffff \<and> kl_state l = key_state_normal)"

text \<open>The reference counts, the store without the objects of a stream, and the addresses of these objects.\<close>

type_synonym addresses = "nat \<times> nat \<times> nat \<times> nat \<times> nat"

type_synonym store_rest =
  "(cipher_type_t \<Rightarrow> int) \<times> (auth_type_t \<Rightarrow> int) \<times> (nat \<rightharpoonup> cipher_t) \<times> (nat \<rightharpoonup> auth_t) \<times> (nat \<rightharpoonup> key_limit_ctx_t) \<times> addresses"

definition objects_of :: "srtp_stream_ctx_t \<Rightarrow> addresses" where
  "objects_of str = (rtp_cipher str, rtcp_cipher str, rtp_auth str, rtcp_auth str, the (limit str))"

definition rest_of :: "srtp_env \<Rightarrow> srtp_stream_ctx_t \<Rightarrow> store_rest" where
  "rest_of e str = (env_cipher_refs e, env_auth_refs e, (cipher_heap e)(rtp_cipher str := None, rtcp_cipher str := None),
     (auth_heap e)(rtp_auth str := None, rtcp_auth str := None), (limit_heap e)(the (limit str) := None), objects_of str)"

text \<open>No object lies at an address that the allocator has not handed out yet.\<close>

definition heap_fresh :: "srtp_env \<Rightarrow> bool" where
  "heap_fresh e \<longleftrightarrow> (\<forall>n\<ge>env_allocs e. cipher_heap e n = None \<and> auth_heap e n = None \<and> limit_heap e n = None)"

lemma stream_set_up:
  assumes e: "env_ready e" and p: "stream_policy_ok p"
  obtains str e1 str' e' where "srtp_stream_alloc p e = Some (err_status_ok, Some str, e1)"
    and "srtp_stream_init str p e1 = Some (err_status_ok, str', e')" and "env_ready e'" and "stream_new e' str' p"
    and "env_cipher_refs e' = count_up (policy_cipher (p_rtcp p)) (count_up (policy_cipher (p_rtp p)) (env_cipher_refs e))"
    and "env_auth_refs e' = count_up (policy_auth (p_rtcp p)) (count_up (policy_auth (p_rtp p)) (env_auth_refs e))"
    and "heap_fresh e \<longrightarrow> heap_fresh e' \<and>
      rest_of e' str' = (env_cipher_refs e', env_auth_refs e', cipher_heap e, auth_heap e, limit_heap e, objects_of str')"
proof -
  from p obtain key where key: "p_key p = Some key" "nat (master_key_len (p_rtp p) (p_rtcp p)) + 2 \<le> length key"
    and pol: "policy_ok (p_rtp p)" "policy_ok (p_rtcp p)" and ws: "window_ok (p_window_size p)"
    and rep: "p_allow_repeat_tx p = 0 \<or> p_allow_repeat_tx p = 1"
    by (auto simp: stream_policy_ok_def split: option.splits)
  obtain str e1 c1 a1 l c2 a2 where al: "srtp_stream_alloc p e = Some (err_status_ok, Some str, e1)" and r1: "env_ready e1"
    and str: "rtp_cipher str = env_allocs e + 1" "rtp_auth str = env_allocs e + 2" "limit str = Some (env_allocs e + 3)"
      "rtcp_cipher str = env_allocs e + 4" "rtcp_auth str = env_allocs e + 5" "ekt str = None" "env_allocs e1 = env_allocs e + 6"
    and h: "cipher_heap e1 = (cipher_heap e)(env_allocs e + 1 \<mapsto> c1, env_allocs e + 4 \<mapsto> c2)"
      "auth_heap e1 = (auth_heap e)(env_allocs e + 2 \<mapsto> a1, env_allocs e + 5 \<mapsto> a2)"
      "limit_heap e1 = (limit_heap e)(env_allocs e + 3 \<mapsto> l)"
    and refs: "env_cipher_refs e1 = count_up (policy_cipher (p_rtcp p)) (count_up (policy_cipher (p_rtp p)) (env_cipher_refs e))"
      "env_auth_refs e1 = count_up (policy_auth (p_rtcp p)) (count_up (policy_auth (p_rtp p)) (env_auth_refs e))"
    and c1: "cipher_fits c1" "cipher_type_of c1 = policy_cipher (p_rtp p)" "cipher_key_len c1 = cp_cipher_key_len (p_rtp p)"
    and c2: "cipher_fits c2" "cipher_type_of c2 = policy_cipher (p_rtcp p)" "cipher_key_len c2 = cp_cipher_key_len (p_rtcp p)"
    and a1: "auth_fits a1 (policy_auth (p_rtp p)) (nat (cp_auth_tag_len (p_rtp p)))" "auth_key_len a1 = cp_auth_key_len (p_rtp p)"
    and a2: "auth_fits a2 (policy_auth (p_rtcp p)) (nat (cp_auth_tag_len (p_rtcp p)))" "auth_key_len a2 = cp_auth_key_len (p_rtcp p)"
    by (rule srtp_stream_alloc_ok [OF e pol refl])
  define lim where "lim = snd (key_limit_set l 0xffffffffffff)"
  define e2 where "e2 = bump (e1\<lparr>limit_heap := (limit_heap e1)(env_allocs e + 3 \<mapsto> lim)\<rparr>)"
  define str' where "str' = str\<lparr>rtp_rdbx := fresh_rdbx (policy_window (p_window_size p)), ssrc := bswap32 (p_ssrc_value p),
      rtp_services := cp_sec_serv (p_rtp p), rtcp_services := cp_sec_serv (p_rtcp p), direction := dir_unknown,
      rtcp_rdb := snd rdb_init, allow_repeat_tx := p_allow_repeat_tx p\<rparr>"
  have pre: "env_ready e2" "cipher_heap e2 (rtp_cipher str') = Some c1" "cipher_heap e2 (rtcp_cipher str') = Some c2"
    "auth_heap e2 (rtp_auth str') = Some a1" "auth_heap e2 (rtcp_auth str') = Some a2"
    "rtp_cipher str' \<noteq> rtcp_cipher str'" "rtp_auth str' \<noteq> rtcp_auth str'"
    using r1 str h by (simp_all add: e2_def str'_def bump_def)
  obtain e' c1' c2' a1' a2' where ini: "srtp_stream_init_keys str' key e2 = Some (err_status_ok, e')"
    and e': "e' = e2\<lparr>env_allocs := env_allocs e2 + 1, cipher_heap := (cipher_heap e2)(rtp_cipher str' \<mapsto> c1', rtcp_cipher str' \<mapsto> c2'),
      auth_heap := (auth_heap e2)(rtp_auth str' \<mapsto> a1', rtcp_auth str' \<mapsto> a2')\<rparr>"
    and keyed: "rtp_keyed e' str' (p_rtp p) (cipher_key_of aes_icm (master_key_len (p_rtp p) (p_rtcp p)) key)"
      "rtcp_keyed e' str' (p_rtcp p) (cipher_key_of aes_icm (master_key_len (p_rtp p) (p_rtcp p)) key)"
    by (rule srtp_stream_init_keys_ok [OF pre(1) pol key(2) pre(2) c1 pre(3) c2 pre(4) a1 pre(5) a2 pre(6,7)])
  have win: "(if p_window_size p \<noteq> 0 then p_window_size p else 128) \<noteq> 0"
    "unat (if p_window_size p \<noteq> 0 then p_window_size p else 128) < 2 ^ 30"
    "\<not> (p_window_size p \<noteq> 0 \<and> (p_window_size p < 64 \<or> p_window_size p \<ge> 0x8000))"
    using ws by (auto simp: window_ok_def word_less_nat_alt word_le_nat_alt)
  note rdbx = rdbx_init_fresh [OF r1 win(1,2), of "env_allocs e1" "rtp_rdbx str", folded policy_window_def]
  have init: "srtp_stream_init str p e1 = Some (err_status_ok, str', e')"
    using win(3) rdbx rep str(3,6) h(3) key(1) ini
    by (simp add: srtp_stream_init_def str'_def e2_def lim_def Let_def ekt_stream_init_from_policy_def)
  have "num_left lim = 0xffffffffffff" "kl_state lim = key_state_normal"
    by (simp_all add: lim_def key_limit_set_def soft_limit_def)
  then have "stream_new e' str' p"
    using keyed key(1) str by (simp add: stream_new_def policy_master_def str'_def e' e2_def bump_def)
  moreover have "env_ready e'" using r1 by (simp add: e' e2_def)
  moreover have "env_cipher_refs e' = env_cipher_refs e1" "env_auth_refs e' = env_auth_refs e1"
    by (simp_all add: e' e2_def bump_def)
  moreover have "heap_fresh e \<longrightarrow> heap_fresh e' \<and>
      rest_of e' str' = (env_cipher_refs e', env_auth_refs e', cipher_heap e, auth_heap e, limit_heap e, objects_of str')"
    using str h by (auto simp: rest_of_def heap_fresh_def e' e2_def str'_def bump_def)
  ultimately show ?thesis using that [OF al init] refs by simp
qed

section \<open>The derived keys\<close>

lemma cipher_key_of_icm:
  "cipher_key_of aes_icm kl key = ck_icm (take (nat kl - 14) key) (take 14 (drop (nat kl - 14) key) @ [0, 0])"
  by (simp add: Let_def)

lemma derived_keys_rfc3711:
  assumes "30 \<le> kl" and "nat kl \<le> length key" and "n = 30 \<or> n = 46"
  shows "derived_cipher_key (cipher_key_of aes_icm kl key) le ls aes_icm n =
      (let prf = rfc3711_prf (take (nat kl - 14) key) (take 14 (drop (nat kl - 14) key))
       in ck_icm (prf le (nat n - 14)) (prf ls 14 @ [0, 0]))"
    and "derived_auth_key (cipher_key_of aes_icm kl key) la m =
      rfc3711_prf (take (nat kl - 14) key) (take 14 (drop (nat kl - 14) key)) la (nat m)"
proof -
  have "length (take 14 (drop (nat kl - 14) key)) = 14" using assms(1,2) by simp
  note s = cipher_stream_kdf [OF this]
  show "derived_auth_key (cipher_key_of aes_icm kl key) la m =
      rfc3711_prf (take (nat kl - 14) key) (take 14 (drop (nat kl - 14) key)) la (nat m)"
    unfolding derived_auth_key_def cipher_key_of_icm s ..
  show "derived_cipher_key (cipher_key_of aes_icm kl key) le ls aes_icm n =
      (let prf = rfc3711_prf (take (nat kl - 14) key) (take 14 (drop (nat kl - 14) key))
       in ck_icm (prf le (nat n - 14)) (prf ls 14 @ [0, 0]))"
    unfolding derived_cipher_key_def cipher_key_of_icm s Let_def using assms(3) by auto
qed

text \<open>
  C5. Setting up a stream with counter mode and HMAC for both protocols derives the keys of RFC 3711: when
  the kernel is started and the allocator has memory, \<^verbatim>\<open>srtp_stream_alloc\<close> and \<^verbatim>\<open>srtp_stream_init\<close> succeed,
  and the six labels 0 to 5 give the encryption key, the authentication key and the salt of SRTP and SRTCP, each
  as the prefix of the counter mode keystream under the master key that starts at the master salt exored with
  the label. The reference counts go up by the four objects of the stream and not by the derivation cipher.
\<close>

theorem srtp_stream_keys_rfc3711:
  assumes "env_ready e" and "stream_policy_ok p" and "p_key p = Some key"
    and "cp_cipher_type (p_rtp p) = AES_ICM" and "cp_cipher_type (p_rtcp p) = AES_ICM"
    and "cp_auth_type (p_rtp p) = HMAC_SHA1" and "cp_auth_type (p_rtcp p) = HMAC_SHA1"
    and "mk = take (nat (master_key_len (p_rtp p) (p_rtcp p)) - 14) key"
    and "ms = take 14 (drop (nat (master_key_len (p_rtp p) (p_rtcp p)) - 14) key)"
  shows "\<exists>str e1 str' e'. srtp_stream_alloc p e = Some (err_status_ok, Some str, e1) \<and>
    srtp_stream_init str p e1 = Some (err_status_ok, str', e') \<and>
    unit_keyed e' (rtp_cipher str') (rtp_auth str')
      (ck_icm (rfc3711_prf mk ms 0 (nat (cp_cipher_key_len (p_rtp p)) - 14)) (rfc3711_prf mk ms 2 14 @ [0, 0]))
      (kind_hmac (nat (cp_auth_tag_len (p_rtp p)))) (rfc3711_prf mk ms 1 (nat (cp_auth_key_len (p_rtp p)))) \<and>
    unit_keyed e' (rtcp_cipher str') (rtcp_auth str')
      (ck_icm (rfc3711_prf mk ms 3 (nat (cp_cipher_key_len (p_rtcp p)) - 14)) (rfc3711_prf mk ms 5 14 @ [0, 0]))
      (kind_hmac (nat (cp_auth_tag_len (p_rtcp p)))) (rfc3711_prf mk ms 4 (nat (cp_auth_key_len (p_rtcp p)))) \<and>
    env_cipher_refs e' = (env_cipher_refs e)(aes_icm := env_cipher_refs e aes_icm + 2) \<and>
    env_auth_refs e' = (env_auth_refs e)(hmac := env_auth_refs e hmac + 2)"
proof -
  obtain str e1 str' e' where run: "srtp_stream_alloc p e = Some (err_status_ok, Some str, e1)"
    "srtp_stream_init str p e1 = Some (err_status_ok, str', e')" and new: "stream_new e' str' p"
    and refs: "env_cipher_refs e' = count_up (policy_cipher (p_rtcp p)) (count_up (policy_cipher (p_rtp p)) (env_cipher_refs e))"
      "env_auth_refs e' = count_up (policy_auth (p_rtcp p)) (count_up (policy_auth (p_rtp p)) (env_auth_refs e))"
    by (rule stream_set_up [OF assms(1,2)])
  let ?kl = "master_key_len (p_rtp p) (p_rtcp p)"
  have pol: "policy_cipher (p_rtp p) = aes_icm" "policy_cipher (p_rtcp p) = aes_icm" "policy_auth (p_rtp p) = hmac" "policy_auth (p_rtcp p) = hmac"
    using assms(4-7) by (simp_all add: policy_cipher_def policy_auth_def)
  have kl: "30 \<le> ?kl" "nat ?kl \<le> length key" and n: "cp_cipher_key_len (p_rtp p) = 30 \<or> cp_cipher_key_len (p_rtp p) = 46"
      "cp_cipher_key_len (p_rtcp p) = 30 \<or> cp_cipher_key_len (p_rtcp p) = 46"
    using assms(2-5) by (auto simp: stream_policy_ok_def policy_ok_def NULL_CIPHER_def AES_ICM_def master_key_len_def)
  note d = derived_keys_rfc3711 [OF kl n(1), unfolded Let_def, folded assms(8,9)]
    derived_keys_rfc3711 [OF kl n(2), unfolded Let_def, folded assms(8,9)]
  have "policy_master p = cipher_key_of aes_icm ?kl key" using assms(3) by (simp add: policy_master_def)
  with new run refs show ?thesis
    by (auto simp: stream_new_def rtp_keyed_def rtcp_keyed_def pol d label_rtp_encryption_def label_rtp_msg_auth_def
        label_rtp_salt_def label_rtcp_encryption_def label_rtcp_msg_auth_def label_rtcp_salt_def count_up_def
        simp del: cipher_key_of.simps)
qed

text \<open>A state and a policy for examples: a started kernel, an allocator that never fails, the default policy.\<close>

definition blank_hmac :: hmac_ctx_t where
  "blank_hmac = (let s = \<lparr>sha_H = replicate 5 0, sha_M = replicate 64 0, octets_in_buffer = 0, num_bits_in_msg = 0\<rparr>
     in \<lparr>opad = replicate 64 0, hmac_ctx = s, hmac_init_ctx = s\<rparr>)"

definition default_crypto :: crypto_policy_t where
  "default_crypto = crypto_policy_set_rtp_default
     \<lparr>cp_cipher_type = 0, cp_cipher_key_len = 0, cp_auth_type = 0, cp_auth_key_len = 0, cp_auth_tag_len = 0, cp_sec_serv = sec_serv_none\<rparr>"

definition default_policy :: "ssrc_type_t \<Rightarrow> octets \<Rightarrow> srtp_policy_t" where
  "default_policy t key = \<lparr>p_ssrc_type = t, p_ssrc_value = 0, p_rtp = default_crypto, p_rtcp = default_crypto, p_key = Some key,
     p_ekt = None, p_window_size = 0, p_allow_repeat_tx = 0\<rparr>"

definition ready_env :: srtp_env where
  "ready_env =
     \<lparr>env_source = env_source start_env, env_rand_tape = \<lambda>_. 5, env_rand_pos = 0, env_cipher_mem = \<lambda>_. Some blank_cipher_mem,
      env_allocs = 0, env_cipher_refs = \<lambda>_. 0, env_auth_mem = \<lambda>_. Some blank_hmac, env_auth_refs = \<lambda>_. 0, env_node_mem = \<lambda>_. True,
      env_past = [0, 0], env_buffer = replicate 128 0, env_key = replicate 64 0, env_tag = replicate 32 0,
      env_ctr_prng = env_ctr_prng start_env, kernel_state = crypto_kernel_state_secure,
      cipher_type_list = [(0, null_cipher), (1, aes_icm), (3, aes_cbc)], auth_type_list = [(0, null_auth), (3, hmac)],
      debug_module_list = [], debug_on = \<lambda>_. 0,
      cipher_heap = Map.empty, auth_heap = Map.empty, limit_heap = Map.empty,
      stream_mem = \<lambda>_. Some \<lparr>ssrc = 0, rtp_cipher = 0, rtp_auth = 0, rtp_rdbx = fresh_rdbx 0, rtp_services = sec_serv_none,
        rtcp_cipher = 0, rtcp_auth = 0, rtcp_rdb = snd rdb_init, rtcp_services = sec_serv_none, limit = None,
        direction = dir_unknown, allow_repeat_tx = 0, ekt = None\<rparr>,
      limit_mem = \<lambda>_. Some \<lparr>num_left = 0, kl_state = key_state_normal\<rparr>,
      vector_mem = \<lambda>_ l. Some (replicate (unat l div 4) 0), session_mem = \<lambda>_. True,
      stack_key = replicate 256 0, stack_tag = replicate 12 0, stack_policy = default_policy ssrc_undefined [],
      stack_exp_key = \<lparr>round_key = [], num_rounds = 0\<rparr>, event_handler = True, event_log = []\<rparr>"

lemma env_ready_ready_env: "env_ready ready_env"
proof -
  have "crypto_kernel_get_cipher_type (cipher_type_id ct) ready_env = Some ct" for ct
    by (cases ct) (simp_all add: ready_env_def crypto_kernel_get_cipher_type_def cipher_type_id_def)
  moreover have "crypto_kernel_get_auth_type (auth_type_id at) ready_env = Some at" for at
    by (cases at) (simp_all add: ready_env_def crypto_kernel_get_auth_type_def auth_type_id_def)
  moreover have "cipher_storage blank_cipher_mem" "hmac_storage blank_hmac"
    by (simp_all add: cipher_storage_def blank_cipher_mem_def hmac_storage_def blank_hmac_def Let_def)
  ultimately show ?thesis by (simp add: env_ready_def ready_env_def)
qed

lemma default_policy_ok: "32 \<le> length key \<Longrightarrow> stream_policy_ok (default_policy t key)"
  by (simp add: stream_policy_ok_def default_policy_def policy_ok_def default_crypto_def crypto_policy_set_rtp_default_def
      AES_ICM_def HMAC_SHA1_def window_ok_def master_key_len_def)

theorem srtp_stream_keys_rfc3711_witness:
  "let p = default_policy ssrc_any_inbound (replicate 32 7); prf = rfc3711_prf (replicate 16 7) (replicate 14 7)
   in \<exists>str e1 str' e'. srtp_stream_alloc p ready_env = Some (err_status_ok, Some str, e1) \<and>
     srtp_stream_init str p e1 = Some (err_status_ok, str', e') \<and>
     unit_keyed e' (rtp_cipher str') (rtp_auth str') (ck_icm (prf 0 16) (prf 2 14 @ [0, 0])) (kind_hmac 10) (prf 1 20)"
proof -
  let ?p = "default_policy ssrc_any_inbound (replicate 32 7)"
  have h: "stream_policy_ok ?p" "p_key ?p = Some (replicate 32 7)"
    "cp_cipher_type (p_rtp ?p) = AES_ICM" "cp_cipher_type (p_rtcp ?p) = AES_ICM"
    "cp_auth_type (p_rtp ?p) = HMAC_SHA1" "cp_auth_type (p_rtcp ?p) = HMAC_SHA1"
    by (rule default_policy_ok, simp)
      (simp_all add: default_policy_def default_crypto_def crypto_policy_set_rtp_default_def)
  have p: "p_rtp ?p = default_crypto" "p_rtcp ?p = default_crypto" "cp_cipher_key_len default_crypto = 30"
    "cp_auth_key_len default_crypto = 20" "cp_auth_tag_len default_crypto = 10"
    by (simp_all add: default_policy_def default_crypto_def crypto_policy_set_rtp_default_def)
  show ?thesis
    using srtp_stream_keys_rfc3711 [OF env_ready_ready_env h refl refl] unfolding p
    by (simp add: Let_def master_key_len_def p) blast
qed

end
