(* ===== verification/Srtp_Transform.thy ===== *)
theory Srtp_Transform
  imports Srtp_Rtcp Srtp_Keying
begin

text \<open>
  The packet transforms of RFC 3711 as functions on octet lists, and the proof that the packet processing of
  \<open>Srtp_Packet\<close>, run on a stream whose objects are keyed, computes them. A suite collects what a stream does to
  its packets: the services, the cipher key, the kind of the authentication function and its key.
\<close>

record suite =
  su_services :: sec_serv_t
  su_cipher :: cipher_key
  su_kind :: auth_kind
  su_auth_key :: octets
  su_repeat :: int

abbreviation su_tag_len :: "suite \<Rightarrow> nat" where
  "su_tag_len su \<equiv> auth_kind_tag_len (su_kind su)"

definition suite_keyed :: "srtp_env \<Rightarrow> nat \<Rightarrow> nat \<Rightarrow> suite \<Rightarrow> bool" where
  "suite_keyed e cp ap su = unit_keyed e cp ap (su_cipher su) (su_kind su) (su_auth_key su)"

fun key_type :: "cipher_key \<Rightarrow> cipher_type_t" where
  "key_type ck_null = null_cipher"
| "key_type (ck_icm _ _) = aes_icm"

section \<open>The transforms\<close>

definition crypt_octets :: "cipher_key \<Rightarrow> v128_t \<Rightarrow> nat \<Rightarrow> octets \<Rightarrow> octets" where
  "crypt_octets ck iv off p = take off p @ map2 (XOR) (drop off p) (cipher_stream ck iv 0 (length p - off))"

text \<open>Where the encrypted part of a packet starts; without confidentiality at its end.\<close>

definition rtp_offset :: "sec_serv_t \<Rightarrow> octets \<Rightarrow> nat" where
  "rtp_offset serv p = (if serv_conf serv then nat (the (rtp_enc_start p)) else length p)"

definition rtp_crypt :: "suite \<Rightarrow> xtd_seq_num_t \<Rightarrow> octets \<Rightarrow> octets" where
  "rtp_crypt su est p = crypt_octets (su_cipher su) (rtp_iv (the (hdr_ssrc p)) est (key_type (su_cipher su)))
     (rtp_offset (su_services su) p) p"

definition rtp_tag :: "suite \<Rightarrow> xtd_seq_num_t \<Rightarrow> octets \<Rightarrow> octets" where
  "rtp_tag su est c =
     (if serv_auth (su_services su) then auth_kind_mac (su_kind su) (su_auth_key su) (c @ rtp_roc est) else [])"

definition srtp_packet :: "suite \<Rightarrow> xtd_seq_num_t \<Rightarrow> octets \<Rightarrow> octets" where
  "srtp_packet su est p = rtp_crypt su est p @ rtp_tag su est (rtp_crypt su est p)"

text \<open>A packet whose header, contributing sources and extension lie inside it.\<close>

definition rtp_well :: "octets \<Rightarrow> bool" where
  "rtp_well p \<longleftrightarrow> 12 \<le> length p \<and> length p \<le> 65535 \<and>
     (case rtp_enc_start p of None \<Rightarrow> False | Some off \<Rightarrow> off \<le> int (length p))"

lemma length_crypt_octets [simp]: "off \<le> length p \<Longrightarrow> length (crypt_octets ck iv off p) = length p"
  by (simp add: crypt_octets_def)

lemma take_crypt_octets: "n \<le> off \<Longrightarrow> off \<le> length p \<Longrightarrow> take n (crypt_octets ck iv off p) = take n p"
  by (simp add: crypt_octets_def)

lemma crypt_octets_twice [simp]:
  assumes "off \<le> length p"
  shows "crypt_octets ck iv off (crypt_octets ck iv off p) = p"
proof -
  have "length (drop off p) = length (cipher_stream ck iv 0 (length p - off))" by simp
  from cipher.xor_cancel [OF this] show ?thesis using assms by (simp add: crypt_octets_def)
qed

section \<open>The header\<close>

lemma hdr_cc_bounds: "0 \<le> hdr_cc b" "hdr_cc b \<le> 15"
proof -
  have "b AND 0x0f \<le> 0x0f" by (rule word_and_le1)
  then show "hdr_cc b \<le> 15" by (simp add: hdr_cc_def word_le_def)
qed (simp add: hdr_cc_def)

lemma rtp_enc_start_bound: "rtp_enc_start p = Some off \<Longrightarrow> 12 \<le> off"
  using hdr_cc_bounds(1)
  by (auto simp: rtp_enc_start_def uint32s_in_rtp_header_def Let_def bind_eq_Some_conv split: if_splits)

lemma load8_agree: "take n p = take n q \<Longrightarrow> i < int n \<Longrightarrow> load8 p i = load8 q i"
  by (metis load8_take)

lemma load16_agree: "take n p = take n q \<Longrightarrow> i + 1 < int n \<Longrightarrow> load16 p i = load16 q i"
  by (metis load16_take)

lemma load32_agree: "take n p = take n q \<Longrightarrow> i + 3 < int n \<Longrightarrow> load32 p i = load32 q i"
  by (metis load32_take)

text \<open>The header fields and the offset only depend on the octets in front of the offset.\<close>

lemma rtp_enc_start_agree:
  assumes "rtp_enc_start p = Some off" and "take (nat off) q = take (nat off) p"
  shows "rtp_enc_start q = Some off"
proof -
  from assms(1) obtain b where b: "load8 p 0 = Some b"
    by (auto simp: rtp_enc_start_def bind_eq_Some_conv)
  have off: "12 \<le> off" using rtp_enc_start_bound [OF assms(1)] .
  have b': "load8 q 0 = Some b" using load8_agree [OF assms(2), of 0] b off by simp
  show ?thesis
  proof (cases "hdr_x b")
    case True
    with assms(1) b obtain l where l: "load16 p (4 * (3 + hdr_cc b) + 2) = Some l"
      and o: "off = 4 * (3 + hdr_cc b + (uint (bswap16 l) + 1))"
      by (auto simp: rtp_enc_start_def uint32s_in_rtp_header_def Let_def bind_eq_Some_conv)
    define m where "m = uint (bswap16 l)"
    have "0 \<le> m" by (simp add: m_def)
    then have "4 * (3 + hdr_cc b) + 2 + 1 < off" using o unfolding m_def [symmetric] by simp
    then have "load16 q (4 * (3 + hdr_cc b) + 2) = Some l" using load16_agree [OF assms(2)] l off by simp
    with True b' o show ?thesis by (simp add: rtp_enc_start_def uint32s_in_rtp_header_def)
  next
    case False
    with assms(1) b b' show ?thesis by (simp add: rtp_enc_start_def Let_def)
  qed
qed

lemma rtp_wellD:
  assumes "rtp_well p"
  obtains off s q where "rtp_enc_start p = Some (int off)" and "12 \<le> off" and "off \<le> length p" and "hdr_ssrc p = Some s" and "hdr_seq p = Some q"
    and "12 \<le> length p" and "length p \<le> 65535"
proof -
  from assms obtain off where off: "rtp_enc_start p = Some off" "off \<le> int (length p)" and len: "12 \<le> length p" "length p \<le> 65535"
    by (auto simp: rtp_well_def split: option.splits)
  have "12 \<le> off" using rtp_enc_start_bound [OF off(1)] .
  moreover have "\<exists>s. hdr_ssrc p = Some s" "\<exists>q. hdr_seq p = Some q"
    using len by (auto simp: hdr_ssrc_def hdr_seq_def load32_def load16_def load8_def)
  ultimately show ?thesis using off len that [of "nat off"] by auto
qed

lemma rtp_offset_bounds: "rtp_well p \<Longrightarrow> 12 \<le> rtp_offset serv p \<and> rtp_offset serv p \<le> length p"
  by (auto elim: rtp_wellD simp: rtp_offset_def)

lemma hdr_agree:
  assumes "take 12 q = take 12 p"
  shows "hdr_ssrc q = hdr_ssrc p" "hdr_seq q = hdr_seq p"
  using load32_agree [OF assms, of 8] load16_agree [OF assms, of 2] by (simp_all add: hdr_ssrc_def hdr_seq_def)

lemma rtp_crypt_agree:
  assumes "rtp_well p"
  shows "length (rtp_crypt su est p) = length p" "take (rtp_offset (su_services su) p) (rtp_crypt su est p) = take (rtp_offset (su_services su) p) p"
    "take 12 (rtp_crypt su est p) = take 12 p"
  using rtp_offset_bounds [OF assms, of "su_services su"] by (simp_all add: rtp_crypt_def take_crypt_octets)

lemma rtp_crypt_offset:
  assumes "rtp_well p"
  shows "rtp_offset (su_services su) (rtp_crypt su est p) = rtp_offset (su_services su) p"
proof (cases "serv_conf (su_services su)")
  case True
  from assms obtain off where off: "rtp_enc_start p = Some (int off)" by (rule rtp_wellD)
  have "take (nat (int off)) (rtp_crypt su est p) = take (nat (int off)) p"
    using rtp_crypt_agree(2) [OF assms, of su est] True off by (simp add: rtp_offset_def)
  from rtp_enc_start_agree [OF off this] off True show ?thesis by (simp add: rtp_offset_def)
qed (use rtp_crypt_agree(1) [OF assms] in \<open>simp add: rtp_offset_def\<close>)

text \<open>Encrypting twice is the identity.\<close>

lemma rtp_crypt_twice:
  assumes "rtp_well p"
  shows "rtp_crypt su est (rtp_crypt su est p) = p"
proof -
  have "rtp_crypt su est (rtp_crypt su est p) = crypt_octets (su_cipher su) (rtp_iv (the (hdr_ssrc p)) est (key_type (su_cipher su)))
      (rtp_offset (su_services su) p) (rtp_crypt su est p)"
    unfolding rtp_crypt_def [of su est "rtp_crypt su est p"] rtp_crypt_offset [OF assms]
      hdr_agree(1) [OF rtp_crypt_agree(3) [OF assms]] ..
  also have "\<dots> = p" using rtp_offset_bounds [OF assms] by (simp add: rtp_crypt_def)
  finally show ?thesis .
qed

section \<open>Calls on keyed objects\<close>

lemma cipher_type_rep: "cipher_rep c ck q \<Longrightarrow> cipher_type_of c = key_type ck"
  by (cases ck) (auto simp: cipher_type_of_def)

lemma heap_set_iv_keyed:
  assumes "cipher_heap e cp = Some c" and "cipher_rep c ck q" and "cipher_iv_ok ck (iv (key_type ck))"
  obtains c' where "heap_set_iv cp iv e = Some (err_status_ok, e\<lparr>cipher_heap := (cipher_heap e)(cp \<mapsto> c')\<rparr>)"
    and "cipher_rep c' ck (Some (iv (key_type ck), 0))"
proof -
  obtain c' where "cipher_set_iv c (iv (key_type ck)) = (err_status_ok, c')" "cipher_rep c' ck (Some (iv (key_type ck), 0))"
    using cipher.set_iv_ok [OF assms(2,3)] .
  then show ?thesis using assms(1) cipher_type_rep [OF assms(2)] by (intro that [of c']) (simp_all add: heap_set_iv_def)
qed

lemma enc_octets_of_nat: "n < 2 ^ 32 \<Longrightarrow> enc_octets (int n) = n"
  unfolding enc_octets_def by (rule unat_of_int_nat)

text \<open>Encryption and decryption exor the same keystream; \<open>room\<close> is what lies behind the part they are told of.\<close>

lemma crypt_from_keyed:
  assumes crypt: "crypt = cipher_encrypt \<or> crypt = cipher_decrypt"
    and c: "cipher_heap e cp = Some c" "cipher_rep c ck (Some (v, 0))" "cipher_iv_ok ck v"
    and off: "off \<le> length p" "length p \<le> 65535"
  obtains c' q where "crypt_from crypt cp (Some (int off)) (int (length p)) (p @ room) e =
      Some (err_status_ok, crypt_octets ck v off p @ room, e\<lparr>cipher_heap := (cipher_heap e)(cp \<mapsto> c')\<rparr>)"
    and "cipher_rep c' ck q"
proof -
  let ?buf = "drop off p @ room" and ?n = "length p - off"
  have n: "?n \<le> length ?buf" "0 + ?n \<le> 65535" using off by simp_all
  have "enc_octets (int (length p) - int off) = ?n"
    using enc_octets_of_nat [of ?n] off by (simp add: of_nat_diff)
  moreover obtain c' where "crypt c ?buf ?n = Some (err_status_ok, c', map2 (XOR) (take ?n ?buf) (cipher_stream ck v 0 ?n) @ drop ?n ?buf, ?n)"
    "cipher_rep c' ck (Some (v, 0 + ?n))"
    using crypt cipher.encrypt_rep [OF c(2,3) n] cipher.decrypt_rep [OF c(2,3) n] by auto
  ultimately show ?thesis using c(1) off
    by (intro that [of c']) (simp_all add: crypt_from_def heap_crypt_def put_from_def crypt_octets_def)
qed

lemma crypt_octets_none: "crypt_octets ck v (length p) p = p"
  by (simp add: crypt_octets_def)

lemma crypt_from_part:
  assumes crypt: "crypt = cipher_encrypt \<or> crypt = cipher_decrypt"
    and c: "cipher_heap e cp = Some c" "cipher_rep c ck (Some (v, 0))" "cipher_iv_ok ck v"
    and off: "off \<le> length p" "length p \<le> 65535"
    and start: "start = (if b then Some (int off) else None)" "\<not> b \<Longrightarrow> off = length p"
  obtains c' q where "crypt_from crypt cp start (int (length p)) (p @ room) e =
      Some (err_status_ok, crypt_octets ck v off p @ room, e\<lparr>cipher_heap := (cipher_heap e)(cp \<mapsto> c')\<rparr>)"
    and "cipher_rep c' ck q"
proof (cases b)
  case True
  with start(1) show ?thesis by (simp add: crypt_from_keyed [OF crypt c off, where thesis = thesis, OF that])
next
  case False
  moreover have "e\<lparr>cipher_heap := (cipher_heap e)(cp \<mapsto> c)\<rparr> = e" using c(1) by (simp add: fun_upd_idem)
  ultimately show ?thesis using start c(2) by (intro that [of c]) (simp_all add: crypt_from_def crypt_octets_none)
qed

text \<open>The vector of RTP leaves the block counter free.\<close>

lemma v64_words_be64: "v64_words (be64_to_cpu w) = [bswap32 (ucast (drop_bit 32 w)), bswap32 (ucast w)]"
proof -
  have "ucast (be64_to_cpu w) = bswap32 (ucast (drop_bit 32 w))"
    by (rule bit_word_eqI) (simp add: be64_to_cpu_def bit_simps)
  moreover have "ucast (drop_bit 32 (be64_to_cpu w)) = bswap32 (ucast w)"
    by (rule bit_word_eqI) (auto simp: be64_to_cpu_def bit_simps dest: bit_imp_le_length)
  ultimately show ?thesis by (simp add: v64_words_def)
qed

lemma low_zero_octets:
  "ucast (ucast (push_bit 16 (est :: u64)) :: u32) = (0 :: u8)" "ucast (drop_bit 8 (ucast (push_bit 16 est) :: u32)) = (0 :: u8)"
  by (rule bit_word_eqI; simp add: bit_simps)+

lemma drop_le32_bytes_bswap32: "drop 2 (le32_bytes (bswap32 w)) = [ucast (drop_bit 8 w), ucast w]"
  by (simp add: bswap32_def be32_def)

lemma rtp_iv_ok: "cipher_iv_ok ck (rtp_iv s est (key_type ck))"
proof (cases ck)
  case (ck_icm key salt)
  let ?w = "ucast (push_bit 16 est) :: u32"
  have "bytes_le (rtp_iv s est aes_icm) = bytes_le [0, s, bswap32 (ucast (drop_bit 32 (push_bit 16 est)))] @ le32_bytes (bswap32 ?w)"
    by (simp add: rtp_iv_def cipher_type_id_def AES_ICM_def v64_words_be64 bytes_le_def)
  then have "drop 14 (bytes_le (rtp_iv s est aes_icm)) = drop 2 (le32_bytes (bswap32 ?w))"
    by (simp add: bytes_le_def be32_bytes_def)
  also have "\<dots> = [0, 0]" unfolding drop_le32_bytes_bswap32 low_zero_octets ..
  finally show ?thesis using ck_icm by (simp add: rtp_iv_def v64_words_def)
qed simp

section \<open>The processing of a packet\<close>

lemma suite_keyedE:
  assumes "suite_keyed e cp ap su"
  obtains c q a r where "cipher_heap e cp = Some c" and "cipher_rep c (su_cipher su) q"
    and "auth_heap e ap = Some a" and "auth_rep a (su_kind su) (su_auth_key su) r"
  using assms by (auto simp: suite_keyed_def unit_keyed_def)

lemma auth_rep_lengths:
  assumes "auth_rep a i k q"
  shows "auth_get_tag_length a = int (auth_kind_tag_len i)" "auth_get_prefix_length a = 0" "prefix_len a = 0"
  using assms by (cases i; simp add: auth_get_tag_length_def auth_get_prefix_length_def)+

definition put_objects :: "nat \<Rightarrow> cipher_t \<Rightarrow> nat \<Rightarrow> auth_t \<Rightarrow> srtp_env \<Rightarrow> srtp_env" where
  "put_objects cp c ap a e = e\<lparr>cipher_heap := (cipher_heap e)(cp \<mapsto> c), auth_heap := (auth_heap e)(ap \<mapsto> a)\<rparr>"

lemma put_objects_keyed:
  "cipher_rep c (su_cipher su) q \<Longrightarrow> auth_rep a (su_kind su) (su_auth_key su) r \<Longrightarrow> suite_keyed (put_objects cp c ap a e) cp ap su"
  by (auto simp: suite_keyed_def unit_keyed_def put_objects_def)

lemma length_mac [simp]: "length (auth_kind_mac i k m) = auth_kind_tag_len i"
  by (rule auth.length_mac)

lemma length_rtp_roc [simp]: "length (rtp_roc est) = 4"
  by (simp add: rtp_roc_def)

text \<open>Starting the function, absorbing the packet and finishing over the rollover counter.\<close>

lemma heap_mac:
  assumes a: "auth_heap e ap = Some a" "auth_rep a i k q" and len: "length x + length y < 2 ^ 28" "auth_kind_tag_len i \<le> length r"
  obtains a1 a2 a3 where "heap_auth_start ap e = Some (err_status_ok, e\<lparr>auth_heap := (auth_heap e)(ap \<mapsto> a1)\<rparr>)"
    and "heap_auth_update ap x (e\<lparr>auth_heap := (auth_heap e)(ap \<mapsto> a1)\<rparr>) = Some (err_status_ok, e\<lparr>auth_heap := (auth_heap e)(ap \<mapsto> a2)\<rparr>)"
    and "heap_auth_compute ap y r (e\<lparr>auth_heap := (auth_heap e)(ap \<mapsto> a2)\<rparr>) =
      Some (err_status_ok, auth_kind_mac i k (x @ y) @ drop (auth_kind_tag_len i) r, e\<lparr>auth_heap := (auth_heap e)(ap \<mapsto> a3)\<rparr>)"
    and "auth_rep a3 i k None"
proof -
  obtain a1 where 1: "auth_start a = (err_status_ok, a1)" "auth_rep a1 i k (Some [])"
    using auth.start_rep [OF a(2)] by (cases "auth_start a") auto
  obtain a2 where 2: "auth_update a1 x = (err_status_ok, a2)" "auth_rep a2 i k (Some x)"
    using auth.update_rep [OF 1(2), of x] by (cases "auth_update a1 x") auto
  obtain a3 where 3: "auth_compute a2 y r = Some (err_status_ok, a3, auth_kind_mac i k (x @ y) @ drop (auth_kind_tag_len i) r)"
    "auth_rep a3 i k None"
    using auth.compute_rep [OF 2(2) len] by blast
  show ?thesis using a(1) 1(1) 2(1) 3
    by (intro that [of a1 a2 a3]) (simp_all add: heap_auth_start_def heap_auth_update_def heap_auth_compute_def)
qed

lemma protect_tag_keyed:
  assumes a: "auth_heap e (rtp_auth str) = Some a" "auth_rep a i k q"
    and len: "length p \<le> 65535" "auth_kind_tag_len i \<le> length room"
  obtains a' where "protect_tag str (rtp_roc est) (p @ room) (int (length p)) (int (auth_kind_tag_len i)) e =
      Some (err_status_ok, p @ auth_kind_mac i k (p @ rtp_roc est) @ drop (auth_kind_tag_len i) room,
        int (length p) + int (auth_kind_tag_len i), e\<lparr>auth_heap := (auth_heap e)(rtp_auth str \<mapsto> a')\<rparr>)"
    and "auth_rep a' i k None"
proof -
  have "length p + length (rtp_roc est) < 2 ^ 28" using len(1) by simp
  from heap_mac [OF a this len(2)] obtain a1 a2 a3 where
    "heap_auth_start (rtp_auth str) e = Some (err_status_ok, e\<lparr>auth_heap := (auth_heap e)(rtp_auth str \<mapsto> a1)\<rparr>)"
    "heap_auth_update (rtp_auth str) p (e\<lparr>auth_heap := (auth_heap e)(rtp_auth str \<mapsto> a1)\<rparr>) =
      Some (err_status_ok, e\<lparr>auth_heap := (auth_heap e)(rtp_auth str \<mapsto> a2)\<rparr>)"
    "heap_auth_compute (rtp_auth str) (rtp_roc est) room (e\<lparr>auth_heap := (auth_heap e)(rtp_auth str \<mapsto> a2)\<rparr>) =
      Some (err_status_ok, auth_kind_mac i k (p @ rtp_roc est) @ drop (auth_kind_tag_len i) room, e\<lparr>auth_heap := (auth_heap e)(rtp_auth str \<mapsto> a3)\<rparr>)"
    "auth_rep a3 i k None" .
  then show ?thesis by (intro that [of a3]) (simp_all add: protect_tag_def mem_slice_def mem_from_def put_from_def)
qed

lemma protect_transform_keyed:
  assumes keyed: "suite_keyed e (rtp_cipher str) (rtp_auth str) su" and serv: "rtp_services str = su_services su"
    and p: "rtp_well p" and room: "su_tag_len su \<le> length room"
    and start: "start = (if serv_conf (su_services su) then Some (the (rtp_enc_start p)) else None)"
  obtains c a where "protect_transform str start est (p @ room) (int (length p)) (int (su_tag_len su)) e =
      Some (err_status_ok, srtp_packet su est p @ drop (length (srtp_packet su est p) - length p) room,
        int (length (srtp_packet su est p)), put_objects (rtp_cipher str) c (rtp_auth str) a e)"
    and "suite_keyed (put_objects (rtp_cipher str) c (rtp_auth str) a e) (rtp_cipher str) (rtp_auth str) su"
proof -
  let ?ck = "su_cipher su" and ?i = "su_kind su" and ?k = "su_auth_key su"
  from keyed obtain c q a r where obj: "cipher_heap e (rtp_cipher str) = Some c" "cipher_rep c ?ck q"
    "auth_heap e (rtp_auth str) = Some a" "auth_rep a ?i ?k r" by (rule suite_keyedE)
  from p obtain off s where off: "rtp_enc_start p = Some (int off)" "12 \<le> off" "off \<le> length p" and s: "hdr_ssrc p = Some s"
    and len: "12 \<le> length p" "length p \<le> 65535" by (rule rtp_wellD)
  let ?v = "rtp_iv s est (key_type ?ck)" and ?off = "rtp_offset (su_services su) p"
  have s': "hdr_ssrc (p @ room) = Some s" using s len by (simp add: hdr_ssrc_def)
  obtain c1 where c1: "heap_set_iv (rtp_cipher str) (rtp_iv s est) e =
      Some (err_status_ok, e\<lparr>cipher_heap := (cipher_heap e)(rtp_cipher str \<mapsto> c1)\<rparr>)" (is "_ = Some (_, ?e1)")
    "cipher_rep c1 ?ck (Some (?v, 0))"
    by (rule heap_set_iv_keyed [where iv = "rtp_iv s est", OF obj(1,2) rtp_iv_ok])
  have pre: "protect_prefix str (p @ room) (int (length p)) ?e1 = Some (err_status_ok, p @ room, ?e1)"
    using obj(3) auth_rep_lengths(2) [OF obj(4)] by (simp add: protect_prefix_def)
  have part: "cipher_heap ?e1 (rtp_cipher str) = Some c1" "?off \<le> length p"
    "start = (if serv_conf (su_services su) then Some (int ?off) else None)" "\<not> serv_conf (su_services su) \<Longrightarrow> ?off = length p"
    using off start by (simp_all add: rtp_offset_def)
  obtain c2 q2 where c2: "crypt_from cipher_encrypt (rtp_cipher str) start (int (length p)) (p @ room) ?e1 =
      Some (err_status_ok, crypt_octets ?ck ?v ?off p @ room, ?e1\<lparr>cipher_heap := (cipher_heap ?e1)(rtp_cipher str \<mapsto> c2)\<rparr>)"
    (is "_ = Some (_, _, ?e2)") "cipher_rep c2 ?ck q2"
    by (rule crypt_from_part [OF disjI1 [OF refl] part(1) c1(2) rtp_iv_ok part(2) len(2) part(3,4)])
  have e2: "?e2 = e\<lparr>cipher_heap := (cipher_heap e)(rtp_cipher str \<mapsto> c2)\<rparr>" by simp
  have cr: "crypt_octets ?ck ?v ?off p = rtp_crypt su est p" using s by (simp add: rtp_crypt_def)
  have cl: "length (rtp_crypt su est p) = length p" using rtp_crypt_agree(1) [OF p] .
  show ?thesis
  proof (cases "serv_auth (su_services su)")
    case True
    have "auth_heap ?e2 (rtp_auth str) = Some a" "length (rtp_crypt su est p) \<le> 65535" using obj(3) cl len(2) by simp_all
    from protect_tag_keyed [OF this(1) obj(4) this(2) room, where est = est] obtain a' where
      "protect_tag str (rtp_roc est) (rtp_crypt su est p @ room) (int (length p)) (int (su_tag_len su)) ?e2 =
        Some (err_status_ok, srtp_packet su est p @ drop (su_tag_len su) room, int (length p) + int (su_tag_len su),
          put_objects (rtp_cipher str) c2 (rtp_auth str) a' e)" "auth_rep a' ?i ?k None"
      unfolding cl using True by (auto simp: srtp_packet_def rtp_tag_def put_objects_def)
    then show ?thesis using True s' c1(1) pre c2 cl serv
      by (intro that [of c2 a' , OF _ put_objects_keyed])
        (simp_all add: protect_transform_def cr srtp_packet_def rtp_tag_def)
  next
    case False
    have "put_objects (rtp_cipher str) c2 (rtp_auth str) a e = e\<lparr>cipher_heap := (cipher_heap e)(rtp_cipher str \<mapsto> c2)\<rparr>"
      using obj(3) by (simp add: put_objects_def fun_upd_idem)
    with False s' c1(1) pre c2 cl serv obj(4) show ?thesis
      by (intro that [of c2 a, OF _ put_objects_keyed])
        (simp_all add: protect_transform_def cr srtp_packet_def rtp_tag_def)
  qed
qed

text \<open>A use of the key that does not exhaust it.\<close>

lemma key_limit_update_ok:
  assumes "1 < unat (num_left l)"
  shows "fst (key_limit_update l) \<noteq> key_event_hard_limit" "unat (num_left (snd (key_limit_update l))) = unat (num_left l) - 1"
proof -
  show u: "unat (num_left (snd (key_limit_update l))) = unat (num_left l) - 1"
    using assms by (simp add: unat_sub word_le_nat_alt)
  have "unat (num_left l - 1) = unat (num_left l) - 1" using u by simp
  then have "\<not> num_left l - 1 < 1" using assms by (simp add: word_less_nat_alt)
  then show "fst (key_limit_update l) \<noteq> key_event_hard_limit" by (auto simp: key_limit_update_def Let_def)
qed

lemma use_key_ok:
  assumes "limit str = Some la" and "limit_heap e la = Some l" and "1 < unat (num_left l)"
  obtains l' log where "use_key str e = Some (err_status_ok, e\<lparr>limit_heap := (limit_heap e)(la \<mapsto> l'), event_log := log\<rparr>)"
    and "unat (num_left l') = unat (num_left l) - 1"
proof -
  obtain ev l' where u: "key_limit_update l = (ev, l')" by fastforce
  let ?e = "e\<lparr>limit_heap := (limit_heap e)(la \<mapsto> l')\<rparr>"
  have ev: "ev \<noteq> key_event_hard_limit" and l': "unat (num_left l') = unat (num_left l) - 1"
    using key_limit_update_ok [OF assms(3)] u by simp_all
  have "use_key str e = Some (err_status_ok, if ev = key_event_soft_limit then srtp_handle_event str event_key_soft_limit ?e else ?e)"
    using assms(1,2) u ev by (cases ev) (simp_all add: use_key_def)
  moreover have "\<exists>log. (if ev = key_event_soft_limit then srtp_handle_event str event_key_soft_limit ?e else ?e) = ?e\<lparr>event_log := log\<rparr>"
    by (auto simp: srtp_handle_event_def intro: exI [of _ "event_log e"])
  ultimately show ?thesis using that l' by auto
qed

lemma mark_direction_cases:
  obtains d' log where "mark_direction d str e = (str\<lparr>direction := d'\<rparr>, e\<lparr>event_log := log\<rparr>)"
proof -
  have "mark_direction d str e = (str\<lparr>direction := if direction str = dir_unknown then d else direction str\<rparr>,
      e\<lparr>event_log := if direction str \<noteq> d \<and> direction str \<noteq> dir_unknown \<and> event_handler e
        then event_log e @ [(ssrc str, event_ssrc_collision)] else event_log e\<rparr>)"
    by (cases str; cases e) (auto simp: mark_direction_def srtp_handle_event_def)
  then show ?thesis using that by blast
qed

text \<open>The check of the tag, on any packet that is not shorter than a tag.\<close>

lemma unprotect_tag_keyed:
  assumes a: "auth_heap e (rtp_auth str) = Some a" "auth_rep a i k q"
    and len: "length c \<le> 65535" "auth_kind_tag_len i \<le> 12" "length (stack_tag e) = 12" "length t = auth_kind_tag_len i"
  obtains a' where "unprotect_tag str (rtp_roc est) (c @ t @ room) (int (length c) + int (auth_kind_tag_len i)) (int (auth_kind_tag_len i)) e =
      Some (if t = auth_kind_mac i k (c @ rtp_roc est) then err_status_ok else err_status_auth_fail,
        e\<lparr>auth_heap := (auth_heap e)(rtp_auth str \<mapsto> a')\<rparr>)"
    and "auth_rep a' i k None"
proof -
  let ?m = "auth_kind_mac i k (c @ rtp_roc est)" and ?n = "auth_kind_tag_len i"
  have pre: "length c + length (rtp_roc est) < 2 ^ 28" "?n \<le> length (take SRTP_MAX_TAG_LEN (stack_tag e))"
    using len by (simp_all add: SRTP_MAX_TAG_LEN_def)
  from heap_mac [OF a pre] obtain a1 a2 a3 where h:
    "heap_auth_start (rtp_auth str) e = Some (err_status_ok, e\<lparr>auth_heap := (auth_heap e)(rtp_auth str \<mapsto> a1)\<rparr>)"
    "heap_auth_update (rtp_auth str) c (e\<lparr>auth_heap := (auth_heap e)(rtp_auth str \<mapsto> a1)\<rparr>) =
      Some (err_status_ok, e\<lparr>auth_heap := (auth_heap e)(rtp_auth str \<mapsto> a2)\<rparr>)"
    "heap_auth_compute (rtp_auth str) (rtp_roc est) (take SRTP_MAX_TAG_LEN (stack_tag e)) (e\<lparr>auth_heap := (auth_heap e)(rtp_auth str \<mapsto> a2)\<rparr>) =
      Some (err_status_ok, ?m @ drop ?n (take SRTP_MAX_TAG_LEN (stack_tag e)), e\<lparr>auth_heap := (auth_heap e)(rtp_auth str \<mapsto> a3)\<rparr>)"
    "auth_rep a3 i k None" .
  have "octet_string_is_eq (?m @ drop ?n (take SRTP_MAX_TAG_LEN (stack_tag e))) (t @ room) ?n = Some (?m \<noteq> t)"
    using len(4) by (subst octet_string_is_eq_iff) simp_all
  with h a(1) auth_rep_lengths(3) [OF a(2)] show ?thesis
    by (intro that [of a3]) (auto simp: unprotect_tag_def mem_slice_def mem_from_def)
qed

text \<open>
  A packet with a wrong tag is refused: the packet is as it was and only the two objects have been used. The
  extension header is read before the check, so it has to lie inside the memory.
\<close>

lemma unprotect_stream_reject:
  assumes keyed: "suite_keyed e (rtp_cipher str) (rtp_auth str) su" and serv: "rtp_services str = su_services su" "serv_auth (su_services su)"
    and pkt: "12 \<le> length c + su_tag_len su" "length c \<le> 65535" "length t = su_tag_len su" "su_tag_len su \<le> 12" "length (stack_tag e) = 12"
    and start: "rtp_enc_start (c @ t @ room) \<noteq> None" and wrong: "t \<noteq> rtp_tag su est c"
  obtains co a where "unprotect_stream str est (c @ t @ room) (int (length c) + int (su_tag_len su)) e =
      Some (err_status_auth_fail, str, c @ t @ room, int (su_tag_len su), put_objects (rtp_cipher str) co (rtp_auth str) a e)"
    and "suite_keyed (put_objects (rtp_cipher str) co (rtp_auth str) a e) (rtp_cipher str) (rtp_auth str) su"
proof -
  let ?ck = "su_cipher su" and ?pkt = "c @ t @ room"
  from keyed obtain co q a r where obj: "cipher_heap e (rtp_cipher str) = Some co" "cipher_rep co ?ck q"
    "auth_heap e (rtp_auth str) = Some a" "auth_rep a (su_kind su) (su_auth_key su) r" by (rule suite_keyedE)
  obtain s where s: "hdr_ssrc ?pkt = Some s" using pkt by (auto simp: hdr_ssrc_def load32_def load8_def)
  obtain c1 where c1: "heap_set_iv (rtp_cipher str) (rtp_iv s est) e =
      Some (err_status_ok, e\<lparr>cipher_heap := (cipher_heap e)(rtp_cipher str \<mapsto> c1)\<rparr>)" (is "_ = Some (_, ?e1)")
    "cipher_rep c1 ?ck (Some (rtp_iv s est (key_type ?ck), 0))"
    by (rule heap_set_iv_keyed [where iv = "rtp_iv s est", OF obj(1,2) rtp_iv_ok])
  have pre: "auth_heap ?e1 (rtp_auth str) = Some a" "length (stack_tag ?e1) = 12" using obj(3) pkt(5) by simp_all
  from unprotect_tag_keyed [OF pre(1) obj(4) pkt(2,4) pre(2) pkt(3)] obtain a' where t:
    "unprotect_tag str (rtp_roc est) ?pkt (int (length c) + int (su_tag_len su)) (int (su_tag_len su)) ?e1 =
      Some (if t = auth_kind_mac (su_kind su) (su_auth_key su) (c @ rtp_roc est) then err_status_ok else err_status_auth_fail,
        ?e1\<lparr>auth_heap := (auth_heap ?e1)(rtp_auth str \<mapsto> a')\<rparr>)" "auth_rep a' (su_kind su) (su_auth_key su) None" .
  have "t \<noteq> auth_kind_mac (su_kind su) (su_auth_key su) (c @ rtp_roc est)" using wrong serv(2) by (simp add: rtp_tag_def)
  with t start s c1 obj(3) auth_rep_lengths(1) [OF obj(4)] serv show ?thesis
    by (intro that [of c1 a', OF _ put_objects_keyed]) (auto simp: unprotect_stream_def put_objects_def)
qed

lemma unprotect_stream_accept:
  assumes keyed: "suite_keyed e (rtp_cipher str) (rtp_auth str) su" and serv: "rtp_services str = su_services su"
      "serv_auth (su_services su) \<or> su_tag_len su = 0"
    and c: "rtp_well c" and tag: "su_tag_len su \<le> 12" "length (stack_tag e) = 12"
    and key: "limit str = Some la" "limit_heap e la = Some l" "1 < unat (num_left l)"
  obtains d' co a l' log where "unprotect_stream str est (c @ rtp_tag su est c @ room) (int (length c) + int (su_tag_len su)) e =
      Some (err_status_ok, str\<lparr>direction := d'\<rparr>, rtp_crypt su est c @ rtp_tag su est c @ room, int (su_tag_len su),
        (put_objects (rtp_cipher str) co (rtp_auth str) a e)\<lparr>limit_heap := (limit_heap e)(la \<mapsto> l'), event_log := log\<rparr>)"
    and "suite_keyed (put_objects (rtp_cipher str) co (rtp_auth str) a e) (rtp_cipher str) (rtp_auth str) su"
    and "unat (num_left l') = unat (num_left l) - 1"
proof -
  let ?ck = "su_cipher su" and ?t = "rtp_tag su est c"
  let ?pkt = "c @ ?t @ room" and ?off = "rtp_offset (su_services su) c"
  from keyed obtain co q a r where obj: "cipher_heap e (rtp_cipher str) = Some co" "cipher_rep co ?ck q"
    "auth_heap e (rtp_auth str) = Some a" "auth_rep a (su_kind su) (su_auth_key su) r" by (rule suite_keyedE)
  from c obtain off s where off: "rtp_enc_start c = Some (int off)" "12 \<le> off" "off \<le> length c" and s: "hdr_ssrc c = Some s"
    and len: "12 \<le> length c" "length c \<le> 65535" by (rule rtp_wellD)
  let ?v = "rtp_iv s est (key_type ?ck)"
  have s': "hdr_ssrc ?pkt = Some s" using s len by (simp add: hdr_ssrc_def)
  have off': "rtp_enc_start ?pkt = Some (int off)" by (rule rtp_enc_start_agree [OF off(1)]) (use off(3) in simp)
  obtain c1 where c1: "heap_set_iv (rtp_cipher str) (rtp_iv s est) e =
      Some (err_status_ok, e\<lparr>cipher_heap := (cipher_heap e)(rtp_cipher str \<mapsto> c1)\<rparr>)" (is "_ = Some (_, ?e1)")
    "cipher_rep c1 ?ck (Some (?v, 0))"
    by (rule heap_set_iv_keyed [where iv = "rtp_iv s est", OF obj(1,2) rtp_iv_ok])
  have "\<exists>a'. (if serv_auth (su_services su) then unprotect_tag str (rtp_roc est) ?pkt (int (length c) + int (su_tag_len su)) (int (su_tag_len su)) ?e1
      else Some (err_status_ok, ?e1)) = Some (err_status_ok, put_objects (rtp_cipher str) c1 (rtp_auth str) a' e) \<and>
      (\<exists>q. auth_rep a' (su_kind su) (su_auth_key su) q)"
  proof (cases "serv_auth (su_services su)")
    case True
    then have tl: "length ?t = su_tag_len su" by (simp add: rtp_tag_def)
    have pre: "auth_heap ?e1 (rtp_auth str) = Some a" "length (stack_tag ?e1) = 12" using obj(3) tag(2) by simp_all
    obtain a' where a': "unprotect_tag str (rtp_roc est) ?pkt (int (length c) + int (su_tag_len su)) (int (su_tag_len su)) ?e1 =
        Some (if ?t = auth_kind_mac (su_kind su) (su_auth_key su) (c @ rtp_roc est) then err_status_ok else err_status_auth_fail,
          ?e1\<lparr>auth_heap := (auth_heap ?e1)(rtp_auth str \<mapsto> a')\<rparr>)" "auth_rep a' (su_kind su) (su_auth_key su) None"
      by (rule unprotect_tag_keyed [OF pre(1) obj(4) len(2) tag(1) pre(2) tl])
    have "?t = auth_kind_mac (su_kind su) (su_auth_key su) (c @ rtp_roc est)" using True by (simp add: rtp_tag_def)
    with a' True show ?thesis by (intro exI [of _ a']) (auto simp: put_objects_def)
  next
    case False
    then have "put_objects (rtp_cipher str) c1 (rtp_auth str) a e = ?e1" using obj(3) by (simp add: put_objects_def fun_upd_idem)
    with False obj(4) show ?thesis by (intro exI [of _ a]) auto
  qed
  then obtain a' q' where t: "(if serv_auth (su_services su) then unprotect_tag str (rtp_roc est) ?pkt (int (length c) + int (su_tag_len su)) (int (su_tag_len su)) ?e1
      else Some (err_status_ok, ?e1)) = Some (err_status_ok, put_objects (rtp_cipher str) c1 (rtp_auth str) a' e)"
    "auth_rep a' (su_kind su) (su_auth_key su) q'" by blast
  let ?e2 = "put_objects (rtp_cipher str) c1 (rtp_auth str) a' e"
  have key2: "limit_heap ?e2 la = Some l" using key(2) by (simp add: put_objects_def)
  from use_key_ok [OF key(1) key2 key(3)] obtain l' log where u:
    "use_key str ?e2 = Some (err_status_ok, ?e2\<lparr>limit_heap := (limit_heap ?e2)(la \<mapsto> l'), event_log := log\<rparr>)" (is "_ = Some (_, ?e3)")
    "unat (num_left l') = unat (num_left l) - 1" .
  have part: "cipher_heap ?e3 (rtp_cipher str) = Some c1" "?off \<le> length c"
    "(if serv_conf (su_services su) then Some (int off) else None) = (if serv_conf (su_services su) then Some (int ?off) else None)"
    "\<not> serv_conf (su_services su) \<Longrightarrow> ?off = length c"
    using off by (simp_all add: rtp_offset_def put_objects_def)
  obtain c2 q2 where c2: "crypt_from cipher_decrypt (rtp_cipher str) (if serv_conf (su_services su) then Some (int off) else None) (int (length c)) ?pkt ?e3 =
      Some (err_status_ok, crypt_octets ?ck ?v ?off c @ ?t @ room, ?e3\<lparr>cipher_heap := (cipher_heap ?e3)(rtp_cipher str \<mapsto> c2)\<rparr>)"
    (is "_ = Some (_, _, ?e4)") "cipher_rep c2 ?ck q2"
    by (rule crypt_from_part [OF disjI2 [OF refl] part(1) c1(2) rtp_iv_ok part(2) len(2) part(3,4)])
  obtain d' log' where d: "mark_direction dir_srtp_receiver str ?e4 = (str\<lparr>direction := d'\<rparr>, ?e4\<lparr>event_log := log'\<rparr>)"
    by (rule mark_direction_cases)
  have cr: "crypt_octets ?ck ?v ?off c = rtp_crypt su est c" using s by (simp add: rtp_crypt_def)
  have tl: "int (length c) + int (su_tag_len su) - int (su_tag_len su) = int (length c)" by simp
  have start: "(if serv_conf (su_services su) then map_option Some (rtp_enc_start ?pkt) else Some None) =
      Some (if serv_conf (su_services su) then Some (int off) else None)"
    using off' by simp
  have "unprotect_stream str est ?pkt (int (length c) + int (su_tag_len su)) e =
      Some (err_status_ok, str\<lparr>direction := d'\<rparr>, rtp_crypt su est c @ ?t @ room, int (su_tag_len su), ?e4\<lparr>event_log := log'\<rparr>)"
    unfolding unprotect_stream_def obj(3) s' Option.bind.bind_lunit Let_def auth_rep_lengths(1) [OF obj(4)] c1(1) prod.case serv(1)
      start t(1) u(1) tl c2(1) d cr by simp
  moreover have "?e4\<lparr>event_log := log'\<rparr> =
      (put_objects (rtp_cipher str) c2 (rtp_auth str) a' e)\<lparr>limit_heap := (limit_heap e)(la \<mapsto> l'), event_log := log'\<rparr>"
    by (simp add: put_objects_def)
  ultimately show ?thesis using that [OF _ put_objects_keyed [OF c2(2) t(2)] u(2)] by simp
qed

end
