(* ===== verification/Srtcp_Transform.thy ===== *)
theory Srtcp_Transform
  imports Srtp_Transform
begin

text \<open>
  The SRTCP transform of RFC 3711 as a function on octet lists, and the proof that the processing of
  \<open>Srtp_Rtcp\<close> computes it on a stream whose objects are keyed. The trailer holds the index and, in its highest
  bit, whether the packet is encrypted; the tag covers packet and trailer.
\<close>

section \<open>The transform\<close>

definition rtcp_offset :: "sec_serv_t \<Rightarrow> octets \<Rightarrow> nat" where
  "rtcp_offset serv p = (if serv_conf serv then 8 else length p)"

definition rtcp_crypt :: "suite \<Rightarrow> u32 \<Rightarrow> octets \<Rightarrow> octets" where
  "rtcp_crypt su idx p = crypt_octets (su_cipher su) (rtcp_iv (the (rtcp_ssrc p)) idx (key_type (su_cipher su)))
     (rtcp_offset (su_services su) p) p"

definition rtcp_flag :: "suite \<Rightarrow> u32" where
  "rtcp_flag su = (if serv_conf (su_services su) then SRTCP_E_BIT else 0)"

definition rtcp_trailer :: "suite \<Rightarrow> u32 \<Rightarrow> octets" where
  "rtcp_trailer su idx = le32_bytes (bswap32 (rtcp_flag su OR idx))"

definition rtcp_mac :: "suite \<Rightarrow> octets \<Rightarrow> octets" where
  "rtcp_mac su m = auth_kind_mac (su_kind su) (su_auth_key su) m"

definition srtcp_packet :: "suite \<Rightarrow> u32 \<Rightarrow> octets \<Rightarrow> octets" where
  "srtcp_packet su idx p = (let m = rtcp_crypt su idx p @ rtcp_trailer su idx in m @ rtcp_mac su m)"

definition rtcp_well :: "octets \<Rightarrow> bool" where
  "rtcp_well p \<longleftrightarrow> 8 \<le> length p \<and> length p \<le> 65535"

lemma length_rtcp_trailer [simp]: "length (rtcp_trailer su idx) = 4"
  unfolding rtcp_trailer_def by (rule length_le32_bytes)

lemma length_rtcp_mac [simp]: "length (rtcp_mac su m) = su_tag_len su"
  by (simp add: rtcp_mac_def)

lemma rtcp_offset_bounds: "rtcp_well p \<Longrightarrow> 8 \<le> rtcp_offset serv p \<and> rtcp_offset serv p \<le> length p"
  by (simp add: rtcp_offset_def rtcp_well_def)

lemma rtcp_crypt_agree:
  assumes "rtcp_well p"
  shows "length (rtcp_crypt su idx p) = length p" "take 8 (rtcp_crypt su idx p) = take 8 p"
  using rtcp_offset_bounds [OF assms, of "su_services su"] by (simp_all add: rtcp_crypt_def take_crypt_octets)

lemma rtcp_ssrc_agree: "take 8 q = take 8 p \<Longrightarrow> rtcp_ssrc q = rtcp_ssrc p"
  unfolding rtcp_ssrc_def by (rule load32_agree [of 8]) simp_all

lemma rtcp_crypt_twice:
  assumes "rtcp_well p"
  shows "rtcp_crypt su idx (rtcp_crypt su idx p) = p"
proof -
  have "rtcp_offset (su_services su) (rtcp_crypt su idx p) = rtcp_offset (su_services su) p"
    using rtcp_crypt_agree(1) [OF assms] by (simp add: rtcp_offset_def)
  then show ?thesis
    using rtcp_ssrc_agree [OF rtcp_crypt_agree(2) [OF assms]] rtcp_offset_bounds [OF assms]
    by (simp add: rtcp_crypt_def [of su idx "rtcp_crypt su idx p"]) (simp add: rtcp_crypt_def)
qed

lemma rtcp_iv_ok: "cipher_iv_ok ck (rtcp_iv s idx (key_type ck))"
proof (cases ck)
  case (ck_icm key salt)
  have "bytes_le (rtcp_iv s idx aes_icm) = bytes_le [0, s, bswap32 (drop_bit 16 idx)] @ le32_bytes (bswap32 (push_bit 16 idx))"
    by (simp add: rtcp_iv_def cipher_type_id_def AES_ICM_def bytes_le_def)
  then have "drop 14 (bytes_le (rtcp_iv s idx aes_icm)) = drop 2 (le32_bytes (bswap32 (push_bit 16 idx)))"
    by (simp add: bytes_le_def be32_bytes_def)
  also have "\<dots> = [0, 0]" unfolding drop_le32_bytes_bswap32
    by (simp, intro conjI; rule bit_word_eqI; simp add: bit_simps)
  finally show ?thesis using ck_icm by (simp add: rtcp_iv_def)
qed simp

text \<open>Reading the trailer back.\<close>

lemma bswap32_OR: "bswap32 (a OR b) = bswap32 a OR bswap32 b"
  unfolding bswap32_def be32_def le32_def by (rule bit_word_eqI) (auto simp: bit_simps)

lemma index_mask:
  assumes "unat idx < 2 ^ 31"
  shows "idx AND SRTCP_INDEX_MASK = idx" "\<not> bit idx 31"
proof -
  have "idx AND mask 31 = idx"
    using assms by (metis take_bit_eq_mask word_unat_eq_iff take_bit_nat_eq_self unsigned_take_bit_eq)
  then show m: "idx AND SRTCP_INDEX_MASK = idx" by (simp add: SRTCP_INDEX_MASK_def mask_eq_exp_minus_1)
  have "\<not> bit (idx AND SRTCP_INDEX_MASK) 31" by (simp add: bit_and_iff SRTCP_INDEX_MASK_def)
  then show "\<not> bit idx 31" unfolding m .
qed

lemma rtcp_trailer_index: "unat idx < 2 ^ 31 \<Longrightarrow> (rtcp_flag su OR idx) AND SRTCP_INDEX_MASK = idx"
  using index_mask(1)
  by (simp add: bit.conj_disj_distrib2) (simp add: rtcp_flag_def SRTCP_E_BIT_def SRTCP_INDEX_MASK_def)

lemma high_octet_bit: "ucast (drop_bit 24 (x :: u32)) AND SRTCP_E_BYTE_BIT \<noteq> 0 \<longleftrightarrow> bit x 31"
proof -
  have "ucast (drop_bit 24 x) AND SRTCP_E_BYTE_BIT = ucast (drop_bit 24 x) AND push_bit 7 1"
    by (simp add: push_bit_eq_mult SRTCP_E_BYTE_BIT_def)
  also have "\<dots> \<noteq> 0 \<longleftrightarrow> bit x 31"
    by (simp only: and_exp_eq_0_iff_not_bit push_bit_of_1) (simp add: bit_simps)
  finally show ?thesis .
qed

lemma rtcp_trailer_flag:
  assumes "unat idx < 2 ^ 31"
  shows "rtcp_trailer su idx ! 0 AND SRTCP_E_BYTE_BIT \<noteq> 0 \<longleftrightarrow> serv_conf (su_services su)"
proof -
  have "rtcp_trailer su idx ! 0 = ucast (drop_bit 24 (rtcp_flag su OR idx))"
    by (simp add: rtcp_trailer_def bswap32_def be32_def)
  then show ?thesis
    using high_octet_bit [of "rtcp_flag su OR idx"] index_mask(2) [OF assms]
    by (simp add: bit_or_iff rtcp_flag_def SRTCP_E_BIT_def)
qed

section \<open>Sending\<close>

text \<open>An empty keystream prefix clears one octet at the place of the tag.\<close>

lemma heap_output_empty:
  assumes "cipher_heap e cp = Some c" and "cipher_rep c ck (Some (v, 0))" and "cipher_iv_ok ck v" and "buf \<noteq> []"
  obtains c' where "heap_output cp buf (enc_octets 0) e = Some (err_status_ok, 0 # tl buf, e\<lparr>cipher_heap := (cipher_heap e)(cp \<mapsto> c')\<rparr>)"
    and "cipher_rep c' ck (Some (v, 0))"
proof -
  have z: "octet_string_set_to_zero buf 0 = Some (0 # tl buf)"
    using assms(4) by (cases buf) (simp_all add: octet_string_set_to_zero_def)
  obtain c' where "cipher_encrypt c (0 # tl buf) 0 = Some (err_status_ok, c', 0 # tl buf, 0)" "cipher_rep c' ck (Some (v, 0))"
    using cipher.encrypt_rep [OF assms(2,3), of 0 "0 # tl buf"] by auto
  with z assms(1) show ?thesis
    by (intro that [of c']) (simp_all add: heap_output_def cipher_output_def enc_octets_def)
qed

text \<open>Starting the function and finishing over the packet in one piece; the status of the start is not looked at.\<close>

lemma heap_mac_whole:
  assumes a: "auth_heap e ap = Some a" "auth_rep a i k q" and len: "length x < 2 ^ 28" "auth_kind_tag_len i \<le> length r"
  obtains a1 a2 where "heap_auth_start ap e = Some (err_status_ok, e\<lparr>auth_heap := (auth_heap e)(ap \<mapsto> a1)\<rparr>)"
    and "heap_auth_compute ap x r (e\<lparr>auth_heap := (auth_heap e)(ap \<mapsto> a1)\<rparr>) =
      Some (err_status_ok, auth_kind_mac i k x @ drop (auth_kind_tag_len i) r, e\<lparr>auth_heap := (auth_heap e)(ap \<mapsto> a2)\<rparr>)"
    and "auth_rep a2 i k None"
proof -
  obtain a1 where 1: "auth_start a = (err_status_ok, a1)" "auth_rep a1 i k (Some [])"
    using auth.start_rep [OF a(2)] by (cases "auth_start a") auto
  have "length [] + length x < 2 ^ 28" using len(1) by simp
  from auth.compute_rep [OF 1(2) this len(2)] obtain a2 where
    2: "auth_compute a1 x r = Some (err_status_ok, a2, auth_kind_mac i k x @ drop (auth_kind_tag_len i) r)" "auth_rep a2 i k None"
    by auto
  show ?thesis using a(1) 1(1) 2
    by (intro that [of a1 a2]) (simp_all add: heap_auth_start_def heap_auth_compute_def)
qed

lemma protect_rtcp_transform_keyed:
  assumes keyed: "suite_keyed e (rtcp_cipher str) (rtcp_auth str) su" and serv: "rtcp_services str = su_services su"
    and p: "rtcp_well p" and room: "su_tag_len su \<le> length room" "room \<noteq> []"
  obtains c a where "protect_rtcp_transform str idx (int (length p)) (int (length p) + trailer_octets) (p @ rtcp_trailer su idx @ room)
        (int (length p)) (int (su_tag_len su)) e =
      Some (err_status_ok, srtcp_packet su idx p @ drop (su_tag_len su) (0 # tl room), int (length (srtcp_packet su idx p)),
        put_objects (rtcp_cipher str) c (rtcp_auth str) a e)"
    and "suite_keyed (put_objects (rtcp_cipher str) c (rtcp_auth str) a e) (rtcp_cipher str) (rtcp_auth str) su"
proof -
  let ?ck = "su_cipher su" and ?tr = "rtcp_trailer su idx" and ?room = "0 # tl room"
  from keyed obtain c q a r where obj: "cipher_heap e (rtcp_cipher str) = Some c" "cipher_rep c ?ck q"
    "auth_heap e (rtcp_auth str) = Some a" "auth_rep a (su_kind su) (su_auth_key su) r" by (rule suite_keyedE)
  have len: "8 \<le> length p" "length p \<le> 65535" using p by (simp_all add: rtcp_well_def)
  obtain s where s: "rtcp_ssrc p = Some s" using len by (auto simp: rtcp_ssrc_def load32_def load8_def)
  have s': "rtcp_ssrc (p @ ?tr @ room) = Some s" using s len by (simp add: rtcp_ssrc_def)
  let ?v = "rtcp_iv s idx (key_type ?ck)" and ?off = "rtcp_offset (su_services su) p"
  obtain c1 where c1: "heap_set_iv (rtcp_cipher str) (rtcp_iv s idx) e =
      Some (err_status_ok, e\<lparr>cipher_heap := (cipher_heap e)(rtcp_cipher str \<mapsto> c1)\<rparr>)" (is "_ = Some (_, ?e1)")
    "cipher_rep c1 ?ck (Some (?v, 0))"
    by (rule heap_set_iv_keyed [where iv = "rtcp_iv s idx", OF obj(1,2) rtcp_iv_ok])
  have h1: "cipher_heap ?e1 (rtcp_cipher str) = Some c1" "auth_heap ?e1 (rtcp_auth str) = Some a" using obj(3) by simp_all
  obtain c2 where c2: "heap_output (rtcp_cipher str) room (enc_octets 0) ?e1 =
      Some (err_status_ok, ?room, ?e1\<lparr>cipher_heap := (cipher_heap ?e1)(rtcp_cipher str \<mapsto> c2)\<rparr>)" (is "_ = Some (_, _, ?e2)")
    "cipher_rep c2 ?ck (Some (?v, 0))"
    by (rule heap_output_empty [OF h1(1) c1(2) rtcp_iv_ok room(2)])
  have part: "cipher_heap ?e2 (rtcp_cipher str) = Some c2" "?off \<le> length p"
    "(if serv_conf (su_services su) then Some octets_in_rtcp_header else None) = (if serv_conf (su_services su) then Some (int ?off) else None)"
    "\<not> serv_conf (su_services su) \<Longrightarrow> ?off = length p"
    using len by (simp_all add: rtcp_offset_def octets_in_rtcp_header_def)
  obtain c3 q3 where c3: "crypt_from cipher_encrypt (rtcp_cipher str) (if serv_conf (su_services su) then Some octets_in_rtcp_header else None)
        (int (length p)) (p @ ?tr @ ?room) ?e2 =
      Some (err_status_ok, crypt_octets ?ck ?v ?off p @ ?tr @ ?room, ?e2\<lparr>cipher_heap := (cipher_heap ?e2)(rtcp_cipher str \<mapsto> c3)\<rparr>)"
    (is "_ = Some (_, _, ?e3)") "cipher_rep c3 ?ck q3"
    by (rule crypt_from_part [OF disjI1 [OF refl] part(1) c2(2) rtcp_iv_ok part(2) len(2) part(3,4)])
  let ?c = "rtcp_crypt su idx p"
  have cr: "crypt_octets ?ck ?v ?off p = ?c" using s by (simp add: rtcp_crypt_def)
  have cl: "length ?c = length p" using rtcp_crypt_agree(1) [OF p] .
  have h3: "auth_heap ?e3 (rtcp_auth str) = Some a" "length (?c @ ?tr) < 2 ^ 28" "su_tag_len su \<le> length ?room"
    using obj(3) cl len(2) room by simp_all
  obtain a1 a2 where a: "heap_auth_start (rtcp_auth str) ?e3 = Some (err_status_ok, ?e3\<lparr>auth_heap := (auth_heap ?e3)(rtcp_auth str \<mapsto> a1)\<rparr>)"
    "heap_auth_compute (rtcp_auth str) (?c @ ?tr) ?room (?e3\<lparr>auth_heap := (auth_heap ?e3)(rtcp_auth str \<mapsto> a1)\<rparr>) =
      Some (err_status_ok, rtcp_mac su (?c @ ?tr) @ drop (su_tag_len su) ?room, ?e3\<lparr>auth_heap := (auth_heap ?e3)(rtcp_auth str \<mapsto> a2)\<rparr>)"
      (is "_ = Some (_, _, ?e5)")
    "auth_rep a2 (su_kind su) (su_auth_key su) None"
    unfolding rtcp_mac_def by (rule heap_mac_whole [OF h3(1) obj(4) h3(2,3)])
  have mem: "mem_from (p @ ?tr @ room) (int (length p) + trailer_octets) = Some room"
    "put_from (p @ ?tr @ room) (int (length p) + trailer_octets) ?room = p @ ?tr @ ?room"
    "mem_slice (?c @ ?tr @ ?room) 0 (nat (int (length p) + trailer_octets)) = Some (?c @ ?tr)"
    "mem_from (?c @ ?tr @ ?room) (int (length p) + trailer_octets) = Some ?room"
    "\<And>b. put_from (?c @ ?tr @ ?room) (int (length p) + trailer_octets) b = ?c @ ?tr @ b"
    using cl by (simp_all add: mem_from_def put_from_def mem_slice_def trailer_octets_def nat_add_distrib)
  have e5: "?e5 = put_objects (rtcp_cipher str) c3 (rtcp_auth str) a2 e" by (simp add: put_objects_def)
  have "protect_rtcp_transform str idx (int (length p)) (int (length p) + trailer_octets) (p @ ?tr @ room)
        (int (length p)) (int (su_tag_len su)) e =
      Some (err_status_ok, ?c @ ?tr @ rtcp_mac su (?c @ ?tr) @ drop (su_tag_len su) ?room,
        int (length p) + (int (su_tag_len su) + trailer_octets), ?e5)"
    unfolding protect_rtcp_transform_def s' Option.bind.bind_lunit c1(1) prod.case h1(2) mem auth_rep_lengths(2) [OF obj(4)] c2(1) Let_def serv
      c3(1) cr a(1,2) by simp
  then show ?thesis unfolding e5
    by (intro that [OF _ put_objects_keyed [OF c3(2) a(3)]]) (simp add: srtcp_packet_def Let_def cl trailer_octets_def)
qed

lemma keyed_updates [simp]:
  "suite_keyed (e\<lparr>event_log := log\<rparr>) cp ap su = suite_keyed e cp ap su"
  "suite_keyed (e\<lparr>limit_heap := lh\<rparr>) cp ap su = suite_keyed e cp ap su"
  "suite_keyed (e\<lparr>env_allocs := n\<rparr>) cp ap su = suite_keyed e cp ap su"
  by (simp_all add: suite_keyed_def unit_keyed_def)

lemma put_objects_event_log [simp]:
  "put_objects cp c ap a (e\<lparr>event_log := log\<rparr>) = (put_objects cp c ap a e)\<lparr>event_log := log\<rparr>"
  by (simp add: put_objects_def)

lemma bswap32_0 [simp]: "bswap32 0 = 0"
  by (simp add: bswap32_def be32_def le32_def)

lemma store_behind: "length b \<le> length room \<Longrightarrow> store (p @ room) (int (length p)) b = Some (p @ b @ drop (length b) room)"
  by (simp add: store_def)

lemma protect_rtcp_stream_keyed:
  assumes keyed: "suite_keyed e (rtcp_cipher str) (rtcp_auth str) su" and serv: "rtcp_services str = su_services su" and ekt: "ekt str = None"
    and p: "rtcp_well p" and room: "4 + su_tag_len su \<le> length room" "4 < length room"
    and idx: "unat (window_start (rtcp_rdb str)) + 1 < 2 ^ 31"
  obtains d log c a rest where "protect_rtcp_stream str (p @ room) (int (length p)) e =
      Some (err_status_ok, str\<lparr>direction := d, rtcp_rdb := snd (rdb_increment (rtcp_rdb str))\<rparr>,
        srtcp_packet su (window_start (rtcp_rdb str) + 1) p @ rest, int (length (srtcp_packet su (window_start (rtcp_rdb str) + 1) p)),
        (put_objects (rtcp_cipher str) c (rtcp_auth str) a e)\<lparr>event_log := log\<rparr>)"
    and "suite_keyed (put_objects (rtcp_cipher str) c (rtcp_auth str) a e) (rtcp_cipher str) (rtcp_auth str) su"
proof -
  let ?idx = "window_start (rtcp_rdb str) + 1" and ?room = "drop 4 room"
  obtain d log where d: "mark_direction dir_srtp_sender str e = (str\<lparr>direction := d\<rparr>, e\<lparr>event_log := log\<rparr>)"
    by (rule mark_direction_cases)
  define rdb where "rdb = snd (rdb_increment (rtcp_rdb str))"
  define str' where "str' = str\<lparr>direction := d, rtcp_rdb := rdb\<rparr>"
  from keyed obtain ac r where ac: "auth_heap e (rtcp_auth str) = Some ac" "auth_rep ac (su_kind su) (su_auth_key su) r"
    by (rule suite_keyedE)
  have flag: "(if serv_conf (rtcp_services str) then bswap32 SRTCP_E_BIT else 0) = bswap32 (rtcp_flag su)"
    using serv by (simp add: rtcp_flag_def)
  have st1: "store (p @ room) (int (length p)) (le32_bytes (bswap32 (rtcp_flag su))) = Some (p @ le32_bytes (bswap32 (rtcp_flag su)) @ ?room)"
    using room by (subst store_behind) (simp_all del: le32_bytes_bswap32)
  have ld: "load32 (p @ le32_bytes (bswap32 (rtcp_flag su)) @ ?room) (int (length p)) = Some (bswap32 (rtcp_flag su))"
    by (rule load32_bytes) simp_all
  have st2: "store (p @ le32_bytes (bswap32 (rtcp_flag su)) @ ?room) (int (length p)) (le32_bytes (bswap32 (rtcp_flag su) OR bswap32 ?idx)) =
      Some (p @ rtcp_trailer su ?idx @ ?room)"
    by (subst store_behind) (simp_all add: rtcp_trailer_def bswap32_OR del: le32_bytes_bswap32)
  have inc: "rdb_increment (rtcp_rdb str) = (err_status_ok, rdb)" "rdb_get_value rdb = ?idx"
    using idx by (simp_all add: rdb_def rdb_increment_def rdb_get_value_def word_less_nat_alt)
  have pre: "suite_keyed (e\<lparr>event_log := log\<rparr>) (rtcp_cipher str') (rtcp_auth str') su" "rtcp_services str' = su_services su"
    "su_tag_len su \<le> length ?room" "?room \<noteq> []"
    using keyed serv room by (simp_all add: str'_def)
  obtain c a where t: "protect_rtcp_transform str' ?idx (int (length p)) (int (length p) + trailer_octets) (p @ rtcp_trailer su ?idx @ ?room)
        (int (length p)) (int (su_tag_len su)) (e\<lparr>event_log := log\<rparr>) =
      Some (err_status_ok, srtcp_packet su ?idx p @ drop (su_tag_len su) (0 # tl ?room), int (length (srtcp_packet su ?idx p)),
        put_objects (rtcp_cipher str') c (rtcp_auth str') a (e\<lparr>event_log := log\<rparr>))"
    "suite_keyed (put_objects (rtcp_cipher str') c (rtcp_auth str') a (e\<lparr>event_log := log\<rparr>)) (rtcp_cipher str') (rtcp_auth str') su"
    by (rule protect_rtcp_transform_keyed [OF pre(1,2) p pre(3,4)])
  have ekt': "ekt_write_data None pkt i j n x = Some (pkt, n)" for pkt i j n x
    by (simp add: ekt_write_data_def)
  have "protect_rtcp_stream str (p @ room) (int (length p)) e = Some (err_status_ok, str',
      srtcp_packet su ?idx p @ drop (su_tag_len su) (0 # tl ?room), int (length (srtcp_packet su ?idx p)),
      put_objects (rtcp_cipher str') c (rtcp_auth str') a (e\<lparr>event_log := log\<rparr>))"
    using ac st1 st2 ld inc t(1) ekt flag auth_rep_lengths(1) [OF ac(2)]
    unfolding protect_rtcp_stream_def d prod.case Let_def
    by (simp add: ekt' str'_def del: le32_bytes_bswap32)
  then show ?thesis using t(2) by (intro that) (simp_all add: str'_def rdb_def)
qed

section \<open>Receiving\<close>

lemma unprotect_rtcp_tag_keyed:
  assumes a: "auth_heap e (rtcp_auth str) = Some a" "auth_rep a (su_kind su) (su_auth_key su) q"
    and len: "length m < 2 ^ 28" "su_tag_len su \<le> 12" "length (stack_tag e) = 12" "length t = su_tag_len su"
  obtains a' where "unprotect_rtcp_tag str (t @ room) (m @ t @ room) (int (length m)) (int (su_tag_len su)) e =
      Some (if t = rtcp_mac su m then err_status_ok else err_status_auth_fail, e\<lparr>auth_heap := (auth_heap e)(rtcp_auth str \<mapsto> a')\<rparr>)"
    and "auth_rep a' (su_kind su) (su_auth_key su) None"
proof -
  let ?r = "take SRTP_MAX_TAG_LEN (stack_tag e)"
  have r: "su_tag_len su \<le> length ?r" using len by (simp add: SRTP_MAX_TAG_LEN_def)
  obtain a1 a2 where h: "heap_auth_start (rtcp_auth str) e = Some (err_status_ok, e\<lparr>auth_heap := (auth_heap e)(rtcp_auth str \<mapsto> a1)\<rparr>)"
    "heap_auth_compute (rtcp_auth str) m ?r (e\<lparr>auth_heap := (auth_heap e)(rtcp_auth str \<mapsto> a1)\<rparr>) =
      Some (err_status_ok, rtcp_mac su m @ drop (su_tag_len su) ?r, e\<lparr>auth_heap := (auth_heap e)(rtcp_auth str \<mapsto> a2)\<rparr>)"
    "auth_rep a2 (su_kind su) (su_auth_key su) None"
    unfolding rtcp_mac_def by (rule heap_mac_whole [OF a len(1) r])
  have "octet_string_is_eq (rtcp_mac su m @ drop (su_tag_len su) ?r) (t @ room) (su_tag_len su) = Some (rtcp_mac su m \<noteq> t)"
    using len(4) by (subst octet_string_is_eq_iff) simp_all
  with h show ?thesis by (intro that [of a2]) (auto simp: unprotect_rtcp_tag_def mem_slice_def)
qed

text \<open>
  What a receiver does with a packet: \<open>c\<close> is the part in front of the trailer, whose word is \<open>w\<close>. The index is
  checked first, then the tag; only then the packet is decrypted, if its highest bit says so.
\<close>

lemma unprotect_rtcp_stream_keyed:
  assumes keyed: "suite_keyed e (rtcp_cipher str) (rtcp_auth str) su" and ekt: "ekt str = None"
    and c: "rtcp_well c" and tag: "su_tag_len su \<le> 12" "length (stack_tag e) = 12" "length t = su_tag_len su"
    and conf: "t = rtcp_mac su (c @ le32_bytes (bswap32 w)) \<Longrightarrow> bit w 31 \<longleftrightarrow> serv_conf (su_services su)"
    and chk: "rdb_check (rtcp_rdb str) (w AND SRTCP_INDEX_MASK) = Some st" and fresh: "st = err_status_ok \<or> allow_repeat_tx str \<noteq> 0"
  obtains co a where "unprotect_rtcp_stream str (c @ le32_bytes (bswap32 w) @ t @ room) (int (length c) + 4 + int (su_tag_len su)) e =
      Some (let ok = (t = rtcp_mac su (c @ le32_bytes (bswap32 w))) in
        (if ok then err_status_ok else err_status_auth_fail, w AND SRTCP_INDEX_MASK,
         (if ok then rtcp_crypt su (w AND SRTCP_INDEX_MASK) c else c) @ le32_bytes (bswap32 w) @ t @ room,
         (if ok then int (length c) else int (length c) + 4 + int (su_tag_len su)),
         put_objects (rtcp_cipher str) co (rtcp_auth str) a e))"
    and "suite_keyed (put_objects (rtcp_cipher str) co (rtcp_auth str) a e) (rtcp_cipher str) (rtcp_auth str) su"
proof -
  let ?ck = "su_cipher su" and ?tr = "le32_bytes (bswap32 w)" and ?idx = "w AND SRTCP_INDEX_MASK"
  let ?pkt = "c @ ?tr @ t @ room" and ?off = "rtcp_offset (su_services su) c" and ?len = "int (length c) + 4 + int (su_tag_len su)"
  from keyed obtain co q a r where obj: "cipher_heap e (rtcp_cipher str) = Some co" "cipher_rep co ?ck q"
    "auth_heap e (rtcp_auth str) = Some a" "auth_rep a (su_kind su) (su_auth_key su) r" by (rule suite_keyedE)
  have len: "8 \<le> length c" "length c \<le> 65535" using c by (simp_all add: rtcp_well_def)
  obtain s where s: "rtcp_ssrc c = Some s" using len by (auto simp: rtcp_ssrc_def load32_def load8_def)
  have s': "rtcp_ssrc ?pkt = Some s" using s len by (simp add: rtcp_ssrc_def)
  let ?v = "rtcp_iv s ?idx (key_type ?ck)"
  have tl: "?len - (int (su_tag_len su) + trailer_octets) = int (length c)" "?len - int (su_tag_len su) = int (length (c @ ?tr))"
    by (simp_all add: trailer_octets_def del: le32_bytes_bswap32)
  have b: "load8 ?pkt (int (length c)) = Some (?tr ! 0)"
    by (simp add: load8_def nth_append del: le32_bytes_bswap32)
  have flag: "(if ?tr ! 0 AND SRTCP_E_BYTE_BIT \<noteq> 0 then Some octets_in_rtcp_header else None) =
      (if bit w 31 then Some octets_in_rtcp_header else None)"
    using high_octet_bit [of w] by (simp add: bswap32_def be32_def)
  have find: "rtcp_find_tag str ?pkt ?len (int (su_tag_len su)) = Some (t @ room, ?pkt, int (length (c @ ?tr)))"
    unfolding rtcp_find_tag_def tl(2) using ekt by (simp add: mem_from_def del: le32_bytes_bswap32)
  have ld: "load32 ?pkt (int (length c)) = Some (bswap32 w)" by (rule load32_bytes) simp_all
  obtain c1 where c1: "heap_set_iv (rtcp_cipher str) (rtcp_iv s ?idx) e =
      Some (err_status_ok, e\<lparr>cipher_heap := (cipher_heap e)(rtcp_cipher str \<mapsto> c1)\<rparr>)" (is "_ = Some (_, ?e1)")
    "cipher_rep c1 ?ck (Some (?v, 0))"
    by (rule heap_set_iv_keyed [where iv = "rtcp_iv s ?idx", OF obj(1,2) rtcp_iv_ok])
  have h1: "auth_heap ?e1 (rtcp_auth str) = Some a" "length (c @ ?tr) < 2 ^ 28" "length (stack_tag ?e1) = 12"
    using obj(3) len(2) tag(2) by (simp_all del: le32_bytes_bswap32)
  obtain a' where a': "unprotect_rtcp_tag str (t @ room) ((c @ ?tr) @ t @ room) (int (length (c @ ?tr))) (int (su_tag_len su)) ?e1 =
      Some (if t = rtcp_mac su (c @ ?tr) then err_status_ok else err_status_auth_fail, ?e1\<lparr>auth_heap := (auth_heap ?e1)(rtcp_auth str \<mapsto> a')\<rparr>)"
      (is "_ = Some (_, ?e2)") "auth_rep a' (su_kind su) (su_auth_key su) None"
    by (rule unprotect_rtcp_tag_keyed [OF h1(1) obj(4) h1(2) tag(1) h1(3) tag(3)])
  have noekt: "ekt_octets_after_base_tag None = 0" by (simp add: ekt_octets_after_base_tag_def)
  have run: "unprotect_rtcp_stream str ?pkt ?len e = (if t \<noteq> rtcp_mac su (c @ ?tr) then Some (err_status_auth_fail, ?idx, ?pkt, ?len, ?e2)
      else do {
        (status, pkt, e) \<leftarrow> unprotect_rtcp_prefix str ?pkt (int (length (c @ ?tr))) ?e2;
        if status \<noteq> err_status_ok then Some (err_status_cipher_fail, ?idx, pkt, ?len, e)
        else do {
          (status, pkt, e) \<leftarrow> crypt_from cipher_decrypt (rtcp_cipher str)
            (if bit w 31 then Some octets_in_rtcp_header else None) (int (length c)) pkt e;
          if status \<noteq> err_status_ok then Some (err_status_cipher_fail, ?idx, pkt, ?len, e)
          else Some (err_status_ok, ?idx, pkt, int (length c), e)
        }
      })"
    unfolding unprotect_rtcp_stream_def obj(3) Option.bind.bind_lunit Let_def auth_rep_lengths(1) [OF obj(4)] tl b flag find prod.case ld
      bswap32_bswap32 chk s' c1(1) a'(1) [unfolded append_assoc] ekt noekt diff_0_right
    using fresh by (auto simp del: le32_bytes_bswap32)
  have keyed': "\<And>c' q. cipher_rep c' ?ck q \<Longrightarrow> suite_keyed (put_objects (rtcp_cipher str) c' (rtcp_auth str) a' e) (rtcp_cipher str) (rtcp_auth str) su"
    using put_objects_keyed a'(2) by blast
  show ?thesis
  proof (cases "t = rtcp_mac su (c @ ?tr)")
    case False
    then show ?thesis using run by (intro that [OF _ keyed' [OF c1(2)]]) (simp add: put_objects_def Let_def del: le32_bytes_bswap32)
  next
    case True
    have pre: "unprotect_rtcp_prefix str ?pkt (int (length (c @ ?tr))) ?e2 = Some (err_status_ok, ?pkt, ?e2)"
      using auth_rep_lengths(2) [OF a'(2)] by (simp add: unprotect_rtcp_prefix_def del: le32_bytes_bswap32)
    have part: "cipher_heap ?e2 (rtcp_cipher str) = Some c1" "?off \<le> length c"
      "(if serv_conf (su_services su) then Some octets_in_rtcp_header else None) = (if serv_conf (su_services su) then Some (int ?off) else None)"
      "\<not> serv_conf (su_services su) \<Longrightarrow> ?off = length c"
      using len by (simp_all add: rtcp_offset_def octets_in_rtcp_header_def)
    obtain c2 q2 where c2: "crypt_from cipher_decrypt (rtcp_cipher str) (if serv_conf (su_services su) then Some octets_in_rtcp_header else None)
          (int (length c)) ?pkt ?e2 =
        Some (err_status_ok, crypt_octets ?ck ?v ?off c @ ?tr @ t @ room, ?e2\<lparr>cipher_heap := (cipher_heap ?e2)(rtcp_cipher str \<mapsto> c2)\<rparr>)"
      (is "_ = Some (_, _, ?e3)") "cipher_rep c2 ?ck q2"
      by (rule crypt_from_part [OF disjI2 [OF refl] part(1) c1(2) rtcp_iv_ok part(2) len(2) part(3,4)])
    have "crypt_octets ?ck ?v ?off c = rtcp_crypt su ?idx c" using s by (simp add: rtcp_crypt_def)
    moreover have "?e3 = put_objects (rtcp_cipher str) c2 (rtcp_auth str) a' e" by (simp add: put_objects_def)
    ultimately have "unprotect_rtcp_stream str ?pkt ?len e =
        Some (err_status_ok, ?idx, rtcp_crypt su ?idx c @ ?tr @ t @ room, int (length c), put_objects (rtcp_cipher str) c2 (rtcp_auth str) a' e)"
      unfolding run pre Option.bind.bind_lunit prod.case conf [OF True] c2(1) using True by simp
    with True show ?thesis by (intro that [OF _ keyed' [OF c2(2)]]) (simp del: le32_bytes_bswap32)
  qed
qed

end
