(* ===== verification/Srtp_Endpoint.thy ===== *)
theory Srtp_Endpoint
  imports Srtcp_Transform
begin

text \<open>
  What \<^verbatim>\<open>srtp_protect\<close>, \<^verbatim>\<open>srtp_unprotect\<close> and their RTCP counterparts do in a session whose streams are cloned
  from one template. An endpoint is such a session in a state where the kernel is started, the allocator has
  memory, and the key has at least \<open>n\<close> more uses; \<open>B\<close> is what the store holds besides the objects of the session.
\<close>

section \<open>Endpoints\<close>

definition clone_of :: "srtp_stream_ctx_t \<Rightarrow> srtp_stream_ctx_t \<Rightarrow> bool" where
  "clone_of t s \<longleftrightarrow> rtp_cipher s = rtp_cipher t \<and> rtp_auth s = rtp_auth t \<and> rtp_services s = rtp_services t \<and>
     rtcp_cipher s = rtcp_cipher t \<and> rtcp_auth s = rtcp_auth t \<and> rtcp_services s = rtcp_services t \<and>
     limit s = limit t \<and> allow_repeat_tx s = allow_repeat_tx t \<and> ekt s = ekt t"

lemma clone_of_updates [simp]:
  "clone_of t (s\<lparr>direction := d\<rparr>) = clone_of t s" "clone_of t (s\<lparr>rtp_rdbx := r\<rparr>) = clone_of t s"
  "clone_of t (s\<lparr>rtcp_rdb := q\<rparr>) = clone_of t s" "clone_of (t\<lparr>direction := d\<rparr>) s = clone_of t s"
  by (simp_all add: clone_of_def)

text \<open>Tags longer than 12 octets do not fit the receiver's array; without authentication the receiver needs an empty tag.\<close>

definition suites_ok :: "suite \<Rightarrow> suite \<Rightarrow> bool" where
  "suites_ok su cu \<longleftrightarrow> su_tag_len su \<le> 12 \<and> su_tag_len cu \<le> 12 \<and> (serv_auth (su_services su) \<or> su_tag_len su = 0)"

definition endpoint :: "store_rest \<Rightarrow> suite \<Rightarrow> suite \<Rightarrow> nat \<Rightarrow> nat \<Rightarrow> srtp_env \<Rightarrow> srtp_stream_ctx_t \<Rightarrow> bool" where
  "endpoint B su cu k n e t \<longleftrightarrow> env_ready e \<and> suites_ok su cu \<and> 0 < k \<and> k < 2 ^ 20 \<and>
     suite_keyed e (rtp_cipher t) (rtp_auth t) su \<and> suite_keyed e (rtcp_cipher t) (rtcp_auth t) cu \<and>
     rtp_cipher t \<noteq> rtcp_cipher t \<and> rtp_auth t \<noteq> rtcp_auth t \<and>
     rtp_services t = su_services su \<and> rtcp_services t = su_services cu \<and> allow_repeat_tx t = su_repeat su \<and> ekt t = None \<and>
     bv_length (rdbx_bitmask (rtp_rdbx t)) = word_of_nat (32 * k) \<and> rtcp_rdb t = snd rdb_init \<and>
     rest_of e t = B \<and> (\<exists>la l. limit t = Some la \<and> limit_heap e la = Some l \<and> n < unat (num_left l))"

lemma rest_of_updates [simp]:
  "rest_of (e\<lparr>event_log := log\<rparr>) t = rest_of e t" "rest_of (bump e) t = rest_of e t" "rest_of e (t\<lparr>direction := d\<rparr>) = rest_of e t"
  "limit t = Some la \<Longrightarrow> rest_of (e\<lparr>limit_heap := (limit_heap e)(la \<mapsto> l)\<rparr>) t = rest_of e t"
  "rest_of (put_objects (rtp_cipher t) c (rtp_auth t) a e) t = rest_of e t"
  by (simp_all add: rest_of_def objects_of_def bump_def put_objects_def)

lemma rest_of_rtcp:
  "rtp_cipher t \<noteq> rtcp_cipher t \<Longrightarrow> rtp_auth t \<noteq> rtcp_auth t \<Longrightarrow> rest_of (put_objects (rtcp_cipher t) c (rtcp_auth t) a e) t = rest_of e t"
  by (auto simp: rest_of_def put_objects_def fun_upd_twist)

lemma endpointD:
  assumes "endpoint B su cu k n e t"
  shows "env_ready e" "suites_ok su cu" "0 < k" "k < 2 ^ 20" "suite_keyed e (rtp_cipher t) (rtp_auth t) su"
    "suite_keyed e (rtcp_cipher t) (rtcp_auth t) cu" "rtp_services t = su_services su" "rtcp_services t = su_services cu"
    "allow_repeat_tx t = su_repeat su" "ekt t = None" "bv_length (rdbx_bitmask (rtp_rdbx t)) = word_of_nat (32 * k)" "rtcp_rdb t = snd rdb_init"
    "length (stack_tag e) = 12" "su_tag_len su \<le> 12" "su_tag_len cu \<le> 12" "serv_auth (su_services su) \<or> su_tag_len su = 0"
  using assms env_readyD(11) [of e] by (simp_all add: endpoint_def suites_ok_def)

lemma endpoint_updates [simp]:
  "endpoint B su cu k n (e\<lparr>event_log := log\<rparr>) t = endpoint B su cu k n e t"
  "endpoint B su cu k n (bump e) t = endpoint B su cu k n e t"
  "endpoint B su cu k n e (t\<lparr>direction := d\<rparr>) = endpoint B su cu k n e t"
  by (simp_all add: endpoint_def) (simp add: bump_def)

lemma endpoint_mono: "endpoint B su cu k n e t \<Longrightarrow> m \<le> n \<Longrightarrow> endpoint B su cu k m e t"
  by (auto simp: endpoint_def)

lemma env_ready_put_objects [simp]: "env_ready (put_objects cp c ap a e) = env_ready e"
  unfolding put_objects_def by simp

lemma put_objects_other:
  "cp' \<noteq> cp \<Longrightarrow> ap' \<noteq> ap \<Longrightarrow> suite_keyed (put_objects cp c ap a e) cp' ap' su = suite_keyed e cp' ap' su"
  by (simp add: suite_keyed_def unit_keyed_def put_objects_def)

text \<open>What the processing of a packet leaves of the state: one unit's objects used, the budget smaller by at most one.\<close>

lemma endpoint_rtp_step:
  assumes "endpoint B su cu k n e t" and "suite_keyed (put_objects (rtp_cipher t) c (rtp_auth t) a e) (rtp_cipher t) (rtp_auth t) su"
  shows "endpoint B su cu k n (put_objects (rtp_cipher t) c (rtp_auth t) a e) t"
  using assms put_objects_other [of "rtcp_cipher t" "rtp_cipher t" "rtcp_auth t" "rtp_auth t"]
  by (auto simp: endpoint_def) (simp add: put_objects_def)

lemma endpoint_rtcp_step:
  assumes "endpoint B su cu k n e t" and "suite_keyed (put_objects (rtcp_cipher t) c (rtcp_auth t) a e) (rtcp_cipher t) (rtcp_auth t) cu"
  shows "endpoint B su cu k n (put_objects (rtcp_cipher t) c (rtcp_auth t) a e) t"
  using assms put_objects_other [of "rtp_cipher t" "rtcp_cipher t" "rtp_auth t" "rtcp_auth t"] rest_of_rtcp
  by (auto simp: endpoint_def) (simp add: put_objects_def)

lemma endpoint_key_step:
  assumes "endpoint B su cu k (Suc n) e t" and "limit t = Some la" and "limit_heap e la = Some l"
    and "unat (num_left l') = unat (num_left l) - 1"
  shows "endpoint B su cu k n (e\<lparr>limit_heap := (limit_heap e)(la \<mapsto> l')\<rparr>) t"
  using assms by (auto simp: endpoint_def)

lemma endpoint_limit:
  assumes "endpoint B su cu k (Suc n) e t"
  obtains la l where "limit t = Some la" and "limit_heap e la = Some l" and "1 < unat (num_left l)"
  using assms by (auto simp: endpoint_def)

text \<open>Cloning succeeds and gives an empty window of the template's size.\<close>

lemma srtp_stream_clone_ok:
  assumes "endpoint B su cu k n e t"
  obtains new where "srtp_stream_clone t s e = (err_status_ok, Some new, bump (bump e))" and "clone_of t new" and "ssrc new = s"
    and "rtp_rdbx new = fresh_rdbx k" and "rtcp_rdb new = snd rdb_init"
proof -
  note D = endpointD [OF assms]
  obtain str where str: "stream_mem e (env_allocs e) = Some str" using env_readyD(6) [OF D(1)] by blast
  obtain la where la: "limit t = Some la" using assms by (auto simp: endpoint_def)
  note w = window_words_fresh [OF D(3,4,11)]
  have "rdbx_init (vector_mem e (env_allocs e + 1)) (rtp_rdbx str) (rdbx_get_window_size (rtp_rdbx t)) = (err_status_ok, fresh_rdbx k)"
    using rdbx_init_fresh [OF D(1) w(2,3), unfolded w(1)] .
  with str la show ?thesis
    by (intro that [of "\<lparr>ssrc = s, rtp_cipher = rtp_cipher t, rtp_auth = rtp_auth t, rtp_rdbx = fresh_rdbx k, rtp_services = rtp_services t,
        rtcp_cipher = rtcp_cipher t, rtcp_auth = rtcp_auth t, rtcp_rdb = snd rdb_init, rtcp_services = rtcp_services t, limit = limit t,
        direction = direction t, allow_repeat_tx = allow_repeat_tx t, ekt = ekt t\<rparr>"])
      (simp_all add: srtp_stream_clone_def key_limit_clone_def clone_of_def)
qed

section \<open>Sending RTP\<close>

text \<open>What the replay check lets pass: a new index, or a repeated one in the window where the policy allows it.\<close>

definition passes :: "int \<Rightarrow> err_status_t \<Rightarrow> bool" where
  "passes rep st \<longleftrightarrow> st = err_status_ok \<or> st = err_status_replay_fail \<and> rep \<noteq> 0"

lemma protect_stream_ok:
  assumes e: "endpoint B su cu k (Suc n) e t" and str: "clone_of t str" and p: "rtp_well p" "hdr_seq p = Some q" and room: "12 \<le> length room"
    and est: "rdbx_estimate_index (rtp_rdbx str) (bswap16 q) = (delta, est)" and st: "rdbx_check (rtp_rdbx str) delta = Some st"
    and add: "passes (su_repeat su) st \<Longrightarrow> if st = err_status_ok then rdbx_add_index (rtp_rdbx str) delta = Some (x, r') else r' = rtp_rdbx str"
  obtains d rest e' where "protect_stream str (p @ room) (int (length p)) e =
      Some (if passes (su_repeat su) st
        then (err_status_ok, str\<lparr>direction := d, rtp_rdbx := r'\<rparr>, srtp_packet su est p @ rest, int (length (srtp_packet su est p)), e')
        else (st, str\<lparr>direction := d\<rparr>, p @ room, int (length p), e'))"
    and "endpoint B su cu k n e' t"
proof -
  obtain d log where d: "mark_direction dir_srtp_sender str e = (str\<lparr>direction := d\<rparr>, e\<lparr>event_log := log\<rparr>)"
    by (rule mark_direction_cases)
  let ?str = "str\<lparr>direction := d\<rparr>" and ?e0 = "e\<lparr>event_log := log\<rparr>"
  have e0: "endpoint B su cu k (Suc n) ?e0 t" using e by simp
  from endpoint_limit [OF e0] obtain la l where l: "limit t = Some la" "limit_heap ?e0 la = Some l" "1 < unat (num_left l)" .
  have ls: "limit ?str = Some la" using str l(1) by (simp add: clone_of_def)
  from use_key_ok [OF ls l(2,3)] obtain l' log' where u: "use_key ?str ?e0 =
      Some (err_status_ok, ?e0\<lparr>limit_heap := (limit_heap ?e0)(la \<mapsto> l'), event_log := log'\<rparr>)" (is "_ = Some (_, ?e1)")
    "unat (num_left l') = unat (num_left l) - 1" .
  have e1: "endpoint B su cu k n ?e1 t" using endpoint_key_step [OF e l(1) _ u(2)] l(2) by simp
  note D = endpointD [OF e1]
  have same: "rtp_cipher str = rtp_cipher t" "rtp_auth str = rtp_auth t" "rtp_services str = su_services su" "allow_repeat_tx str = su_repeat su"
    using str D(7,9) by (simp_all add: clone_of_def)
  from D(5) obtain ac where ac: "auth_heap ?e1 (rtp_auth t) = Some ac" "auth_get_tag_length ac = int (su_tag_len su)"
    using auth_rep_lengths(1) by (auto elim: suite_keyedE)
  from p(1) obtain off where off: "rtp_enc_start p = Some (int off)" "off \<le> length p" and len: "12 \<le> length p" by (rule rtp_wellD)
  have off': "rtp_enc_start (p @ room) = Some (int off)" by (rule rtp_enc_start_agree [OF off(1)]) (use off(2) in simp)
  have q': "hdr_seq (p @ room) = Some q" using p(2) len by (simp add: hdr_seq_def)
  have start: "(if serv_conf (rtp_services ?str) then map_option Some (rtp_enc_start (p @ room)) else Some None) =
      Some (if serv_conf (su_services su) then Some (int off) else None)" using off' same by simp
  have acs: "auth_heap ?e1 (rtp_auth ?str) = Some ac" "rtp_rdbx ?str = rtp_rdbx str" using ac(1) same by simp_all
  have run: "protect_stream str (p @ room) (int (length p)) e =
      (if st \<noteq> err_status_ok \<and> (st \<noteq> err_status_replay_fail \<or> allow_repeat_tx ?str = 0) then Some (st, ?str, p @ room, int (length p), ?e1)
       else do {
         rdbx \<leftarrow> (if st \<noteq> err_status_ok then Some (rtp_rdbx str) else map_option snd (rdbx_add_index (rtp_rdbx str) delta));
         (status, pkt, len, e) \<leftarrow> protect_transform (?str\<lparr>rtp_rdbx := rdbx\<rparr>)
           (if serv_conf (su_services su) then Some (int off) else None) est (p @ room) (int (length p)) (int (su_tag_len su)) ?e1;
         Some (status, ?str\<lparr>rtp_rdbx := rdbx\<rparr>, pkt, len, e)
       })"
    unfolding protect_stream_def d prod.case Let_def u(1) Option.bind.bind_lunit acs start q' est st ac(2) by simp
  show ?thesis
  proof (cases "passes (su_repeat su) st")
    case True
    let ?str' = "?str\<lparr>rtp_rdbx := r'\<rparr>"
    have pre: "suite_keyed ?e1 (rtp_cipher ?str') (rtp_auth ?str') su" "rtp_services ?str' = su_services su" "su_tag_len su \<le> length room"
      "(if serv_conf (su_services su) then Some (int off) else None) = (if serv_conf (su_services su) then Some (the (rtp_enc_start p)) else None)"
      using D(5,14) room same off(1) by simp_all
    obtain c a where t: "protect_transform ?str' (if serv_conf (su_services su) then Some (int off) else None) est (p @ room)
          (int (length p)) (int (su_tag_len su)) ?e1 =
        Some (err_status_ok, srtp_packet su est p @ drop (length (srtp_packet su est p) - length p) room,
          int (length (srtp_packet su est p)), put_objects (rtp_cipher ?str') c (rtp_auth ?str') a ?e1)"
      "suite_keyed (put_objects (rtp_cipher ?str') c (rtp_auth ?str') a ?e1) (rtp_cipher ?str') (rtp_auth ?str') su"
      by (rule protect_transform_keyed [OF pre(1,2) p(1) pre(3,4)])
    have en: "endpoint B su cu k n (put_objects (rtp_cipher ?str') c (rtp_auth ?str') a ?e1) t"
      using endpoint_rtp_step [OF e1] t(2) same by simp
    have run': "protect_stream str (p @ room) (int (length p)) e = Some (err_status_ok, ?str',
        srtp_packet su est p @ drop (length (srtp_packet su est p) - length p) room, int (length (srtp_packet su est p)),
        put_objects (rtp_cipher ?str') c (rtp_auth ?str') a ?e1)"
      using run t(1) add [OF True] same(4) True unfolding passes_def by (auto split: if_splits)
    show ?thesis by (rule that [OF _ en, of d "drop (length (srtp_packet su est p) - length p) room"]) (simp only: run' True simp_thms if_True)
  next
    case False
    show ?thesis by (rule that [OF _ e1, of d]) (use False run same(4) in \<open>auto simp: passes_def\<close>)
  qed
qed

section \<open>Sessions\<close>

text \<open>The list of streams as a map from SSRCs, and the part of it that decides about packets: the replay databases.\<close>

definition streams :: "srtp_stream_ctx_t list \<Rightarrow> u32 \<rightharpoonup> srtp_stream_ctx_t" where
  "streams strs s = map_option ((!) strs) (find_stream strs s)"

definition databases :: "srtp_stream_ctx_t list \<Rightarrow> u32 \<rightharpoonup> rdbx_t \<times> rdb_t" where
  "databases strs s = map_option (\<lambda>x. (rtp_rdbx x, rtcp_rdb x)) (streams strs s)"

definition database :: "nat \<Rightarrow> srtp_stream_ctx_t list \<Rightarrow> u32 \<Rightarrow> rdbx_t \<times> rdb_t" where
  "database k strs s = (case databases strs s of None \<Rightarrow> (fresh_rdbx k, snd rdb_init) | Some x \<Rightarrow> x)"

lemma find_stream_Some: "find_stream strs s = Some i \<Longrightarrow> i < length strs \<and> ssrc (strs ! i) = s"
  by (induction strs arbitrary: i) (auto split: if_splits)

lemma streams_simps:
  "streams [] s = None" "streams (x # strs) s = (if ssrc x = s then Some x else streams strs s)"
  by (auto simp: streams_def option.map_comp comp_def)

lemma find_stream_update: "ssrc x = ssrc (strs ! i) \<Longrightarrow> find_stream (strs[i := x]) s = find_stream strs s"
  by (induction strs arbitrary: i) (auto split: nat.splits)

lemma streams_update:
  assumes "find_stream strs s = Some i" and "ssrc x = s"
  shows "streams (strs[i := x]) = (streams strs)(s \<mapsto> x)"
proof
  fix s'
  note i = find_stream_Some [OF assms(1)]
  have f: "find_stream (strs[i := x]) s' = find_stream strs s'" by (rule find_stream_update) (use i assms(2) in simp)
  show "streams (strs[i := x]) s' = ((streams strs)(s \<mapsto> x)) s'"
  proof (cases "s' = s")
    case False
    then have "j \<noteq> i" if "find_stream strs s' = Some j" for j using find_stream_Some [OF that] i by auto
    with False f show ?thesis by (auto simp: streams_def intro!: option.map_cong0 split: option.splits)
  qed (use f assms i in \<open>simp add: streams_def\<close>)
qed

lemma databases_Cons:
  "databases (x # strs) = (databases strs)(ssrc x \<mapsto> (rtp_rdbx x, rtcp_rdb x))"
  by (auto simp: databases_def streams_simps)

lemma databases_update:
  "find_stream strs s = Some i \<Longrightarrow> ssrc x = s \<Longrightarrow> databases (strs[i := x]) = (databases strs)(s \<mapsto> (rtp_rdbx x, rtcp_rdb x))"
  by (auto simp: databases_def streams_update)

lemma databases_nth:
  "find_stream strs s = Some i \<Longrightarrow> databases strs s = Some (rtp_rdbx (strs ! i), rtcp_rdb (strs ! i))"
  by (simp add: databases_def streams_def)

definition session :: "store_rest \<Rightarrow> suite \<Rightarrow> suite \<Rightarrow> nat \<Rightarrow> nat \<Rightarrow> srtp_env \<Rightarrow> srtp_ctx_t \<Rightarrow> bool" where
  "session B su cu k n e ctx \<longleftrightarrow> (\<exists>t. stream_template ctx = Some t \<and> endpoint B su cu k n e t \<and> (\<forall>x\<in>set (stream_list ctx). clone_of t x))"

lemma session_update:
  assumes "stream_template ctx = Some t" and "\<forall>x\<in>set (stream_list ctx). clone_of t x" and "endpoint B su cu k n e t" and "clone_of t x"
  shows "session B su cu k n e (ctx\<lparr>stream_list := (stream_list ctx)[i := x]\<rparr>)"
  using assms by (auto simp: session_def dest: set_update_subset_insert [THEN subsetD])

text \<open>The stream a sender uses: the one with the SSRC of the packet, or a clone of the template put in front.\<close>

lemma sender_stream_ok:
  assumes ctx: "session B su cu k n e ctx" and prep: "\<And>x. \<exists>d. prepare x = x\<lparr>direction := d\<rparr>"
  obtains t i ctx' e' where "sender_stream prepare ctx s e = (err_status_ok, Some i, ctx', e')"
    and "stream_template ctx' = Some t" and "endpoint B su cu k n e' t" and "\<forall>x\<in>set (stream_list ctx'). clone_of t x"
    and "find_stream (stream_list ctx') s = Some i"
    and "databases (stream_list ctx') = (databases (stream_list ctx))(s \<mapsto> database k (stream_list ctx) s)"
    and "(rtp_rdbx (stream_list ctx' ! i), rtcp_rdb (stream_list ctx' ! i)) = database k (stream_list ctx) s"
proof -
  from ctx obtain t where t: "stream_template ctx = Some t" "endpoint B su cu k n e t" "\<forall>x\<in>set (stream_list ctx). clone_of t x"
    by (auto simp: session_def)
  show ?thesis
  proof (cases "find_stream (stream_list ctx) s")
    case None
    then have db: "database k (stream_list ctx) s = (fresh_rdbx k, snd rdb_init)" by (simp add: database_def databases_def streams_def)
    obtain new where new: "srtp_stream_clone t s e = (err_status_ok, Some new, bump (bump e))" "clone_of t new" "ssrc new = s"
      "rtp_rdbx new = fresh_rdbx k" "rtcp_rdb new = snd rdb_init"
      by (rule srtp_stream_clone_ok [OF t(2)])
    obtain d where d: "prepare new = new\<lparr>direction := d\<rparr>" using prep by blast
    have run: "sender_stream prepare ctx s e = (err_status_ok, Some 0, ctx\<lparr>stream_list := prepare new # stream_list ctx\<rparr>, bump (bump e))"
      using None t(1) new(1) by (simp add: sender_stream_def srtp_get_stream_def)
    show ?thesis using t new d db by (intro that [OF run, of t]) (simp_all add: databases_Cons)
  next
    case (Some i)
    note nth = databases_nth [OF Some]
    have run: "sender_stream prepare ctx s e = (err_status_ok, Some i, ctx, e)"
      using Some by (simp add: sender_stream_def srtp_get_stream_def)
    show ?thesis using t Some nth by (intro that [OF run, of t]) (simp_all add: database_def fun_upd_idem)
  qed
qed

lemma srtp_protect_ok:
  assumes ctx: "session B su cu k (Suc n) e ctx" and p: "rtp_well p" "hdr_ssrc p = Some s" "hdr_seq p = Some q" and room: "12 \<le> length room"
    and r: "database k (stream_list ctx) s = (r, c)" and est: "rdbx_estimate_index r (bswap16 q) = (delta, est)"
    and st: "rdbx_check r delta = Some st"
    and add: "passes (su_repeat su) st \<Longrightarrow> if st = err_status_ok then rdbx_add_index r delta = Some (x, r') else r' = r"
  obtains ctx' rest e' where "srtp_protect ctx (p @ room) (int (length p)) e =
      Some (if passes (su_repeat su) st then (err_status_ok, ctx', srtp_packet su est p @ rest, int (length (srtp_packet su est p)), e')
        else (st, ctx', p @ room, int (length p), e'))"
    and "session B su cu k n e' ctx'"
    and "databases (stream_list ctx') = (databases (stream_list ctx))(s \<mapsto> (if passes (su_repeat su) st then r' else r, c))"
proof -
  obtain t i ctx1 e1 where run: "sender_stream (\<lambda>n. n\<lparr>direction := dir_srtp_sender\<rparr>) ctx s e = (err_status_ok, Some i, ctx1, e1)"
    and t: "stream_template ctx1 = Some t" "endpoint B su cu k (Suc n) e1 t" "\<forall>x\<in>set (stream_list ctx1). clone_of t x"
    and i: "find_stream (stream_list ctx1) s = Some i"
    and db: "databases (stream_list ctx1) = (databases (stream_list ctx))(s \<mapsto> database k (stream_list ctx) s)"
      "(rtp_rdbx (stream_list ctx1 ! i), rtcp_rdb (stream_list ctx1 ! i)) = database k (stream_list ctx) s"
    by (rule sender_stream_ok [OF ctx, where prepare = "\<lambda>n. n\<lparr>direction := dir_srtp_sender\<rparr>"]) blast
  let ?str = "stream_list ctx1 ! i"
  have str: "rtp_rdbx ?str = r" "rtcp_rdb ?str = c" "clone_of t ?str" "ssrc ?str = s"
    using db(2) r t(3) find_stream_Some [OF i] by simp_all
  obtain d rest e' where ps: "protect_stream ?str (p @ room) (int (length p)) e1 =
      Some (if passes (su_repeat su) st
        then (err_status_ok, ?str\<lparr>direction := d, rtp_rdbx := r'\<rparr>, srtp_packet su est p @ rest, int (length (srtp_packet su est p)), e')
        else (st, ?str\<lparr>direction := d\<rparr>, p @ room, int (length p), e'))"
    and e': "endpoint B su cu k n e' t"
    by (rule protect_stream_ok [OF t(2) str(3) p(1,3) room, unfolded str(1), OF est st add])
  let ?x = "if passes (su_repeat su) st then ?str\<lparr>direction := d, rtp_rdbx := r'\<rparr> else ?str\<lparr>direction := d\<rparr>"
  have "\<not> int (length p) < octets_in_rtp_header" "hdr_ssrc (p @ room) = Some s"
    using p(1,2) by (auto elim: rtp_wellD simp: octets_in_rtp_header_def hdr_ssrc_def)
  then have main: "srtp_protect ctx (p @ room) (int (length p)) e = Some (if passes (su_repeat su) st
      then (err_status_ok, ctx1\<lparr>stream_list := (stream_list ctx1)[i := ?x]\<rparr>, srtp_packet su est p @ rest, int (length (srtp_packet su est p)), e')
      else (st, ctx1\<lparr>stream_list := (stream_list ctx1)[i := ?x]\<rparr>, p @ room, int (length p), e'))"
    using run ps by (simp add: srtp_protect_def)
  show ?thesis
  proof (rule that [OF main])
    show "session B su cu k n e' (ctx1\<lparr>stream_list := (stream_list ctx1)[i := ?x]\<rparr>)"
      by (rule session_update [OF t(1,3) e']) (simp add: str(3))
    show "databases (stream_list (ctx1\<lparr>stream_list := (stream_list ctx1)[i := ?x]\<rparr>)) =
        (databases (stream_list ctx))(s \<mapsto> (if passes (su_repeat su) st then r' else r, c))"
      using databases_update [OF i, of ?x] str db(1) by simp
  qed
qed

section \<open>Receiving RTP\<close>

lemma rtp_well_crypt:
  assumes "rtp_well p"
  shows "rtp_well (rtp_crypt su est p)"
proof (cases "serv_conf (su_services su)")
  case True
  from assms obtain off where off: "rtp_enc_start p = Some (int off)" "off \<le> length p" "12 \<le> length p" "length p \<le> 65535"
    by (rule rtp_wellD)
  have "take (nat (int off)) (rtp_crypt su est p) = take (nat (int off)) p"
    using rtp_crypt_agree(2) [OF assms, of su est] True off(1) by (simp add: rtp_offset_def)
  from rtp_enc_start_agree [OF off(1) this] show ?thesis using off rtp_crypt_agree(1) [OF assms] by (simp add: rtp_well_def)
next
  case False
  then show ?thesis using assms by (simp add: rtp_crypt_def rtp_offset_def crypt_octets_none)
qed

lemma length_srtp_packet:
  assumes "suites_ok su cu" and "rtp_well p"
  shows "int (length (srtp_packet su est p)) = int (length p) + int (su_tag_len su)"
  using assms rtp_crypt_agree(1) [OF assms(2)] by (auto simp: srtp_packet_def rtp_tag_def suites_ok_def)

text \<open>A packet that the transform made is accepted and comes out as it went in.\<close>

lemma unprotect_stream_ok:
  assumes e: "endpoint B su cu k (Suc n) e t" and str: "clone_of t str" and p: "rtp_well p"
  obtains d rest e' where "unprotect_stream str est (srtp_packet su est p @ room) (int (length (srtp_packet su est p))) e =
      Some (err_status_ok, str\<lparr>direction := d\<rparr>, p @ rest, int (su_tag_len su), e')"
    and "endpoint B su cu k n e' t"
proof -
  note D = endpointD [OF e]
  let ?c = "rtp_crypt su est p"
  from endpoint_limit [OF e] obtain la l where l: "limit t = Some la" "limit_heap e la = Some l" "1 < unat (num_left l)" .
  have same: "rtp_cipher str = rtp_cipher t" "rtp_auth str = rtp_auth t" "rtp_services str = su_services su" "limit str = Some la"
    using str D(7) l(1) by (simp_all add: clone_of_def)
  have keyed: "suite_keyed e (rtp_cipher str) (rtp_auth str) su" using D(5) same by simp
  obtain d co a l' log where u: "unprotect_stream str est (?c @ rtp_tag su est ?c @ room) (int (length ?c) + int (su_tag_len su)) e =
      Some (err_status_ok, str\<lparr>direction := d\<rparr>, rtp_crypt su est ?c @ rtp_tag su est ?c @ room, int (su_tag_len su),
        (put_objects (rtp_cipher str) co (rtp_auth str) a e)\<lparr>limit_heap := (limit_heap e)(la \<mapsto> l'), event_log := log\<rparr>)"
      (is "_ = Some (_, _, _, _, ?e')")
    and k': "suite_keyed (put_objects (rtp_cipher str) co (rtp_auth str) a e) (rtp_cipher str) (rtp_auth str) su"
    and l': "unat (num_left l') = unat (num_left l) - 1"
    by (rule unprotect_stream_accept [OF keyed same(3) D(16) rtp_well_crypt [OF p] D(14,13) same(4) l(2,3)])
  have e1: "endpoint B su cu k (Suc n) (put_objects (rtp_cipher str) co (rtp_auth str) a e) t"
    using endpoint_rtp_step [OF e] k' same by simp
  have "limit_heap (put_objects (rtp_cipher str) co (rtp_auth str) a e) = limit_heap e" by (simp add: put_objects_def)
  then have e': "endpoint B su cu k n ?e' t" using endpoint_key_step [OF e1 l(1) _ l'] l(2) by simp
  have len: "int (length (srtp_packet su est p)) = int (length ?c) + int (su_tag_len su)"
    unfolding length_srtp_packet [OF D(2) p] rtp_crypt_agree(1) [OF p] ..
  have pkt: "srtp_packet su est p @ room = ?c @ rtp_tag su est ?c @ room" by (simp add: srtp_packet_def)
  show ?thesis by (rule that [OF _ e']) (unfold len pkt, rule u [unfolded rtp_crypt_twice [OF p]])
qed

lemma rdbx_estimate_fresh: "rdbx_estimate_index (fresh_rdbx k) x = (uint x, ucast x)"
  by (simp add: rdbx_estimate_index_def fresh_rdbx_def seq_num_median_def)

lemma hdr_srtp_packet:
  assumes "rtp_well p"
  shows "hdr_ssrc (srtp_packet su est p @ room) = hdr_ssrc p" "hdr_seq (srtp_packet su est p @ room) = hdr_seq p"
proof -
  have "12 \<le> length p" using assms by (rule rtp_wellD)
  then have "take 12 (srtp_packet su est p @ room) = take 12 p"
    using rtp_crypt_agree(1,3) [OF assms, of su est] by (simp add: srtp_packet_def)
  from hdr_agree [OF this] show "hdr_ssrc (srtp_packet su est p @ room) = hdr_ssrc p" "hdr_seq (srtp_packet su est p @ room) = hdr_seq p" .
qed

lemma srtp_unprotect_ok:
  assumes ctx: "session B su cu k (Suc n) e ctx" and p: "rtp_well p" "hdr_ssrc p = Some s" "hdr_seq p = Some q"
    and r: "database k (stream_list ctx) s = (r, c)" and est: "rdbx_estimate_index r (bswap16 q) = (delta, est)"
    and st: "rdbx_check r delta = Some st" "passes (su_repeat su) st" and add: "rdbx_add_index r delta = Some (x, r')"
  obtains ctx' rest e' where "srtp_unprotect ctx (srtp_packet su est p @ room) (int (length (srtp_packet su est p))) e =
      Some (err_status_ok, ctx', p @ rest, int (length p), e')"
    and "session B su cu k n e' ctx'" and "databases (stream_list ctx') = (databases (stream_list ctx))(s \<mapsto> (r', c))"
proof -
  from ctx obtain t where t: "stream_template ctx = Some t" "endpoint B su cu k (Suc n) e t" "\<forall>x\<in>set (stream_list ctx). clone_of t x"
    by (auto simp: session_def)
  let ?pkt = "srtp_packet su est p @ room" and ?len = "int (length (srtp_packet su est p))"
  have h: "hdr_ssrc ?pkt = Some s" "hdr_seq ?pkt = Some q" "\<not> ?len < octets_in_rtp_header"
    using hdr_srtp_packet [OF p(1)] p length_srtp_packet [OF endpointD(2) [OF t(2)] p(1)]
    by (auto elim: rtp_wellD simp: octets_in_rtp_header_def)
  have len: "?len - int (su_tag_len su) = int (length p)" using length_srtp_packet [OF endpointD(2) [OF t(2)] p(1)] by simp
  show ?thesis
  proof (cases "find_stream (stream_list ctx) s")
    case (Some i)
    let ?str = "stream_list ctx ! i"
    have str: "rtp_rdbx ?str = r" "rtcp_rdb ?str = c" "clone_of t ?str" "ssrc ?str = s"
      using databases_nth [OF Some] r t(3) find_stream_Some [OF Some] by (simp_all add: database_def)
    have rep: "st = err_status_ok \<or> allow_repeat_tx ?str \<noteq> 0" using st(2) endpointD(9) [OF t(2)] str(3) by (auto simp: passes_def clone_of_def)
    obtain d rest e' where u: "unprotect_stream ?str est ?pkt ?len e = Some (err_status_ok, ?str\<lparr>direction := d\<rparr>, p @ rest, int (su_tag_len su), e')"
      "endpoint B su cu k n e' t"
      by (rule unprotect_stream_ok [OF t(2) str(3) p(1)])
    let ?x = "?str\<lparr>direction := d, rtp_rdbx := r'\<rparr>"
    have run: "srtp_unprotect ctx ?pkt ?len e =
        Some (err_status_ok, ctx\<lparr>stream_list := (stream_list ctx)[i := ?x]\<rparr>, p @ rest, int (length p), e')"
      using Some h str(1) est st(1) rep add u(1) len by (auto simp: srtp_unprotect_def srtp_get_stream_def unprotect_known_def Let_def)
    show ?thesis
      using databases_update [OF Some, of ?x] str session_update [OF t(1,3) u(2), of ?x i] by (intro that [OF run]) simp_all
  next
    case None
    then have db: "r = fresh_rdbx k" "c = snd rdb_init" using r by (simp_all add: database_def databases_def streams_def)
    have de: "delta = uint (bswap16 q)" "est = ucast (bswap16 q)" using est unfolding db rdbx_estimate_fresh by simp_all
    have self: "clone_of t t" by (simp add: clone_of_def)
    obtain d rest e' where u: "unprotect_stream t est ?pkt ?len e = Some (err_status_ok, t\<lparr>direction := d\<rparr>, p @ rest, int (su_tag_len su), e')"
      "endpoint B su cu k n e' t"
      by (rule unprotect_stream_ok [OF t(2) self p(1)])
    let ?t = "t\<lparr>direction := d\<rparr>"
    have et: "endpoint B su cu k n e' ?t" using u(2) by simp
    obtain new where new: "srtp_stream_clone ?t s e' = (err_status_ok, Some new, bump (bump e'))" "clone_of ?t new" "ssrc new = s"
      "rtp_rdbx new = fresh_rdbx k" "rtcp_rdb new = snd rdb_init"
      by (rule srtp_stream_clone_ok [OF et])
    have s': "hdr_ssrc (p @ rest) = Some s" using p(1,2) by (auto elim: rtp_wellD simp: hdr_ssrc_def)
    have "unprotect_new ctx t ?pkt ?len e = Some (err_status_ok,
        ctx\<lparr>stream_template := Some ?t, stream_list := new\<lparr>rtp_rdbx := r'\<rparr> # stream_list ctx\<rparr>, p @ rest, int (length p), bump (bump e'))"
      using h s' u(1) new add db len de by (simp add: unprotect_new_def)
    then have run: "srtp_unprotect ctx ?pkt ?len e = Some (err_status_ok,
        ctx\<lparr>stream_template := Some ?t, stream_list := new\<lparr>rtp_rdbx := r'\<rparr> # stream_list ctx\<rparr>, p @ rest, int (length p), bump (bump e'))"
      using None h t(1) by (simp add: srtp_unprotect_def srtp_get_stream_def)
    show ?thesis
    proof (rule that [OF run])
      show "session B su cu k n (bump (bump e')) (ctx\<lparr>stream_template := Some ?t, stream_list := new\<lparr>rtp_rdbx := r'\<rparr> # stream_list ctx\<rparr>)"
        using et new(2) t(3) by (auto simp: session_def)
    qed (use new db in \<open>simp add: databases_Cons\<close>)
  qed
qed

section \<open>RTCP\<close>

lemma srtp_protect_rtcp_ok:
  assumes ctx: "session B su cu k n e ctx" and p: "rtcp_well p" "rtcp_ssrc p = Some s" and room: "16 \<le> length room"
    and r: "database k (stream_list ctx) s = (r, c)" and idx: "unat (window_start c) + 1 < 2 ^ 31"
  obtains ctx' rest e' where "srtp_protect_rtcp ctx (p @ room) (int (length p)) e =
      Some (err_status_ok, ctx', srtcp_packet cu (window_start c + 1) p @ rest, int (length (srtcp_packet cu (window_start c + 1) p)), e')"
    and "session B su cu k n e' ctx'"
    and "databases (stream_list ctx') = (databases (stream_list ctx))(s \<mapsto> (r, snd (rdb_increment c)))"
proof -
  obtain t i ctx1 e1 where run: "sender_stream (\<lambda>n. n) ctx s e = (err_status_ok, Some i, ctx1, e1)"
    and t: "stream_template ctx1 = Some t" "endpoint B su cu k n e1 t" "\<forall>x\<in>set (stream_list ctx1). clone_of t x"
    and i: "find_stream (stream_list ctx1) s = Some i"
    and db: "databases (stream_list ctx1) = (databases (stream_list ctx))(s \<mapsto> database k (stream_list ctx) s)"
      "(rtp_rdbx (stream_list ctx1 ! i), rtcp_rdb (stream_list ctx1 ! i)) = database k (stream_list ctx) s"
    by (rule sender_stream_ok [OF ctx, where prepare = "\<lambda>n. n"]) (metis srtp_stream_ctx_t.surjective srtp_stream_ctx_t.update_convs(11))
  let ?str = "stream_list ctx1 ! i" and ?idx = "window_start c + 1"
  note D = endpointD [OF t(2)]
  have str: "rtp_rdbx ?str = r" "rtcp_rdb ?str = c" "clone_of t ?str" "ssrc ?str = s"
    using db(2) r t(3) find_stream_Some [OF i] by simp_all
  have same: "rtcp_cipher ?str = rtcp_cipher t" "rtcp_auth ?str = rtcp_auth t" "rtcp_services ?str = su_services cu" "ekt ?str = None"
    using str(3) D(8,10) by (simp_all add: clone_of_def)
  have pre: "suite_keyed e1 (rtcp_cipher ?str) (rtcp_auth ?str) cu" "4 + su_tag_len cu \<le> length room" "4 < length room"
    "unat (window_start (rtcp_rdb ?str)) + 1 < 2 ^ 31"
    using D(6,15) same room idx str(2) by simp_all
  obtain d log co a rest where ps: "protect_rtcp_stream ?str (p @ room) (int (length p)) e1 =
      Some (err_status_ok, ?str\<lparr>direction := d, rtcp_rdb := snd (rdb_increment c)\<rparr>,
        srtcp_packet cu ?idx p @ rest, int (length (srtcp_packet cu ?idx p)),
        (put_objects (rtcp_cipher ?str) co (rtcp_auth ?str) a e1)\<lparr>event_log := log\<rparr>)" (is "_ = Some (_, ?x, _, _, ?e')")
    and k': "suite_keyed (put_objects (rtcp_cipher ?str) co (rtcp_auth ?str) a e1) (rtcp_cipher ?str) (rtcp_auth ?str) cu"
    by (rule protect_rtcp_stream_keyed [OF pre(1) same(3,4) p(1) pre(2,3,4), unfolded str(2)])
  have e': "endpoint B su cu k n ?e' t" using endpoint_rtcp_step [OF t(2)] k' same by simp
  have "rtcp_ssrc (p @ room) = Some s" using p by (simp add: rtcp_well_def rtcp_ssrc_def)
  then have main: "srtp_protect_rtcp ctx (p @ room) (int (length p)) e = Some (err_status_ok,
      ctx1\<lparr>stream_list := (stream_list ctx1)[i := ?x]\<rparr>, srtcp_packet cu ?idx p @ rest, int (length (srtcp_packet cu ?idx p)), ?e')"
    using run ps by (simp add: srtp_protect_rtcp_def)
  show ?thesis
  proof (rule that [OF main])
    show "session B su cu k n ?e' (ctx1\<lparr>stream_list := (stream_list ctx1)[i := ?x]\<rparr>)"
      by (rule session_update [OF t(1,3) e']) (simp add: str(3))
    show "databases (stream_list (ctx1\<lparr>stream_list := (stream_list ctx1)[i := ?x]\<rparr>)) =
        (databases (stream_list ctx))(s \<mapsto> (r, snd (rdb_increment c)))"
      using databases_update [OF i, of ?x] str db(1) by simp
  qed
qed

lemma rtcp_well_crypt: "rtcp_well p \<Longrightarrow> rtcp_well (rtcp_crypt su idx p)"
  using rtcp_crypt_agree(1) by (simp add: rtcp_well_def)

lemma length_srtcp_packet:
  "rtcp_well p \<Longrightarrow> int (length (srtcp_packet su idx p)) = int (length (rtcp_crypt su idx p)) + 4 + int (su_tag_len su)"
  by (simp add: srtcp_packet_def Let_def)

lemma unprotect_rtcp_stream_ok:
  assumes e: "endpoint B su cu k n e t" and str: "clone_of t str" and p: "rtcp_well p"
    and idx: "unat idx < 2 ^ 31" "rdb_check (rtcp_rdb str) idx = Some err_status_ok"
  obtains rest e' where "unprotect_rtcp_stream str (srtcp_packet cu idx p @ room) (int (length (srtcp_packet cu idx p))) e =
      Some (err_status_ok, idx, p @ rest, int (length p), e')"
    and "endpoint B su cu k n e' t"
proof -
  note D = endpointD [OF e]
  let ?c = "rtcp_crypt cu idx p" and ?w = "rtcp_flag cu OR idx"
  have same: "rtcp_cipher str = rtcp_cipher t" "rtcp_auth str = rtcp_auth t" "ekt str = None"
    using str D(10) by (simp_all add: clone_of_def)
  have keyed: "suite_keyed e (rtcp_cipher str) (rtcp_auth str) cu" using D(6) same by simp
  have w: "?w AND SRTCP_INDEX_MASK = idx" "bit ?w 31 \<longleftrightarrow> serv_conf (su_services cu)"
    using rtcp_trailer_index [OF idx(1)] index_mask(2) [OF idx(1)] by (simp_all add: rtcp_flag_def bit_or_iff SRTCP_E_BIT_def)
  have cw: "rtcp_well ?c" by (rule rtcp_well_crypt [OF p])
  have tl: "length (rtcp_mac cu (?c @ rtcp_trailer cu idx)) = su_tag_len cu" by simp
  obtain co a where u: "unprotect_rtcp_stream str (?c @ rtcp_trailer cu idx @ rtcp_mac cu (?c @ rtcp_trailer cu idx) @ room)
        (int (length ?c) + 4 + int (su_tag_len cu)) e =
      Some (err_status_ok, idx, rtcp_crypt cu idx ?c @ rtcp_trailer cu idx @ rtcp_mac cu (?c @ rtcp_trailer cu idx) @ room,
        int (length ?c), put_objects (rtcp_cipher str) co (rtcp_auth str) a e)"
    and k': "suite_keyed (put_objects (rtcp_cipher str) co (rtcp_auth str) a e) (rtcp_cipher str) (rtcp_auth str) cu"
    by (rule unprotect_rtcp_stream_keyed [OF keyed same(3) cw D(15,13) tl w(2), where room = room, unfolded w(1), OF idx(2) disjI1 [OF refl], folded rtcp_trailer_def])
      (simp add: Let_def)
  have e': "endpoint B su cu k n (put_objects (rtcp_cipher str) co (rtcp_auth str) a e) t" using endpoint_rtcp_step [OF e] k' same by simp
  have pkt: "srtcp_packet cu idx p @ room = ?c @ rtcp_trailer cu idx @ rtcp_mac cu (?c @ rtcp_trailer cu idx) @ room"
    by (simp add: srtcp_packet_def Let_def)
  show ?thesis
    by (rule that [OF _ e']) (unfold length_srtcp_packet [OF p] rtcp_crypt_agree(1) [OF p] pkt, rule u [unfolded rtcp_crypt_twice [OF p] rtcp_crypt_agree(1) [OF p]])
qed

lemma srtp_unprotect_rtcp_ok:
  assumes ctx: "session B su cu k n e ctx" and p: "rtcp_well p" "rtcp_ssrc p = Some s"
    and r: "database k (stream_list ctx) s = (r, c)" and idx: "unat idx < 2 ^ 31" "rdb_check c idx = Some err_status_ok"
    and add: "rdb_add_index c idx = Some (x, c')"
  obtains ctx' rest e' where "srtp_unprotect_rtcp ctx (srtcp_packet cu idx p @ room) (int (length (srtcp_packet cu idx p))) e =
      Some (err_status_ok, ctx', p @ rest, int (length p), e')"
    and "session B su cu k n e' ctx'" and "databases (stream_list ctx') = (databases (stream_list ctx))(s \<mapsto> (r, c'))"
proof -
  from ctx obtain t where t: "stream_template ctx = Some t" "endpoint B su cu k n e t" "\<forall>x\<in>set (stream_list ctx). clone_of t x"
    by (auto simp: session_def)
  let ?pkt = "srtcp_packet cu idx p @ room" and ?len = "int (length (srtcp_packet cu idx p))"
  have len: "8 \<le> length p" using p(1) by (simp add: rtcp_well_def)
  then have "take 8 ?pkt = take 8 p" using rtcp_crypt_agree [OF p(1)] by (simp add: srtcp_packet_def Let_def)
  then have h: "rtcp_ssrc ?pkt = Some s" using rtcp_ssrc_agree p(2) by metis
  have h': "rtcp_ssrc (p @ rest) = Some s" for rest using p(2) len by (simp add: rtcp_ssrc_def)
  show ?thesis
  proof (cases "find_stream (stream_list ctx) s")
    case (Some i)
    let ?str = "stream_list ctx ! i"
    have str: "rtp_rdbx ?str = r" "rtcp_rdb ?str = c" "clone_of t ?str" "ssrc ?str = s"
      using databases_nth [OF Some] r t(3) find_stream_Some [OF Some] by (simp_all add: database_def)
    obtain rest e' where u: "unprotect_rtcp_stream ?str ?pkt ?len e = Some (err_status_ok, idx, p @ rest, int (length p), e')"
      "endpoint B su cu k n e' t"
      by (rule unprotect_rtcp_stream_ok [OF t(2) str(3) p(1) idx(1), unfolded str(2), OF idx(2)])
    obtain d log where d: "mark_direction dir_srtp_receiver ?str e' = (?str\<lparr>direction := d\<rparr>, e'\<lparr>event_log := log\<rparr>)"
      by (rule mark_direction_cases)
    let ?x = "?str\<lparr>direction := d, rtcp_rdb := c'\<rparr>" and ?e = "e'\<lparr>event_log := log\<rparr>"
    have run: "srtp_unprotect_rtcp ctx ?pkt ?len e =
        Some (err_status_ok, ctx\<lparr>stream_list := (stream_list ctx)[i := ?x]\<rparr>, p @ rest, int (length p), ?e)"
      using Some h str(2) add u(1) d by (simp add: srtp_unprotect_rtcp_def srtp_get_stream_def unprotect_rtcp_known_def Let_def)
    have e': "endpoint B su cu k n ?e t" using u(2) by simp
    show ?thesis
      using databases_update [OF Some, of ?x] str session_update [OF t(1,3) e', of ?x i] by (intro that [OF run]) simp_all
  next
    case None
    then have db: "r = fresh_rdbx k" "c = snd rdb_init" using r by (simp_all add: database_def databases_def streams_def)
    have self: "clone_of t t" "rtcp_rdb t = c" "ekt t = None" using endpointD(10,12) [OF t(2)] db by (simp_all add: clone_of_def)
    obtain rest e' where u: "unprotect_rtcp_stream t ?pkt ?len e = Some (err_status_ok, idx, p @ rest, int (length p), e')"
      "endpoint B su cu k n e' t"
      by (rule unprotect_rtcp_stream_ok [OF t(2) self(1) p(1) idx(1), unfolded self(2), OF idx(2)])
    obtain d log where d: "mark_direction dir_srtp_receiver t e' = (t\<lparr>direction := d\<rparr>, e'\<lparr>event_log := log\<rparr>)"
      by (rule mark_direction_cases)
    let ?t = "t\<lparr>direction := d\<rparr>" and ?e = "e'\<lparr>event_log := log\<rparr>"
    have et: "endpoint B su cu k n ?e ?t" using u(2) by simp
    obtain new where new: "srtp_stream_clone ?t s ?e = (err_status_ok, Some new, bump (bump ?e))" "clone_of ?t new" "ssrc new = s"
      "rtp_rdbx new = fresh_rdbx k" "rtcp_rdb new = snd rdb_init"
      by (rule srtp_stream_clone_ok [OF et])
    have "unprotect_rtcp_new ctx t ?pkt ?len e = Some (err_status_ok,
        ctx\<lparr>stream_template := Some ?t, stream_list := new\<lparr>rtcp_rdb := c'\<rparr> # stream_list ctx\<rparr>, p @ rest, int (length p), bump (bump ?e))"
      using h' self(3) u(1) d new add db by (simp add: unprotect_rtcp_new_def)
    then have run: "srtp_unprotect_rtcp ctx ?pkt ?len e = Some (err_status_ok,
        ctx\<lparr>stream_template := Some ?t, stream_list := new\<lparr>rtcp_rdb := c'\<rparr> # stream_list ctx\<rparr>, p @ rest, int (length p), bump (bump ?e))"
      using None h t(1) by (simp add: srtp_unprotect_rtcp_def srtp_get_stream_def)
    show ?thesis
    proof (rule that [OF run])
      show "session B su cu k n (bump (bump ?e)) (ctx\<lparr>stream_template := Some ?t, stream_list := new\<lparr>rtcp_rdb := c'\<rparr> # stream_list ctx\<rparr>)"
        using et new(2) t(3) by (auto simp: session_def)
    qed (use new db in \<open>simp add: databases_Cons\<close>)
  qed
qed

end
