(* ===== verification/Srtp_Life.thy ===== *)
theory Srtp_Life
  imports Srtp_Endpoint
begin

text \<open>
  The life of a session: \<^verbatim>\<open>srtp_create\<close> with one wildcard policy establishes the session predicate of
  \<open>Srtp_Endpoint\<close>, and \<^verbatim>\<open>srtp_dealloc\<close> gives back what it took, whatever streams were cloned meanwhile.
\<close>

section \<open>Creating a session\<close>

definition rtp_suite :: "srtp_policy_t \<Rightarrow> suite" where
  "rtp_suite p = \<lparr>su_services = cp_sec_serv (p_rtp p),
     su_cipher = derived_cipher_key (policy_master p) label_rtp_encryption label_rtp_salt (policy_cipher (p_rtp p)) (cp_cipher_key_len (p_rtp p)),
     su_kind = auth_kind_of (policy_auth (p_rtp p)) (nat (cp_auth_tag_len (p_rtp p))),
     su_auth_key = derived_auth_key (policy_master p) label_rtp_msg_auth (cp_auth_key_len (p_rtp p)),
     su_repeat = p_allow_repeat_tx p\<rparr>"

definition rtcp_suite :: "srtp_policy_t \<Rightarrow> suite" where
  "rtcp_suite p = \<lparr>su_services = cp_sec_serv (p_rtcp p),
     su_cipher = derived_cipher_key (policy_master p) label_rtcp_encryption label_rtcp_salt (policy_cipher (p_rtcp p)) (cp_cipher_key_len (p_rtcp p)),
     su_kind = auth_kind_of (policy_auth (p_rtcp p)) (nat (cp_auth_tag_len (p_rtcp p))),
     su_auth_key = derived_auth_key (policy_master p) label_rtcp_msg_auth (cp_auth_key_len (p_rtcp p)),
     su_repeat = p_allow_repeat_tx p\<rparr>"

text \<open>
  A policy that both ends can use: the objects can be built, and a policy without
  authentication has an empty tag, since the receiver takes the tag off in any case.
\<close>

definition channel_policy :: "srtp_policy_t \<Rightarrow> bool" where
  "channel_policy p \<longleftrightarrow> stream_policy_ok p \<and>
     (serv_auth (cp_sec_serv (p_rtp p)) \<or> cp_auth_tag_len (p_rtp p) = 0)"

lemma su_tag_len_suites:
  assumes "stream_policy_ok p"
  shows "su_tag_len (rtp_suite p) = nat (cp_auth_tag_len (p_rtp p))" "su_tag_len (rtcp_suite p) = nat (cp_auth_tag_len (p_rtcp p))"
    "nat (cp_auth_tag_len (p_rtp p)) \<le> 12" "nat (cp_auth_tag_len (p_rtcp p)) \<le> 12"
  using assms by (auto simp: stream_policy_ok_def policy_ok_def rtp_suite_def rtcp_suite_def policy_auth_def NULL_AUTH_def HMAC_SHA1_def)

lemma channel_suites: "channel_policy p \<Longrightarrow> suites_ok (rtp_suite p) (rtcp_suite p)"
  using su_tag_len_suites [of p] by (auto simp: channel_policy_def suites_ok_def) (simp add: rtp_suite_def)

lemma endpoint_of_policy:
  assumes "env_ready e" and p: "channel_policy p" and new: "stream_new e str p"
  shows "endpoint (rest_of e str) (rtp_suite p) (rtcp_suite p) (policy_window (p_window_size p)) (2 ^ 48 - 2) e str"
proof -
  have "0 < policy_window (p_window_size p) \<and> policy_window (p_window_size p) < 2 ^ 20"
    by (rule policy_window_bounds) (use p in \<open>simp add: channel_policy_def stream_policy_ok_def\<close>)
  moreover have "suite_keyed e (rtp_cipher str) (rtp_auth str) (rtp_suite p)" "suite_keyed e (rtcp_cipher str) (rtcp_auth str) (rtcp_suite p)"
    using new by (simp_all add: stream_new_def suite_keyed_def rtp_suite_def rtcp_suite_def rtp_keyed_def rtcp_keyed_def)
  moreover have "rtp_services str = su_services (rtp_suite p)" "rtcp_services str = su_services (rtcp_suite p)" "allow_repeat_tx str = su_repeat (rtp_suite p)"
    using new p by (simp_all add: stream_new_def rtp_suite_def rtcp_suite_def channel_policy_def)
  moreover have "bv_length (rdbx_bitmask (rtp_rdbx str)) = word_of_nat (32 * policy_window (p_window_size p))"
    using new by (simp add: stream_new_def fresh_rdbx_def)
  moreover have "\<exists>la l. limit str = Some la \<and> limit_heap e la = Some l \<and> 2 ^ 48 - 2 < unat (num_left l)"
    using new by (auto simp: stream_new_def)
  ultimately show ?thesis
    using assms(1) channel_suites [OF p] new unfolding endpoint_def stream_new_def by blast
qed

text \<open>What the store holds besides the objects of a session that was just created.\<close>

definition grown :: "srtp_policy_t \<Rightarrow> srtp_env \<Rightarrow> addresses \<Rightarrow> store_rest" where
  "grown p e ob = (count_up (policy_cipher (p_rtcp p)) (count_up (policy_cipher (p_rtp p)) (env_cipher_refs e)),
     count_up (policy_auth (p_rtcp p)) (count_up (policy_auth (p_rtp p)) (env_auth_refs e)), cipher_heap e, auth_heap e, limit_heap e, ob)"

lemma srtp_create_ok:
  assumes e: "env_ready e" and p: "channel_policy p" and ty: "p_ssrc_type p = ssrc_any_outbound \<or> p_ssrc_type p = ssrc_any_inbound"
  obtains ctx e' B where "srtp_create [p] e = Some (err_status_ok, Some ctx, e')"
    and "session B (rtp_suite p) (rtcp_suite p) (policy_window (p_window_size p)) (2 ^ 48 - 2) e' ctx" and "stream_list ctx = []"
    and "heap_fresh e \<longrightarrow> heap_fresh e' \<and> (\<exists>ob. B = grown p e ob)"
proof -
  have e1: "env_ready (bump e)" and pol: "stream_policy_ok p" using e p by (simp_all add: channel_policy_def)
  obtain str e2 str' e' where set_up: "srtp_stream_alloc p (bump e) = Some (err_status_ok, Some str, e2)"
    "srtp_stream_init str p e2 = Some (err_status_ok, str', e')" and ok: "env_ready e'" and new: "stream_new e' str' p"
    and refs: "env_cipher_refs e' = count_up (policy_cipher (p_rtcp p)) (count_up (policy_cipher (p_rtp p)) (env_cipher_refs (bump e)))"
      "env_auth_refs e' = count_up (policy_auth (p_rtcp p)) (count_up (policy_auth (p_rtp p)) (env_auth_refs (bump e)))"
    and rest: "heap_fresh (bump e) \<longrightarrow> heap_fresh e' \<and>
      rest_of e' str' = (env_cipher_refs e', env_auth_refs e', cipher_heap (bump e), auth_heap (bump e), limit_heap (bump e), objects_of str')"
    by (rule stream_set_up [OF e1 pol])
  define d where "d = (if p_ssrc_type p = ssrc_any_outbound then dir_srtp_sender else dir_srtp_receiver)"
  let ?ctx = "\<lparr>stream_list = [], stream_template = Some (str'\<lparr>direction := d\<rparr>)\<rparr>"
  have key: "p_key p \<noteq> None" using pol by (auto simp: stream_policy_ok_def split: option.splits)
  have run: "srtp_create [p] e = Some (err_status_ok, Some ?ctx, e')"
    using env_readyD(8) [OF e] key set_up ty by (auto simp: srtp_create_def srtp_add_stream_def d_def)
  have ses: "session (rest_of e' str') (rtp_suite p) (rtcp_suite p) (policy_window (p_window_size p)) (2 ^ 48 - 2) e' ?ctx"
    using endpoint_of_policy [OF ok p new] by (simp add: session_def)
  show ?thesis
  proof (rule that [OF run ses])
    have "heap_fresh (bump e)" if "heap_fresh e" using that by (simp add: heap_fresh_def bump_def)
    with rest show "heap_fresh e \<longrightarrow> heap_fresh e' \<and> (\<exists>ob. rest_of e' str' = grown p e ob)"
      unfolding refs grown_def by (auto simp: bump_def objects_of_def)
  qed simp
qed

lemma session_mono: "session B su cu k n e ctx \<Longrightarrow> m \<le> n \<Longrightarrow> session B su cu k m e ctx"
  unfolding session_def using endpoint_mono by blast

section \<open>Releasing a session\<close>

definition count_down :: "'t \<Rightarrow> ('t \<Rightarrow> int) \<Rightarrow> 't \<Rightarrow> int" where
  "count_down t refs = refs(t := refs t - 1)"

lemma count_down_up [simp]: "count_down t (count_up t refs) = refs"
  by (simp add: count_down_def count_up_def)

lemma count_down_commute: "count_down t (count_down u refs) = count_down u (count_down t refs)"
  by (auto simp: count_down_def)

fun kind_type :: "auth_kind \<Rightarrow> auth_type_t" where
  "kind_type kind_null = null_auth"
| "kind_type (kind_hmac _) = hmac"

lemma dealloc_cipher_keyed:
  assumes "cipher_heap e cp = Some c" and "cipher_rep c ck q"
  shows "dealloc_cipher cp e = Some (err_status_ok, e\<lparr>env_cipher_refs := count_down (key_type ck) (env_cipher_refs e),
    cipher_heap := (cipher_heap e)(cp := None)\<rparr>)"
  using assms by (cases ck) (auto simp: dealloc_cipher_def env_dealloc_def cipher_dealloc_def null_cipher_dealloc_def aes_icm_dealloc_def count_down_def)

lemma dealloc_auth_keyed:
  assumes "auth_heap e ap = Some a" and "auth_rep a i k q"
  shows "dealloc_auth ap e = Some (err_status_ok, e\<lparr>env_auth_refs := count_down (kind_type i) (env_auth_refs e),
    auth_heap := (auth_heap e)(ap := None)\<rparr>)"
  using assms by (cases i) (auto simp: dealloc_auth_def auth_dealloc_def null_auth_dealloc_def hmac_dealloc_def count_down_def)

text \<open>The streams share everything with the template, so releasing them touches nothing.\<close>

lemma dealloc_streams_clones:
  "\<forall>x\<in>set strs. clone_of t x \<Longrightarrow> dealloc_streams (Some t) strs e = Some (err_status_ok, e)"
  by (induction strs) (simp_all add: srtp_stream_dealloc_def unless_shared_def clone_of_def rdbx_dealloc_def)

lemma srtp_dealloc_ok:
  assumes "session B su cu k n e ctx" and B: "B = (cr, ar, ch, ah, lh, ob)"
  obtains e' where "srtp_dealloc ctx e = Some (err_status_ok, e')" and "env_ready e'" and "env_allocs e' = env_allocs e" and "cipher_heap e' = ch" and "auth_heap e' = ah" and "limit_heap e' = lh"
    and "env_cipher_refs e' = count_down (key_type (su_cipher su)) (count_down (key_type (su_cipher cu)) cr)"
    and "env_auth_refs e' = count_down (kind_type (su_kind su)) (count_down (kind_type (su_kind cu)) ar)"
proof -
  from assms(1) obtain t where t: "stream_template ctx = Some t" "endpoint B su cu k n e t" "\<forall>x\<in>set (stream_list ctx). clone_of t x"
    by (auto simp: session_def)
  have ends: "rtp_cipher t \<noteq> rtcp_cipher t" "rtp_auth t \<noteq> rtcp_auth t" "rest_of e t = B" "\<exists>la. limit t = Some la"
    using t(2) by (auto simp: endpoint_def)
  then obtain la where la: "limit t = Some la" by blast
  from endpointD(5) [OF t(2)] obtain c q a r where rtp: "cipher_heap e (rtp_cipher t) = Some c" "cipher_rep c (su_cipher su) q"
    "auth_heap e (rtp_auth t) = Some a" "auth_rep a (su_kind su) (su_auth_key su) r" by (rule suite_keyedE)
  from endpointD(6) [OF t(2)] obtain c' q' a' r' where rtcp: "cipher_heap e (rtcp_cipher t) = Some c'" "cipher_rep c' (su_cipher cu) q'"
    "auth_heap e (rtcp_auth t) = Some a'" "auth_rep a' (su_kind cu) (su_auth_key cu) r'" by (rule suite_keyedE)
  let ?e = "e\<lparr>env_auth_refs := count_down (kind_type (su_kind su)) (count_down (kind_type (su_kind cu)) (env_auth_refs e)),
    env_cipher_refs := count_down (key_type (su_cipher su)) (count_down (key_type (su_cipher cu)) (env_cipher_refs e)),
    auth_heap := (auth_heap e)(rtcp_auth t := None, rtp_auth t := None), cipher_heap := (cipher_heap e)(rtcp_cipher t := None, rtp_cipher t := None),
    limit_heap := (limit_heap e)(la := None)\<rparr>"
  have "dealloc_template t e = Some (err_status_ok, ?e)"
    using rtp rtcp ends(1,2) la
    by (simp add: dealloc_template_def dealloc_auth_keyed dealloc_cipher_keyed free_limit_def rdbx_dealloc_def)
  then have run: "srtp_dealloc ctx e = Some (err_status_ok, ?e)"
    using t(1) dealloc_streams_clones [OF t(3)] by (simp add: srtp_dealloc_def)
  show ?thesis
    using ends B la endpointD(1) [OF t(2)] by (intro that [OF run]) (auto simp: rest_of_def fun_upd_twist)
qed

lemma suite_types:
  "key_type (su_cipher (rtp_suite p)) = policy_cipher (p_rtp p)" "key_type (su_cipher (rtcp_suite p)) = policy_cipher (p_rtcp p)"
  "kind_type (su_kind (rtp_suite p)) = policy_auth (p_rtp p)" "kind_type (su_kind (rtcp_suite p)) = policy_auth (p_rtcp p)"
  by (simp_all add: rtp_suite_def rtcp_suite_def derived_cipher_key_def policy_cipher_def policy_auth_def Let_def)

end
