(* ===== verification/Srtp_Channel.thy ===== *)
theory Srtp_Channel
  imports Srtp_Life
begin

text \<open>
  Two sessions with one policy, a sender and a receiver: every packet that the sender protects comes out of the
  receiver as it went in. The reference is the policy of the replay databases alone; cryptography, headers,
  buffers, cloned streams and key budgets must not be visible.
\<close>

section \<open>The channel and its specification\<close>

datatype packet = rtp_packet octets | rtcp_packet octets

datatype delivery = refused err_status_t | received err_status_t octets

text \<open>
  The sender appends the room the interface asks for, 12 octets for RTP and 16 for RTCP; the receiver's memory is
  exactly the protected packet.
\<close>

fun send :: "packet \<Rightarrow> srtp_ctx_t \<Rightarrow> srtp_env \<Rightarrow> (err_status_t \<times> srtp_ctx_t \<times> octets \<times> int \<times> srtp_env) option" where
  "send (rtp_packet p) ctx e = srtp_protect ctx (p @ replicate 12 0) (int (length p)) e"
| "send (rtcp_packet p) ctx e = srtp_protect_rtcp ctx (p @ replicate 16 0) (int (length p)) e"

fun receive :: "packet \<Rightarrow> srtp_ctx_t \<Rightarrow> octets \<Rightarrow> int \<Rightarrow> srtp_env \<Rightarrow> (err_status_t \<times> srtp_ctx_t \<times> octets \<times> int \<times> srtp_env) option" where
  "receive (rtp_packet _) = srtp_unprotect"
| "receive (rtcp_packet _) = srtp_unprotect_rtcp"

fun channel :: "srtp_ctx_t \<Rightarrow> srtp_env \<Rightarrow> srtp_ctx_t \<Rightarrow> srtp_env \<Rightarrow> packet list \<Rightarrow>
    (delivery list \<times> (srtp_ctx_t \<times> srtp_env) \<times> (srtp_ctx_t \<times> srtp_env)) option" where
  "channel ctx e ctx' e' [] = Some ([], (ctx, e), (ctx', e'))"
| "channel ctx e ctx' e' (x # xs) = do {
     (status, ctx, pkt, len, e) \<leftarrow> send x ctx e;
     if status \<noteq> err_status_ok then map_option (apfst ((#) (refused status))) (channel ctx e ctx' e' xs)
     else do {
       (status, ctx', pkt, len, e') \<leftarrow> receive x ctx' (take (nat len) pkt) len e';
       map_option (apfst ((#) (received status (take (nat len) pkt)))) (channel ctx e ctx' e' xs)
     }
   }"

definition rtp_replay :: "int \<Rightarrow> rdbx_t \<Rightarrow> octets \<Rightarrow> (err_status_t \<times> rdbx_t) option" where
  "rtp_replay rep r p = do {
     q \<leftarrow> hdr_seq p;
     let (delta, est) = rdbx_estimate_index r (bswap16 q);
     st \<leftarrow> rdbx_check r delta;
     if st = err_status_ok then do { (_, r) \<leftarrow> rdbx_add_index r delta; Some (err_status_ok, r) }
     else if passes rep st then Some (err_status_ok, r) else Some (st, r)
   }"

fun channel_spec :: "int \<Rightarrow> (u32 \<Rightarrow> rdbx_t) \<Rightarrow> packet list \<Rightarrow> delivery list option" where
  "channel_spec rep g [] = Some []"
| "channel_spec rep g (rtp_packet p # xs) = do {
     s \<leftarrow> hdr_ssrc p;
     (st, r) \<leftarrow> rtp_replay rep (g s) p;
     map_option ((#) (if st = err_status_ok then received err_status_ok p else refused st)) (channel_spec rep (g(s := r)) xs)
   }"
| "channel_spec rep g (rtcp_packet p # xs) = map_option ((#) (received err_status_ok p)) (channel_spec rep g xs)"

fun packet_well :: "packet \<Rightarrow> bool" where
  "packet_well (rtp_packet p) = rtp_well p"
| "packet_well (rtcp_packet p) = rtcp_well p"

section \<open>The two ends in step\<close>

text \<open>To add an index that the database has already is no change.\<close>

lemma rdbx_add_index_again:
  assumes "rdbx_check r d = Some err_status_replay_fail"
  shows "\<exists>x. rdbx_add_index r d = Some (x, r)"
proof -
  let ?v = "rdbx_bitmask r"
  define w where "w = bitvector_get_length ?v - 1"
  define i where "i = sint w + d"
  from assms have d: "d \<le> 0" "0 \<le> i" and bit: "bitvector_get_bit ?v i = Some 1"
    by (auto simp: rdbx_check_def w_def i_def Let_def bind_eq_Some_conv split: if_splits)
  have "sint w < 2 ^ 31" using sint_lt [of w] by simp
  then have "i < 2 ^ 31" using d(1) by (simp add: i_def)
  then have "uint (word_of_int i :: u32) = i" using d(2) by (simp add: unsigned_of_int take_bit_int_eq_self)
  moreover have "w + word_of_int d = word_of_int i" by (simp add: i_def)
  ultimately have i: "uint (w + word_of_int d) = i" by simp
  let ?x = "bv_word ?v ! (nat i div 32)"
  from bit have in_i: "in_words (bv_word ?v) i" and "drop_bit (nat i mod 32) ?x AND 1 = 1"
    by (auto simp: bitvector_get_bit_def split: if_splits)
  then have "bit ?x (nat i mod 32)" by (simp add: bit_and_1_iff)
  then have "?x OR push_bit (nat i mod 32) 1 = ?x" by (intro bit_word_eqI) (auto simp: bit_simps)
  with in_i have "bitvector_set_bit ?v i = Some ?v" by (simp add: bitvector_set_bit_def)
  then show ?thesis using d(1) i by (simp add: rdbx_add_index_def w_def)
qed

text \<open>The receiver has accepted no SRTCP index that the sender has not used, and \<open>n\<close> more indices fit.\<close>

definition rtcp_in_step :: "nat \<Rightarrow> rdb_t \<Rightarrow> rdb_t \<Rightarrow> bool" where
  "rtcp_in_step n c c' \<longleftrightarrow> unat (window_start c) + n < 2 ^ 31 \<and> unat (window_start c') \<le> unat (window_start c) \<and>
     (\<exists>S. rdb_rel c' S \<and> (\<forall>i\<in>S. i \<le> unat (window_start c)))"

lemma rtcp_in_step_mono: "rtcp_in_step (Suc n) c c' \<Longrightarrow> rtcp_in_step n c c'"
  by (simp add: rtcp_in_step_def)

lemma rtcp_in_step_less: "rtcp_in_step n c c' \<Longrightarrow> m \<le> n \<Longrightarrow> rtcp_in_step m c c'"
  by (simp add: rtcp_in_step_def)

lemma rtcp_in_step_init: "n < 2 ^ 31 \<Longrightarrow> rtcp_in_step n (snd rdb_init) (snd rdb_init)"
  using rdb_rel_init by (auto simp: rtcp_in_step_def rdb_init_def)

lemma rdb_add_index_start:
  assumes "rdb_add_index c p = Some (x, c')" and "unat (window_start c) \<le> unat p"
  shows "unat (window_start c') \<le> unat p"
proof (cases "p - window_start c < rdb_bits_in_bitmask")
  case True
  then show ?thesis using assms by (auto simp: rdb_add_index_def Let_def bind_eq_Some_conv)
next
  case False
  then have "window_start c' = p - 127"
    using assms(1) by (auto simp: rdb_add_index_def Let_def bind_eq_Some_conv rdb_bits_in_bitmask_def)
  moreover have "unat (p - window_start c) = unat p - unat (window_start c)" using assms(2) by (simp add: unat_sub word_le_nat_alt)
  then have "(127 :: u32) \<le> p" using False by (simp add: rdb_bits_in_bitmask_def word_le_nat_alt word_less_nat_alt)
  ultimately show ?thesis by (simp add: unat_sub)
qed

lemma rtcp_in_step_next:
  assumes "rtcp_in_step (Suc n) c c'"
  obtains c'' x where "unat (window_start c) + 1 < 2 ^ 31" "unat (window_start c + 1) < 2 ^ 31" "rdb_check c' (window_start c + 1) = Some err_status_ok"
    "rdb_add_index c' (window_start c + 1) = Some (x, c'')" "rtcp_in_step n (snd (rdb_increment c)) c''"
proof -
  from assms obtain S where S: "unat (window_start c) + Suc n < 2 ^ 31" "unat (window_start c') \<le> unat (window_start c)"
    "rdb_rel c' S" "\<And>i. i \<in> S \<Longrightarrow> i \<le> unat (window_start c)" by (auto simp: rtcp_in_step_def)
  let ?p = "window_start c + 1"
  have p: "unat ?p = unat (window_start c) + 1" using S(1) by (simp add: unat_word_ariths(1))
  then have p': "unat ?p < 2 ^ 31" "unat (window_start c') \<le> unat ?p" "unat ?p \<notin> S" using S by fastforce+
  obtain c'' where c'': "rdb_add_index c' ?p = Some (err_status_ok, c'')" "rdb_rel c'' (insert (unat ?p) S)"
    using rdb_add_index_spec [OF S(3) p'(1,2)] by blast
  have "rtcp_in_step n (snd (rdb_increment c)) c''"
    using S c''(2) rdb_add_index_start [OF c''(1) p'(2)] p unfolding rtcp_in_step_def
    by (intro conjI exI [of _ "insert (unat ?p) S"]) (auto simp: rdb_increment_def dest: S(4))
  moreover have "rdb_check c' ?p = Some err_status_ok" using rdb_check_spec [OF S(3) p'(1)] p'(2,3) by simp
  ultimately show ?thesis using S(1) p'(1) c''(1) by (intro that) simp_all
qed

definition in_step :: "store_rest \<Rightarrow> store_rest \<Rightarrow> suite \<Rightarrow> suite \<Rightarrow> nat \<Rightarrow> nat \<Rightarrow> srtp_ctx_t \<Rightarrow> srtp_env \<Rightarrow> srtp_ctx_t \<Rightarrow> srtp_env \<Rightarrow> (u32 \<Rightarrow> rdbx_t) \<Rightarrow> bool" where
  "in_step B B' su cu k n ctx e ctx' e' g \<longleftrightarrow> session B su cu k n e ctx \<and> session B' su cu k n e' ctx' \<and>
     (\<forall>s. case (database k (stream_list ctx) s, database k (stream_list ctx') s) of
        ((r, c), (r', c')) \<Rightarrow> r = g s \<and> r' = g s \<and> rtcp_in_step n c c')"

lemma database_upd: "databases strs' = (databases strs)(s \<mapsto> x) \<Longrightarrow> database k strs' = (database k strs)(s := x)"
  by (auto simp: database_def)

lemma in_stepD:
  assumes "in_step B B' su cu k n ctx e ctx' e' g"
  obtains c c' where "database k (stream_list ctx) s = (g s, c)" and "database k (stream_list ctx') s = (g s, c')" and "rtcp_in_step n c c'"
proof -
  obtain r c r' c' where d: "database k (stream_list ctx) s = (r, c)" "database k (stream_list ctx') s = (r', c')" by (meson surj_pair)
  have "case (database k (stream_list ctx) s, database k (stream_list ctx') s) of
      ((r, c), (r', c')) \<Rightarrow> r = g s \<and> r' = g s \<and> rtcp_in_step n c c'"
    using assms [unfolded in_step_def, THEN conjunct2, THEN conjunct2] by (rule spec)
  then show ?thesis using d that by simp
qed

text \<open>Both ends have moved on to a new entry for the SSRC \<open>s\<close>; everything else has one step less to go.\<close>

lemma in_stepI:
  assumes "in_step B B' su cu k (Suc n) ctx e ctx' e' g" and "session B su cu k n f dtx" and "session B' su cu k n f' dtx'"
    and "database k (stream_list dtx) = (database k (stream_list ctx))(s := (r, c))"
    and "database k (stream_list dtx') = (database k (stream_list ctx'))(s := (r, c'))" and "rtcp_in_step n c c'"
  shows "in_step B B' su cu k n dtx f dtx' f' (g(s := r))"
  unfolding in_step_def
proof (intro conjI allI)
  fix s'
  show "case (database k (stream_list dtx) s', database k (stream_list dtx') s') of
      ((x, c), (x', c')) \<Rightarrow> x = (g(s := r)) s' \<and> x' = (g(s := r)) s' \<and> rtcp_in_step n c c'"
  proof (cases "s' = s")
    case False
    obtain d d' where "database k (stream_list ctx) s' = (g s', d)" "database k (stream_list ctx') s' = (g s', d')" "rtcp_in_step (Suc n) d d'"
      using assms(1) by (rule in_stepD)
    with False assms(4,5) show ?thesis by (simp add: rtcp_in_step_mono)
  qed (use assms(4-6) in simp)
qed (use assms(2,3) in simp_all)

lemma in_step_less:
  assumes "in_step B B' su cu k n ctx e ctx' e' g" and "m \<le> n"
  shows "in_step B B' su cu k m ctx e ctx' e' g"
  unfolding in_step_def
proof (intro conjI allI)
  show "session B su cu k m e ctx" "session B' su cu k m e' ctx'"
    using assms by (auto simp: in_step_def elim: session_mono)
  fix s
  obtain c c' where "database k (stream_list ctx) s = (g s, c)" "database k (stream_list ctx') s = (g s, c')" "rtcp_in_step n c c'"
    using assms(1) by (rule in_stepD)
  then show "case (database k (stream_list ctx) s, database k (stream_list ctx') s) of
      ((r, c), (r', c')) \<Rightarrow> r = g s \<and> r' = g s \<and> rtcp_in_step m c c'"
    using rtcp_in_step_less [OF _ assms(2)] by simp
qed

lemma send_receive_rtp:
  assumes "in_step B B' su cu k (Suc n) ctx e ctx' e' g" and p: "rtp_well p" "hdr_ssrc p = Some s" and r: "rtp_replay (su_repeat su) (g s) p = Some (st, r)"
  shows "\<exists>dtx f dtx' f'. in_step B B' su cu k n dtx f dtx' f' (g(s := r)) \<and>
    channel ctx e ctx' e' (rtp_packet p # xs) =
      map_option (apfst ((#) (if st = err_status_ok then received err_status_ok p else refused st))) (channel dtx f dtx' f' xs)"
proof -
  obtain c c' where db: "database k (stream_list ctx) s = (g s, c)" "database k (stream_list ctx') s = (g s, c')" "rtcp_in_step (Suc n) c c'"
    using assms(1) by (rule in_stepD)
  have ses: "session B su cu k (Suc n) e ctx" "session B' su cu k (Suc n) e' ctx'" using assms(1) by (simp_all add: in_step_def)
  obtain q where q: "hdr_seq p = Some q" using p(1) by (rule rtp_wellD)
  obtain delta est where est: "rdbx_estimate_index (g s) (bswap16 q) = (delta, est)" by fastforce
  from r q est obtain st0 where st: "rdbx_check (g s) delta = Some st0"
    by (auto simp: rtp_replay_def bind_eq_Some_conv)
  with r q est have add: "st0 = err_status_ok \<Longrightarrow> \<exists>x. rdbx_add_index (g s) delta = Some (x, r)" and same: "st0 \<noteq> err_status_ok \<Longrightarrow> r = g s"
    and out: "st = (if passes (su_repeat su) st0 then err_status_ok else st0)"
    by (auto simp: rtp_replay_def bind_eq_Some_conv passes_def split: if_splits)
  then obtain x where x: "st0 = err_status_ok \<Longrightarrow> rdbx_add_index (g s) delta = Some (x, r)" by blast
  then have x': "passes (su_repeat su) st0 \<Longrightarrow> if st0 = err_status_ok then rdbx_add_index (g s) delta = Some (x, r) else r = g s" using same by simp
  have room: "12 \<le> length (replicate 12 (0 :: u8))" by simp
  obtain dtx rest f where snd: "srtp_protect ctx (p @ replicate 12 0) (int (length p)) e =
      Some (if passes (su_repeat su) st0 then (err_status_ok, dtx, srtp_packet su est p @ rest, int (length (srtp_packet su est p)), f)
        else (st0, dtx, p @ replicate 12 0, int (length p), f))"
    "session B su cu k n f dtx" "databases (stream_list dtx) = (databases (stream_list ctx))(s \<mapsto> (if passes (su_repeat su) st0 then r else g s, c))"
    by (rule srtp_protect_ok [OF ses(1) p q room db(1) est st x'])
  note D = database_upd [OF snd(3), of k]
  have step: "rtcp_in_step n c c'" using db(3) by (rule rtcp_in_step_mono)
  show ?thesis
  proof (cases "passes (su_repeat su) st0")
    case True
    have "\<exists>x. rdbx_add_index (g s) delta = Some (x, r)"
      using True x st same rdbx_add_index_again by (cases "st0 = err_status_ok") (auto simp: passes_def)
    then obtain y where y: "rdbx_add_index (g s) delta = Some (y, r)" ..
    obtain dtx' rest' f' where rcv: "srtp_unprotect ctx' (srtp_packet su est p @ []) (int (length (srtp_packet su est p))) e' =
        Some (err_status_ok, dtx', p @ rest', int (length p), f')"
      "session B' su cu k n f' dtx'" "databases (stream_list dtx') = (databases (stream_list ctx'))(s \<mapsto> (r, c'))"
      by (rule srtp_unprotect_ok [OF ses(2) p q db(2) est st True y])
    have "in_step B B' su cu k n dtx f dtx' f' (g(s := r))"
      using in_stepI [OF assms(1) snd(2) rcv(2) _ database_upd [OF rcv(3)] step] D True by simp
    moreover have "channel ctx e ctx' e' (rtp_packet p # xs) = map_option (apfst ((#) (received err_status_ok p))) (channel dtx f dtx' f' xs)"
      using snd(1) rcv(1) True by simp
    ultimately show ?thesis using True out by auto
  next
    case False
    then have bad: "st0 \<noteq> err_status_ok" "st = st0" using out by (auto simp: passes_def)
    have dS: "database k (stream_list dtx) = (database k (stream_list ctx))(s := (r, c))" using D False same [OF bad(1)] by simp
    have dR: "database k (stream_list ctx') = (database k (stream_list ctx'))(s := (r, c'))"
      using db(2) same [OF bad(1)] by (simp add: fun_upd_idem)
    have "session B' su cu k n e' ctx'" using session_mono [OF ses(2)] by simp
    then have "in_step B B' su cu k n dtx f ctx' e' (g(s := r))" using in_stepI [OF assms(1) snd(2) _ dS dR step] by blast
    moreover have "channel ctx e ctx' e' (rtp_packet p # xs) = map_option (apfst ((#) (refused st))) (channel dtx f ctx' e' xs)"
      using snd(1) False bad by simp
    ultimately show ?thesis using bad by auto
  qed
qed

lemma send_receive_rtcp:
  assumes "in_step B B' su cu k (Suc n) ctx e ctx' e' g" and p: "rtcp_well p"
  shows "\<exists>dtx f dtx' f'. in_step B B' su cu k n dtx f dtx' f' g \<and>
    channel ctx e ctx' e' (rtcp_packet p # xs) = map_option (apfst ((#) (received err_status_ok p))) (channel dtx f dtx' f' xs)"
proof -
  obtain s where s: "rtcp_ssrc p = Some s" using p by (auto simp: rtcp_well_def rtcp_ssrc_def load32_def load8_def)
  obtain c c' where db: "database k (stream_list ctx) s = (g s, c)" "database k (stream_list ctx') s = (g s, c')" "rtcp_in_step (Suc n) c c'"
    using assms(1) by (rule in_stepD)
  have ses: "session B su cu k n e ctx" "session B' su cu k n e' ctx'"
    using assms(1) session_mono [of _ su cu k "Suc n" _ _ n] by (simp_all add: in_step_def)
  obtain c'' x where idx: "unat (window_start c) + 1 < 2 ^ 31" "unat (window_start c + 1) < 2 ^ 31" "rdb_check c' (window_start c + 1) = Some err_status_ok"
    "rdb_add_index c' (window_start c + 1) = Some (x, c'')" "rtcp_in_step n (snd (rdb_increment c)) c''"
    using db(3) by (rule rtcp_in_step_next)
  have room: "16 \<le> length (replicate 16 (0 :: u8))" by simp
  obtain dtx rest f where snd: "srtp_protect_rtcp ctx (p @ replicate 16 0) (int (length p)) e =
      Some (err_status_ok, dtx, srtcp_packet cu (window_start c + 1) p @ rest, int (length (srtcp_packet cu (window_start c + 1) p)), f)"
    "session B su cu k n f dtx" "databases (stream_list dtx) = (databases (stream_list ctx))(s \<mapsto> (g s, snd (rdb_increment c)))"
    by (rule srtp_protect_rtcp_ok [OF ses(1) p s room db(1) idx(1)])
  obtain dtx' rest' f' where rcv: "srtp_unprotect_rtcp ctx' (srtcp_packet cu (window_start c + 1) p @ [])
        (int (length (srtcp_packet cu (window_start c + 1) p))) e' = Some (err_status_ok, dtx', p @ rest', int (length p), f')"
    "session B' su cu k n f' dtx'" "databases (stream_list dtx') = (databases (stream_list ctx'))(s \<mapsto> (g s, c''))"
    by (rule srtp_unprotect_rtcp_ok [OF ses(2) p s db(2) idx(2,3,4)])
  have "in_step B B' su cu k n dtx f dtx' f' (g(s := g s))"
    by (rule in_stepI [OF assms(1) snd(2) rcv(2) database_upd [OF snd(3)] database_upd [OF rcv(3)] idx(5)])
  moreover have "channel ctx e ctx' e' (rtcp_packet p # xs) = map_option (apfst ((#) (received err_status_ok p))) (channel dtx f dtx' f' xs)"
    using snd(1) rcv(1) by simp
  ultimately show ?thesis by auto
qed

lemma channel_meets_spec:
  assumes "in_step B B' su cu k n ctx e ctx' e' g" and "length xs \<le> n" and "list_all packet_well xs" and "channel_spec (su_repeat su) g xs = Some ds"
  shows "\<exists>dtx f dtx' f' g'. channel ctx e ctx' e' xs = Some (ds, (dtx, f), (dtx', f')) \<and> in_step B B' su cu k 0 dtx f dtx' f' g'"
  using assms
proof (induction xs arbitrary: n ctx e ctx' e' g ds)
  case (Cons x xs)
  from Cons.prems(2) obtain m where m: "n = Suc m" "length xs \<le> m" by (cases n) auto
  show ?case
  proof (cases x)
    case (rtp_packet p)
    with Cons.prems obtain s st r ds' where p: "rtp_well p" "hdr_ssrc p = Some s" "rtp_replay (su_repeat su) (g s) p = Some (st, r)"
      "channel_spec (su_repeat su) (g(s := r)) xs = Some ds'" "ds = (if st = err_status_ok then received err_status_ok p else refused st) # ds'"
      by (auto simp: bind_eq_Some_conv)
    obtain dtx f dtx' f' where "in_step B B' su cu k m dtx f dtx' f' (g(s := r))" "channel ctx e ctx' e' (rtp_packet p # xs) =
        map_option (apfst ((#) (if st = err_status_ok then received err_status_ok p else refused st))) (channel dtx f dtx' f' xs)"
      using send_receive_rtp [OF Cons.prems(1) [unfolded m(1)] p(1-3)] by blast
    moreover have "list_all packet_well xs" using Cons.prems(3) by simp
    from Cons.IH [OF calculation(1) m(2) this p(4)] obtain dtx2 f2 dtx2' f2' g' where
      "channel dtx f dtx' f' xs = Some (ds', (dtx2, f2), (dtx2', f2'))" "in_step B B' su cu k 0 dtx2 f2 dtx2' f2' g'" by blast
    ultimately show ?thesis using rtp_packet p(5) by (auto simp del: channel.simps)
  next
    case (rtcp_packet p)
    with Cons.prems obtain ds' where p: "rtcp_well p" "channel_spec (su_repeat su) g xs = Some ds'" "ds = received err_status_ok p # ds'" by auto
    obtain dtx f dtx' f' where "in_step B B' su cu k m dtx f dtx' f' g" "channel ctx e ctx' e' (rtcp_packet p # xs) =
        map_option (apfst ((#) (received err_status_ok p))) (channel dtx f dtx' f' xs)"
      using send_receive_rtcp [OF Cons.prems(1) [unfolded m(1)] p(1)] by blast
    moreover have "list_all packet_well xs" using Cons.prems(3) by simp
    from Cons.IH [OF calculation(1) m(2) this p(2)] obtain dtx2 f2 dtx2' f2' g' where
      "channel dtx f dtx' f' xs = Some (ds', (dtx2, f2), (dtx2', f2'))" "in_step B B' su cu k 0 dtx2 f2 dtx2' f2' g'" by blast
    ultimately show ?thesis using rtcp_packet p(3) by (auto simp del: channel.simps)
  qed
next
  case Nil
  then show ?case using in_step_less [OF Nil.prems(1), of 0] by auto
qed

section \<open>The specification is total\<close>

lemma rtp_replay_total:
  assumes rel: "rdbx_rel (Suc n) r S" and p: "rtp_well p"
  shows "\<exists>st r' S'. rtp_replay rep r p = Some (st, r') \<and> rdbx_rel n r' S'"
proof -
  obtain q where q: "hdr_seq p = Some q" using p by (rule rtp_wellD)
  obtain d est where est: "rdbx_estimate_index r (bswap16 q) = (d, est)" by fastforce
  have "uint (rdbx_index r) < 2 ^ 48 - 2 ^ 16" using rel by (simp add: rdbx_rel_def)
  note E = rdbx_estimate_index_spec [OF this est]
  note C = rdbx_check_spec [OF rel, of d]
  obtain st where st: "rdbx_check r d = Some st" using C by blast
  show ?thesis
  proof (cases "st = err_status_ok")
    case True
    then have "- rdbx_len r < d" using st rdbx_wf_last(3) [of r] rel unfolding C by (auto simp: rdbx_rel_def split: if_splits)
    from rdbx_add_index_spec [OF rel E(4) this] show ?thesis using q est st True by (auto simp: rtp_replay_def)
  next
    case False
    then show ?thesis using q est st rdbx_rel_mono [OF rel] by (auto simp: rtp_replay_def)
  qed
qed

lemma channel_spec_total:
  assumes "\<forall>s. \<exists>S. rdbx_rel n (g s) S" and "length xs \<le> n" and "list_all packet_well xs"
  shows "\<exists>ds. channel_spec rep g xs = Some ds"
  using assms
proof (induction xs arbitrary: n g)
  case (Cons x xs)
  from Cons.prems(2) obtain m where m: "n = Suc m" "length xs \<le> m" by (cases n) auto
  show ?case
  proof (cases x)
    case (rtp_packet p)
    with Cons.prems(3) have p: "rtp_well p" by simp
    obtain s where s: "hdr_ssrc p = Some s" using p by (rule rtp_wellD)
    obtain S where "rdbx_rel (Suc m) (g s) S" using Cons.prems(1) m(1) by blast
    from rtp_replay_total [OF this p] obtain st r S' where r: "rtp_replay rep (g s) p = Some (st, r)" "rdbx_rel m r S'" by blast
    have "\<forall>s'. \<exists>S. rdbx_rel m ((g(s := r)) s') S" using r(2) Cons.prems(1) m(1) rdbx_rel_mono by (simp, blast)
    moreover have "list_all packet_well xs" using Cons.prems(3) by simp
    ultimately obtain ds where "channel_spec rep (g(s := r)) xs = Some ds" using Cons.IH [OF _ m(2)] by blast
    with rtp_packet s r(1) show ?thesis by simp
  next
    case (rtcp_packet p)
    have "\<forall>s. \<exists>S. rdbx_rel m (g s) S" using Cons.prems(1) m(1) rdbx_rel_mono by blast
    from Cons.IH [OF this m(2)] show ?thesis using Cons.prems(3) rtcp_packet by auto
  qed
qed simp

lemma rdbx_rel_fresh_rdbx: "0 < k \<Longrightarrow> k < 2 ^ 20 \<Longrightarrow> n < 2 ^ 32 \<Longrightarrow> rdbx_rel n (fresh_rdbx k) {}"
proof -
  assume k: "0 < k" "k < 2 ^ 20" "n < 2 ^ 32"
  have "unat (word_of_nat (32 * k) :: u32) = 32 * k"
    unfolding unsigned_of_nat of_nat_id by (rule take_bit_nat_eq_self) (use k(2) in simp)
  with k show ?thesis unfolding fresh_rdbx_def
    by (intro rdbx_rel_fresh) (auto simp: bv_wf_def bv_bit_def wbit_def)
qed

section \<open>End to end\<close>

text \<open>Creation of both ends, and any traffic between them.\<close>

lemma channel_runs:
  assumes "env_ready e" and "env_ready e'" and p: "channel_policy p" and "p_ssrc_type p = ssrc_any_outbound"
    and xs: "list_all packet_well xs" "length xs < 2 ^ 31"
  obtains ctx f ctx' f' ds dtx h dtx' h' B B' g where "srtp_create [p] e = Some (err_status_ok, Some ctx, f)"
    and "srtp_create [p\<lparr>p_ssrc_type := ssrc_any_inbound\<rparr>] e' = Some (err_status_ok, Some ctx', f')"
    and "channel ctx f ctx' f' xs = Some (ds, (dtx, h), (dtx', h'))"
    and "channel_spec (p_allow_repeat_tx p) (\<lambda>_. fresh_rdbx (policy_window (p_window_size p))) xs = Some ds"
    and "in_step B B' (rtp_suite p) (rtcp_suite p) (policy_window (p_window_size p)) 0 dtx h dtx' h' g"
    and "heap_fresh e \<longrightarrow> heap_fresh f \<and> (\<exists>ob. B = grown p e ob)"
    and "heap_fresh e' \<longrightarrow> heap_fresh f' \<and> (\<exists>ob. B' = grown p e' ob)"
proof -
  let ?p = "p\<lparr>p_ssrc_type := ssrc_any_inbound\<rparr>" and ?k = "policy_window (p_window_size p)" and ?n = "length xs"
  have p': "channel_policy ?p" using p by (auto simp: channel_policy_def stream_policy_ok_def split: option.splits)
  have same: "rtp_suite ?p = rtp_suite p" "rtcp_suite ?p = rtcp_suite p" "p_window_size ?p = p_window_size p"
      "p_rtp ?p = p_rtp p" "p_rtcp ?p = p_rtcp p" "grown ?p = grown p"
    by (simp_all add: grown_def fun_eq_iff rtp_suite_def rtcp_suite_def policy_master_def cong: auth_type_t.case_cong)
  obtain ctx f B where S: "srtp_create [p] e = Some (err_status_ok, Some ctx, f)"
    "session B (rtp_suite p) (rtcp_suite p) ?k (2 ^ 48 - 2) f ctx" "stream_list ctx = []"
    "heap_fresh e \<longrightarrow> heap_fresh f \<and> (\<exists>ob. B = grown p e ob)"
    by (rule srtp_create_ok [OF assms(1) p disjI1 [OF assms(4)]])
  have ty: "p_ssrc_type ?p = ssrc_any_outbound \<or> p_ssrc_type ?p = ssrc_any_inbound" by simp
  obtain ctx' f' B' where R: "srtp_create [?p] e' = Some (err_status_ok, Some ctx', f')"
    "session B' (rtp_suite p) (rtcp_suite p) ?k (2 ^ 48 - 2) f' ctx'" "stream_list ctx' = []"
    "heap_fresh e' \<longrightarrow> heap_fresh f' \<and> (\<exists>ob. B' = grown p e' ob)"
    by (rule srtp_create_ok [OF assms(2) p' ty, unfolded same])
  have "?n \<le> 2 ^ 48 - 2" using xs(2) by simp
  then have start: "in_step B B' (rtp_suite p) (rtcp_suite p) ?k ?n ctx f ctx' f' (\<lambda>_. fresh_rdbx ?k)"
    using S(2,3) R(2,3) session_mono rtcp_in_step_init [OF xs(2)]
    by (auto simp: in_step_def database_def databases_def streams_simps)
  obtain ds where ds: "channel_spec (p_allow_repeat_tx p) (\<lambda>_. fresh_rdbx ?k) xs = Some ds"
    using channel_spec_total [of ?n "\<lambda>_. fresh_rdbx ?k" xs] rdbx_rel_fresh_rdbx [of ?k ?n] policy_window_bounds p xs
    by (auto simp: channel_policy_def stream_policy_ok_def)
  have rep: "su_repeat (rtp_suite p) = p_allow_repeat_tx p" by (simp add: rtp_suite_def)
  from channel_meets_spec [OF start order_refl xs(1), unfolded rep, OF ds] show ?thesis using that [OF S(1) R(1) _ ds _ S(4) R(4)] by blast
qed

text \<open>
  C2. Two sessions created from one policy, one for sending and one for receiving, form a channel: in states
  where the kernel is started and the allocator has memory both are created, and any sequence of fewer than
  \<open>2 ^ 31\<close> well-formed RTP and RTCP packets, of any number of sources and in any order, is delivered unchanged,
  except for the RTP packets whose index the replay database of their source refuses, and those are refused by the
  sender; a repeated index passes where the policy allows repeated transmission. No packet that was sent is rejected. The
  key of the policy has two readable octets behind it, which the library copies (\<open>stream_policy_ok\<close>); then no call
  runs into undefined behaviour.
\<close>

theorem srtp_channel_correct:
  assumes "env_ready e" and "env_ready e'" and "channel_policy p" and "p_ssrc_type p = ssrc_any_outbound"
    and "list_all packet_well xs" and "length xs < 2 ^ 31"
  shows "\<exists>ctx f ctx' f' ds fin. srtp_create [p] e = Some (err_status_ok, Some ctx, f) \<and>
    srtp_create [p\<lparr>p_ssrc_type := ssrc_any_inbound\<rparr>] e' = Some (err_status_ok, Some ctx', f') \<and>
    channel ctx f ctx' f' xs = Some (ds, fin) \<and>
    channel_spec (p_allow_repeat_tx p) (\<lambda>_. fresh_rdbx (policy_window (p_window_size p))) xs = Some ds"
  by (rule channel_runs [OF assms]) blast

text \<open>The sender sends an RTP packet, repeats it, and sends an RTCP packet.\<close>

definition sample_rtp :: octets where
  "sample_rtp = [0x80, 0, 0, 1, 0, 0, 0, 0, 0, 0, 0, 7, 1, 2, 3]"

definition sample_rtcp :: octets where
  "sample_rtcp = [0x80, 200, 0, 1, 0, 0, 0, 7]"

abbreviation sample_policy :: srtp_policy_t where
  "sample_policy \<equiv> default_policy ssrc_any_outbound (replicate 32 7)"

abbreviation sample_traffic :: "packet list" where
  "sample_traffic \<equiv> [rtp_packet sample_rtp, rtp_packet sample_rtp, rtcp_packet sample_rtcp]"

lemma sample_ok:
  shows "channel_policy sample_policy" "p_ssrc_type sample_policy = ssrc_any_outbound" "policy_window (p_window_size sample_policy) = 4"
    "rtp_well sample_rtp" "list_all packet_well sample_traffic" "length sample_traffic < 2 ^ 31" "p_allow_repeat_tx sample_policy = 0"
proof -
  show "channel_policy sample_policy" "p_ssrc_type sample_policy = ssrc_any_outbound" "policy_window (p_window_size sample_policy) = 4"
    "p_allow_repeat_tx sample_policy = 0"
    using default_policy_ok [of "replicate 32 7"]
    by (simp_all add: channel_policy_def default_policy_def default_crypto_def crypto_policy_set_rtp_default_def serv_auth_def
        policy_window_def window_words_def)
  have "rtp_enc_start sample_rtp = Some 12" by code_simp
  then show "rtp_well sample_rtp" "list_all packet_well sample_traffic" "length sample_traffic < 2 ^ 31"
    by (simp_all add: rtp_well_def rtcp_well_def sample_rtp_def sample_rtcp_def)
qed

theorem srtp_channel_correct_witness:
  "\<exists>ctx f ctx' f' fin. srtp_create [sample_policy] ready_env = Some (err_status_ok, Some ctx, f) \<and>
     srtp_create [sample_policy\<lparr>p_ssrc_type := ssrc_any_inbound\<rparr>] ready_env = Some (err_status_ok, Some ctx', f') \<and>
     channel ctx f ctx' f' sample_traffic =
       Some ([received err_status_ok sample_rtp, refused err_status_replay_fail, received err_status_ok sample_rtcp], fin)"
proof -
  have spec: "channel_spec 0 (\<lambda>_. fresh_rdbx 4) sample_traffic =
      Some [received err_status_ok sample_rtp, refused err_status_replay_fail, received err_status_ok sample_rtcp]"
    by code_simp
  from srtp_channel_correct [OF env_ready_ready_env env_ready_ready_env sample_ok(1,2,5,6), unfolded sample_ok(3,7) spec] show ?thesis
    by auto
qed

text \<open>
  C6. The life of the two sessions leaves no trace in the store: after any traffic as above \<^verbatim>\<open>srtp_dealloc\<close>
  succeeds on both ends, the reference counts of the cipher and authentication types are what they were before
  \<^verbatim>\<open>srtp_create\<close>, and so are the ciphers, authentication functions and key limits that are alive. The streams
  cloned meanwhile share the objects of the template, and none of these is released twice.
\<close>

theorem srtp_sessions_released:
  assumes "env_ready e" and "env_ready e'" and "heap_fresh e" and "heap_fresh e'" and "channel_policy p"
    and "p_ssrc_type p = ssrc_any_outbound" and "list_all packet_well xs" and "length xs < 2 ^ 31"
  shows "\<exists>ctx f ctx' f' ds dtx h dtx' h' z z'. srtp_create [p] e = Some (err_status_ok, Some ctx, f) \<and>
    srtp_create [p\<lparr>p_ssrc_type := ssrc_any_inbound\<rparr>] e' = Some (err_status_ok, Some ctx', f') \<and>
    channel ctx f ctx' f' xs = Some (ds, (dtx, h), (dtx', h')) \<and>
    srtp_dealloc dtx h = Some (err_status_ok, z) \<and> srtp_dealloc dtx' h' = Some (err_status_ok, z') \<and>
    env_cipher_refs z = env_cipher_refs e \<and> env_auth_refs z = env_auth_refs e \<and>
    cipher_heap z = cipher_heap e \<and> auth_heap z = auth_heap e \<and> limit_heap z = limit_heap e \<and>
    env_cipher_refs z' = env_cipher_refs e' \<and> env_auth_refs z' = env_auth_refs e' \<and>
    cipher_heap z' = cipher_heap e' \<and> auth_heap z' = auth_heap e' \<and> limit_heap z' = limit_heap e'"
proof (rule channel_runs [OF assms(1,2,5-8)])
  fix ctx f ctx' f' ds dtx h dtx' h' B B' g
  assume run: "srtp_create [p] e = Some (err_status_ok, Some ctx, f)"
      "srtp_create [p\<lparr>p_ssrc_type := ssrc_any_inbound\<rparr>] e' = Some (err_status_ok, Some ctx', f')"
      "channel ctx f ctx' f' xs = Some (ds, (dtx, h), (dtx', h'))"
    and "in_step B B' (rtp_suite p) (rtcp_suite p) (policy_window (p_window_size p)) 0 dtx h dtx' h' g"
    and B: "heap_fresh e \<longrightarrow> heap_fresh f \<and> (\<exists>ob. B = grown p e ob)" "heap_fresh e' \<longrightarrow> heap_fresh f' \<and> (\<exists>ob. B' = grown p e' ob)"
  then have ses: "session B (rtp_suite p) (rtcp_suite p) (policy_window (p_window_size p)) 0 h dtx"
    "session B' (rtp_suite p) (rtcp_suite p) (policy_window (p_window_size p)) 0 h' dtx'" by (simp_all add: in_step_def)
  from B assms(3,4) obtain ob ob' where BB: "B = grown p e ob" "B' = grown p e' ob'" by auto
  obtain z where z: "srtp_dealloc dtx h = Some (err_status_ok, z)" "cipher_heap z = cipher_heap e" "auth_heap z = auth_heap e"
      "limit_heap z = limit_heap e" "env_cipher_refs z = env_cipher_refs e" "env_auth_refs z = env_auth_refs e"
    by (rule srtp_dealloc_ok [OF ses(1) BB(1) [unfolded grown_def]]) (simp add: suite_types)
  obtain z' where z': "srtp_dealloc dtx' h' = Some (err_status_ok, z')" "cipher_heap z' = cipher_heap e'" "auth_heap z' = auth_heap e'"
      "limit_heap z' = limit_heap e'" "env_cipher_refs z' = env_cipher_refs e'" "env_auth_refs z' = env_auth_refs e'"
    by (rule srtp_dealloc_ok [OF ses(2) BB(2) [unfolded grown_def]]) (simp add: suite_types)
  from run z z' show ?thesis by blast
qed

theorem srtp_sessions_released_witness:
  "heap_fresh ready_env \<and> (\<exists>ctx f ctx' f' ds dtx h dtx' h' z z'. srtp_create [sample_policy] ready_env = Some (err_status_ok, Some ctx, f) \<and>
     srtp_create [sample_policy\<lparr>p_ssrc_type := ssrc_any_inbound\<rparr>] ready_env = Some (err_status_ok, Some ctx', f') \<and>
     channel ctx f ctx' f' sample_traffic = Some (ds, (dtx, h), (dtx', h')) \<and>
     srtp_dealloc dtx h = Some (err_status_ok, z) \<and> srtp_dealloc dtx' h' = Some (err_status_ok, z') \<and>
     env_cipher_refs z = (\<lambda>_. 0) \<and> cipher_heap z = Map.empty)"
proof -
  have fresh: "heap_fresh ready_env" and z: "env_cipher_refs ready_env = (\<lambda>_. 0)" "cipher_heap ready_env = Map.empty"
    by (simp_all add: heap_fresh_def ready_env_def)
  show ?thesis
    using srtp_sessions_released [OF env_ready_ready_env env_ready_ready_env fresh fresh sample_ok(1,2,5,6)] fresh unfolding z by blast
qed

end
