(* ===== verification/Srtp_Replay.thy ===== *)
theory Srtp_Replay
  imports Srtp_Channel
begin

text \<open>
  Replay protection of a receiving session against the network: whatever octets arrive as SRTP and SRTCP packets,
  in whatever order and from whatever sources, no packet index of a source is accepted twice. The laws of the two
  replay databases are used per source; nothing is assumed about keys, tags or the contents of the packets.
\<close>

section \<open>What processing a packet leaves alone\<close>

text \<open>The object of an authentication function keeps its tag length and has no keystream prefix.\<close>

definition plain :: "nat \<Rightarrow> int \<Rightarrow> srtp_env \<Rightarrow> bool" where
  "plain p n e \<longleftrightarrow> env_ready e \<and> (\<forall>a. auth_heap e p = Some a \<longrightarrow> prefix_len a = 0 \<and> auth_get_tag_length a = n)"

lemma plain_updates [simp]:
  "plain p n (e\<lparr>cipher_heap := h\<rparr>) = plain p n e" "plain p n (e\<lparr>limit_heap := l\<rparr>) = plain p n e"
  "plain p n (e\<lparr>event_log := log\<rparr>) = plain p n e" "plain p n (bump e) = plain p n e"
  by (simp_all add: plain_def) (simp add: bump_def)

lemma plain_auth:
  "plain p n e \<Longrightarrow> auth_heap e q = Some a \<Longrightarrow> prefix_len a' = prefix_len a \<Longrightarrow> auth_out_len a' = auth_out_len a \<Longrightarrow>
     plain p n (e\<lparr>auth_heap := (auth_heap e)(q \<mapsto> a')\<rparr>)"
  by (auto simp: plain_def auth_get_tag_length_def)

lemma auth_keeps_lengths:
  "auth_start a = (st, a') \<Longrightarrow> prefix_len a' = prefix_len a \<and> auth_out_len a' = auth_out_len a"
  "auth_update a buf = (st, a') \<Longrightarrow> prefix_len a' = prefix_len a \<and> auth_out_len a' = auth_out_len a"
  "auth_compute a buf res = Some (st, a', res') \<Longrightarrow> prefix_len a' = prefix_len a \<and> auth_out_len a' = auth_out_len a"
  by (auto simp: auth_start_def auth_update_def auth_compute_def map_prod_def split: auth_state_t.splits prod.splits)

lemma heap_plain:
  assumes "plain p n e"
  shows "opt_all (\<lambda>(st, e'). plain p n e') (heap_set_iv q iv e)"
    "opt_all (\<lambda>(st, buf', e'). plain p n e') (heap_output q buf m e)"
    "opt_all (\<lambda>(st, e'). plain p n e') (heap_auth_start q e)"
    "opt_all (\<lambda>(st, e'). plain p n e') (heap_auth_update q buf e)"
    "opt_all (\<lambda>(st, res', e'). plain p n e') (heap_auth_compute q buf res e)"
    "opt_all (\<lambda>(st, e'). plain p n e') (use_key str e)"
  using assms auth_keeps_lengths
  by (auto simp: opt_all_def heap_set_iv_def heap_output_def heap_auth_start_def heap_auth_update_def heap_auth_compute_def use_key_def
      Let_def srtp_handle_event_def split: Option.bind_splits prod.splits key_event_t.splits if_splits intro!: plain_auth)

lemma crypt_from_plain:
  assumes "plain p n e" and "\<And>off. enc_start = Some off \<Longrightarrow> int m \<le> off" and "m \<le> length pkt"
  shows "opt_all (\<lambda>(st, pkt', e'). plain p n e' \<and> take m pkt' = take m pkt) (crypt_from crypt q enc_start stop pkt e)"
proof (cases enc_start)
  case (Some off)
  then have "m \<le> nat off" using assms(2) by fastforce
  then have "take m (put_from pkt off b) = take m pkt" for b using assms(3) by (simp add: put_from_def min_def)
  with Some assms(1) show ?thesis
    by (auto simp: crypt_from_def heap_crypt_def opt_all_def split: Option.bind_splits)
qed (use assms(1) in \<open>simp add: crypt_from_def\<close>)

lemma mark_direction_plain:
  assumes "plain p n e" and "mark_direction d str e = (str', e')"
  shows "plain p n e'" "\<exists>d'. str' = str\<lparr>direction := d'\<rparr>"
  using assms by (auto simp: mark_direction_def srtp_handle_event_def split: if_splits intro: exI [of _ "direction str"] )

lemma rtp_enc_start_12: "rtp_enc_start pkt = Some off \<Longrightarrow> 12 \<le> off"
  by (auto simp: rtp_enc_start_def uint32s_in_rtp_header_def hdr_cc_def Let_def split: Option.bind_splits if_splits)

lemma opt_all_any: "(\<And>x. m = Some x \<Longrightarrow> opt_all Q (f x)) \<Longrightarrow> opt_all Q (Option.bind m f)"
  by (cases m) simp_all

lemma unprotect_tag_plain:
  assumes "plain p n e"
  shows "opt_all (\<lambda>(st, e'). plain p n e') (unprotect_tag str roc pkt len tag_len e)"
proof -
  have start: "opt_all (\<lambda>(st, r, e'). plain p n e') (if b then heap_output q buf m e else Some (err_status_ok, buf, e))" for b q buf m
    using heap_plain(2) [OF assms] assms by simp
  show ?thesis unfolding unprotect_tag_def
    by (rule opt_all_any, intro opt_rules opt_all_bind3 [OF start] opt_all_bind2 [OF heap_plain(3)] opt_all_bind2 [OF heap_plain(4)]
        opt_all_bind3 [OF heap_plain(5)] opt_all_any; simp)
qed

lemma take_12: "hdr_ssrc pkt = Some s \<Longrightarrow> 12 \<le> length pkt"
  by (auto simp: hdr_ssrc_def load32_def load8_def split: Option.bind_splits if_splits)

lemma unprotect_stream_plain:
  assumes "plain p n e"
  shows "opt_all (\<lambda>(st, str', pkt', tag_len, e'). plain p n e' \<and> (\<exists>d. str' = str\<lparr>direction := d\<rparr>) \<and> take 12 pkt' = take 12 pkt)
     (unprotect_stream str est pkt len e)" (is "opt_all ?P _")
proof -
  have same: "\<exists>d. str = str\<lparr>direction := d\<rparr>" by (rule exI [of _ "direction str"]) simp
  have tag: "opt_all (\<lambda>(st, e'). plain p n e') (if b then unprotect_tag str roc pkt len tl e else Some (err_status_ok, e))"
    if "plain p n e" for b roc tl e
    using unprotect_tag_plain [OF that] that by simp
  have off: "opt_all (\<lambda>enc_start. \<forall>off. enc_start = Some off \<longrightarrow> 12 \<le> off)
      (if b then map_option Some (rtp_enc_start pkt) else Some None)" for b
    by (auto simp: opt_all_def dest: rtp_enc_start_12)
  have dec: "opt_all (\<lambda>(st, pkt', e'). plain p n e' \<and> take 12 pkt' = take 12 pkt)
      (crypt_from crypt q enc_start stop pkt e)" if "plain p n e" "\<forall>off. enc_start = Some off \<longrightarrow> 12 \<le> off" "hdr_ssrc pkt = Some s"
    for crypt q enc_start stop e s
    using that take_12 by (intro crypt_from_plain) simp_all
  have last: "opt_all ?P (case mark_direction d str e of (str', e) \<Rightarrow> Some (err_status_ok, str', pkt', tl, e))"
    if "plain p n e" "take 12 pkt' = take 12 pkt" for d e pkt' tl
    using mark_direction_plain [OF that(1), of d str] that(2) by (cases "mark_direction d str e") auto
  show ?thesis unfolding unprotect_stream_def Let_def
    by (rule opt_all_any, rule opt_all_any,
        intro opt_all_bind2 [OF heap_plain(1) [OF assms]] opt_all_if opt_all_SomeI opt_all_bind [OF off] opt_all_bind2 [OF tag]
          opt_all_bind2 [OF heap_plain(6)] opt_all_bind3 [OF dec] last; (assumption | use assms same in simp))
qed

lemma unprotect_rtcp_tag_plain:
  assumes "plain p n e"
  shows "opt_all (\<lambda>(st, e'). plain p n e') (unprotect_rtcp_tag str tag pkt auth_len tag_len e)"
  unfolding unprotect_rtcp_tag_def
  by (intro opt_rules opt_all_bind2 [OF heap_plain(3) [OF assms]] opt_all_bind3 [OF heap_plain(5)] opt_all_any; simp)

lemma take_8: "rtcp_ssrc pkt = Some s \<Longrightarrow> 8 \<le> length pkt"
  by (auto simp: rtcp_ssrc_def load32_def load8_def split: Option.bind_splits if_splits)

text \<open>An accepted SRTCP packet has passed the replay check with the index in its trailer.\<close>

lemma unprotect_rtcp_stream_plain:
  assumes e: "plain (rtcp_auth str) n e" and str: "ekt str = None" "allow_repeat_tx str = 0"
  shows "opt_all (\<lambda>(st, idx, pkt', len', e'). plain (rtcp_auth str) n e' \<and> take 8 pkt' = take 8 pkt \<and>
       (st = err_status_ok \<longrightarrow> (\<exists>w. load32 pkt (len - (n + 4)) = Some w \<and> idx = bswap32 w AND SRTCP_INDEX_MASK) \<and>
          rdb_check (rtcp_rdb str) idx = Some err_status_ok))
     (unprotect_rtcp_stream str pkt len e)" (is "opt_all ?P _")
proof -
  let ?p = "rtcp_auth str"
  have find: "opt_all (\<lambda>(tag, pkt', al). pkt' = pkt) (rtcp_find_tag str pkt len tl)" for tl
    using str(1) by (auto simp: rtcp_find_tag_def opt_all_def Let_def)
  have pre: "opt_all (\<lambda>(st, pkt'', e'). plain ?p n e' \<and> pkt'' = pkt') (unprotect_rtcp_prefix str pkt' at e)"
    if "plain ?p n e" for pkt' at e
    using that by (auto simp: unprotect_rtcp_prefix_def opt_all_def plain_def auth_get_prefix_length_def split: Option.bind_splits)
  have dec: "opt_all (\<lambda>(st, pkt', e'). plain ?p n e' \<and> take 8 pkt' = take 8 pkt)
      (crypt_from crypt q (if b then Some octets_in_rtcp_header else None) stop pkt e)" if "plain ?p n e" "rtcp_ssrc pkt = Some s" for crypt q b stop e s
    using that take_8 by (intro crypt_from_plain) (simp_all add: octets_in_rtcp_header_def split: if_splits)
  have crypt: "opt_all ?P (do {
       (status, pkt, e) \<leftarrow> crypt_from cipher_decrypt (rtcp_cipher str) (if b then Some octets_in_rtcp_header else None) trailer pkt e;
       if status \<noteq> err_status_ok then Some (err_status_cipher_fail, idx, pkt, len, e)
       else Some (err_status_ok, idx, pkt, len', e)
     })"
    if "load32 pkt (len - (n + 4)) = Some w" "idx = bswap32 w AND SRTCP_INDEX_MASK" "rdb_check (rtcp_rdb str) idx = Some err_status_ok"
      "plain ?p n e" "rtcp_ssrc pkt = Some s"
    for w idx b trailer len' e s
    by (intro opt_all_bind3 [OF dec [OF that(4,5)]] opt_all_if opt_all_SomeI) (use that in simp_all)
  have rest: "opt_all ?P (do {
       s \<leftarrow> rtcp_ssrc pkt;
       (status, e) \<leftarrow> heap_set_iv (rtcp_cipher str) (rtcp_iv s idx) e;
       if status \<noteq> err_status_ok then Some (err_status_cipher_fail, idx, pkt, len, e)
       else do {
         (status, e) \<leftarrow> unprotect_rtcp_tag str auth_tag pkt auth_len tag_len e;
         if status \<noteq> err_status_ok then Some (status, idx, pkt, len, e)
         else do {
           (status, pkt, e) \<leftarrow> unprotect_rtcp_prefix str pkt at e;
           if status \<noteq> err_status_ok then Some (err_status_cipher_fail, idx, pkt, len, e)
           else do {
             (status, pkt, e) \<leftarrow> crypt_from cipher_decrypt (rtcp_cipher str) (if b then Some octets_in_rtcp_header else None) trailer pkt e;
             if status \<noteq> err_status_ok then Some (err_status_cipher_fail, idx, pkt, len, e)
             else Some (err_status_ok, idx, pkt, len', e)
           }
         }
       }
     })"
    if "load32 pkt (len - (n + 4)) = Some w" "idx = bswap32 w AND SRTCP_INDEX_MASK" "rdb_check (rtcp_rdb str) idx = Some err_status_ok"
    for w idx auth_tag auth_len tag_len at b trailer len'
    by (rule opt_all_any, intro opt_all_bind2 [OF heap_plain(1) [OF e]] opt_all_if opt_all_SomeI
        opt_all_bind2 [OF unprotect_rtcp_tag_plain] opt_all_bind3 [OF pre];
        (elim conjE)?; hypsubst?; (assumption | rule crypt [OF that] | use e that in simp))
  show ?thesis
  proof (cases "auth_heap e ?p")
    case (Some a)
    then have tl: "auth_get_tag_length a = n" using e by (simp add: plain_def)
    show ?thesis unfolding unprotect_rtcp_stream_def Some Option.bind.bind_lunit Let_def tl
      by (rule opt_all_any, rule opt_all_bind3 [OF find], hypsubst, rule opt_all_any, rule opt_all_any)
        (intro opt_all_if rest; use e str in \<open>simp add: trailer_octets_def\<close>)
  qed (simp add: unprotect_rtcp_stream_def)
qed

section \<open>The run of a receiver\<close>

text \<open>
  What the network hands to the receiver: the memory of a packet and the length the caller gives. The identity of a
  packet is its source and the index the receiver takes it for: the estimate of the replay database of the source,
  or the 31 bits in front of the SRTCP tag of \<open>n\<close> octets. A run ends with the list of packets or where the
  behaviour is undefined.
\<close>

datatype arrival = srtp_arrival octets int | srtcp_arrival octets int

datatype identity = rtp_id u32 int | rtcp_id u32 nat

fun arrival_id :: "nat \<Rightarrow> int \<Rightarrow> srtp_ctx_t \<Rightarrow> arrival \<Rightarrow> identity option" where
  "arrival_id k n ctx (srtp_arrival pkt len) = do {
     s \<leftarrow> hdr_ssrc pkt;
     q \<leftarrow> hdr_seq pkt;
     Some (rtp_id s (uint (snd (rdbx_estimate_index (fst (database k (stream_list ctx) s)) (bswap16 q)))))
   }"
| "arrival_id k n ctx (srtcp_arrival pkt len) = do {
     s \<leftarrow> rtcp_ssrc pkt;
     w \<leftarrow> load32 pkt (len - (n + 4));
     Some (rtcp_id s (unat (bswap32 w AND SRTCP_INDEX_MASK)))
   }"

fun arrive :: "arrival \<Rightarrow> srtp_ctx_t \<Rightarrow> srtp_env \<Rightarrow> (err_status_t \<times> srtp_ctx_t \<times> octets \<times> int \<times> srtp_env) option" where
  "arrive (srtp_arrival pkt len) ctx e = srtp_unprotect ctx pkt len e"
| "arrive (srtcp_arrival pkt len) ctx e = srtp_unprotect_rtcp ctx pkt len e"

fun accepted_packets :: "nat \<Rightarrow> int \<Rightarrow> srtp_ctx_t \<Rightarrow> srtp_env \<Rightarrow> arrival list \<Rightarrow> identity option list" where
  "accepted_packets k n ctx e [] = []"
| "accepted_packets k n ctx e (x # xs) =
     (case arrive x ctx e of None \<Rightarrow> []
      | Some (st, ctx', _, _, e') \<Rightarrow>
          (if st = err_status_ok then [arrival_id k n ctx x] else []) @ accepted_packets k n ctx' e' xs)"

section \<open>The invariant\<close>

definition guarded :: "nat \<Rightarrow> int \<Rightarrow> nat \<Rightarrow> srtp_ctx_t \<Rightarrow> srtp_env \<Rightarrow> identity set \<Rightarrow> bool" where
  "guarded k n m ctx e S \<longleftrightarrow> 0 < k \<and> k < 2 ^ 20 \<and>
     (\<exists>t. stream_template ctx = Some t \<and> plain (rtcp_auth t) n e \<and> allow_repeat_tx t = 0 \<and> ekt t = None \<and>
        bv_length (rdbx_bitmask (rtp_rdbx t)) = word_of_nat (32 * k) \<and>
        (\<forall>x\<in>set (stream_list ctx). allow_repeat_tx x = 0 \<and> ekt x = None \<and> rtcp_auth x = rtcp_auth t)) \<and>
     (\<forall>s. rdbx_rel m (fst (database k (stream_list ctx) s)) {i. rtp_id s i \<in> S} \<and>
        rdb_rel (snd (database k (stream_list ctx) s)) {i. rtcp_id s i \<in> S})"

lemma guarded_step: "guarded k n (Suc m) ctx e S \<Longrightarrow> guarded k n m ctx e S"
  unfolding guarded_def using rdbx_rel_mono by blast

text \<open>A stream that differs in direction and databases only, in place of the one with its SSRC or in front of all.\<close>

lemma guarded_update:
  assumes g: "guarded k n m ctx e S" and i: "find_stream (stream_list ctx) s = Some i"
    and x: "ssrc x = s" "allow_repeat_tx x = 0" "ekt x = None" "rtcp_auth x = rtcp_auth (stream_list ctx ! i)"
    and e': "plain (rtcp_auth x) n e'"
    and S: "rdbx_rel l (rtp_rdbx x) {i. rtp_id s i \<in> S'}" "rdb_rel (rtcp_rdb x) {i. rtcp_id s i \<in> S'}" "l \<le> m"
    and other: "\<And>s'. s' \<noteq> s \<Longrightarrow> (\<forall>i. rtp_id s' i \<in> S' \<longleftrightarrow> rtp_id s' i \<in> S) \<and> (\<forall>i. rtcp_id s' i \<in> S' \<longleftrightarrow> rtcp_id s' i \<in> S)"
  shows "guarded k n l (ctx\<lparr>stream_list := (stream_list ctx)[i := x]\<rparr>) e' S'"
proof -
  have mono: "rdbx_rel l r T" if "rdbx_rel m r T" for r T using that S(3) by (auto simp: rdbx_rel_def)
  from g obtain t where t: "stream_template ctx = Some t" "plain (rtcp_auth t) n e" "allow_repeat_tx t = 0" "ekt t = None"
    "bv_length (rdbx_bitmask (rtp_rdbx t)) = word_of_nat (32 * k)"
    "\<forall>x\<in>set (stream_list ctx). allow_repeat_tx x = 0 \<and> ekt x = None \<and> rtcp_auth x = rtcp_auth t"
    by (auto simp: guarded_def)
  have auth: "rtcp_auth x = rtcp_auth t" using x(4) t(6) find_stream_Some [OF i] by simp
  have "\<forall>x\<in>set ((stream_list ctx)[i := x]). allow_repeat_tx x = 0 \<and> ekt x = None \<and> rtcp_auth x = rtcp_auth t"
    using t(6) x auth set_update_subset_insert [of "stream_list ctx" i x] by auto
  moreover have "rdbx_rel l (fst (database k ((stream_list ctx)[i := x]) s')) {i. rtp_id s' i \<in> S'} \<and>
      rdb_rel (snd (database k ((stream_list ctx)[i := x]) s')) {i. rtcp_id s' i \<in> S'}" for s'
    using S(1,2) g mono other [of s'] databases_update [OF i x(1)]
    by (cases "s' = s") (auto simp: database_def guarded_def)
  ultimately show ?thesis using g t e' auth by (simp add: guarded_def)
qed

lemma guarded_template:
  assumes "guarded k n m ctx e S" and "stream_template ctx = Some t" and "plain (rtcp_auth t) n e'"
  shows "guarded k n m (ctx\<lparr>stream_template := Some (t\<lparr>direction := d\<rparr>)\<rparr>) e' S"
  using assms by (auto simp: guarded_def)

lemma guarded_new:
  assumes g: "guarded k n m ctx e S" and t: "stream_template ctx = Some t"
    and x: "ssrc x = s" "allow_repeat_tx x = 0" "ekt x = None" "rtcp_auth x = rtcp_auth t"
    and S: "rdbx_rel m (rtp_rdbx x) {i. rtp_id s i \<in> S'}" "rdb_rel (rtcp_rdb x) {i. rtcp_id s i \<in> S'}"
    and other: "\<And>s'. s' \<noteq> s \<Longrightarrow> (\<forall>i. rtp_id s' i \<in> S' \<longleftrightarrow> rtp_id s' i \<in> S) \<and> (\<forall>i. rtcp_id s' i \<in> S' \<longleftrightarrow> rtcp_id s' i \<in> S)"
  shows "guarded k n m (ctx\<lparr>stream_list := x # stream_list ctx\<rparr>) e S'"
proof -
  have "rdbx_rel m (fst (database k (x # stream_list ctx) s')) {i. rtp_id s' i \<in> S'} \<and>
      rdb_rel (snd (database k (x # stream_list ctx) s')) {i. rtcp_id s' i \<in> S'}" for s'
    using S g other [of s'] x(1) by (cases "s' = s") (auto simp: database_def databases_Cons guarded_def)
  then show ?thesis using g t x by (auto simp: guarded_def)
qed

lemma srtp_stream_clone_cases:
  assumes "0 < k" and "k < 2 ^ 20" and "plain p n e" and "bv_length (rdbx_bitmask (rtp_rdbx t)) = word_of_nat (32 * k)"
    and "srtp_stream_clone t s e = (st, new, e')"
  shows "plain p n e'" "new = None \<Longrightarrow> st \<noteq> err_status_ok"
    "new = Some x \<Longrightarrow> ssrc x = s \<and> rtp_rdbx x = fresh_rdbx k \<and> rtcp_rdb x = snd rdb_init \<and> allow_repeat_tx x = allow_repeat_tx t \<and>
       ekt x = ekt t \<and> rtcp_auth x = rtcp_auth t"
proof -
  note w = window_words_fresh [OF assms(1,2,4)]
  have e: "env_ready e" using assms(3) by (simp add: plain_def)
  note r = rdbx_init_fresh [OF e w(2,3), unfolded w(1)]
  show "plain p n e'" "new = None \<Longrightarrow> st \<noteq> err_status_ok"
    "new = Some x \<Longrightarrow> ssrc x = s \<and> rtp_rdbx x = fresh_rdbx k \<and> rtcp_rdb x = snd rdb_init \<and> allow_repeat_tx x = allow_repeat_tx t \<and>
       ekt x = ekt t \<and> rtcp_auth x = rtcp_auth t"
    using assms(3,5) by (auto simp: srtp_stream_clone_def r split: option.splits prod.splits if_splits)
qed

lemma clone_rule:
  assumes "0 < k" and "k < 2 ^ 20" and "plain p n e" and "bv_length (rdbx_bitmask (rtp_rdbx t)) = word_of_nat (32 * k)"
    and "allow_repeat_tx t = 0" and "ekt t = None"
    and none: "\<And>st e'. st \<noteq> err_status_ok \<Longrightarrow> plain p n e' \<Longrightarrow> P (F st e')"
    and some: "\<And>x y r e'. A x = Some (y, r) \<Longrightarrow> ssrc x = s \<Longrightarrow> rtp_rdbx x = fresh_rdbx k \<Longrightarrow> rtcp_rdb x = snd rdb_init \<Longrightarrow>
      allow_repeat_tx x = 0 \<Longrightarrow> ekt x = None \<Longrightarrow> rtcp_auth x = rtcp_auth t \<Longrightarrow> plain p n e' \<Longrightarrow> P (G x r e')"
  shows "opt_all P (case srtp_stream_clone t s e of (st, None, e) \<Rightarrow> Some (F st e)
    | (_, Some x, e) \<Rightarrow> Option.bind (A x) (\<lambda>(_, r). Some (G x r e)))"
proof -
  obtain st new e2 where c: "srtp_stream_clone t s e = (st, new, e2)" by (rule prod_cases3)
  note C = srtp_stream_clone_cases [OF assms(1-4) c]
  show ?thesis
  proof (cases new)
    case None
    show ?thesis unfolding c None prod.case option.case by (intro opt_all_SomeI none C(1) C(2) [OF None])
  next
    case (Some x)
    then show ?thesis unfolding c prod.case using C(3) [OF Some] C(1) assms(5,6)
      by (simp only: option.case) (intro opt_all_any opt_all_case2 opt_all_SomeI some; simp)
  qed
qed

lemma rdbx_check_fresh:
  assumes "0 < k" and "k < 2 ^ 20"
  shows "rdbx_check (fresh_rdbx k) (uint (x :: u16)) = Some err_status_ok"
proof -
  have rel: "rdbx_rel 0 (fresh_rdbx k) {}" using assms by (intro rdbx_rel_fresh_rdbx) simp_all
  have "0 \<le> uint x" "0 < rdbx_len (fresh_rdbx k)" using assms(1) by (simp_all add: rdbx_len_def fresh_rdbx_def)
  then have "\<not> uint x \<le> - rdbx_len (fresh_rdbx k)" by linarith
  then show ?thesis using rdbx_check_spec [OF rel, of "uint x"] by (simp split: if_splits)
qed

text \<open>The first index of a source.\<close>

lemma first_rtp:
  assumes "0 < k" and "k < 2 ^ 20" and "rdbx_rel (Suc m) (fresh_rdbx k) S" and "rdbx_add_index (fresh_rdbx k) (uint (x :: u16)) = Some (st, r)"
  shows "uint x \<notin> S" "rdbx_rel m r (insert (uint x) S)"
proof -
  let ?r = "fresh_rdbx k"
  have "rdbx_receive ?r x = Some (r, uint x)"
    using assms(4) rdbx_check_fresh [OF assms(1,2)] by (simp add: rdbx_receive_def rdbx_estimate_fresh is_up uint_up_ucast)
  from rdbx_receive_SomeD [OF assms(3) this] show "uint x \<notin> S" "rdbx_rel m r (insert (uint x) S)" .
qed

lemma first_rtcp:
  assumes "rdb_rel (snd rdb_init) S" and "unat idx < 2 ^ 31" and "rdb_add_index (snd rdb_init) idx = Some (st, r)"
  shows "unat idx \<notin> S" "rdb_rel r (insert (unat idx) S)"
proof -
  have "rdb_check (snd rdb_init) idx = Some err_status_ok"
    using rdb_check_spec [OF rdb_rel_init assms(2)] by (simp add: rdb_init_def)
  then have "rdb_receive (snd rdb_init) idx = Some (r, unat idx)" using assms(3) by (simp add: rdb_receive_def)
  from rdb_receive_SomeD(2,3) [OF assms(1,2) this] show "unat idx \<notin> S" "rdb_rel r (insert (unat idx) S)" .
qed

lemma ssrc_agree: "take 12 q = take 12 p \<Longrightarrow> hdr_ssrc q = hdr_ssrc p"
  unfolding hdr_ssrc_def by (rule load32_agree [of 12]) simp_all

lemma index_mask_bound: "unat (w AND SRTCP_INDEX_MASK) < 2 ^ 31"
proof -
  have "w AND SRTCP_INDEX_MASK = take_bit 31 w" by (simp add: take_bit_eq_mask SRTCP_INDEX_MASK_def mask_eq_exp_minus_1)
  then show ?thesis using take_bit_nat_less_exp [of 31 "unat w"] by (simp add: unsigned_take_bit_eq)
qed

text \<open>One packet: refused, and the invariant holds as before, or accepted with a new identity.\<close>

definition step_ok :: "nat \<Rightarrow> int \<Rightarrow> nat \<Rightarrow> identity set \<Rightarrow> identity option \<Rightarrow> err_status_t \<Rightarrow> srtp_ctx_t \<Rightarrow> srtp_env \<Rightarrow> bool" where
  "step_ok k n m S x st ctx e \<longleftrightarrow>
     (if st = err_status_ok then \<exists>y. x = Some y \<and> y \<notin> S \<and> guarded k n m ctx e (insert y S) else guarded k n m ctx e S)"

lemma step_ok_simps:
  "st \<noteq> err_status_ok \<Longrightarrow> step_ok k n m S x st ctx e \<longleftrightarrow> guarded k n m ctx e S"
  "step_ok k n m S (Some y) err_status_ok ctx e \<longleftrightarrow> y \<notin> S \<and> guarded k n m ctx e (insert y S)"
  by (simp_all add: step_ok_def)

lemma identity_sets:
  "{i. rtp_id s i \<in> insert (rtp_id s j) S} = insert j {i. rtp_id s i \<in> S}" "{i. rtcp_id s i \<in> insert (rtp_id s j) S} = {i. rtcp_id s i \<in> S}"
  "{i. rtcp_id s i \<in> insert (rtcp_id s k) S} = insert k {i. rtcp_id s i \<in> S}" "{i. rtp_id s i \<in> insert (rtcp_id s k) S} = {i. rtp_id s i \<in> S}"
  by auto

lemma elsewhere:
  assumes "s' \<noteq> s"
  shows "(\<forall>i. rtp_id s' i \<in> insert (rtp_id s j) S \<longleftrightarrow> rtp_id s' i \<in> S) \<and> (\<forall>i. rtcp_id s' i \<in> insert (rtp_id s j) S \<longleftrightarrow> rtcp_id s' i \<in> S)"
    "(\<forall>i. rtp_id s' i \<in> insert (rtcp_id s k) S \<longleftrightarrow> rtp_id s' i \<in> S) \<and> (\<forall>i. rtcp_id s' i \<in> insert (rtcp_id s k) S \<longleftrightarrow> rtcp_id s' i \<in> S)"
  using assms by simp_all

lemma guardedE:
  assumes "guarded k n (Suc m) ctx e S"
  obtains t :: srtp_stream_ctx_t where "stream_template ctx = Some t" and "plain (rtcp_auth t) n e" and "allow_repeat_tx t = 0" and "ekt t = None"
    and "bv_length (rdbx_bitmask (rtp_rdbx t)) = word_of_nat (32 * k)" and "0 < k" and "k < 2 ^ 20"
    and "\<forall>x\<in>set (stream_list ctx). allow_repeat_tx x = 0 \<and> ekt x = None \<and> rtcp_auth x = rtcp_auth t"
    and "\<forall>s. rdbx_rel (Suc m) (fst (database k (stream_list ctx) s)) {i. rtp_id s i \<in> S}"
    and "\<forall>s. rdb_rel (snd (database k (stream_list ctx) s)) {i. rtcp_id s i \<in> S}"
  using assms that unfolding guarded_def by blast

lemma guarded_known:
  assumes g: "guarded k n (Suc m) ctx e S" and i: "find_stream (stream_list ctx) s = Some i"
  shows "plain (rtcp_auth (stream_list ctx ! i)) n e" "allow_repeat_tx (stream_list ctx ! i) = 0" "ekt (stream_list ctx ! i) = None"
    "ssrc (stream_list ctx ! i) = s" "database k (stream_list ctx) s = (rtp_rdbx (stream_list ctx ! i), rtcp_rdb (stream_list ctx ! i))"
    "rdbx_rel (Suc m) (rtp_rdbx (stream_list ctx ! i)) {i. rtp_id s i \<in> S}" "rdb_rel (rtcp_rdb (stream_list ctx ! i)) {i. rtcp_id s i \<in> S}"
proof -
  from g obtain t :: srtp_stream_ctx_t where t: "plain (rtcp_auth t) n e" "\<forall>x\<in>set (stream_list ctx). allow_repeat_tx x = 0 \<and> ekt x = None \<and> rtcp_auth x = rtcp_auth t"
    "\<forall>s. rdbx_rel (Suc m) (fst (database k (stream_list ctx) s)) {i. rtp_id s i \<in> S}"
    "\<forall>s. rdb_rel (snd (database k (stream_list ctx) s)) {i. rtcp_id s i \<in> S}"
    by (rule guardedE)
  show db: "database k (stream_list ctx) s = (rtp_rdbx (stream_list ctx ! i), rtcp_rdb (stream_list ctx ! i))"
    using databases_nth [OF i] by (simp add: database_def)
  show "plain (rtcp_auth (stream_list ctx ! i)) n e" "allow_repeat_tx (stream_list ctx ! i) = 0" "ekt (stream_list ctx ! i) = None" "ssrc (stream_list ctx ! i) = s"
    using t(1,2) find_stream_Some [OF i] by auto
  show "rdbx_rel (Suc m) (rtp_rdbx (stream_list ctx ! i)) {i. rtp_id s i \<in> S}" "rdb_rel (rtcp_rdb (stream_list ctx ! i)) {i. rtcp_id s i \<in> S}"
    using spec [OF t(3), of s] spec [OF t(4), of s] by (simp_all add: db)
qed

lemma guarded_new_source:
  assumes g: "guarded k n (Suc m) ctx e S" and i: "find_stream (stream_list ctx) s = None" and t: "stream_template ctx = Some t"
  shows "plain (rtcp_auth t) n e" "allow_repeat_tx t = 0" "ekt t = None" "bv_length (rdbx_bitmask (rtp_rdbx t)) = word_of_nat (32 * k)"
    "0 < k" "k < 2 ^ 20" "database k (stream_list ctx) s = (fresh_rdbx k, snd rdb_init)"
    "rdbx_rel (Suc m) (fresh_rdbx k) {i. rtp_id s i \<in> S}" "rdb_rel (snd rdb_init) {i. rtcp_id s i \<in> S}"
proof -
  show db: "database k (stream_list ctx) s = (fresh_rdbx k, snd rdb_init)" using i by (simp add: database_def databases_def streams_def)
  from g obtain t' :: srtp_stream_ctx_t where T: "stream_template ctx = Some t'" "plain (rtcp_auth t') n e" "allow_repeat_tx t' = 0" "ekt t' = None"
    "bv_length (rdbx_bitmask (rtp_rdbx t')) = word_of_nat (32 * k)" "0 < k" "k < 2 ^ 20"
    "\<forall>s. rdbx_rel (Suc m) (fst (database k (stream_list ctx) s)) {i. rtp_id s i \<in> S}"
    "\<forall>s. rdb_rel (snd (database k (stream_list ctx) s)) {i. rtcp_id s i \<in> S}"
    by (rule guardedE)
  then show "plain (rtcp_auth t) n e" "allow_repeat_tx t = 0" "ekt t = None" "bv_length (rdbx_bitmask (rtp_rdbx t)) = word_of_nat (32 * k)"
    "0 < k" "k < 2 ^ 20" using t by simp_all
  show "rdbx_rel (Suc m) (fresh_rdbx k) {i. rtp_id s i \<in> S}" "rdb_rel (snd rdb_init) {i. rtcp_id s i \<in> S}"
    using spec [OF T(8), of s] spec [OF T(9), of s] by (simp_all add: db)
qed

lemma unprotect_known_guarded:
  assumes g: "guarded k n (Suc m) ctx e S" and s: "hdr_ssrc pkt = Some s" and i: "find_stream (stream_list ctx) s = Some i"
  shows "opt_all (\<lambda>(st, ctx', pkt', len', e'). step_ok k n m S (arrival_id k n ctx (srtp_arrival pkt len)) st ctx' e')
    (unprotect_known ctx i pkt len e)" (is "opt_all ?P _")
proof -
  let ?str = "stream_list ctx ! i"
  note g' = guarded_step [OF g] and str = guarded_known [OF g i]
  have ok: "?P (err_status_ok, ctx\<lparr>stream_list := (stream_list ctx)[i := ?str\<lparr>direction := d, rtp_rdbx := r\<rparr>]\<rparr>, p, l, e')"
    if q: "hdr_seq pkt = Some q" "rdbx_estimate_index (rtp_rdbx ?str) (bswap16 q) = (delta, est)"
      "rdbx_check (rtp_rdbx ?str) delta = Some err_status_ok" "rdbx_add_index (rtp_rdbx ?str) delta = Some (y, r)" "plain (rtcp_auth ?str) n e'"
    for q delta est y r d p l e'
  proof -
    have "rdbx_receive (rtp_rdbx ?str) (bswap16 q) = Some (r, uint est)" using q by (simp add: rdbx_receive_def)
    from rdbx_receive_SomeD [OF str(6) this]
    have new: "rtp_id s (uint est) \<notin> S" "rdbx_rel m r {i. rtp_id s i \<in> insert (rtp_id s (uint est)) S}" unfolding identity_sets by simp_all
    have "guarded k n m (ctx\<lparr>stream_list := (stream_list ctx)[i := ?str\<lparr>direction := d, rtp_rdbx := r\<rparr>]\<rparr>) e' (insert (rtp_id s (uint est)) S)"
      by (rule guarded_update [OF g' i]) (use str new q(5) in \<open>simp_all add: identity_sets elsewhere del: insert_iff\<close>)
    with s q str(5) new show ?thesis by (simp add: step_ok_simps)
  qed
  have fail: "?P (st, ctx\<lparr>stream_list := (stream_list ctx)[i := ?str\<lparr>direction := d\<rparr>]\<rparr>, p, l, e')"
    if "st \<noteq> err_status_ok" "plain (rtcp_auth ?str) n e'" for st d p l e'
    using that str rdbx_rel_mono by (auto simp: step_ok_simps intro!: guarded_update [OF g' i])
  show ?thesis unfolding unprotect_known_def Let_def
    by (rule opt_all_any, rule opt_all_case2, rule opt_all_any, rule opt_all_if, use g' str(2) in \<open>simp add: step_ok_simps\<close>,
        rule opt_all_bind5 [OF unprotect_stream_plain [OF str(1)]], elim conjE exE, hypsubst, rule opt_all_if,
        rule opt_all_SomeI, rule fail, assumption, assumption, rule opt_all_any, rule opt_all_case2, rule opt_all_SomeI, use ok str in simp)
qed

lemma unprotect_new_guarded:
  assumes g: "guarded k n (Suc m) ctx e S" and s: "hdr_ssrc pkt = Some s" and i: "find_stream (stream_list ctx) s = None"
    and t: "stream_template ctx = Some t"
  shows "opt_all (\<lambda>(st, ctx', pkt', len', e'). step_ok k n m S (arrival_id k n ctx (srtp_arrival pkt len)) st ctx' e')
    (unprotect_new ctx t pkt len e)" (is "opt_all ?P _")
proof -
  note g' = guarded_step [OF g] and T = guarded_new_source [OF g i t]
  have fail: "?P (st, ctx\<lparr>stream_template := Some (t\<lparr>direction := d\<rparr>)\<rparr>, p, l, e')"
    if "st \<noteq> err_status_ok" "plain (rtcp_auth t) n e'" for st d p l e'
    using that guarded_template [OF g' t] by (simp add: step_ok_simps)
  have ok: "?P (err_status_ok, ctx\<lparr>stream_template := Some (t\<lparr>direction := d\<rparr>), stream_list := x\<lparr>rtp_rdbx := r\<rparr> # stream_list ctx\<rparr>, p, l, e')"
    if q: "hdr_seq pkt = Some q" "rdbx_add_index (rtp_rdbx x) (uint (bswap16 q)) = Some (y, r)"
      and x: "ssrc x = s" "rtp_rdbx x = fresh_rdbx k" "rtcp_rdb x = snd rdb_init" "allow_repeat_tx x = 0" "ekt x = None" "rtcp_auth x = rtcp_auth t"
      and e': "plain (rtcp_auth t) n e'"
    for q y r d x p l e'
  proof -
    let ?id = "rtp_id s (uint (bswap16 q))" and ?ctx = "ctx\<lparr>stream_template := Some (t\<lparr>direction := d\<rparr>)\<rparr>"
    from first_rtp [OF T(5,6,8) q(2) [unfolded x(2)]]
    have new: "?id \<notin> S" "rdbx_rel m r {i. rtp_id s i \<in> insert ?id S}" unfolding identity_sets by simp_all
    have "guarded k n m (?ctx\<lparr>stream_list := x\<lparr>rtp_rdbx := r\<rparr> # stream_list ?ctx\<rparr>) e' (insert ?id S)"
      by (rule guarded_new [where t = "t\<lparr>direction := d\<rparr>" and s = s, OF guarded_template [OF g' t e']])
        (use x new(2) T(9) in \<open>simp_all add: identity_sets elsewhere del: insert_iff\<close>)
    with s q T(7) new(1) show ?thesis by (simp add: step_ok_simps rdbx_estimate_fresh is_up uint_up_ucast)
  qed
  have clone: "opt_all ?P (case srtp_stream_clone (t\<lparr>direction := d\<rparr>) s e' of
        (status, None, e) \<Rightarrow> Some (status, ctx\<lparr>stream_template := Some (t\<lparr>direction := d\<rparr>)\<rparr>, p, len, e)
      | (_, Some x, e) \<Rightarrow> do {
          (_, r) \<leftarrow> rdbx_add_index (rtp_rdbx x) (uint (bswap16 q));
          Some (err_status_ok, ctx\<lparr>stream_template := Some (t\<lparr>direction := d\<rparr>), stream_list := x\<lparr>rtp_rdbx := r\<rparr> # stream_list ctx\<rparr>, p, l, e)
        })"
    if "plain (rtcp_auth t) n e'" "hdr_seq pkt = Some q" for d e' p l q
    by (rule clone_rule [OF T(5,6) that(1)]) (use T that fail ok in simp_all)
  have list: "stream_list (ctx\<lparr>stream_template := x\<rparr>) = stream_list ctx" for x by simp
  show ?thesis unfolding unprotect_new_def Let_def list
    by (rule opt_all_any, rule opt_all_bind5 [OF unprotect_stream_plain [OF T(1)]], elim conjE exE, hypsubst, rule opt_all_if,
        rule opt_all_SomeI, rule fail, assumption, assumption, drule ssrc_agree, simp only: s Option.bind.bind_lunit, rule clone)
qed

lemma unprotect_rtcp_known_guarded:
  assumes g: "guarded k n (Suc m) ctx e S" and s: "rtcp_ssrc pkt = Some s" and i: "find_stream (stream_list ctx) s = Some i"
  shows "opt_all (\<lambda>(st, ctx', pkt', len', e'). step_ok k n m S (arrival_id k n ctx (srtcp_arrival pkt len)) st ctx' e')
    (unprotect_rtcp_known ctx i pkt len e)" (is "opt_all ?P _")
proof -
  let ?str = "stream_list ctx ! i"
  note g' = guarded_step [OF g] and str = guarded_known [OF g i]
  have fail: "?P (st, ctx, p, l, e')" if "st \<noteq> err_status_ok" "plain (rtcp_auth ?str) n e'" for st p l e'
  proof -
    have "guarded k n m (ctx\<lparr>stream_list := (stream_list ctx)[i := ?str]\<rparr>) e' S"
      by (rule guarded_update [OF g' i]) (use str that rdbx_rel_mono in simp_all)
    with that show ?thesis by (simp add: step_ok_simps)
  qed
  have ok: "?P (err_status_ok, ctx\<lparr>stream_list := (stream_list ctx)[i := ?str\<lparr>direction := d, rtcp_rdb := r\<rparr>]\<rparr>, p, l, e')"
    if w: "load32 pkt (len - (n + 4)) = Some w" "idx = bswap32 w AND SRTCP_INDEX_MASK" "rdb_check (rtcp_rdb ?str) idx = Some err_status_ok"
      "rdb_add_index (rtcp_rdb ?str) idx = Some (y, r)" "plain (rtcp_auth ?str) n e'"
    for w idx y r d p l e'
  proof -
    have "unat idx < 2 ^ 31" unfolding w(2) by (rule index_mask_bound)
    moreover have "rdb_receive (rtcp_rdb ?str) idx = Some (r, unat idx)" using w by (simp add: rdb_receive_def)
    ultimately have new: "rtcp_id s (unat idx) \<notin> S" "rdb_rel r {i. rtcp_id s i \<in> insert (rtcp_id s (unat idx)) S}"
      using rdb_receive_SomeD(2,3) [OF str(7), of idx r "unat idx"] unfolding identity_sets by simp_all
    have "guarded k n m (ctx\<lparr>stream_list := (stream_list ctx)[i := ?str\<lparr>direction := d, rtcp_rdb := r\<rparr>]\<rparr>) e' (insert (rtcp_id s (unat idx)) S)"
      by (rule guarded_update [OF g' i]) (use str new w(5) rdbx_rel_mono in \<open>simp_all add: identity_sets elsewhere del: insert_iff\<close>)
    with s w new show ?thesis by (simp add: step_ok_simps)
  qed
  have last: "opt_all ?P (case mark_direction dir_srtp_receiver ?str e' of (str, e) \<Rightarrow> do {
       (_, r) \<leftarrow> rdb_add_index (rtcp_rdb str) idx;
       Some (err_status_ok, ctx\<lparr>stream_list := (stream_list ctx)[i := str\<lparr>rtcp_rdb := r\<rparr>]\<rparr>, p, l, e)
     })"
    if "\<exists>w. load32 pkt (len - (n + 4)) = Some w \<and> idx = bswap32 w AND SRTCP_INDEX_MASK" "rdb_check (rtcp_rdb ?str) idx = Some err_status_ok"
      "plain (rtcp_auth ?str) n e'" for idx e' p l
  proof (rule opt_all_case2)
    fix str' e2
    assume "mark_direction dir_srtp_receiver ?str e' = (str', e2)"
    from mark_direction_plain [OF that(3) this] obtain d where d: "plain (rtcp_auth ?str) n e2" "str' = ?str\<lparr>direction := d\<rparr>" by blast
    then show "opt_all ?P (do { (_, r) \<leftarrow> rdb_add_index (rtcp_rdb str') idx;
       Some (err_status_ok, ctx\<lparr>stream_list := (stream_list ctx)[i := str'\<lparr>rtcp_rdb := r\<rparr>]\<rparr>, p, l, e2) })"
      unfolding d(2) by (intro opt_all_any opt_all_case2 opt_all_SomeI) (use ok that d(1) in auto)
  qed
  show ?thesis unfolding unprotect_rtcp_known_def Let_def
    by (rule opt_all_bind5 [OF unprotect_rtcp_stream_plain [OF str(1,3,2)]], rule opt_all_if, rule opt_all_SomeI, rule fail, assumption,
        blast, rule last; simp)
qed

lemma unprotect_rtcp_new_guarded:
  assumes g: "guarded k n (Suc m) ctx e S" and s: "rtcp_ssrc pkt = Some s" and i: "find_stream (stream_list ctx) s = None"
    and t: "stream_template ctx = Some t"
  shows "opt_all (\<lambda>(st, ctx', pkt', len', e'). step_ok k n m S (arrival_id k n ctx (srtcp_arrival pkt len)) st ctx' e')
    (unprotect_rtcp_new ctx t pkt len e)" (is "opt_all ?P _")
proof -
  note g' = guarded_step [OF g] and T = guarded_new_source [OF g i t]
  have fail: "?P (st, ctx\<lparr>stream_template := Some (t\<lparr>direction := d\<rparr>)\<rparr>, p, l, e')"
    if "st \<noteq> err_status_ok" "plain (rtcp_auth t) n e'" for st d p l e'
    using that guarded_template [OF g' t] by (simp add: step_ok_simps)
  have fail0: "?P (st, ctx\<lparr>stream_template := Some t\<rparr>, p, l, e')" if "st \<noteq> err_status_ok" "plain (rtcp_auth t) n e'" for st p l e'
    using fail [where d = "direction t"] that by simp
  have ok: "?P (err_status_ok, ctx\<lparr>stream_template := Some (t\<lparr>direction := d\<rparr>), stream_list := x\<lparr>rtcp_rdb := r\<rparr> # stream_list ctx\<rparr>, p, l, e')"
    if w: "\<exists>w. load32 pkt (len - (n + 4)) = Some w \<and> idx = bswap32 w AND SRTCP_INDEX_MASK" and r: "rdb_add_index (rtcp_rdb x) idx = Some (y, r)"
      and x: "ssrc x = s" "rtp_rdbx x = fresh_rdbx k" "rtcp_rdb x = snd rdb_init" "allow_repeat_tx x = 0" "ekt x = None" "rtcp_auth x = rtcp_auth t"
      and e': "plain (rtcp_auth t) n e'"
    for idx y r d x p l e'
  proof -
    let ?id = "rtcp_id s (unat idx)" and ?ctx = "ctx\<lparr>stream_template := Some (t\<lparr>direction := d\<rparr>)\<rparr>"
    have "unat idx < 2 ^ 31" using w index_mask_bound by auto
    from first_rtcp [OF T(9) this r [unfolded x(3)]]
    have new: "?id \<notin> S" "rdb_rel r {i. rtcp_id s i \<in> insert ?id S}" unfolding identity_sets by simp_all
    have "guarded k n m (?ctx\<lparr>stream_list := x\<lparr>rtcp_rdb := r\<rparr> # stream_list ?ctx\<rparr>) e' (insert ?id S)"
      by (rule guarded_new [where t = "t\<lparr>direction := d\<rparr>" and s = s, OF guarded_template [OF g' t e']])
        (use x new(2) rdbx_rel_mono [OF T(8)] in \<open>simp_all add: identity_sets elsewhere del: insert_iff\<close>)
    with s w new(1) show ?thesis by (auto simp: step_ok_simps)
  qed
  have clone: "opt_all ?P (case srtp_stream_clone (t\<lparr>direction := d\<rparr>) s e' of
        (status, None, e) \<Rightarrow> Some (status, ctx\<lparr>stream_template := Some (t\<lparr>direction := d\<rparr>)\<rparr>, p, l, e)
      | (_, Some x, e) \<Rightarrow> do {
          (_, r) \<leftarrow> rdb_add_index (rtcp_rdb x) idx;
          Some (err_status_ok, ctx\<lparr>stream_template := Some (t\<lparr>direction := d\<rparr>), stream_list := x\<lparr>rtcp_rdb := r\<rparr> # stream_list ctx\<rparr>, p, l, e)
        })"
    if "plain (rtcp_auth t) n e'" "\<exists>w. load32 pkt (len - (n + 4)) = Some w \<and> idx = bswap32 w AND SRTCP_INDEX_MASK" for d e' p l idx
    by (rule clone_rule [OF T(5,6) that(1)]) (use T that fail ok in simp_all)
  have last: "opt_all ?P (case mark_direction dir_srtp_receiver t e' of (t, e) \<Rightarrow>
      Option.bind (rtcp_ssrc p) (\<lambda>s. case srtp_stream_clone t s e of
        (status, None, e) \<Rightarrow> Some (status, ctx\<lparr>stream_template := Some t\<rparr>, p, l, e)
      | (_, Some x, e) \<Rightarrow> do {
          (_, r) \<leftarrow> rdb_add_index (rtcp_rdb x) idx;
          Some (err_status_ok, ctx\<lparr>stream_template := Some t, stream_list := x\<lparr>rtcp_rdb := r\<rparr> # stream_list ctx\<rparr>, p, l, e)
        }))"
    if "plain (rtcp_auth t) n e'" "\<exists>w. load32 pkt (len - (n + 4)) = Some w \<and> idx = bswap32 w AND SRTCP_INDEX_MASK" "take 8 p = take 8 pkt" for e' p l idx
  proof -
    obtain t' e2 where m: "mark_direction dir_srtp_receiver t e' = (t', e2)" by (rule prod.exhaust)
    from mark_direction_plain [OF that(1) m] obtain d where d: "plain (rtcp_auth t) n e2" "t' = t\<lparr>direction := d\<rparr>" by blast
    have "rtcp_ssrc p = Some s" using rtcp_ssrc_agree [OF that(3)] s by simp
    then show ?thesis unfolding m prod.case d(2) by (simp only: Option.bind.bind_lunit) (rule clone [OF d(1) that(2)])
  qed
  have ekt: "(if ekt t = None then Some (err_status_ok, t, pkt, e) else srtp_stream_init_from_ekt t pkt len e) = Some (err_status_ok, t, pkt, e)"
    using T(3) by simp
  have ctx: "ctx\<lparr>stream_template := Some t, stream_template := x\<rparr> = ctx\<lparr>stream_template := x\<rparr>"
    "stream_list (ctx\<lparr>stream_template := y\<rparr>) = stream_list ctx" for x y by simp_all
  show ?thesis unfolding unprotect_rtcp_new_def ekt Option.bind.bind_lunit prod.case Let_def ctx
    by (rule opt_all_if, simp, rule opt_all_bind5 [OF unprotect_rtcp_stream_plain [OF T(1,3,2)]], rule opt_all_if, rule opt_all_SomeI, rule fail0, assumption,
        blast, rule last; simp)
qed

lemma arrive_guarded:
  assumes g: "guarded k n (Suc m) ctx e S"
  shows "opt_all (\<lambda>(st, ctx', pkt', len', e'). step_ok k n m S (arrival_id k n ctx x) st ctx' e') (arrive x ctx e)"
proof -
  obtain t :: srtp_stream_ctx_t where t: "stream_template ctx = Some t" using g by (rule guardedE)
  note g' = guarded_step [OF g]
  show ?thesis
  proof (cases x)
    case (srtp_arrival pkt len)
    show ?thesis unfolding srtp_arrival arrive.simps srtp_unprotect_def srtp_get_stream_def t option.case
      by (intro opt_all_if opt_all_SomeI, use g' in \<open>simp add: step_ok_simps\<close>, rule opt_all_any, rule opt_all_case_option)
        (erule (1) unprotect_new_guarded [OF g _ _ t] unprotect_known_guarded [OF g])+
  next
    case (srtcp_arrival pkt len)
    show ?thesis unfolding srtcp_arrival arrive.simps srtp_unprotect_rtcp_def srtp_get_stream_def t option.case
      by (rule opt_all_any, rule opt_all_case_option)
        (erule (1) unprotect_rtcp_new_guarded [OF g _ _ t] unprotect_rtcp_known_guarded [OF g])+
  qed
qed

lemma accepted_packets_guarded:
  "guarded k n (length xs) ctx e S \<Longrightarrow> distinct (accepted_packets k n ctx e xs) \<and> set (accepted_packets k n ctx e xs) \<inter> insert None (Some ` S) = {}"
proof (induction xs arbitrary: ctx e S)
  case (Cons x xs)
  show ?case
  proof (cases "arrive x ctx e")
    case (Some r)
    then obtain st ctx' p l e' where r: "arrive x ctx e = Some (st, ctx', p, l, e')" by (cases r) auto
    have "step_ok k n (length xs) S (arrival_id k n ctx x) st ctx' e'"
      using opt_allD [OF arrive_guarded [of k n "length xs" ctx e S x] r] Cons.prems by simp
    then show ?thesis using Cons.IH by (fastforce simp: r step_ok_def split: if_splits)
  qed simp
qed simp

section \<open>A receiver\<close>

lemma sample_receiver:
  obtains ctx f B where "srtp_create [sample_policy\<lparr>p_ssrc_type := ssrc_any_inbound\<rparr>] ready_env = Some (err_status_ok, Some ctx, f)"
    and "session B (rtp_suite (sample_policy\<lparr>p_ssrc_type := ssrc_any_inbound\<rparr>)) (rtcp_suite (sample_policy\<lparr>p_ssrc_type := ssrc_any_inbound\<rparr>))
      4 (2 ^ 48 - 2) f ctx" and "stream_list ctx = []"
proof -
  let ?p = "sample_policy\<lparr>p_ssrc_type := ssrc_any_inbound\<rparr>"
  have p: "channel_policy ?p" "p_ssrc_type ?p = ssrc_any_outbound \<or> p_ssrc_type ?p = ssrc_any_inbound" "p_window_size ?p = p_window_size sample_policy"
    using sample_ok(1) by (auto simp: channel_policy_def stream_policy_ok_def split: option.splits)
  show ?thesis by (rule srtp_create_ok [OF env_ready_ready_env p(1,2), unfolded p(3) sample_ok(3)]) (rule that)
qed

lemma sample_suites:
  "su_tag_len (rtp_suite (sample_policy\<lparr>p_ssrc_type := ssrc_any_inbound\<rparr>)) = 10" "su_tag_len (rtcp_suite (sample_policy\<lparr>p_ssrc_type := ssrc_any_inbound\<rparr>)) = 10"
  "serv_auth (su_services (rtp_suite (sample_policy\<lparr>p_ssrc_type := ssrc_any_inbound\<rparr>)))"
  by (simp_all add: rtp_suite_def rtcp_suite_def default_policy_def default_crypto_def crypto_policy_set_rtp_default_def policy_auth_def serv_auth_def)

section \<open>The property\<close>

text \<open>
  C4. No packet is accepted twice: a receiving session that was created in a started kernel, under a policy that does not
  allow repeated transmission (\<^verbatim>\<open>allow_repeat_tx\<close> is 0), and that gets any octets as SRTP and SRTCP packets, with any
  lengths, in any order and from any sources, accepts no packet index of any source twice, and each accepted packet has
  an identity. The arrivals are followed up to the first one whose treatment is undefined.
\<close>

theorem srtp_session_no_replay:
  assumes "env_ready e" and "channel_policy p" and "p_ssrc_type p = ssrc_any_inbound" and "p_allow_repeat_tx p = 0" and "length xs < 2 ^ 32"
  shows "\<exists>ctx f. srtp_create [p] e = Some (err_status_ok, Some ctx, f) \<and>
    (let ids = accepted_packets (policy_window (p_window_size p)) (int (su_tag_len (rtcp_suite p))) ctx f xs in distinct ids \<and> None \<notin> set ids)"
proof -
  let ?k = "policy_window (p_window_size p)" and ?n = "int (su_tag_len (rtcp_suite p))"
  obtain ctx f B where S: "srtp_create [p] e = Some (err_status_ok, Some ctx, f)" "session B (rtp_suite p) (rtcp_suite p) ?k (2 ^ 48 - 2) f ctx"
    "stream_list ctx = []"
    by (rule srtp_create_ok [OF assms(1,2) disjI2 [OF assms(3)]])
  from S(2) obtain t where t: "stream_template ctx = Some t" "endpoint B (rtp_suite p) (rtcp_suite p) ?k (2 ^ 48 - 2) f t"
    by (auto simp: session_def)
  note D = endpointD [OF t(2)]
  from D(6) obtain a q where a: "auth_heap f (rtcp_auth t) = Some a" "auth_rep a (su_kind (rtcp_suite p)) (su_auth_key (rtcp_suite p)) q"
    by (rule suite_keyedE)
  have "plain (rtcp_auth t) ?n f" using a(1) D(1) auth_rep_lengths(1,2) [OF a(2)] by (simp add: plain_def auth_get_prefix_length_def)
  then have "guarded ?k ?n (length xs) ctx f {}"
    using t(1) S(3) D(3,4,9-12) rdbx_rel_fresh_rdbx [OF D(3,4) assms(5)] assms(4) rdb_rel_init
    by (simp add: guarded_def database_def databases_def streams_simps rtp_suite_def)
  from accepted_packets_guarded [OF this] S(1) show ?thesis by (auto simp: Let_def)
qed

theorem srtp_session_no_replay_witness:
  "let p = sample_policy\<lparr>p_ssrc_type := ssrc_any_inbound\<rparr>; pkt = srtp_packet (rtp_suite p) 1 sample_rtp;
       x = srtp_arrival pkt (int (length pkt))
   in \<exists>ctx f. srtp_create [p] ready_env = Some (err_status_ok, Some ctx, f) \<and>
     accepted_packets 4 10 ctx f [x, x] = [Some (rtp_id 0x07000000 1)]"
proof (rule sample_receiver)
  fix ctx f B
  let ?p = "sample_policy\<lparr>p_ssrc_type := ssrc_any_inbound\<rparr>"
  assume S: "srtp_create [?p] ready_env = Some (err_status_ok, Some ctx, f)"
    "session B (rtp_suite ?p) (rtcp_suite ?p) 4 (2 ^ 48 - 2) f ctx" "stream_list ctx = []"
  define pkt where "pkt = srtp_packet (rtp_suite ?p) 1 sample_rtp"
  let ?x = "srtp_arrival pkt (int (length pkt))" and ?id = "Some (rtp_id 0x07000000 1)"
  have p: "channel_policy ?p" "policy_window (p_window_size ?p) = 4" "p_allow_repeat_tx ?p = 0" "p_ssrc_type ?p = ssrc_any_inbound"
    "length [?x, ?x] < 2 ^ 32"
    using sample_ok(1,3,7) by (auto simp: channel_policy_def stream_policy_ok_def split: option.splits)
  have once: "distinct (accepted_packets 4 10 ctx f [?x, ?x])"
    using srtp_session_no_replay [OF env_ready_ready_env p(1,4,3,5), unfolded p(2)] S(1) sample_suites by (auto simp: Let_def)
  have h: "hdr_ssrc sample_rtp = Some 0x07000000" "hdr_seq sample_rtp = Some 0x0100" by code_simp+
  then have hp: "hdr_ssrc pkt = Some 0x07000000" "hdr_seq pkt = Some 0x0100"
    using hdr_srtp_packet [OF sample_ok(4), of _ _ "[]"] by (simp_all add: pkt_def)
  have db: "database 4 (stream_list ctx) 0x07000000 = (fresh_rdbx 4, snd rdb_init)"
    by (simp add: S(3) database_def databases_def streams_simps)
  have r: "rdbx_estimate_index (fresh_rdbx 4) (bswap16 0x0100) = (1, 1)"
    "case rdbx_add_index (fresh_rdbx 4) 1 of Some (_, r) \<Rightarrow> rdbx_estimate_index r (bswap16 0x0100) = (0, 1) | None \<Rightarrow> False" by code_simp+
  from r(2) obtain y r' where r': "rdbx_add_index (fresh_rdbx 4) 1 = Some (y, r')" "rdbx_estimate_index r' (bswap16 0x0100) = (0, 1)"
    by (auto split: option.splits)
  have chk: "rdbx_check (fresh_rdbx 4) 1 = Some err_status_ok" "passes (su_repeat (rtp_suite ?p)) err_status_ok"
    by (simp_all add: rdbx_check_def passes_def)
  have ses: "session B (rtp_suite ?p) (rtcp_suite ?p) 4 (Suc 0) f ctx" using S(2) by (rule session_mono) simp
  obtain ctx' rest e' where 1: "srtp_unprotect ctx (pkt @ []) (int (length pkt)) f =
      Some (err_status_ok, ctx', sample_rtp @ rest, int (length sample_rtp), e')"
    "databases (stream_list ctx') = (databases (stream_list ctx))(0x07000000 \<mapsto> (r', snd rdb_init))"
    unfolding pkt_def by (rule srtp_unprotect_ok [OF ses sample_ok(4) h db r(1) chk r'(1)])
  have id: "arrival_id 4 10 ctx ?x = ?id" "arrival_id 4 10 ctx' ?x = ?id"
    using hp db r(1) r'(2) 1(2) by (simp_all add: database_def)
  have "accepted_packets 4 10 ctx f [?x, ?x] = [?id]" using once id 1(1) by (auto split: option.splits if_splits)
  then show ?thesis using S(1) unfolding Let_def pkt_def by blast
qed

end
