(* ===== verification/Srtp_Profile.thy ===== *)
theory Srtp_Profile
  imports Srtp_Replay
begin

text \<open>
  Sessions keyed from a DTLS-SRTP handshake: the policies that \<^verbatim>\<open>srtp.c\<close> gives to a protection profile, the master
  key and salt that are joined for them, and the packets that leave such a session.
\<close>

section \<open>The profiles\<close>

text \<open>
  The policy of a profile, for SRTP and for SRTCP. The profiles that are named for a tag of 32 bits
  (\<^verbatim>\<open>sha1_32\<close>) get one of 80 bits: in \<^verbatim>\<open>crypto_policy_set_from_profile_for_rtp\<close> the second setter of each case
  overwrites what the first has set.
\<close>

fun profile_spec :: "srtp_profile_t \<Rightarrow> crypto_policy_t option" where
  "profile_spec srtp_profile_aes128_cm_sha1_80 = Some \<lparr>cp_cipher_type = 1, cp_cipher_key_len = 30, cp_auth_type = 3,
     cp_auth_key_len = 20, cp_auth_tag_len = 10, cp_sec_serv = sec_serv_conf_and_auth\<rparr>"
| "profile_spec srtp_profile_aes128_cm_sha1_32 = Some \<lparr>cp_cipher_type = 1, cp_cipher_key_len = 30, cp_auth_type = 3,
     cp_auth_key_len = 20, cp_auth_tag_len = 10, cp_sec_serv = sec_serv_conf_and_auth\<rparr>"
| "profile_spec srtp_profile_aes256_cm_sha1_80 = Some \<lparr>cp_cipher_type = 1, cp_cipher_key_len = 46, cp_auth_type = 3,
     cp_auth_key_len = 20, cp_auth_tag_len = 10, cp_sec_serv = sec_serv_conf_and_auth\<rparr>"
| "profile_spec srtp_profile_aes256_cm_sha1_32 = Some \<lparr>cp_cipher_type = 1, cp_cipher_key_len = 46, cp_auth_type = 3,
     cp_auth_key_len = 20, cp_auth_tag_len = 10, cp_sec_serv = sec_serv_conf_and_auth\<rparr>"
| "profile_spec srtp_profile_null_sha1_80 = Some \<lparr>cp_cipher_type = 0, cp_cipher_key_len = 0, cp_auth_type = 3,
     cp_auth_key_len = 20, cp_auth_tag_len = 10, cp_sec_serv = sec_serv_auth\<rparr>"
| "profile_spec srtp_profile_null_sha1_32 = None"
| "profile_spec srtp_profile_reserved = None"

lemmas policy_setters =
  crypto_policy_set_from_profile_for_rtp_def crypto_policy_set_from_profile_for_rtcp_def
  crypto_policy_set_aes_cm_128_hmac_sha1_80_def crypto_policy_set_aes_cm_128_hmac_sha1_32_def
  crypto_policy_set_null_cipher_hmac_sha1_80_def crypto_policy_set_aes_cm_256_hmac_sha1_80_def
  crypto_policy_set_aes_cm_256_hmac_sha1_32_def crypto_policy_set_rtp_default_def NULL_CIPHER_def AES_ICM_def HMAC_SHA1_def

lemma profile_policies:
  "crypto_policy_set_from_profile_for_rtp p profile =
     (case profile_spec profile of Some cp \<Rightarrow> (err_status_ok, cp) | None \<Rightarrow> (err_status_bad_param, p))"
  "crypto_policy_set_from_profile_for_rtcp p profile =
     (case profile_spec profile of Some cp \<Rightarrow> (err_status_ok, cp) | None \<Rightarrow> (err_status_bad_param, p))"
  by (cases profile; cases p; simp add: policy_setters)+

lemma profile_lengths:
  assumes "profile_spec profile = Some cp"
  shows "policy_ok cp" and "serv_auth (cp_sec_serv cp)" and "cp_auth_tag_len cp = 10"
    and "srtp_profile_get_master_key_length profile + srtp_profile_get_master_salt_length profile = nat (master_key_len cp cp)"
  using assms
  by (cases profile; auto simp: policy_ok_def serv_auth_def master_key_len_def srtp_profile_get_master_key_length_def
      srtp_profile_get_master_salt_length_def NULL_CIPHER_def AES_ICM_def HMAC_SHA1_def NULL_AUTH_def)+

section \<open>A session of a profile\<close>

text \<open>The policy that the handshake fills in: \<open>base\<close> holds what is left to the application.\<close>

definition profile_session_policy :: "srtp_policy_t \<Rightarrow> srtp_profile_t \<Rightarrow> octets \<Rightarrow> srtp_policy_t" where
  "profile_session_policy base profile key =
     base\<lparr>p_rtp := snd (crypto_policy_set_from_profile_for_rtp (p_rtp base) profile),
       p_rtcp := snd (crypto_policy_set_from_profile_for_rtcp (p_rtcp base) profile), p_key := Some key\<rparr>"

lemma profile_channel_policy:
  assumes "profile_spec profile = Some cp" and "nat (master_key_len cp cp) + 2 \<le> length key"
    and "window_ok (p_window_size base)" and "p_allow_repeat_tx base = 0 \<or> p_allow_repeat_tx base = 1"
  shows "channel_policy (profile_session_policy base profile key)"
    and "su_tag_len (rtp_suite (profile_session_policy base profile key)) = 10"
proof -
  let ?p = "profile_session_policy base profile key"
  have sel: "p_rtp ?p = cp" "p_rtcp ?p = cp" "p_key ?p = Some key" "p_window_size ?p = p_window_size base" "p_allow_repeat_tx ?p = p_allow_repeat_tx base"
    using assms(1) by (simp_all add: profile_session_policy_def profile_policies)
  show "channel_policy ?p"
    using profile_lengths(1,2) [OF assms(1)] assms(2-4) by (simp add: channel_policy_def stream_policy_ok_def sel)
  then show "su_tag_len (rtp_suite ?p) = 10"
    using su_tag_len_suites(1) [of ?p] profile_lengths(3) [OF assms(1)] by (simp add: channel_policy_def sel)
qed

text \<open>The first packet of a session leaves it with the tag of the suite behind it.\<close>

lemma srtp_protect_first:
  assumes "session B su cu k (2 ^ 48 - 2) e ctx" and "stream_list ctx = []" and "rtp_well pkt" and "12 \<le> length room"
  obtains ctx' out e' where "srtp_protect ctx (pkt @ room) (int (length pkt)) e =
    Some (err_status_ok, ctx', out, int (length pkt) + int (su_tag_len su), e')"
proof -
  from assms(1) obtain t where t: "endpoint B su cu k (2 ^ 48 - 2) e t" by (auto simp: session_def)
  note D = endpointD [OF t]
  obtain s q where h: "hdr_ssrc pkt = Some s" "hdr_seq pkt = Some q" using assms(3) by (rule rtp_wellD)
  have ses: "session B su cu k (Suc 0) e ctx" using assms(1) by (rule session_mono) simp
  have db: "database k (stream_list ctx) s = (fresh_rdbx k, snd rdb_init)" using assms(2) by (simp add: database_def databases_def streams_simps)
  note chk = rdbx_check_fresh [OF D(3,4), of "bswap16 q"]
  have rel: "rdbx_rel 1 (fresh_rdbx k) {}" using D(3,4) by (intro rdbx_rel_fresh_rdbx) simp_all
  have "0 \<le> uint (bswap16 q)" "uint (bswap16 q) < 2 ^ 16" "0 < rdbx_len (fresh_rdbx k)"
    using D(3) uint_lt2p [of "bswap16 q"] by (simp_all add: rdbx_len_def fresh_rdbx_def)
  then have "- rdbx_len (fresh_rdbx k) < uint (bswap16 q)" "uint (bswap16 q) < 2 ^ 16" by linarith+
  with rdbx_add_index_spec [of 0 "fresh_rdbx k" "{}" "uint (bswap16 q)"] rel obtain r'
    where add: "rdbx_add_index (fresh_rdbx k) (uint (bswap16 q)) = Some (err_status_ok, r')" by auto
  obtain ctx' rest e' where "srtp_protect ctx (pkt @ room) (int (length pkt)) e =
      Some (if passes (su_repeat su) err_status_ok
        then (err_status_ok, ctx', srtp_packet su (ucast (bswap16 q)) pkt @ rest, int (length (srtp_packet su (ucast (bswap16 q)) pkt)), e')
        else (err_status_ok, ctx', pkt @ room, int (length pkt), e'))"
    by (rule srtp_protect_ok [OF ses assms(3) h assms(4) db rdbx_estimate_fresh chk]) (use add in simp_all)
  then show ?thesis using length_srtp_packet [OF D(2) assms(3)] by (intro that) (simp add: passes_def)
qed

text \<open>
  C31. Keying from a DTLS-SRTP profile: the two setters give SRTP and SRTCP the policy of the table above and refuse
  \<^verbatim>\<open>null_sha1_32\<close> and the reserved profile, leaving the policy as it was. For an accepted profile, a key and a salt of
  the lengths that the library tells, joined by \<^verbatim>\<open>append_salt_to_key\<close> in a buffer with two more octets behind them
  (the library reads 32 or 48), create a session, and the packets that leave it have a tag of ten octets. So do
  those of the two profiles that are documented with a 32-bit tag.
\<close>

theorem srtp_profile_session:
  assumes "env_ready e" and "window_ok (p_window_size base)" and "p_allow_repeat_tx base = 0 \<or> p_allow_repeat_tx base = 1"
    and "p_ssrc_type base = ssrc_any_outbound" and "length key = srtp_profile_get_master_key_length profile"
    and "length salt = srtp_profile_get_master_salt_length profile" and "length salt + 2 \<le> length room" and "rtp_well pkt"
  shows "case profile_spec profile of
      None \<Rightarrow> crypto_policy_set_from_profile_for_rtp p profile = (err_status_bad_param, p) \<and>
        crypto_policy_set_from_profile_for_rtcp p profile = (err_status_bad_param, p)
    | Some cp \<Rightarrow> crypto_policy_set_from_profile_for_rtp p profile = (err_status_ok, cp) \<and>
        crypto_policy_set_from_profile_for_rtcp p profile = (err_status_ok, cp) \<and>
        (\<exists>k ctx f ctx' out f'. append_salt_to_key (key @ room) (length key) salt (length salt) = Some k \<and>
           take (length key + length salt) k = key @ salt \<and>
           srtp_create [profile_session_policy base profile k] e = Some (err_status_ok, Some ctx, f) \<and>
           srtp_protect ctx (pkt @ replicate 12 0) (int (length pkt)) f = Some (err_status_ok, ctx', out, int (length pkt) + 10, f'))"
proof (cases "profile_spec profile")
  case (Some cp)
  let ?k = "key @ salt @ drop (length salt) room"
  have k: "append_salt_to_key (key @ room) (length key) salt (length salt) = Some ?k"
    using assms(7) by (simp add: append_salt_to_key_def store_def)
  have len: "nat (master_key_len cp cp) + 2 \<le> length ?k" using profile_lengths(4) [OF Some] assms(5-7) by simp
  let ?p = "profile_session_policy base profile ?k"
  note pol = profile_channel_policy [OF Some len assms(2,3)]
  have ty: "p_ssrc_type ?p = ssrc_any_outbound \<or> p_ssrc_type ?p = ssrc_any_inbound" using assms(4) by (simp add: profile_session_policy_def)
  obtain ctx f B where C: "srtp_create [?p] e = Some (err_status_ok, Some ctx, f)"
    "session B (rtp_suite ?p) (rtcp_suite ?p) (policy_window (p_window_size ?p)) (2 ^ 48 - 2) f ctx" "stream_list ctx = []"
    by (rule srtp_create_ok [OF assms(1) pol(1) ty])
  obtain ctx' out f' where P: "srtp_protect ctx (pkt @ replicate 12 0) (int (length pkt)) f =
      Some (err_status_ok, ctx', out, int (length pkt) + int (su_tag_len (rtp_suite ?p)), f')"
    by (rule srtp_protect_first [OF C(2,3) assms(8), where room = "replicate 12 0"]) simp_all
  have "take (length key + length salt) ?k = key @ salt" by simp
  then show ?thesis unfolding Some option.case profile_policies using k C(1) P [unfolded pol(2)] by (metis of_nat_numeral)
qed (simp add: profile_policies)

theorem srtp_profile_session_witness:
  "\<exists>k ctx f ctx' out f'. append_salt_to_key (replicate 16 3 @ replicate 16 0) 16 (replicate 14 4) 14 = Some k \<and>
     take 30 k = replicate 16 3 @ replicate 14 4 \<and>
     srtp_create [profile_session_policy sample_policy srtp_profile_aes128_cm_sha1_32 k] ready_env = Some (err_status_ok, Some ctx, f) \<and>
     srtp_protect ctx (sample_rtp @ replicate 12 0) 15 f = Some (err_status_ok, ctx', out, 25, f')"
proof -
  have p: "window_ok (p_window_size sample_policy)" "p_allow_repeat_tx sample_policy = 0 \<or> p_allow_repeat_tx sample_policy = 1"
    using sample_ok(1) by (simp_all add: channel_policy_def stream_policy_ok_def)
  have lens: "length (replicate 16 (3 :: u8)) = srtp_profile_get_master_key_length srtp_profile_aes128_cm_sha1_32"
    "length (replicate 14 (4 :: u8)) = srtp_profile_get_master_salt_length srtp_profile_aes128_cm_sha1_32"
    "length (replicate 14 (4 :: u8)) + 2 \<le> length (replicate 16 (0 :: u8))"
    by (simp_all add: srtp_profile_get_master_key_length_def srtp_profile_get_master_salt_length_def)
  have l: "length sample_rtp = 15" by (simp add: sample_rtp_def)
  from srtp_profile_session [OF env_ready_ready_env p sample_ok(2) lens sample_ok(4)] l show ?thesis
    by (simp add: exI del: take_replicate)
qed

end
