(* ===== verification/Srtp_Forgery.thy ===== *)
theory Srtp_Forgery
  imports Srtp_Replay
begin

text \<open>
  What a receiver does with packets that nobody with the key made: they are refused, and the session is as if
  they had not arrived.
\<close>

section \<open>RTP\<close>

lemma unprotect_refuses:
  assumes e: "endpoint B su cu k n e t" and str: "clone_of t str" and auth: "serv_auth (su_services su)"
    and pkt: "12 \<le> length c + su_tag_len su" "length c \<le> 65535" "length tag = su_tag_len su" "rtp_enc_start (c @ tag @ room) \<noteq> None"
    and wrong: "tag \<noteq> rtp_tag su est c"
  obtains e' where "unprotect_stream str est (c @ tag @ room) (int (length c) + int (su_tag_len su)) e =
      Some (err_status_auth_fail, str, c @ tag @ room, int (su_tag_len su), e')"
    and "endpoint B su cu k n e' t"
proof -
  note D = endpointD [OF e]
  have same: "rtp_cipher str = rtp_cipher t" "rtp_auth str = rtp_auth t" "rtp_services str = su_services su"
    using str D(7) by (simp_all add: clone_of_def)
  have keyed: "suite_keyed e (rtp_cipher str) (rtp_auth str) su" using D(5) same by simp
  obtain co a where u: "unprotect_stream str est (c @ tag @ room) (int (length c) + int (su_tag_len su)) e =
      Some (err_status_auth_fail, str, c @ tag @ room, int (su_tag_len su), put_objects (rtp_cipher str) co (rtp_auth str) a e)"
    "suite_keyed (put_objects (rtp_cipher str) co (rtp_auth str) a e) (rtp_cipher str) (rtp_auth str) su"
    by (rule unprotect_stream_reject [OF keyed same(3) auth pkt(1-3) D(14,13) pkt(4) wrong])
  have "endpoint B su cu k n (put_objects (rtp_cipher str) co (rtp_auth str) a e) t" using endpoint_rtp_step [OF e] u(2) same by simp
  with u(1) show ?thesis by (rule that)
qed

text \<open>
  C3. A packet is accepted only with the authentication code of its own octets: a receiving session with
  authentication, given any packet with header and extension inside its memory, answers with the status of the
  replay check when that fails and repeated transmission is not allowed, and otherwise with \<^verbatim>\<open>auth_fail\<close> unless the last octets are the code of the
  octets in front of them and of the rollover counter that the replay database of the source implies. In both cases
  the session and the packet are unchanged, the replay databases included.
\<close>

theorem srtp_unprotect_forgery:
  assumes "session B su cu k n e ctx" and "serv_auth (su_services su)"
    and "12 \<le> len" and "len \<le> length pkt" and "len \<le> 65535" and "rtp_enc_start pkt \<noteq> None"
    and "hdr_ssrc pkt = Some s" and "hdr_seq pkt = Some q"
    and "rdbx_estimate_index (fst (database k (stream_list ctx) s)) (bswap16 q) = (delta, est)"
    and "rdbx_check (fst (database k (stream_list ctx) s)) delta = Some st"
    and "st = err_status_ok \<or> su_repeat su \<noteq> 0 \<longrightarrow> take (su_tag_len su) (drop (len - su_tag_len su) pkt) \<noteq>
      auth_kind_mac (su_kind su) (su_auth_key su) (take (len - su_tag_len su) pkt @ rtp_roc est)"
  shows "\<exists>e'. srtp_unprotect ctx pkt (int len) e =
      Some (if st = err_status_ok \<or> su_repeat su \<noteq> 0 then err_status_auth_fail else st, ctx, pkt, int len, e') \<and> session B su cu k n e' ctx"
proof -
  from assms(1) obtain t where t: "stream_template ctx = Some t" "endpoint B su cu k n e t" "\<forall>x\<in>set (stream_list ctx). clone_of t x"
    by (auto simp: session_def)
  note D = endpointD [OF t(2)]
  let ?n = "su_tag_len su"
  define c tag room where "c = take (len - ?n) pkt" and "tag = take ?n (drop (len - ?n) pkt)" and "room = drop ?n (drop (len - ?n) pkt)"
  have pkt: "pkt = c @ tag @ room" unfolding c_def tag_def room_def append_take_drop_id ..
  have lens: "length c = len - ?n" "length tag = ?n" "?n \<le> len" using assms(3,4) D(14) by (simp_all add: c_def tag_def)
  have len: "int len = int (length c) + int ?n" using lens by (simp add: of_nat_diff)
  have pre: "12 \<le> length c + ?n" "length c \<le> 65535" "rtp_enc_start (c @ tag @ room) \<noteq> None" using assms(3-6) lens pkt by simp_all
  have h: "\<not> int len < octets_in_rtp_header" using assms(3) by (simp add: octets_in_rtp_header_def)
  have wrong: "tag \<noteq> rtp_tag su est c" if "st = err_status_ok \<or> su_repeat su \<noteq> 0"
    using assms(2,11) that by (simp add: rtp_tag_def c_def tag_def)
  show ?thesis
  proof (cases "find_stream (stream_list ctx) s")
    case (Some i)
    let ?str = "stream_list ctx ! i"
    have str: "rtp_rdbx ?str = fst (database k (stream_list ctx) s)" "clone_of t ?str" "allow_repeat_tx ?str = su_repeat su"
      using databases_nth [OF Some] t(3) find_stream_Some [OF Some] D(9) by (auto simp: database_def clone_of_def)
    have run: "srtp_unprotect ctx pkt (int len) e = unprotect_known ctx i pkt (int len) e"
      using Some h assms(7) by (simp add: srtp_unprotect_def srtp_get_stream_def)
    show ?thesis
    proof (cases "st = err_status_ok \<or> su_repeat su \<noteq> 0")
      case True
      obtain e' where u: "unprotect_stream ?str est (c @ tag @ room) (int (length c) + int ?n) e =
          Some (err_status_auth_fail, ?str, c @ tag @ room, int ?n, e')" "endpoint B su cu k n e' t"
        by (rule unprotect_refuses [OF t(2) str(2) assms(2) pre(1,2) lens(2) pre(3) wrong [OF True]])
      have "unprotect_known ctx i pkt (int len) e = Some (err_status_auth_fail, ctx, pkt, int len, e')"
        using assms(8-10) str True u(1) [folded pkt len] by (auto simp: unprotect_known_def)
      with run True t u(2) show ?thesis by (auto simp: session_def)
    next
      case False
      have "unprotect_known ctx i pkt (int len) e = Some (st, ctx, pkt, int len, e)"
        using assms(8-10) str False by (simp add: unprotect_known_def)
      with run False assms(1) show ?thesis by auto
    qed
  next
    case None
    then have db: "fst (database k (stream_list ctx) s) = fresh_rdbx k" by (auto simp: database_def databases_def streams_def)
    have est: "est = ucast (bswap16 q)" "delta = uint (bswap16 q)" using assms(9) unfolding db rdbx_estimate_fresh by simp_all
    have True: "st = err_status_ok" using assms(10) unfolding db est(2) rdbx_check_fresh [OF D(3,4)] by simp
    have self: "clone_of t t" by (simp add: clone_of_def)
    obtain e' where u: "unprotect_stream t est (c @ tag @ room) (int (length c) + int ?n) e =
        Some (err_status_auth_fail, t, c @ tag @ room, int ?n, e')" "endpoint B su cu k n e' t"
      by (rule unprotect_refuses [OF t(2) self assms(2) pre(1,2) lens(2) pre(3) wrong [OF disjI1 [OF True]]])
    have "srtp_unprotect ctx pkt (int len) e = Some (err_status_auth_fail, ctx, pkt, int len, e')"
      using None h assms(7,8) t(1) u(1) [folded pkt len] est by (simp add: srtp_unprotect_def srtp_get_stream_def unprotect_new_def)
    with True t u(2) show ?thesis by (auto simp: session_def)
  qed
qed

theorem srtp_unprotect_forgery_witness:
  "\<exists>ctx f tag e'. srtp_create [sample_policy\<lparr>p_ssrc_type := ssrc_any_inbound\<rparr>] ready_env = Some (err_status_ok, Some ctx, f) \<and>
     tag \<in> {replicate 10 0, replicate 10 1} \<and> srtp_unprotect ctx (sample_rtp @ tag) 25 f = Some (err_status_auth_fail, ctx, sample_rtp @ tag, 25, e')"
proof (rule sample_receiver)
  fix ctx f B
  let ?p = "sample_policy\<lparr>p_ssrc_type := ssrc_any_inbound\<rparr>"
  assume S: "srtp_create [?p] ready_env = Some (err_status_ok, Some ctx, f)"
    "session B (rtp_suite ?p) (rtcp_suite ?p) 4 (2 ^ 48 - 2) f ctx" "stream_list ctx = []"
  let ?mac = "auth_kind_mac (su_kind (rtp_suite ?p)) (su_auth_key (rtp_suite ?p)) (sample_rtp @ rtp_roc 1)"
  define tag where "tag = (if ?mac = replicate 10 0 then replicate 10 1 else replicate 10 (0 :: u8))"
  have tl: "length tag = 10" "su_tag_len (rtp_suite ?p) = 10" "serv_auth (su_services (rtp_suite ?p))" "length sample_rtp = 15"
    "tag \<in> {replicate 10 0, replicate 10 1}"
    by (simp_all add: tag_def sample_suites sample_rtp_def)
  have "rtp_enc_start sample_rtp = Some 12" by code_simp
  then have st: "rtp_enc_start (sample_rtp @ tag) = Some 12" by (rule rtp_enc_start_agree) (simp add: tl)
  have "hdr_ssrc sample_rtp = Some 0x07000000" "hdr_seq sample_rtp = Some 0x0100" by code_simp+
  then have h: "hdr_ssrc (sample_rtp @ tag) = Some 0x07000000" "hdr_seq (sample_rtp @ tag) = Some 0x0100"
    using tl(4) by (simp_all add: hdr_ssrc_def hdr_seq_def)
  have db: "fst (database 4 (stream_list ctx) 0x07000000) = fresh_rdbx 4" by (simp add: S(3) database_def databases_def streams_simps)
  have est: "rdbx_estimate_index (fresh_rdbx 4) (bswap16 0x0100) = (1, 1)" by code_simp
  have chk: "rdbx_check (fresh_rdbx 4) 1 = Some err_status_ok" by (simp add: rdbx_check_def)
  have wrong: "tag \<noteq> ?mac" by (auto simp: tag_def)
  have "\<exists>e'. srtp_unprotect ctx (sample_rtp @ tag) (int 25) f =
      Some (if err_status_ok = err_status_ok \<or> su_repeat (rtp_suite ?p) \<noteq> 0 then err_status_auth_fail else err_status_ok, ctx, sample_rtp @ tag, int 25, e') \<and>
      session B (rtp_suite ?p) (rtcp_suite ?p) 4 (2 ^ 48 - 2) e' ctx"
    by (rule srtp_unprotect_forgery [OF S(2) tl(3) _ _ _ _ h]) (use st db est chk wrong tl in simp_all)
  then show ?thesis using S(1) tl(5) by auto
qed

text \<open>
  C32. Authentication tags of 13 to 20 octets, which \<^verbatim>\<open>hmac_alloc\<close> accepts, do not fit \<^verbatim>\<open>tmp_tag\<close>: the
  receiver with a keyed authentication function of such a tag length writes behind its array of
  \<^verbatim>\<open>SRTP_MAX_TAG_LEN\<close> octets for every packet, genuine or not.
\<close>

theorem srtp_unprotect_long_tag:
  assumes "suite_keyed e (rtp_cipher str) (rtp_auth str) su" and "rtp_services str = su_services su" and "serv_auth (su_services su)"
    and "su_kind su = kind_hmac n" and "12 < n" and "n \<le> 20" and "length (stack_tag e) = 12"
    and "n \<le> len" and "len \<le> length pkt"
  shows "fst (auth_type_alloc hmac (Some s) refs 20 (int n)) = err_status_ok \<and> unprotect_stream str est pkt (int len) e = None"
proof -
  let ?ck = "su_cipher su"
  from assms(1) obtain co q a r where obj: "cipher_heap e (rtp_cipher str) = Some co" "cipher_rep co ?ck q"
    "auth_heap e (rtp_auth str) = Some a" "auth_rep a (su_kind su) (su_auth_key su) r" by (rule suite_keyedE)
  have tl: "auth_get_tag_length a = int n" using auth_rep_lengths(1) [OF obj(4)] assms(4,6) by simp
  have tag: "unprotect_tag str (rtp_roc est) pkt (int len) (int n) f = None"
    if "auth_heap f (rtp_auth str) = Some a" "length (stack_tag f) = 12" for f
  proof -
    obtain a1 where 1: "auth_start a = (err_status_ok, a1)" "auth_rep a1 (kind_hmac n) (su_auth_key su) (Some [])"
      using auth.start_rep [OF obj(4)] assms(4) by (cases "auth_start a") auto
    obtain a2 where 2: "auth_update a1 (take (len - n) pkt) = (err_status_ok, a2)" "auth_rep a2 (kind_hmac n) (su_auth_key su) (Some (take (len - n) pkt))"
      using auth.update_rep [OF 1(2), of "take (len - n) pkt"] by (cases "auth_update a1 (take (len - n) pkt)") auto
    have "auth_compute a2 (rtp_roc est) (take SRTP_MAX_TAG_LEN (stack_tag f)) = None"
      using 2(2) that(2) assms(5,6) by (auto simp: auth_compute_def hmac_compute_def SRTP_MAX_TAG_LEN_def)
    moreover have "mem_slice pkt 0 (nat (int len - int n)) = Some (take (len - n) pkt)"
      using assms(8,9) by (simp add: mem_slice_def nat_diff_distrib)
    ultimately show ?thesis
      using that 1(1) 2(1) auth_rep_lengths(3) [OF obj(4)]
      by (simp add: unprotect_tag_def heap_auth_start_def heap_auth_update_def heap_auth_compute_def)
  qed
  have "unprotect_stream str est pkt (int len) e = None"
  proof (cases "hdr_ssrc pkt")
    case (Some x)
    obtain c1 where "heap_set_iv (rtp_cipher str) (rtp_iv x est) e = Some (err_status_ok, e\<lparr>cipher_heap := (cipher_heap e)(rtp_cipher str \<mapsto> c1)\<rparr>)"
      by (rule heap_set_iv_keyed [where iv = "rtp_iv x est", OF obj(1,2) rtp_iv_ok])
    with Some obj(3) tl assms(2,3,7) tag show ?thesis
      by (cases "rtp_enc_start pkt") (auto simp: unprotect_stream_def)
  qed (use obj(3) in \<open>simp add: unprotect_stream_def\<close>)
  then show ?thesis using assms(6) by (simp add: auth_type_alloc_def hmac_alloc_def)
qed

theorem srtp_unprotect_long_tag_witness:
  "\<exists>str e su. suite_keyed e (rtp_cipher str) (rtp_auth str) su \<and> rtp_services str = su_services su \<and> serv_auth (su_services su) \<and>
     su_kind su = kind_hmac 20 \<and> su_auth_key su = replicate 20 0 \<and> length (stack_tag e) = 12 \<and>
     fst (auth_type_alloc hmac (Some blank_hmac) (\<lambda>_. 0) 20 20) = err_status_ok \<and> unprotect_stream str 0 (replicate 40 0) 40 e = None"
proof -
  have al: "auth_type_alloc hmac (Some blank_hmac) (\<lambda>_. 0) 20 (int 20) =
      (err_status_ok, Some (the (fst (snd (auth_type_alloc hmac (Some blank_hmac) (\<lambda>_. 0) 20 (int 20))))), (\<lambda>_. 0)(hmac := 1))"
    by (simp add: auth_type_alloc_def hmac_alloc_def)
  define a where "a = the (fst (snd (auth_type_alloc hmac (Some blank_hmac) (\<lambda>_. 0) 20 (int 20))))"
  have ak: "auth_key_len a = 20" by (simp add: a_def auth_type_alloc_def hmac_alloc_def)
  have st: "\<And>s. Some blank_hmac = Some s \<Longrightarrow> hmac_storage s" by (simp add: hmac_storage_def blank_hmac_def Let_def)
  obtain a' where a': "auth_rep a' (kind_hmac 20) (replicate 20 0) None"
  proof (rule auth_init_rep [OF al [folded a_def] st, of "replicate 20 0"])
    fix a'
    assume "auth_rep a' (case hmac of null_auth \<Rightarrow> kind_null | hmac \<Rightarrow> kind_hmac 20) (take (nat 20) (replicate 20 0)) None"
    then show thesis by (intro that [of a']) (simp del: auth_rep.simps)
  qed simp_all
  define su where "su = \<lparr>su_services = sec_serv_auth, su_cipher = ck_null, su_kind = kind_hmac 20, su_auth_key = replicate 20 0, su_repeat = 0\<rparr>"
  define e where "e = ready_env\<lparr>cipher_heap := [0 \<mapsto> \<lparr>cipher_state = null_cipher_state, cipher_key_len = 0\<rparr>], auth_heap := [0 \<mapsto> a']\<rparr>"
  define str where "str = (the (stream_mem ready_env 0))\<lparr>rtp_cipher := 0, rtp_auth := 0, rtp_services := sec_serv_auth\<rparr>"
  have keyed: "suite_keyed e (rtp_cipher str) (rtp_auth str) su"
    using a' by (auto simp: suite_keyed_def unit_keyed_def e_def str_def su_def simp del: auth_rep.simps)
  have facts: "rtp_services str = su_services su" "serv_auth (su_services su)" "su_kind su = kind_hmac 20" "length (stack_tag e) = 12"
    "su_auth_key su = replicate 20 0"
    by (simp_all add: str_def su_def e_def serv_auth_def ready_env_def)
  have "fst (auth_type_alloc hmac (Some blank_hmac) (\<lambda>_. 0) 20 20) = err_status_ok \<and> unprotect_stream str 0 (replicate 40 0) 40 e = None"
    using srtp_unprotect_long_tag [OF keyed facts(1,2,3) _ _ facts(4), of 40 "replicate 40 0" blank_hmac "\<lambda>_. 0" 0] by simp
  then show ?thesis using keyed facts by blast
qed

section \<open>RTCP\<close>

lemma le32_bytes_surj: "length tr = 4 \<Longrightarrow> \<exists>w. tr = le32_bytes (bswap32 w)"
proof -
  assume "length tr = 4"
  then obtain a b c d where "tr = [a, b, c, d]" by (auto simp: numeral_eq_Suc length_Suc_conv)
  then have "tr = le32_bytes (bswap32 (bswap32 (le32 a b c d)))" by (simp del: le32_bytes_bswap32)
  then show ?thesis by blast
qed

text \<open>
  C33. An SRTCP packet shorter than tag and trailer makes the receiver read in front of the packet:
  \<^verbatim>\<open>srtp_unprotect_rtcp\<close> does not look at the length, and the trailer it reads before any check lies at a negative
  offset.
\<close>

theorem srtp_unprotect_rtcp_short:
  assumes "session B su cu k n e ctx" and "rtcp_ssrc pkt = Some s" and "len < su_tag_len cu + 4"
  shows "srtp_unprotect_rtcp ctx pkt (int len) e = None"
proof -
  from assms(1) obtain t where t: "stream_template ctx = Some t" "endpoint B su cu k n e t" "\<forall>x\<in>set (stream_list ctx). clone_of t x"
    by (auto simp: session_def)
  have none: "unprotect_rtcp_stream x pkt (int len) e = None" if "clone_of t x" for x
  proof -
    have "suite_keyed e (rtcp_cipher x) (rtcp_auth x) cu" using endpointD(6) [OF t(2)] that by (simp add: clone_of_def)
    then obtain a q where a: "auth_heap e (rtcp_auth x) = Some a" "auth_rep a (su_kind cu) (su_auth_key cu) q" by (rule suite_keyedE)
    have "load8 pkt (int len - (int (su_tag_len cu) + trailer_octets)) = None" using assms(3) by (simp add: load8_def trailer_octets_def)
    then show ?thesis using a(1) auth_rep_lengths(1) [OF a(2)] by (simp add: unprotect_rtcp_stream_def Let_def)
  qed
  have self: "clone_of t t" "ekt t = None" using endpointD(10) [OF t(2)] by (simp_all add: clone_of_def)
  show ?thesis
  proof (cases "find_stream (stream_list ctx) s")
    case (Some i)
    then have "clone_of t (stream_list ctx ! i)" using t(3) find_stream_Some by auto
    from none [OF this] Some assms(2) show ?thesis by (simp add: srtp_unprotect_rtcp_def srtp_get_stream_def unprotect_rtcp_known_def)
  next
    case None
    with none [OF self(1)] self(2) t(1) assms(2) show ?thesis
      by (simp add: srtp_unprotect_rtcp_def srtp_get_stream_def unprotect_rtcp_new_def)
  qed
qed

theorem srtp_unprotect_rtcp_short_witness:
  "\<exists>ctx f. srtp_create [sample_policy\<lparr>p_ssrc_type := ssrc_any_inbound\<rparr>] ready_env = Some (err_status_ok, Some ctx, f) \<and>
     srtp_unprotect_rtcp ctx sample_rtcp 8 f = None"
proof (rule sample_receiver)
  fix ctx f B
  assume S: "srtp_create [sample_policy\<lparr>p_ssrc_type := ssrc_any_inbound\<rparr>] ready_env = Some (err_status_ok, Some ctx, f)"
    "session B (rtp_suite (sample_policy\<lparr>p_ssrc_type := ssrc_any_inbound\<rparr>)) (rtcp_suite (sample_policy\<lparr>p_ssrc_type := ssrc_any_inbound\<rparr>))
      4 (2 ^ 48 - 2) f ctx"
  have "rtcp_ssrc sample_rtcp = Some 0x07000000" by code_simp
  from srtp_unprotect_rtcp_short [OF S(2) this, of 8] S(1) show ?thesis by (simp add: sample_suites)
qed

lemma unprotect_rtcp_refuses:
  assumes e: "endpoint B su cu k n e t" and str: "clone_of t str"
    and len: "12 + su_tag_len cu \<le> len" "len \<le> length pkt" "len \<le> 65535"
    and w: "load32 pkt (int (len - su_tag_len cu - 4)) = Some w"
    and st: "rdb_check (rtcp_rdb str) (bswap32 w AND SRTCP_INDEX_MASK) = Some st"
    and wrong: "st = err_status_ok \<or> su_repeat su \<noteq> 0 \<Longrightarrow> take (su_tag_len cu) (drop (len - su_tag_len cu) pkt) \<noteq> rtcp_mac cu (take (len - su_tag_len cu) pkt)"
  obtains idx e' where "unprotect_rtcp_stream str pkt (int len) e =
      Some (if st = err_status_ok \<or> su_repeat su \<noteq> 0 then err_status_auth_fail else st, idx, pkt, int len, e')"
    and "endpoint B su cu k n e' t"
proof -
  note D = endpointD [OF e]
  let ?n = "su_tag_len cu"
  define c tr tag room where "c = take (len - ?n - 4) pkt" and "tr = take 4 (drop (len - ?n - 4) pkt)"
    and "tag = take ?n (drop (len - ?n) pkt)" and "room = drop len pkt"
  have four: "len - ?n - 4 + 4 = len - ?n" "len - ?n + ?n = len" using len(1) by simp_all
  have front: "c @ tr = take (len - ?n) pkt" using four(1) by (metis c_def tr_def take_add)
  have behind: "tag @ room = drop (len - ?n) pkt" using four(2) by (metis tag_def room_def append_take_drop_id drop_drop add.commute)
  have pkt: "pkt = c @ tr @ tag @ room" using append_take_drop_id [of "len - ?n" pkt] front behind by (simp flip: append_assoc)
  have lens: "length c = len - ?n - 4" "length tr = 4" "length tag = ?n" using len by (simp_all add: c_def tr_def tag_def)
  obtain w' where w': "tr = le32_bytes (bswap32 w')" using le32_bytes_surj [OF lens(2)] ..
  have "load32 pkt (int (length c)) = Some (bswap32 w')" unfolding pkt w' by (rule load32_bytes) simp_all
  with w lens(1) have ww: "bswap32 w = w'" by simp
  have il: "int len = int (length c) + 4 + int ?n" using len(1) lens(1) by linarith
  have same: "rtcp_cipher str = rtcp_cipher t" "rtcp_auth str = rtcp_auth t" "ekt str = None" "allow_repeat_tx str = su_repeat su"
    using str D(9,10) by (simp_all add: clone_of_def)
  have keyed: "suite_keyed e (rtcp_cipher str) (rtcp_auth str) cu" using D(6) same by simp
  show ?thesis
  proof (cases "st = err_status_ok \<or> su_repeat su \<noteq> 0")
    case True
    have cw: "rtcp_well c" using lens(1) len unfolding rtcp_well_def by linarith
    have bad: "tag \<noteq> rtcp_mac cu (c @ le32_bytes (bswap32 w'))" using wrong [OF True] unfolding w' [symmetric] front tag_def .
    have fresh: "rdb_check (rtcp_rdb str) (w' AND SRTCP_INDEX_MASK) = Some st" "st = err_status_ok \<or> allow_repeat_tx str \<noteq> 0"
      using st True ww same(4) by simp_all
    obtain co a where u: "unprotect_rtcp_stream str pkt (int len) e =
        Some (err_status_auth_fail, w' AND SRTCP_INDEX_MASK, pkt, int len, put_objects (rtcp_cipher str) co (rtcp_auth str) a e)"
      and k': "suite_keyed (put_objects (rtcp_cipher str) co (rtcp_auth str) a e) (rtcp_cipher str) (rtcp_auth str) cu"
      unfolding il pkt w'
      by (rule unprotect_rtcp_stream_keyed [OF keyed same(3) cw D(15,13) lens(3) _ fresh(1,2), where room = room])
        (use bad in \<open>simp_all add: Let_def del: le32_bytes_bswap32\<close>)
    have "endpoint B su cu k n (put_objects (rtcp_cipher str) co (rtcp_auth str) a e) t" using endpoint_rtcp_step [OF e] k' same by simp
    with u True show ?thesis by (intro that) simp_all
  next
    case False
    from keyed obtain a q where a: "auth_heap e (rtcp_auth str) = Some a" "auth_rep a (su_kind cu) (su_auth_key cu) q" by (rule suite_keyedE)
    have tl: "int len - (int ?n + trailer_octets) = int (len - ?n - 4)" using len(1) by (simp add: trailer_octets_def of_nat_diff)
    have b: "\<exists>b. load8 pkt (int (len - ?n - 4)) = Some b" using len by (simp add: load8_def)
    have find: "\<exists>x. rtcp_find_tag str pkt (int len) (int ?n) = Some (x, pkt, int len - int ?n)"
      using same(3) len by (simp add: rtcp_find_tag_def mem_from_def Let_def)
    have "unprotect_rtcp_stream str pkt (int len) e = Some (st, bswap32 w AND SRTCP_INDEX_MASK, pkt, int len, e)"
      using find a(1) auth_rep_lengths(1) [OF a(2)] b w st False same(4) by (auto simp: unprotect_rtcp_stream_def Let_def tl)
    with e False show ?thesis by (intro that) simp_all
  qed
qed

text \<open>
  C7. An SRTCP packet is accepted only with the authentication code of its own octets, trailer included: a
  receiving session, given any packet that has room for header, trailer and tag, answers with the status of the
  replay check when that fails and repeated transmission is not allowed, and otherwise with \<^verbatim>\<open>auth_fail\<close> unless the last octets are the code of the octets in front of them, whatever the
  encryption flag says. Session, replay database and packet are then unchanged.
\<close>

theorem srtp_unprotect_rtcp_forgery:
  assumes "session B su cu k n e ctx" and "12 + su_tag_len cu \<le> len" and "len \<le> length pkt" and "len \<le> 65535"
    and "rtcp_ssrc pkt = Some s" and "load32 pkt (int (len - su_tag_len cu - 4)) = Some w"
    and "rdb_check (snd (database k (stream_list ctx) s)) (bswap32 w AND SRTCP_INDEX_MASK) = Some st"
    and "st = err_status_ok \<or> su_repeat su \<noteq> 0 \<longrightarrow> take (su_tag_len cu) (drop (len - su_tag_len cu) pkt) \<noteq>
      auth_kind_mac (su_kind cu) (su_auth_key cu) (take (len - su_tag_len cu) pkt)"
  shows "\<exists>e'. srtp_unprotect_rtcp ctx pkt (int len) e =
      Some (if st = err_status_ok \<or> su_repeat su \<noteq> 0 then err_status_auth_fail else st, ctx, pkt, int len, e') \<and> session B su cu k n e' ctx"
proof -
  from assms(1) obtain t where t: "stream_template ctx = Some t" "endpoint B su cu k n e t" "\<forall>x\<in>set (stream_list ctx). clone_of t x"
    by (auto simp: session_def)
  let ?st = "if st = err_status_ok \<or> su_repeat su \<noteq> 0 then err_status_auth_fail else st"
  have st: "?st \<noteq> err_status_ok" by simp
  have wrong: "take (su_tag_len cu) (drop (len - su_tag_len cu) pkt) \<noteq> rtcp_mac cu (take (len - su_tag_len cu) pkt)" if "st = err_status_ok \<or> su_repeat su \<noteq> 0"
    using assms(8) that by (simp add: rtcp_mac_def)
  show ?thesis
  proof (cases "find_stream (stream_list ctx) s")
    case (Some i)
    let ?str = "stream_list ctx ! i"
    have str: "rtcp_rdb ?str = snd (database k (stream_list ctx) s)" "clone_of t ?str"
      using databases_nth [OF Some] t(3) find_stream_Some [OF Some] by (auto simp: database_def)
    obtain idx e' where u: "unprotect_rtcp_stream ?str pkt (int len) e = Some (?st, idx, pkt, int len, e')" "endpoint B su cu k n e' t"
      by (rule unprotect_rtcp_refuses [OF t(2) str(2) assms(2-4,6) assms(7) [folded str(1)] wrong])
    have "srtp_unprotect_rtcp ctx pkt (int len) e = Some (?st, ctx, pkt, int len, e')"
      using Some assms(5) u(1) st by (simp add: srtp_unprotect_rtcp_def srtp_get_stream_def unprotect_rtcp_known_def del: if_split split del: if_split)
    with t u(2) show ?thesis by (auto simp: session_def)
  next
    case None
    then have db: "snd (database k (stream_list ctx) s) = rtcp_rdb t"
      using endpointD(12) [OF t(2)] by (simp add: database_def databases_def streams_def)
    have self: "clone_of t t" "ekt t = None" using endpointD(10) [OF t(2)] by (simp_all add: clone_of_def)
    obtain idx e' where u: "unprotect_rtcp_stream t pkt (int len) e = Some (?st, idx, pkt, int len, e')" "endpoint B su cu k n e' t"
      by (rule unprotect_rtcp_refuses [OF t(2) self(1) assms(2-4,6) assms(7) [unfolded db] wrong])
    have "srtp_unprotect_rtcp ctx pkt (int len) e = Some (?st, ctx, pkt, int len, e')"
      using None assms(5) t(1) self(2) u(1) st
      by (simp add: srtp_unprotect_rtcp_def srtp_get_stream_def unprotect_rtcp_new_def split del: if_split)
    with t u(2) show ?thesis by (auto simp: session_def)
  qed
qed

theorem srtp_unprotect_rtcp_forgery_witness:
  "\<exists>ctx f tag e'. srtp_create [sample_policy\<lparr>p_ssrc_type := ssrc_any_inbound\<rparr>] ready_env = Some (err_status_ok, Some ctx, f) \<and>
     tag \<in> {replicate 10 0, replicate 10 1} \<and>
     srtp_unprotect_rtcp ctx (sample_rtcp @ [0x80, 0, 0, 1] @ tag) (int (length sample_rtcp) + 14) f =
       Some (err_status_auth_fail, ctx, sample_rtcp @ [0x80, 0, 0, 1] @ tag, int (length sample_rtcp) + 14, e')"
proof (rule sample_receiver)
  fix ctx f B
  let ?p = "sample_policy\<lparr>p_ssrc_type := ssrc_any_inbound\<rparr>"
  let ?m = "sample_rtcp @ [0x80, 0, 0, 1]"
  assume S: "srtp_create [?p] ready_env = Some (err_status_ok, Some ctx, f)"
    "session B (rtp_suite ?p) (rtcp_suite ?p) 4 (2 ^ 48 - 2) f ctx" "stream_list ctx = []"
  let ?mac = "auth_kind_mac (su_kind (rtcp_suite ?p)) (su_auth_key (rtcp_suite ?p)) ?m"
  define tag where "tag = (if ?mac = replicate 10 0 then replicate 10 1 else replicate 10 (0 :: u8))"
  have tl: "length tag = 10" "tag \<in> {replicate 10 0, replicate 10 1}" "tag \<noteq> ?mac" by (auto simp: tag_def)
  define k where "k = length sample_rtcp"
  have k: "8 \<le> k" "k \<le> 100" by (simp_all add: k_def sample_rtcp_def)
  have "rtcp_ssrc sample_rtcp = Some 0x07000000" by code_simp
  then have h: "rtcp_ssrc (?m @ tag) = Some 0x07000000" using k by (simp add: rtcp_ssrc_def k_def)
  have ld: "load32 (?m @ tag) (int (k + 14 - 10 - 4)) = Some 0x01000080"
    by (simp add: k_def sample_rtcp_def load32_def load8_def le32_def)
  have db: "snd (database 4 (stream_list ctx) 0x07000000) = snd rdb_init" by (simp add: S(3) database_def databases_def streams_simps)
  have chk: "rdb_check (snd rdb_init) (bswap32 0x01000080 AND SRTCP_INDEX_MASK) = Some err_status_ok" by code_simp
  have "\<exists>e'. srtp_unprotect_rtcp ctx (?m @ tag) (int (k + 14)) f =
      Some (if err_status_ok = err_status_ok \<or> su_repeat (rtp_suite ?p) \<noteq> 0 then err_status_auth_fail else err_status_ok, ctx, ?m @ tag, int (k + 14), e') \<and>
      session B (rtp_suite ?p) (rtcp_suite ?p) 4 (2 ^ 48 - 2) e' ctx"
    by (rule srtp_unprotect_rtcp_forgery [OF S(2) _ _ _ h]) (use ld db chk tl k in \<open>simp_all add: sample_suites k_def [symmetric]\<close>)
  then show ?thesis using S(1) tl(2) by (auto simp: k_def)
qed

end
