(* ===== verification/Gbase64.thy ===== *)
theory Gbase64
  imports Packet_Memory
begin

text \<open>
  Base64 as GLib has it (\<^verbatim>\<open>glib/glib/gbase64.c\<close>): the incremental encoder and decoder, the one-shot
  functions on top of them and the decoder that overwrites its input. The SRTP channel of the client decodes its
  master keys with it.

  Text is a list of octets. The \<^verbatim>\<open>gint\<close> that an encoder keeps between two steps is used as four octets and
  modelled so: the number of saved octets and the octets themselves. The one-shot functions are \<open>None\<close> where the
  output would leave the block they allocate, and where \<^verbatim>\<open>g_error\<close> ends the program.
\<close>

section \<open>Encoding\<close>

definition base64_alphabet :: octets where
  "base64_alphabet =
  [65, 66, 67, 68, 69, 70, 71, 72, 73, 74, 75, 76, 77, 78, 79, 80,
   81, 82, 83, 84, 85, 86, 87, 88, 89, 90, 97, 98, 99, 100, 101, 102,
   103, 104, 105, 106, 107, 108, 109, 110, 111, 112, 113, 114, 115, 116, 117, 118,
   119, 120, 121, 122, 48, 49, 50, 51, 52, 53, 54, 55, 56, 57, 43, 47]"

text \<open>One round of the loop: three octets give four characters.\<close>

definition encode_group :: "u8 \<Rightarrow> u8 \<Rightarrow> u8 \<Rightarrow> octets" where
  "encode_group c1 c2 c3 =
     [base64_alphabet ! unat (drop_bit 2 c1),
      base64_alphabet ! unat (drop_bit 4 c2 OR push_bit 4 (c1 AND 3)),
      base64_alphabet ! unat (push_bit 2 (c2 AND 0x0f) OR drop_bit 6 c3),
      base64_alphabet ! unat (c3 AND 0x3f)]"

fun encode_loop :: "bool \<Rightarrow> octets \<Rightarrow> int \<Rightarrow> octets \<times> int \<times> octets" where
  "encode_loop break_lines (c1 # c2 # c3 # xs) already =
     (let nl = break_lines \<and> already + 1 \<ge> 19;
          (out, a, rest) = encode_loop break_lines xs (if nl then 0 else if break_lines then already + 1 else already)
      in (encode_group c1 c2 c3 @ (if nl then [10] else []) @ out, a, rest))"
| "encode_loop break_lines xs already = ([], already, xs)"

text \<open>At most two octets are left and are saved behind those that are saved already.\<close>

definition save_rest :: "octets \<Rightarrow> octets \<Rightarrow> octets option" where
  "save_rest save xs =
     (if xs = [] then Some save
      else do { save \<leftarrow> (if length xs \<le> 2 then store save (1 + sint (save ! 0)) xs else Some save);
                Some (save[0 := save ! 0 + word_of_nat (length xs)]) })"

text \<open>
  The jump into the loop starts the first round with one or two saved octets in place of the first octets of the
  input, so the loop runs on the saved octets followed by the input.
\<close>

definition g_base64_encode_step :: "octets \<Rightarrow> bool \<Rightarrow> int \<Rightarrow> octets \<Rightarrow> (octets \<times> int \<times> octets) option" where
  "g_base64_encode_step xs break_lines state save =
     (if xs = [] then Some ([], state, save)
      else if word_of_nat (length xs) + scast (save ! 0) > (2 :: u32)
      then (let first = (if save ! 0 = 1 then [save ! 1] else if save ! 0 = 2 then [save ! 1, save ! 2] else []);
                (out, already, rest) = encode_loop break_lines (first @ xs) state
            in do { save \<leftarrow> save_rest (save[0 := 0]) rest; Some (out, already, save) })
      else do { save \<leftarrow> save_rest save xs; Some ([], state, save) })"

definition g_base64_encode_close :: "bool \<Rightarrow> octets \<Rightarrow> octets \<times> int \<times> octets" where
  "g_base64_encode_close break_lines save =
     (let c1 = save ! 1; c2 = save ! 2;
          third = (if save ! 0 = 2 then base64_alphabet ! unat (push_bit 2 (c2 AND 0x0f)) else 0x3d);
          out = (if save ! 0 = 2 \<or> save ! 0 = 1
                 then [base64_alphabet ! unat (drop_bit 2 c1),
                       base64_alphabet ! unat (drop_bit 4 c2 OR push_bit 4 (c1 AND 3)), third, 0x3d]
                 else [])
      in (out @ (if break_lines then [10] else []), 0, [0, 0, 0, 0]))"

text \<open>The result is the allocated string without its terminating zero.\<close>

definition g_base64_encode :: "octets \<Rightarrow> octets option" where
  "g_base64_encode data =
     (if length data \<ge> ((0xffffffff - 1) div 4 - 1) * 3 then None
      else do {
        (out, state, save) \<leftarrow> g_base64_encode_step data False 0 [0, 0, 0, 0];
        let (out', _, _) = g_base64_encode_close False save;
        if length (out @ out') + 1 \<le> (length data div 3 + 1) * 4 + 1 then Some (out @ out') else None })"

section \<open>Decoding\<close>

definition mime_base64_rank :: octets where
  "mime_base64_rank =
  [255, 255, 255, 255, 255, 255, 255, 255, 255, 255, 255, 255, 255, 255, 255, 255,
   255, 255, 255, 255, 255, 255, 255, 255, 255, 255, 255, 255, 255, 255, 255, 255,
   255, 255, 255, 255, 255, 255, 255, 255, 255, 255, 255, 62, 255, 255, 255, 63,
   52, 53, 54, 55, 56, 57, 58, 59, 60, 61, 255, 255, 255, 0, 255, 255,
   255, 0, 1, 2, 3, 4, 5, 6, 7, 8, 9, 10, 11, 12, 13, 14,
   15, 16, 17, 18, 19, 20, 21, 22, 23, 24, 25, 255, 255, 255, 255, 255,
   255, 26, 27, 28, 29, 30, 31, 32, 33, 34, 35, 36, 37, 38, 39, 40,
   41, 42, 43, 44, 45, 46, 47, 48, 49, 50, 51, 255, 255, 255, 255, 255,
   255, 255, 255, 255, 255, 255, 255, 255, 255, 255, 255, 255, 255, 255, 255, 255,
   255, 255, 255, 255, 255, 255, 255, 255, 255, 255, 255, 255, 255, 255, 255, 255,
   255, 255, 255, 255, 255, 255, 255, 255, 255, 255, 255, 255, 255, 255, 255, 255,
   255, 255, 255, 255, 255, 255, 255, 255, 255, 255, 255, 255, 255, 255, 255, 255,
   255, 255, 255, 255, 255, 255, 255, 255, 255, 255, 255, 255, 255, 255, 255, 255,
   255, 255, 255, 255, 255, 255, 255, 255, 255, 255, 255, 255, 255, 255, 255, 255,
   255, 255, 255, 255, 255, 255, 255, 255, 255, 255, 255, 255, 255, 255, 255, 255,
   255, 255, 255, 255, 255, 255, 255, 255, 255, 255, 255, 255, 255, 255, 255, 255]"

record base64_state =
  b64_v :: u32
  b64_i :: int
  b64_last0 :: u8
  b64_last1 :: u8

text \<open>One round of the loop: the octets it stores and the variables behind it.\<close>

definition decode_char :: "u8 \<Rightarrow> base64_state \<Rightarrow> octets \<times> base64_state" where
  "decode_char c d =
     (let rank = mime_base64_rank ! unat c in
      if rank \<noteq> 0xff then
        let last1 = b64_last0 d; last0 = c; v = push_bit 6 (b64_v d) OR ucast rank; i = b64_i d + 1 in
        if i = 4 then
          ([ucast (drop_bit 16 v)] @ (if last1 \<noteq> 0x3d then [ucast (drop_bit 8 v)] else []) @
             (if last0 \<noteq> 0x3d then [ucast v] else []),
           \<lparr>b64_v = v, b64_i = 0, b64_last0 = last0, b64_last1 = last1\<rparr>)
        else ([], \<lparr>b64_v = v, b64_i = i, b64_last0 = last0, b64_last1 = last1\<rparr>)
      else ([], d))"

fun decode_loop :: "octets \<Rightarrow> base64_state \<Rightarrow> octets \<times> base64_state" where
  "decode_loop [] d = ([], d)"
| "decode_loop (c # cs) d =
     (let (out, d) = decode_char c d; (out', d) = decode_loop cs d in (out @ out', d))"

definition g_base64_decode_step :: "octets \<Rightarrow> int \<Rightarrow> u32 \<Rightarrow> octets \<times> int \<times> u32" where
  "g_base64_decode_step xs state save =
     (if xs = [] then ([], state, save)
      else let (out, d) = decode_loop xs \<lparr>b64_v = save, b64_i = state, b64_last0 = 0, b64_last1 = 0\<rparr>
           in (out, b64_i d, b64_v d))"

text \<open>The block that is returned, and the value of \<^verbatim>\<open>*out_len\<close>. \<^verbatim>\<open>strlen\<close> ends the text at its first zero.\<close>

definition g_base64_decode :: "octets \<Rightarrow> (octets \<times> nat) option" where
  "g_base64_decode text =
     (let xs = takeWhile (\<lambda>c. c \<noteq> 0) text;
          size = (length xs div 4) * 3 + 1;
          (out, _, _) = g_base64_decode_step xs 0 0
      in if length out \<le> size then Some (out @ replicate (size - length out) 0, length out) else None)"

text \<open>
  The same loop with the text itself as the output: \<open>k\<close> is the offset of \<^verbatim>\<open>inptr\<close>, \<open>j\<close> that of
  \<^verbatim>\<open>outptr\<close>. For a text of fewer than two characters the result is the null pointer, and the text and
  \<^verbatim>\<open>*out_len\<close> are untouched.
\<close>

fun decode_inplace_loop :: "nat \<Rightarrow> octets \<Rightarrow> nat \<Rightarrow> nat \<Rightarrow> base64_state \<Rightarrow> (octets \<times> nat) option" where
  "decode_inplace_loop 0 m k j d = Some (m, j)"
| "decode_inplace_loop (Suc n) m k j d = do {
     c \<leftarrow> load8 m (int k);
     let (out, d) = decode_char c d;
     m \<leftarrow> store m (int j) out;
     decode_inplace_loop n m (Suc k) (j + length out) d
   }"

definition g_base64_decode_inplace :: "octets \<Rightarrow> (octets \<times> nat) option option" where
  "g_base64_decode_inplace text =
     (let n = length (takeWhile (\<lambda>c. c \<noteq> 0) text)
      in if n \<le> 1 then Some None
         else map_option Some (decode_inplace_loop n text 0 0 \<lparr>b64_v = 0, b64_i = 0, b64_last0 = 0, b64_last1 = 0\<rparr>))"

section \<open>The decoder stays inside its block\<close>

lemma decode_char_bound:
  assumes "0 \<le> b64_i d" and "b64_i d < 4"
  obtains out d' where "decode_char c d = (out, d')" and "0 \<le> b64_i d'" and "b64_i d' < 4"
    and "out = [] \<and> nat (b64_i d') \<le> Suc (nat (b64_i d)) \<or> length out \<le> 3 \<and> b64_i d = 3 \<and> b64_i d' = 0"
  by (rule that [OF prod.collapse [symmetric]]) (use assms in \<open>auto simp: decode_char_def Let_def\<close>)

lemma decode_loop_bound:
  "0 \<le> b64_i d \<Longrightarrow> b64_i d < 4 \<Longrightarrow> length (fst (decode_loop xs d)) \<le> 3 * ((length xs + nat (b64_i d)) div 4)"
proof (induction xs arbitrary: d)
  case (Cons c xs)
  obtain out d' where step: "decode_char c d = (out, d')" "0 \<le> b64_i d'" "b64_i d' < 4"
    and out: "out = [] \<and> nat (b64_i d') \<le> Suc (nat (b64_i d)) \<or> length out \<le> 3 \<and> b64_i d = 3 \<and> b64_i d' = 0"
    by (rule decode_char_bound [OF Cons.prems])
  have rest: "length (fst (decode_loop xs d')) \<le> 3 * ((length xs + nat (b64_i d')) div 4)" by (rule Cons.IH [OF step(2,3)])
  have all: "length (fst (decode_loop (c # xs) d)) = length out + length (fst (decode_loop xs d'))"
    using step(1) by (simp add: split_beta)
  from out show ?case
  proof
    assume o: "out = [] \<and> nat (b64_i d') \<le> Suc (nat (b64_i d))"
    then have "(length xs + nat (b64_i d')) div 4 \<le> (length (c # xs) + nat (b64_i d)) div 4" by (intro div_le_mono) simp
    with rest all o show ?thesis by simp
  next
    assume "length out \<le> 3 \<and> b64_i d = 3 \<and> b64_i d' = 0"
    with rest all div_add_self1 [of 4 "length xs"] show ?thesis by (simp add: add.commute)
  qed
qed simp

lemma g_base64_decode_step_bound: "length (fst (g_base64_decode_step xs 0 0)) \<le> 3 * (length xs div 4)"
  using decode_loop_bound [of "\<lparr>b64_v = 0, b64_i = 0, b64_last0 = 0, b64_last1 = 0\<rparr>" xs]
  by (simp add: g_base64_decode_step_def split_beta)

lemma g_base64_decode_eq:
  "g_base64_decode text =
     (let xs = takeWhile (\<lambda>c. c \<noteq> 0) text; out = fst (g_base64_decode_step xs 0 0)
      in Some (out @ replicate (length xs div 4 * 3 + 1 - length out) 0, length out))"
  using g_base64_decode_step_bound [of "takeWhile (\<lambda>c. c \<noteq> 0) text"]
  by (simp add: g_base64_decode_def Let_def split_beta)

section \<open>Decoding what was encoded\<close>

lemma base64_alphabet_rank:
  assumes "unat s < 64"
  shows "mime_base64_rank ! unat (base64_alphabet ! unat s) = s" and "base64_alphabet ! unat s \<noteq> 0x3d" and "base64_alphabet ! unat s \<noteq> 0"
proof -
  have "list_all (\<lambda>k. mime_base64_rank ! unat (base64_alphabet ! k) = word_of_nat k \<and> base64_alphabet ! k \<noteq> 0x3d \<and>
      base64_alphabet ! k \<noteq> 0) [0..<64]" by code_simp
  then have all: "\<forall>k < 64. mime_base64_rank ! unat (base64_alphabet ! k) = word_of_nat k \<and> base64_alphabet ! k \<noteq> 0x3d \<and>
      base64_alphabet ! k \<noteq> 0" by (simp only: list_all_iff set_upt) simp
  show "mime_base64_rank ! unat (base64_alphabet ! unat s) = s" "base64_alphabet ! unat s \<noteq> 0x3d" "base64_alphabet ! unat s \<noteq> 0"
    using all [rule_format, OF assms] by simp_all
qed

lemma sextet_less: "unat s < 64" if "\<not> bit s 6" and "\<not> bit s 7" for s :: u8
proof -
  have "s = take_bit 6 s"
  proof (rule u8_eqI)
    fix n :: nat assume "n < 8"
    then have "n < 6 \<or> n = 6 \<or> n = 7" by auto
    with that show "bit s n = bit (take_bit 6 s) n" by (auto simp: bit_take_bit_iff)
  qed
  then have "unat s = unat (take_bit 6 s)" by simp
  also have "\<dots> < 64" using take_bit_nat_less_exp [of 6 "unat s"] by (simp only: unsigned_take_bit_eq) simp
  finally show ?thesis .
qed

lemma octet_masks: "a AND 3 = take_bit 2 a" "a AND 0x0f = take_bit 4 a" "a AND 0x3f = take_bit 6 a" for a :: u8
  by (simp_all add: take_bit_eq_mask mask_eq_exp_minus_1)

lemma sextets_less [simp]:
  fixes a b c :: u8
  shows "unat (drop_bit 2 a) < 64" "unat (drop_bit 4 b OR push_bit 4 (a AND 3)) < 64"
    "unat (push_bit 2 (b AND 0x0f) OR drop_bit 6 c) < 64" "unat (c AND 0x3f) < 64" "unat (push_bit 2 (b AND 0x0f)) < 64"
  unfolding octet_masks by (rule sextet_less; auto simp: bit_simps dest: bit_imp_le_length)+

lemma decode_char_alphabet:
  fixes s :: u8
  assumes "unat s < 64"
  shows "decode_char (base64_alphabet ! unat s) d =
    (let v = push_bit 6 (b64_v d) OR ucast s; c = base64_alphabet ! unat s in
     if b64_i d = 3 then ([ucast (drop_bit 16 v)] @ (if b64_last0 d \<noteq> 0x3d then [ucast (drop_bit 8 v)] else []) @ [ucast v],
       \<lparr>b64_v = v, b64_i = 0, b64_last0 = c, b64_last1 = b64_last0 d\<rparr>)
     else ([], \<lparr>b64_v = v, b64_i = b64_i d + 1, b64_last0 = c, b64_last1 = b64_last0 d\<rparr>))"
  using assms by (auto simp: decode_char_def base64_alphabet_rank Let_def)

lemma decode_char_pad:
  "decode_char 0x3d d =
    (let v = push_bit 6 (b64_v d) in
     if b64_i d = 3 then ([ucast (drop_bit 16 v)] @ (if b64_last0 d \<noteq> 0x3d then [ucast (drop_bit 8 v)] else []),
       \<lparr>b64_v = v, b64_i = 0, b64_last0 = 0x3d, b64_last1 = b64_last0 d\<rparr>)
     else ([], \<lparr>b64_v = v, b64_i = b64_i d + 1, b64_last0 = 0x3d, b64_last1 = b64_last0 d\<rparr>))"
proof -
  have "mime_base64_rank ! unat (0x3d :: u8) = 0" by code_simp
  then show ?thesis by (auto simp: decode_char_def Let_def)
qed

lemma u8_bitsI:
  assumes "bit a 0 = bit b 0" "bit a 1 = bit b 1" "bit a 2 = bit b 2" "bit a 3 = bit b 3"
    "bit a 4 = bit b 4" "bit a 5 = bit b 5" "bit a 6 = bit b 6" "bit a 7 = bit b 7"
  shows "a = (b :: u8)"
proof (rule u8_eqI)
  fix n :: nat assume "n < 8"
  then have "n = 0 \<or> n = 1 \<or> n = 2 \<or> n = 3 \<or> n = 4 \<or> n = 5 \<or> n = 6 \<or> n = 7" by auto
  with assms show "bit a n = bit b n" by blast
qed

lemma u8_bit_ge: "8 \<le> n \<Longrightarrow> \<not> bit (a :: u8) n"
  using bit_imp_le_length [of a n] by auto

text \<open>Four characters carry three octets, whatever the shift register held before.\<close>

lemma sextets_join:
  fixes v :: u32 and a b c :: u8
  defines "v' \<equiv> push_bit 6 (push_bit 6 (push_bit 6 (push_bit 6 v OR ucast (drop_bit 2 a)) OR ucast (drop_bit 4 b OR push_bit 4 (a AND 3)))
      OR ucast (push_bit 2 (b AND 0x0f) OR drop_bit 6 c))"
  shows "ucast (drop_bit 16 (v' OR ucast (c AND 0x3f))) = a" "ucast (drop_bit 8 (v' OR ucast (c AND 0x3f))) = b"
    "ucast (v' OR ucast (c AND 0x3f)) = c"
  unfolding v'_def octet_masks by (rule u8_bitsI; simp add: bit_simps u8_bit_ge)+

lemma sextets_join_pad:
  fixes v :: u32 and a b :: u8
  shows "ucast (drop_bit 16 (push_bit 6 (push_bit 6 (push_bit 6 (push_bit 6 v OR ucast (drop_bit 2 a)) OR
      ucast (drop_bit 4 b OR push_bit 4 (a AND 3))) OR ucast (push_bit 2 (b AND 0x0f))))) = a"
    "ucast (drop_bit 8 (push_bit 6 (push_bit 6 (push_bit 6 (push_bit 6 v OR ucast (drop_bit 2 a)) OR
      ucast (drop_bit 4 b OR push_bit 4 (a AND 3))) OR ucast (push_bit 2 (b AND 0x0f))))) = b"
    "ucast (drop_bit 16 (push_bit 6 (push_bit 6 (push_bit 6 (push_bit 6 v OR ucast (drop_bit 2 a)) OR
      ucast (drop_bit 4 b OR push_bit 4 (a AND 3)))))) = a"
  unfolding octet_masks by (rule u8_bitsI; simp add: bit_simps u8_bit_ge)+

lemma decode_loop_append:
  "decode_loop (xs @ ys) d =
     (fst (decode_loop xs d) @ fst (decode_loop ys (snd (decode_loop xs d))), snd (decode_loop ys (snd (decode_loop xs d))))"
  by (induction xs arbitrary: d) (simp_all add: split_beta Let_def)

lemma decode_loop_quad:
  fixes s1 s2 s3 s4 :: u8
  assumes "unat s1 < 64" "unat s2 < 64" "b64_i d = 0"
  defines "w \<equiv> push_bit 6 (push_bit 6 (b64_v d) OR ucast s1) OR ucast s2"
  shows "unat s3 < 64 \<Longrightarrow> unat s4 < 64 \<Longrightarrow>
      \<exists>d'. decode_loop [base64_alphabet ! unat s1, base64_alphabet ! unat s2, base64_alphabet ! unat s3, base64_alphabet ! unat s4] d =
        ([ucast (drop_bit 16 (push_bit 6 (push_bit 6 w OR ucast s3) OR ucast s4)), ucast (drop_bit 8 (push_bit 6 (push_bit 6 w OR ucast s3) OR ucast s4)),
          ucast (push_bit 6 (push_bit 6 w OR ucast s3) OR ucast s4)], d') \<and> b64_i d' = 0"
    and "unat s3 < 64 \<Longrightarrow>
      fst (decode_loop [base64_alphabet ! unat s1, base64_alphabet ! unat s2, base64_alphabet ! unat s3, 0x3d] d) =
        [ucast (drop_bit 16 (push_bit 6 (push_bit 6 w OR ucast s3))), ucast (drop_bit 8 (push_bit 6 (push_bit 6 w OR ucast s3)))]"
    and "fst (decode_loop [base64_alphabet ! unat s1, base64_alphabet ! unat s2, 0x3d, 0x3d] d) = [ucast (drop_bit 16 (push_bit 6 (push_bit 6 w)))]"
  using assms(1-3) unfolding w_def
  by (simp_all add: decode_char_alphabet decode_char_pad base64_alphabet_rank(2) Let_def)

lemma decode_loop_group:
  assumes "b64_i d = 0"
  obtains d' where "decode_loop (encode_group a b c) d = ([a, b, c], d')" and "b64_i d' = 0"
  using decode_loop_quad(1) [OF sextets_less(1,2) assms sextets_less(3,4), of a b a b c c] that
  unfolding encode_group_def sextets_join by blast

lemma decode_loop_tail:
  assumes "b64_i d = 0"
  shows "fst (decode_loop [base64_alphabet ! unat (drop_bit 2 a), base64_alphabet ! unat (drop_bit 4 b OR push_bit 4 (a AND 3)),
      base64_alphabet ! unat (push_bit 2 (b AND 0x0f)), 0x3d] d) = [a, b]"
    and "fst (decode_loop [base64_alphabet ! unat (drop_bit 2 a), base64_alphabet ! unat (drop_bit 4 b OR push_bit 4 (a AND 3)), 0x3d, 0x3d] d) = [a]"
  unfolding decode_loop_quad(2) [OF sextets_less(1,2) assms sextets_less(5)] decode_loop_quad(3) [OF sextets_less(1,2) assms] sextets_join_pad
  by (rule refl)+

section \<open>Incremental encoding\<close>

text \<open>A text that stands for some octets: it decodes to them and leaves no sextet behind.\<close>

definition stands_for :: "octets \<Rightarrow> octets \<Rightarrow> bool" where
  "stands_for t xs \<longleftrightarrow> (\<forall>d. b64_i d = 0 \<longrightarrow> (\<exists>d'. decode_loop t d = (xs, d') \<and> b64_i d' = 0))"

lemma stands_for_append: "stands_for t xs \<Longrightarrow> stands_for u ys \<Longrightarrow> stands_for (t @ u) (xs @ ys)"
  unfolding stands_for_def decode_loop_append by fastforce

lemma stands_for_nl: "stands_for [10] []"
proof -
  have "mime_base64_rank ! unat (10 :: u8) = 0xff" by code_simp
  then show ?thesis by (simp add: stands_for_def decode_char_def)
qed

lemma stands_for_group: "stands_for (encode_group a b c) [a, b, c]"
  unfolding stands_for_def using decode_loop_group by metis

lemma encode_loop_stands_for:
  "encode_loop br xs s = (out, a, rest) \<Longrightarrow> \<exists>ys. xs = ys @ rest \<and> stands_for out ys \<and> length rest \<le> 2"
proof (induction br xs s arbitrary: out a rest rule: encode_loop.induct)
  case (1 br c1 c2 c3 xs s)
  define nl where "nl \<longleftrightarrow> br \<and> s + 1 \<ge> 19"
  define s' where "s' = (if nl then 0 else if br then s + 1 else s)"
  obtain out' where out: "encode_loop br xs s' = (out', a, rest)" "out = encode_group c1 c2 c3 @ (if nl then [10] else []) @ out'"
    using 1(2) by (auto simp: nl_def s'_def Let_def split: prod.splits)
  then obtain ys where ys: "xs = ys @ rest" "stands_for out' ys" "length rest \<le> 2" using 1(1) [OF nl_def, of out' a rest] by (auto simp: s'_def)
  have "stands_for (if nl then [10] else []) []" using stands_for_nl by (simp add: stands_for_def)
  from stands_for_append [OF stands_for_group stands_for_append [OF this ys(2)]] show ?case
    using ys(1,3) out(2) by (intro exI [of _ "c1 # c2 # c3 # ys"]) simp
qed (auto simp: stands_for_def)

lemma short_list_cases: "length xs \<le> 2 \<Longrightarrow> xs = [] \<or> (\<exists>a. xs = [a]) \<or> (\<exists>a b. xs = [a, b])"
  by (cases xs; cases "tl xs"; cases "tl (tl xs)") auto

text \<open>What the four octets of \<^verbatim>\<open>save\<close> hold between two steps.\<close>

definition saved :: "octets \<Rightarrow> octets \<Rightarrow> bool" where
  "saved save xs \<longleftrightarrow> length save = 4 \<and> length xs \<le> 2 \<and> save ! 0 = word_of_nat (length xs) \<and> take (length xs) (drop 1 save) = xs"

lemma saved_cases:
  assumes "saved save xs"
  obtains (none) x y z where "save = [0, x, y, z]" "xs = []"
  | (one) x y z where "save = [1, x, y, z]" "xs = [x]"
  | (two) x y z where "save = [2, x, y, z]" "xs = [x, y]"
proof -
  from assms obtain w x y z where "save = [w, x, y, z]" by (auto simp: saved_def length_Suc_conv eval_nat_numeral)
  moreover from assms have "xs = [] \<or> (\<exists>a. xs = [a]) \<or> (\<exists>a b. xs = [a, b])" by (simp add: saved_def short_list_cases)
  ultimately show ?thesis using assms that by (auto simp: saved_def)
qed

lemma save_rest_saved:
  assumes "saved save xs" and "length (xs @ ys) \<le> 2"
  obtains save' where "save_rest save ys = Some save'" and "saved save' (xs @ ys)"
proof -
  have "ys = [] \<or> (\<exists>a. ys = [a]) \<or> (\<exists>a b. ys = [a, b])" using assms(2) by (intro short_list_cases) simp
  with assms have "\<exists>save'. save_rest save ys = Some save' \<and> saved save' (xs @ ys)"
    by (elim saved_cases) (auto simp: save_rest_def store_def saved_def)
  with that show ?thesis by blast
qed

lemma g_base64_encode_step_saved:
  assumes "saved save xs" and "length ys < 2 ^ 31"
  obtains out s' save' zs where "g_base64_encode_step ys br s save = Some (out, s', save')"
    and "saved save' zs" and "\<exists>done. xs @ ys = done @ zs \<and> stands_for out done"
proof (cases "ys = [] \<or> length (xs @ ys) \<le> 2")
  case small: True
  obtain save' where save': "save_rest save ys = Some save'" "saved save' (xs @ ys)"
  proof (cases "ys = []")
    case True
    with assms(1) that show ?thesis by (simp add: save_rest_def)
  qed (use save_rest_saved [OF assms(1)] small that in blast)
  have "unat (word_of_nat (length ys) + scast (save ! 0) :: u32) \<le> 2" if "ys \<noteq> []"
  proof -
    have "length ys \<le> 2" using small that by auto
    from short_list_cases [OF this] assms(1) small that show ?thesis by (elim saved_cases disjE) auto
  qed
  then have "\<not> word_of_nat (length ys) + scast (save ! 0) > (2 :: u32)" if "ys \<noteq> []" using that by (simp add: word_less_nat_alt)
  then have "g_base64_encode_step ys br s save = Some ([], s, save')" using save'(1)
    by (cases "ys = []") (auto simp: g_base64_encode_step_def save_rest_def [of _ "[]"])
  moreover have "\<exists>done. xs @ ys = done @ (xs @ ys) \<and> stands_for [] done" by (auto simp: stands_for_def)
  ultimately show ?thesis using that save'(2) by blast
next
  case False
  define first where "first = (if save ! 0 = 1 then [save ! 1] else if save ! 0 = 2 then [save ! 1, save ! 2] else [])"
  have first: "first = xs" using assms(1) by (elim saved_cases) (simp_all add: first_def)
  obtain out s' rest where loop: "encode_loop br (xs @ ys) s = (out, s', rest)" by (cases "encode_loop br (xs @ ys) s")
  from encode_loop_stands_for [OF this] obtain zs where zs: "xs @ ys = zs @ rest" "stands_for out zs" "length rest \<le> 2" by blast
  have "saved (save[0 := 0]) []" using assms(1) by (simp add: saved_def)
  then obtain save' where save': "save_rest (save[0 := 0]) rest = Some save'" "saved save' rest"
    using save_rest_saved [of "save[0 := 0]" "[]" rest] zs(3) by auto
  have "unat (word_of_nat (length ys) + scast (save ! 0) :: u32) = length xs + length ys"
    using assms by (elim saved_cases) (auto simp: unat_word_ariths unat_of_nat)
  then have "word_of_nat (length ys) + scast (save ! 0) > (2 :: u32)" using False by (simp add: word_less_nat_alt)
  then have "g_base64_encode_step ys br s save = Some (out, s', save')" using False save'(1) loop
    by (simp add: g_base64_encode_step_def first_def [symmetric] first)
  then show ?thesis using that save'(2) zs by blast
qed

lemma g_base64_encode_close_saved:
  assumes "saved save xs"
  obtains out where "g_base64_encode_close br save = (out, 0, [0, 0, 0, 0])" and "\<forall>d. b64_i d = 0 \<longrightarrow> fst (decode_loop out d) = xs"
proof -
  let ?nl = "if br then [10] else [] :: octets"
  have nl: "fst (decode_loop ?nl d) = []" for d
    by (simp add: decode_char_def mime_base64_rank_def)
  show ?thesis using assms
  proof (cases rule: saved_cases)
    case (none x y z)
    then show ?thesis using that nl by (simp add: g_base64_encode_close_def)
  next
    case (one x y z)
    let ?out = "[base64_alphabet ! unat (drop_bit 2 x), base64_alphabet ! unat (drop_bit 4 y OR push_bit 4 (x AND 3)), 0x3d, 0x3d]"
    have "g_base64_encode_close br save = (?out @ ?nl, 0, [0, 0, 0, 0])" using one(1) by (simp add: g_base64_encode_close_def del: push_bit_and)
    moreover have "fst (decode_loop (?out @ ?nl) d) = xs" if "b64_i d = 0" for d :: base64_state
      using one(2) by (simp only: decode_loop_append decode_loop_tail(2) [OF that] nl fst_conv append_Nil2)
    ultimately show ?thesis using that by blast
  next
    case (two x y z)
    let ?out = "[base64_alphabet ! unat (drop_bit 2 x), base64_alphabet ! unat (drop_bit 4 y OR push_bit 4 (x AND 3)),
        base64_alphabet ! unat (push_bit 2 (y AND 0x0f)), 0x3d]"
    have "g_base64_encode_close br save = (?out @ ?nl, 0, [0, 0, 0, 0])" using two(1) by (simp add: g_base64_encode_close_def del: push_bit_and)
    moreover have "fst (decode_loop (?out @ ?nl) d) = xs" if "b64_i d = 0" for d :: base64_state
      using two(2) by (simp only: decode_loop_append decode_loop_tail(1) [OF that] nl fst_conv append_Nil2)
    ultimately show ?thesis using that by blast
  qed
qed

text \<open>A client that encodes its data piece by piece.\<close>

fun encode_pieces :: "octets list \<Rightarrow> bool \<Rightarrow> int \<Rightarrow> octets \<Rightarrow> octets option" where
  "encode_pieces [] br s save = Some (fst (g_base64_encode_close br save))"
| "encode_pieces (p # ps) br s save = do {
     (out, s, save) \<leftarrow> g_base64_encode_step p br s save;
     map_option ((@) out) (encode_pieces ps br s save)
   }"

lemma encode_pieces_stands_for:
  assumes "saved save xs" and "list_all (\<lambda>p. length p < 2 ^ 31) ps"
  shows "\<exists>t. encode_pieces ps br s save = Some t \<and> (\<forall>d. b64_i d = 0 \<longrightarrow> fst (decode_loop t d) = xs @ concat ps)"
  using assms
proof (induction ps arbitrary: xs s save)
  case Nil
  from Nil.prems(1) obtain out where "g_base64_encode_close br save = (out, 0, [0, 0, 0, 0])"
    "\<forall>d. b64_i d = 0 \<longrightarrow> fst (decode_loop out d) = xs" by (rule g_base64_encode_close_saved [where br = br])
  then show ?case by simp
next
  case (Cons p ps)
  have "length p < 2 ^ 31" using Cons.prems(2) by simp
  then obtain out s' save' zs where step: "g_base64_encode_step p br s save = Some (out, s', save')" "saved save' zs"
    and split: "\<exists>don. xs @ p = don @ zs \<and> stands_for out don"
    by (rule g_base64_encode_step_saved [OF Cons.prems(1), where br = br and s = s])
  from split obtain don where don: "xs @ p = don @ zs" "stands_for out don" by blast
  from Cons.IH [OF step(2)] Cons.prems(2) obtain t where t: "encode_pieces ps br s' save' = Some t"
    "\<And>d. b64_i d = 0 \<Longrightarrow> fst (decode_loop t d) = zs @ concat ps" by auto
  have "fst (decode_loop (out @ t) d) = xs @ concat (p # ps)" if "b64_i d = 0" for d
  proof -
    from don(2) that obtain d' where "decode_loop out d = (don, d')" "b64_i d' = 0" by (auto simp: stands_for_def)
    with t(2) don(1) show ?thesis by (simp add: decode_loop_append)
  qed
  with step(1) t(1) show ?case by auto
qed

section \<open>Properties\<close>

lemma saved_init: "saved [0, 0, 0, 0] []"
  by (simp add: saved_def)

text \<open>
  Octets that are encoded in any number of pieces, of any sizes, with or without line breaks, decode to the octets that
  were encoded, in order; no step stores outside its saved state. (The text itself depends on how the octets were cut
  into pieces, \<open>g_base64_encode_close_stale\<close>.)
\<close>

lemma base64_pieces_decode:
  assumes "list_all (\<lambda>p. length p < 2 ^ 31) ps"
  shows "\<exists>t. encode_pieces ps br 0 [0, 0, 0, 0] = Some t \<and> fst (g_base64_decode_step t 0 0) = concat ps"
proof -
  from encode_pieces_stands_for [OF saved_init assms, of br 0] obtain t where t: "encode_pieces ps br 0 [0, 0, 0, 0] = Some t"
    "\<forall>d. b64_i d = 0 \<longrightarrow> fst (decode_loop t d) = concat ps" by auto
  have "fst (g_base64_decode_step t 0 0) = fst (decode_loop t \<lparr>b64_v = 0, b64_i = 0, b64_last0 = 0, b64_last1 = 0\<rparr>)"
    by (simp add: g_base64_decode_step_def split_beta)
  with t show ?thesis by simp
qed

section \<open>The text that RFC 4648 asks for\<close>

text \<open>The octets as one string of bits, cut into groups of six, and the padding.\<close>

definition octet_bits :: "u8 \<Rightarrow> bool list" where
  "octet_bits a = map (bit a) [7, 6, 5, 4, 3, 2, 1, 0]"

fun sextets :: "bool list \<Rightarrow> nat list" where
  "sextets [] = []"
| "sextets (b # bs) = horner_sum of_bool 2 (rev (take 6 (b # bs @ [False, False, False, False, False]))) # sextets (drop 5 bs)"

definition base64 :: "octets \<Rightarrow> octets" where
  "base64 xs = map (\<lambda>k. base64_alphabet ! k) (sextets (concat (map octet_bits xs))) @ replicate ((3 - length xs mod 3) mod 3) 0x3d"

lemma unat_bits: "unat w = horner_sum of_bool 2 (map (bit w) [0, 1, 2, 3, 4, 5, 6, 7])" for w :: u8
proof -
  have "take_bit 8 w = w" by (rule u8_eqI) (simp add: bit_take_bit_iff)
  then have "unat w = take_bit 8 (unat w)" by (metis unsigned_take_bit_eq)
  also have "\<dots> = horner_sum of_bool 2 (map (bit (unat w)) [0..<8])" by (simp only: horner_sum_bit_eq_take_bit)
  also have "[0..<8] = [0, 1, 2, 3, 4, 5, 6, 7 :: nat]" by code_simp
  also have "map (bit (unat w)) [0, 1, 2, 3, 4, 5, 6, 7] = map (bit w) [0, 1, 2, 3, 4, 5, 6, 7]" by (simp add: bit_unsigned_iff)
  finally show ?thesis .
qed

lemma sextet_words:
  fixes a b c :: u8
  shows "unat (drop_bit 2 a) = horner_sum of_bool 2 (map (bit a) [2, 3, 4, 5, 6, 7])"
    "unat (drop_bit 4 b OR push_bit 4 (a AND 3)) = horner_sum of_bool 2 (map (bit b) [4, 5, 6, 7] @ map (bit a) [0, 1])"
    "unat (push_bit 2 (b AND 0x0f) OR drop_bit 6 c) = horner_sum of_bool 2 (map (bit c) [6, 7] @ map (bit b) [0, 1, 2, 3])"
    "unat (c AND 0x3f) = horner_sum of_bool 2 (map (bit c) [0, 1, 2, 3, 4, 5])"
    "unat (push_bit 2 (b AND 0x0f)) = horner_sum of_bool 2 ([False, False] @ map (bit b) [0, 1, 2, 3])"
    "unat (drop_bit 4 0 OR push_bit 4 (a AND 3)) = horner_sum of_bool 2 ([False, False, False, False] @ map (bit a) [0, 1])"
  unfolding octet_masks by (simp_all add: unat_bits bit_simps u8_bit_ge)

lemma base64_group: "base64 (a # b # c # xs) = encode_group a b c @ base64 xs"
  by (simp add: base64_def encode_group_def octet_bits_def sextet_words del: push_bit_and)

lemma base64_rest:
  "base64 [a, b] = [base64_alphabet ! unat (drop_bit 2 a), base64_alphabet ! unat (drop_bit 4 b OR push_bit 4 (a AND 3)),
      base64_alphabet ! unat (push_bit 2 (b AND 0x0f)), 0x3d]"
  "base64 [a] = [base64_alphabet ! unat (drop_bit 2 a), base64_alphabet ! unat (drop_bit 4 0 OR push_bit 4 (a AND 3)), 0x3d, 0x3d]"
  "base64 [] = []"
proof -
  have pad: "(3 - length [a, b] mod 3) mod 3 = 1" "(3 - length [a] mod 3) mod 3 = 2" "(3 - length ([] :: octets) mod 3) mod 3 = 0" by simp_all
  have two: "replicate 2 x = [x, x]" for x :: u8 by (simp add: numeral_2_eq_2)
  show "base64 [a, b] = [base64_alphabet ! unat (drop_bit 2 a), base64_alphabet ! unat (drop_bit 4 b OR push_bit 4 (a AND 3)),
      base64_alphabet ! unat (push_bit 2 (b AND 0x0f)), 0x3d]"
    unfolding base64_def pad sextet_words by (simp add: octet_bits_def)
  show "base64 [a] = [base64_alphabet ! unat (drop_bit 2 a), base64_alphabet ! unat (drop_bit 4 0 OR push_bit 4 (a AND 3)), 0x3d, 0x3d]"
    unfolding base64_def pad two sextet_words by (simp add: octet_bits_def)
  show "base64 [] = []" unfolding base64_def pad by simp
qed

lemma triples_induct [case_names Nil One Two Three]:
  assumes "P []" and "\<And>a. P [a]" and "\<And>a b. P [a, b]" and "\<And>a b c xs. P xs \<Longrightarrow> P (a # b # c # xs)"
  shows "P xs"
proof (induction "length xs" arbitrary: xs rule: less_induct)
  case less
  show ?case
  proof (cases "length xs \<le> 2")
    case True
    from short_list_cases [OF this] show ?thesis using assms(1-3) by blast
  next
    case False
    then obtain a b c ys where "xs = a # b # c # ys" by (cases xs; cases "tl xs"; cases "tl (tl xs)") auto
    then show ?thesis using less assms(4) by simp
  qed
qed

lemma encode_loop_base64: "encode_loop False xs s = (out, a, rest) \<Longrightarrow> base64 xs = out @ base64 rest \<and> length rest \<le> 2"
  by (induction xs arbitrary: out rule: triples_induct) (auto simp: base64_group Let_def split: prod.splits)

lemma length_base64: "length (base64 xs) \<le> (length xs div 3 + 1) * 4"
proof (induction xs rule: triples_induct)
  case (Three a b c xs)
  then show ?case using div_add_self1 [of 3 "length xs"] by (simp add: base64_group encode_group_def add.commute)
qed (simp_all add: base64_rest)

lemma g_base64_encode_eq:
  assumes "length data < 3221225466"
  shows "g_base64_encode data = Some (base64 data)"
proof -
  have fits: "length (base64 data) + 1 \<le> (length data div 3 + 1) * 4 + 1" using length_base64 by simp
  have close: "fst (g_base64_encode_close False (word_of_nat (length r) # r @ replicate (3 - length r) 0)) = base64 r" if "length r \<le> 2" for r
    using short_list_cases [OF that] by (auto simp: g_base64_encode_close_def base64_rest simp del: push_bit_and drop_bit_of_0)
  have rest: "save_rest [0, 0, 0, 0] r = Some (word_of_nat (length r) # r @ replicate (3 - length r) 0)" if "length r \<le> 2" for r
    using short_list_cases [OF that] by (auto simp: save_rest_def store_def numeral_3_eq_3)
  show ?thesis
  proof (cases "length data \<le> 2")
    case True
    have "\<not> word_of_nat (length data) + scast (0 :: u8) > (2 :: u32)" using True by (simp add: word_less_nat_alt unat_of_nat)
    then have "g_base64_encode_step data False 0 [0, 0, 0, 0] = Some ([], 0, word_of_nat (length data) # data @ replicate (3 - length data) 0)"
      using rest [OF True] by (simp add: g_base64_encode_step_def numeral_3_eq_3)
    then show ?thesis using True close [OF True] fits by (simp add: g_base64_encode_def split_beta)
  next
    case False
    obtain out s rest' where loop: "encode_loop False data 0 = (out, s, rest')" by (cases "encode_loop False data 0")
    from encode_loop_base64 [OF this] have r: "base64 data = out @ base64 rest'" "length rest' \<le> 2" by blast+
    have "word_of_nat (length data) + scast (0 :: u8) > (2 :: u32)" using False assms by (simp add: word_less_nat_alt unat_of_nat)
    then have "g_base64_encode_step data False 0 [0, 0, 0, 0] = Some (out, s, word_of_nat (length rest') # rest' @ replicate (3 - length rest') 0)"
      using rest [OF r(2)] loop False by (auto simp: g_base64_encode_step_def)
    then show ?thesis using assms close [OF r(2)] fits r(1) by (simp add: g_base64_encode_def split_beta)
  qed
qed



text \<open>The text has no zero octet, so \<^verbatim>\<open>strlen\<close> finds its end, and it decodes to the data.\<close>

lemma base64_no_zero: "0 \<notin> set (base64 xs)"
proof (induction xs rule: triples_induct)
  case (Three a b c xs)
  then show ?case by (simp add: base64_group encode_group_def base64_alphabet_rank(3) [symmetric] sextets_less del: push_bit_and)
next
  case (One a)
  have "unat (drop_bit 4 0 OR push_bit 4 (a AND 3)) < 64" by (rule sextets_less(2))
  then show ?case using base64_alphabet_rank(3) sextets_less(1) by (auto simp: base64_rest simp del: push_bit_and drop_bit_of_0 or.left_neutral)
qed (simp_all add: base64_rest base64_alphabet_rank(3) [symmetric] del: push_bit_and)

lemma decode_base64: "b64_i d = 0 \<Longrightarrow> fst (decode_loop (base64 xs) d) = xs"
proof (induction xs arbitrary: d rule: triples_induct)
  case (Three a b c xs)
  then obtain d' where "decode_loop (encode_group a b c) d = ([a, b, c], d')" "b64_i d' = 0" by (auto elim: decode_loop_group)
  with Three.IH show ?case by (simp add: base64_group decode_loop_append)
qed (simp_all add: base64_rest decode_loop_tail del: decode_loop.simps(2) push_bit_and drop_bit_of_0)



section \<open>Decoding in place\<close>

lemma take_store: "store m (int j) out = Some m' \<Longrightarrow> m' = take j m @ out @ drop (j + length out) m \<and> j + length out \<le> length m"
  by (auto simp: store_def split: if_splits)

text \<open>The output stays behind the input: each stored octet lies in front of the next character to be read.\<close>

lemma decode_inplace_loop_eq:
  assumes "0 \<le> b64_i d" "b64_i d < 4" "j + nat (b64_i d) \<le> k" "k + n \<le> length m"
  shows "decode_inplace_loop n m k j d =
    (let out = fst (decode_loop (take n (drop k m)) d) in Some (take j m @ out @ drop (j + length out) m, j + length out))"
  using assms
proof (induction n arbitrary: m k j d)
  case 0
  then show ?case by simp
next
  case (Suc n)
  have k: "k < length m" using Suc.prems(4) by simp
  obtain out d' where step: "decode_char (m ! k) d = (out, d')" "0 \<le> b64_i d'" "b64_i d' < 4"
    and out: "out = [] \<and> nat (b64_i d') \<le> Suc (nat (b64_i d)) \<or> length out \<le> 3 \<and> b64_i d = 3 \<and> b64_i d' = 0"
    by (rule decode_char_bound [OF Suc.prems(1,2)])
  then have fit: "j + length out \<le> k" "j + length out + nat (b64_i d') \<le> Suc k" using Suc.prems(3) by auto
  let ?m = "take j m @ out @ drop (j + length out) m"
  have st: "store m (int j) out = Some ?m" using fit k by (simp add: store_def nat_plus_as_int)
  have behind: "drop (Suc k) ?m = drop (Suc k) m" using fit k by (simp add: drop_take min_def)
  have len: "length ?m = length m" using fit k by simp
  have "decode_inplace_loop n ?m (Suc k) (j + length out) d' =
    (let o' = fst (decode_loop (take n (drop (Suc k) ?m)) d')
     in Some (take (j + length out) ?m @ o' @ drop (j + length out + length o') ?m, j + length out + length o'))"
    by (rule Suc.IH [OF step(2,3) fit(2)]) (use Suc.prems(4) len in simp)
  moreover have "take (Suc n) (drop k m) = m ! k # take n (drop (Suc k) m)" using k by (simp add: Cons_nth_drop_Suc [symmetric])
  ultimately show ?case using st step(1) k fit
    by (simp add: load8_def behind split_beta Let_def ac_simps)
qed

text \<open>
  Decoding in place gives what decoding into a separate block gives: \<^verbatim>\<open>g_base64_decode_inplace\<close> stores
  the decoded octets at the front of the text, never overwrites a character that it has still to read, and leaves
  the rest of the text as it was.
\<close>

theorem g_base64_decode_inplace_eq:
  "g_base64_decode_inplace text =
     (let xs = takeWhile (\<lambda>c. c \<noteq> 0) text; out = fst (g_base64_decode_step xs 0 0)
      in Some (if length xs \<le> 1 then None else Some (out @ drop (length out) text, length out)))"
proof -
  let ?xs = "takeWhile (\<lambda>c. c \<noteq> 0) text" and ?d = "\<lparr>b64_v = 0, b64_i = 0, b64_last0 = 0, b64_last1 = 0\<rparr>"
  have "take (length ?xs) text = ?xs" by (simp add: takeWhile_eq_take [symmetric])
  moreover have "length ?xs \<le> length text" by (rule length_takeWhile_le)
  ultimately show ?thesis using decode_inplace_loop_eq [of ?d 0 0 "length ?xs" "text"]
    by (auto simp: g_base64_decode_inplace_def g_base64_decode_step_def split_beta Let_def)
qed

section \<open>The block of the decoder\<close>

text \<open>
  \<^verbatim>\<open>g_base64_decode\<close> never stores outside the block it allocates, whatever the text is; the octets of
  the block behind the result are zero.
\<close>

theorem g_base64_decode_safe:
  "\<exists>block n. g_base64_decode text = Some (block, n) \<and> length block = length (takeWhile (\<lambda>c. c \<noteq> 0) text) div 4 * 3 + 1 \<and>
     n < length block \<and> take n block = fst (g_base64_decode_step (takeWhile (\<lambda>c. c \<noteq> 0) text) 0 0) \<and> (\<forall>c \<in> set (drop n block). c = 0)"
  using g_base64_decode_step_bound [of "takeWhile (\<lambda>c. c \<noteq> 0) text"] by (auto simp: g_base64_decode_eq Let_def)

section \<open>A stale octet\<close>

text \<open>
  The text depends on how the data was cut into pieces: when one octet is left at the end, \<^verbatim>\<open>g_base64_encode_close\<close>
  takes bits of the second saved octet, which an earlier piece left behind, into the second character.
\<close>

theorem g_base64_encode_close_stale:
  "encode_pieces [[0, 0xff], [0, 0]] False 0 [0, 0, 0, 0] \<noteq> g_base64_encode [0, 0xff, 0, 0]"
proof -
  have "encode_pieces [[0, 0xff], [0, 0]] False 0 [0, 0, 0, 0] = Some [65, 80, 56, 65, 65, 80, 61, 61]" by code_simp
  moreover have "base64 [0, 0xff, 0, 0] = [65, 80, 56, 65, 65, 65, 61, 61]" by code_simp
  then have "g_base64_encode [0, 0xff, 0, 0] = Some [65, 80, 56, 65, 65, 65, 61, 61]" by (simp add: g_base64_encode_eq)
  ultimately show ?thesis by simp
qed

end
