(* ===== verification/Erizo_Channel.thy ===== *)
theory Erizo_Channel
  imports Srtp_Forgery Gbase64
begin

text \<open>
  The SRTP channel of the client, \<^verbatim>\<open>sfup-core/SrtpChannel.cpp\<close>: the class that owns one sending and one
  receiving session of the SRTP library, keys them with Base64 texts that the DTLS handshake produced, and passes
  the packets of a transport through them.

  A handle of the library is null, refers to a session, or dangles: \<^verbatim>\<open>srtp_create\<close> stores the handle first and
  releases the session again when a stream cannot be set up. To use a null or a dangling handle is undefined. The
  logging macros of \<^verbatim>\<open>Logger.h\<close> expand to nothing. The library gets the heap block that
  \<^verbatim>\<open>g_base64_decode\<close> returns and nothing behind it: for a text of \<open>n\<close> characters the block has
  \<open>n div 4 * 3 + 1\<close> octets, and keying a session reads 32.
\<close>

section \<open>The class\<close>

datatype srtp_t = null_session | live_session srtp_ctx_t | dangling_session

datatype TransmissionType = SENDING | RECEIVING

record SrtpChannel =
  active :: bool
  send_session :: srtp_t
  receive_session :: srtp_t

text \<open>The constructor, with the static flag \<^verbatim>\<open>initialized\<close>. Without a result the process has ended in \<^verbatim>\<open>exit\<close>.\<close>

definition SrtpChannel_new :: "bool \<Rightarrow> srtp_env \<Rightarrow> (SrtpChannel option \<times> bool \<times> srtp_env) option" where
  "SrtpChannel_new initialized e =
     (let ch = \<lparr>active = False, send_session = null_session, receive_session = null_session\<rparr> in
      if initialized then Some (Some ch, initialized, e)
      else do {
        (res, e) \<leftarrow> srtp_init e;
        case res of exits _ \<Rightarrow> Some (None, False, e) | returns _ \<Rightarrow> Some (Some ch, True, e)
      })"

definition release_session :: "srtp_t \<Rightarrow> srtp_env \<Rightarrow> (srtp_t \<times> srtp_env) option" where
  "release_session handle e =
     (case handle of null_session \<Rightarrow> Some (null_session, e)
      | live_session ctx \<Rightarrow> do { (_, e) \<leftarrow> srtp_dealloc ctx e; Some (null_session, e) }
      | dangling_session \<Rightarrow> None)"

definition SrtpChannel_delete :: "SrtpChannel \<Rightarrow> srtp_env \<Rightarrow> (SrtpChannel \<times> srtp_env) option" where
  "SrtpChannel_delete ch e = do {
     let ch = ch\<lparr>active := False\<rparr>;
     (s, e) \<leftarrow> release_session (send_session ch) e;
     let ch = ch\<lparr>send_session := s\<rparr>;
     (r, e) \<leftarrow> release_session (receive_session ch) e;
     Some (ch\<lparr>receive_session := r\<rparr>, e)
   }"

definition zero_policy :: srtp_policy_t where
  "zero_policy =
     (let none = \<lparr>cp_cipher_type = 0, cp_cipher_key_len = 0, cp_auth_type = 0, cp_auth_key_len = 0, cp_auth_tag_len = 0,
        cp_sec_serv = sec_serv_none\<rparr>
      in \<lparr>p_ssrc_type = ssrc_undefined, p_ssrc_value = 0, p_rtp = none, p_rtcp = none, p_key = None, p_ekt = None,
        p_window_size = 0, p_allow_repeat_tx = 0\<rparr>)"

definition session_policy :: "TransmissionType \<Rightarrow> octets \<Rightarrow> srtp_policy_t" where
  "session_policy ty akey =
     zero_policy\<lparr>p_rtp := crypto_policy_set_aes_cm_128_hmac_sha1_80 (p_rtp zero_policy),
       p_rtcp := crypto_policy_set_aes_cm_128_hmac_sha1_80 (p_rtcp zero_policy),
       p_ssrc_type := (if ty = SENDING then ssrc_any_outbound else ssrc_any_inbound),
       p_ssrc_value := 0, p_window_size := 1024, p_allow_repeat_tx := 1, p_key := Some akey\<rparr>"

text \<open>\<open>old\<close> is the handle before the call; it stays when the library cannot allocate the session itself.\<close>

definition configureSrtpSession :: "srtp_t \<Rightarrow> octets \<Rightarrow> TransmissionType \<Rightarrow> srtp_env \<Rightarrow> (bool \<times> srtp_t \<times> srtp_env) option" where
  "configureSrtpSession old key ty e = do {
     (akey, len) \<leftarrow> g_base64_decode key;
     (res, made, e') \<leftarrow> srtp_create [session_policy ty akey] e;
     Some (res = err_status_ok,
       case made of Some ctx \<Rightarrow> live_session ctx | None \<Rightarrow> if session_mem e (env_allocs e) then dangling_session else old, e')
   }"

definition setRtpParams :: "SrtpChannel \<Rightarrow> octets \<Rightarrow> octets \<Rightarrow> srtp_env \<Rightarrow> (bool \<times> SrtpChannel \<times> srtp_env) option" where
  "setRtpParams ch sendingKey receivingKey e = do {
     (ok, s, e) \<leftarrow> configureSrtpSession (send_session ch) sendingKey SENDING e;
     let ch = ch\<lparr>send_session := s\<rparr>;
     if \<not> ok then Some (False, ch, e)
     else do {
       (ok, r, e) \<leftarrow> configureSrtpSession (receive_session ch) receivingKey RECEIVING e;
       let ch = ch\<lparr>receive_session := r\<rparr>;
       if ok then Some (True, ch\<lparr>active := True\<rparr>, e) else Some (False, ch, e)
     }
   }"

definition setRtcpParams :: "octets \<Rightarrow> octets \<Rightarrow> bool" where
  "setRtcpParams sendingKey receivingKey = False"

definition protectRtp :: "SrtpChannel \<Rightarrow> octets \<Rightarrow> int \<Rightarrow> srtp_env \<Rightarrow> (int \<times> SrtpChannel \<times> octets \<times> int \<times> srtp_env) option" where
  "protectRtp ch buffer len e =
     (if \<not> active ch then Some (0, ch, buffer, len, e)
      else case send_session ch of
        live_session ctx \<Rightarrow> do {
          (val, ctx, buffer, len, e) \<leftarrow> srtp_protect ctx buffer len e;
          Some (if val = err_status_ok then 0 else -1, ch\<lparr>send_session := live_session ctx\<rparr>, buffer, len, e)
        }
      | _ \<Rightarrow> None)"

definition unprotectRtp :: "SrtpChannel \<Rightarrow> octets \<Rightarrow> int \<Rightarrow> srtp_env \<Rightarrow> (int \<times> SrtpChannel \<times> octets \<times> int \<times> srtp_env) option" where
  "unprotectRtp ch buffer len e =
     (if \<not> active ch then Some (0, ch, buffer, len, e)
      else case receive_session ch of
        live_session ctx \<Rightarrow> do {
          (val, ctx, buffer, len, e) \<leftarrow> srtp_unprotect ctx buffer len e;
          Some (if val = err_status_ok then 0 else -1, ch\<lparr>receive_session := live_session ctx\<rparr>, buffer, len, e)
        }
      | _ \<Rightarrow> None)"

definition protectRtcp :: "SrtpChannel \<Rightarrow> octets \<Rightarrow> int \<Rightarrow> srtp_env \<Rightarrow> (int \<times> SrtpChannel \<times> octets \<times> int \<times> srtp_env) option" where
  "protectRtcp ch buffer len e =
     (case send_session ch of
        live_session ctx \<Rightarrow> do {
          (val, ctx, buffer, len, e) \<leftarrow> srtp_protect_rtcp ctx buffer len e;
          Some (if val = err_status_ok then 0 else -1, ch\<lparr>send_session := live_session ctx\<rparr>, buffer, len, e)
        }
      | _ \<Rightarrow> None)"

definition unprotectRtcp :: "SrtpChannel \<Rightarrow> octets \<Rightarrow> int \<Rightarrow> srtp_env \<Rightarrow> (int \<times> SrtpChannel \<times> octets \<times> int \<times> srtp_env) option" where
  "unprotectRtcp ch buffer len e =
     (case receive_session ch of
        live_session ctx \<Rightarrow> do {
          (val, ctx, buffer, len, e) \<leftarrow> srtp_unprotect_rtcp ctx buffer len e;
          Some (if val = err_status_ok then 0 else -1, ch\<lparr>receive_session := live_session ctx\<rparr>, buffer, len, e)
        }
      | _ \<Rightarrow> None)"

section \<open>Two channels that talk to each other\<close>

text \<open>
  A packet is protected in a buffer with room behind it and handed to the peer as it is then; the result is what the
  peer makes of it, or nothing when one of the two channels answers \<open>-1\<close>.
\<close>

type_synonym party = "SrtpChannel \<times> srtp_env"

fun transmit :: "packet \<Rightarrow> party \<Rightarrow> party \<Rightarrow> (octets option \<times> party \<times> party) option" where
  "transmit (rtp_packet p) (a, e) (b, f) = do {
     (val, a, buffer, len, e) \<leftarrow> protectRtp a (p @ replicate 12 0) (int (length p)) e;
     if val \<noteq> 0 then Some (None, (a, e), (b, f))
     else do {
       (val, b, buffer, len, f) \<leftarrow> unprotectRtp b (take (nat len) buffer) len f;
       Some (if val = 0 then Some (take (nat len) buffer) else None, (a, e), (b, f))
     }
   }"
| "transmit (rtcp_packet p) (a, e) (b, f) = do {
     (val, a, buffer, len, e) \<leftarrow> protectRtcp a (p @ replicate 16 0) (int (length p)) e;
     if val \<noteq> 0 then Some (None, (a, e), (b, f))
     else do {
       (val, b, buffer, len, f) \<leftarrow> unprotectRtcp b (take (nat len) buffer) len f;
       Some (if val = 0 then Some (take (nat len) buffer) else None, (a, e), (b, f))
     }
   }"

text \<open>A conversation: each entry says who sends, \<open>True\<close> for the first party.\<close>

fun conversation :: "party \<Rightarrow> party \<Rightarrow> (bool \<times> packet) list \<Rightarrow> (octets option list \<times> party \<times> party) option" where
  "conversation a b [] = Some ([], a, b)"
| "conversation a b ((True, x) # xs) = do { (d, a, b) \<leftarrow> transmit x a b; map_option (apfst ((#) d)) (conversation a b xs) }"
| "conversation a b ((False, x) # xs) = do { (d, b, a) \<leftarrow> transmit x b a; map_option (apfst ((#) d)) (conversation a b xs) }"

text \<open>What the two directions owe their users: the replay databases of the sources alone decide.\<close>

fun deliver_spec :: "(u32 \<Rightarrow> rdbx_t) \<Rightarrow> packet \<Rightarrow> (octets option \<times> (u32 \<Rightarrow> rdbx_t)) option" where
  "deliver_spec g (rtp_packet p) = do {
     s \<leftarrow> hdr_ssrc p;
     (st, r) \<leftarrow> rtp_replay 1 (g s) p;
     Some (if st = err_status_ok then Some p else None, g(s := r))
   }"
| "deliver_spec g (rtcp_packet p) = Some (Some p, g)"

fun conversation_spec :: "(u32 \<Rightarrow> rdbx_t) \<Rightarrow> (u32 \<Rightarrow> rdbx_t) \<Rightarrow> (bool \<times> packet) list \<Rightarrow> octets option list option" where
  "conversation_spec g h [] = Some []"
| "conversation_spec g h ((True, x) # xs) = do { (d, g) \<leftarrow> deliver_spec g x; map_option ((#) d) (conversation_spec g h xs) }"
| "conversation_spec g h ((False, x) # xs) = do { (d, h) \<leftarrow> deliver_spec h x; map_option ((#) d) (conversation_spec g h xs) }"

section \<open>Two sessions in one process\<close>

text \<open>The sessions of a channel share the store. They stay out of each other's way because their objects are apart.\<close>

fun addresses_of :: "store_rest \<Rightarrow> addresses" where
  "addresses_of (cr, ar, ch, ah, lh, ob) = ob"

fun disjoint_objects :: "addresses \<Rightarrow> addresses \<Rightarrow> bool" where
  "disjoint_objects (c, d, a, b, l) (c', d', a', b', l') \<longleftrightarrow> {c, d} \<inter> {c', d'} = {} \<and> {a, b} \<inter> {a', b'} = {} \<and> l \<noteq> l'"

lemma disjoint_objects_sym: "disjoint_objects x y = disjoint_objects y x"
  by (cases x; cases y) auto

type_synonym store_base =
  "(cipher_type_t \<Rightarrow> int) \<times> (auth_type_t \<Rightarrow> int) \<times> (nat \<rightharpoonup> cipher_t) \<times> (nat \<rightharpoonup> auth_t) \<times> (nat \<rightharpoonup> key_limit_ctx_t)"

fun without :: "store_rest \<Rightarrow> addresses \<Rightarrow> store_base" where
  "without (cr, ar, ch, ah, lh, ob) (c, d, a, b, l) = (cr, ar, ch(c := None, d := None), ah(a := None, b := None), lh(l := None))"

text \<open>\<open>K\<close> is what the store holds besides the objects of both.\<close>

definition apart :: "store_base \<Rightarrow> store_rest \<Rightarrow> store_rest \<Rightarrow> bool" where
  "apart K B C \<longleftrightarrow> disjoint_objects (addresses_of B) (addresses_of C) \<and> without B (addresses_of C) = K \<and> without C (addresses_of B) = K"

lemma apart_sym: "apart K B C = apart K C B"
  unfolding apart_def using disjoint_objects_sym by blast

lemma without_rest_of:
  "without (rest_of e t) (objects_of u) = (env_cipher_refs e, env_auth_refs e,
     (cipher_heap e)(rtp_cipher t := None, rtcp_cipher t := None, rtp_cipher u := None, rtcp_cipher u := None),
     (auth_heap e)(rtp_auth t := None, rtcp_auth t := None, rtp_auth u := None, rtcp_auth u := None),
     (limit_heap e)(the (limit t) := None, the (limit u) := None))"
  by (simp add: rest_of_def objects_of_def)

lemma without_commute: "without (rest_of e t) (objects_of u) = without (rest_of e u) (objects_of t)"
  unfolding without_rest_of by (auto simp: fun_eq_iff)

lemma addresses_of_rest_of [simp]: "addresses_of (rest_of e t) = objects_of t"
  by (simp add: rest_of_def)

lemma fun_upd2_eqD: "f(x := z, y := z) = g(x := z, y := z) \<Longrightarrow> a \<notin> {x, y} \<Longrightarrow> f a = g a"
  by (metis fun_upd_other insertCI)

text \<open>An endpoint looks only at its own objects, so it survives what happens elsewhere in the store.\<close>

lemma endpoint_elsewhere:
  assumes "endpoint C su cu k n e t" and "env_ready e'"
    and "cipher_heap e' (rtp_cipher t) = cipher_heap e (rtp_cipher t)" "cipher_heap e' (rtcp_cipher t) = cipher_heap e (rtcp_cipher t)"
    and "auth_heap e' (rtp_auth t) = auth_heap e (rtp_auth t)" "auth_heap e' (rtcp_auth t) = auth_heap e (rtcp_auth t)"
    and "limit_heap e' (the (limit t)) = limit_heap e (the (limit t))"
  shows "endpoint (rest_of e' t) su cu k n e' t"
  using assms by (auto simp: endpoint_def suite_keyed_def unit_keyed_def)

lemma session_elsewhere:
  assumes "session C su cu k n e r" and "env_ready e'" and "addresses_of C = (c, d, a, b, l)"
    and "cipher_heap e' c = cipher_heap e c" "cipher_heap e' d = cipher_heap e d"
    and "auth_heap e' a = auth_heap e a" "auth_heap e' b = auth_heap e b" and "limit_heap e' l = limit_heap e l"
  obtains t where "session (rest_of e' t) su cu k n e' r" and "rest_of e t = C" and "objects_of t = addresses_of C"
proof -
  from assms(1) obtain t where t: "stream_template r = Some t" "endpoint C su cu k n e t" "\<forall>x\<in>set (stream_list r). clone_of t x"
    by (auto simp: session_def)
  have C: "rest_of e t = C" using t(2) by (simp add: endpoint_def)
  then have ob: "objects_of t = addresses_of C" by (metis addresses_of_rest_of)
  have "endpoint (rest_of e' t) su cu k n e' t"
    by (rule endpoint_elsewhere [OF t(2) assms(2)]) (use ob assms(3-) in \<open>simp_all add: objects_of_def\<close>)
  then have "session (rest_of e' t) su cu k n e' r" using t(1,3) by (auto simp: session_def)
  then show ?thesis using C ob by (rule that)
qed

text \<open>What one session does leaves the other alone.\<close>

lemma session_beside:
  assumes "session B su cu k n e s" and "session B su' cu' k' n' e' s'" and r: "session C su2 cu2 k2 n2 e r" and "apart K B C"
  obtains C' where "session C' su2 cu2 k2 n2 e' r" and "apart K B C'"
proof -
  from assms(1) obtain t where t: "endpoint B su cu k n e t" by (auto simp: session_def)
  from assms(2) obtain t' where t': "endpoint B su' cu' k' n' e' t'" by (auto simp: session_def)
  have B: "rest_of e t = B" "rest_of e' t' = B" "env_ready e'" using t t' by (simp_all add: endpoint_def)
  then have eq: "rest_of e t = rest_of e' t'" by simp
  have ob: "objects_of t = objects_of t'" "objects_of t = addresses_of B" using B addresses_of_rest_of by metis+
  obtain c d a b l where C: "addresses_of C = (c, d, a, b, l)" by (cases "addresses_of C")
  have out: "c \<notin> {rtp_cipher t, rtcp_cipher t}" "d \<notin> {rtp_cipher t, rtcp_cipher t}" "a \<notin> {rtp_auth t, rtcp_auth t}" "b \<notin> {rtp_auth t, rtcp_auth t}"
      "l \<noteq> the (limit t)"
    using assms(4) C ob(2) [symmetric] by (auto simp: apart_def objects_of_def)
  have same: "rtp_cipher t' = rtp_cipher t" "rtcp_cipher t' = rtcp_cipher t" "rtp_auth t' = rtp_auth t" "rtcp_auth t' = rtcp_auth t"
      "the (limit t') = the (limit t)"
    using ob(1) by (simp_all add: objects_of_def)
  have heaps: "(cipher_heap e)(rtp_cipher t := None, rtcp_cipher t := None) = (cipher_heap e')(rtp_cipher t := None, rtcp_cipher t := None)"
    "(auth_heap e)(rtp_auth t := None, rtcp_auth t := None) = (auth_heap e')(rtp_auth t := None, rtcp_auth t := None)"
    "(limit_heap e)(the (limit t) := None) = (limit_heap e')(the (limit t) := None)"
    using eq unfolding rest_of_def same prod.inject by blast+
  have "cipher_heap e' c = cipher_heap e c" "cipher_heap e' d = cipher_heap e d" "auth_heap e' a = auth_heap e a" "auth_heap e' b = auth_heap e b"
    using fun_upd2_eqD [OF heaps(1)] fun_upd2_eqD [OF heaps(2)] out by simp_all
  moreover have "limit_heap e' l = limit_heap e l" using heaps(3) out(5) by (metis fun_upd_other)
  ultimately obtain u where u: "session (rest_of e' u) su2 cu2 k2 n2 e' r" "rest_of e u = C" "objects_of u = addresses_of C"
    using session_elsewhere [OF r B(3) C] by blast
  have "without (rest_of e' u) (objects_of t') = without B (objects_of u)" using B(2) without_commute by metis
  then have "apart K B (rest_of e' u)" using assms(4) ob u(3) by (simp add: apart_def)
  with u(1) show ?thesis by (rule that)
qed

text \<open>A session that is created takes new addresses.\<close>

lemma session_older:
  assumes "session B su cu k n e s" and "session C su2 cu2 k2 n2 e' r" and "C = grown p e ob"
  obtains B' where "session B' su cu k n e' s" and "apart (without C (addresses_of B)) B' C"
proof -
  from assms(1) obtain t where t: "endpoint B su cu k n e t" by (auto simp: session_def)
  from assms(2) obtain t' where t': "endpoint C su2 cu2 k2 n2 e' t'" by (auto simp: session_def)
  have B: "rest_of e t = B" "rest_of e' t' = C" "env_ready e'" using t t' by (simp_all add: endpoint_def)
  then have ob: "objects_of t = addresses_of B" "objects_of t' = addresses_of C" using addresses_of_rest_of by metis+
  have heaps: "(cipher_heap e')(rtp_cipher t' := None, rtcp_cipher t' := None) = cipher_heap e"
    "(auth_heap e')(rtp_auth t' := None, rtcp_auth t' := None) = auth_heap e" "(limit_heap e')(the (limit t') := None) = limit_heap e"
    using B(2) assms(3) by (simp_all add: rest_of_def grown_def)
  obtain x y z w v where used: "cipher_heap e (rtp_cipher t) = Some x" "cipher_heap e (rtcp_cipher t) = Some y"
      "auth_heap e (rtp_auth t) = Some z" "auth_heap e (rtcp_auth t) = Some w" "limit_heap e (the (limit t)) = Some v"
    using t by (auto simp: endpoint_def suite_keyed_def unit_keyed_def)
  have new: "cipher_heap e (rtp_cipher t') = None" "cipher_heap e (rtcp_cipher t') = None" "auth_heap e (rtp_auth t') = None"
      "auth_heap e (rtcp_auth t') = None" "limit_heap e (the (limit t')) = None"
    unfolding heaps [symmetric] by simp_all
  have dis: "disjoint_objects (objects_of t) (objects_of t')" using used new by (auto simp: objects_of_def)
  have kept: "cipher_heap e' c = cipher_heap e c" if "cipher_heap e c \<noteq> None" for c using heaps(1) that by (metis fun_upd_apply)
  have kept': "auth_heap e' c = auth_heap e c" if "auth_heap e c \<noteq> None" for c using heaps(2) that by (metis fun_upd_apply)
  have kept'': "limit_heap e' c = limit_heap e c" if "limit_heap e c \<noteq> None" for c using heaps(3) that by (metis fun_upd_apply)
  have "addresses_of B = (rtp_cipher t, rtcp_cipher t, rtp_auth t, rtcp_auth t, the (limit t))" using ob(1) by (simp add: objects_of_def)
  from session_elsewhere [OF assms(1) B(3) this] obtain u where u: "session (rest_of e' u) su cu k n e' s" "objects_of u = addresses_of B"
    using kept kept' kept'' used by (metis option.distinct(1))
  have "without (rest_of e' u) (objects_of t') = without C (objects_of u)" using B(2) without_commute by metis
  then have "apart (without C (addresses_of B)) (rest_of e' u) C" using dis ob u(2) by (simp add: apart_def)
  with u(1) show ?thesis by (rule that)
qed

section \<open>The invariant of a conversation\<close>

text \<open>
  The channels \<open>a\<close> in the process \<open>e\<close> and \<open>b\<close> in the process \<open>f\<close>: in both directions sender and receiver are in
  step, \<open>g\<close> and \<open>h\<close> are the replay databases, and in each process the two sessions are apart.
\<close>

definition duplex :: "store_base \<Rightarrow> store_base \<Rightarrow> suite \<times> suite \<Rightarrow> suite \<times> suite \<Rightarrow> nat \<Rightarrow> nat \<Rightarrow> party \<Rightarrow> party \<Rightarrow> (u32 \<Rightarrow> rdbx_t) \<Rightarrow> (u32 \<Rightarrow> rdbx_t) \<Rightarrow> bool" where
  "duplex K L su su' k n a b g h \<longleftrightarrow> active (fst a) \<and> active (fst b) \<and>
     (\<exists>s r s' r' B C B' C'. send_session (fst a) = live_session s \<and> receive_session (fst b) = live_session r \<and>
        send_session (fst b) = live_session s' \<and> receive_session (fst a) = live_session r' \<and>
        in_step B C (fst su) (snd su) k n s (snd a) r (snd b) g \<and> in_step B' C' (fst su') (snd su') k n s' (snd b) r' (snd a) h \<and>
        apart K B C' \<and> apart L B' C)"

lemma duplexI:
  assumes "active ca" "active cb" "send_session ca = live_session s" "receive_session cb = live_session r"
    "send_session cb = live_session s'" "receive_session ca = live_session r'"
    "in_step B C (fst su) (snd su) k n s e r f g" "in_step B' C' (fst su') (snd su') k n s' f r' e h" "apart K B C'" "apart L B' C"
  shows "duplex K L su su' k n (ca, e) (cb, f) g h"
  unfolding duplex_def fst_conv snd_conv using assms by blast

lemma duplex_sym: "duplex K L su su' k n a b g h = duplex L K su' su k n b a h g"
  unfolding duplex_def by blast

text \<open>The other direction does not notice.\<close>

lemma in_step_beside:
  assumes "in_step B C su cu k n s e r f g" and "in_step B C su cu k m t e' q f' g'"
    and "in_step B' C' su' cu' k n s' f r' e h" and "apart K B C'" and "apart L B' C" and "m \<le> n"
  obtains B'' C'' where "in_step B'' C'' su' cu' k m s' f' r' e' h" and "apart K B C''" and "apart L B'' C"
proof -
  have ses: "session B su cu k n e s" "session B su cu k m e' t" "session C su cu k n f r" "session C su cu k m f' q"
    "session B' su' cu' k n f s'" "session C' su' cu' k n e r'" using assms(1-3) by (simp_all add: in_step_def)
  obtain C'' where C: "session C'' su' cu' k n e' r'" "apart K B C''"
    by (rule session_beside [OF ses(1,2,6) assms(4)])
  have "apart L C B'" using assms(5) apart_sym by blast
  then obtain B'' where B: "session B'' su' cu' k n f' s'" "apart L C B''"
    by (rule session_beside [OF ses(3,4,5)])
  have "in_step B'' C'' su' cu' k n s' f' r' e' h" using assms(3) B(1) C(1) by (simp add: in_step_def)
  then have "in_step B'' C'' su' cu' k m s' f' r' e' h" using assms(6) by (rule in_step_less)
  then show ?thesis using that C(2) B(2) apart_sym by blast
qed

text \<open>One packet of the first party.\<close>

lemma transmit_step:
  assumes "duplex K L su su' k (Suc n) a b g h" and "su_repeat (fst su) = 1" and "packet_well x" and "deliver_spec g x = Some (d, g')"
  shows "\<exists>a' b'. transmit x a b = Some (d, a', b') \<and> duplex K L su su' k n a' b' g' h"
proof -
  from assms(1) obtain s r s' r' B C B' C' where D: "active (fst a)" "active (fst b)" "send_session (fst a) = live_session s"
      "receive_session (fst b) = live_session r" "send_session (fst b) = live_session s'" "receive_session (fst a) = live_session r'"
      "in_step B C (fst su) (snd su) k (Suc n) s (snd a) r (snd b) g"
      "in_step B' C' (fst su') (snd su') k (Suc n) s' (snd b) r' (snd a) h" "apart K B C'" "apart L B' C"
    by (auto simp: duplex_def)
  obtain dl t e q f where run: "in_step B C (fst su) (snd su) k n t e q f g'" "channel s (snd a) r (snd b) [x] = Some ([dl], (t, e), (q, f))"
    "d = (case dl of received st p \<Rightarrow> Some p | refused _ \<Rightarrow> None)" "\<forall>st p. dl = received st p \<longrightarrow> st = err_status_ok"
  proof (cases x)
    case (rtp_packet p)
    with assms(3,4) obtain y st z where p: "rtp_well p" "hdr_ssrc p = Some y" "rtp_replay (su_repeat (fst su)) (g y) p = Some (st, z)"
        "d = (if st = err_status_ok then Some p else None)" "g' = g(y := z)"
      using assms(2) by (auto simp: bind_eq_Some_conv)
    from send_receive_rtp [OF D(7) p(1-3), of "[]"] show ?thesis using that p(4,5) rtp_packet by (auto split: if_splits)
  next
    case (rtcp_packet p)
    with assms(3,4) have p: "rtcp_well p" "d = Some p" "g' = g" by simp_all
    from send_receive_rtcp [OF D(7) p(1), of "[]"] show ?thesis using that p(2,3) rtcp_packet by auto
  qed
  obtain B'' C'' where other: "in_step B'' C'' (fst su') (snd su') k n s' f r' e h" "apart K B C''" "apart L B'' C"
    by (rule in_step_beside [OF D(7) run(1) D(8-10)]) simp
  let ?a = "((fst a)\<lparr>send_session := live_session t\<rparr>, e)" and ?b = "((fst b)\<lparr>receive_session := live_session q\<rparr>, f)"
  have idem: "receive_session c = y \<Longrightarrow> c\<lparr>receive_session := y\<rparr> = c" for c :: SrtpChannel and y by (cases c) simp
  obtain ca ea cb eb where ab: "a = (ca, ea)" "b = (cb, eb)" by (cases a; cases b)
  then have "transmit x a b = Some (d, ?a, ?b)"
    using run(2,3,4) D(1-6) by (cases x)
      (auto simp: protectRtp_def unprotectRtp_def protectRtcp_def unprotectRtcp_def bind_eq_Some_conv idem split: if_splits)
  moreover have "duplex K L su su' k n ?a ?b g' h" 
    by (rule duplexI [OF _ _ _ _ _ _ run(1) other(1) other(2,3)])
      (use D(1,2,5,6) in simp_all)
  ultimately show ?thesis by blast
qed

lemma conversation_meets_spec:
  assumes "duplex K L su su' k n a b g h" and "su_repeat (fst su) = 1" "su_repeat (fst su') = 1" and "length xs \<le> n"
    and "list_all (\<lambda>(_, x). packet_well x) xs" and "conversation_spec g h xs = Some ds"
  shows "\<exists>a' b' g' h'. conversation a b xs = Some (ds, a', b') \<and> duplex K L su su' k 0 a' b' g' h'"
  using assms
proof (induction xs arbitrary: n a b g h ds)
  case Nil
  then have "duplex K L su su' k 0 a b g h" unfolding duplex_def using in_step_less by (metis le0)
  with Nil show ?case by auto
next
  case (Cons y xs)
  obtain who x where y: "y = (who, x)" by (cases y)
  from Cons.prems(4) obtain m where m: "n = Suc m" "length xs \<le> m" by (cases n) auto
  have x: "packet_well x" "list_all (\<lambda>(_, x). packet_well x) xs" using Cons.prems(5) y by simp_all
  show ?case
  proof (cases who)
    case True
    with Cons.prems(6) y obtain d g' ds' where d: "deliver_spec g x = Some (d, g')" "conversation_spec g' h xs = Some ds'" "ds = d # ds'"
      by (auto simp: bind_eq_Some_conv)
    from transmit_step [OF Cons.prems(1) [unfolded m(1)] Cons.prems(2) x(1) d(1)] obtain a' b' where
      t: "transmit x a b = Some (d, a', b')" "duplex K L su su' k m a' b' g' h" by blast
    from Cons.IH [OF t(2) Cons.prems(2,3) m(2) x(2) d(2)] t(1) d(3) y True show ?thesis by auto
  next
    case False
    with Cons.prems(6) y obtain d h' ds' where d: "deliver_spec h x = Some (d, h')" "conversation_spec g h' xs = Some ds'" "ds = d # ds'"
      by (auto simp: bind_eq_Some_conv)
    from transmit_step [OF Cons.prems(1) [unfolded m(1), THEN duplex_sym [THEN iffD1]] Cons.prems(3) x(1) d(1)] obtain b' a' where
      t: "transmit x b a = Some (d, b', a')" "duplex K L su su' k m a' b' g h'" using duplex_sym by blast
    from Cons.IH [OF t(2) Cons.prems(2,3) m(2) x(2) d(2)] t(1) d(3) y False show ?thesis by auto
  qed
qed

section \<open>Keying a channel\<close>

text \<open>
  The texts of a master key with its salt that the channel can use. Thirty octets take forty characters, but the
  block of a text of fewer than 44 characters has at most 31 octets (\<open>configureSrtpSession_overread\<close>).
\<close>

definition key_text :: "octets \<Rightarrow> bool" where
  "key_text key \<longleftrightarrow> 44 \<le> length key \<and> 0 \<notin> set key"

definition key_block :: "octets \<Rightarrow> octets" where
  "key_block key = (let out = fst (g_base64_decode_step key 0 0) in out @ replicate (length key div 4 * 3 + 1 - length out) 0)"

lemma g_base64_decode_key:
  assumes "0 \<notin> set key"
  obtains n where "g_base64_decode key = Some (key_block key, n)" and "length (key_block key) = length key div 4 * 3 + 1"
proof -
  have whole: "takeWhile (\<lambda>c. c \<noteq> 0) key = key" using assms by (auto simp: takeWhile_eq_all_conv)
  show ?thesis
    by (intro that [of "length (fst (g_base64_decode_step key 0 0))"]; unfold g_base64_decode_eq whole key_block_def Let_def)
      (use g_base64_decode_step_bound [of key] in simp_all)
qed

definition default_suite :: crypto_policy_t where
  "default_suite = crypto_policy_set_aes_cm_128_hmac_sha1_80 (p_rtp zero_policy)"

lemma session_policy_sels:
  "p_rtp (session_policy ty key) = default_suite" "p_rtcp (session_policy ty key) = default_suite" "p_key (session_policy ty key) = Some key"
  "p_window_size (session_policy ty key) = 1024" "p_allow_repeat_tx (session_policy ty key) = 1" "p_ekt (session_policy ty key) = None"
  "p_ssrc_type (session_policy ty key) = (if ty = SENDING then ssrc_any_outbound else ssrc_any_inbound)"
  by (simp_all add: session_policy_def zero_policy_def default_suite_def Let_def)

lemma default_suite_sels:
  "cp_cipher_type default_suite = AES_ICM" "cp_cipher_key_len default_suite = 30" "cp_auth_type default_suite = HMAC_SHA1"
  "cp_auth_key_len default_suite = 20" "cp_auth_tag_len default_suite = 10" "cp_sec_serv default_suite = sec_serv_conf_and_auth"
  by (simp_all add: default_suite_def zero_policy_def crypto_policy_set_aes_cm_128_hmac_sha1_80_def crypto_policy_set_rtp_default_def Let_def)

lemma session_policy_ok:
  assumes "32 \<le> length key"
  shows "channel_policy (session_policy ty key)" and "policy_window (p_window_size (session_policy ty key)) = 32"
  using assms
  by (simp_all add: channel_policy_def stream_policy_ok_def session_policy_sels default_suite_sels policy_ok_def window_ok_def
      AES_ICM_def HMAC_SHA1_def master_key_len_def serv_auth_def policy_window_def window_words_def)

text \<open>The keys of a direction.\<close>

definition channel_suites :: "octets \<Rightarrow> suite \<times> suite" where
  "channel_suites key = (rtp_suite (session_policy SENDING (key_block key)), rtcp_suite (session_policy SENDING (key_block key)))"

lemma suites_of_block:
  "rtp_suite (session_policy ty blk) = rtp_suite (session_policy SENDING blk)"
  "rtcp_suite (session_policy ty blk) = rtcp_suite (session_policy SENDING blk)"
  by (simp_all add: rtp_suite_def rtcp_suite_def policy_master_def session_policy_sels cong: auth_type_t.case_cong)

lemma channel_suites_repeat [simp]: "su_repeat (fst (channel_suites key)) = 1"
  by (simp add: channel_suites_def rtp_suite_def session_policy_sels)

abbreviation full_session :: "store_rest \<Rightarrow> octets \<Rightarrow> srtp_env \<Rightarrow> srtp_ctx_t \<Rightarrow> bool" where
  "full_session B key e ctx \<equiv> session B (fst (channel_suites key)) (snd (channel_suites key)) 32 (2 ^ 48 - 2) e ctx \<and> stream_list ctx = []"

lemma configureSrtpSession_ok:
  assumes "env_ready e" and "heap_fresh e" and "key_text key"
  obtains ctx e' ob where "configureSrtpSession old key ty e = Some (True, live_session ctx, e')"
    and "full_session (grown (session_policy ty (key_block key)) e ob) key e' ctx" and "env_ready e'" and "heap_fresh e'"
proof -
  let ?p = "session_policy ty (key_block key)"
  obtain n where dec: "g_base64_decode key = Some (key_block key, n)" "length (key_block key) = length key div 4 * 3 + 1"
    using g_base64_decode_key assms(3) unfolding key_text_def by blast
  have "11 \<le> length key div 4" using assms(3) div_le_mono [of 44 "length key" 4] by (simp add: key_text_def)
  then have "32 \<le> length (key_block key)" using dec(2) by linarith
  note pol = session_policy_ok [OF this]
  have ty: "p_ssrc_type ?p = ssrc_any_outbound \<or> p_ssrc_type ?p = ssrc_any_inbound" by (simp add: session_policy_sels)
  obtain ctx e' B where C: "srtp_create [?p] e = Some (err_status_ok, Some ctx, e')"
    "session B (rtp_suite ?p) (rtcp_suite ?p) (policy_window (p_window_size ?p)) (2 ^ 48 - 2) e' ctx" "stream_list ctx = []"
    "heap_fresh e \<longrightarrow> heap_fresh e' \<and> (\<exists>ob. B = grown ?p e ob)"
    by (rule srtp_create_ok [OF assms(1) pol(1) ty])
  then obtain ob where ob: "heap_fresh e'" "B = grown ?p e ob" using assms(2) by blast
  have "full_session (grown ?p e ob) key e' ctx"
    using C(2,3) unfolding ob(2) pol(2) suites_of_block [of ty] channel_suites_def by simp
  moreover have "env_ready e'" using C(2) by (auto simp: session_def endpoint_def)
  ultimately show ?thesis using dec(1) C(1) ob(1) by (intro that) (simp_all add: configureSrtpSession_def)
qed

text \<open>The store of a process besides the sessions of its channel, with the four ciphers and four codes counted.\<close>

definition keyed_base :: "srtp_env \<Rightarrow> store_base" where
  "keyed_base e = (count_up aes_icm (count_up aes_icm (count_up aes_icm (count_up aes_icm (env_cipher_refs e)))),
     count_up hmac (count_up hmac (count_up hmac (count_up hmac (env_auth_refs e)))), cipher_heap e, auth_heap e, limit_heap e)"

lemma setRtpParams_ok:
  assumes "env_ready e" and "heap_fresh e" and "key_text ks" and "key_text kr"
  obtains ch s r e' B C where "setRtpParams ch0 ks kr e = Some (True, ch, e')" and "active ch"
    and "send_session ch = live_session s" and "receive_session ch = live_session r"
    and "full_session B ks e' s" and "full_session C kr e' r"
    and "apart (keyed_base e) B C"
proof -
  let ?p = "\<lambda>ty key. session_policy ty (key_block key)"
  obtain s e1 ob where S: "configureSrtpSession (send_session ch0) ks SENDING e = Some (True, live_session s, e1)"
    "full_session (grown (?p SENDING ks) e ob) ks e1 s" "env_ready e1" "heap_fresh e1"
    by (rule configureSrtpSession_ok [OF assms(1,2,3), where ty = SENDING and old = "send_session ch0"])
  obtain r e2 ob' where R: "configureSrtpSession (receive_session ch0) kr RECEIVING e1 = Some (True, live_session r, e2)"
    "full_session (grown (?p RECEIVING kr) e1 ob') kr e2 r"
    by (rule configureSrtpSession_ok [OF S(3,4) assms(4), where ty = RECEIVING and old = "receive_session ch0"])
  obtain B where B: "session B (fst (channel_suites ks)) (snd (channel_suites ks)) 32 (2 ^ 48 - 2) e2 s"
    "apart (without (grown (?p RECEIVING kr) e1 ob') (addresses_of (grown (?p SENDING ks) e ob))) B (grown (?p RECEIVING kr) e1 ob')"
    by (rule session_older [OF S(2) [THEN conjunct1] R(2) [THEN conjunct1] refl])
  have types: "policy_cipher default_suite = aes_icm" "policy_auth default_suite = hmac"
    by (simp_all add: policy_cipher_def policy_auth_def default_suite_sels)
  from S(2) obtain t where "rest_of e1 t = grown (?p SENDING ks) e ob" by (auto simp: session_def endpoint_def)
  then have "without (grown (?p RECEIVING kr) e1 ob') (addresses_of (grown (?p SENDING ks) e ob)) = keyed_base e"
    by (auto simp: keyed_base_def rest_of_def objects_of_def grown_def session_policy_sels types)
  then show ?thesis using S(1,2) R B
    by (intro that [of "ch0\<lparr>send_session := live_session s, receive_session := live_session r, active := True\<rparr>" e2 s r B])
      (simp_all add: setRtpParams_def)
qed

lemma in_step_start:
  assumes "session B su cu k N f ctx" and "session B' su cu k N f' ctx'" and "stream_list ctx = []" "stream_list ctx' = []"
    and "n \<le> N" and "n < 2 ^ 31"
  shows "in_step B B' su cu k n ctx f ctx' f' (\<lambda>_. fresh_rdbx k)"
  using assms(1-4) session_mono [OF _ assms(5)] rtcp_in_step_init [OF assms(6)]
  by (auto simp: in_step_def database_def databases_def streams_simps)

lemma deliver_spec_total:
  assumes "\<forall>s. \<exists>S. rdbx_rel (Suc n) (g s) S" and "packet_well x"
  shows "\<exists>d g'. deliver_spec g x = Some (d, g') \<and> (\<forall>s. \<exists>S. rdbx_rel n (g' s) S)"
proof (cases x)
  case (rtp_packet p)
  with assms(2) have p: "rtp_well p" by simp
  obtain s where s: "hdr_ssrc p = Some s" using p by (rule rtp_wellD)
  from assms(1) obtain S where "rdbx_rel (Suc n) (g s) S" by blast
  from rtp_replay_total [OF this p] obtain st r S' where r: "rtp_replay 1 (g s) p = Some (st, r)" "rdbx_rel n r S'" by blast
  have "\<forall>s'. \<exists>S. rdbx_rel n ((g(s := r)) s') S" using r(2) assms(1) rdbx_rel_mono by (simp, blast)
  with rtp_packet s r(1) show ?thesis by auto
next
  case (rtcp_packet p)
  have "\<forall>s. \<exists>S. rdbx_rel n (g s) S" using assms(1) rdbx_rel_mono by blast
  with rtcp_packet show ?thesis by simp
qed

lemma conversation_spec_total:
  assumes "\<forall>s. \<exists>S. rdbx_rel n (g s) S" and "\<forall>s. \<exists>S. rdbx_rel n (h s) S" and "length xs \<le> n" and "list_all (\<lambda>(_, x). packet_well x) xs"
  shows "\<exists>ds. conversation_spec g h xs = Some ds"
  using assms
proof (induction xs arbitrary: n g h)
  case (Cons y xs)
  obtain who x where y: "y = (who, x)" by (cases y)
  from Cons.prems(3) obtain m where m: "n = Suc m" "length xs \<le> m" by (cases n) auto
  have x: "packet_well x" "list_all (\<lambda>(_, x). packet_well x) xs" using Cons.prems(4) y by simp_all
  have less: "\<forall>s. \<exists>S. rdbx_rel m (g s) S" "\<forall>s. \<exists>S. rdbx_rel m (h s) S" using Cons.prems(1,2) m(1) rdbx_rel_mono by blast+
  from deliver_spec_total [OF Cons.prems(1) [unfolded m(1)] x(1)] obtain d g' where
    d: "deliver_spec g x = Some (d, g')" "\<forall>s. \<exists>S. rdbx_rel m (g' s) S" by blast
  from deliver_spec_total [OF Cons.prems(2) [unfolded m(1)] x(1)] obtain c h' where
    c: "deliver_spec h x = Some (c, h')" "\<forall>s. \<exists>S. rdbx_rel m (h' s) S" by blast
  show ?case using Cons.IH [OF d(2) less(2) m(2) x(2)] Cons.IH [OF less(1) c(2) m(2) x(2)] d(1) c(1) y by (cases who) auto
qed simp

section \<open>Releasing a channel\<close>

lemma endpoint_types:
  "key_type (su_cipher (fst (channel_suites key))) = aes_icm" "key_type (su_cipher (snd (channel_suites key))) = aes_icm"
  "kind_type (su_kind (fst (channel_suites key))) = hmac" "kind_type (su_kind (snd (channel_suites key))) = hmac"
  by (simp_all add: channel_suites_def suite_types session_policy_sels policy_cipher_def policy_auth_def default_suite_sels)

text \<open>The destructor releases both sessions, and the store is what it was before they were created.\<close>

lemma SrtpChannel_delete_ok:
  assumes "send_session ch = live_session s" and "receive_session ch = live_session r"
    and B: "session B (fst (channel_suites ks)) (snd (channel_suites ks)) k n e s"
    and C: "session C (fst (channel_suites kr)) (snd (channel_suites kr)) k' n' e r" and K: "apart (keyed_base e0) B C"
  obtains e' where "SrtpChannel_delete ch e = Some (\<lparr>active = False, send_session = null_session, receive_session = null_session\<rparr>, e')"
    and "cipher_heap e' = cipher_heap e0" "auth_heap e' = auth_heap e0" "limit_heap e' = limit_heap e0"
    and "env_cipher_refs e' = env_cipher_refs e0" "env_auth_refs e' = env_auth_refs e0"
proof -
  obtain cr ar ch' ah lh ob where BB: "B = (cr, ar, ch', ah, lh, ob)" by (cases B)
  obtain c d a b l where ad: "addresses_of C = (c, d, a, b, l)" by (cases "addresses_of C")
  obtain e1 where e1: "srtp_dealloc s e = Some (err_status_ok, e1)" "env_ready e1" "cipher_heap e1 = ch'" "auth_heap e1 = ah" "limit_heap e1 = lh"
    "env_cipher_refs e1 = count_down aes_icm (count_down aes_icm cr)" "env_auth_refs e1 = count_down hmac (count_down hmac ar)"
    by (rule srtp_dealloc_ok [OF B BB, unfolded endpoint_types])
  from B obtain t where t: "rest_of e t = B" by (auto simp: session_def endpoint_def)
  then have ob: "objects_of t = ob" "ch' = (cipher_heap e)(rtp_cipher t := None, rtcp_cipher t := None)"
      "ah = (auth_heap e)(rtp_auth t := None, rtcp_auth t := None)" "lh = (limit_heap e)(the (limit t) := None)"
    using BB by (simp_all add: rest_of_def)
  have dis: "disjoint_objects ob (c, d, a, b, l)" and base: "without B (c, d, a, b, l) = keyed_base e0"
    using K ad BB by (simp_all add: apart_def)
  obtain u where u: "session (rest_of e1 u) (fst (channel_suites kr)) (snd (channel_suites kr)) k' n' e1 r" "objects_of u = (c, d, a, b, l)"
  proof (rule session_elsewhere [OF C e1(2) ad])
    show "cipher_heap e1 c = cipher_heap e c" "cipher_heap e1 d = cipher_heap e d" "auth_heap e1 a = auth_heap e a"
        "auth_heap e1 b = auth_heap e b" "limit_heap e1 l = limit_heap e l"
      using dis ob(1) [symmetric] unfolding e1(3-5) ob(2-4) by (auto simp: objects_of_def)
  qed (use ad that in simp)
  have R: "rest_of e1 u = (env_cipher_refs e1, env_auth_refs e1, ch'(c := None, d := None), ah(a := None, b := None), lh(l := None), c, d, a, b, l)"
    using u(2) e1(3-5) by (auto simp: rest_of_def objects_of_def)
  obtain e2 where e2: "srtp_dealloc r e1 = Some (err_status_ok, e2)" "cipher_heap e2 = ch'(c := None, d := None)"
    "auth_heap e2 = ah(a := None, b := None)" "limit_heap e2 = lh(l := None)"
    "env_cipher_refs e2 = count_down aes_icm (count_down aes_icm (env_cipher_refs e1))"
    "env_auth_refs e2 = count_down hmac (count_down hmac (env_auth_refs e1))"
    by (rule srtp_dealloc_ok [OF u(1) R, unfolded endpoint_types])
  have "SrtpChannel_delete ch e = Some (ch\<lparr>active := False, send_session := null_session, receive_session := null_session\<rparr>, e2)"
    using assms(1,2) e1(1) e2(1) by (simp add: SrtpChannel_delete_def release_session_def)
  then have run: "SrtpChannel_delete ch e = Some (\<lparr>active = False, send_session = null_session, receive_session = null_session\<rparr>, e2)"
    by (cases ch) simp
  show ?thesis using base by (intro that [OF run]) (auto simp: BB keyed_base_def e2 e1)
qed

section \<open>Properties\<close>

lemma conversation_runs:
  assumes e: "env_ready e" "heap_fresh e" and f: "env_ready f" "heap_fresh f" and keys: "key_text ka" "key_text kb"
    and xs: "list_all (\<lambda>(_, x). packet_well x) xs" "length xs < 2 ^ 31"
  obtains ca e1 cb f1 ds a b g h where "setRtpParams ch ka kb e = Some (True, ca, e1)"
    and "setRtpParams ch' kb ka f = Some (True, cb, f1)" and "conversation (ca, e1) (cb, f1) xs = Some (ds, a, b)"
    and "conversation_spec (\<lambda>_. fresh_rdbx 32) (\<lambda>_. fresh_rdbx 32) xs = Some ds"
    and "duplex (keyed_base e) (keyed_base f) (channel_suites ka) (channel_suites kb) 32 0 a b g h"
proof -
  obtain ca s r' e1 B C' where A: "setRtpParams ch ka kb e = Some (True, ca, e1)" "active ca" "send_session ca = live_session s"
    "receive_session ca = live_session r'" "full_session B ka e1 s" "full_session C' kb e1 r'" "apart (keyed_base e) B C'"
    by (rule setRtpParams_ok [OF e keys, where ?ch0.0 = ch])
  obtain cb s' r f1 B' C where P: "setRtpParams ch' kb ka f = Some (True, cb, f1)" "active cb" "send_session cb = live_session s'"
    "receive_session cb = live_session r" "full_session B' kb f1 s'" "full_session C ka f1 r" "apart (keyed_base f) B' C"
    by (rule setRtpParams_ok [OF f keys(2,1), where ?ch0.0 = ch'])
  have n: "length xs \<le> 2 ^ 48 - 2" using xs(2) by simp
  have "in_step B C (fst (channel_suites ka)) (snd (channel_suites ka)) 32 (length xs) s e1 r f1 (\<lambda>_. fresh_rdbx 32)"
    using A(5) P(6) in_step_start [OF _ _ _ _ n xs(2)] by blast
  moreover have "in_step B' C' (fst (channel_suites kb)) (snd (channel_suites kb)) 32 (length xs) s' f1 r' e1 (\<lambda>_. fresh_rdbx 32)"
    using A(6) P(5) in_step_start [OF _ _ _ _ n xs(2)] by blast
  ultimately have dup: "duplex (keyed_base e) (keyed_base f) (channel_suites ka) (channel_suites kb) 32 (length xs) (ca, e1) (cb, f1)
      (\<lambda>_. fresh_rdbx 32) (\<lambda>_. fresh_rdbx 32)"
    by (rule duplexI [OF A(2) P(2) A(3) P(4) P(3) A(4) _ _ A(7) P(7)])
  have rel: "\<forall>s :: u32. \<exists>S. rdbx_rel (length xs) (fresh_rdbx 32) S" using rdbx_rel_fresh_rdbx [of 32 "length xs"] xs(2) by auto
  from conversation_spec_total [OF rel rel order_refl xs(1)] obtain ds where
    ds: "conversation_spec (\<lambda>_. fresh_rdbx 32) (\<lambda>_. fresh_rdbx 32) xs = Some ds" by blast
  from conversation_meets_spec [OF dup _ _ order_refl xs(1) ds] show ?thesis using that [OF A(1) P(1) _ ds] by auto
qed

text \<open>
  C1. Two SRTP channels with crossed keys carry a conversation: from states where the library is started and memory is
  available, both accept their keys, and then any interleaving of fewer than \<open>2 ^ 31\<close> well-formed RTP and RTCP packets
  of any sources in both directions arrives unchanged, except for RTP packets that are older than the window of the
  replay database; those the sender refuses. At the end both destructors give back every cipher, authentication function
  and key limit they took, and every reference count is what it was. The key texts have at least 44 characters, so that
  the decoded block holds the 32 octets the library reads; for shorter ones, the forty characters of a 30-octet key among
  them, the channel reads past its block and is undefined (\<open>configureSrtpSession_overread\<close>). The memory of the
  sessions, streams and replay vectors is not part of the store.
\<close>

theorem SrtpChannel_conversation:
  assumes "env_ready e" and "heap_fresh e" and "env_ready f" and "heap_fresh f" and "key_text ka" and "key_text kb"
    and "list_all (\<lambda>(_, x). packet_well x) xs" and "length xs < 2 ^ 31"
  shows "\<exists>ca e1 cb f1 ds ca' e2 cb' f2 da e3 db f3. setRtpParams ch ka kb e = Some (True, ca, e1) \<and>
    setRtpParams ch' kb ka f = Some (True, cb, f1) \<and> conversation (ca, e1) (cb, f1) xs = Some (ds, (ca', e2), (cb', f2)) \<and>
    conversation_spec (\<lambda>_. fresh_rdbx 32) (\<lambda>_. fresh_rdbx 32) xs = Some ds \<and>
    SrtpChannel_delete ca' e2 = Some (da, e3) \<and> SrtpChannel_delete cb' f2 = Some (db, f3) \<and>
    cipher_heap e3 = cipher_heap e \<and> auth_heap e3 = auth_heap e \<and> limit_heap e3 = limit_heap e \<and>
    env_cipher_refs e3 = env_cipher_refs e \<and> env_auth_refs e3 = env_auth_refs e \<and>
    cipher_heap f3 = cipher_heap f \<and> auth_heap f3 = auth_heap f \<and> limit_heap f3 = limit_heap f \<and>
    env_cipher_refs f3 = env_cipher_refs f \<and> env_auth_refs f3 = env_auth_refs f"
proof (rule conversation_runs [OF assms, where ch = ch and ch' = ch'])
  fix ca e1 cb f1 ds a b g h
  assume run: "setRtpParams ch ka kb e = Some (True, ca, e1)" "setRtpParams ch' kb ka f = Some (True, cb, f1)"
      "conversation (ca, e1) (cb, f1) xs = Some (ds, a, b)" "conversation_spec (\<lambda>_. fresh_rdbx 32) (\<lambda>_. fresh_rdbx 32) xs = Some ds"
    and "duplex (keyed_base e) (keyed_base f) (channel_suites ka) (channel_suites kb) 32 0 a b g h"
  then obtain s r s' r' B C B' C' where D: "send_session (fst a) = live_session s" "receive_session (fst b) = live_session r"
      "send_session (fst b) = live_session s'" "receive_session (fst a) = live_session r'"
      "in_step B C (fst (channel_suites ka)) (snd (channel_suites ka)) 32 0 s (snd a) r (snd b) g"
      "in_step B' C' (fst (channel_suites kb)) (snd (channel_suites kb)) 32 0 s' (snd b) r' (snd a) h"
      "apart (keyed_base e) B C'" "apart (keyed_base f) B' C"
    by (auto simp: duplex_def)
  obtain da e3 where A: "SrtpChannel_delete (fst a) (snd a) = Some (da, e3)"
    "cipher_heap e3 = cipher_heap e" "auth_heap e3 = auth_heap e" "limit_heap e3 = limit_heap e"
    "env_cipher_refs e3 = env_cipher_refs e" "env_auth_refs e3 = env_auth_refs e"
    by (rule SrtpChannel_delete_ok [OF D(1,4) _ _ D(7)]) (use D(5,6) in \<open>auto simp: in_step_def\<close>)
  obtain db f3 where P: "SrtpChannel_delete (fst b) (snd b) = Some (db, f3)"
    "cipher_heap f3 = cipher_heap f" "auth_heap f3 = auth_heap f" "limit_heap f3 = limit_heap f"
    "env_cipher_refs f3 = env_cipher_refs f" "env_auth_refs f3 = env_auth_refs f"
    by (rule SrtpChannel_delete_ok [OF D(3,2) _ _ D(8)]) (use D(5,6) in \<open>auto simp: in_step_def\<close>)
  show ?thesis using run A P by (cases a; cases b) auto
qed

text \<open>A conversation of three packets: each side says something, and one packet is repeated.\<close>

abbreviation sample_key :: "u8 \<Rightarrow> octets" where
  "sample_key c \<equiv> replicate 44 c"

lemma sample_key_text: "c \<noteq> 0 \<Longrightarrow> key_text (sample_key c)"
  by (simp add: key_text_def)

lemma heap_fresh_ready_env: "heap_fresh ready_env"
  by (simp add: heap_fresh_def ready_env_def)

abbreviation idle_channel :: SrtpChannel where
  "idle_channel \<equiv> \<lparr>active = False, send_session = null_session, receive_session = null_session\<rparr>"

theorem SrtpChannel_conversation_witness:
  "let xs = [(True, rtp_packet sample_rtp), (False, rtcp_packet sample_rtcp), (True, rtp_packet sample_rtp)] in
   \<exists>ca e1 cb f1 a b. setRtpParams idle_channel (sample_key 65) (sample_key 66) ready_env = Some (True, ca, e1) \<and>
     setRtpParams idle_channel (sample_key 66) (sample_key 65) ready_env = Some (True, cb, f1) \<and>
     conversation (ca, e1) (cb, f1) xs = Some ([Some sample_rtp, Some sample_rtcp, Some sample_rtp], a, b)"
proof -
  let ?xs = "[(True, rtp_packet sample_rtp), (False, rtcp_packet sample_rtcp), (True, rtp_packet sample_rtp)]"
  have xs: "list_all (\<lambda>(_, x). packet_well x) ?xs" "length ?xs < 2 ^ 31" using sample_ok(5) by simp_all
  have spec: "conversation_spec (\<lambda>_. fresh_rdbx 32) (\<lambda>_. fresh_rdbx 32) ?xs = Some [Some sample_rtp, Some sample_rtcp, Some sample_rtp]"
    by code_simp
  have ks: "key_text (sample_key 65)" "key_text (sample_key 66)" by (rule sample_key_text, simp)+
  show ?thesis unfolding Let_def
    using SrtpChannel_conversation [OF env_ready_ready_env heap_fresh_ready_env env_ready_ready_env heap_fresh_ready_env ks xs,
        of idle_channel idle_channel, unfolded spec] by auto
qed

section \<open>The block of the key is one octet short\<close>

lemma srtp_kdf_init_short:
  assumes "env_ready e" and "length key < 32"
  shows "srtp_kdf_init AES_ICM key 30 e = None"
proof -
  obtain m where m: "env_cipher_mem e (env_allocs e) = Some m" "cipher_storage m" using env_readyD(4) [OF assms(1)] by blast
  have k: "kernel_state e = crypto_kernel_state_secure" "crypto_kernel_get_cipher_type 1 e = Some aes_icm"
    using env_readyD(1) [OF assms(1)] env_readyD(2) [OF assms(1), of aes_icm] by (simp_all add: cipher_type_id_def)
  have "v128_copy_octet_string (drop 16 key) = None" using assms(2) by (auto simp: v128_copy_octet_string_def)
  then have "aes_icm_context_init c key 30 = None" for c by (simp add: aes_icm_context_init_def)
  then show ?thesis using m k
    by (cases m) (auto simp: srtp_kdf_init_def crypto_kernel_alloc_cipher_def env_alloc_def cipher_type_alloc_def
        aes_icm_alloc_def aes_icm_alloc_ismacryp_def AES_ICM_def cipher_init_def)
qed

text \<open>
  \<^verbatim>\<open>configureSrtpSession\<close> reads outside the block that \<^verbatim>\<open>g_base64_decode\<close> gives it: for the text of a
  30-octet key, and for every other text of fewer than 44 characters, the block has at most 31 octets, and setting up the
  cipher of the key derivation reads 32.
\<close>

theorem configureSrtpSession_overread:
  assumes "env_ready e" and "length key < 44" and "0 \<notin> set key"
  shows "configureSrtpSession old key ty e = None"
proof -
  let ?p = "session_policy ty (key_block key)"
  obtain n where dec: "g_base64_decode key = Some (key_block key, n)" "length (key_block key) = length key div 4 * 3 + 1"
    by (rule g_base64_decode_key [OF assms(3)])
  have "length key div 4 < 11" using assms(2) by (simp add: less_mult_imp_div_less)
  then have short: "length (key_block key) < 32" using dec(2) by linarith
  have p: "policy_ok (p_rtp ?p)" "policy_ok (p_rtcp ?p)"
    by (simp_all add: session_policy_sels default_suite_sels policy_ok_def AES_ICM_def HMAC_SHA1_def)
  have e1: "env_ready (bump e)" using assms(1) by simp
  obtain str e2 c1 a1 l c2 a2 where al: "srtp_stream_alloc ?p (bump e) = Some (err_status_ok, Some str, e2)" "env_ready e2"
      and at: "rtp_cipher str = env_allocs (bump e) + 1" "limit str = Some (env_allocs (bump e) + 3)" "rtcp_cipher str = env_allocs (bump e) + 4"
      and h: "cipher_heap e2 = (cipher_heap (bump e))(env_allocs (bump e) + 1 \<mapsto> c1, env_allocs (bump e) + 4 \<mapsto> c2)"
        "limit_heap e2 = (limit_heap (bump e))(env_allocs (bump e) + 3 \<mapsto> l)"
      and len: "cipher_key_len c1 = 30" "cipher_key_len c2 = 30"
    by (rule srtp_stream_alloc_ok [OF e1 p refl]) (simp add: session_policy_sels default_suite_sels)
  have win: "(1024 :: u32) \<noteq> 0" "unat (1024 :: u32) < 2 ^ 30" by simp_all
  have rdbx: "rdbx_init (vector_mem e2 (env_allocs e2)) (rtp_rdbx str) 1024 = (err_status_ok, fresh_rdbx (window_words 1024))"
    by (rule rdbx_init_fresh [OF al(2) win])
  have "srtp_stream_init_keys str' (key_block key) e3 = None" if "env_ready e3" "cipher_heap e3 = cipher_heap e2"
    "rtp_cipher str' = rtp_cipher str" "rtcp_cipher str' = rtcp_cipher str" for str' e3
    using that at h len srtp_kdf_init_short [OF that(1) short]
    by (simp add: srtp_stream_init_keys_def cipher_get_key_length_def Let_def)
  then have "srtp_stream_init str ?p e2 = None"
    using rdbx at(2) h(2) al(2) by (simp add: srtp_stream_init_def session_policy_sels Let_def bump_def)
  then have "srtp_create [?p] e = None"
    using al(1) env_readyD(8) [OF assms(1)] by (simp add: srtp_create_def srtp_add_stream_def session_policy_sels)
  then show ?thesis using dec(1) by (simp add: configureSrtpSession_def)
qed

theorem configureSrtpSession_overread_witness:
  "env_ready ready_env \<and> configureSrtpSession null_session (replicate 40 65) SENDING ready_env = None"
  using configureSrtpSession_overread [OF env_ready_ready_env, of "replicate 40 65"] env_ready_ready_env by simp

section \<open>A handle that dangles\<close>

text \<open>
  C40. A channel whose keys are refused must not be destroyed: when the library cannot allocate the stream,
  \<^verbatim>\<open>setRtpParams\<close> answers false and leaves a handle to the released session behind, which the destructor releases
  once more.
\<close>

theorem SrtpChannel_double_free:
  assumes "session_mem e (env_allocs e)" and "stream_mem e (env_allocs e + 1) = None"
  shows "\<exists>ch e'. setRtpParams idle_channel ks kr e = Some (False, ch, e') \<and> SrtpChannel_delete ch e' = None"
proof -
  obtain blk n where dec: "g_base64_decode ks = Some (blk, n)" by (simp add: g_base64_decode_eq Let_def)
  let ?p = "session_policy SENDING blk"
  have "srtp_stream_alloc ?p (bump e) = Some (err_status_alloc_fail, None, bump (bump e))"
    using assms(2) by (simp add: srtp_stream_alloc_def bump_def)
  then have "srtp_create [?p] e = Some (err_status_alloc_fail, None, bump (bump e))"
    using assms(1) by (simp add: srtp_create_def srtp_add_stream_def srtp_dealloc_def session_policy_sels)
  then show ?thesis using dec assms(1)
    by (simp add: setRtpParams_def configureSrtpSession_def SrtpChannel_delete_def release_session_def)
qed

theorem SrtpChannel_double_free_witness:
  "let e = ready_env\<lparr>stream_mem := \<lambda>_. None\<rparr> in
   \<exists>ch e'. setRtpParams idle_channel (sample_key 65) (sample_key 66) e = Some (False, ch, e') \<and> SrtpChannel_delete ch e' = None"
  unfolding Let_def by (rule SrtpChannel_double_free) (simp_all add: ready_env_def)

section \<open>A packet behind the window\<close>

lemma rdbx_add_index_old:
  assumes rel: "rdbx_rel m r S" and "rdbx_check r d = Some err_status_replay_old" and "- (2 ^ 15) \<le> d"
  shows "rdbx_add_index r d = None"
proof -
  let ?v = "rdbx_bitmask r"
  have wf: "rdbx_wf r" using rel by (simp add: rdbx_rel_def)
  note last = rdbx_wf_last [OF wf]
  define w where "w = bitvector_get_length ?v - 1"
  have d: "d \<le> 0" "sint w + d < 0" using assms(2) by (auto simp: rdbx_check_def w_def Let_def split: if_splits Option.bind_splits)
  have w: "0 \<le> sint w" "sint w < 2 ^ 31" using last sint_lt [of w] by (simp_all add: w_def)
  define i where "i = sint w + d"
  have i: "- (2 ^ 15) \<le> i" "i < 0" using d(2) w(1) assms(3) by (simp_all add: i_def)
  have "uint (word_of_int i :: u32) = i + 2 ^ 32" using i by (simp add: unsigned_of_int take_bit_eq_mod mod_pos_neg_trivial)
      (use i in \<open>simp add: mod_add_self2 [symmetric, of i] del: mod_add_self2\<close>)
  moreover have "w + word_of_int d = word_of_int i" by (simp add: i_def)
  ultimately have "uint (w + word_of_int d) = i + 2 ^ 32" by simp
  moreover have "32 * int (length (bv_word ?v)) < 2 ^ 31" using last(4) by (simp add: rdbx_len_def)
  ultimately have "\<not> in_words (bv_word ?v) (uint (w + word_of_int d))" using i(1) by (simp add: in_words_def)
  then show ?thesis using d(1) by (simp add: rdbx_add_index_def w_def [symmetric] bitvector_set_bit_def)
qed

text \<open>
  C39. An authentic packet that is older than the replay window destroys memory of the receiving channel: the sessions
  of a channel allow repeated transmission, so the status \<^verbatim>\<open>replay_old\<close> does not stop the packet, and the index is
  then entered in the database at a negative bit position.
\<close>

theorem unprotectRtp_late:
  assumes "active ch" and "receive_session ch = live_session ctx"
    and "session B (fst (channel_suites key)) (snd (channel_suites key)) 32 (Suc n) e ctx"
    and "rtp_well p" and "hdr_ssrc p = Some s" and "hdr_seq p = Some q" and "database 32 (stream_list ctx) s = (r, c)"
    and "rdbx_rel (Suc m) r S" and "rdbx_estimate_index r (bswap16 q) = (delta, est)" and "rdbx_check r delta = Some err_status_replay_old"
  shows "unprotectRtp ch (srtp_packet (fst (channel_suites key)) est p @ room)
    (int (length (srtp_packet (fst (channel_suites key)) est p))) e = None"
proof -
  let ?su = "fst (channel_suites key)" and ?cu = "snd (channel_suites key)"
  let ?pkt = "srtp_packet ?su est p @ room" and ?len = "int (length (srtp_packet ?su est p))"
  from assms(3) obtain t where t: "stream_template ctx = Some t" "endpoint B ?su ?cu 32 (Suc n) e t" "\<forall>x\<in>set (stream_list ctx). clone_of t x"
    by (auto simp: session_def)
  have h: "hdr_ssrc ?pkt = Some s" "hdr_seq ?pkt = Some q" "\<not> ?len < octets_in_rtp_header"
    using hdr_srtp_packet [OF assms(4)] assms(5,6) length_srtp_packet [OF endpointD(2) [OF t(2)] assms(4)] assms(4)
    by (auto elim: rtp_wellD simp: octets_in_rtp_header_def)
  have idx: "uint (rdbx_index r) < 2 ^ 48 - 2 ^ 16" using assms(8) by (simp add: rdbx_rel_def)
  note add = rdbx_add_index_old [OF assms(8,10) rdbx_estimate_index_spec(3) [OF idx assms(9)]]
  obtain i where i: "find_stream (stream_list ctx) s = Some i"
  proof (cases "find_stream (stream_list ctx) s")
    case None
    then have "r = fresh_rdbx 32" using assms(7) by (simp add: database_def databases_def streams_def)
    then have "0 \<le> delta" using assms(9) by (auto simp: rdbx_estimate_fresh)
    moreover have "delta \<le> - rdbx_len r" "0 < rdbx_len r"
      using assms(8,10) rdbx_wf_last(1,3) [of r] by (auto simp: rdbx_check_def rdbx_rel_def Let_def split: if_splits Option.bind_splits)
    ultimately show ?thesis by simp
  qed
  let ?str = "stream_list ctx ! i"
  have str: "rtp_rdbx ?str = r" "clone_of t ?str"
    using databases_nth [OF i] assms(7) t(3) find_stream_Some [OF i] by (simp_all add: database_def)
  have rep: "allow_repeat_tx ?str \<noteq> 0" using str(2) endpointD(9) [OF t(2)] by (simp add: clone_of_def)
  obtain d rest e' where u: "unprotect_stream ?str est ?pkt ?len e = Some (err_status_ok, ?str\<lparr>direction := d\<rparr>, p @ rest, int (su_tag_len ?su), e')"
    by (rule unprotect_stream_ok [OF t(2) str(2) assms(4)])
  have "srtp_unprotect ctx ?pkt ?len e = None"
    using i h str(1) assms(9,10) rep add u by (auto simp: srtp_unprotect_def srtp_get_stream_def unprotect_known_def Let_def)
  then show ?thesis using assms(1,2) by (simp add: unprotectRtp_def)
qed

theorem unprotectRtp_late_witness:
  "\<exists>ch ctx B e r c S. let su = fst (channel_suites (sample_key 65)); pkt = srtp_packet su 1 sample_rtp in
     active ch \<and> receive_session ch = live_session ctx \<and> session B su (snd (channel_suites (sample_key 65))) 32 1 e ctx \<and>
     rtp_well sample_rtp \<and> hdr_ssrc sample_rtp = Some (bswap32 7) \<and> hdr_seq sample_rtp = Some (bswap16 1) \<and>
     database 32 (stream_list ctx) (bswap32 7) = (r, c) \<and> rdbx_rel 1 r S \<and>
     rdbx_estimate_index r 1 = (-1999, 1) \<and> rdbx_check r (-1999) = Some err_status_replay_old \<and>
     unprotectRtp ch pkt (int (length pkt)) e = None"
proof -
  have key: "key_text (sample_key 65)" by (rule sample_key_text) simp
  obtain ctx e ob where C: "full_session (grown (session_policy RECEIVING (key_block (sample_key 65))) ready_env ob) (sample_key 65) e ctx"
    by (rule configureSrtpSession_ok [OF env_ready_ready_env heap_fresh_ready_env key, where ty = RECEIVING and old = null_session])
  then obtain t where t: "stream_template ctx = Some t" by (auto simp: session_def)
  have fresh: "rdbx_rel 2 (fresh_rdbx 32) {}" by (rule rdbx_rel_fresh_rdbx) simp_all
  then obtain r S where r: "rdbx_add_index (fresh_rdbx 32) 2000 = Some (err_status_ok, r)" "rdbx_rel 1 r S"
    using rdbx_add_index_spec [of 1 "fresh_rdbx 32" "{}" 2000] by (auto simp: numeral_2_eq_2 rdbx_len_def)
  have comp: "case rdbx_add_index (fresh_rdbx 32) 2000 of Some (_, r) \<Rightarrow>
      rdbx_estimate_index r (bswap16 (bswap16 1)) = (-1999, 1) \<and> rdbx_check r (-1999) = Some err_status_replay_old" by code_simp
  have hdr: "hdr_ssrc sample_rtp = Some (bswap32 7)" "hdr_seq sample_rtp = Some (bswap16 1)" by code_simp+
  have b16: "bswap16 (bswap16 1) = 1" by code_simp
  define x where "x = t\<lparr>ssrc := bswap32 7, rtp_rdbx := r\<rparr>"
  let ?ctx = "ctx\<lparr>stream_list := [x]\<rparr>" and ?ch = "\<lparr>active = True, send_session = null_session, receive_session = live_session (ctx\<lparr>stream_list := [x]\<rparr>)\<rparr>"
  have "session (grown (session_policy RECEIVING (key_block (sample_key 65))) ready_env ob) (fst (channel_suites (sample_key 65)))
      (snd (channel_suites (sample_key 65))) 32 (2 ^ 48 - 2) e ?ctx"
    using C t by (auto simp: session_def x_def clone_of_def)
  then have ses: "session (grown (session_policy RECEIVING (key_block (sample_key 65))) ready_env ob) (fst (channel_suites (sample_key 65)))
      (snd (channel_suites (sample_key 65))) 32 (Suc 0) e ?ctx" by (rule session_mono) simp
  have db: "database 32 (stream_list ?ctx) (bswap32 7) = (r, rtcp_rdb x)" by (simp add: database_def databases_def streams_simps x_def)
  have est: "rdbx_estimate_index r (bswap16 (bswap16 1)) = (-1999, 1)" "rdbx_check r (-1999) = Some err_status_replay_old" using comp r(1) by simp_all
  have "unprotectRtp ?ch (srtp_packet (fst (channel_suites (sample_key 65))) 1 sample_rtp @ [])
      (int (length (srtp_packet (fst (channel_suites (sample_key 65))) 1 sample_rtp))) e = None"
    by (rule unprotectRtp_late [OF _ _ ses sample_ok(4) hdr db _ est, where m = 0 and S = S]) (use r(2) in simp_all)
  then show ?thesis using ses db est sample_ok(4) hdr r(2) unfolding b16 Let_def
    by (intro exI [of _ ?ch] exI [of _ ?ctx] exI [of _ "grown (session_policy RECEIVING (key_block (sample_key 65))) ready_env ob"]
        exI [of _ e] exI [of _ r] exI [of _ "rtcp_rdb x"] exI [of _ S]) simp
qed

end
