(* ===== verification/Rtp_Headers.thy ===== *)
theory Rtp_Headers
  imports Srtp_Packet
begin

text \<open>
  The packet headers of the media path, \<^verbatim>\<open>sfup-core/rtp/RtpHeaders.h\<close>: classes whose members are laid over the
  octets of a packet. A header is modelled by the 32-bit words it occupies, as the little-endian target loads them;
  the members that share a word are bit-fields, which the compiler allocates from the least significant bit on. The
  members are in network byte order, and the accessors convert.
\<close>

section \<open>Bit-fields\<close>

definition get_field :: "nat \<Rightarrow> nat \<Rightarrow> u32 \<Rightarrow> u32" where
  "get_field lo n w = take_bit n (drop_bit lo w)"

definition set_field :: "nat \<Rightarrow> nat \<Rightarrow> u32 \<Rightarrow> u32 \<Rightarrow> u32" where
  "set_field lo n v w = (w AND NOT (push_bit lo (mask n))) OR push_bit lo (take_bit n v)"

lemma bit_get_field: "bit (get_field lo n w) i \<longleftrightarrow> i < n \<and> bit w (lo + i)"
  by (auto simp: get_field_def bit_simps)

lemma bit_set_field: "bit (set_field lo n v w) i \<longleftrightarrow> (if lo \<le> i \<and> i < lo + n then i < 32 \<and> bit v (i - lo) else bit w i)"
  by (auto simp: set_field_def bit_simps dest: bit_imp_le_length)

lemma get_set_field: "lo + n \<le> 32 \<Longrightarrow> get_field lo n (set_field lo n v w) = take_bit n v"
  by (rule u32_eqI) (auto simp: bit_get_field bit_set_field bit_take_bit_iff)

lemma get_set_other: "lo' + n' \<le> lo \<or> lo + n \<le> lo' \<Longrightarrow> get_field lo' n' (set_field lo n v w) = get_field lo' n' w"
  by (rule u32_eqI) (auto simp: bit_get_field bit_set_field)

lemmas field_simps = get_set_field get_set_other

section \<open>RTP\<close>

record RtpHeader =
  rtp_word0 :: u32
  rtp_timestamp :: u32
  rtp_ssrc :: u32
  rtp_ext_word :: u32
  rtp_extensions :: u32

definition RtpHeader_new :: "u32 \<Rightarrow> RtpHeader" where
  "RtpHeader_new junk =
     \<lparr>rtp_word0 = set_field 6 2 2 0, rtp_timestamp = 0, rtp_ssrc = 0, rtp_ext_word = 0, rtp_extensions = junk\<rparr>"

definition hasPadding :: "RtpHeader \<Rightarrow> u8" where "hasPadding h = ucast (get_field 5 1 (rtp_word0 h))"
definition getVersion :: "RtpHeader \<Rightarrow> u8" where "getVersion h = ucast (get_field 6 2 (rtp_word0 h))"
definition setVersion :: "u8 \<Rightarrow> RtpHeader \<Rightarrow> RtpHeader" where "setVersion v h = h\<lparr>rtp_word0 := set_field 6 2 (ucast v) (rtp_word0 h)\<rparr>"
definition getMarker :: "RtpHeader \<Rightarrow> u8" where "getMarker h = ucast (get_field 15 1 (rtp_word0 h))"
definition setMarker :: "u8 \<Rightarrow> RtpHeader \<Rightarrow> RtpHeader" where "setMarker v h = h\<lparr>rtp_word0 := set_field 15 1 (ucast v) (rtp_word0 h)\<rparr>"
definition getExtension :: "RtpHeader \<Rightarrow> u8" where "getExtension h = ucast (get_field 4 1 (rtp_word0 h))"
definition setExtension :: "u8 \<Rightarrow> RtpHeader \<Rightarrow> RtpHeader" where "setExtension v h = h\<lparr>rtp_word0 := set_field 4 1 (ucast v) (rtp_word0 h)\<rparr>"
definition getCc :: "RtpHeader \<Rightarrow> u8" where "getCc h = ucast (get_field 0 4 (rtp_word0 h))"
definition setCc :: "u8 \<Rightarrow> RtpHeader \<Rightarrow> RtpHeader" where "setCc v h = h\<lparr>rtp_word0 := set_field 0 4 (ucast v) (rtp_word0 h)\<rparr>"
definition getPayloadType :: "RtpHeader \<Rightarrow> u8" where "getPayloadType h = ucast (get_field 8 7 (rtp_word0 h))"
definition setPayloadType :: "u8 \<Rightarrow> RtpHeader \<Rightarrow> RtpHeader" where "setPayloadType v h = h\<lparr>rtp_word0 := set_field 8 7 (ucast v) (rtp_word0 h)\<rparr>"
definition getSeqNumber :: "RtpHeader \<Rightarrow> u16" where "getSeqNumber h = bswap16 (ucast (get_field 16 16 (rtp_word0 h)))"
definition setSeqNumber :: "u16 \<Rightarrow> RtpHeader \<Rightarrow> RtpHeader" where
  "setSeqNumber v h = h\<lparr>rtp_word0 := set_field 16 16 (ucast (bswap16 v)) (rtp_word0 h)\<rparr>"
definition getTimestamp :: "RtpHeader \<Rightarrow> u32" where "getTimestamp h = bswap32 (rtp_timestamp h)"
definition setTimestamp :: "u32 \<Rightarrow> RtpHeader \<Rightarrow> RtpHeader" where "setTimestamp v h = h\<lparr>rtp_timestamp := bswap32 v\<rparr>"
definition getSSRC :: "RtpHeader \<Rightarrow> u32" where "getSSRC h = bswap32 (rtp_ssrc h)"
definition setSSRC :: "u32 \<Rightarrow> RtpHeader \<Rightarrow> RtpHeader" where "setSSRC v h = h\<lparr>rtp_ssrc := bswap32 v\<rparr>"
definition getExtId :: "RtpHeader \<Rightarrow> u16" where "getExtId h = bswap16 (ucast (get_field 0 16 (rtp_ext_word h)))"
definition setExtId :: "u16 \<Rightarrow> RtpHeader \<Rightarrow> RtpHeader" where
  "setExtId v h = h\<lparr>rtp_ext_word := set_field 0 16 (ucast (bswap16 v)) (rtp_ext_word h)\<rparr>"
definition getExtLength :: "RtpHeader \<Rightarrow> u16" where "getExtLength h = bswap16 (ucast (get_field 16 16 (rtp_ext_word h)))"
definition setExtLength :: "u16 \<Rightarrow> RtpHeader \<Rightarrow> RtpHeader" where
  "setExtLength v h = h\<lparr>rtp_ext_word := set_field 16 16 (ucast (bswap16 v)) (rtp_ext_word h)\<rparr>"

definition RtpHeader_MIN_SIZE :: int where "RtpHeader_MIN_SIZE = 12"

definition getHeaderLength :: "RtpHeader \<Rightarrow> int" where
  "getHeaderLength h =
     RtpHeader_MIN_SIZE + uint (get_field 0 4 (rtp_word0 h)) * 4 +
     uint (get_field 4 1 (rtp_word0 h)) * (4 + uint (bswap16 (ucast (get_field 16 16 (rtp_ext_word h)))) * 4)"

text \<open>The cast of a buffer to a header. An accessor of a member outside the buffer is undefined; here all five words are in it.\<close>

definition RtpHeader_at :: "octets \<Rightarrow> RtpHeader option" where
  "RtpHeader_at m = do {
     a \<leftarrow> load32 m 0; b \<leftarrow> load32 m 4; c \<leftarrow> load32 m 8; d \<leftarrow> load32 m 12; x \<leftarrow> load32 m 16;
     Some \<lparr>rtp_word0 = a, rtp_timestamp = b, rtp_ssrc = c, rtp_ext_word = d, rtp_extensions = x\<rparr>
   }"

section \<open>Header extensions\<close>

text \<open>\<^verbatim>\<open>AbsSendTimeExtension\<close>, and \<^verbatim>\<open>RtpRtxHeader\<close> behind its \<^verbatim>\<open>RtpHeader\<close>.\<close>

definition ext_getId :: "u32 \<Rightarrow> u8" where "ext_getId w = ucast (drop_bit 4 (get_field 0 8 w))"
definition ext_getLength :: "u32 \<Rightarrow> u8" where "ext_getLength w = ucast (get_field 0 8 w AND 0x0f)"
definition getAbsSendTime :: "u32 \<Rightarrow> u32" where "getAbsSendTime w = drop_bit 8 (bswap32 (get_field 8 24 w))"
definition setAbsSendTime :: "u32 \<Rightarrow> u32 \<Rightarrow> u32" where "setAbsSendTime t w = set_field 8 24 (drop_bit 8 (bswap32 t)) w"

record RtpRtxHeader =
  rtx_header :: RtpHeader
  rtx_osn :: u16

definition getOsn :: "RtpRtxHeader \<Rightarrow> u16" where "getOsn h = bswap16 (rtx_osn h)"
definition setOs :: "u16 \<Rightarrow> RtpRtxHeader \<Rightarrow> RtpRtxHeader" where "setOs v h = h\<lparr>rtx_osn := bswap16 v\<rparr>"

text \<open>\<^verbatim>\<open>RedHeader\<close>.\<close>

definition red_getTS :: "u32 \<Rightarrow> u32" where "red_getTS w = drop_bit 18 (bswap32 (get_field 8 24 w) AND 0xfffc0000)"
definition red_getLength :: "u32 \<Rightarrow> u32" where "red_getLength w = bswap32 (get_field 8 24 w) AND 0x3ff00"

section \<open>RTCP\<close>

text \<open>The union \<^verbatim>\<open>report\<close> is the list of its twelve words: its largest member is the sender report with one block.\<close>

record RtcpHeader =
  rtcp_word0 :: u32
  rtcp_ssrc_word :: u32
  rtcp_report :: "u32 list"

definition RtcpHeader_new :: "u32 list \<Rightarrow> RtcpHeader" where
  "RtcpHeader_new junk = \<lparr>rtcp_word0 = set_field 6 2 2 0, rtcp_ssrc_word = 0, rtcp_report = junk\<rparr>"

definition upd_report :: "nat \<Rightarrow> (u32 \<Rightarrow> u32) \<Rightarrow> RtcpHeader \<Rightarrow> RtcpHeader" where
  "upd_report i f h = h\<lparr>rtcp_report := (rtcp_report h)[i := f (rtcp_report h ! i)]\<rparr>"

definition getPacketType :: "RtcpHeader \<Rightarrow> u8" where "getPacketType h = ucast (get_field 8 8 (rtcp_word0 h))"
definition setPacketType :: "u8 \<Rightarrow> RtcpHeader \<Rightarrow> RtcpHeader" where "setPacketType v h = h\<lparr>rtcp_word0 := set_field 8 8 (ucast v) (rtcp_word0 h)\<rparr>"
definition getBlockCount :: "RtcpHeader \<Rightarrow> u8" where "getBlockCount h = ucast (get_field 0 5 (rtcp_word0 h))"
definition setBlockCount :: "u8 \<Rightarrow> RtcpHeader \<Rightarrow> RtcpHeader" where "setBlockCount v h = h\<lparr>rtcp_word0 := set_field 0 5 (ucast v) (rtcp_word0 h)\<rparr>"
definition getLength :: "RtcpHeader \<Rightarrow> u16" where "getLength h = bswap16 (ucast (get_field 16 16 (rtcp_word0 h)))"
definition setLength :: "u16 \<Rightarrow> RtcpHeader \<Rightarrow> RtcpHeader" where
  "setLength v h = h\<lparr>rtcp_word0 := set_field 16 16 (ucast (bswap16 v)) (rtcp_word0 h)\<rparr>"
definition rtcp_getSSRC :: "RtcpHeader \<Rightarrow> u32" where "rtcp_getSSRC h = bswap32 (rtcp_ssrc_word h)"
definition rtcp_setSSRC :: "u32 \<Rightarrow> RtcpHeader \<Rightarrow> RtcpHeader" where "rtcp_setSSRC v h = h\<lparr>rtcp_ssrc_word := bswap32 v\<rparr>"

definition isFeedback :: "RtcpHeader \<Rightarrow> bool" where
  "isFeedback h \<longleftrightarrow> (let pt = get_field 8 8 (rtcp_word0 h) in pt = 201 \<or> pt = 206 \<or> pt = 205)"
definition isRtcp :: "RtcpHeader \<Rightarrow> bool" where
  "isRtcp h \<longleftrightarrow> (let pt = get_field 8 8 (rtcp_word0 h) in pt = 200 \<or> pt = 204 \<or> isFeedback h)"

definition getSourceSSRC :: "RtcpHeader \<Rightarrow> u32" where "getSourceSSRC h = bswap32 (rtcp_report h ! 0)"
definition setSourceSSRC :: "u32 \<Rightarrow> RtcpHeader \<Rightarrow> RtcpHeader" where "setSourceSSRC v = upd_report 0 (\<lambda>_. bswap32 v)"
definition getFractionLost :: "RtcpHeader \<Rightarrow> u8" where "getFractionLost h = ucast (get_field 0 8 (rtcp_report h ! 1))"
definition setFractionLost :: "u8 \<Rightarrow> RtcpHeader \<Rightarrow> RtcpHeader" where "setFractionLost v = upd_report 1 (set_field 0 8 (ucast v))"

text \<open>\<^verbatim>\<open>lost\<close> is a signed bit-field of 24 bits.\<close>

definition getLostPackets :: "RtcpHeader \<Rightarrow> u32" where
  "getLostPackets h = drop_bit 8 (bswap32 (signed_take_bit 23 (get_field 8 24 (rtcp_report h ! 1))))"
definition setLostPackets :: "u32 \<Rightarrow> RtcpHeader \<Rightarrow> RtcpHeader" where
  "setLostPackets v = upd_report 1 (set_field 8 24 (drop_bit 8 (bswap32 v)))"
definition getSeqnumCycles :: "RtcpHeader \<Rightarrow> u16" where "getSeqnumCycles h = bswap16 (ucast (get_field 0 16 (rtcp_report h ! 2)))"
definition setSeqnumCycles :: "u16 \<Rightarrow> RtcpHeader \<Rightarrow> RtcpHeader" where "setSeqnumCycles v = upd_report 2 (set_field 0 16 (ucast (bswap16 v)))"
definition getHighestSeqnum :: "RtcpHeader \<Rightarrow> u16" where "getHighestSeqnum h = bswap16 (ucast (get_field 16 16 (rtcp_report h ! 2)))"
definition setHighestSeqnum :: "u16 \<Rightarrow> RtcpHeader \<Rightarrow> RtcpHeader" where "setHighestSeqnum v = upd_report 2 (set_field 16 16 (ucast (bswap16 v)))"
definition getJitter :: "RtcpHeader \<Rightarrow> u32" where "getJitter h = bswap32 (rtcp_report h ! 3)"
definition setJitter :: "u32 \<Rightarrow> RtcpHeader \<Rightarrow> RtcpHeader" where "setJitter v = upd_report 3 (\<lambda>_. bswap32 v)"
definition getLastSr :: "RtcpHeader \<Rightarrow> u32" where "getLastSr h = bswap32 (rtcp_report h ! 4)"
definition setLastSr :: "u32 \<Rightarrow> RtcpHeader \<Rightarrow> RtcpHeader" where "setLastSr v = upd_report 4 (\<lambda>_. bswap32 v)"
definition getDelaySinceLastSr :: "RtcpHeader \<Rightarrow> u32" where "getDelaySinceLastSr h = bswap32 (rtcp_report h ! 5)"
definition setDelaySinceLastSr :: "u32 \<Rightarrow> RtcpHeader \<Rightarrow> RtcpHeader" where "setDelaySinceLastSr v = upd_report 5 (\<lambda>_. bswap32 v)"

text \<open>Sender reports: a 64-bit time stamp, whose halves are swapped one by one, and the counters.\<close>

definition ntptimestamp :: "RtcpHeader \<Rightarrow> u64" where
  "ntptimestamp h = ucast (rtcp_report h ! 0) OR push_bit 32 (ucast (rtcp_report h ! 1))"
definition getNtpTimestamp :: "RtcpHeader \<Rightarrow> u64" where
  "getNtpTimestamp h = push_bit 32 (ucast (bswap32 (ucast (ntptimestamp h)))) + ucast (bswap32 (ucast (drop_bit 32 (ntptimestamp h))))"
definition getPacketsSent :: "RtcpHeader \<Rightarrow> u32" where "getPacketsSent h = bswap32 (rtcp_report h ! 3)"
definition setPacketsSent :: "u32 \<Rightarrow> RtcpHeader \<Rightarrow> RtcpHeader" where "setPacketsSent v = upd_report 3 (\<lambda>_. bswap32 v)"
definition getOctetsSent :: "RtcpHeader \<Rightarrow> u32" where "getOctetsSent h = bswap32 (rtcp_report h ! 4)"

text \<open>Generic negative acknowledgements; the mask of following losses is not converted.\<close>

definition getNackPid :: "RtcpHeader \<Rightarrow> u16" where "getNackPid h = bswap16 (ucast (get_field 0 16 (rtcp_report h ! 1)))"
definition setNackPid :: "u16 \<Rightarrow> RtcpHeader \<Rightarrow> RtcpHeader" where "setNackPid v = upd_report 1 (set_field 0 16 (ucast (bswap16 v)))"
definition getNackBlp :: "RtcpHeader \<Rightarrow> u16" where "getNackBlp h = ucast (get_field 16 16 (rtcp_report h ! 1))"
definition setNackBlp :: "u16 \<Rightarrow> RtcpHeader \<Rightarrow> RtcpHeader" where "setNackBlp v = upd_report 1 (set_field 16 16 (ucast v))"

text \<open>
  The loop of \<^verbatim>\<open>setREMBBitRate\<close> shifts a bound of 18 ones up until it exceeds the bit rate. The shift of the bit
  rate by 64 is undefined.
\<close>

function remb_exp_loop :: "u64 \<Rightarrow> u64 \<Rightarrow> nat \<Rightarrow> nat" where
  "remb_exp_loop bitRate bound ex = (if bound \<le> bitRate \<and> ex < 64 then remb_exp_loop bitRate (push_bit 1 bound) (ex + 1) else ex)"
  by auto
termination
  by (relation "measure (\<lambda>(_, _, ex). 64 - ex)") auto

declare remb_exp_loop.simps [simp del]

definition setREMBBitRate :: "u64 \<Rightarrow> RtcpHeader \<Rightarrow> RtcpHeader option" where
  "setREMBBitRate bitRate h =
     (let ex = remb_exp_loop bitRate 0x3FFFF 0
      in if ex \<ge> 64 then None
         else let mantissa = drop_bit ex bitRate AND 0x3FFFF;
                  line = ucast (mantissa + push_bit 18 (word_of_nat ex AND 0x3F)) :: u32
              in Some (upd_report 2 (set_field 8 24 (drop_bit 8 (bswap32 line))) h))"

definition getBrExp :: "RtcpHeader \<Rightarrow> u32" where "getBrExp h = drop_bit 26 (bswap32 (get_field 8 24 (rtcp_report h ! 2)))"
definition getBrMantis :: "RtcpHeader \<Rightarrow> u32" where "getBrMantis h = drop_bit 8 (bswap32 (get_field 8 24 (rtcp_report h ! 2))) AND 0x3ffff"
definition getREMBNumSSRC :: "RtcpHeader \<Rightarrow> u8" where "getREMBNumSSRC h = ucast (get_field 0 8 (rtcp_report h ! 2))"
definition setREMBNumSSRC :: "u8 \<Rightarrow> RtcpHeader \<Rightarrow> RtcpHeader" where "setREMBNumSSRC v = upd_report 2 (set_field 0 8 (ucast v))"
definition getREMBFeedSSRC :: "RtcpHeader \<Rightarrow> u32" where "getREMBFeedSSRC h = bswap32 (rtcp_report h ! 3)"
definition setREMBFeedSSRC :: "u32 \<Rightarrow> RtcpHeader \<Rightarrow> RtcpHeader" where "setREMBFeedSSRC v = upd_report 3 (\<lambda>_. bswap32 v)"
definition getFCI :: "RtcpHeader \<Rightarrow> u32" where "getFCI h = bswap32 (rtcp_report h ! 1)"
definition setFCI :: "u32 \<Rightarrow> RtcpHeader \<Rightarrow> RtcpHeader" where "setFCI v = upd_report 1 (\<lambda>_. bswap32 v)"

section \<open>The fields of an RTP header\<close>

record rtp_view =
  vw_padding :: u8
  vw_version :: u8
  vw_marker :: u8
  vw_extension :: u8
  vw_cc :: u8
  vw_payload_type :: u8
  vw_seq :: u16
  vw_timestamp :: u32
  vw_ssrc :: u32
  vw_ext_id :: u16
  vw_ext_length :: u16

definition rtp_view_of :: "RtpHeader \<Rightarrow> rtp_view" where
  "rtp_view_of h = \<lparr>vw_padding = hasPadding h, vw_version = getVersion h, vw_marker = getMarker h, vw_extension = getExtension h,
     vw_cc = getCc h, vw_payload_type = getPayloadType h, vw_seq = getSeqNumber h, vw_timestamp = getTimestamp h,
     vw_ssrc = getSSRC h, vw_ext_id = getExtId h, vw_ext_length = getExtLength h\<rparr>"

lemmas rtp_getters = hasPadding_def getVersion_def getMarker_def getExtension_def getCc_def getPayloadType_def getSeqNumber_def
  getTimestamp_def getSSRC_def getExtId_def getExtLength_def

lemmas rtp_setters = setVersion_def setMarker_def setExtension_def setCc_def setPayloadType_def setSeqNumber_def setTimestamp_def
  setSSRC_def setExtId_def setExtLength_def

lemma ucast_take_u8: "n \<le> 8 \<Longrightarrow> ucast (take_bit n (ucast (v :: u8) :: u32)) = take_bit n v"
  by (rule u8_eqI) (auto simp: bit_simps)

lemma ucast_take_u16: "ucast (take_bit 16 (ucast (v :: u16) :: u32)) = v"
  by (rule u16_eqI) (auto simp: bit_simps)

text \<open>
  C37. Each setter of the RTP header changes its own field, cut to the width of the field, and no other one.
\<close>

theorem rtp_setters_refine:
  "rtp_view_of (setVersion v h) = (rtp_view_of h)\<lparr>vw_version := take_bit 2 v\<rparr> \<and>
   rtp_view_of (setMarker v h) = (rtp_view_of h)\<lparr>vw_marker := take_bit 1 v\<rparr> \<and>
   rtp_view_of (setExtension v h) = (rtp_view_of h)\<lparr>vw_extension := take_bit 1 v\<rparr> \<and>
   rtp_view_of (setCc v h) = (rtp_view_of h)\<lparr>vw_cc := take_bit 4 v\<rparr> \<and>
   rtp_view_of (setPayloadType v h) = (rtp_view_of h)\<lparr>vw_payload_type := take_bit 7 v\<rparr> \<and>
   rtp_view_of (setSeqNumber x h) = (rtp_view_of h)\<lparr>vw_seq := x\<rparr> \<and>
   rtp_view_of (setTimestamp y h) = (rtp_view_of h)\<lparr>vw_timestamp := y\<rparr> \<and>
   rtp_view_of (setSSRC y h) = (rtp_view_of h)\<lparr>vw_ssrc := y\<rparr> \<and>
   rtp_view_of (setExtId x h) = (rtp_view_of h)\<lparr>vw_ext_id := x\<rparr> \<and>
   rtp_view_of (setExtLength x h) = (rtp_view_of h)\<lparr>vw_ext_length := x\<rparr>"
  by (intro conjI; simp add: rtp_view_of_def rtp_getters rtp_setters field_simps ucast_take_u8 ucast_take_u8 [of 1, simplified] ucast_take_u16)

lemma get_field_le32:
  "ucast (get_field 0 4 (le32 a b c d)) = a AND 0x0f" "ucast (get_field 4 1 (le32 a b c d)) = drop_bit 4 a AND 1"
  "ucast (get_field 5 1 (le32 a b c d)) = drop_bit 5 a AND 1" "ucast (get_field 6 2 (le32 a b c d)) = drop_bit 6 a"
  "ucast (get_field 8 7 (le32 a b c d)) = b AND 0x7f" "ucast (get_field 15 1 (le32 a b c d)) = drop_bit 7 b"
proof -
  have m: "x AND 0x0f = take_bit 4 x" "x AND 1 = take_bit 1 x" "x AND 0x7f = take_bit 7 x" for x :: u8
    by (simp_all add: take_bit_eq_mask mask_eq_exp_minus_1)
  show "ucast (get_field 0 4 (le32 a b c d)) = a AND 0x0f" "ucast (get_field 4 1 (le32 a b c d)) = drop_bit 4 a AND 1"
    "ucast (get_field 5 1 (le32 a b c d)) = drop_bit 5 a AND 1" "ucast (get_field 6 2 (le32 a b c d)) = drop_bit 6 a"
    "ucast (get_field 8 7 (le32 a b c d)) = b AND 0x7f" "ucast (get_field 15 1 (le32 a b c d)) = drop_bit 7 b"
    unfolding m by (rule u8_eqI; auto simp: bit_simps bit_get_field bit_le32 add.commute even_drop_bit_iff_not_bit dest: bit_imp_le_length)+
qed

lemma half_le32:
  "ucast (get_field 0 16 (le32 a b c d)) = (ucast a OR push_bit 8 (ucast b) :: u16)"
  "ucast (get_field 16 16 (le32 a b c d)) = (ucast c OR push_bit 8 (ucast d) :: u16)"
  by (rule u16_eqI; auto simp: bit_simps bit_get_field bit_le32 add.commute dest: bit_imp_le_length)+

lemma bswap16_le: "bswap16 (ucast a OR push_bit 8 (ucast b)) = be16 a b"
  by (rule u16_eqI) (auto simp: bit_bswap16 be16_def bit_simps dest: bit_imp_le_length)

lemma RtpHeader_at_octets:
  assumes "20 \<le> length m"
  shows "RtpHeader_at m = Some \<lparr>rtp_word0 = le32 (m ! 0) (m ! 1) (m ! 2) (m ! 3), rtp_timestamp = le32 (m ! 4) (m ! 5) (m ! 6) (m ! 7),
    rtp_ssrc = le32 (m ! 8) (m ! 9) (m ! 10) (m ! 11), rtp_ext_word = le32 (m ! 12) (m ! 13) (m ! 14) (m ! 15),
    rtp_extensions = le32 (m ! 16) (m ! 17) (m ! 18) (m ! 19)\<rparr>"
  using assms by (simp add: RtpHeader_at_def load32_def load8_def del: length_greater_0_conv)

text \<open>
  C36. The accessors read the fields of RFC 3550 where they are on the wire: version, padding, extension and source
  count in the first octet, marker and payload type in the second, and the sequence number, the time stamp and the
  source in network byte order. For a packet without contributing sources they also find the identifier and the length
  of the extension, in octets 12 to 15; with contributing sources those octets hold the first of them, and the accessors
  of the extension read it instead.
\<close>

theorem rtp_getters_rfc3550:
  assumes "20 \<le> length m"
  shows "\<exists>h. RtpHeader_at m = Some h \<and> hasPadding h = drop_bit 5 (m ! 0) AND 1 \<and> getVersion h = drop_bit 6 (m ! 0) \<and>
    getMarker h = drop_bit 7 (m ! 1) \<and> getExtension h = drop_bit 4 (m ! 0) AND 1 \<and> getCc h = m ! 0 AND 0x0f \<and>
    getPayloadType h = m ! 1 AND 0x7f \<and> getSeqNumber h = be16 (m ! 2) (m ! 3) \<and>
    getTimestamp h = be32 (m ! 4) (m ! 5) (m ! 6) (m ! 7) \<and> getSSRC h = be32 (m ! 8) (m ! 9) (m ! 10) (m ! 11) \<and>
    (getCc h = 0 \<longrightarrow> getExtId h = be16 (m ! 12) (m ! 13) \<and> getExtLength h = be16 (m ! 14) (m ! 15))"
  by (simp add: RtpHeader_at_octets [OF assms] rtp_getters get_field_le32 half_le32 bswap16_le bswap32_le32 be32_def del: One_nat_def)

theorem rtp_getters_rfc3550_witness:
  "\<exists>h. RtpHeader_at ([0x90, 0xe0, 1, 2] @ replicate 8 0 @ [0xBE, 0xDE, 0, 1] @ replicate 4 0) = Some h \<and> getVersion h = 2 \<and>
     getExtension h = 1 \<and> getCc h = 0 \<and> getMarker h = 1 \<and> getPayloadType h = 96 \<and> getSeqNumber h = 258 \<and>
     getExtId h = 0xBEDE \<and> getExtLength h = 1"
proof -
  have "20 \<le> length ([0x90, 0xe0, 1, 2] @ replicate 8 0 @ [0xBE, 0xDE, 0, 1] @ replicate 4 (0 :: u8))" by simp
  from rtp_getters_rfc3550 [OF this] show ?thesis by (auto simp: be16_def nth_append)
qed

section \<open>The length of the header\<close>

lemma bit_field_1: "uint (get_field 4 1 (le32 a b c d)) = of_bool (bit a 4)"
proof -
  have "get_field 4 1 (le32 a b c d) = of_bool (bit a 4)"
    by (rule u32_eqI) (auto simp: bit_simps bit_get_field bit_le32)
  then show ?thesis by simp
qed

lemma bit_field_cc: "uint (get_field 0 4 (le32 a b c d)) = uint (a AND 0x0f)"
proof -
  have "uint (ucast (a AND 0x0f) :: u32) = uint (a AND 0x0f)" by (rule uint_up_ucast) (simp add: is_up)
  moreover have "a AND 0x0f = take_bit 4 a" by (simp add: take_bit_eq_mask mask_eq_exp_minus_1)
  then have "get_field 0 4 (le32 a b c d) = ucast (a AND 0x0f)"
    by (intro u32_eqI) (auto simp: bit_simps bit_get_field bit_le32)
  ultimately show ?thesis by simp
qed

text \<open>
  \<^verbatim>\<open>getHeaderLength\<close> finds the payload where the SRTP library finds it, for packets without an extension and
  for those with an extension and no contributing sources.
\<close>

theorem getHeaderLength_correct:
  assumes "20 \<le> length m" and "bit (m ! 0) 4 \<longrightarrow> m ! 0 AND 0x0f = 0"
  shows "map_option getHeaderLength (RtpHeader_at m) = rtp_enc_start m"
  using assms
  by (auto simp: RtpHeader_at_octets getHeaderLength_def RtpHeader_MIN_SIZE_def rtp_enc_start_def load16_def load8_def hdr_cc_def hdr_x_def
      uint32s_in_rtp_header_def bit_field_1 bit_field_cc half_le32 bswap16_le simp del: One_nat_def)

theorem getHeaderLength_correct_witness:
  "map_option getHeaderLength (RtpHeader_at ([0x90, 0, 0, 1] @ replicate 11 0 @ [2] @ replicate 8 0)) =
     rtp_enc_start ([0x90, 0, 0, 1] @ replicate 11 0 @ [2] @ replicate 8 0)"
proof (rule getHeaderLength_correct)
  show "bit (([0x90, 0, 0, 1] @ replicate 11 0 @ [2] @ replicate 8 0) ! 0) 4 \<longrightarrow>
      ([0x90, 0, 0, 1] @ replicate 11 0 @ [2] @ replicate 8 0) ! 0 AND 0x0f = (0 :: u8)" by code_simp
qed simp

text \<open>
  With contributing sources in front of the extension \<^verbatim>\<open>getHeaderLength\<close> takes the length of the extension from
  the first of these sources: here the header has 24 octets and the accessor says 40.
\<close>

theorem getHeaderLength_csrc:
  "let m = [0x91, 0, 0, 1] @ replicate 8 0 @ [0, 0, 0, 5] @ [0xbe, 0xde, 0, 1] @ replicate 8 0
   in rtp_enc_start m = Some 24 \<and> map_option getHeaderLength (RtpHeader_at m) = Some 40"
  unfolding Let_def by (intro conjI; code_simp)

section \<open>Redundant payloads\<close>

text \<open>
  Of a RED block header the time offset is read correctly, and the block length 256 times too large: the mask
  keeps the ten bits where they are.
\<close>

theorem RedHeader_fields:
  "red_getTS (le32 a b c d) = push_bit 6 (ucast b) OR ucast (drop_bit 2 c) \<and>
   red_getLength (le32 a b c d) = 256 * (push_bit 8 (ucast (c AND 3)) OR ucast d)"
proof
  have w: "bswap32 (get_field 8 24 (le32 a b c d)) = le32 0 d c b"
  proof -
    have "get_field 8 24 (le32 a b c d) = le32 b c d 0" by (rule u32_eqI) (auto simp: bit_get_field bit_le32 add.commute)
    then show ?thesis by (simp add: bswap32_le32)
  qed
  have ts: "(0xfffc0000 :: u32) = push_bit 18 (mask 14)" by (simp add: mask_eq_exp_minus_1)
  show "red_getTS (le32 a b c d) = push_bit 6 (ucast b) OR ucast (drop_bit 2 c)"
    unfolding red_getTS_def w ts by (intro u32_eqI) (auto simp: bit_simps bit_le32 add.commute dest: bit_imp_le_length)
  have le32_and: "le32 a b c d AND le32 a' b' c' d' = le32 (a AND a') (b AND b') (c AND c') (d AND d')" for a b c d a' b' c' d'
    by (rule u32_eqI) (simp add: bit_and_iff bit_le32)
  have m: "(0x3ff00 :: u32) = le32 0 (- 1) 3 0" by code_simp
  have "red_getLength (le32 a b c d) = le32 0 d (c AND 3) 0" unfolding red_getLength_def w m le32_and by simp
  also have "\<dots> = push_bit 8 (push_bit 8 (ucast (c AND 3)) OR ucast d)"
    by (simp add: le32_def push_bit_or push_bit_push_bit or.commute del: push_bit_and)
  also have "\<dots> = 256 * (push_bit 8 (ucast (c AND 3)) OR ucast d)" by (simp only: push_bit_eq_mult) simp
  finally show "red_getLength (le32 a b c d) = 256 * (push_bit 8 (ucast (c AND 3)) OR ucast d)" .
qed

section \<open>The bit rate of a REMB message\<close>

lemma remb_exp_loop_spec:
  assumes "unat b < 262143 * 2 ^ 46" and "e0 \<le> 46" and "bound = push_bit e0 262143"
    and "e0 = 0 \<or> 262143 * 2 ^ (e0 - 1) \<le> unat b"
  shows "\<exists>r \<le> 46. remb_exp_loop b bound e0 = r \<and> unat b < 262143 * 2 ^ r"
  using assms
proof (induction "46 - e0" arbitrary: e0 bound)
  case 0
  have "unat (push_bit 46 262143 :: u64) = 262143 * 2 ^ 46" by simp
  then have "\<not> bound \<le> b" using 0 by (simp add: word_le_nat_alt)
  then show ?case using 0 by (subst remb_exp_loop.simps) auto
next
  case (Suc k)
  have "(262143 :: nat) * 2 ^ e0 < 2 ^ 64"
  proof -
    have "(2 :: nat) ^ e0 \<le> 2 ^ 46" using Suc.prems(2) by (intro power_increasing) simp_all
    then show ?thesis by simp
  qed
  moreover have "push_bit e0 (262143 :: u64) = word_of_nat (262143 * 2 ^ e0)" by (simp add: push_bit_eq_mult)
  ultimately have "unat (push_bit e0 262143 :: u64) = 262143 * 2 ^ e0"
    by (simp only: unsigned_of_nat of_nat_id take_bit_nat_eq_self len_num1 len_bit0) (simp add: take_bit_nat_eq_self)
  then have le: "bound \<le> b \<longleftrightarrow> 262143 * 2 ^ e0 \<le> unat b" using Suc.prems(3) by (simp add: word_le_nat_alt)
  show ?case
  proof (cases "bound \<le> b")
    case True
    have "\<exists>r \<le> 46. remb_exp_loop b (push_bit 1 bound) (e0 + 1) = r \<and> unat b < 262143 * 2 ^ r"
      by (rule Suc.hyps(1)) (use Suc True le in \<open>auto simp: push_bit_push_bit simp del: push_bit_numeral\<close>)
    then show ?thesis using True Suc.prems(2) by (subst remb_exp_loop.simps) simp
  next
    case False
    then show ?thesis using le Suc.prems(2) by (subst remb_exp_loop.simps) auto
  qed
qed

lemma bswap32_field: "bswap32 (take_bit 24 (drop_bit 8 (bswap32 w))) = push_bit 8 w"
proof (rule le32_cases [of w])
  fix a b c d assume w: "w = le32 a b c d"
  have "take_bit 24 (drop_bit 8 (le32 d c b a)) = le32 c b a 0" by (rule u32_eqI) (auto simp: bit_simps bit_le32 add.commute)
  moreover have "push_bit 8 (le32 a b c d) = le32 0 a b c" by (rule u32_eqI) (auto simp: bit_simps bit_le32)
  ultimately show ?thesis using w by (simp add: bswap32_le32)
qed

lemma unat_u32_of_nat: "n < 2 ^ 32 \<Longrightarrow> unat (word_of_nat n :: u32) = n"
  by (simp add: unsigned_of_nat take_bit_nat_eq_self)

lemma unat_drop_bit: "unat (drop_bit n w) = unat w div 2 ^ n" for w :: "'a :: len word"
  unfolding unsigned_drop_bit_eq by (simp only: drop_bit_eq_div take_bit_nat_eq_self [OF unsigned_less])

lemma unat_eqD: "unat w = n \<Longrightarrow> w = word_of_nat n" for w :: "'a :: len word"
  by auto

lemma remb_word:
  assumes "m < 2 ^ 18" and "r < 64"
  defines "w \<equiv> push_bit 8 (word_of_nat (m + r * 2 ^ 18) :: u32)"
  shows "drop_bit 26 w = word_of_nat r" and "drop_bit 8 w AND 0x3ffff = word_of_nat m"
proof -
  let ?l = "m + r * 2 ^ 18"
  have l: "?l < 2 ^ 24" using assms(1,2) by simp
  have "w = word_of_nat (?l * 256)" by (simp add: w_def push_bit_eq_mult algebra_simps)
  then have w: "unat w = ?l * 256" by (simp only:) (rule unat_u32_of_nat, use l in simp)
  have "unat (drop_bit 26 w) = r" unfolding unat_drop_bit w using assms(1) by simp
  then show "drop_bit 26 w = word_of_nat r" by (rule unat_eqD)
  have "unat (drop_bit 8 w) = ?l" unfolding unat_drop_bit w by simp
  then have "unat (take_bit 18 (drop_bit 8 w)) = m" using assms(1) by (simp only: unsigned_take_bit_eq) (simp add: take_bit_eq_mod)
  moreover have "drop_bit 8 w AND 0x3ffff = take_bit 18 (drop_bit 8 w)" by (simp add: take_bit_eq_mask mask_eq_exp_minus_1)
  ultimately have "unat (drop_bit 8 w AND 0x3ffff) = m" by (simp only:)
  then show "drop_bit 8 w AND 0x3ffff = word_of_nat m" by (rule unat_eqD)
qed

lemma setREMBBitRate_fields:
  assumes "unat b < 262143 * 2 ^ 46" and "2 < length (rtcp_report h)"
  obtains h' r where "setREMBBitRate b h = Some h'" and "r \<le> 46" and "getBrExp h' = word_of_nat r"
    and "getBrMantis h' = word_of_nat (unat b div 2 ^ r)" and "unat b div 2 ^ r < 262143"
    and "getREMBNumSSRC h' = getREMBNumSSRC h" and "\<And>i. i \<noteq> 2 \<Longrightarrow> rtcp_report h' ! i = rtcp_report h ! i"
    and "rtcp_word0 h' = rtcp_word0 h" and "rtcp_ssrc_word h' = rtcp_ssrc_word h"
proof -
  obtain r where r: "r \<le> 46" "remb_exp_loop b 262143 0 = r" "unat b < 262143 * 2 ^ r"
    using remb_exp_loop_spec [OF assms(1), of 0 262143] by auto
  let ?m = "unat b div 2 ^ r"
  have m: "?m < 262143" using r(3) by (simp add: less_mult_imp_div_less)
  have "drop_bit r b AND 0x3FFFF = word_of_nat ?m"
  proof -
    have "unat (drop_bit r b) = ?m" by (rule unat_drop_bit)
    moreover have "drop_bit r b AND 0x3FFFF = take_bit 18 (drop_bit r b)" by (simp add: take_bit_eq_mask mask_eq_exp_minus_1)
    ultimately have "unat (drop_bit r b AND 0x3FFFF) = ?m" using m by (simp add: unsigned_take_bit_eq take_bit_nat_eq_self)
    then show ?thesis by (rule unat_eqD)
  qed
  moreover have "word_of_nat r AND (0x3F :: u64) = word_of_nat r"
  proof -
    have "word_of_nat r AND (0x3F :: u64) = take_bit 6 (word_of_nat r)" by (simp add: take_bit_eq_mask mask_eq_exp_minus_1)
    also have "\<dots> = word_of_nat (take_bit 6 r)" by (simp add: take_bit_of_nat)
    also have "take_bit 6 r = r" using r(1) by (simp add: take_bit_nat_eq_self)
    finally show ?thesis .
  qed
  moreover have "ucast (word_of_nat ?m + push_bit 18 (word_of_nat r) :: u64) = (word_of_nat (?m + r * 2 ^ 18) :: u32)"
  proof -
    have "word_of_nat ?m + push_bit 18 (word_of_nat r) = (word_of_nat (?m + r * 2 ^ 18) :: u64)" by (simp add: push_bit_eq_mult)
    moreover have "ucast (word_of_nat n :: u64) = (word_of_nat n :: u32)" if "n < 2 ^ 24" for n
      using that by (intro unat_eqD) (simp add: unsigned_ucast_eq unsigned_of_nat take_bit_nat_eq_self)
    moreover have "?m + r * 2 ^ 18 < 2 ^ 24" using m r(1) by simp
    ultimately show ?thesis by (simp only:)
  qed
  ultimately have run: "setREMBBitRate b h =
      Some (upd_report 2 (set_field 8 24 (drop_bit 8 (bswap32 (word_of_nat (?m + r * 2 ^ 18))))) h)" (is "_ = Some ?h")
    using r(1,2) by (simp add: setREMBBitRate_def)
  have f: "bswap32 (get_field 8 24 (rtcp_report ?h ! 2)) = push_bit 8 (word_of_nat (?m + r * 2 ^ 18))"
    using assms(2) by (simp add: upd_report_def get_set_field bswap32_field)
  have small: "?m < 2 ^ 18" "r < 64" using m r(1) by simp_all
  have br: "getBrExp ?h = word_of_nat r" "getBrMantis ?h = word_of_nat ?m"
    unfolding getBrExp_def getBrMantis_def f by (rule remb_word [OF small])+
  show ?thesis
    by (rule that [OF run r(1) br m]) (use assms(2) in \<open>simp_all add: getREMBNumSSRC_def upd_report_def get_set_other\<close>)
qed

lemma remb_bounds: "e < 64 \<Longrightarrow> push_bit e 262143 \<le> (0xFFFFC00000000000 :: u64)"
proof -
  have "list_all (\<lambda>e. push_bit e 262143 \<le> (0xFFFFC00000000000 :: u64)) [0..<64]" by code_simp
  then show "e < 64 \<Longrightarrow> push_bit e 262143 \<le> (0xFFFFC00000000000 :: u64)" by (auto simp: list_all_iff simp del: upt_rec_numeral)
qed

lemma remb_exp_loop_over:
  assumes "0xFFFFC00000000000 \<le> b" and "e \<le> 64"
  shows "remb_exp_loop b (push_bit e 262143) e = 64"
  using assms(2)
proof (induction "64 - e" arbitrary: e)
  case 0
  then show ?case by (subst remb_exp_loop.simps) simp
next
  case (Suc k)
  then have le: "push_bit e 262143 \<le> b" by (intro order.trans [OF remb_bounds assms(1)]) simp
  have "remb_exp_loop b (push_bit (Suc e) 262143) (Suc e) = 64" by (rule Suc.hyps(1)) (use Suc in simp_all)
  moreover have "push_bit 1 (push_bit e (262143 :: u64)) = push_bit (Suc e) 262143" by (simp only: push_bit_push_bit) simp
  ultimately have "remb_exp_loop b (push_bit 1 (push_bit e 262143)) (e + 1) = 64" by (simp only: Suc_eq_plus1)
  moreover have "e < 64" using Suc by simp
  ultimately show ?case using le by (subst remb_exp_loop.simps) (simp only: simp_thms if_True)
qed

text \<open>
  C38. \<^verbatim>\<open>setREMBBitRate\<close> stores every bit rate below 262143 shifted by 46 as the mantissa of 18 bits and the exponent that
  round it down, and leaves every other field of the message alone. From \<^verbatim>\<open>0xFFFFC00000000000\<close> on its loop ends at the exponent 64
  and the shift of the bit rate that follows is undefined.
\<close>

theorem setREMBBitRate_correct:
  assumes "2 < length (rtcp_report h)"
  shows "(b < push_bit 46 0x3FFFF \<longrightarrow> (\<exists>h'. setREMBBitRate b h = Some h' \<and>
            unat (getBrMantis h') * 2 ^ unat (getBrExp h') \<le> unat b \<and>
            unat b < (unat (getBrMantis h') + 1) * 2 ^ unat (getBrExp h') \<and>
            h' = h\<lparr>rtcp_report := (rtcp_report h)[2 := rtcp_report h' ! 2]\<rparr> \<and> getREMBNumSSRC h' = getREMBNumSSRC h)) \<and>
         (0xFFFFC00000000000 \<le> b \<longrightarrow> setREMBBitRate b h = None)"
proof (intro conjI impI)
  assume "b < push_bit 46 0x3FFFF"
  then have "unat b < 262143 * 2 ^ 46" by (simp add: word_less_nat_alt)
  from setREMBBitRate_fields [OF this assms] obtain h' r where h: "setREMBBitRate b h = Some h'" "r \<le> 46"
    "getBrExp h' = word_of_nat r" "getBrMantis h' = word_of_nat (unat b div 2 ^ r)" "unat b div 2 ^ r < 262143"
    "getREMBNumSSRC h' = getREMBNumSSRC h" by metis
  have v: "unat (getBrExp h') = r" "unat (getBrMantis h') = unat b div 2 ^ r"
    unfolding h(3,4) by (rule unat_u32_of_nat, use h(2,5) in simp)+
  have "h' = h\<lparr>rtcp_report := (rtcp_report h)[2 := rtcp_report h' ! 2]\<rparr>"
    using h(1) assms by (auto simp: setREMBBitRate_def Let_def upd_report_def split: if_splits)
  moreover have "unat b < (unat b div 2 ^ r + 1) * 2 ^ r"
    using dividend_less_div_times [of "2 ^ r" "unat b"] by simp
  ultimately show "\<exists>h'. setREMBBitRate b h = Some h' \<and> unat (getBrMantis h') * 2 ^ unat (getBrExp h') \<le> unat b \<and>
      unat b < (unat (getBrMantis h') + 1) * 2 ^ unat (getBrExp h') \<and>
      h' = h\<lparr>rtcp_report := (rtcp_report h)[2 := rtcp_report h' ! 2]\<rparr> \<and> getREMBNumSSRC h' = getREMBNumSSRC h"
    using h(1,6) by (intro exI [of _ h']) (simp add: v)
next
  assume "0xFFFFC00000000000 \<le> b"
  then show "setREMBBitRate b h = None" using remb_exp_loop_over [of b 0] by (simp add: setREMBBitRate_def)
qed

theorem setREMBBitRate_correct_witness:
  "(\<exists>h'. setREMBBitRate 1000000 (RtcpHeader_new (replicate 12 0)) = Some h' \<and>
      unat (getBrMantis h') * 2 ^ unat (getBrExp h') \<le> 1000000) \<and>
   setREMBBitRate (- 1) (RtcpHeader_new (replicate 12 0)) = None"
proof -
  have "2 < length (rtcp_report (RtcpHeader_new (replicate 12 0)))" by (simp add: RtcpHeader_new_def)
  note c = setREMBBitRate_correct [OF this]
  have "(1000000 :: u64) < push_bit 46 0x3FFFF" "(0xFFFFC00000000000 :: u64) \<le> - 1" by simp_all
  then show ?thesis using c [of 1000000] c [of "- 1"] by auto
qed

section \<open>Round trips of the RTCP fields\<close>

lemmas rtcp_getters = getPacketType_def getBlockCount_def getLength_def rtcp_getSSRC_def getSourceSSRC_def getFractionLost_def
  getSeqnumCycles_def getHighestSeqnum_def getJitter_def getLastSr_def getDelaySinceLastSr_def getPacketsSent_def
  getNackPid_def getNackBlp_def getREMBNumSSRC_def getREMBFeedSSRC_def getFCI_def

lemmas rtcp_setters = setPacketType_def setBlockCount_def setLength_def rtcp_setSSRC_def setSourceSSRC_def setFractionLost_def
  setSeqnumCycles_def setHighestSeqnum_def setJitter_def setLastSr_def setDelaySinceLastSr_def setPacketsSent_def
  setNackPid_def setNackBlp_def setREMBNumSSRC_def setREMBFeedSSRC_def setFCI_def

text \<open>The sign of the bit-field of the lost packets ends in the octet that the shift of its getter drops.\<close>

lemma getLostPackets_set:
  assumes "1 < length (rtcp_report h)"
  shows "getLostPackets (setLostPackets v h) = take_bit 24 v"
proof (rule le32_cases [of v])
  fix a b c d assume v: "v = le32 a b c d"
  have "take_bit 24 (drop_bit 8 (bswap32 v)) = le32 c b a 0"
    unfolding v bswap32_le32 by (rule u32_eqI) (auto simp: bit_simps bit_le32 add.commute)
  moreover have "signed_take_bit 23 (le32 c b a 0) = le32 c b a (if bit a 7 then - 1 else 0)"
  proof (rule u32_eqI)
    fix n :: nat assume "n < 32"
    then consider "n < 23" | "n = 23" | "23 < n" by linarith
    then show "bit (signed_take_bit 23 (le32 c b a 0)) n = bit (le32 c b a (if bit a 7 then - 1 else 0)) n"
      using \<open>n < 32\<close> by cases (auto simp: bit_signed_take_bit_iff bit_le32 min_def)
  qed
  moreover have "drop_bit 8 (le32 x a b c) = take_bit 24 v" for x
    unfolding v by (rule u32_eqI) (auto simp: bit_simps bit_le32 add.commute)
  ultimately show ?thesis
    using assms by (simp add: getLostPackets_def setLostPackets_def upd_report_def get_set_field bswap32_le32)
qed

text \<open>
  What a setter of the RTCP header stores its getter returns, cut to the width of the field, on every header whose report is
  in the buffer.
\<close>

theorem rtcp_roundtrip:
  assumes "length (rtcp_report h) = 12"
  shows "getPacketType (setPacketType v h) = v \<and> getBlockCount (setBlockCount v h) = take_bit 5 v \<and> getLength (setLength x h) = x \<and>
    rtcp_getSSRC (rtcp_setSSRC y h) = y \<and> getSourceSSRC (setSourceSSRC y h) = y \<and> getFractionLost (setFractionLost v h) = v \<and>
    getLostPackets (setLostPackets y h) = take_bit 24 y \<and> getSeqnumCycles (setSeqnumCycles x h) = x \<and>
    getHighestSeqnum (setHighestSeqnum x h) = x \<and> getJitter (setJitter y h) = y \<and> getLastSr (setLastSr y h) = y \<and>
    getDelaySinceLastSr (setDelaySinceLastSr y h) = y \<and> getPacketsSent (setPacketsSent y h) = y \<and>
    getNackPid (setNackPid x h) = x \<and> getNackBlp (setNackBlp x h) = x \<and> getREMBNumSSRC (setREMBNumSSRC v h) = v \<and>
    getREMBFeedSSRC (setREMBFeedSSRC y h) = y \<and> getFCI (setFCI y h) = y"
  using getLostPackets_set [of h y] take_bit_word_eq_self [of 8 v] assms
  by (intro conjI; simp add: rtcp_getters rtcp_setters upd_report_def field_simps ucast_take_u8 ucast_take_u16)

theorem rtcp_roundtrip_witness: "getLostPackets (setLostPackets 0x8000ff (RtcpHeader_new (replicate 12 0))) = 0x8000ff"
proof -
  have "length (rtcp_report (RtcpHeader_new (replicate 12 0))) = 12" by (simp add: RtcpHeader_new_def)
  from rtcp_roundtrip [OF this, where y = "0x8000ff"] show ?thesis by simp
qed

end
