(* ===== verification/Stun_Message.thy ===== *)
theory Stun_Message
  imports Packet_Memory
begin

text \<open>
  STUN messages: \<^verbatim>\<open>libnice/stun/utils.c\<close>, \<^verbatim>\<open>stunmessage.c\<close> and the part of \<^verbatim>\<open>stun5389.c\<close> they use. A message is
  a buffer; a pointer into it is an offset, and a null pointer is \<open>None\<close>. The outer \<open>None\<close> is an access outside the
  buffer. Sizes are 32 bits wide, the length field and its arithmetic 16.
\<close>

section \<open>Octets and words of a message\<close>

definition stun_padding :: "u32 \<Rightarrow> u32" where
  "stun_padding l = (4 - (l AND 3)) AND 3"

definition stun_align :: "u32 \<Rightarrow> u32" where
  "stun_align l = (l + 3) AND NOT 3"

definition stun_getw :: "octets \<Rightarrow> int \<Rightarrow> u16 option" where
  "stun_getw m p = do { a \<leftarrow> load8 m p; b \<leftarrow> load8 m (p + 1); Some (be16 a b) }"

definition stun_setw :: "octets \<Rightarrow> int \<Rightarrow> u16 \<Rightarrow> octets option" where
  "stun_setw m p v = do { m \<leftarrow> store m p [ucast (drop_bit 8 v)]; store m (p + 1) [ucast (v AND 0xff)] }"

datatype StunClass = STUN_REQUEST | STUN_INDICATION | STUN_RESPONSE | STUN_ERROR

fun class_code :: "StunClass \<Rightarrow> u32" where
  "class_code STUN_REQUEST = 0"
| "class_code STUN_INDICATION = 1"
| "class_code STUN_RESPONSE = 2"
| "class_code STUN_ERROR = 3"

definition class_of_code :: "u16 \<Rightarrow> StunClass" where
  "class_of_code n = (if n = 0 then STUN_REQUEST else if n = 1 then STUN_INDICATION else if n = 2 then STUN_RESPONSE else STUN_ERROR)"

text \<open>A method is a number: the ones that arrive need not be enumerators.\<close>

type_synonym StunMethod = u32

definition stun_set_type :: "octets \<Rightarrow> int \<Rightarrow> StunClass \<Rightarrow> StunMethod \<Rightarrow> octets option" where
  "stun_set_type h p c m = do {
     h \<leftarrow> store h p [ucast (drop_bit 1 (class_code c) OR (drop_bit 6 m AND 0x3e))];
     store h (p + 1) [ucast ((push_bit 4 (class_code c) AND 0x10) OR (push_bit 1 m AND 0xe0) OR (m AND 0x0f))]
   }"

section \<open>Messages and agents\<close>

datatype StunCompatibility =
    STUN_COMPATIBILITY_RFC3489
  | STUN_COMPATIBILITY_RFC5389
  | STUN_COMPATIBILITY_WLM2009
  | STUN_COMPATIBILITY_OC2007

datatype StunMessageReturn =
    STUN_MESSAGE_RETURN_SUCCESS
  | STUN_MESSAGE_RETURN_NOT_FOUND
  | STUN_MESSAGE_RETURN_INVALID
  | STUN_MESSAGE_RETURN_NOT_ENOUGH_SPACE
  | STUN_MESSAGE_RETURN_UNSUPPORTED_ADDRESS

text \<open>The members of the agent that the functions on messages read. Only \<^verbatim>\<open>stun_agent_init\<close> writes them.\<close>

record agent_config =
  compatibility :: StunCompatibility
  usage_flags :: u32

record StunMessage =
  msg_agent :: "agent_config option"
  msg_buffer :: octets
  buffer_len :: u32
  msg_key :: "octets option"
  msg_long_term_key :: octets
  msg_long_term_valid :: bool

type_synonym StunAttribute = u16

abbreviation (input) "STUN_ATTRIBUTE_USERNAME \<equiv> 0x0006 :: StunAttribute"
abbreviation (input) "STUN_ATTRIBUTE_MESSAGE_INTEGRITY \<equiv> 0x0008 :: StunAttribute"
abbreviation (input) "STUN_ATTRIBUTE_ERROR_CODE \<equiv> 0x0009 :: StunAttribute"
abbreviation (input) "STUN_ATTRIBUTE_UNKNOWN_ATTRIBUTES \<equiv> 0x000A :: StunAttribute"
abbreviation (input) "STUN_ATTRIBUTE_REALM \<equiv> 0x0014 :: StunAttribute"
abbreviation (input) "STUN_ATTRIBUTE_NONCE \<equiv> 0x0015 :: StunAttribute"
abbreviation (input) "STUN_ATTRIBUTE_SOFTWARE \<equiv> 0x8022 :: StunAttribute"
abbreviation (input) "STUN_ATTRIBUTE_FINGERPRINT \<equiv> 0x8028 :: StunAttribute"

abbreviation (input) "STUN_MAGIC_COOKIE \<equiv> 0x2112A442 :: u32"

definition STUN_AGENT_USAGE_NO_ALIGNED_ATTRIBUTES :: u32 where "STUN_AGENT_USAGE_NO_ALIGNED_ATTRIBUTES = push_bit 7 1"

text \<open>\<^verbatim>\<open>msg->agent && (usage_flags & NO_ALIGNED_ATTRIBUTES)\<close>, negated, and the identifiers that MS-TURN swaps.\<close>

definition aligned :: "StunMessage \<Rightarrow> bool" where
  "aligned msg = (case msg_agent msg of None \<Rightarrow> True | Some a \<Rightarrow> usage_flags a AND STUN_AGENT_USAGE_NO_ALIGNED_ATTRIBUTES = 0)"

definition swapped :: "StunMessage \<Rightarrow> StunAttribute \<Rightarrow> StunAttribute" where
  "swapped msg type =
     (case msg_agent msg of
        None \<Rightarrow> type
      | Some a \<Rightarrow>
          if compatibility a = STUN_COMPATIBILITY_OC2007 then
            if type = STUN_ATTRIBUTE_REALM then STUN_ATTRIBUTE_NONCE
            else if type = STUN_ATTRIBUTE_NONCE then STUN_ATTRIBUTE_REALM else type
          else type)"

definition stun_message_init :: "StunMessage \<Rightarrow> StunClass \<Rightarrow> StunMethod \<Rightarrow> octets \<Rightarrow> (bool \<times> StunMessage) option" where
  "stun_message_init msg c m tid =
     (if buffer_len msg < 20 then Some (False, msg)
      else do {
        b \<leftarrow> store (msg_buffer msg) 0 [0, 0, 0, 0];
        b \<leftarrow> stun_set_type b 0 c m;
        i \<leftarrow> mem_slice tid 0 16;
        b \<leftarrow> store b 4 i;
        Some (True, msg\<lparr>msg_buffer := b\<rparr>)
      })"

definition stun_message_length :: "StunMessage \<Rightarrow> u16 option" where
  "stun_message_length msg = do { n \<leftarrow> stun_getw (msg_buffer msg) 2; Some (n + 20) }"

definition stun_message_id :: "StunMessage \<Rightarrow> octets option" where
  "stun_message_id msg = mem_slice (msg_buffer msg) 4 16"

definition stun_message_has_cookie :: "StunMessage \<Rightarrow> bool option" where
  "stun_message_has_cookie msg = do { i \<leftarrow> stun_message_id msg; Some (take 4 i = le32_bytes (bswap32 STUN_MAGIC_COOKIE)) }"

definition wire_type :: "u16 \<Rightarrow> u16" where
  "wire_type t = (if t = 0x0115 then 0x0017 else t)"

definition stun_message_get_method :: "StunMessage \<Rightarrow> StunMethod option" where
  "stun_message_get_method msg = do {
     t \<leftarrow> stun_getw (msg_buffer msg) 0;
     let t = wire_type t;
     Some (ucast (drop_bit 2 (t AND 0x3e00) OR drop_bit 1 (t AND 0x00e0) OR (t AND 0x000f)))
   }"

definition stun_message_get_class :: "StunMessage \<Rightarrow> StunClass option" where
  "stun_message_get_class msg = do {
     t \<leftarrow> stun_getw (msg_buffer msg) 0;
     let t = wire_type t;
     Some (class_of_code (drop_bit 7 (t AND 0x0100) OR drop_bit 4 (t AND 0x0010)))
   }"

definition stun_optional :: "u16 \<Rightarrow> bool" where
  "stun_optional t \<longleftrightarrow> drop_bit 15 t = 1"

section \<open>Finding attributes\<close>

text \<open>
  The loop of \<^verbatim>\<open>stun_message_find\<close>. The length of the message fits 16 bits and that of an attribute 17, so the offset
  never wraps around.
\<close>

function find_loop :: "octets \<Rightarrow> bool \<Rightarrow> StunAttribute \<Rightarrow> nat \<Rightarrow> nat \<Rightarrow> (nat \<times> u16) option option" where
  "find_loop m al type len offset =
     (if offset < len then do {
        atype \<leftarrow> stun_getw m (int offset);
        alen \<leftarrow> stun_getw m (int offset + 2);
        if atype = type then Some (Some (offset + 4, alen))
        else if atype = STUN_ATTRIBUTE_MESSAGE_INTEGRITY \<and> type \<noteq> STUN_ATTRIBUTE_FINGERPRINT \<or> atype = STUN_ATTRIBUTE_FINGERPRINT
        then Some None
        else find_loop m al type len (offset + 4 + unat (if al then stun_align (ucast alen) else ucast alen))
      }
      else Some None)"
  by auto
termination
  by (relation "measure (\<lambda>(_, _, _, len, offset). len - offset)") auto

declare find_loop.simps [simp del]

definition stun_message_find :: "StunMessage \<Rightarrow> StunAttribute \<Rightarrow> (nat \<times> u16) option option" where
  "stun_message_find msg type = do {
     len \<leftarrow> stun_message_length msg;
     find_loop (msg_buffer msg) (aligned msg) (swapped msg type) (unat len) 20
   }"

definition stun_message_has_attribute :: "StunMessage \<Rightarrow> StunAttribute \<Rightarrow> bool option" where
  "stun_message_has_attribute msg type = map_option (\<lambda>p. p \<noteq> None) (stun_message_find msg type)"

definition stun_message_find_flag :: "StunMessage \<Rightarrow> StunAttribute \<Rightarrow> StunMessageReturn option" where
  "stun_message_find_flag msg type = do {
     p \<leftarrow> stun_message_find msg type;
     Some (case p of None \<Rightarrow> STUN_MESSAGE_RETURN_NOT_FOUND
       | Some (_, len) \<Rightarrow> if len = 0 then STUN_MESSAGE_RETURN_SUCCESS else STUN_MESSAGE_RETURN_INVALID)
   }"

text \<open>The functions that store a value through a pointer return it, and \<open>None\<close> where they leave the target alone.\<close>

definition stun_message_find32 :: "StunMessage \<Rightarrow> StunAttribute \<Rightarrow> (StunMessageReturn \<times> u32 option) option" where
  "stun_message_find32 msg type = do {
     p \<leftarrow> stun_message_find msg type;
     case p of None \<Rightarrow> Some (STUN_MESSAGE_RETURN_NOT_FOUND, None)
     | Some (ptr, len) \<Rightarrow>
         if len = 4 then do { val \<leftarrow> load32 (msg_buffer msg) (int ptr); Some (STUN_MESSAGE_RETURN_SUCCESS, Some (bswap32 val)) }
         else Some (STUN_MESSAGE_RETURN_INVALID, None)
   }"

definition stun_message_find64 :: "StunMessage \<Rightarrow> StunAttribute \<Rightarrow> (StunMessageReturn \<times> u64 option) option" where
  "stun_message_find64 msg type = do {
     p \<leftarrow> stun_message_find msg type;
     case p of None \<Rightarrow> Some (STUN_MESSAGE_RETURN_NOT_FOUND, None)
     | Some (ptr, len) \<Rightarrow>
         if len = 8 then do {
           t0 \<leftarrow> load32 (msg_buffer msg) (int ptr);
           t1 \<leftarrow> load32 (msg_buffer msg) (int ptr + 4);
           Some (STUN_MESSAGE_RETURN_SUCCESS, Some (push_bit 32 (ucast (bswap32 t0)) OR ucast (bswap32 t1)))
         }
         else Some (STUN_MESSAGE_RETURN_INVALID, None)
   }"

definition stun_message_find_string :: "StunMessage \<Rightarrow> StunAttribute \<Rightarrow> octets \<Rightarrow> u32 \<Rightarrow> (StunMessageReturn \<times> octets) option" where
  "stun_message_find_string msg type buf buflen = do {
     p \<leftarrow> stun_message_find msg type;
     case p of None \<Rightarrow> Some (STUN_MESSAGE_RETURN_NOT_FOUND, buf)
     | Some (ptr, len) \<Rightarrow>
         if ucast len \<ge> buflen then Some (STUN_MESSAGE_RETURN_NOT_ENOUGH_SPACE, buf)
         else do {
           v \<leftarrow> mem_slice (msg_buffer msg) (int ptr) (unat len);
           buf \<leftarrow> store buf 0 v;
           buf \<leftarrow> store buf (int (unat len)) [0];
           Some (STUN_MESSAGE_RETURN_SUCCESS, buf)
         }
   }"

text \<open>
  Socket addresses are objects of octets: the family at 0, the port at 2, the IPv4 address at 4, the IPv6 one at 8,
  with the constants and sizes of Windows.
\<close>

abbreviation (input) "AF_INET \<equiv> 2 :: u16"
abbreviation (input) "AF_INET6 \<equiv> 23 :: u16"

definition stun_message_find_addr ::
  "StunMessage \<Rightarrow> StunAttribute \<Rightarrow> octets \<Rightarrow> u32 \<Rightarrow> (StunMessageReturn \<times> octets \<times> u32) option" where
  "stun_message_find_addr msg type addr addrlen = do {
     p \<leftarrow> stun_message_find msg type;
     case p of None \<Rightarrow> Some (STUN_MESSAGE_RETURN_NOT_FOUND, addr, addrlen)
     | Some (ptr, len) \<Rightarrow>
         if len < 4 then Some (STUN_MESSAGE_RETURN_INVALID, addr, addrlen)
         else do {
           family \<leftarrow> load8 (msg_buffer msg) (int ptr + 1);
           if family = 1 then
             if addrlen < 16 \<or> len \<noteq> 8 then Some (STUN_MESSAGE_RETURN_INVALID, addr, 16)
             else do {
               addr \<leftarrow> store addr 0 (replicate (unat addrlen) 0);
               addr \<leftarrow> store addr 0 (le16_bytes AF_INET);
               port \<leftarrow> mem_slice (msg_buffer msg) (int ptr + 2) 2;
               addr \<leftarrow> store addr 2 port;
               a \<leftarrow> mem_slice (msg_buffer msg) (int ptr + 4) 4;
               addr \<leftarrow> store addr 4 a;
               Some (STUN_MESSAGE_RETURN_SUCCESS, addr, 16)
             }
           else if family = 2 then
             if addrlen < 28 \<or> len \<noteq> 20 then Some (STUN_MESSAGE_RETURN_INVALID, addr, 28)
             else do {
               addr \<leftarrow> store addr 0 (replicate (unat addrlen) 0);
               addr \<leftarrow> store addr 0 (le16_bytes AF_INET6);
               port \<leftarrow> mem_slice (msg_buffer msg) (int ptr + 2) 2;
               addr \<leftarrow> store addr 2 port;
               a \<leftarrow> mem_slice (msg_buffer msg) (int ptr + 4) 16;
               addr \<leftarrow> store addr 8 a;
               Some (STUN_MESSAGE_RETURN_SUCCESS, addr, 28)
             }
           else Some (STUN_MESSAGE_RETURN_UNSUPPORTED_ADDRESS, addr, addrlen)
         }
   }"

definition xor_octets :: "octets \<Rightarrow> octets \<Rightarrow> octets" where
  "xor_octets a b = map2 (XOR) a b"

definition stun_xor_address :: "StunMessage \<Rightarrow> octets \<Rightarrow> u32 \<Rightarrow> u32 \<Rightarrow> (StunMessageReturn \<times> octets) option" where
  "stun_xor_address msg addr addrlen magic_cookie = do {
     family \<leftarrow> load16 addr 0;
     if family = AF_INET then
       if addrlen < 16 then Some (STUN_MESSAGE_RETURN_INVALID, addr)
       else do {
         port \<leftarrow> load16 addr 2;
         addr \<leftarrow> store addr 2 (le16_bytes (port XOR bswap16 (ucast (drop_bit 16 magic_cookie))));
         a \<leftarrow> load32 addr 4;
         addr \<leftarrow> store addr 4 (le32_bytes (a XOR bswap32 magic_cookie));
         Some (STUN_MESSAGE_RETURN_SUCCESS, addr)
       }
     else if family = AF_INET6 then
       if addrlen < 28 then Some (STUN_MESSAGE_RETURN_INVALID, addr)
       else do {
         port \<leftarrow> load16 addr 2;
         addr \<leftarrow> store addr 2 (le16_bytes (port XOR bswap16 (ucast (drop_bit 16 magic_cookie))));
         a \<leftarrow> mem_slice addr 8 16;
         k \<leftarrow> mem_slice (msg_buffer msg) 4 16;
         addr \<leftarrow> store addr 8 (xor_octets a k);
         Some (STUN_MESSAGE_RETURN_SUCCESS, addr)
       }
     else Some (STUN_MESSAGE_RETURN_UNSUPPORTED_ADDRESS, addr)
   }"

definition stun_message_find_xor_addr_full ::
  "StunMessage \<Rightarrow> StunAttribute \<Rightarrow> octets \<Rightarrow> u32 \<Rightarrow> u32 \<Rightarrow> (StunMessageReturn \<times> octets \<times> u32) option" where
  "stun_message_find_xor_addr_full msg type addr addrlen magic_cookie = do {
     (val, addr, addrlen) \<leftarrow> stun_message_find_addr msg type addr addrlen;
     if val \<noteq> STUN_MESSAGE_RETURN_SUCCESS then Some (val, addr, addrlen)
     else do { (val, addr) \<leftarrow> stun_xor_address msg addr addrlen magic_cookie; Some (val, addr, addrlen) }
   }"

definition stun_message_find_xor_addr ::
  "StunMessage \<Rightarrow> StunAttribute \<Rightarrow> octets \<Rightarrow> u32 \<Rightarrow> (StunMessageReturn \<times> octets \<times> u32) option" where
  "stun_message_find_xor_addr msg type addr addrlen = do {
     (val, addr, addrlen) \<leftarrow> stun_message_find_addr msg type addr addrlen;
     if val \<noteq> STUN_MESSAGE_RETURN_SUCCESS then Some (val, addr, addrlen)
     else do { (val, addr) \<leftarrow> stun_xor_address msg addr addrlen STUN_MAGIC_COOKIE; Some (val, addr, addrlen) }
   }"

definition stun_message_find_error :: "StunMessage \<Rightarrow> (StunMessageReturn \<times> nat option) option" where
  "stun_message_find_error msg = do {
     p \<leftarrow> stun_message_find msg STUN_ATTRIBUTE_ERROR_CODE;
     case p of None \<Rightarrow> Some (STUN_MESSAGE_RETURN_NOT_FOUND, None)
     | Some (ptr, alen) \<Rightarrow>
         if alen < 4 then Some (STUN_MESSAGE_RETURN_INVALID, None)
         else do {
           c \<leftarrow> load8 (msg_buffer msg) (int ptr + 2);
           let cl = c AND 7;
           number \<leftarrow> load8 (msg_buffer msg) (int ptr + 3);
           if cl < 3 \<or> cl > 6 \<or> number > 99 then Some (STUN_MESSAGE_RETURN_INVALID, None)
           else Some (STUN_MESSAGE_RETURN_SUCCESS, Some (unat cl * 100 + unat number))
         }
   }"

section \<open>Appending attributes\<close>

text \<open>The room check adds sizes of 32 bits; the length field is 16 bits wide.\<close>

definition stun_message_append :: "StunMessage \<Rightarrow> StunAttribute \<Rightarrow> u32 \<Rightarrow> (nat option \<times> StunMessage) option" where
  "stun_message_append msg type len = do {
     mlen \<leftarrow> stun_message_length msg;
     let type = swapped msg type;
     if ucast mlen + 4 + len > buffer_len msg then Some (None, msg)
     else do {
       let a = int (unat mlen);
       b \<leftarrow> stun_setw (msg_buffer msg) a type;
       (b, mlen) \<leftarrow>
         (if \<not> aligned msg then do { b \<leftarrow> stun_setw b (a + 2) (ucast len); Some (b, mlen) }
          else do {
            cookie \<leftarrow> stun_message_has_cookie (msg\<lparr>msg_buffer := b\<rparr>);
            b \<leftarrow> stun_setw b (a + 2) (ucast (if cookie then len else stun_align len));
            b \<leftarrow> store b (a + 4 + int (unat len)) (replicate (unat (stun_padding len)) 0x20);
            Some (b, mlen + ucast (stun_padding len))
          });
       let mlen = mlen + 4 + ucast len;
       b \<leftarrow> stun_setw b 2 (mlen - 20);
       Some (Some (nat (a + 4)), msg\<lparr>msg_buffer := b\<rparr>)
     }
   }"

definition stun_message_append_bytes ::
  "StunMessage \<Rightarrow> StunAttribute \<Rightarrow> octets \<Rightarrow> u32 \<Rightarrow> (StunMessageReturn \<times> StunMessage) option" where
  "stun_message_append_bytes msg type dat len = do {
     (ptr, msg) \<leftarrow> stun_message_append msg type len;
     case ptr of None \<Rightarrow> Some (STUN_MESSAGE_RETURN_NOT_ENOUGH_SPACE, msg)
     | Some p \<Rightarrow> do {
         d \<leftarrow> mem_slice dat 0 (unat len);
         b \<leftarrow> store (msg_buffer msg) (int p) d;
         Some (STUN_MESSAGE_RETURN_SUCCESS, msg\<lparr>msg_buffer := b\<rparr>)
       }
   }"

definition stun_message_append_flag :: "StunMessage \<Rightarrow> StunAttribute \<Rightarrow> (StunMessageReturn \<times> StunMessage) option" where
  "stun_message_append_flag msg type = stun_message_append_bytes msg type [] 0"

definition stun_message_append32 :: "StunMessage \<Rightarrow> StunAttribute \<Rightarrow> u32 \<Rightarrow> (StunMessageReturn \<times> StunMessage) option" where
  "stun_message_append32 msg type val = stun_message_append_bytes msg type (le32_bytes (bswap32 val)) 4"

definition stun_message_append64 :: "StunMessage \<Rightarrow> StunAttribute \<Rightarrow> u64 \<Rightarrow> (StunMessageReturn \<times> StunMessage) option" where
  "stun_message_append64 msg type val =
     stun_message_append_bytes msg type (le32_bytes (bswap32 (ucast (drop_bit 32 val))) @ le32_bytes (bswap32 (ucast val))) 8"

text \<open>A string is the octets before its terminator.\<close>

definition stun_message_append_string :: "StunMessage \<Rightarrow> StunAttribute \<Rightarrow> octets \<Rightarrow> (StunMessageReturn \<times> StunMessage) option" where
  "stun_message_append_string msg type str = stun_message_append_bytes msg type str (word_of_nat (length str))"

definition stun_message_append_addr ::
  "StunMessage \<Rightarrow> StunAttribute \<Rightarrow> octets \<Rightarrow> u32 \<Rightarrow> (StunMessageReturn \<times> StunMessage) option" where
  "stun_message_append_addr msg type addr addrlen =
     (if addrlen < 16 then Some (STUN_MESSAGE_RETURN_INVALID, msg)
      else do {
        af \<leftarrow> load16 addr 0;
        if af \<noteq> AF_INET \<and> af \<noteq> AF_INET6 then Some (STUN_MESSAGE_RETURN_UNSUPPORTED_ADDRESS, msg)
        else if af = AF_INET6 \<and> addrlen < 28 then Some (STUN_MESSAGE_RETURN_INVALID, msg)
        else do {
          let family = (if af = AF_INET then 1 else 2);
          port \<leftarrow> mem_slice addr 2 2;
          let alen = (if af = AF_INET then 4 else 16);
          let pa = (if af = AF_INET then 4 else 8);
          (ptr, msg) \<leftarrow> stun_message_append msg type (4 + word_of_nat alen);
          case ptr of None \<Rightarrow> Some (STUN_MESSAGE_RETURN_NOT_ENOUGH_SPACE, msg)
          | Some p \<Rightarrow> do {
              b \<leftarrow> store (msg_buffer msg) (int p) [0];
              b \<leftarrow> store b (int p + 1) [family];
              b \<leftarrow> store b (int p + 2) port;
              d \<leftarrow> mem_slice addr pa alen;
              b \<leftarrow> store b (int p + 4) d;
              Some (STUN_MESSAGE_RETURN_SUCCESS, msg\<lparr>msg_buffer := b\<rparr>)
            }
        }
      })"

text \<open>The local copy has the size of \<^verbatim>\<open>struct sockaddr_storage\<close>; what the copy leaves uninitialised is a parameter.\<close>

definition stun_message_append_xor_addr_full ::
  "octets \<Rightarrow> StunMessage \<Rightarrow> StunAttribute \<Rightarrow> octets \<Rightarrow> u32 \<Rightarrow> u32 \<Rightarrow> (StunMessageReturn \<times> StunMessage) option" where
  "stun_message_append_xor_addr_full junk msg type addr addrlen magic_cookie = do {
     let addrlen = (if addrlen > 128 then 128 else addrlen);
     d \<leftarrow> mem_slice addr 0 (unat addrlen);
     x \<leftarrow> store junk 0 d;
     (val, x) \<leftarrow> stun_xor_address msg x addrlen magic_cookie;
     if val \<noteq> STUN_MESSAGE_RETURN_SUCCESS then Some (val, msg)
     else stun_message_append_addr msg type x addrlen
   }"

definition stun_message_append_xor_addr ::
  "octets \<Rightarrow> StunMessage \<Rightarrow> StunAttribute \<Rightarrow> octets \<Rightarrow> u32 \<Rightarrow> (StunMessageReturn \<times> StunMessage) option" where
  "stun_message_append_xor_addr junk msg type addr addrlen = do {
     let addrlen = (if addrlen > 128 then 128 else addrlen);
     d \<leftarrow> mem_slice addr 0 (unat addrlen);
     x \<leftarrow> store junk 0 d;
     (val, x) \<leftarrow> stun_xor_address msg x addrlen STUN_MAGIC_COOKIE;
     if val \<noteq> STUN_MESSAGE_RETURN_SUCCESS then Some (val, msg)
     else stun_message_append_addr msg type x addrlen
   }"

definition ascii :: "string \<Rightarrow> octets" where
  "ascii s = map (\<lambda>c. of_char c) s"

definition stun_errors :: "(nat \<times> string) list" where
  "stun_errors =
     [(300, ''Try alternate server''), (400, ''Bad request''), (401, ''Unauthorized''), (420, ''Unknown Attribute''),
      (437, ''Allocation Mismatch''), (438, ''Stale Nonce''), (439, ''Active Destination Already Set''),
      (440, ''Address Family not Supported''), (442, ''Unsupported Transport Protocol''), (443, ''Invalid IP Address''),
      (444, ''Invalid Port''), (445, ''Operation for TCP Only''), (446, ''Connection Already Exists''),
      (486, ''Allocation Quota Reached''), (487, ''Role conflict''), (500, ''Server Error''),
      (507, ''Insufficient Capacity''), (508, ''Insufficient Capacity'')]"

definition stun_strerror :: "nat \<Rightarrow> string" where
  "stun_strerror code = (case map_of stun_errors code of None \<Rightarrow> ''Unknown error'' | Some s \<Rightarrow> s)"

definition stun_message_append_error :: "StunMessage \<Rightarrow> nat \<Rightarrow> (StunMessageReturn \<times> StunMessage) option" where
  "stun_message_append_error msg code = do {
     let str = ascii (stun_strerror code);
     (ptr, msg) \<leftarrow> stun_message_append msg STUN_ATTRIBUTE_ERROR_CODE (4 + word_of_nat (length str));
     case ptr of None \<Rightarrow> Some (STUN_MESSAGE_RETURN_NOT_ENOUGH_SPACE, msg)
     | Some p \<Rightarrow> do {
         b \<leftarrow> store (msg_buffer msg) (int p) [0, 0];
         b \<leftarrow> store b (int p + 2) [word_of_nat (code div 100)];
         b \<leftarrow> store b (int p + 3) [word_of_nat (code mod 100)];
         b \<leftarrow> store b (int p + 4) str;
         Some (STUN_MESSAGE_RETURN_SUCCESS, msg\<lparr>msg_buffer := b\<rparr>)
       }
   }"

section \<open>Validation of a buffer\<close>

text \<open>
  The length left is a \<^verbatim>\<open>size_t\<close> that wraps around when it is short of an attribute header. A pointer behind the
  buffer is not represented: the recursion ends at the first access through it.
\<close>

function validate_loop :: "octets \<Rightarrow> bool \<Rightarrow> nat \<Rightarrow> u32 \<Rightarrow> bool option" where
  "validate_loop m has_padding p len =
     (if len > 0 then
        case stun_getw m (int p + 2) of None \<Rightarrow> None
        | Some w \<Rightarrow>
            let alen = (if has_padding then stun_align (ucast w) else ucast w);
                len = len - 4
            in if len < alen then Some False else validate_loop m has_padding (p + 4 + unat alen) (len - alen)
      else Some True)"
  by auto
termination
  by (relation "measure (\<lambda>(m, _, p, _). length m - p)") (auto simp: stun_getw_def load8_def bind_eq_Some_conv split: if_splits)

declare validate_loop.simps [simp del]

definition STUN_MESSAGE_BUFFER_INCOMPLETE :: int where "STUN_MESSAGE_BUFFER_INCOMPLETE = 0"
definition STUN_MESSAGE_BUFFER_INVALID :: int where "STUN_MESSAGE_BUFFER_INVALID = - 1"

definition stun_message_validate_buffer_length :: "octets \<Rightarrow> u32 \<Rightarrow> bool \<Rightarrow> int option" where
  "stun_message_validate_buffer_length msg len has_padding =
     (if len < 1 then Some STUN_MESSAGE_BUFFER_INVALID
      else do {
        m0 \<leftarrow> load8 msg 0;
        if drop_bit 6 m0 \<noteq> 0 then Some STUN_MESSAGE_BUFFER_INVALID
        else if len < 4 then Some STUN_MESSAGE_BUFFER_INCOMPLETE
        else do {
          w \<leftarrow> stun_getw msg 2;
          let mlen = (ucast w + 20 :: u32);
          if has_padding \<and> stun_padding mlen \<noteq> 0 then Some STUN_MESSAGE_BUFFER_INVALID
          else if len < mlen then Some STUN_MESSAGE_BUFFER_INCOMPLETE
          else do {
            ok \<leftarrow> validate_loop msg has_padding 20 (mlen - 20);
            Some (if ok then uint mlen else STUN_MESSAGE_BUFFER_INVALID)
          }
        }
      })"

end
