(* ===== verification/Stun_Attributes.thy ===== *)
theory Stun_Attributes
  imports Stun_Message
begin

text \<open>
  What a STUN message promises: its body is a list of attributes, a type and a value each. The functions of
  \<open>Stun_Message\<close> are shown to implement validation, lookup and extension of that list, for messages with aligned
  attributes and without.
\<close>

section \<open>The attributes of a message\<close>

type_synonym attribute = "u16 \<times> octets"

definition padded :: "bool \<Rightarrow> nat \<Rightarrow> nat" where
  "padded al n = (if al then (n + 3) div 4 * 4 else n)"

lemma padded_ge: "n \<le> padded al n"
  unfolding padded_def by auto

fun tlvs :: "bool \<Rightarrow> octets \<Rightarrow> attribute list option" where
  "tlvs al [] = Some []"
| "tlvs al (a # b # c # d # r) =
     (let n = unat (be16 c d)
      in if padded al n \<le> length r then map_option (Cons (be16 a b, take n r)) (tlvs al (drop (padded al n) r)) else None)"
| "tlvs al _ = None"

text \<open>Nothing counts behind the fingerprint, and behind the message integrity only the fingerprint does.\<close>

fun lookup_attr :: "u16 \<Rightarrow> attribute list \<Rightarrow> octets option" where
  "lookup_attr type [] = None"
| "lookup_attr type ((t, v) # as) =
     (if t = type then Some v
      else if t = STUN_ATTRIBUTE_MESSAGE_INTEGRITY \<and> type \<noteq> STUN_ATTRIBUTE_FINGERPRINT \<or> t = STUN_ATTRIBUTE_FINGERPRINT then None
      else lookup_attr type as)"

definition stun_attrs :: "StunMessage \<Rightarrow> attribute list option" where
  "stun_attrs msg =
     (let m = msg_buffer msg; n = unat (be16 (m ! 2) (m ! 3))
      in if n + 20 \<le> length m \<and> n + 20 < 65536 then tlvs (aligned msg) (take n (drop 20 m)) else None)"

section \<open>Sizes\<close>

lemma unat_drop_2: "unat (drop_bit 2 x) = unat x div 4" for x :: u32
  unfolding unsigned_drop_bit_eq by (simp only: drop_bit_eq_div take_bit_nat_eq_self [OF unsigned_less]) simp

lemma align_nat:
  assumes "unat x < 65540"
  shows "unat (stun_align x) = padded True (unat x)"
proof -
  have m: "(3 :: u32) = mask 2" by (simp add: mask_eq_exp_minus_1)
  have "stun_align x = push_bit 2 (drop_bit 2 (x + 3))"
  proof -
    have "y AND NOT (mask n) = push_bit n (drop_bit n y)" for y :: u32 and n by (rule u32_eqI) (auto simp: bit_simps)
    then show ?thesis unfolding stun_align_def using m by metis
  qed
  moreover have "unat (x + 3) = unat x + 3" using assms by (subst unat_add_lem [THEN iffD1]) simp_all
  then have "unat (drop_bit 2 (x + 3)) = (unat x + 3) div 4" by (simp add: unat_drop_2)
  moreover from this have "unat (push_bit 2 (drop_bit 2 (x + 3))) = unat (drop_bit 2 (x + 3)) * 4"
    using assms by (simp add: push_bit_eq_mult unat_word_ariths)
  ultimately show ?thesis by (simp add: padded_def)
qed

lemma padding_nat: "unat (stun_padding x) = (4 - unat x mod 4) mod 4"
proof -
  have m: "y AND 3 = y mod 4" for y :: u32
    using take_bit_eq_mask [of 2 y] take_bit_eq_mod [of 2 y] by (simp add: mask_eq_exp_minus_1)
  show ?thesis unfolding stun_padding_def m by (simp add: unat_mod unat_sub_if')
qed

lemma padded_padding: "unat x + unat (stun_padding x) = padded True (unat x)"
proof -
  have "n + (4 - n mod 4) mod 4 = (n + 3) div 4 * 4" for n :: nat
  proof -
    obtain q r where n: "n = r + 4 * q" "r < 4" using mod_div_mult_eq [of n 4] mod_less_divisor [of 4 n] by (metis mult.commute zero_less_numeral)
    consider "r = 0" | "r = 1" | "r = 2" | "r = 3" using n(2) by linarith
    moreover have m: "n mod 4 = r" using n by simp
    ultimately show ?thesis unfolding m by cases (simp_all add: n(1))
  qed
  then show ?thesis by (simp only: padding_nat padded_def if_True)
qed

lemma unat_u16_less [simp]: "unat (w :: u16) < 65536"
  using unsigned_less [of w, where 'a = nat] by simp

lemma unat_ucast_u16 [simp]: "unat (ucast (w :: u16) :: u32) = unat w"
  by (simp add: unsigned_ucast_eq take_bit_nat_eq_self order.strict_trans [OF unat_u16_less])

lemma attr_len: "unat (if al then stun_align (ucast w) else ucast w) = padded al (unat (w :: u16))"
  using align_nat [of "ucast w"] unat_u16_less [of w] by (simp add: padded_def del: unat_u16_less)

section \<open>Reading and writing in place\<close>

lemma store_mid: "i = int (length a) \<Longrightarrow> length x = length b \<Longrightarrow> store (a @ x @ c) i b = Some (a @ b @ c)"
  by (simp add: store_def)

lemma take_drop_append [simp]: "take n r @ drop n r @ s = r @ s"
  by (metis append_assoc append_take_drop_id)

lemma slice_mid: "i = int (length a) \<Longrightarrow> n = length x \<Longrightarrow> mem_slice (a @ x @ c) i n = Some x"
  by (simp add: mem_slice_def)

lemma getw_mid: "i = int (length a) \<Longrightarrow> stun_getw (a @ x # y # c) i = Some (be16 x y)"
  by (simp add: stun_getw_def load8_def nth_append nat_add_distrib)

definition w16 :: "u16 \<Rightarrow> octets" where
  "w16 v = [ucast (drop_bit 8 v), ucast v]"

lemma length_w16 [simp]: "length (w16 v) = 2"
  by (simp add: w16_def)

lemma setw_mid:
  assumes "i = int (length a)" and "length x = 2"
  shows "stun_setw (a @ x @ c) i v = Some (a @ w16 v @ c)"
proof -
  have ff: "ucast (v AND 0xff) = (ucast v :: u8)"
  proof -
    have m: "v AND 0xff = take_bit 8 v" by (simp add: take_bit_eq_mask mask_eq_exp_minus_1)
    show ?thesis unfolding m by (rule u8_eqI) (simp add: bit_simps)
  qed
  obtain p q where x: "x = [p, q]" using assms(2) by (auto simp: length_Suc_conv numeral_2_eq_2)
  have "store (a @ x @ c) i [ucast (drop_bit 8 v)] = Some (a @ ucast (drop_bit 8 v) # q # c)"
    using store_mid [OF assms(1), of "[p]" "[ucast (drop_bit 8 v)]" "q # c"] x by simp
  moreover have "store (a @ ucast (drop_bit 8 v) # q # c) (i + 1) [ucast (v AND 0xff)] = Some (a @ w16 v @ c)"
    using store_mid [of "i + 1" "a @ [ucast (drop_bit 8 v)]" "[q]" "[ucast v]" c] assms(1) ff by (simp add: w16_def)
  ultimately show ?thesis by (simp add: stun_setw_def)
qed

section \<open>Lookup\<close>

lemma tlvs_append: "tlvs al x = Some as \<Longrightarrow> tlvs al (x @ y) = map_option ((@) as) (tlvs al y)"
proof (induction al x arbitrary: as rule: tlvs.induct)
  case (2 al a b c d r)
  let ?n = "unat (be16 c d)"
  obtain as' where as: "padded al ?n \<le> length r" "tlvs al (drop (padded al ?n) r) = Some as'" "as = (be16 a b, take ?n r) # as'"
    using 2(2) by (auto simp: Let_def split: if_splits)
  then have "?n \<le> length r" using padded_ge [of ?n al] by simp
  then show ?case using as 2(1) [OF refl as(1,2)] by (simp add: Let_def option.map_comp comp_def)
qed (simp_all add: option.map_ident cong: option.map_cong)

definition points_to :: "octets \<Rightarrow> (nat \<times> u16) option \<Rightarrow> octets option \<Rightarrow> bool" where
  "points_to m r v \<longleftrightarrow> (case r of None \<Rightarrow> v = None | Some (p, n) \<Rightarrow> v = mem_slice m (int p) (unat n) \<and> v \<noteq> None)"

lemma find_loop_tlvs:
  "tlvs al body = Some as \<Longrightarrow> m = pre @ body @ rest \<Longrightarrow> len = length pre + length body \<Longrightarrow>
     \<exists>r. find_loop m al type len (length pre) = Some r \<and> points_to m r (lookup_attr type as)"
proof (induction al body arbitrary: as pre rule: tlvs.induct)
  case (1 al)
  then have "find_loop m al type len (length pre) = Some None" by (subst find_loop.simps) simp
  then show ?case using 1 by (simp add: points_to_def)
next
  case (2 al a b c d r)
  let ?n = "unat (be16 c d)"
  obtain as' where as: "padded al ?n \<le> length r" "tlvs al (drop (padded al ?n) r) = Some as'" "as = (be16 a b, take ?n r) # as'"
    using 2(2) by (auto simp: Let_def split: if_splits)
  have w: "stun_getw m (int (length pre)) = Some (be16 a b)" "stun_getw m (int (length pre) + 2) = Some (be16 c d)"
    using getw_mid [of _ pre a b "c # d # r @ rest"] getw_mid [of _ "pre @ [a, b]" c d "r @ rest"] 2(3) by (simp_all add: add.commute)
  let ?pre = "pre @ [a, b, c, d] @ take (padded al ?n) r"
  have off: "length pre + 4 + padded al ?n = length ?pre" using as(1) by simp
  have IH: "\<exists>r. find_loop m al type len (length ?pre) = Some r \<and> points_to m r (lookup_attr type as')"
    by (rule 2(1) [OF refl as(1,2)]) (use 2(3,4) as(1) in simp_all)
  have "mem_slice m (int (length pre + 4)) ?n = Some (take ?n r)"
    using slice_mid [of "int (length pre + 4)" "pre @ [a, b, c, d]" ?n "take ?n r" "drop ?n r @ rest"]
      2(3) as(1) padded_ge [of ?n al] by simp
  then show ?case
    using IH 2(4) as(3) by (subst find_loop.simps) (auto simp: w attr_len off points_to_def)
qed simp_all

text \<open>A message is its type, the length of its body, the transaction and the body; what follows is free room.\<close>

definition stun_parts :: "StunMessage \<Rightarrow> octets \<Rightarrow> octets \<Rightarrow> octets \<Rightarrow> octets \<Rightarrow> bool" where
  "stun_parts msg h tid body room \<longleftrightarrow> msg_buffer msg = h @ w16 (word_of_nat (length body)) @ tid @ body @ room \<and>
     length h = 2 \<and> length tid = 16 \<and> length body + 20 < 65536"

lemma w16_be16: "w16 (be16 a b) = [a, b]"
  by (simp add: w16_def)

lemma unat_word16: "n < 65536 \<Longrightarrow> unat (word_of_nat n :: u16) = n"
  by (simp add: unsigned_of_nat take_bit_nat_eq_self)

lemma stun_attrsE:
  assumes "stun_attrs msg = Some as"
  obtains h tid body room where "stun_parts msg h tid body room" and "tlvs (aligned msg) body = Some as"
proof -
  let ?m = "msg_buffer msg" let ?n = "unat (be16 (?m ! 2) (?m ! 3))"
  have n: "?n + 20 \<le> length ?m" "?n + 20 < 65536" "tlvs (aligned msg) (take ?n (drop 20 ?m)) = Some as"
    using assms by (auto simp: stun_attrs_def Let_def split: if_splits)
  have "stun_parts msg (take 2 ?m) (take 16 (drop 4 ?m)) (take ?n (drop 20 ?m)) (drop ?n (drop 20 ?m))"
  proof -
    have "take 2 (drop 2 ?m) = [?m ! 2, ?m ! 3]"
      using n(1) by (simp add: take_Suc_conv_app_nth numeral_2_eq_2 eval_nat_numeral(3))
    then have w: "w16 (word_of_nat (length (take ?n (drop 20 ?m)))) = take 2 (drop 2 ?m)" using n(1) by (simp add: w16_be16)
    have e: "drop 4 ?m = drop 2 (drop 2 ?m)" "drop 20 ?m = drop 16 (drop 2 (drop 2 ?m))" by simp_all
    have "?m = take 2 ?m @ take 2 (drop 2 ?m) @ take 16 (drop 4 ?m) @ take ?n (drop 20 ?m) @ drop ?n (drop 20 ?m)"
      unfolding e by (simp del: drop_drop)
    then show ?thesis using n unfolding stun_parts_def w by simp
  qed
  then show ?thesis using n(3) by (rule that)
qed

lemma stun_parts_attrs:
  assumes "stun_parts msg h tid body room"
  shows "stun_attrs msg = tlvs (aligned msg) body"
proof -
  let ?m = "msg_buffer msg"
  have m: "?m = h @ w16 (word_of_nat (length body)) @ tid @ body @ room" "length h = 2" "length tid = 16" "length body + 20 < 65536"
    using assms by (auto simp: stun_parts_def)
  have "?m ! 2 = ucast (drop_bit 8 (word_of_nat (length body) :: u16))" "?m ! 3 = ucast (word_of_nat (length body) :: u16)"
    using m(2) unfolding m(1) by (simp_all add: nth_append w16_def)
  then have n: "unat (be16 (?m ! 2) (?m ! 3)) = length body" using m(4) by (simp add: unat_word16)
  have "take (length body) (drop 20 ?m) = body" using m(2,3) unfolding m(1) by simp
  then show ?thesis using m(2,3,4) n by (simp add: stun_attrs_def m(1))
qed

lemma message_length_parts:
  assumes "stun_parts msg h tid body room"
  shows "stun_message_length msg = Some (word_of_nat (length body + 20))"
proof -
  have "msg_buffer msg = h @ w16 (word_of_nat (length body)) @ tid @ body @ room" "length h = 2" using assms by (auto simp: stun_parts_def)
  then have "stun_getw (msg_buffer msg) 2 = Some (word_of_nat (length body))"
    using getw_mid [of 2 h _ _ "tid @ body @ room"] by (simp add: w16_def)
  then show ?thesis by (simp add: stun_message_length_def)
qed

lemma stun_message_find_attrs:
  assumes "stun_attrs msg = Some as"
  obtains r where "stun_message_find msg type = Some r" and "points_to (msg_buffer msg) r (lookup_attr (swapped msg type) as)"
proof -
  obtain h tid body room where p: "stun_parts msg h tid body room" "tlvs (aligned msg) body = Some as"
    using assms by (rule stun_attrsE)
  let ?pre = "h @ w16 (word_of_nat (length body)) @ tid"
  have m: "msg_buffer msg = ?pre @ body @ room" "length ?pre = 20" "length body + 20 < 65536" using p(1) by (auto simp: stun_parts_def)
  have "unat (word_of_nat (length body + 20) :: u16) = length ?pre + length body"
    using m(2,3) unat_word16 [of "length body + 20"] by simp
  with find_loop_tlvs [OF p(2) m(1) refl, of "swapped msg type"] m(2) that show ?thesis
    by (auto simp: stun_message_find_def message_length_parts [OF p(1)])
qed

lemma find_value:
  assumes "stun_attrs msg = Some as" and "lookup_attr (swapped msg type) as = Some v"
  obtains p n where "stun_message_find msg type = Some (Some (p, n))" and "mem_slice (msg_buffer msg) (int p) (unat n) = Some v"
proof -
  obtain r where r: "stun_message_find msg type = Some r" "points_to (msg_buffer msg) r (Some v)"
    using stun_message_find_attrs [OF assms(1), of type] assms(2) by metis
  then show ?thesis by (cases r) (auto simp: points_to_def intro!: that)
qed

lemma find_none:
  assumes "stun_attrs msg = Some as" and "lookup_attr (swapped msg type) as = None"
  shows "stun_message_find msg type = Some None"
proof -
  obtain r where r: "stun_message_find msg type = Some r" "points_to (msg_buffer msg) r None"
    using stun_message_find_attrs [OF assms(1), of type] assms(2) by metis
  then show ?thesis by (cases r) (auto simp: points_to_def)
qed

section \<open>Extension\<close>

definition has_cookie :: "octets \<Rightarrow> bool" where
  "has_cookie tid \<longleftrightarrow> take 4 tid = le32_bytes (bswap32 STUN_MAGIC_COOKIE)"

text \<open>Without the cookie the length of an attribute includes its padding, which becomes part of the value.\<close>

definition length_field :: "bool \<Rightarrow> octets \<Rightarrow> nat \<Rightarrow> nat" where
  "length_field al tid n = (if has_cookie tid then n else padded al n)"

definition stored_value :: "bool \<Rightarrow> octets \<Rightarrow> octets \<Rightarrow> octets" where
  "stored_value al tid d = d @ (if has_cookie tid then [] else replicate (padded al (length d) - length d) 0x20)"

lemma has_cookie_parts: "stun_parts msg h tid body room \<Longrightarrow> stun_message_has_cookie msg = Some (has_cookie tid)"
  using slice_mid [of 4 "h @ w16 (word_of_nat (length body))" 16 tid "body @ room"]
  by (auto simp: stun_parts_def stun_message_has_cookie_def stun_message_id_def has_cookie_def)

lemma unat_word32: "n < 2 ^ 32 \<Longrightarrow> unat (word_of_nat n :: u32) = n"
  by (simp add: unsigned_of_nat take_bit_nat_eq_self)

lemma ucast_of_nat_u16: "ucast (word_of_nat n :: u32) = (word_of_nat n :: u16)"
  by (rule u16_eqI) (simp add: bit_simps)

lemma padded_le: "padded al n \<le> n + 3"
  unfolding padded_def using div_times_less_eq_dividend [of "n + 3" 4] by simp

lemma aligned_buffer [simp]: "aligned (msg\<lparr>msg_buffer := b\<rparr>) = aligned msg" "swapped (msg\<lparr>msg_buffer := b\<rparr>) t = swapped msg t"
  by (simp_all add: aligned_def swapped_def)

lemma unat_word32_D: "unat (w :: u32) = n \<Longrightarrow> w = word_of_nat n"
  by auto

definition append_room :: "StunMessage \<Rightarrow> octets \<Rightarrow> octets \<Rightarrow> nat \<Rightarrow> bool" where
  "append_room msg body room n \<longleftrightarrow> length body + 24 + padded (aligned msg) n < 65536 \<and> 4 + padded (aligned msg) n \<le> length room \<and>
     length body + 24 + n \<le> unat (buffer_len msg)"

lemma append_fits:
  assumes "append_room msg body room n" and "stun_parts msg h tid body room"
  shows "\<not> ucast (word_of_nat (length body + 20) :: u16) + 4 + word_of_nat n > buffer_len msg"
proof -
  have n: "n < 65536" "length body + 20 < 65536" using assms padded_ge [of n "aligned msg"] by (auto simp: append_room_def stun_parts_def)
  have "ucast (word_of_nat (length body + 20) :: u16) = (word_of_nat (length body + 20) :: u32)"
    using n(2) by (metis unat_ucast_u16 unat_word16 unat_word32 word_unat_eq_iff of_nat_unat)
  then have "ucast (word_of_nat (length body + 20) :: u16) + 4 + word_of_nat n = (word_of_nat (length body + 24 + n) :: u32)" by simp
  moreover have "unat (word_of_nat (length body + 24 + n) :: u32) = length body + 24 + n" using n by (intro unat_word32) simp
  moreover have "length body + 24 + n \<le> unat (buffer_len msg)" using assms(1) by (simp add: append_room_def)
  ultimately show ?thesis by (simp only: word_less_nat_alt not_less)
qed

lemma cut_room:
  assumes "4 + k \<le> length room" and "n \<le> k"
  obtains x y z w rest where "room = x @ y @ z @ w @ rest" and "length x = 2" and "length y = 2" and "length z = n" and "length w = k - n"
proof (rule that [of "take 2 room" "take 2 (drop 2 room)" "take n (drop 2 (drop 2 room))" "take (k - n) (drop n (drop 2 (drop 2 room)))"
      "drop (k - n) (drop n (drop 2 (drop 2 room)))"])
  show "room = take 2 room @ take 2 (drop 2 room) @ take n (drop 2 (drop 2 room)) @ take (k - n) (drop n (drop 2 (drop 2 room))) @
      drop (k - n) (drop n (drop 2 (drop 2 room)))"
    by (simp del: drop_drop)
qed (use assms in auto)

lemma append_parts:
  assumes p: "stun_parts msg h tid body room" and "append_room msg body room n" and "length d = n"
  obtains x msg' rest where "stun_message_append msg type (word_of_nat n) = Some (Some (length body + 24), msg')"
    and "msg' = msg\<lparr>msg_buffer := h @ w16 (word_of_nat (length body + 4 + padded (aligned msg) n)) @ tid @ body @ w16 (swapped msg type) @
      w16 (word_of_nat (length_field (aligned msg) tid n)) @ x @ replicate (padded (aligned msg) n - n) 0x20 @ rest\<rparr>"
    and "length x = n" and "room = take (4 + padded (aligned msg) n) room @ rest"
proof -
  let ?k = "padded (aligned msg) n"
  have sz: "length body + 24 + ?k < 65536" "4 + ?k \<le> length room" "n \<le> ?k" using assms(2) padded_ge by (auto simp: append_room_def)
  obtain x y z w rest where r: "room = x @ y @ z @ w @ rest" "length x = 2" "length y = 2" "length z = n" "length w = ?k - n"
    using sz(2,3) by (rule cut_room)
  have m: "msg_buffer msg = h @ w16 (word_of_nat (length body)) @ tid @ body @ room" "length h = 2" "length tid = 16"
    using p by (auto simp: stun_parts_def)
  let ?t = "swapped msg type" let ?L = "length_field (aligned msg) tid n"
  let ?pre = "h @ w16 (word_of_nat (length body)) @ tid @ body"
  have s1: "stun_setw (msg_buffer msg) (int (length body + 20)) ?t = Some (?pre @ w16 ?t @ y @ z @ w @ rest)"
    using setw_mid [of "int (length body + 20)" ?pre x "y @ z @ w @ rest"] m r by simp
  have s2: "stun_setw (?pre @ w16 ?t @ y @ z @ w @ rest) (int (length body + 20) + 2) v = Some (?pre @ w16 ?t @ w16 v @ z @ w @ rest)" for v
    using setw_mid [of "int (length body + 20) + 2" "?pre @ w16 ?t" y "z @ w @ rest" v] m r by simp
  have s3: "store (?pre @ w16 ?t @ w16 v @ z @ w @ rest) (int (length body + 20) + 4 + int n) u = Some (?pre @ w16 ?t @ w16 v @ z @ u @ rest)"
    if "length u = ?k - n" for v u
    using store_mid [of "int (length body + 20) + 4 + int n" "?pre @ w16 ?t @ w16 v @ z" w u rest] m r that by simp
  have s4: "stun_setw (?pre @ c) 2 v = Some (h @ w16 v @ tid @ body @ c)" for v c
    using setw_mid [of 2 h "w16 (word_of_nat (length body))" "tid @ body @ c" v] m by simp
  let ?c = "w16 ?t @ w16 (word_of_nat ?L) @ z @ replicate (?k - n) 0x20 @ rest"
  have un: "unat (word_of_nat n :: u32) = n" using sz by (intro unat_word32) simp
  have ul: "unat (word_of_nat (length body + 20) :: u16) = length body + 20" using sz by (subst unat_word16) simp_all
  moreover have "uint w = int (unat w)" for w :: u16 by simp
  ultimately have ul: "unat (word_of_nat (length body + 20) :: u16) = length body + 20"
    "uint (word_of_nat (length body + 20) :: u16) = int (length body + 20)" by (simp_all only:)
  have padu: "unat (stun_padding (word_of_nat n)) = ?k - n" if "aligned msg"
    using padded_padding [of "word_of_nat n"] that by (simp add: un)
  then have pad: "stun_padding (word_of_nat n) = word_of_nat (?k - n)" if "aligned msg" using that by (intro unat_word32_D)
  have fits: "\<not> ucast (word_of_nat (length body + 20) :: u16) + 4 + word_of_nat n > buffer_len msg"
    using assms(2) p by (rule append_fits)
  have ck: "stun_message_has_cookie (msg\<lparr>msg_buffer := ?pre @ w16 ?t @ y @ z @ w @ rest\<rparr>) = Some (has_cookie tid)"
    by (rule has_cookie_parts [of _ h tid body "w16 ?t @ y @ z @ w @ rest"]) (use p in \<open>simp add: stun_parts_def\<close>)
  have al: "ucast (if has_cookie tid then word_of_nat n else stun_align (word_of_nat n)) = (word_of_nat ?L :: u16)" if "aligned msg"
    using that sz align_nat [of "word_of_nat n"] by (auto simp: length_field_def un ucast_of_nat_u16 dest: unat_word32_D)
  note steps = s1 [unfolded append_assoc] s2 [unfolded append_assoc] s3 [unfolded append_assoc] s4 [unfolded append_assoc] ck [unfolded append_assoc]
  have "stun_message_append msg type (word_of_nat n) =
      Some (Some (length body + 24), msg\<lparr>msg_buffer := h @ w16 (word_of_nat (length body + 4 + ?k)) @ tid @ body @ ?c\<rparr>)"
  proof (cases "aligned msg")
    case True
    have "(word_of_nat (length body + 20) + word_of_nat (?k - n) + word_of_nat n - 16 :: u16) = word_of_nat (length body + 4 + ?k)"
      using sz(3) by (simp add: of_nat_diff)
    moreover have "unat (word_of_nat (?k - n) :: u32) = ?k - n" using padu [OF True] pad [OF True] by simp
    ultimately show ?thesis
      using True fits by (simp add: stun_message_append_def message_length_parts [OF p] ul steps al pad un ucast_of_nat_u16 Let_def nat_add_distrib
        del: of_nat_add)
  next
    case False
    then have k: "?k = n" "w = []" using r(5) by (simp_all add: padded_def)
    have "(word_of_nat (length body + 20) + word_of_nat n - 16 :: u16) = word_of_nat (length body + 4 + n)" by simp
    then show ?thesis
      using False fits k(1) by (simp add: stun_message_append_def message_length_parts [OF p] ul steps(4) steps(1,2) [unfolded k(2) append.simps] length_field_def ucast_of_nat_u16 Let_def nat_add_distrib
        del: of_nat_add)
  qed
  then show ?thesis by (rule that) (use r sz(3) in auto)
qed

lemma padded_idem [simp]: "padded al (padded al n) = padded al n"
  by (simp add: padded_def)

lemma length_field_cases: "length_field al tid n = n \<or> length_field al tid n = padded al n"
  by (simp add: length_field_def)

lemma tlvs_single:
  assumes "padded al n = length r" and "n < 65536"
  shows "tlvs al (w16 t @ w16 (word_of_nat n) @ r) = Some [(t, take n r)]"
  using assms by (simp add: w16_def unat_word16)

text \<open>\<^verbatim>\<open>stun_message_append_bytes\<close> writes the attribute behind the body and leaves the header and the other attributes alone.\<close>

lemma append_bytes_parts:
  assumes p: "stun_parts msg h tid body room" and room: "append_room msg body room (length d)" and "length d < 2 ^ 32"
  obtains msg' rest where "stun_message_append_bytes msg type d (word_of_nat (length d)) = Some (STUN_MESSAGE_RETURN_SUCCESS, msg')"
    and "msg' = msg\<lparr>msg_buffer := msg_buffer msg'\<rparr>"
    and "stun_parts msg' h tid (body @ w16 (swapped msg type) @ w16 (word_of_nat (length_field (aligned msg) tid (length d))) @ d @
      replicate (padded (aligned msg) (length d) - length d) 0x20) rest"
    and "room = take (4 + padded (aligned msg) (length d)) room @ rest"
proof -
  let ?n = "length d" let ?k = "padded (aligned msg) ?n" let ?t = "swapped msg type" let ?L = "length_field (aligned msg) tid ?n"
  obtain x msg1 rest where a: "stun_message_append msg type (word_of_nat ?n) = Some (Some (length body + 24), msg1)"
      "msg1 = msg\<lparr>msg_buffer := h @ w16 (word_of_nat (length body + 4 + ?k)) @ tid @ body @ w16 ?t @
        w16 (word_of_nat ?L) @ x @ replicate (?k - ?n) 0x20 @ rest\<rparr>"
      "length x = ?n" "room = take (4 + ?k) room @ rest"
    using append_parts [OF p room refl, of type] by metis
  have m: "length h = 2" "length tid = 16" "length body + 24 + ?k < 65536" "?n \<le> ?k"
    using p room padded_ge by (auto simp: stun_parts_def append_room_def)
  let ?pre = "h @ w16 (word_of_nat (length body + 4 + ?k)) @ tid @ body @ w16 ?t @ w16 (word_of_nat ?L)"
  let ?body = "body @ w16 ?t @ w16 (word_of_nat ?L) @ d @ replicate (?k - ?n) 0x20"
  have s: "store (msg_buffer msg1) (int (length body + 24)) d = Some (?pre @ d @ replicate (?k - ?n) 0x20 @ rest)"
    using store_mid [of "int (length body + 24)" ?pre x d "replicate (?k - ?n) 0x20 @ rest"] m a(2,3) by simp
  let ?msg = "msg1\<lparr>msg_buffer := ?pre @ d @ replicate (?k - ?n) 0x20 @ rest\<rparr>"
  have run: "stun_message_append_bytes msg type d (word_of_nat ?n) = Some (STUN_MESSAGE_RETURN_SUCCESS, ?msg)"
    using a(1) s assms(3) by (simp add: stun_message_append_bytes_def mem_slice_def unat_word32)
  have "length ?body = length body + 4 + ?k" using m(4) by simp
  then have "stun_parts ?msg h tid ?body rest" using m by (simp add: stun_parts_def ac_simps)
  then show ?thesis using run a(2,4) by (intro that [of ?msg]) simp_all
qed

lemma append_bytes_attrs:
  assumes p: "stun_parts msg h tid body room" and at: "tlvs (aligned msg) body = Some as" and room: "append_room msg body room (length d)"
  obtains msg' body' rest where "stun_message_append_bytes msg type d (word_of_nat (length d)) = Some (STUN_MESSAGE_RETURN_SUCCESS, msg')"
    and "msg' = msg\<lparr>msg_buffer := msg_buffer msg'\<rparr>" and "stun_parts msg' h tid body' rest"
    and "tlvs (aligned msg') body' = Some (as @ [(swapped msg type, stored_value (aligned msg) tid d)])"
    and "length body' = length body + 4 + padded (aligned msg) (length d)"
    and "room = take (4 + padded (aligned msg) (length d)) room @ rest"
proof -
  let ?n = "length d" let ?k = "padded (aligned msg) ?n" let ?L = "length_field (aligned msg) tid ?n"
  have sz: "length body + 24 + ?k < 65536" "?n \<le> ?k" using room padded_ge by (auto simp: append_room_def)
  then have "?n < 2 ^ 32" by simp
  from append_bytes_parts [OF p room this] obtain msg' rest where
    a: "stun_message_append_bytes msg type d (word_of_nat ?n) = Some (STUN_MESSAGE_RETURN_SUCCESS, msg')"
    "msg' = msg\<lparr>msg_buffer := msg_buffer msg'\<rparr>"
    "stun_parts msg' h tid (body @ w16 (swapped msg type) @ w16 (word_of_nat ?L) @ d @ replicate (?k - ?n) 0x20) rest"
    "room = take (4 + ?k) room @ rest" by metis
  have "tlvs (aligned msg) (w16 (swapped msg type) @ w16 (word_of_nat ?L) @ d @ replicate (?k - ?n) 0x20) =
      Some [(swapped msg type, take ?L (d @ replicate (?k - ?n) 0x20))]"
    by (rule tlvs_single) (use sz length_field_cases [of "aligned msg" tid ?n] in auto)
  moreover have "take ?L (d @ replicate (?k - ?n) 0x20) = stored_value (aligned msg) tid d"
    using sz(2) by (auto simp: length_field_def stored_value_def)
  ultimately have "tlvs (aligned msg) (body @ w16 (swapped msg type) @ w16 (word_of_nat ?L) @ d @ replicate (?k - ?n) 0x20) =
      Some (as @ [(swapped msg type, stored_value (aligned msg) tid d)])"
    using tlvs_append [OF at] by simp
  moreover have "aligned msg' = aligned msg" using a(2) by (metis aligned_buffer(1))
  ultimately show ?thesis using a sz(2) by (intro that [OF a(1,2,3)]) simp_all
qed

text \<open>A type is found at the end of the list when nothing in front of it has the type or closes the list.\<close>

definition reaches :: "u16 \<Rightarrow> attribute list \<Rightarrow> bool" where
  "reaches t as \<longleftrightarrow> list_all (\<lambda>(s, v). s \<noteq> t \<and> s \<noteq> STUN_ATTRIBUTE_FINGERPRINT \<and>
     (s = STUN_ATTRIBUTE_MESSAGE_INTEGRITY \<longrightarrow> t = STUN_ATTRIBUTE_FINGERPRINT)) as"

lemma lookup_reaches: "reaches t as \<Longrightarrow> lookup_attr t (as @ bs) = lookup_attr t bs"
  by (induction as) (auto simp: reaches_def)

section \<open>Validation\<close>

definition stun_buffer_status :: "octets \<Rightarrow> int" where
  "stun_buffer_status m =
     (if m = [] \<or> drop_bit 6 (m ! 0) \<noteq> 0 then STUN_MESSAGE_BUFFER_INVALID
      else if length m < 4 then STUN_MESSAGE_BUFFER_INCOMPLETE
      else let n = unat (be16 (m ! 2) (m ! 3))
        in if n mod 4 \<noteq> 0 then STUN_MESSAGE_BUFFER_INVALID
           else if length m < n + 20 then STUN_MESSAGE_BUFFER_INCOMPLETE
           else if tlvs True (take n (drop 20 m)) = None then STUN_MESSAGE_BUFFER_INVALID else int n + 20)"

lemma padded_dvd: "4 dvd padded True n"
  by (simp add: padded_def)

lemma validate_loop_tlvs:
  "4 dvd length body \<Longrightarrow> length body < 65536 \<Longrightarrow> m = pre @ body @ rest \<Longrightarrow> len = word_of_nat (length body) \<Longrightarrow>
     validate_loop m True (length pre) len = Some (tlvs True body \<noteq> None)"
proof (induction True body arbitrary: pre len rule: tlvs.induct)
  case 1
  then show ?case by (subst validate_loop.simps) simp
next
  case (2 a b c d r)
  let ?n = "unat (be16 c d)" let ?k = "padded True ?n"
  have w: "stun_getw m (int (length pre) + 2) = Some (be16 c d)"
    using getw_mid [of _ "pre @ [a, b]" c d "r @ rest"] 2(4) by (simp add: add.commute)
  have al: "unat (stun_align (ucast (be16 c d))) = ?k" using attr_len [of True "be16 c d"] by simp
  have len: "unat len = length r + 4" "unat (len - 4) = length r" "len - 4 = word_of_nat (length r)" "len \<noteq> 0"
  proof -
    show u: "unat len = length r + 4" using 2(3,5) unat_word32 [of "length r + 4"] by (simp add: add.commute)
    then show "len \<noteq> 0" by auto
    show e: "len - 4 = word_of_nat (length r)" using 2(5) by simp
    show "unat (len - 4) = length r" unfolding e using 2(3) by (intro unat_word32) simp
  qed
  have rdvd: "4 dvd length r" using 2(2) by simp presburger
  show ?case
  proof (cases "?k \<le> length r")
    case True
    let ?pre = "pre @ [a, b, c, d] @ take ?k r"
    have "len - 4 - stun_align (ucast (be16 c d)) = word_of_nat (length r - ?k)"
      unfolding unat_word32_D [OF al] len(3) using True by (simp add: of_nat_diff)
    then have "validate_loop m True (length ?pre) (len - 4 - stun_align (ucast (be16 c d))) = Some (tlvs True (drop ?k r) \<noteq> None)"
      using 2(3,4) True dvd_diff_nat [OF rdvd padded_dvd [of ?n]] by (intro 2(1) [OF refl True]) auto
    moreover have "length ?pre = length pre + 4 + ?k" using True by simp
    ultimately have "validate_loop m True (length pre + 4 + ?k) (len - 4 - stun_align (ucast (be16 c d))) = Some (tlvs True (drop ?k r) \<noteq> None)"
      by (simp only:)
    then show ?thesis using True w al len by (subst validate_loop.simps) (simp add: Let_def word_less_nat_alt word_gt_0)
  next
    case False
    then show ?thesis using w al len by (subst validate_loop.simps) (simp add: Let_def word_less_nat_alt word_gt_0)
  qed
qed (auto dest: dvd_imp_le)

lemma padding_zero: "stun_padding (ucast w + 20) = 0 \<longleftrightarrow> unat (w :: u16) mod 4 = 0"
proof -
  have "unat (ucast w + 20 :: u32) = unat w + 20"
    using unat_u16_less [of w] by (subst unat_add_lem [THEN iffD1]) (simp_all del: unat_u16_less)
  then have "unat (stun_padding (ucast w + 20)) = (4 - (unat w + 20) mod 4) mod 4" unfolding padding_nat by simp
  moreover have "(n + 20) mod 4 = n mod 4" for n :: nat by presburger
  moreover have "(4 - r) mod 4 = 0 \<longleftrightarrow> r = 0" if "r < 4" for r :: nat using that by (auto simp: mod_if)
  ultimately show ?thesis by (simp flip: unat_eq_zero)
qed

text \<open>
  C12. For an agent with aligned attributes \<^verbatim>\<open>stun_message_validate_buffer_length\<close> never reads outside the buffer,
  whatever it holds, and accepts exactly the buffers that hold a whole message whose body is a list of attributes.
\<close>

theorem validate_buffer_correct:
  assumes "unat len = length m"
  shows "stun_message_validate_buffer_length m len True = Some (stun_buffer_status m)"
proof (cases "m = [] \<or> drop_bit 6 (m ! 0) \<noteq> 0 \<or> length m < 4")
  case True
  then show ?thesis
    using assms by (auto simp: stun_message_validate_buffer_length_def stun_buffer_status_def load8_def word_less_nat_alt unat_eq_0)
next
  case False
  let ?w = "be16 (m ! 2) (m ! 3)" let ?n = "unat ?w"
  have w: "stun_getw m 2 = Some ?w" using False by (simp add: stun_getw_def load8_def)
  have u: "unat (ucast ?w + 20 :: u32) = ?n + 20"
    using unat_u16_less [of ?w] by (subst unat_add_lem [THEN iffD1]) (simp_all del: unat_u16_less)
  then have ui: "uint (ucast ?w + 20 :: u32) = int ?n + 20" unfolding uint_nat by simp
  have loop: "validate_loop m True 20 (ucast ?w) = Some (tlvs True (take ?n (drop 20 m)) \<noteq> None)"
    if "?n mod 4 = 0" "?n + 20 \<le> length m"
  proof -
    have l: "length (take ?n (drop 20 m)) = ?n" using that(2) by simp
    have "validate_loop m True (length (take 20 m)) (ucast ?w) = Some (tlvs True (take ?n (drop 20 m)) \<noteq> None)"
      by (rule validate_loop_tlvs [of _ _ _ "drop ?n (drop 20 m)"]) (use that in \<open>simp_all add: l mod_eq_0_iff_dvd del: drop_drop length_take\<close>)
    then show ?thesis using that by simp
  qed
  show ?thesis
    using False assms w loop by (auto simp: stun_message_validate_buffer_length_def stun_buffer_status_def load8_def word_less_nat_alt
      padding_zero u ui Let_def)
qed

theorem validate_buffer_correct_witness:
  "stun_message_validate_buffer_length ([0, 1, 0, 8] @ replicate 16 0 @ [0, 6, 0, 3, 97, 98, 99, 0]) 28 True =
     Some (stun_buffer_status ([0, 1, 0, 8] @ replicate 16 0 @ [0, 6, 0, 3, 97, 98, 99, 0]))"
  by (rule validate_buffer_correct) simp

text \<open>
  Without alignment the length left wraps around: a body of one octet makes the function read behind the buffer.
\<close>

theorem validate_buffer_unaligned_overread:
  "stun_message_validate_buffer_length ([0, 1, 0, 1] @ replicate 16 0 @ [0]) 21 False = None"
  by code_simp

text \<open>
  C14. \<^verbatim>\<open>stun_message_find\<close> on a message whose body is a list of attributes returns the place and the length of
  the value that the list has for the type, or a null pointer; it never reads outside the message.
\<close>

theorem stun_message_find_correct:
  assumes "stun_attrs msg = Some as"
  shows "\<exists>r. stun_message_find msg type = Some r \<and> points_to (msg_buffer msg) r (lookup_attr (swapped msg type) as)"
  using assms by (rule stun_message_find_attrs) blast

definition sample_message :: StunMessage where
  "sample_message = \<lparr>msg_agent = None, msg_buffer = [0, 1, 0, 8, 0x21, 0x12, 0xA4, 0x42] @ replicate 12 0 @ [0, 6, 0, 3, 97, 98, 99, 0] @ replicate 28 0,
     buffer_len = 56, msg_key = None, msg_long_term_key = replicate 16 0, msg_long_term_valid = False\<rparr>"

lemma sample_attrs: "stun_attrs sample_message = Some [(6, [97, 98, 99])]"
  by (simp add: stun_attrs_def sample_message_def aligned_def padded_def be16_def)

theorem stun_message_find_correct_witness:
  "\<exists>r. stun_message_find sample_message 6 = Some r \<and> points_to (msg_buffer sample_message) r (Some [97, 98, 99])"
proof -
  have "lookup_attr (swapped sample_message 6) [(6, [97, 98, 99])] = Some [97, 98, 99]" by code_simp
  then show ?thesis using stun_message_find_correct [OF sample_attrs, of 6] by simp
qed

text \<open>
  C13. \<^verbatim>\<open>stun_message_append_bytes\<close>, given the room of the attribute and its padding, puts the attribute at the end of the list and
  leaves the type, the transaction and the room behind it alone.
\<close>

theorem stun_message_append_correct:
  assumes "stun_parts msg h tid body room" and "tlvs (aligned msg) body = Some as" and "append_room msg body room (length d)"
  shows "\<exists>msg' body' rest. stun_message_append_bytes msg type d (word_of_nat (length d)) = Some (STUN_MESSAGE_RETURN_SUCCESS, msg') \<and>
     msg' = msg\<lparr>msg_buffer := msg_buffer msg'\<rparr> \<and> stun_parts msg' h tid body' rest \<and>
     stun_attrs msg' = Some (as @ [(swapped msg type, stored_value (aligned msg) tid d)]) \<and>
     room = take (4 + padded (aligned msg) (length d)) room @ rest"
  using append_bytes_attrs [OF assms] stun_parts_attrs by metis

theorem stun_message_append_correct_witness:
  "\<exists>msg'. stun_message_append_bytes sample_message 0x24 [1, 2, 3, 4] 4 = Some (STUN_MESSAGE_RETURN_SUCCESS, msg') \<and>
     stun_attrs msg' = Some [(6, [97, 98, 99]), (0x24, [1, 2, 3, 4])]"
proof -
  let ?tid = "[0x21, 0x12, 0xA4, 0x42] @ replicate 12 0" let ?body = "[0, 6, 0, 3, 97, 98, 99, 0 :: u8]"
  have "stun_parts sample_message [0, 1] ?tid ?body (replicate 28 0)" by (simp add: stun_parts_def sample_message_def w16_def)
  moreover have "tlvs (aligned sample_message) ?body = Some [(6, [97, 98, 99])]" by code_simp
  moreover have "append_room sample_message ?body (replicate 28 0) (length [1, 2, 3, 4 :: u8])"
    by (simp add: append_room_def padded_def aligned_def sample_message_def)
  ultimately have "\<exists>msg'. stun_message_append_bytes sample_message 0x24 [1, 2, 3, 4] (word_of_nat (length [1, 2, 3, 4 :: u8])) =
      Some (STUN_MESSAGE_RETURN_SUCCESS, msg') \<and> stun_attrs msg' =
      Some ([(6, [97, 98, 99])] @ [(swapped sample_message 0x24, stored_value (aligned sample_message) ?tid [1, 2, 3, 4])])"
    using stun_message_append_correct by metis
  moreover have "stored_value (aligned sample_message) ?tid [1, 2, 3, 4] = [1, 2, 3, 4]" "swapped sample_message 0x24 = 0x24"
    by (simp_all add: stored_value_def padded_def swapped_def sample_message_def)
  ultimately show ?thesis by simp
qed

text \<open>
  The check of the room in \<^verbatim>\<open>stun_message_append\<close> does not count the padding: appending one octet to a message with five
  octets of room passes the check and writes three octets of padding behind the buffer.
\<close>

theorem stun_message_append_padding_overflow:
  "stun_message_append_bytes \<lparr>msg_agent = None, msg_buffer = [0, 1, 0, 0, 0x21, 0x12, 0xA4, 0x42] @ replicate 12 0 @ replicate 5 0,
     buffer_len = 25, msg_key = None, msg_long_term_key = replicate 16 0, msg_long_term_valid = False\<rparr> 6 [97] 1 = None"
  by code_simp

end
