(* ===== verification/Stun_Fields.thy ===== *)
theory Stun_Fields
  imports Stun_Attributes
begin

text \<open>
  The head of a STUN message: class and method, which share the bits of the type, and the transaction are read back
  as they were written.
\<close>

section \<open>The type of a message\<close>

text \<open>The fourteen bits of the type, of the class \<open>c\<close> and the method \<open>m\<close>.\<close>

definition type_octets :: "StunClass \<Rightarrow> StunMethod \<Rightarrow> octets" where
  "type_octets c m = [ucast (drop_bit 1 (class_code c) OR (drop_bit 6 m AND 0x3e)),
     ucast ((push_bit 4 (class_code c) AND 0x10) OR (push_bit 1 m AND 0xe0) OR (m AND 0x0f))]"

definition type_word :: "StunClass \<Rightarrow> StunMethod \<Rightarrow> u16" where
  "type_word c m = be16 (type_octets c m ! 0) (type_octets c m ! 1)"

lemma bit_and_field: "bit (x AND push_bit a (mask b)) n \<longleftrightarrow> bit x n \<and> a \<le> n \<and> n < a + b" for x :: "'a :: len word"
  by (auto simp: bit_simps dest: bit_imp_le_length)

lemma bit_masks_u32:
  "bit (x AND 0x3e) n \<longleftrightarrow> bit x n \<and> 1 \<le> n \<and> n < 6" "bit (x AND 0x10) n \<longleftrightarrow> bit x n \<and> 4 \<le> n \<and> n < 5"
  "bit (x AND 0xe0) n \<longleftrightarrow> bit x n \<and> 5 \<le> n \<and> n < 8" "bit (x AND 0x0f) n \<longleftrightarrow> bit x n \<and> n < 4" for x :: u32
  using bit_and_field [of x 1 5 n] bit_and_field [of x 4 1 n] bit_and_field [of x 5 3 n] bit_and_field [of x 0 4 n]
  by (simp_all add: mask_eq_exp_minus_1)

lemma bit_masks_u16:
  "bit (x AND 0x3e00) n \<longleftrightarrow> bit x n \<and> 9 \<le> n \<and> n < 14" "bit (x AND 0x10) n \<longleftrightarrow> bit x n \<and> 4 \<le> n \<and> n < 5"
  "bit (x AND 0xe0) n \<longleftrightarrow> bit x n \<and> 5 \<le> n \<and> n < 8" "bit (x AND 0x0f) n \<longleftrightarrow> bit x n \<and> n < 4"
  "bit (x AND 0x100) n \<longleftrightarrow> bit x n \<and> 8 \<le> n \<and> n < 9" for x :: u16
  using bit_and_field [of x 9 5 n] bit_and_field [of x 4 1 n] bit_and_field [of x 5 3 n] bit_and_field [of x 0 4 n] bit_and_field [of x 8 1 n]
  by (simp_all add: mask_eq_exp_minus_1)

lemma bit_class_code: "bit (class_code c) n \<longleftrightarrow> n = 0 \<and> (c = STUN_INDICATION \<or> c = STUN_ERROR) \<or> n = 1 \<and> (c = STUN_RESPONSE \<or> c = STUN_ERROR)"
proof -
  have "bit (2 :: u32) n \<longleftrightarrow> n = 1" "bit (1 :: u32) n \<longleftrightarrow> n = 0" by (auto simp: bit_simps)
  moreover have "(3 :: u32) = 2 OR 1" by simp
  ultimately show ?thesis by (cases c) (auto simp only: class_code.simps bit_or_iff StunClass.distinct simp_thms bit_0_eq)
qed

lemma bit_type_word:
  "n < 16 \<Longrightarrow> bit (type_word c m) n \<longleftrightarrow>
     (if n < 4 then bit m n else if n = 4 then c = STUN_INDICATION \<or> c = STUN_ERROR else if n < 8 then bit m (n - 1)
      else if n = 8 then c = STUN_RESPONSE \<or> c = STUN_ERROR else n < 14 \<and> bit m (n - 2))"
  unfolding type_word_def type_octets_def One_nat_def nth_Cons_Suc nth_Cons_0 bit_be16 bit_ucast_iff bit_or_iff bit_masks_u32
    bit_drop_bit_eq bit_push_bit_iff bit_class_code comp_def
  by auto

lemma type_word_decode:
  assumes "m < 0x1000"
  shows "ucast (drop_bit 2 (type_word c m AND 0x3e00) OR drop_bit 1 (type_word c m AND 0x00e0) OR (type_word c m AND 0x000f)) = m"
    and "class_of_code (drop_bit 7 (type_word c m AND 0x0100) OR drop_bit 4 (type_word c m AND 0x0010)) = c"
proof -
  let ?t = "type_word c m"
  show "ucast (drop_bit 2 (?t AND 0x3e00) OR drop_bit 1 (?t AND 0x00e0) OR (?t AND 0x000f)) = m"
  proof (rule u32_eqI)
    fix n :: nat assume "n < 32"
    have "take_bit 12 (unat m) = unat m" using assms by (simp add: take_bit_nat_eq_self word_less_nat_alt)
    then have "bit m n \<Longrightarrow> n < 12" using bit_take_bit_iff [of 12 "unat m" n] \<open>n < 32\<close> by (simp add: bit_unsigned_iff)
    then consider "n < 4" | "4 \<le> n" "n < 7" | "7 \<le> n" "n < 12" | "12 \<le> n" "\<not> bit m n" by linarith
    then show "bit (ucast (drop_bit 2 (?t AND 0x3e00) OR drop_bit 1 (?t AND 0x00e0) OR (?t AND 0x000f)) :: u32) n = bit m n"
      unfolding bit_ucast_iff bit_or_iff bit_drop_bit_eq comp_def bit_masks_u16 by cases (simp_all add: bit_type_word)
  qed
  have "drop_bit 7 (?t AND 0x0100) OR drop_bit 4 (?t AND 0x0010) = ucast (class_code c)"
  proof (rule u16_eqI)
    fix n :: nat assume "n < 16"
    then show "bit (drop_bit 7 (?t AND 0x0100) OR drop_bit 4 (?t AND 0x0010)) n = bit (ucast (class_code c) :: u16) n"
      unfolding bit_ucast_iff bit_or_iff bit_drop_bit_eq comp_def bit_masks_u16 bit_class_code by (auto simp: bit_type_word)
  qed
  then show "class_of_code (drop_bit 7 (?t AND 0x0100) OR drop_bit 4 (?t AND 0x0010)) = c"
    by (cases c) (simp_all add: class_of_code_def)
qed

text \<open>
  Every class and method come back, except the combination that the readers take for a data indication.
\<close>

lemma type_word_hack: "type_word c m = 0x0115 \<longleftrightarrow> c = STUN_ERROR \<and> m = 5" if "m < 0x1000"
proof
  assume t: "type_word c m = 0x0115"
  show "c = STUN_ERROR \<and> m = 5" using type_word_decode [OF that, of c] unfolding t by (simp add: class_of_code_def)
next
  have "type_word STUN_ERROR 5 = 0x0115" by code_simp
  then show "c = STUN_ERROR \<and> m = 5 \<Longrightarrow> type_word c m = 0x0115" by simp
qed

lemma get_type_word:
  assumes "stun_getw (msg_buffer msg) 0 = Some (type_word c m)" and "m < 0x1000"
  shows "(stun_message_get_class msg, stun_message_get_method msg) =
    (if c = STUN_ERROR \<and> m = 5 then (Some STUN_INDICATION, Some 7) else (Some c, Some m))"
proof (cases "c = STUN_ERROR \<and> m = 5")
  case True
  then have t: "type_word c m = 0x0115" using type_word_hack [OF assms(2)] by simp
  show ?thesis using True assms(1) unfolding t
    by (simp add: stun_message_get_method_def stun_message_get_class_def wire_type_def class_of_code_def)
next
  case False
  then have "wire_type (type_word c m) = type_word c m" using type_word_hack [OF assms(2), of c] by (auto simp: wire_type_def)
  then show ?thesis
    using False assms(1) type_word_decode [OF assms(2), of c] by (simp add: stun_message_get_method_def stun_message_get_class_def)
qed

section \<open>A new message\<close>

lemma set_type_mid:
  assumes "length x = 2"
  shows "stun_set_type (x @ r) 0 c m = Some (type_octets c m @ r)"
proof -
  obtain p q where x: "x = [p, q]" using assms by (auto simp: length_Suc_conv numeral_2_eq_2)
  obtain a b where ab: "type_octets c m = [a, b]" by (simp add: type_octets_def)
  have "store (x @ r) 0 [a] = Some (a # q # r)" "store (a # q # r) 1 [b] = Some (a # b # r)"
    using store_mid [of 0 "[]" "[p]" "[a]" "q # r"] store_mid [of 1 "[a]" "[q]" "[b]" r] x by simp_all
  moreover have "stun_set_type (x @ r) 0 c m = do { h \<leftarrow> store (x @ r) 0 [a]; store h 1 [b] }"
    using ab by (simp only: stun_set_type_def type_octets_def list.inject add_0)
  ultimately show ?thesis using ab by simp
qed

lemma init_parts:
  assumes "20 \<le> buffer_len msg" and "unat (buffer_len msg) \<le> length (msg_buffer msg)" and "length tid = 16"
  obtains room where "stun_message_init msg c m tid = Some (True, msg\<lparr>msg_buffer := type_octets c m @ [0, 0] @ tid @ room\<rparr>)"
    and "length room + 20 = length (msg_buffer msg)"
proof -
  let ?b = "msg_buffer msg"
  have len: "20 \<le> length ?b" using assms(1,2) by (simp add: word_le_nat_alt)
  have "drop 20 ?b = drop 16 (drop 4 ?b)" by simp
  then have b: "?b = take 4 ?b @ take 16 (drop 4 ?b) @ drop 20 ?b" by (simp del: drop_drop)
  have "store ?b 0 [0, 0, 0, 0] = Some ([0, 0, 0, 0] @ take 16 (drop 4 ?b) @ drop 20 ?b)"
    using store_mid [of 0 "[]" "take 4 ?b" "[0, 0, 0, 0]" "take 16 (drop 4 ?b) @ drop 20 ?b"] b len by simp
  moreover have "stun_set_type ([0, 0, 0, 0] @ take 16 (drop 4 ?b) @ drop 20 ?b) 0 c m = Some ((type_octets c m @ [0, 0]) @ take 16 (drop 4 ?b) @ drop 20 ?b)"
    using set_type_mid [of "[0, 0]" "[0, 0] @ take 16 (drop 4 ?b) @ drop 20 ?b"] by simp
  moreover have "store ((type_octets c m @ [0, 0]) @ take 16 (drop 4 ?b) @ drop 20 ?b) 4 tid = Some ((type_octets c m @ [0, 0]) @ tid @ drop 20 ?b)"
    by (rule store_mid) (use len assms(3) in \<open>simp_all add: type_octets_def\<close>)
  moreover have "mem_slice tid 0 16 = Some tid" using assms(3) by (simp add: mem_slice_def)
  ultimately have "stun_message_init msg c m tid = Some (True, msg\<lparr>msg_buffer := type_octets c m @ [0, 0] @ tid @ drop 20 ?b\<rparr>)"
    using assms(1) by (simp add: stun_message_init_def not_less)
  then show ?thesis by (rule that) (use len in simp)
qed

lemma new_parts:
  assumes "length tid = 16"
  shows "stun_parts (msg\<lparr>msg_buffer := type_octets c m @ [0, 0] @ tid @ room\<rparr>) (type_octets c m) tid [] room"
  using assms by (simp add: stun_parts_def w16_def type_octets_def)

lemma parts_id: "stun_parts msg h tid body room \<Longrightarrow> stun_message_id msg = Some tid"
  using slice_mid [of 4 "h @ w16 (word_of_nat (length body))" 16 tid "body @ room"] by (simp add: stun_parts_def stun_message_id_def)

lemma parts_type:
  assumes "stun_parts msg (type_octets c m) tid body room"
  shows "stun_getw (msg_buffer msg) 0 = Some (type_word c m)"
  using assms getw_mid [of 0 "[]" "type_octets c m ! 0" "type_octets c m ! 1" "w16 (word_of_nat (length body)) @ tid @ body @ room"]
  by (simp add: stun_parts_def type_octets_def type_word_def)

text \<open>
  C16. The type that \<^verbatim>\<open>stun_message_init\<close> writes is read back: the class and every method of twelve bits, the
  transaction and an empty list of attributes. The one exception is the error response to \<^verbatim>\<open>STUN_CONNECT\<close>, which the
  readers report as a data indication.
\<close>

theorem stun_message_init_correct:
  assumes "20 \<le> buffer_len msg" and "unat (buffer_len msg) \<le> length (msg_buffer msg)" and "length tid = 16" and "m < 0x1000"
  shows "\<exists>msg'. stun_message_init msg c m tid = Some (True, msg') \<and> stun_message_id msg' = Some tid \<and> stun_attrs msg' = Some [] \<and>
    (stun_message_get_class msg', stun_message_get_method msg') =
      (if c = STUN_ERROR \<and> m = 5 then (Some STUN_INDICATION, Some 7) else (Some c, Some m))"
proof -
  obtain room where i: "stun_message_init msg c m tid = Some (True, msg\<lparr>msg_buffer := type_octets c m @ [0, 0] @ tid @ room\<rparr>)" (is "_ = Some (_, ?msg)")
    using init_parts [OF assms(1-3)] by metis
  have p: "stun_parts ?msg (type_octets c m) tid [] room" using assms(3) by (rule new_parts)
  show ?thesis
    using i parts_id [OF p] stun_parts_attrs [OF p] get_type_word [OF parts_type [OF p] assms(4)] by simp
qed

theorem stun_message_init_correct_witness:
  "\<exists>msg'. stun_message_init sample_message STUN_RESPONSE 1 (replicate 16 7) = Some (True, msg') \<and> stun_attrs msg' = Some []"
proof -
  have "20 \<le> buffer_len sample_message" "unat (buffer_len sample_message) \<le> length (msg_buffer sample_message)"
    by (simp_all add: sample_message_def)
  then show ?thesis using stun_message_init_correct [of sample_message "replicate 16 7" 1 STUN_RESPONSE] by auto
qed

end
