(* ===== verification/Stun_Address.thy ===== *)
theory Stun_Address
  imports Stun_Fields
begin

text \<open>
  The addresses of STUN attributes. An end point is written into the message masked by the cookie and, for IPv6, by the
  transaction; reading it back gives the end point again.
\<close>

section \<open>Socket addresses\<close>

datatype endpoint = Inet octets octets | Inet6 octets octets

fun endpoint_ok :: "endpoint \<Rightarrow> bool" where
  "endpoint_ok (Inet p a) \<longleftrightarrow> length p = 2 \<and> length a = 4"
| "endpoint_ok (Inet6 p a) \<longleftrightarrow> length p = 2 \<and> length a = 16"

fun sockaddr_size :: "endpoint \<Rightarrow> nat" where
  "sockaddr_size (Inet p a) = 16"
| "sockaddr_size (Inet6 p a) = 28"

text \<open>The object of an end point, with \<open>x\<close> and \<open>y\<close> for the members that carry no address.\<close>

fun sockaddr :: "endpoint \<Rightarrow> octets \<Rightarrow> octets \<Rightarrow> octets" where
  "sockaddr (Inet p a) x y = le16_bytes AF_INET @ p @ a @ x"
| "sockaddr (Inet6 p a) x y = le16_bytes AF_INET6 @ p @ x @ a @ y"

definition spare :: "endpoint \<Rightarrow> octets \<Rightarrow> octets \<Rightarrow> bool" where
  "spare e x y \<longleftrightarrow> (case e of Inet _ _ \<Rightarrow> length x = 8 \<and> y = [] | Inet6 _ _ \<Rightarrow> length x = 4 \<and> length y = 4)"

text \<open>The value of the attribute.\<close>

fun address_value :: "endpoint \<Rightarrow> octets" where
  "address_value (Inet p a) = [0, 1] @ p @ a"
| "address_value (Inet6 p a) = [0, 2] @ p @ a"

fun masked :: "u32 \<Rightarrow> octets \<Rightarrow> endpoint \<Rightarrow> endpoint" where
  "masked k tid (Inet p a) = Inet (xor_octets p (take 2 (be32_bytes k))) (xor_octets a (be32_bytes k))"
| "masked k tid (Inet6 p a) = Inet6 (xor_octets p (take 2 (be32_bytes k))) (xor_octets a tid)"

lemma xor_octets_twice: "length b = length a \<Longrightarrow> xor_octets (xor_octets a b) b = a"
  by (induction a b rule: list_induct2') (auto simp: xor_octets_def xor.assoc)

lemma length_xor_octets [simp]: "length (xor_octets a b) = min (length a) (length b)"
  by (simp add: xor_octets_def)

lemma length_be32_bytes4 [simp]: "length (be32_bytes w) = 4"
  by (simp add: be32_bytes_def)

lemma masked_masked: "endpoint_ok e \<Longrightarrow> length tid = 16 \<Longrightarrow> masked k tid (masked k tid e) = e"
  by (cases e) (simp_all add: xor_octets_twice)

lemma masked_ok: "endpoint_ok e \<Longrightarrow> length tid = 16 \<Longrightarrow> endpoint_ok (masked k tid e)"
  by (cases e) simp_all

section \<open>Masking\<close>

lemma be32_bytes_cases: obtains a b c d where "k = le32 d c b a" and "be32_bytes k = [a, b, c, d]"
proof (rule le32_cases [of k])
  fix a b c d assume "k = le32 a b c d"
  then show ?thesis by (intro that [of a b c d]) (simp_all add: be32_bytes_def ucast_le32)
qed

lemma mask_port:
  "le16_bytes ((ucast p OR push_bit 8 (ucast q)) XOR bswap16 (ucast (drop_bit 16 (le32 d c b a)))) = [p XOR a, q XOR b]"
proof -
  have "(ucast p OR push_bit 8 (ucast q)) XOR bswap16 (ucast (drop_bit 16 (le32 d c b a))) = be16 (q XOR b) (p XOR a)"
    by (rule u16_eqI) (auto simp: bit_be16 bit_bswap16 bit_le32 bit_simps dest: bit_imp_le_length)
  then show ?thesis by (simp add: le16_bytes_def)
qed

lemma list4: "length a = 4 \<Longrightarrow> \<exists>p q r s. a = [p, q, r, s]" and list2: "length a = 2 \<Longrightarrow> \<exists>p q. a = [p, q]"
  by (auto simp: length_Suc_conv eval_nat_numeral)

lemma load16_family: "load16 (le16_bytes f @ r) 0 = Some f"
  using be16_ucast [of f] by (simp add: load16_def load8_def le16_bytes_def be16_def or.commute)

lemma xor_address_masked:
  assumes "endpoint_ok e" and "stun_message_id msg = Some tid" and "length tid = 16" and "spare e x y" and "word_of_nat (sockaddr_size e) \<le> len"
  shows "stun_xor_address msg (sockaddr e x y @ z) len k = Some (STUN_MESSAGE_RETURN_SUCCESS, sockaddr (masked k tid e) x y @ z)"
proof -
  obtain k0 k1 k2 k3 where k: "k = le32 k3 k2 k1 k0" "be32_bytes k = [k0, k1, k2, k3]" by (rule be32_bytes_cases)
  have port: "load16 (le16_bytes f @ p # q # r) 2 = Some (ucast p OR push_bit 8 (ucast q))" for f p q r
    by (simp add: load16_def load8_def le16_bytes_def nth_append)
  have put: "store (le16_bytes f @ p # q # r) 2 [p', q'] = Some (le16_bytes f @ p' # q' # r)" for f p q p' q' r
    using store_mid [of 2 "le16_bytes f" "[p, q]" "[p', q']" r] by simp
  show ?thesis
  proof (cases e)
    case (Inet p a)
    then obtain p0 p1 a0 a1 a2 a3 where e: "p = [p0, p1]" "a = [a0, a1, a2, a3]" using assms(1) list4 list2 by fastforce
    have "load32 (le16_bytes AF_INET @ [p', q'] @ a @ x @ z) 4 = Some (le32 a0 a1 a2 a3)" for p' q'
      by (simp add: load32_def load8_def le16_bytes_def e)
    moreover have "le32_bytes (le32 a0 a1 a2 a3 XOR bswap32 k) = xor_octets a (be32_bytes k)"
      unfolding k(2) by (simp add: k(1) bswap32_le32 le32_xor xor_octets_def e)
    moreover have "store (le16_bytes AF_INET @ [p', q'] @ a @ x @ z) 4 b = Some (le16_bytes AF_INET @ [p', q'] @ b @ x @ z)" if "length b = 4" for p' q' b
      using store_mid [of 4 "le16_bytes AF_INET @ [p', q']" a b "x @ z"] that by (simp add: e)
    moreover have "xor_octets p (take 2 (be32_bytes k)) = [p0 XOR k0, p1 XOR k1]" unfolding k(2) by (simp add: e xor_octets_def)
    ultimately show ?thesis
      using assms(5) Inet by (simp add: stun_xor_address_def load16_family port put mask_port [of _ _ k3 k2 k1 k0, folded k(1)] e not_less)
  next
    case (Inet6 p a)
    then obtain p0 p1 where e: "p = [p0, p1]" "length a = 16" "length x = 4" using assms(1,4) list2 by (fastforce simp: spare_def)
    have "mem_slice (le16_bytes AF_INET6 @ [p', q'] @ x @ a @ y @ z) 8 16 = Some a" for p' q'
      using slice_mid [of 8 "le16_bytes AF_INET6 @ [p', q'] @ x" 16 a "y @ z"] e by simp
    moreover have "store (le16_bytes AF_INET6 @ [p', q'] @ x @ a @ y @ z) 8 b = Some (le16_bytes AF_INET6 @ [p', q'] @ x @ b @ y @ z)"
      if "length b = 16" for p' q' b
      using store_mid [of 8 "le16_bytes AF_INET6 @ [p', q'] @ x" a b "y @ z"] that e by simp
    moreover have "mem_slice (msg_buffer msg) 4 16 = Some tid" using assms(2) by (simp add: stun_message_id_def)
    moreover have "xor_octets p (take 2 (be32_bytes k)) = [p0 XOR k0, p1 XOR k1]" unfolding k(2) by (simp add: e xor_octets_def)
    ultimately show ?thesis
      using assms(3,5) Inet6 e by (simp add: stun_xor_address_def load16_family port put mask_port [of _ _ k3 k2 k1 k0, folded k(1)] not_less)
  qed
qed

section \<open>Appending an address\<close>

lemma store_seq: "j = i + int (length a) \<Longrightarrow> (store m i a \<bind> (\<lambda>m. store m j b)) = store m i (a @ b)"
proof (cases "store m i a")
  case None
  then show ?thesis by (auto simp: store_def split: if_splits)
next
  case (Some m1)
  then show "j = i + int (length a) \<Longrightarrow> ?thesis" using store_store [OF Some] by simp
qed

lemma slice_all: "n = length v \<Longrightarrow> mem_slice v 0 n = Some v"
  by (simp add: mem_slice_def)

lemma store_address:
  assumes "length p = 2"
  shows "(store b i [0] \<bind> (\<lambda>b. store b (i + 1) [f] \<bind> (\<lambda>b. store b (i + 2) p \<bind> (\<lambda>b. store b (i + 4) a \<bind> g)))) =
    (store b i (0 # f # p @ a) \<bind> g)"
proof -
  have H: "(store b i [0] \<bind> (\<lambda>b. store b (i + 1) [f] \<bind> (\<lambda>b. store b (i + 2) p \<bind> (\<lambda>b. store b (i + 4) a)))) = store b i (0 # f # p @ a)"
    using store_seq [of "i + 4" "i + 2" p _ a] store_seq [of "i + 2" "i + 1" "[f]" _ "p @ a"] store_seq [of "i + 1" i "[0]" _ "f # p @ a"] assms
    by simp
  show ?thesis unfolding H [symmetric] Option.bind_assoc ..
qed

lemma append_addr_bytes:
  assumes "endpoint_ok e" and "spare e x y" and "word_of_nat (sockaddr_size e) \<le> len"
  shows "stun_message_append_addr msg type (sockaddr e x y @ z) len =
    stun_message_append_bytes msg type (address_value e) (word_of_nat (length (address_value e)))"
proof (cases e)
  case (Inet p a)
  then have e: "length p = 2" "length a = 4" "\<not> len < 16" using assms(1,3) by (simp_all add: not_less)
  have "mem_slice (le16_bytes AF_INET @ p @ a @ x @ z) 2 2 = Some p" by (rule slice_mid) (simp_all add: e)
  moreover have "mem_slice ((le16_bytes AF_INET @ p) @ a @ x @ z) 4 4 = Some a" by (rule slice_mid) (simp_all add: e)
  moreover have "mem_slice (0 # 1 # p @ a) 0 (unat (8 :: u32)) = Some (0 # 1 # p @ a)" by (rule slice_all) (simp add: e)
  ultimately show ?thesis
    using Inet e by (simp add: stun_message_append_addr_def stun_message_append_bytes_def load16_family store_address cong: option.case_cong)
next
  case (Inet6 p a)
  then have e: "length p = 2" "length a = 16" "length x = 4" "\<not> len < 28" "\<not> len < 16"
    using assms by (auto simp: spare_def not_less intro: order.trans [of 16 28])
  have "mem_slice (le16_bytes AF_INET6 @ p @ x @ a @ y @ z) 2 2 = Some p" by (rule slice_mid) (simp_all add: e)
  moreover have "mem_slice ((le16_bytes AF_INET6 @ p @ x) @ a @ y @ z) 8 16 = Some a" by (rule slice_mid) (simp_all add: e)
  moreover have "mem_slice (0 # 2 # p @ a) 0 (unat (20 :: u32)) = Some (0 # 2 # p @ a)" by (rule slice_all) (simp add: e)
  ultimately show ?thesis
    using Inet6 e by (simp add: stun_message_append_addr_def stun_message_append_bytes_def load16_family store_address cong: option.case_cong)
qed

section \<open>Finding an address\<close>

lemma slice_sub:
  assumes "mem_slice m i n = Some v" and "0 \<le> i" and "j + k \<le> n"
  shows "mem_slice m (i + int j) k = Some (take k (drop j v))"
proof -
  have v: "i + int n \<le> int (length m)" "v = take n (drop (nat i) m)" using assms(1) by (auto simp: mem_slice_def split: if_splits)
  have "drop j (take n (drop (nat i) m)) = take (n - j) (drop (nat i + j) m)" by (simp add: drop_take add.commute)
  moreover have "nat (i + int j) = nat i + j" using assms(2) by simp
  ultimately show ?thesis using v assms(2,3) by (simp add: mem_slice_def min_def)
qed

lemma slice_load8:
  assumes "mem_slice m i n = Some v" and "0 \<le> i" and "j < n"
  shows "load8 m (i + int j) = Some (v ! j)"
proof -
  have v: "i + int n \<le> int (length m)" "v = take n (drop (nat i) m)" using assms(1) by (auto simp: mem_slice_def split: if_splits)
  then show ?thesis using assms(2,3) by (simp add: load8_def nat_add_distrib)
qed

lemma slice_length: "mem_slice m i n = Some v \<Longrightarrow> length v = n"
  by (auto simp: mem_slice_def split: if_splits)

lemma unat_eq_word: "unat w = n \<Longrightarrow> w = word_of_nat n" for w :: "'a :: len word"
  by auto

fun spare_zeros :: "endpoint \<Rightarrow> octets \<times> octets" where
  "spare_zeros (Inet p a) = (replicate 8 0, [])"
| "spare_zeros (Inet6 p a) = (replicate 4 0, replicate 4 0)"

definition sockaddr_zero :: "endpoint \<Rightarrow> octets" where
  "sockaddr_zero e = sockaddr e (fst (spare_zeros e)) (snd (spare_zeros e))"

lemma spare_zeros: "spare e (fst (spare_zeros e)) (snd (spare_zeros e))"
  by (cases e) (simp_all add: spare_def)

lemma store_zeros:
  assumes "i = int (length a)" and "length b \<le> n"
  shows "store (a @ replicate n 0) i b = Some (a @ b @ replicate (n - length b) 0)"
proof -
  have "replicate n 0 = replicate (length b) 0 @ replicate (n - length b) (0 :: u8)" using assms(2) by (simp flip: replicate_add)
  then show ?thesis using store_mid [OF assms(1), of "replicate (length b) 0" b] by simp
qed

text \<open>What the reader does with the object: it is cleared, then the family, the port and the address are stored.\<close>

lemma fill_sockaddr:
  assumes "length q = 2" and "length out = n" and "4 + k + length a \<le> n"
  shows "(store out 0 (replicate n 0) \<bind> (\<lambda>x. store x 0 (le16_bytes f) \<bind> (\<lambda>x. store x 2 q \<bind> (\<lambda>x. store x (4 + int k) a \<bind> g)))) =
    g (le16_bytes f @ q @ replicate k 0 @ a @ replicate (n - 4 - k - length a) 0)"
proof -
  have "replicate (n - 4) 0 = replicate k 0 @ replicate (n - 4 - k) (0 :: u8)" using assms(3) by (simp flip: replicate_add)
  then have "store (le16_bytes f @ q @ replicate (n - 4) 0) (4 + int k) a =
      Some (le16_bytes f @ q @ replicate k 0 @ a @ replicate (n - 4 - k - length a) 0)"
    using store_zeros [of "4 + int k" "le16_bytes f @ q @ replicate k 0" a "n - 4 - k"] assms by simp
  moreover have "store out 0 (replicate n 0) = Some (replicate n 0)" using assms(2) by (simp add: store_def)
  moreover have "store (replicate n 0) 0 (le16_bytes f) = Some (le16_bytes f @ replicate (n - 2) 0)"
    using store_zeros [of 0 "[]" "le16_bytes f" n] assms(3) by simp
  moreover have "store (le16_bytes f @ replicate (n - 2) 0) 2 q = Some (le16_bytes f @ q @ replicate (n - 4) 0)"
    using store_zeros [of 2 "le16_bytes f" q "n - 2"] assms(1,3) by simp
  ultimately show ?thesis by simp
qed

lemma find_addr_value:
  assumes "stun_message_find msg type = Some (Some (p, n))" and "mem_slice (msg_buffer msg) (int p) (unat n) = Some (address_value e)"
    and "endpoint_ok e" and "length out = sockaddr_size e"
  shows "stun_message_find_addr msg type out (word_of_nat (sockaddr_size e)) =
    Some (STUN_MESSAGE_RETURN_SUCCESS, sockaddr_zero e, word_of_nat (sockaddr_size e))"
proof -
  let ?m = "msg_buffer msg"
  have n: "n = word_of_nat (length (address_value e))" using slice_length [OF assms(2)] by (metis unat_eq_word)
  show ?thesis
  proof (cases e)
    case (Inet q a)
    then have e: "length q = 2" "length a = 4" "length out = 16" "n = 8" using assms(3,4) n by simp_all
    have "load8 ?m (int p + 1) = Some 1" "mem_slice ?m (int p + 2) 2 = Some q" "mem_slice ?m (int p + 4) 4 = Some a"
      using slice_load8 [OF assms(2), of 1] slice_sub [OF assms(2), of 2 2] slice_sub [OF assms(2), of 4 4] Inet e by simp_all
    then show ?thesis
      using assms(1) e Inet fill_sockaddr [of q out 16 0 a AF_INET] by (simp add: stun_message_find_addr_def sockaddr_zero_def)
  next
    case (Inet6 q a)
    then have e: "length q = 2" "length a = 16" "length out = 28" "n = 20" using assms(3,4) n by simp_all
    have "load8 ?m (int p + 1) = Some 2" "mem_slice ?m (int p + 2) 2 = Some q" "mem_slice ?m (int p + 4) 16 = Some a"
      using slice_load8 [OF assms(2), of 1] slice_sub [OF assms(2), of 2 2] slice_sub [OF assms(2), of 4 16] Inet6 e by simp_all
    then show ?thesis
      using assms(1) e Inet6 fill_sockaddr [of q out 28 4 a AF_INET6] by (simp add: stun_message_find_addr_def sockaddr_zero_def)
  qed
qed

section \<open>Round trip\<close>

lemma length_sockaddr: "endpoint_ok e \<Longrightarrow> spare e x y \<Longrightarrow> length (sockaddr e x y) = sockaddr_size e"
  by (cases e) (auto simp: spare_def)

lemma sockaddr_size_masked [simp]: "sockaddr_size (masked k tid e) = sockaddr_size e" "spare (masked k tid e) x y = spare e x y"
  by (cases e; simp add: spare_def)+

lemma length_address_value: "endpoint_ok e \<Longrightarrow> length (address_value e) = (case e of Inet _ _ \<Rightarrow> 8 | Inet6 _ _ \<Rightarrow> 20)"
  by (cases e) simp_all

lemma stored_address: "endpoint_ok e \<Longrightarrow> stored_value al tid (address_value e) = address_value e"
  by (cases e) (simp_all add: stored_value_def padded_def)

lemma unat_sockaddr_size: "unat (word_of_nat (sockaddr_size e) :: u32) = sockaddr_size e" "\<not> word_of_nat (sockaddr_size e) > (128 :: u32)"
  by (cases e; simp)+

lemma append_xor_addr_bytes:
  assumes "endpoint_ok e" and "spare e x y" and "stun_message_id msg = Some tid" and "length tid = 16" and "length junk = 128"
  shows "stun_message_append_xor_addr junk msg type (sockaddr e x y) (word_of_nat (sockaddr_size e)) =
    stun_message_append_bytes msg type (address_value (masked STUN_MAGIC_COOKIE tid e)) (word_of_nat (length (address_value (masked STUN_MAGIC_COOKIE tid e))))"
proof -
  let ?e = "masked STUN_MAGIC_COOKIE tid e" let ?n = "word_of_nat (sockaddr_size e) :: u32" let ?z = "drop (sockaddr_size e) junk"
  have len: "length (sockaddr e x y) = sockaddr_size e" using assms(1,2) by (rule length_sockaddr)
  have "mem_slice (sockaddr e x y) 0 (unat ?n) = Some (sockaddr e x y)" by (rule slice_all) (simp add: unat_sockaddr_size len)
  moreover have "store junk 0 (sockaddr e x y) = Some (sockaddr e x y @ ?z)" using assms(5) len by (cases e) (simp_all add: store_def)
  moreover have "stun_xor_address msg (sockaddr e x y @ ?z) ?n STUN_MAGIC_COOKIE = Some (STUN_MESSAGE_RETURN_SUCCESS, sockaddr ?e x y @ ?z)"
    using assms by (intro xor_address_masked) simp_all
  ultimately show ?thesis
    using append_addr_bytes [OF masked_ok [OF assms(1,4)], where x = x and y = y and z = ?z] assms(2) by (simp add: stun_message_append_xor_addr_def unat_sockaddr_size)
qed

lemma find_xor_addr_value:
  assumes "stun_message_find msg type = Some (Some (p, n))"
    and "mem_slice (msg_buffer msg) (int p) (unat n) = Some (address_value (masked STUN_MAGIC_COOKIE tid e))"
    and "endpoint_ok e" and "length out = sockaddr_size e" and "stun_message_id msg = Some tid" and "length tid = 16"
  shows "stun_message_find_xor_addr msg type out (word_of_nat (sockaddr_size e)) =
    Some (STUN_MESSAGE_RETURN_SUCCESS, sockaddr_zero e, word_of_nat (sockaddr_size e))"
proof -
  let ?e = "masked STUN_MAGIC_COOKIE tid e" let ?n = "word_of_nat (sockaddr_size e) :: u32"
  have e: "endpoint_ok ?e" using assms(3,6) by (rule masked_ok)
  have z: "sockaddr_zero ?e = sockaddr ?e (fst (spare_zeros e)) (snd (spare_zeros e))" by (cases e) (simp_all add: sockaddr_zero_def)
  have "stun_message_find_addr msg type out ?n = Some (STUN_MESSAGE_RETURN_SUCCESS, sockaddr_zero ?e, ?n)"
    using find_addr_value [OF assms(1,2) e, of out] assms(4) by simp
  moreover have "stun_xor_address msg (sockaddr_zero ?e) ?n STUN_MAGIC_COOKIE = Some (STUN_MESSAGE_RETURN_SUCCESS, sockaddr_zero e)"
    using xor_address_masked [OF e assms(5,6), of _ _ ?n "[]" STUN_MAGIC_COOKIE] spare_zeros [of e]
      masked_masked [OF assms(3,6), of STUN_MAGIC_COOKIE] unfolding z sockaddr_zero_def [of e] by simp
  ultimately show ?thesis by (simp add: stun_message_find_xor_addr_def)
qed

text \<open>
  C15. An end point appended with \<^verbatim>\<open>stun_message_append_xor_addr\<close> is what \<^verbatim>\<open>stun_message_find_xor_addr\<close> returns,
  for IPv4 and IPv6, whatever the unused members of the address were, as long as the attribute is reachable.
\<close>

theorem stun_xor_address_roundtrip:
  assumes "stun_parts msg h tid body room" and "tlvs (aligned msg) body = Some as" and "reaches (swapped msg type) as"
    and "append_room msg body room (length (address_value e))" and "endpoint_ok e" and "spare e x y" and "length junk = 128"
    and "length out = sockaddr_size e"
  shows "\<exists>msg'. stun_message_append_xor_addr junk msg type (sockaddr e x y) (word_of_nat (sockaddr_size e)) = Some (STUN_MESSAGE_RETURN_SUCCESS, msg') \<and>
    stun_message_find_xor_addr msg' type out (word_of_nat (sockaddr_size e)) =
      Some (STUN_MESSAGE_RETURN_SUCCESS, sockaddr_zero e, word_of_nat (sockaddr_size e))"
proof -
  let ?e = "masked STUN_MAGIC_COOKIE tid e" let ?v = "address_value ?e"
  have tid: "length tid = 16" "stun_message_id msg = Some tid" using assms(1) parts_id by (auto simp: stun_parts_def)
  have e: "endpoint_ok ?e" "length ?v = length (address_value e)"
    using assms(5) tid(1) masked_ok by (simp_all add: length_address_value) (cases e; simp)
  obtain msg' body' rest where a: "stun_message_append_bytes msg type ?v (word_of_nat (length ?v)) = Some (STUN_MESSAGE_RETURN_SUCCESS, msg')"
      "msg' = msg\<lparr>msg_buffer := msg_buffer msg'\<rparr>" "stun_parts msg' h tid body' rest"
      "tlvs (aligned msg') body' = Some (as @ [(swapped msg type, stored_value (aligned msg) tid ?v)])"
    using append_bytes_attrs [OF assms(1,2), of ?v type] assms(4) e(2) by metis
  have sw: "swapped msg' type = swapped msg type" using a(2) by (metis aligned_buffer(2))
  have at: "stun_attrs msg' = Some (as @ [(swapped msg type, ?v)])" using stun_parts_attrs [OF a(3)] a(4) stored_address [OF e(1)] by simp
  have "lookup_attr (swapped msg' type) (as @ [(swapped msg type, ?v)]) = Some ?v" by (simp add: lookup_reaches [OF assms(3)] sw)
  then obtain p n where "stun_message_find msg' type = Some (Some (p, n))" "mem_slice (msg_buffer msg') (int p) (unat n) = Some ?v"
    by (rule find_value [OF at])
  from find_xor_addr_value [OF this assms(5,8) parts_id [OF a(3)] tid(1)] show ?thesis
    using a(1) append_xor_addr_bytes [OF assms(5,6) tid(2,1) assms(7), of type] by simp
qed

theorem stun_xor_address_roundtrip_witness:
  "\<exists>msg'. stun_message_append_xor_addr (replicate 128 0) sample_message 0x20 (sockaddr (Inet [0x1f, 0x90] [192, 168, 0, 1]) (replicate 8 7) []) 16 =
      Some (STUN_MESSAGE_RETURN_SUCCESS, msg') \<and>
    stun_message_find_xor_addr msg' 0x20 (replicate 16 0) 16 =
      Some (STUN_MESSAGE_RETURN_SUCCESS, sockaddr_zero (Inet [0x1f, 0x90] [192, 168, 0, 1]), 16)"
proof -
  let ?tid = "[0x21, 0x12, 0xA4, 0x42] @ replicate 12 0" let ?body = "[0, 6, 0, 3, 97, 98, 99, 0 :: u8]" let ?e = "Inet [0x1f, 0x90] [192, 168, 0, 1]"
  have "stun_parts sample_message [0, 1] ?tid ?body (replicate 28 0)" by (simp add: stun_parts_def sample_message_def w16_def)
  moreover have "tlvs (aligned sample_message) ?body = Some [(6, [97, 98, 99])]" by (simp add: aligned_def sample_message_def padded_def be16_def)
  moreover have "reaches (swapped sample_message 0x20) [(6, [97, 98, 99])]" by (simp add: reaches_def swapped_def sample_message_def)
  moreover have "append_room sample_message ?body (replicate 28 0) (length (address_value ?e))"
    by (simp add: append_room_def padded_def aligned_def sample_message_def)
  moreover have "endpoint_ok ?e" "spare ?e (replicate 8 7) []" by (simp_all add: spare_def)
  ultimately show ?thesis
    using stun_xor_address_roundtrip [where msg = sample_message and e = ?e and x = "replicate 8 7" and y = "[]" and type = "0x20"
      and junk = "replicate 128 0" and out = "replicate 16 0"] by simp
qed

end
