(* ===== verification/Stun_Rfc5389.thy ===== *)
theory Stun_Rfc5389
  imports Stun_Attributes
begin

text \<open>
  What RFC 5389 adds to STUN messages: the fingerprint, of \<^verbatim>\<open>libnice/stun/stuncrc32.c\<close> and \<^verbatim>\<open>stun5389.c\<close>, and the name of
  the software. The table of the checksum is shown to be that of the polynomial, and the fingerprint to detect every
  change within four consecutive octets of what it covers.
\<close>

section \<open>The checksum\<close>

definition crc32_tab :: "u32 list" where
  "crc32_tab =
     [0x00000000, 0x77073096, 0xee0e612c, 0x990951ba, 0x076dc419, 0x706af48f, 0xe963a535, 0x9e6495a3,
      0x0edb8832, 0x79dcb8a4, 0xe0d5e91e, 0x97d2d988, 0x09b64c2b, 0x7eb17cbd, 0xe7b82d07, 0x90bf1d91,
      0x1db71064, 0x6ab020f2, 0xf3b97148, 0x84be41de, 0x1adad47d, 0x6ddde4eb, 0xf4d4b551, 0x83d385c7,
      0x136c9856, 0x646ba8c0, 0xfd62f97a, 0x8a65c9ec, 0x14015c4f, 0x63066cd9, 0xfa0f3d63, 0x8d080df5,
      0x3b6e20c8, 0x4c69105e, 0xd56041e4, 0xa2677172, 0x3c03e4d1, 0x4b04d447, 0xd20d85fd, 0xa50ab56b,
      0x35b5a8fa, 0x42b2986c, 0xdbbbc9d6, 0xacbcf940, 0x32d86ce3, 0x45df5c75, 0xdcd60dcf, 0xabd13d59,
      0x26d930ac, 0x51de003a, 0xc8d75180, 0xbfd06116, 0x21b4f4b5, 0x56b3c423, 0xcfba9599, 0xb8bda50f,
      0x2802b89e, 0x5f058808, 0xc60cd9b2, 0xb10be924, 0x2f6f7c87, 0x58684c11, 0xc1611dab, 0xb6662d3d,
      0x76dc4190, 0x01db7106, 0x98d220bc, 0xefd5102a, 0x71b18589, 0x06b6b51f, 0x9fbfe4a5, 0xe8b8d433,
      0x7807c9a2, 0x0f00f934, 0x9609a88e, 0xe10e9818, 0x7f6a0dbb, 0x086d3d2d, 0x91646c97, 0xe6635c01,
      0x6b6b51f4, 0x1c6c6162, 0x856530d8, 0xf262004e, 0x6c0695ed, 0x1b01a57b, 0x8208f4c1, 0xf50fc457,
      0x65b0d9c6, 0x12b7e950, 0x8bbeb8ea, 0xfcb9887c, 0x62dd1ddf, 0x15da2d49, 0x8cd37cf3, 0xfbd44c65,
      0x4db26158, 0x3ab551ce, 0xa3bc0074, 0xd4bb30e2, 0x4adfa541, 0x3dd895d7, 0xa4d1c46d, 0xd3d6f4fb,
      0x4369e96a, 0x346ed9fc, 0xad678846, 0xda60b8d0, 0x44042d73, 0x33031de5, 0xaa0a4c5f, 0xdd0d7cc9,
      0x5005713c, 0x270241aa, 0xbe0b1010, 0xc90c2086, 0x5768b525, 0x206f85b3, 0xb966d409, 0xce61e49f,
      0x5edef90e, 0x29d9c998, 0xb0d09822, 0xc7d7a8b4, 0x59b33d17, 0x2eb40d81, 0xb7bd5c3b, 0xc0ba6cad,
      0xedb88320, 0x9abfb3b6, 0x03b6e20c, 0x74b1d29a, 0xead54739, 0x9dd277af, 0x04db2615, 0x73dc1683,
      0xe3630b12, 0x94643b84, 0x0d6d6a3e, 0x7a6a5aa8, 0xe40ecf0b, 0x9309ff9d, 0x0a00ae27, 0x7d079eb1,
      0xf00f9344, 0x8708a3d2, 0x1e01f268, 0x6906c2fe, 0xf762575d, 0x806567cb, 0x196c3671, 0x6e6b06e7,
      0xfed41b76, 0x89d32be0, 0x10da7a5a, 0x67dd4acc, 0xf9b9df6f, 0x8ebeeff9, 0x17b7be43, 0x60b08ed5,
      0xd6d6a3e8, 0xa1d1937e, 0x38d8c2c4, 0x4fdff252, 0xd1bb67f1, 0xa6bc5767, 0x3fb506dd, 0x48b2364b,
      0xd80d2bda, 0xaf0a1b4c, 0x36034af6, 0x41047a60, 0xdf60efc3, 0xa867df55, 0x316e8eef, 0x4669be79,
      0xcb61b38c, 0xbc66831a, 0x256fd2a0, 0x5268e236, 0xcc0c7795, 0xbb0b4703, 0x220216b9, 0x5505262f,
      0xc5ba3bbe, 0xb2bd0b28, 0x2bb45a92, 0x5cb36a04, 0xc2d7ffa7, 0xb5d0cf31, 0x2cd99e8b, 0x5bdeae1d,
      0x9b64c2b0, 0xec63f226, 0x756aa39c, 0x026d930a, 0x9c0906a9, 0xeb0e363f, 0x72076785, 0x05005713,
      0x95bf4a82, 0xe2b87a14, 0x7bb12bae, 0x0cb61b38, 0x92d28e9b, 0xe5d5be0d, 0x7cdcefb7, 0x0bdbdf21,
      0x86d3d2d4, 0xf1d4e242, 0x68ddb3f8, 0x1fda836e, 0x81be16cd, 0xf6b9265b, 0x6fb077e1, 0x18b74777,
      0x88085ae6, 0xff0f6a70, 0x66063bca, 0x11010b5c, 0x8f659eff, 0xf862ae69, 0x616bffd3, 0x166ccf45,
      0xa00ae278, 0xd70dd2ee, 0x4e048354, 0x3903b3c2, 0xa7672661, 0xd06016f7, 0x4969474d, 0x3e6e77db,
      0xaed16a4a, 0xd9d65adc, 0x40df0b66, 0x37d83bf0, 0xa9bcae53, 0xdebb9ec5, 0x47b2cf7f, 0x30b5ffe9,
      0xbdbdf21c, 0xcabac28a, 0x53b39330, 0x24b4a3a6, 0xbad03605, 0xcdd70693, 0x54de5729, 0x23d967bf,
      0xb3667a2e, 0xc4614ab8, 0x5d681b02, 0x2a6f2b94, 0xb40bbe37, 0xc30c8ea1, 0x5a05df1b, 0x2d02ef8d]"

text \<open>One octet of the loop. The flag \<^verbatim>\<open>wlm2009_stupid_crc32_typo\<close> asks for the deviation of one peer, which has a wrong entry.\<close>

definition crc_octet :: "bool \<Rightarrow> u32 \<Rightarrow> u8 \<Rightarrow> u32" where
  "crc_octet typo crc p =
     (let lkp = crc32_tab ! unat ((crc XOR ucast p) AND 0xFF);
          lkp = (if lkp = 0x8bbeb8ea \<and> typo then 0x8bbe8ea else lkp)
      in lkp XOR drop_bit 8 crc)"

text \<open>The pieces are buffers with the length to read; the pointer may be into the middle of an object.\<close>

primrec crc_pieces :: "bool \<Rightarrow> (octets \<times> u32) list \<Rightarrow> u32 \<Rightarrow> u32 option" where
  "crc_pieces typo [] crc = Some crc"
| "crc_pieces typo (d # ds) crc = do {
     b \<leftarrow> mem_slice (fst d) 0 (unat (snd d));
     crc_pieces typo ds (fold (\<lambda>p crc. crc_octet typo crc p) b crc)
   }"

definition stun_crc32 :: "(octets \<times> u32) list \<Rightarrow> bool \<Rightarrow> u32 option" where
  "stun_crc32 data typo = do { crc \<leftarrow> crc_pieces typo data 0xffffffff; Some (crc XOR 0xffffffff) }"

definition stun_fingerprint :: "octets \<Rightarrow> u32 \<Rightarrow> bool \<Rightarrow> u32 option" where
  "stun_fingerprint msg len typo = do {
     let fakelen = bswap16 (ucast (len - 20));
     tail \<leftarrow> mem_from msg 4;
     crc \<leftarrow> stun_crc32 [(msg, 2), (le16_bytes fakelen, 2), (tail, len - 12)] typo;
     Some (bswap32 (crc XOR 0x5354554e))
   }"

section \<open>The polynomial\<close>

definition crc_bit :: "u32 \<Rightarrow> u32" where
  "crc_bit c = (if bit c 0 then drop_bit 1 c XOR 0xedb88320 else drop_bit 1 c)"

fun doubled :: "u32 list \<Rightarrow> u32 list" where
  "doubled [] = [0]"
| "doubled (b # bs) = (let t = doubled bs in t @ map (\<lambda>x. x XOR b) t)"

lemma crc32_tab_doubled: "crc32_tab = doubled (map (\<lambda>k. crc32_tab ! (2 ^ k)) [7, 6, 5, 4, 3, 2, 1, 0])"
  by code_simp

lemma crc32_tab_basis: "map (\<lambda>k. crc32_tab ! (2 ^ k)) [7, 6, 5, 4, 3, 2, 1, 0] = map (\<lambda>w. (crc_bit ^^ 8) w) [128, 64, 32, 16, 8, 4, 2, 1]"
  by code_simp

lemma bit_crc_bit: "bit (crc_bit c) n \<longleftrightarrow> bit c (Suc n) \<noteq> (bit c 0 \<and> bit (0xedb88320 :: u32) n)"
  by (auto simp: crc_bit_def bit_simps bit_xor_iff simp del: bit_numeral_simps)

lemma crc_bit_xor: "crc_bit (a XOR b) = crc_bit a XOR crc_bit b"
  by (rule bit_word_eqI) (auto simp: bit_crc_bit bit_xor_iff)

lemma crc_bits_xor: "(crc_bit ^^ k) (a XOR b) = (crc_bit ^^ k) a XOR (crc_bit ^^ k) b"
  by (induction k) (simp_all add: crc_bit_xor)

lemma crc_bits_zero [simp]: "(crc_bit ^^ k) 0 = 0"
  using crc_bits_xor [of k 0 0] by simp

lemma crc_bits_shift: "take_bit k c = 0 \<Longrightarrow> (crc_bit ^^ k) c = drop_bit k c"
proof (induction k arbitrary: c)
  case (Suc k)
  have "\<not> bit c i" if "i < Suc k" for i using Suc.prems that by (metis bit_0_eq bit_take_bit_iff bot_apply bot_bool_def)
  then have "take_bit k (drop_bit 1 c) = 0" "crc_bit c = drop_bit 1 c" by (auto simp: crc_bit_def bit_simps intro!: bit_word_eqI)
  then show ?case using Suc.IH [of "drop_bit 1 c"] by (simp add: funpow_swap1 drop_bit_drop_bit del: funpow.simps) (simp add: funpow_Suc_right del: funpow.simps)
qed simp

lemma doubled_linear:
  fixes f :: "u32 \<Rightarrow> u32"
  assumes "\<And>a b. f (a XOR b) = f a XOR f b" and "k \<le> 8"
  shows "doubled (map (\<lambda>j. f (word_of_nat (2 ^ j))) (rev [0..<k])) = map (\<lambda>n. f (word_of_nat n)) [0..<2 ^ k]"
  using assms(2)
proof (induction k)
  case 0
  have "f 0 = 0" using assms(1) [of 0 0] by simp
  then show ?case by simp
next
  case (Suc k)
  have "list_all (\<lambda>k. list_all (\<lambda>m. word_of_nat (m + 2 ^ k) = word_of_nat m XOR (word_of_nat (2 ^ k) :: u32)) [0..<2 ^ k]) [0..<8]" by code_simp
  then have "word_of_nat (m + 2 ^ k) = word_of_nat m XOR (word_of_nat (2 ^ k) :: u32)" if "m < 2 ^ k" for m
    using Suc.prems that by (auto simp: list_all_iff simp del: upt_rec_numeral)
  then have split: "f (word_of_nat (m + 2 ^ k)) = f (word_of_nat m) XOR f (word_of_nat (2 ^ k))" if "m < 2 ^ k" for m
    using that assms(1) by metis
  have "[0..<2 ^ Suc k] = [0..<2 ^ k] @ map (\<lambda>m. m + 2 ^ k) [0..<2 ^ k]"
    unfolding map_add_upt by (simp only: power_Suc mult_2 upt_add_eq_append [OF le0])
  moreover have "map ((\<lambda>n. f (word_of_nat n)) \<circ> (\<lambda>m. m + 2 ^ k)) [0..<2 ^ k] = map ((\<lambda>x. x XOR f (word_of_nat (2 ^ k))) \<circ> (\<lambda>n. f (word_of_nat n))) [0..<2 ^ k]"
    by (rule map_cong [OF refl]) (simp only: set_upt atLeastLessThan_iff comp_apply split)
  ultimately show ?case using Suc.IH Suc.prems by (simp add: Let_def del: power_Suc of_nat_power of_nat_add)
qed

lemma crc32_tab_polynomial:
  assumes "n < 256"
  shows "crc32_tab ! n = (crc_bit ^^ 8) (word_of_nat n)"
proof -
  have "crc32_tab = doubled (map (\<lambda>j. (crc_bit ^^ 8) (word_of_nat (2 ^ j))) (rev [0..<8]))"
    using crc32_tab_doubled unfolding crc32_tab_basis by (simp add: upt_rec)
  then have "crc32_tab = map (\<lambda>n. (crc_bit ^^ 8) (word_of_nat n)) [0..<256]"
    using doubled_linear [of "\<lambda>c. (crc_bit ^^ 8) c" 8, OF crc_bits_xor] by simp
  then have "crc32_tab ! n = map (\<lambda>n. (crc_bit ^^ 8) (word_of_nat n)) [0..<256] ! n" by (rule arg_cong)
  then show ?thesis using assms by (simp del: funpow.simps)
qed

section \<open>The shift register\<close>

text \<open>One octet of the loop is eight steps of the register, in which the octet was added at the low end.\<close>

lemma crc_octet_register: "crc_octet False c p = (crc_bit ^^ 8) (c XOR ucast p)"
proof -
  let ?x = "c XOR ucast p"
  have "?x = take_bit 8 ?x XOR (?x AND NOT (mask 8))" by (rule bit_word_eqI) (auto simp: bit_simps)
  then have "(crc_bit ^^ 8) ?x = (crc_bit ^^ 8) (take_bit 8 ?x) XOR (crc_bit ^^ 8) (?x AND NOT (mask 8))"
    by (metis crc_bits_xor)
  also have "(crc_bit ^^ 8) (?x AND NOT (mask 8)) = drop_bit 8 (?x AND NOT (mask 8))"
    by (rule crc_bits_shift) (auto intro!: bit_word_eqI simp: bit_simps)
  also have "drop_bit 8 (?x AND NOT (mask 8)) = drop_bit 8 c"
    by (rule bit_word_eqI) (auto simp: bit_simps dest: bit_imp_le_length)
  also have "unat (take_bit 8 ?x) < 256" using unsigned_take_bit_eq [where ?'a = nat, of 8 ?x] take_bit_nat_less_exp [of 8 "unat ?x"] by simp
  then have "(crc_bit ^^ 8) (take_bit 8 ?x) = crc32_tab ! unat (?x AND 0xFF)"
    using crc32_tab_polynomial [of "unat (take_bit 8 ?x)"] take_bit_eq_mask [of 8 ?x] by (simp add: mask_eq_exp_minus_1 del: funpow.simps)
  finally show ?thesis by (simp add: crc_octet_def Let_def)
qed

text \<open>The definition of the checksum: the bits of the message enter one by one, the least significant bit of an octet first.\<close>

definition crc_shift :: "bool \<Rightarrow> u32 \<Rightarrow> u32" where
  "crc_shift b c = crc_bit (c XOR of_bool b)"

definition octet_bits :: "u8 \<Rightarrow> bool list" where
  "octet_bits p = map (bit p) [0..<8]"

definition crc32 :: "octets \<Rightarrow> u32" where
  "crc32 bs = NOT (fold crc_shift (concat (map octet_bits bs)) (NOT 0))"

lemma crc_shift_bits: "fold crc_shift (map (bit p) [0..<k]) c = (crc_bit ^^ k) (c XOR take_bit k (ucast p))" for p :: u8
proof (induction k)
  case (Suc k)
  have "take_bit (Suc k) (ucast p) = take_bit k (ucast p) XOR (if bit p k then push_bit k 1 else (0 :: u32))"
    by (rule bit_word_eqI) (auto simp: bit_simps less_Suc_eq dest: bit_imp_le_length)
  moreover have "(crc_bit ^^ k) (push_bit k 1) = 1" if "k < 32"
  proof -
    have "take_bit k (push_bit k 1) = (0 :: u32)" "drop_bit k (push_bit k 1) = (1 :: u32)"
      using that by (auto intro!: bit_word_eqI simp: bit_take_bit_iff bit_drop_bit_eq bit_push_bit_iff bit_1_iff bit_exp_iff)
    then show ?thesis using crc_bits_shift [of k "push_bit k 1"] by simp
  qed
  moreover have "bit p k \<Longrightarrow> k < 32" using bit_imp_le_length by fastforce
  ultimately show ?case using Suc by (simp add: crc_shift_def crc_bits_xor xor.assoc [symmetric] del: take_bit_Suc)
qed simp

lemma fold_crc_octet: "fold (\<lambda>p c. crc_octet False c p) bs c = fold crc_shift (concat (map octet_bits bs)) c"
proof (induction bs arbitrary: c)
  case (Cons p bs)
  have "take_bit 8 (ucast p :: u32) = ucast p" by (rule bit_word_eqI) (auto simp: bit_simps dest: bit_imp_le_length)
  then have "fold crc_shift (octet_bits p) c = crc_octet False c p"
    using crc_shift_bits [of p 8 c] by (simp add: octet_bits_def crc_octet_register del: funpow.simps upt_rec_numeral)
  then show ?case using Cons by simp
qed simp

lemma crc_pieces_eq:
  assumes "list_all (\<lambda>d. unat (snd d) \<le> length (fst d)) ds"
  shows "crc_pieces typo ds c = Some (fold (\<lambda>p c. crc_octet typo c p) (concat (map (\<lambda>d. take (unat (snd d)) (fst d)) ds)) c)"
  using assms by (induction ds arbitrary: c) (simp_all add: mem_slice_def del: of_nat_unat)

lemma word_ones: "(0xffffffff :: u32) = - 1"
  by simp

text \<open>
  C19. \<^verbatim>\<open>stun_crc32\<close> without the deviation is the checksum of IEEE 802.3 of the concatenation of the pieces: the
  shift register of the polynomial, started with ones and complemented.
\<close>

theorem stun_crc32_correct:
  assumes "list_all (\<lambda>d. unat (snd d) \<le> length (fst d)) data"
  shows "stun_crc32 data False = Some (crc32 (concat (map (\<lambda>d. take (unat (snd d)) (fst d)) data)))"
  using assms by (simp add: stun_crc32_def crc_pieces_eq fold_crc_octet crc32_def word_ones)

theorem stun_crc32_correct_witness:
  "stun_crc32 [([49, 50, 51, 52, 53, 54, 55, 56, 57, 0], 9)] False = Some (crc32 [49, 50, 51, 52, 53, 54, 55, 56, 57]) \<and>
   stun_crc32 [([49, 50, 51, 52, 53, 54, 55, 56, 57, 0], 9)] False = Some 0xcbf43926"
proof
  show "stun_crc32 [([49, 50, 51, 52, 53, 54, 55, 56, 57, 0], 9)] False = Some (crc32 [49, 50, 51, 52, 53, 54, 55, 56, 57])"
    using stun_crc32_correct [of "[([49, 50, 51, 52, 53, 54, 55, 56, 57, 0], 9)]"] by simp
  show "stun_crc32 [([49, 50, 51, 52, 53, 54, 55, 56, 57, 0], 9)] False = Some 0xcbf43926" by code_simp
qed

section \<open>Bursts\<close>

text \<open>The register is reversible, and up to four octets reach it as one word.\<close>

lemma xor_left_cancel: "c XOR a = c XOR b \<Longrightarrow> a = b" for a b c :: u32
proof -
  assume "c XOR a = c XOR b"
  then have "c XOR (c XOR a) = c XOR (c XOR b)" by simp
  then show "a = b" by (simp add: xor.assoc [symmetric])
qed

lemma crc_bit_inj: "crc_bit a = crc_bit b \<Longrightarrow> a = b"
proof -
  assume eq: "crc_bit a = crc_bit b"
  have "bit (0xedb88320 :: u32) 31" by simp
  then have "bit (crc_bit c) 31 = bit c 0" for c unfolding bit_crc_bit by (auto dest: bit_imp_le_length)
  then have low: "bit a 0 = bit b 0" using eq by metis
  have "bit a n = bit b n" for n
  proof (cases n)
    case (Suc m)
    have "bit (crc_bit a) m = bit (crc_bit b) m" using eq by simp
    then show ?thesis using low Suc by (auto simp: bit_crc_bit)
  qed (use low in simp)
  then show "a = b" by (simp add: bit_eq_iff)
qed

lemma crc_bits_inj: "(crc_bit ^^ k) a = (crc_bit ^^ k) b \<Longrightarrow> a = b"
  by (induction k) (auto dest: crc_bit_inj)

lemma fold_crc_octet_inj:
  "fold (\<lambda>p c. crc_octet False c p) bs a = fold (\<lambda>p c. crc_octet False c p) bs b \<Longrightarrow> a = b"
proof (induction bs arbitrary: a b)
  case (Cons p bs)
  then have "(crc_bit ^^ 8) (a XOR ucast p) = (crc_bit ^^ 8) (b XOR ucast p)"
    by (simp only: fold_simps crc_octet_register)
  then have "a XOR ucast p = b XOR ucast p" by (rule crc_bits_inj)
  then show ?case using xor_left_cancel [of "ucast p" a b] by (simp add: xor.commute)
qed simp

primrec register_word :: "octets \<Rightarrow> u32" where
  "register_word [] = 0"
| "register_word (p # bs) = ucast p XOR push_bit 8 (register_word bs)"

lemma bit_register_word: "bit (register_word bs) n \<longleftrightarrow> n < 32 \<and> n div 8 < length bs \<and> bit (bs ! (n div 8)) (n mod 8)"
proof (induction bs arbitrary: n)
  case (Cons p bs)
  show ?case
  proof (cases "n < 8")
    case False
    then have "n div 8 = Suc ((n - 8) div 8)" "n mod 8 = (n - 8) mod 8" by (simp_all add: le_div_geq le_mod_geq)
    moreover have "\<not> bit p n" using False bit_imp_le_length [of p n] by auto
    ultimately show ?thesis using False Cons [of "n - 8"] by (auto simp: bit_xor_iff bit_push_bit_iff bit_unsigned_iff)
  qed (auto simp: bit_xor_iff bit_push_bit_iff bit_unsigned_iff)
qed simp

lemma register_word_inj:
  assumes "register_word bs = register_word bs'" "length bs = length bs'" "length bs \<le> 4"
  shows "bs = bs'"
proof (rule nth_equalityI)
  fix i assume i: "i < length bs"
  show "bs ! i = bs' ! i"
  proof (rule bit_word_eqI)
    fix n assume n: "n < LENGTH(8)"
    have "(8 * i + n) div 8 = i" "(8 * i + n) mod 8 = n" "8 * i + n < 32" using i n assms by auto
    then have "bit (register_word bs) (8 * i + n) = bit (bs ! i) n" "bit (register_word bs') (8 * i + n) = bit (bs' ! i) n"
      using i assms(2) unfolding bit_register_word by simp_all
    then show "bit (bs ! i) n = bit (bs' ! i) n" using assms(1) by simp
  qed
qed (use assms in simp)

lemma fold_crc_octet_word:
  "length bs \<le> 4 \<Longrightarrow> fold (\<lambda>p c. crc_octet False c p) bs c = (crc_bit ^^ (8 * length bs)) (c XOR register_word bs)"
proof (induction bs arbitrary: c)
  case (Cons p bs)
  have "take_bit 8 (push_bit 8 (register_word bs)) = 0" by (rule bit_word_eqI) (auto simp: bit_simps)
  moreover have "drop_bit 8 (push_bit 8 (register_word bs)) = register_word bs"
  proof (rule bit_word_eqI)
    fix n assume "n < LENGTH(32)"
    have "\<not> bit (register_word bs) n" if "24 \<le> n" using that Cons.prems by (auto simp: bit_register_word)
    then show "bit (drop_bit 8 (push_bit 8 (register_word bs))) n = bit (register_word bs) n"
      by (cases "24 \<le> n") (auto simp: bit_drop_bit_eq bit_push_bit_iff)
  qed
  ultimately have "crc_octet False c p XOR register_word bs = (crc_bit ^^ 8) (c XOR register_word (p # bs))"
    using crc_bits_shift [of 8 "push_bit 8 (register_word bs)"]
    by (simp add: crc_octet_register crc_bits_xor xor.assoc del: funpow.simps)
  moreover have "(crc_bit ^^ (8 * length (p # bs))) x = (crc_bit ^^ (8 * length bs)) ((crc_bit ^^ 8) x)" for x
    using funpow_add [of "8 * length bs" 8 crc_bit] by (simp add: add.commute del: funpow.simps)
  ultimately show ?case using Cons by (simp del: funpow.simps register_word.simps)
qed simp

lemma crc_burst:
  assumes "length b = length b'" "length b \<le> 4" "b \<noteq> b'"
  shows "fold (\<lambda>p c. crc_octet False c p) (a @ b @ d) c \<noteq> fold (\<lambda>p c. crc_octet False c p) (a @ b' @ d) c"
proof
  let ?f = "fold (\<lambda>p c. crc_octet False c p)"
  assume "?f (a @ b @ d) c = ?f (a @ b' @ d) c"
  then have "?f b (?f a c) = ?f b' (?f a c)" using fold_crc_octet_inj [of d "?f b (?f a c)" "?f b' (?f a c)"] by simp
  then have "?f a c XOR register_word b = ?f a c XOR register_word b'" 
    using fold_crc_octet_word [of b "?f a c"] fold_crc_octet_word [of b' "?f a c"] assms(1,2) crc_bits_inj by metis
  then have "register_word b = register_word b'" by (rule xor_left_cancel)
  then show False using assms register_word_inj by blast
qed

section \<open>The fingerprint\<close>

text \<open>The octets that the fingerprint covers: the message up to the fingerprint attribute, with its own length.\<close>

definition fingerprint_text :: "octets \<Rightarrow> u32 \<Rightarrow> octets" where
  "fingerprint_text msg len =
     take 2 msg @ le16_bytes (bswap16 (ucast (len - 20))) @ take (unat len - 12) (drop 4 msg)"

lemma stun_fingerprint_eq:
  assumes "28 \<le> unat len" "unat len \<le> length msg"
  shows "stun_fingerprint msg len typo =
    Some (bswap32 ((fold (\<lambda>p c. crc_octet typo c p) (fingerprint_text msg len) 0xffffffff XOR 0xffffffff) XOR 0x5354554e))"
proof -
  let ?l = "le16_bytes (bswap16 (ucast (len - 20)))" and ?d = "\<lambda>l. [(msg, 2), (l, 2), (drop 4 msg, len - 12)]"
  have len: "unat (len - 12) = unat len - 12" using assms(1) by (simp add: unat_sub word_le_nat_alt)
  have "length ?l = 2" by (simp add: le16_bytes_def)
  then have "crc_pieces typo (?d ?l) c = Some (fold (\<lambda>p c. crc_octet typo c p) (fingerprint_text msg len) c)" for c
    using crc_pieces_eq [of "?d ?l" typo c] assms len by (simp add: fingerprint_text_def)
  then show ?thesis using assms by (simp add: stun_fingerprint_def stun_crc32_def mem_from_def Let_def del: crc_pieces.simps)
qed

lemma stun_fingerprint_crc32:
  assumes "28 \<le> unat len" "unat len \<le> length msg"
  shows "stun_fingerprint msg len False = Some (bswap32 (crc32 (fingerprint_text msg len) XOR 0x5354554e))"
  using stun_fingerprint_eq [OF assms, of False] by (simp add: fold_crc_octet crc32_def word_ones)

text \<open>A burst outside the length field is a burst of the covered octets.\<close>

lemma fingerprint_text_burst:
  assumes "28 \<le> unat len" "unat len \<le> length (a @ b @ d)" "length a + length b \<le> 2 \<or> 4 \<le> length a"
    and "length a + length b + 8 \<le> unat len"
  obtains u v where "\<forall>c. length c = length b \<longrightarrow> fingerprint_text (a @ c @ d) len = u @ c @ v"
proof (cases "4 \<le> length a")
  case True
  show ?thesis
    by (rule that [of "take 2 a @ le16_bytes (bswap16 (ucast (len - 20))) @ drop 4 a" "take (unat len - 8 - length a - length b) d"])
      (use True assms in \<open>auto simp: fingerprint_text_def\<close>)
next
  case False
  let ?k = "length a + length b"
  have k: "?k \<le> 2" using False assms(3) by simp
  show ?thesis
    by (rule that [of a "take (2 - ?k) d @ le16_bytes (bswap16 (ucast (len - 20))) @ take (unat len - 12) (drop (4 - ?k) d)"])
      (use k in \<open>auto simp: fingerprint_text_def diff_diff_eq\<close>)
qed



section \<open>The name of the software\<close>

definition utf8_skip_data :: "nat list" where
  "utf8_skip_data = replicate 192 1 @ replicate 32 2 @ replicate 16 3 @ replicate 8 4 @ replicate 4 5 @ [6, 6, 1, 1]"

text \<open>The loop over the characters of a string in memory; \<open>ptr\<close> is an offset.\<close>

function software_loop :: "octets \<Rightarrow> nat \<Rightarrow> nat \<Rightarrow> nat option" where
  "software_loop software ptr len = do {
     c \<leftarrow> load8 software (int ptr);
     if c \<noteq> 0 \<and> len < 128 then software_loop software (ptr + utf8_skip_data ! unat c) (len + 1) else Some ptr
   }"
  by pat_completeness auto
termination by (relation "measure (\<lambda>(s, p, len). 128 - len)") auto

definition PACKAGE_STRING :: octets where
  "PACKAGE_STRING = [108, 105, 98, 110, 105, 99, 101, 32, 48, 46, 49, 46, 49, 46, 49, 0]"

definition stun_message_append_software :: "StunMessage \<Rightarrow> octets option \<Rightarrow> (StunMessageReturn \<times> StunMessage) option" where
  "stun_message_append_software msg software = do {
     let software = (case software of None \<Rightarrow> PACKAGE_STRING | Some s \<Rightarrow> s);
     ptr \<leftarrow> software_loop software 0 0;
     stun_message_append_bytes msg 0x8022 software (word_of_nat ptr)
   }"

declare software_loop.simps [simp del]

text \<open>
  A character of RFC 3629: one octet up to \<open>7F\<close>, or a lead octet with one to three continuation octets, without
  overlong forms, surrogates and values past \<open>10FFFF\<close>. The terminator is not one.
\<close>

definition utf8_tail :: "u8 \<Rightarrow> bool" where
  "utf8_tail x \<longleftrightarrow> 0x80 \<le> x \<and> x \<le> 0xBF"

fun utf8_char :: "octets \<Rightarrow> bool" where
  "utf8_char [x] \<longleftrightarrow> 0x01 \<le> x \<and> x \<le> 0x7F"
| "utf8_char [x, y] \<longleftrightarrow> 0xC2 \<le> x \<and> x \<le> 0xDF \<and> utf8_tail y"
| "utf8_char [x, y, z] \<longleftrightarrow> 0xE0 \<le> x \<and> x \<le> 0xEF \<and> utf8_tail y \<and> utf8_tail z \<and>
     (x = 0xE0 \<longrightarrow> 0xA0 \<le> y) \<and> (x = 0xED \<longrightarrow> y \<le> 0x9F)"
| "utf8_char [x, y, z, w] \<longleftrightarrow> 0xF0 \<le> x \<and> x \<le> 0xF4 \<and> utf8_tail y \<and> utf8_tail z \<and> utf8_tail w \<and>
     (x = 0xF0 \<longrightarrow> 0x90 \<le> y) \<and> (x = 0xF4 \<longrightarrow> y \<le> 0x8F)"
| "utf8_char _ \<longleftrightarrow> False"

text \<open>The table has the length of a character at its lead octet.\<close>

lemma utf8_skip_lead:
  "(1 \<le> x \<and> x \<le> 0x7F \<longrightarrow> utf8_skip_data ! unat x = 1) \<and> (0xC2 \<le> x \<and> x \<le> 0xDF \<longrightarrow> utf8_skip_data ! unat x = 2) \<and>
   (0xE0 \<le> x \<and> x \<le> 0xEF \<longrightarrow> utf8_skip_data ! unat x = 3) \<and> (0xF0 \<le> x \<and> x \<le> 0xF4 \<longrightarrow> utf8_skip_data ! unat x = 4)" for x :: u8
  unfolding utf8_skip_data_def by (auto simp: nth_append nth_Cons' word_le_nat_alt)

lemma utf8_char_skip:
  assumes "utf8_char c"
  shows "c \<noteq> []" and "hd c \<noteq> 0" and "utf8_skip_data ! unat (hd c) = length c" and "length c \<le> 4"
proof -
  from assms show "c \<noteq> []" "hd c \<noteq> 0" "length c \<le> 4" by (auto elim!: utf8_char.elims)
  from assms show "utf8_skip_data ! unat (hd c) = length c" using utf8_skip_lead [of "hd c"] by (auto elim!: utf8_char.elims)
qed

lemma software_loop_step:
  assumes "c \<noteq> []" "hd c \<noteq> 0" "len < 128"
  shows "software_loop (a @ c @ r) (length a) len = software_loop (a @ c @ r) (length a + utf8_skip_data ! unat (hd c)) (Suc len)"
  using assms software_loop.simps [of "a @ c @ r" "length a" len] by (cases c) (simp_all add: load8_def nth_append)

lemma software_loop_chars:
  assumes "list_all utf8_char cs" and "len \<le> 128"
  shows "software_loop (a @ concat cs @ r) (length a) len =
    software_loop (a @ concat cs @ r) (length (a @ concat (take (128 - len) cs))) (len + min (128 - len) (length cs))"
  using assms
proof (induction cs arbitrary: a len)
  case (Cons c cs)
  show ?case
  proof (cases "len = 128")
    case False
    then have "software_loop (a @ concat (c # cs) @ r) (length a) len = software_loop ((a @ c) @ concat cs @ r) (length (a @ c)) (Suc len)"
      using Cons.prems software_loop_step [of c len a "concat cs @ r"] by (simp add: utf8_char_skip)
    moreover obtain k where "128 - len = Suc k" "128 - Suc len = k" using False Cons.prems by (cases "128 - len") auto
    moreover have "Suc len \<le> 128" "list_all utf8_char cs" using False Cons.prems by simp_all
    ultimately show ?thesis using Cons.IH [of "Suc len" "a @ c"] by simp
  qed simp
qed simp

lemma software_loop_text:
  assumes "list_all utf8_char cs"
  shows "software_loop (concat cs @ 0 # r) 0 0 = Some (length (concat (take 128 cs)))"
proof -
  let ?s = "concat cs @ 0 # r" and ?p = "length (concat (take 128 cs))" and ?n = "min 128 (length cs)"
  have "?s = concat (take 128 cs) @ concat (drop 128 cs) @ 0 # r"
    by (metis append_assoc append_take_drop_id concat_append)
  then have p: "?p < length ?s" "?n < 128 \<Longrightarrow> ?s ! ?p = 0" by (simp_all add: nth_append)
  have "software_loop ?s 0 0 = software_loop ?s ?p ?n"
    using software_loop_chars [OF assms, of 0 "[]" "0 # r"] by simp
  also have "\<dots> = Some ?p" using p software_loop.simps [of ?s ?p ?n] by (auto simp: load8_def)
  finally show ?thesis .
qed

lemma append_bytes_prefix:
  "unat n \<le> length d \<Longrightarrow> stun_message_append_bytes msg t d n = stun_message_append_bytes msg t (take (unat n) d) n"
  by (simp add: stun_message_append_bytes_def mem_slice_def cong: option.case_cong del: of_nat_unat)

text \<open>
  C21. \<^verbatim>\<open>stun_message_append_software\<close> appends the first 128 characters of a terminated text of well-formed UTF-8
  characters (RFC 3629) as an attribute, whatever lies behind the terminator; the message has room for it.
\<close>

theorem stun_message_append_software_correct:
  assumes "list_all utf8_char cs"
    and "stun_parts msg h tid body room" "tlvs (aligned msg) body = Some as"
    and "append_room msg body room (length (concat (take 128 cs)))"
  shows "\<exists>msg'. stun_message_append_software msg (Some (concat cs @ 0 # r)) = Some (STUN_MESSAGE_RETURN_SUCCESS, msg') \<and>
     stun_attrs msg' = Some (as @ [(swapped msg 0x8022, stored_value (aligned msg) tid (concat (take 128 cs)))])"
proof -
  let ?t = "concat (take 128 cs)" and ?s = "concat cs @ 0 # r"
  have "length (concat ds) \<le> 4 * length ds" if "list_all utf8_char ds" for ds
    using that by (induction ds) (auto dest: utf8_char_skip(4))
  moreover have "list_all utf8_char (take 128 cs)" using assms(1) by (auto simp: list_all_iff dest: in_set_takeD)
  ultimately have "length ?t \<le> 4 * length (take 128 cs)" by blast
  then have n: "unat (word_of_nat (length ?t) :: u32) = length ?t" by (intro unat_word32) simp
  have "?s = ?t @ concat (drop 128 cs) @ 0 # r" by (metis append_assoc append_take_drop_id concat_append)
  then have "take (length ?t) ?s = ?t" "length ?t \<le> length ?s" by simp_all
  then have "stun_message_append_software msg (Some ?s) = stun_message_append_bytes msg 0x8022 ?t (word_of_nat (length ?t))"
    using append_bytes_prefix [of "word_of_nat (length ?t)" ?s msg "0x8022"] n
    by (simp only: stun_message_append_software_def software_loop_text [OF assms(1)] option.case Let_def bind.bind_lunit)
  then show ?thesis using append_bytes_attrs [OF assms(2-4)] stun_parts_attrs by metis
qed

theorem stun_message_append_software_correct_witness:
  "\<exists>msg'. stun_message_append_software sample_message (Some [97, 0xE2, 0x82, 0xAC, 0xF0, 0x9F, 0x98, 0x80, 0xC3, 0xA4, 98, 99, 0, 99]) = Some (STUN_MESSAGE_RETURN_SUCCESS, msg') \<and>
     stun_attrs msg' = Some [(6, [97, 98, 99]), (0x8022, [97, 0xE2, 0x82, 0xAC, 0xF0, 0x9F, 0x98, 0x80, 0xC3, 0xA4, 98, 99])]"
proof -
  let ?tid = "[0x21, 0x12, 0xA4, 0x42] @ replicate 12 0" let ?body = "[0, 6, 0, 3, 97, 98, 99, 0 :: u8]"
  let ?cs = "[[97], [0xE2, 0x82, 0xAC], [0xF0, 0x9F, 0x98, 0x80], [0xC3, 0xA4], [98], [99 :: u8]]"
  have "stun_parts sample_message [0, 1] ?tid ?body (replicate 28 0)" by (simp add: stun_parts_def sample_message_def w16_def)
  moreover have "tlvs (aligned sample_message) ?body = Some [(6, [97, 98, 99])]" by code_simp
  moreover have "append_room sample_message ?body (replicate 28 0) (length (concat (take 128 ?cs)))"
    by (simp add: append_room_def padded_def aligned_def sample_message_def)
  moreover have "list_all utf8_char ?cs" by code_simp
  moreover have "stored_value (aligned sample_message) ?tid [97, 0xE2, 0x82, 0xAC, 0xF0, 0x9F, 0x98, 0x80, 0xC3, 0xA4, 98, 99] = [97, 0xE2, 0x82, 0xAC, 0xF0, 0x9F, 0x98, 0x80, 0xC3, 0xA4, 98, 99]" "swapped sample_message 0x8022 = 0x8022"
    by (simp_all add: stored_value_def padded_def swapped_def sample_message_def)
  ultimately show ?thesis using stun_message_append_software_correct [of ?cs sample_message "[0, 1]" ?tid ?body "replicate 28 0" _ "[99]"] by simp
qed

text \<open>A text that ends within a character makes the loop step over the terminator and read behind the text.\<close>

lemma stun_message_append_software_overread:
  assumes "list_all utf8_char cs" "length cs < 128"
    and "c \<noteq> []" "hd c \<noteq> 0" "length c < utf8_skip_data ! unat (hd c)"
  shows "stun_message_append_software msg (Some (concat cs @ c @ [0])) = None"
proof -
  let ?a = "concat cs" and ?k = "utf8_skip_data ! unat (hd c)"
  have "software_loop (?a @ c @ [0]) 0 0 = software_loop (?a @ c @ [0]) (length ?a) (length cs)"
    using software_loop_chars [OF assms(1), of 0 "[]" "c @ [0]"] assms(2) by simp
  also have "\<dots> = software_loop (?a @ c @ [0]) (length ?a + ?k) (Suc (length cs))"
    using assms by (rule_tac software_loop_step) auto
  also have "\<dots> = None" using assms(5) software_loop.simps [of "?a @ c @ [0]" "length ?a + ?k"] by (simp add: load8_def)
  finally show ?thesis by (simp add: stun_message_append_software_def)
qed

end
