(* ===== verification/Stun_Timer.thy ===== *)
theory Stun_Timer
  imports Prelude "HOL-Library.Signed_Division"
begin

text \<open>
  The retransmission timer of STUN transactions, \<^verbatim>\<open>libnice/stun/usages/timer.c\<close>. Times are what the Windows branch of
  \<^verbatim>\<open>stun_gettime\<close> makes of a system time, which is an argument. The members of a \<^verbatim>\<open>timeval\<close> are signed and 32 bits wide;
  they are integers here, and a sum that leaves the range is undefined, \<open>None\<close>. The delay and the counters are
  unsigned words.
\<close>

section \<open>The timer\<close>

record timeval =
  tv_sec :: int
  tv_usec :: int

record StunTimer =
  timer_deadline :: timeval
  timer_delay :: u32
  retransmissions :: u32
  max_retransmissions :: u32

datatype StunUsageTimerReturn =
    STUN_USAGE_TIMER_RETURN_SUCCESS | STUN_USAGE_TIMER_RETURN_RETRANSMIT | STUN_USAGE_TIMER_RETURN_TIMEOUT

definition c_long :: "int \<Rightarrow> int option" where
  "c_long x = (if - (2 ^ 31) \<le> x \<and> x < 2 ^ 31 then Some x else None)"

definition stun_gettime :: "u64 \<Rightarrow> timeval" where
  "stun_gettime ft =
     (let time64 = (ft - 116444736000000000) div 10
      in \<lparr>tv_sec = sint (ucast (time64 div 1000000) :: u32), tv_usec = uint (time64 mod 1000000)\<rparr>)"

text \<open>The loop of \<^verbatim>\<open>add_delay\<close>, and the function: \<^verbatim>\<open>div\<close> takes the delay as a signed integer and rounds towards zero.\<close>

function carry_usec :: "int \<Rightarrow> int \<Rightarrow> timeval option" where
  "carry_usec sec usec =
     (if usec > 1000000 then do { sec \<leftarrow> c_long (sec + 1); carry_usec sec (usec - 1000000) }
      else Some \<lparr>tv_sec = sec, tv_usec = usec\<rparr>)"
  by pat_completeness auto
termination by (relation "measure (\<lambda>(s, u). nat u)") auto

definition add_delay :: "timeval \<Rightarrow> u32 \<Rightarrow> timeval option" where
  "add_delay ts delay = do {
     sec \<leftarrow> c_long (tv_sec ts + sint delay sdiv 1000);
     usec \<leftarrow> c_long (tv_usec ts + sint delay smod 1000 * 1000);
     carry_usec sec usec
   }"

definition stun_timer_start :: "u64 \<Rightarrow> u32 \<Rightarrow> u32 \<Rightarrow> StunTimer option" where
  "stun_timer_start clock initial_timeout max_retrans = do {
     deadline \<leftarrow> add_delay (stun_gettime clock) initial_timeout;
     Some \<lparr>timer_deadline = deadline, timer_delay = initial_timeout, retransmissions = 0, max_retransmissions = max_retrans\<rparr>
   }"

definition stun_timer_start_reliable :: "u64 \<Rightarrow> u32 \<Rightarrow> StunTimer option" where
  "stun_timer_start_reliable clock initial_timeout = stun_timer_start clock initial_timeout 0"

definition stun_timer_remainder :: "StunTimer \<Rightarrow> u64 \<Rightarrow> u32 option" where
  "stun_timer_remainder timer clock =
     (let now = stun_gettime clock
      in if tv_sec now > tv_sec (timer_deadline timer) then Some 0
         else do {
           sec \<leftarrow> c_long (tv_sec (timer_deadline timer) - tv_sec now);
           let delay = word_of_int sec;
           if delay = 0 \<and> tv_usec now \<ge> tv_usec (timer_deadline timer) then Some 0
           else do {
             usec \<leftarrow> c_long (tv_usec (timer_deadline timer) - tv_usec now);
             Some (delay * 1000 + word_of_int (usec sdiv 1000))
           }
         })"

definition stun_timer_refresh :: "StunTimer \<Rightarrow> u64 \<Rightarrow> (StunUsageTimerReturn \<times> StunTimer) option" where
  "stun_timer_refresh timer clock = do {
     delay \<leftarrow> stun_timer_remainder timer clock;
     if delay = 0 then
       if retransmissions timer \<ge> max_retransmissions timer then Some (STUN_USAGE_TIMER_RETURN_TIMEOUT, timer)
       else do {
         let delay2 = timer_delay timer * 2;
         deadline \<leftarrow> add_delay (timer_deadline timer) delay2;
         Some (STUN_USAGE_TIMER_RETURN_RETRANSMIT,
           timer\<lparr>timer_deadline := deadline, timer_delay := delay2, retransmissions := retransmissions timer + 1\<rparr>)
       }
     else Some (STUN_USAGE_TIMER_RETURN_SUCCESS, timer)
   }"

text \<open>A transaction asks its timer again and again, each time at some reading of the clock.\<close>

primrec refreshes :: "StunTimer \<Rightarrow> u64 list \<Rightarrow> (StunUsageTimerReturn list \<times> StunTimer) option" where
  "refreshes timer [] = Some ([], timer)"
| "refreshes timer (clock # clocks) = do {
     (r, timer) \<leftarrow> stun_timer_refresh timer clock;
     (rs, timer) \<leftarrow> refreshes timer clocks;
     Some (r # rs, timer)
   }"

section \<open>The clock in microseconds\<close>

definition micros :: "timeval \<Rightarrow> int" where
  "micros ts = tv_sec ts * 1000000 + tv_usec ts"

definition unix_clock :: "u64 \<Rightarrow> int" where
  "unix_clock ft = (uint ft - 116444736000000000) div 10"

text \<open>The readings from 1970 to 2038.\<close>

definition clock_ok :: "u64 \<Rightarrow> bool" where
  "clock_ok ft \<longleftrightarrow> 116444736000000000 \<le> uint ft \<and> unix_clock ft < 2 ^ 31 * 1000000"

lemma stun_gettime_ok:
  assumes "clock_ok ft"
  shows "tv_sec (stun_gettime ft) = unix_clock ft div 1000000" "tv_usec (stun_gettime ft) = unix_clock ft mod 1000000"
proof -
  have e: "uint (116444736000000000 :: u64) = 116444736000000000" by simp
  then have "uint (ft - 116444736000000000) = uint ft - 116444736000000000"
    using assms uint_sub_if' [of ft 116444736000000000] by (simp add: clock_ok_def)
  then have t: "uint ((ft - 116444736000000000) div 10) = unix_clock ft" by (simp add: uint_div unix_clock_def)
  let ?s = "((ft - 116444736000000000) div 10) div 1000000"
  have s: "uint ?s = unix_clock ft div 1000000" using t by (simp add: uint_div)
  moreover have "0 \<le> unix_clock ft div 1000000" "unix_clock ft div 1000000 < 2 ^ 31"
    using assms by (auto simp: clock_ok_def unix_clock_def)
  ultimately show "tv_sec (stun_gettime ft) = unix_clock ft div 1000000"
    by (simp add: stun_gettime_def Let_def sint_uint unsigned_ucast_eq signed_take_bit_int_eq_self take_bit_int_eq_self)
  show "tv_usec (stun_gettime ft) = unix_clock ft mod 1000000" using t by (simp add: stun_gettime_def Let_def uint_mod)
qed

declare carry_usec.simps [simp del]

text \<open>The deadline a timer may hold. The loop of \<^verbatim>\<open>add_delay\<close> leaves a whole second in the microseconds.\<close>

definition deadline_ok :: "timeval \<Rightarrow> bool" where
  "deadline_ok ts \<longleftrightarrow> 0 \<le> tv_sec ts \<and> tv_sec ts < 2 ^ 31 \<and> 0 \<le> tv_usec ts \<and> tv_usec ts \<le> 1000000"

lemma carry_usec_ok:
  assumes "0 \<le> sec" "sec + 1 < 2 ^ 31" "0 \<le> usec" "usec < 2000000"
  shows "\<exists>ts. carry_usec sec usec = Some ts \<and> deadline_ok ts \<and> micros ts = sec * 1000000 + usec"
  using assms carry_usec.simps [of sec usec] carry_usec.simps [of "sec + 1" "usec - 1000000"]
  by (auto simp: c_long_def deadline_ok_def micros_def)

lemma sdiv_nonneg: "0 \<le> d \<Longrightarrow> d sdiv 1000 = d div 1000" "0 \<le> d \<Longrightarrow> d smod 1000 = d mod 1000" for d :: int
  by (simp_all add: signed_divide_int_def signed_modulo_int_def sgn_if)

lemma carry_sum: "a * 1000 + b = c \<Longrightarrow> (x + a) * 1000000 + (y + b * 1000) = x * 1000000 + y + 1000 * c" for a b c x y :: int
  by (drule sym) (simp add: algebra_simps)

lemma add_delay_ok:
  assumes "deadline_ok ts" "unat delay < 2 ^ 31" "tv_sec ts + int (unat delay) div 1000 + 1 < 2 ^ 31"
  shows "\<exists>ts'. add_delay ts delay = Some ts' \<and> deadline_ok ts' \<and> micros ts' = micros ts + 1000 * int (unat delay)"
proof -
  let ?d = "int (unat delay)"
  have "0 \<le> uint delay" "uint delay < 2 ^ 31" using assms(2) of_nat_less_iff [where ?'a = int, of "unat delay" "2 ^ 31"] by simp_all
  then have "- (2 ^ 31) \<le> uint delay" using order_trans [of "- (2 ^ 31)" 0 "uint delay"] by simp
  then have d: "sint delay = ?d" using \<open>uint delay < 2 ^ 31\<close> signed_take_bit_int_eq_self [of 31 "uint delay"] by (simp add: sint_uint)
  have q: "sint delay sdiv 1000 = ?d div 1000" "sint delay smod 1000 = ?d mod 1000"
    unfolding d by (rule sdiv_nonneg; simp)+
  have "0 \<le> ?d div 1000" by (simp only: pos_imp_zdiv_nonneg_iff zero_less_numeral of_nat_0_le_iff)
  then have "0 \<le> tv_sec ts + ?d div 1000" using assms(1) unfolding deadline_ok_def by linarith
  moreover have "0 \<le> ?d mod 1000" "?d mod 1000 < 1000" by simp_all
  ultimately have "\<exists>ts'. carry_usec (tv_sec ts + ?d div 1000) (tv_usec ts + ?d mod 1000 * 1000) = Some ts' \<and> deadline_ok ts' \<and>
      micros ts' = (tv_sec ts + ?d div 1000) * 1000000 + (tv_usec ts + ?d mod 1000 * 1000)"
    using assms by (intro carry_usec_ok) (auto simp: deadline_ok_def)
  moreover have "c_long (tv_sec ts + ?d div 1000) = Some (tv_sec ts + ?d div 1000)"
    "c_long (tv_usec ts + ?d mod 1000 * 1000) = Some (tv_usec ts + ?d mod 1000 * 1000)"
    using assms \<open>?d mod 1000 < 1000\<close> \<open>0 \<le> tv_sec ts + ?d div 1000\<close> by (auto simp: c_long_def deadline_ok_def)
  moreover have "(tv_sec ts + ?d div 1000) * 1000000 + (tv_usec ts + ?d mod 1000 * 1000) = micros ts + 1000 * ?d"
    unfolding micros_def by (rule carry_sum [OF div_mult_mod_eq])
  ultimately show ?thesis unfolding add_delay_def q by auto
qed

section \<open>The remaining time\<close>

text \<open>The result is the time to the deadline in milliseconds, rounded in one direction or the other.\<close>

lemma sdiv_1000: "\<bar>1000 * (u sdiv 1000) - u\<bar> < 1000" "0 \<le> u \<Longrightarrow> 0 \<le> u sdiv 1000" "u < 0 \<Longrightarrow> - 1000 < u \<Longrightarrow> u sdiv 1000 = 0" for u :: int
  by (auto simp: signed_divide_int_def sgn_if abs_if)

lemma uint_word_of_int_u32: "0 \<le> r \<Longrightarrow> r < 2 ^ 32 \<Longrightarrow> int (unat (word_of_int r :: u32)) = r"
  by (simp add: take_bit_int_eq_self uint_word_of_int_eq)

lemma stun_timer_remainder_ok:
  assumes "deadline_ok (timer_deadline timer)" "clock_ok clock"
    and "micros (timer_deadline timer) - unix_clock clock < 2 ^ 31 * 1000"
  shows "\<exists>d. stun_timer_remainder timer clock = Some d \<and>
     (micros (timer_deadline timer) \<le> unix_clock clock \<longrightarrow> d = 0) \<and>
     (unix_clock clock < micros (timer_deadline timer) \<longrightarrow> \<bar>1000 * int (unat d) - (micros (timer_deadline timer) - unix_clock clock)\<bar> < 1000)"
proof -
  define s u where "s = unix_clock clock div 1000000" and "u = unix_clock clock mod 1000000"
  define S U where "S = tv_sec (timer_deadline timer)" and "U = tv_usec (timer_deadline timer)"
  have now: "stun_gettime clock = \<lparr>tv_sec = s, tv_usec = u\<rparr>" using stun_gettime_ok [OF assms(2)] by (simp add: s_def u_def)
  have c: "unix_clock clock = s * 1000000 + u" "0 \<le> u" "u < 1000000" by (simp_all add: s_def u_def)
  have s: "0 \<le> s" "s < 2 ^ 31" using assms(2) by (auto simp: clock_ok_def unix_clock_def s_def)
  have d: "micros (timer_deadline timer) = S * 1000000 + U" "0 \<le> S" "S < 2 ^ 31" "0 \<le> U" "U \<le> 1000000"
    using assms(1) by (simp_all add: micros_def deadline_ok_def S_def U_def)
  consider "s > S" | "s = S" "U \<le> u" | "s < S \<or> s = S \<and> u < U" by linarith
  then show ?thesis
  proof cases
    case 3
    let ?r = "(S - s) * 1000 + (U - u) sdiv 1000"
    have r: "\<bar>1000 * ?r - (micros (timer_deadline timer) - unix_clock clock)\<bar> < 1000"
      using sdiv_1000(1) [of "U - u"] unfolding c(1) d(1) by (simp add: algebra_simps)
    have "0 \<le> ?r" using 3 sdiv_1000(1,2) [of "U - u"] c d by (auto simp: algebra_simps)
    moreover have "?r < 2 ^ 32" using r assms(3) by simp
    ultimately have "int (unat (word_of_int ?r :: u32)) = ?r" by (rule uint_word_of_int_u32)
    moreover have "stun_timer_remainder timer clock = Some (word_of_int ?r)"
    proof -
      have "c_long (S - s) = Some (S - s)" "c_long (U - u) = Some (U - u)" using 3 c d s by (auto simp: c_long_def)
      moreover have "(word_of_int (S - s) :: u32) = 0 \<longleftrightarrow> S - s = 0"
        using uint_word_of_int_u32 [of "S - s"] 3 d s by (auto simp del: of_int_diff)
      ultimately show ?thesis using 3 unfolding stun_timer_remainder_def now Let_def S_def [symmetric] U_def [symmetric] by (auto simp: not_le)
    qed
    ultimately show ?thesis using r 3 c d by auto
  next
    case 1
    then show ?thesis using c d s unfolding stun_timer_remainder_def now Let_def S_def [symmetric] U_def [symmetric] by auto
  next
    case 2
    then show ?thesis using c d s unfolding stun_timer_remainder_def now Let_def S_def [symmetric] U_def [symmetric] by (auto simp: c_long_def)
  qed
qed

section \<open>The schedule\<close>

text \<open>The deadline of the documentation after \<open>k\<close> retransmissions, in microseconds from the start of the timer.\<close>

definition schedule :: "nat \<Rightarrow> nat \<Rightarrow> int" where
  "schedule T k = 1000 * (int T * (2 ^ Suc k - 1))"

lemma schedule_Suc: "schedule T (Suc k) = schedule T k + 1000 * int (T * 2 ^ Suc k)"
  by (simp add: schedule_def algebra_simps)

lemma schedule_mono: "k \<le> m \<Longrightarrow> schedule T k \<le> schedule T m"
proof (induction rule: dec_induct)
  case (step n)
  have "0 \<le> 1000 * int (T * 2 ^ Suc n)" by simp
  then show ?case using step unfolding schedule_Suc by linarith
qed simp

text \<open>
  The contract of a timer: a history of readings of the clock and answers is admissible when each answer fits the
  deadline at that time. In the last millisecond before the deadline either answer is.
\<close>

fun admissible :: "int \<Rightarrow> nat \<Rightarrow> nat \<Rightarrow> nat \<Rightarrow> (int \<times> StunUsageTimerReturn) list \<Rightarrow> bool" where
  "admissible s T M k [] \<longleftrightarrow> True"
| "admissible s T M k ((c, STUN_USAGE_TIMER_RETURN_SUCCESS) # h) \<longleftrightarrow> c < s + schedule T k \<and> admissible s T M k h"
| "admissible s T M k ((c, STUN_USAGE_TIMER_RETURN_RETRANSMIT) # h) \<longleftrightarrow>
     s + schedule T k - 1000 < c \<and> k < M \<and> admissible s T M (Suc k) h"
| "admissible s T M k ((c, STUN_USAGE_TIMER_RETURN_TIMEOUT) # h) \<longleftrightarrow>
     s + schedule T k - 1000 < c \<and> k = M \<and> admissible s T M k h"

definition timer_fits :: "u64 \<Rightarrow> nat \<Rightarrow> nat \<Rightarrow> bool" where
  "timer_fits clock T M \<longleftrightarrow> clock_ok clock \<and> T * 2 ^ Suc M < 2 ^ 31 \<and> M < 2 ^ 32 \<and>
     unix_clock clock + schedule T M + 2000000 < 2 ^ 31 * 1000000"

definition timer_at :: "u64 \<Rightarrow> nat \<Rightarrow> nat \<Rightarrow> nat \<Rightarrow> StunTimer \<Rightarrow> bool" where
  "timer_at clock T M k timer \<longleftrightarrow> k \<le> M \<and> unat (retransmissions timer) = k \<and> unat (max_retransmissions timer) = M \<and>
     unat (timer_delay timer) = T * 2 ^ k \<and> deadline_ok (timer_deadline timer) \<and>
     micros (timer_deadline timer) = unix_clock clock + schedule T k"

lemma add_delay_fits:
  assumes "deadline_ok ts" "unat delay < 2 ^ 31" "micros ts + 1000 * int (unat delay) + 2000000 < 2 ^ 31 * 1000000"
  shows "\<exists>ts'. add_delay ts delay = Some ts' \<and> deadline_ok ts' \<and> micros ts' = micros ts + 1000 * int (unat delay)"
proof (rule add_delay_ok)
  have "1000 * (int (unat delay) div 1000) \<le> int (unat delay)" by simp
  then show "tv_sec ts + int (unat delay) div 1000 + 1 < 2 ^ 31" using assms(1,3) unfolding micros_def deadline_ok_def by linarith
qed (use assms in auto)

lemma timer_start_at:
  assumes "timer_fits clock T M"
  shows "\<exists>timer. stun_timer_start clock (word_of_nat T) (word_of_nat M) = Some timer \<and> timer_at clock T M 0 timer"
proof -
  let ?ts = "stun_gettime clock" and ?d = "word_of_nat T :: u32"
  have f: "clock_ok clock" "T * 2 ^ Suc M < 2 ^ 31" "M < 2 ^ 32" "unix_clock clock + schedule T M + 2000000 < 2 ^ 31 * 1000000"
    using assms by (auto simp: timer_fits_def)
  have "T \<le> T * 2 ^ Suc M" by simp
  then have T: "T < 2 ^ 31" using f(2) by linarith
  then have d: "unat ?d = T" "unat (word_of_nat M :: u32) = M" using f(3) by (simp_all add: unat_of_nat)
  have g: "tv_sec ?ts = unix_clock clock div 1000000" "tv_usec ?ts = unix_clock clock mod 1000000" by (rule stun_gettime_ok [OF f(1)])+
  have ts: "deadline_ok ?ts" "micros ?ts = unix_clock clock"
    using f(1) g by (auto simp: deadline_ok_def micros_def clock_ok_def unix_clock_def)
  have "schedule T 0 = 1000 * int T" by (simp add: schedule_def)
  moreover have "schedule T 0 \<le> schedule T M" by (simp add: schedule_mono)
  ultimately obtain ts' where "add_delay ?ts ?d = Some ts'" "deadline_ok ts'" "micros ts' = unix_clock clock + schedule T 0"
    using add_delay_fits [of ?ts ?d] ts d T f(4) by auto
  then show ?thesis using d by (auto simp: stun_timer_start_def timer_at_def)
qed

lemma timer_refresh_at:
  assumes "timer_fits clock T M" "timer_at clock T M k timer" "clock_ok now" "unix_clock clock \<le> unix_clock now"
  shows "\<exists>r timer' k'. stun_timer_refresh timer now = Some (r, timer') \<and> timer_at clock T M k' timer' \<and>
     (case r of STUN_USAGE_TIMER_RETURN_SUCCESS \<Rightarrow> unix_clock now < unix_clock clock + schedule T k \<and> k' = k
      | STUN_USAGE_TIMER_RETURN_RETRANSMIT \<Rightarrow> unix_clock clock + schedule T k - 1000 < unix_clock now \<and> k < M \<and> k' = Suc k
      | STUN_USAGE_TIMER_RETURN_TIMEOUT \<Rightarrow> unix_clock clock + schedule T k - 1000 < unix_clock now \<and> k = M \<and> k' = k)"
proof -
  let ?dl = "unix_clock clock + schedule T k"
  have f: "T * 2 ^ Suc M < 2 ^ 31" "M < 2 ^ 32" "unix_clock clock + schedule T M + 2000000 < 2 ^ 31 * 1000000"
    using assms(1) by (auto simp: timer_fits_def)
  have t: "k \<le> M" "unat (retransmissions timer) = k" "unat (max_retransmissions timer) = M" "unat (timer_delay timer) = T * 2 ^ k"
    "deadline_ok (timer_deadline timer)" "micros (timer_deadline timer) = ?dl" using assms(2) by (auto simp: timer_at_def)
  have "T * 2 ^ Suc k \<le> T * 2 ^ Suc M" using t(1) by (intro mult_left_mono power_increasing) auto
  then have k: "T * 2 ^ Suc k < 2 ^ 31" using f(1) by linarith
  then have "schedule T k < 2 ^ 31 * 1000" unfolding schedule_def by (simp add: algebra_simps flip: of_nat_less_iff [where ?'a = int])
  then obtain d where d: "stun_timer_remainder timer now = Some d" "?dl \<le> unix_clock now \<Longrightarrow> d = 0"
      "unix_clock now < ?dl \<Longrightarrow> \<bar>1000 * int (unat d) - (?dl - unix_clock now)\<bar> < 1000"
    using stun_timer_remainder_ok [OF t(5) assms(3)] assms(4) t(6) by auto
  then have near: "?dl - 1000 < unix_clock now" if "d = 0" using that by (cases "?dl \<le> unix_clock now") auto
  consider "d \<noteq> 0" | "d = 0" "k = M" | "d = 0" "k < M" using t(1) by linarith
  then show ?thesis
  proof cases
    case 1
    then have "stun_timer_refresh timer now = Some (STUN_USAGE_TIMER_RETURN_SUCCESS, timer)" "unix_clock now < ?dl"
      using d(1,2) by (auto simp: stun_timer_refresh_def not_le [symmetric])
    then show ?thesis using assms(2) by fastforce
  next
    case 2
    then have "stun_timer_refresh timer now = Some (STUN_USAGE_TIMER_RETURN_TIMEOUT, timer)" "?dl - 1000 < unix_clock now"
      using d(1) t near by (auto simp: stun_timer_refresh_def word_le_nat_alt)
    then show ?thesis using assms(2) 2 by fastforce
  next
    case 3
    have d2: "unat (timer_delay timer * 2) = T * 2 ^ Suc k" using k t(4) by (simp add: unat_word_ariths)
    have s: "?dl + 1000 * int (T * 2 ^ Suc k) = unix_clock clock + schedule T (Suc k)" by (simp add: schedule_Suc)
    moreover have "schedule T (Suc k) \<le> schedule T M" using 3 by (intro schedule_mono) simp
    ultimately obtain ts' where ts': "add_delay (timer_deadline timer) (timer_delay timer * 2) = Some ts'" "deadline_ok ts'"
        "micros ts' = unix_clock clock + schedule T (Suc k)"
      using add_delay_fits [OF t(5), of "timer_delay timer * 2"] d2 t(6) f(3) k by auto
    have "unat (retransmissions timer + 1) = Suc k" using t(2) 3 f(2) by (simp add: unat_word_ariths)
    then show ?thesis using d(1) near t 3 ts' d2 by (auto simp: stun_timer_refresh_def timer_at_def word_le_nat_alt)
  qed
qed

lemma refreshes_admissible:
  assumes "timer_fits clock T M" "list_all (\<lambda>now. clock_ok now \<and> unix_clock clock \<le> unix_clock now) clocks" "timer_at clock T M k timer"
  shows "\<exists>rs timer'. refreshes timer clocks = Some (rs, timer') \<and> length rs = length clocks \<and>
     admissible (unix_clock clock) T M k (zip (map unix_clock clocks) rs)"
  using assms(2,3)
proof (induction clocks arbitrary: timer k)
  case (Cons now clocks)
  then obtain r timer' k' where r: "stun_timer_refresh timer now = Some (r, timer')" "timer_at clock T M k' timer'"
     "case r of STUN_USAGE_TIMER_RETURN_SUCCESS \<Rightarrow> unix_clock now < unix_clock clock + schedule T k \<and> k' = k
      | STUN_USAGE_TIMER_RETURN_RETRANSMIT \<Rightarrow> unix_clock clock + schedule T k - 1000 < unix_clock now \<and> k < M \<and> k' = Suc k
      | STUN_USAGE_TIMER_RETURN_TIMEOUT \<Rightarrow> unix_clock clock + schedule T k - 1000 < unix_clock now \<and> k = M \<and> k' = k"
    using timer_refresh_at [OF assms(1), of k timer now] by auto
  obtain rs t where "refreshes timer' clocks = Some (rs, t)" "length rs = length clocks"
      "admissible (unix_clock clock) T M k' (zip (map unix_clock clocks) rs)"
    using Cons.IH [OF _ r(2)] Cons.prems(1) by auto
  then show ?case using r by (cases r) auto
qed simp

text \<open>
  C17. A timer answers as documented, at whatever readings of the clock it is asked: before the deadline to wait, from the
  deadline on to retransmit, each time with twice the delay, and after the last retransmission that the
  transaction has timed out. No call is undefined.
\<close>

theorem stun_timer_schedule:
  assumes "timer_fits clock T M" "list_all (\<lambda>now. clock_ok now \<and> unix_clock clock \<le> unix_clock now) clocks"
  shows "\<exists>timer rs timer'. stun_timer_start clock (word_of_nat T) (word_of_nat M) = Some timer \<and>
     refreshes timer clocks = Some (rs, timer') \<and> length rs = length clocks \<and>
     admissible (unix_clock clock) T M 0 (zip (map unix_clock clocks) rs)"
  using timer_start_at [OF assms(1)] refreshes_admissible [OF assms] by blast

theorem stun_timer_schedule_witness:
  "\<exists>timer rs timer'. stun_timer_start 130000000000000000 600 3 = Some timer \<and>
     refreshes timer [130000000000000000, 130000000006000000] = Some (rs, timer') \<and> length rs = Suc (Suc 0) \<and>
     admissible 1355526400000000 600 3 0 (zip [1355526400000000, 1355526400600000] rs)"
  using stun_timer_schedule [of 130000000000000000 600 3 "[130000000000000000, 130000000006000000]"]
  by (simp add: timer_fits_def clock_ok_def unix_clock_def schedule_def)

lemma admissible_timeout:
  "admissible s T M k h \<Longrightarrow> (c, STUN_USAGE_TIMER_RETURN_TIMEOUT) \<in> set h \<Longrightarrow> s + schedule T M - 1000 < c"
  by (induction s T M k h rule: admissible.induct) auto

lemma admissible_overdue:
  assumes "admissible s T M k h" "k \<le> M" "M - k < length (filter (\<lambda>(c, r). s + schedule T M \<le> c) h)"
  shows "STUN_USAGE_TIMER_RETURN_TIMEOUT \<in> snd ` set h"
  using assms
proof (induction s T M k h rule: admissible.induct)
  case (2 s T M k c h)
  then show ?case using schedule_mono [of k M T] by (auto split: if_splits)
next
  case (3 s T M k c h)
  then show ?case by (auto split: if_splits)
qed auto

text \<open>
  C18. The total timeout of the documentation, \<^verbatim>\<open>initial_timeout * (2^(max_retransmissions + 1) - 1)\<close> milliseconds: no
  earlier than one millisecond before it a transaction times out, and from then on it does so after at most as many
  further questions as there may be retransmissions.
\<close>

theorem stun_timer_total_timeout:
  assumes "timer_fits clock T M" "list_all (\<lambda>now. clock_ok now \<and> unix_clock clock \<le> unix_clock now) clocks"
  shows "\<exists>timer rs timer'. stun_timer_start clock (word_of_nat T) (word_of_nat M) = Some timer \<and>
     refreshes timer clocks = Some (rs, timer') \<and>
     (\<forall>i < length clocks. rs ! i = STUN_USAGE_TIMER_RETURN_TIMEOUT \<longrightarrow>
       unix_clock clock + 1000 * (int T * (2 ^ (M + 1) - 1)) - 1000 < unix_clock (clocks ! i)) \<and>
     (M < length (filter (\<lambda>now. unix_clock clock + 1000 * (int T * (2 ^ (M + 1) - 1)) \<le> unix_clock now) clocks) \<longrightarrow>
       STUN_USAGE_TIMER_RETURN_TIMEOUT \<in> set rs)"
proof -
  let ?due = "\<lambda>c. unix_clock clock + schedule T M \<le> c"
  obtain timer where timer: "stun_timer_start clock (word_of_nat T) (word_of_nat M) = Some timer" "timer_at clock T M 0 timer"
    using timer_start_at [OF assms(1)] by blast
  then obtain rs timer' where rs: "refreshes timer clocks = Some (rs, timer')" "length rs = length clocks"
      "admissible (unix_clock clock) T M 0 (zip (map unix_clock clocks) rs)"
    using refreshes_admissible [OF assms] by blast
  let ?h = "zip (map unix_clock clocks) rs"
  have "length (filter (\<lambda>(c, r). ?due c) (zip cs qs)) = length (filter ?due cs)" if "length qs = length cs" for cs and qs :: "StunUsageTimerReturn list"
    using that by (induction rule: list_induct2) auto
  from this [of rs "map unix_clock clocks"] have due: "length (filter (\<lambda>(c, r). ?due c) ?h) = length (filter (\<lambda>now. ?due (unix_clock now)) clocks)"
    using rs(2) by (simp add: filter_map comp_def)
  have "(unix_clock (clocks ! i), rs ! i) \<in> set ?h" if "i < length clocks" for i
    using that rs(2) by (auto simp: in_set_zip intro!: exI [of _ i])
  then have "unix_clock clock + schedule T M - 1000 < unix_clock (clocks ! i)"
    if "i < length clocks" "rs ! i = STUN_USAGE_TIMER_RETURN_TIMEOUT" for i
    using that admissible_timeout [OF rs(3)] by metis
  moreover have "STUN_USAGE_TIMER_RETURN_TIMEOUT \<in> set rs" if "M < length (filter (\<lambda>now. ?due (unix_clock now)) clocks)"
    using admissible_overdue [OF rs(3)] that due by (auto dest: set_zip_rightD)
  moreover have "schedule T M = 1000 * (int T * (2 ^ (M + 1) - 1))" by (simp add: schedule_def)
  ultimately show ?thesis using timer(1) rs(1) by (intro exI conjI) auto
qed

theorem stun_timer_total_timeout_witness:
  "\<exists>timer rs timer'. stun_timer_start 130000000000000000 600 3 = Some timer \<and>
     refreshes timer (replicate 4 130000000090000000) = Some (rs, timer') \<and> STUN_USAGE_TIMER_RETURN_TIMEOUT \<in> set rs"
proof -
  have "timer_fits 130000000000000000 600 3" by (simp add: timer_fits_def clock_ok_def unix_clock_def schedule_def)
  moreover have "list_all (\<lambda>now. clock_ok now \<and> unix_clock 130000000000000000 \<le> unix_clock now) (replicate 4 130000000090000000)"
    by (simp add: list_all_iff clock_ok_def unix_clock_def)
  moreover have "3 < length (filter (\<lambda>now. unix_clock 130000000000000000 + 1000 * (int 600 * (2 ^ (3 + 1) - 1)) \<le> unix_clock now) (replicate 4 130000000090000000))"
    by (simp add: unix_clock_def)
  ultimately show ?thesis using stun_timer_total_timeout [of 130000000000000000 600 3 "replicate 4 130000000090000000"]
    by (simp only: of_nat_numeral) blast
qed

end
