(* ===== verification/Spec2Isabelle.thy ===== *)
theory Spec2Isabelle
  imports Replay_Db Replay_Dbx Key_Limit Auth Stat Crypto_Kernel Srtp_Profile Erizo_Channel Rtp_Headers Stun_Address Stun_Rfc5389 Stun_Timer
begin

text \<open>
  Verification of the media security core of the SFU client.

  \<^bold>\<open>The program.\<close> The repository is a Windows client of a selective forwarding unit: a user interface
  (\<^verbatim>\<open>src/Client\<close>), the media core (\<^verbatim>\<open>src/sfup-core\<close>, connections, DTLS, RTP and RTCP) and the C libraries the core
  rests on. Every media packet passes the C library under \<^verbatim>\<open>src/srtp\<close>, the main part of this development: the
  channel of \<^verbatim>\<open>src/sfup-core/SrtpChannel.cpp\<close> decodes two Base64 keys, creates one session for sending and one for
  receiving and calls \<^verbatim>\<open>srtp_protect\<close>, \<^verbatim>\<open>srtp_unprotect\<close> and their RTCP counterparts for each packet. The packets are
  read through the header classes of \<^verbatim>\<open>src/sfup-core/rtp/RtpHeaders.h\<close>. Before media flows, the two ends find each other
  with STUN messages, which \<^verbatim>\<open>src/libnice/stun\<close> composes and takes apart.

  \<^bold>\<open>Parts and theories.\<close> From the bottom up, with the C files they model:

  \<^item> \<open>Prelude\<close>: status codes (\<^verbatim>\<open>err.h\<close>), machine words, octets, generic lemmas on lists, options and words.
  \<^item> \<open>Datatypes\<close> (\<^verbatim>\<open>crypto/math/datatypes.c\<close>, \<^verbatim>\<open>datatypes.h\<close>): octet strings, printing, 128-bit vectors, bit vectors.
  \<^item> \<open>Replay_Guard\<close>, \<open>Replay_Db\<close>, \<open>Replay_Dbx\<close> (\<^verbatim>\<open>crypto/replay/rdb.c\<close>, \<^verbatim>\<open>rdbx.c\<close>): the replay databases of SRTCP and
    SRTP. The locale \<open>replay_guard\<close> is the contract of a replay protector and is interpreted on both.
  \<^item> \<open>Key_Limit\<close> (\<^verbatim>\<open>crypto/kernel/key.c\<close>): the packet budget of a master key.
  \<^item> \<open>Stream_Hash\<close>, \<open>Sha1\<close>, \<open>Hmac\<close>, \<open>Auth_Contract\<close>, \<open>Auth\<close> (\<^verbatim>\<open>crypto/hash\<close>): SHA-1, HMAC-SHA-1, the null function and the
    dispatch over function tables. \<open>stream_hash\<close> and the contract of authentication functions are locales; the
    latter is interpreted on the dispatch functions.
  \<^item> \<open>Aes_Tables\<close>, \<open>Aes\<close>, \<open>Aes_Icm\<close>, \<open>Aes_Cbc\<close> (\<^verbatim>\<open>crypto/cipher\<close>, \<^verbatim>\<open>crypto/math/gf2_8.c\<close>): AES with the little-endian tables, counter
    mode and chaining mode.
  \<^item> \<open>Rng\<close> (\<^verbatim>\<open>crypto/rng\<close>), \<open>Stat\<close> (\<^verbatim>\<open>crypto/math/stat.c\<close>): random sources and their statistical tests.
  \<^item> \<open>Cipher_Contract\<close>, \<open>Cipher\<close>, \<open>Option_Rules\<close>, \<open>Cipher_Test\<close> (\<^verbatim>\<open>crypto/cipher/cipher.c\<close>, \<^verbatim>\<open>null_cipher.c\<close>): cipher objects, their
    contract as a locale with its interpretation, and the self-tests with their data.
  \<^item> \<open>Crypto_Kernel\<close> (\<^verbatim>\<open>crypto/kernel/crypto_kernel.c\<close>): the registries of cipher and authentication types, start,
    status and shutdown.
  \<^item> \<open>Packet_Memory\<close>: loads and stores of the packet as octets; \<open>None\<close> outside the memory.
  \<^item> \<open>Srtp_Policy\<close>, \<open>Ekt\<close>, \<open>Srtp_Stream\<close>, \<open>Srtp_Session\<close>, \<open>Srtp_Packet\<close>, \<open>Srtp_Rtcp\<close> (\<^verbatim>\<open>srtp/srtp.c\<close>, \<^verbatim>\<open>ekt.c\<close>): policies, encrypted
    key transport, streams and key derivation, sessions, and the four packet functions.
  \<^item> \<open>Srtp_Keying\<close>, \<open>Srtp_Transform\<close>, \<open>Srtcp_Transform\<close>, \<open>Srtp_Endpoint\<close>, \<open>Srtp_Life\<close>, \<open>Srtp_Channel\<close>, \<open>Srtp_Replay\<close>,
    \<open>Srtp_Forgery\<close>, \<open>Srtp_Profile\<close>: proofs over these models and no further model of code. They state the transforms of RFC 3711 as
    functions on octet lists, the predicate of a session whose objects are keyed, and the behaviour of two
    sessions with the network between them. They cover sessions that may repeat a transmission and those that may not; \<open>Srtp_Profile\<close> has
    the sessions that are keyed from a DTLS-SRTP profile.
  \<^item> \<open>Gbase64\<close> (\<^verbatim>\<open>glib/glib/gbase64.c\<close>): the incremental encoder and decoder of Base64 and the functions on top of them.
  \<^item> \<open>Erizo_Channel\<close> (\<^verbatim>\<open>sfup-core/SrtpChannel.cpp\<close>, \<^verbatim>\<open>SrtpChannel.h\<close>): the channel object with its two sessions.
  \<^item> \<open>Rtp_Headers\<close> (\<^verbatim>\<open>sfup-core/rtp/RtpHeaders.h\<close>): the bit-fields of the RTP and RTCP headers and their accessors.
  \<^item> \<open>Stun_Message\<close> (\<^verbatim>\<open>libnice/stun/utils.c\<close>, \<^verbatim>\<open>stunmessage.c\<close>, the cookie test of \<^verbatim>\<open>stun5389.c\<close>): STUN messages as buffers.
    \<open>Stun_Attributes\<close>, \<open>Stun_Fields\<close> and \<open>Stun_Address\<close> hold the proofs: the message as a list of attributes, type and
    transaction, and masked addresses.
  \<^item> \<open>Stun_Rfc5389\<close> (\<^verbatim>\<open>libnice/stun/stuncrc32.c\<close>, \<^verbatim>\<open>stun5389.c\<close>): the checksum with its table, the fingerprint, the name of the
    software.
  \<^item> \<open>Stun_Timer\<close> (\<^verbatim>\<open>libnice/stun/usages/timer.c\<close>): the retransmission timer over the system time as an argument.

  \<^bold>\<open>Conventions.\<close> The target is the 32-bit Windows build: little-endian, \<^verbatim>\<open>int\<close>, \<^verbatim>\<open>long\<close> and \<^verbatim>\<open>size_t\<close> of 32
  bits, 64-bit arithmetic. A C function becomes a function that returns its status and the new state. A result
  \<open>None\<close> means undefined behaviour: a load or store outside an object, a null dereference. Uninitialised
  variables and memory from the allocator are arguments or fields of the environment, so that theorems hold for every
  content. Ciphers, authentication functions and key limits, which streams share, live in stores with
  addresses; reference counts are part of the environment. Counters are words of their C width. Loops are
  folds or recursive functions with a termination proof; no model uses fuel. The environment says for each
  allocation whether it succeeds; \<open>env_ready\<close> is a started kernel in which it does. Random octets are a stream in the
  environment. The event handler of the application is a log; it is taken not to call the library back.

  \<^bold>\<open>What is shown.\<close> The two databases answer as a window over the set of accepted indices and never accept one twice; the
  estimate of the extended index is right within half a period; budgets run out when they should. SHA-1 (below
  \<open>2 ^ 28\<close> octets, where a signed product overflows), HMAC,
  the tables and rounds of AES, key expansion and the modes compute what FIPS 180, RFC 2104, FIPS 197 and the mode
  definitions say; decryption inverts encryption (for a key structure that holds its round count already,
  which the expansion reads before it sets it); the generators and statistical tests compute their
  specifications. Self-tests, kernel and sessions keep the reference counts. Setting up a stream derives the six keys
  of RFC 3711. Two sessions of one policy form a channel that delivers every packet unchanged, for any interleaving of
  sources and of RTP and RTCP; releasing them leaves the store as it was. These theorems on sessions are about keys with
  two readable octets behind them (\<open>stream_policy_ok\<close>): the library copies 16 octets of salt where it has 14, so with
  a block of exactly 30 octets already the creation is undefined. Against any network no packet is
  accepted without its authentication code, and none twice where repeated transmission is not allowed. Base64 is that of RFC 4648 and its decoder undoes the
  encoder; with it, two channel objects with crossed key texts of at least 44 characters carry a conversation in both directions,
  and deleting them gives back their ciphers, authentication functions and key limits; for the 40 characters of a
  30-octet key the channel reads past the decoded block and is undefined. The header accessors read the fields of RFC 3550 and the setters change nothing else.
  Validation, lookup and extension of a STUN message implement the same operations on its list of attributes; type,
  transaction and addresses are read back as they were written. The checksum is that of the polynomial, the fingerprint
  detects every change within four octets of what it covers, and a timer follows the documented schedule. Where the code misbehaves there is a theorem too: array
  overruns, reads behind keys and in front of packets, a session that is released twice, a length that wraps, a
  counter that wraps, a generator that starves, a start-up that cannot be repeated, profiles that select the wrong policy.

  \<^bold>\<open>Not modelled.\<close> Variants for other machines (big-endian tables, 32-bit arithmetic only), debug output, the test
  programs, \<^verbatim>\<open>xfm.c\<close> and \<^verbatim>\<open>math.c\<close>, which are not linked. Of libnice: the STUN
  agents, which rest on a second SHA-1, on MD5 and on system services, and the ICE agent, most of which is
  sockets and GObject plumbing. Of the media core: the packet queues, bandwidth estimates,
  VP8 descriptors, session descriptions and connections, C++ classes over shared pointers, clocks and threads. The rest of
  GLib, zlib, PolarSSL, mbedTLS, jsoncpp, DuiLib, TinyXML-2 and the logging and testing libraries are copies of other
  projects; user interface, threads, sockets and calls of OpenSSL, libav and libwebrtc have no source here to model.
\<close>

end
